(* ===== verification/Prelude.thy ===== *)
theory Prelude
  imports Main "HOL-Library.Word"
begin

text \<open>
  Shared vocabulary of the development: the driver's integer types
  (\<^verbatim>\<open>include/rtmp_type.h\<close>), its memory macros (\<^verbatim>\<open>include/os/rt_linux.h\<close>), byte order
  conversions, and the generic lemmas on lists, bytes and words that the component theories
  rely on.  Buffers are lists; a write past the end of a buffer makes the list longer, so a
  lemma that a length is kept is also a memory-safety statement.
\<close>

unbundle bit_operations_syntax

named_theorems buf_simps \<open>rewriting of buffer reads, writes and lengths\<close>
named_theorems xor_simps \<open>cancellation of exclusive-or on words and byte strings\<close>

type_synonym UINT8 = "8 word"
type_synonym UINT16 = "16 word"
type_synonym UINT32 = "32 word"
type_synonym UINT64 = "64 word"
type_synonym bytes = "8 word list"

section \<open>Memory macros\<close>

text \<open>\<open>NdisMoveMemory dst off src\<close> copies \<open>src\<close> to \<open>dst + off\<close>.\<close>

definition NdisMoveMemory :: "'a list \<Rightarrow> nat \<Rightarrow> 'a list \<Rightarrow> 'a list" where
  "NdisMoveMemory dst off src = take off dst @ src @ drop (off + length src) dst"

definition NdisFillMemory :: "'a list \<Rightarrow> nat \<Rightarrow> nat \<Rightarrow> 'a \<Rightarrow> 'a list" where
  "NdisFillMemory dst off n v = NdisMoveMemory dst off (replicate n v)"

definition NdisZeroMemory :: "nat \<Rightarrow> bytes" where
  "NdisZeroMemory n = replicate n 0"

lemma length_NdisMoveMemory [buf_simps]:
  "off + length src \<le> length dst \<Longrightarrow> length (NdisMoveMemory dst off src) = length dst"
  by (simp add: NdisMoveMemory_def)

lemma length_NdisFillMemory [buf_simps]:
  "off + n \<le> length dst \<Longrightarrow> length (NdisFillMemory dst off n v) = length dst"
  by (simp add: NdisFillMemory_def length_NdisMoveMemory)

lemma length_NdisZeroMemory [buf_simps, simp]: "length (NdisZeroMemory n) = n"
  by (simp add: NdisZeroMemory_def)

lemma take_NdisMoveMemory [buf_simps]:
  "off \<le> length dst \<Longrightarrow> take (off + length src) (NdisMoveMemory dst off src) = take off dst @ src"
  by (simp add: NdisMoveMemory_def)

lemma drop_NdisMoveMemory [buf_simps]:
  "off + length src \<le> length dst \<Longrightarrow>
   drop (off + length src) (NdisMoveMemory dst off src) = drop (off + length src) dst"
  by (simp add: NdisMoveMemory_def)

lemma NdisMoveMemory_append [buf_simps]:
  "NdisMoveMemory (xs @ replicate (length src + k) z) (length xs) src
   = (xs @ src) @ replicate k z"
  by (simp add: NdisMoveMemory_def)

lemma NdisMoveMemory_0_all [buf_simps]: "length src = length dst \<Longrightarrow> NdisMoveMemory dst 0 src = src"
  by (simp add: NdisMoveMemory_def)

lemma NdisMoveMemory_restore [buf_simps]:
  assumes "off + length src \<le> length dst" "n = length src"
  shows "NdisMoveMemory (NdisMoveMemory dst off src) off (take n (drop off dst)) = dst"
proof -
  have "take off dst @ take n (drop off dst) @ drop (off + n) dst = dst"
    by (metis add.commute append_take_drop_id drop_drop)
  with assms show ?thesis by (simp add: NdisMoveMemory_def)
qed

section \<open>Arithmetic on lengths\<close>

text \<open>Lengths are \<^verbatim>\<open>UINT\<close> in the code and \<open>nat\<close> here; where a sum or a difference can leave the
  range of the type, its wrap-around is written out.\<close>

definition uint_add :: "nat \<Rightarrow> nat \<Rightarrow> nat" where
  "uint_add a b = (a + b) mod 2 ^ 32"

definition uint_sub :: "nat \<Rightarrow> nat \<Rightarrow> nat" where
  "uint_sub a b = (if b \<le> a then a - b else a + 2 ^ 32 - b)"

lemma uint_sub_le [simp, buf_simps]: "b \<le> a \<Longrightarrow> uint_sub a b = a - b"
  by (simp add: uint_sub_def)

lemma uint_add_small [simp, buf_simps]: "a + b < 2 ^ 32 \<Longrightarrow> uint_add a b = a + b"
  by (simp add: uint_add_def)

section \<open>Byte strings and exclusive or\<close>

definition xor_bytes :: "'a::len word list \<Rightarrow> 'a word list \<Rightarrow> 'a word list" where
  "xor_bytes xs ys = map2 (XOR) xs ys"

lemma length_xor_bytes [simp, buf_simps]: "length (xor_bytes xs ys) = min (length xs) (length ys)"
  by (simp add: xor_bytes_def)

lemma xor_bytes_Nil [simp]: "xor_bytes [] ys = []" "xor_bytes xs [] = []"
  by (simp_all add: xor_bytes_def)

lemma xor_bytes_Cons [simp]: "xor_bytes (x # xs) (y # ys) = (x XOR y) # xor_bytes xs ys"
  by (simp add: xor_bytes_def)

lemma nth_xor_bytes [simp]:
  "i < length xs \<Longrightarrow> i < length ys \<Longrightarrow> xor_bytes xs ys ! i = xs ! i XOR ys ! i"
  by (simp add: xor_bytes_def)

lemma xor_self_cancel [xor_simps, simp]: "(x XOR y) XOR y = (x :: 'a::len word)"
  by (simp add: xor.assoc)

lemma xor_self_cancel2 [xor_simps, simp]: "y XOR (y XOR x) = (x :: 'a::len word)"
  by (simp flip: xor.assoc)

lemma xor_bytes_cancel [xor_simps]:
  "length xs \<le> length ys \<Longrightarrow> xor_bytes (xor_bytes xs ys) ys = xs"
  by (rule nth_equalityI) (auto simp: xor_simps)

lemma xor_bytes_append:
  "length xs = length xs' \<Longrightarrow> xor_bytes (xs @ ys) (xs' @ ys') = xor_bytes xs xs' @ xor_bytes ys ys'"
  by (simp add: xor_bytes_def)

lemma xor_bytes_take:
  "xor_bytes xs ys = xor_bytes xs (take (length xs) ys)"
  by (rule nth_equalityI) auto

lemma xor_bytes_replicate [simp]:
  "length ys = n \<Longrightarrow> xor_bytes ys (replicate n c) = map (\<lambda>b. b XOR c) ys"
  by (rule nth_equalityI) auto

section \<open>Byte order\<close>

text \<open>
  The code copies bytes to or from a \<^verbatim>\<open>UINT32\<close> and applies \<^verbatim>\<open>cpu2be32\<close> or
  \<^verbatim>\<open>cpu2le32\<close>; on either kind of processor the pair is a big-endian or little-endian
  conversion.
\<close>

definition be32 :: "UINT8 \<Rightarrow> UINT8 \<Rightarrow> UINT8 \<Rightarrow> UINT8 \<Rightarrow> UINT32" where
  "be32 a b c d = push_bit 24 (ucast a) OR push_bit 16 (ucast b) OR push_bit 8 (ucast c) OR ucast d"

definition le32 :: "UINT8 \<Rightarrow> UINT8 \<Rightarrow> UINT8 \<Rightarrow> UINT8 \<Rightarrow> UINT32" where
  "le32 a b c d = be32 d c b a"

definition bytes_be32 :: "UINT32 \<Rightarrow> bytes" where
  "bytes_be32 w = [ucast (drop_bit 24 w), ucast (drop_bit 16 w), ucast (drop_bit 8 w), ucast w]"

definition bytes_le32 :: "UINT32 \<Rightarrow> bytes" where
  "bytes_le32 w = rev (bytes_be32 w)"

definition bytes_be64 :: "UINT64 \<Rightarrow> bytes" where
  "bytes_be64 w = map (\<lambda>i. ucast (drop_bit (8 * (7 - i)) w)) [0..<8]"

definition bytes_le64 :: "UINT64 \<Rightarrow> bytes" where
  "bytes_le64 w = rev (bytes_be64 w)"

lemma length_bytes_ser [simp, buf_simps]:
  "length (bytes_be32 w) = 4" "length (bytes_le32 w) = 4"
  "length (bytes_be64 v) = 8" "length (bytes_le64 v) = 8"
  by (simp_all add: bytes_be32_def bytes_le32_def bytes_be64_def bytes_le64_def)

fun words_be32 :: "bytes \<Rightarrow> UINT32 list" where
  "words_be32 (a # b # c # d # xs) = be32 a b c d # words_be32 xs"
| "words_be32 _ = []"

fun words_le32 :: "bytes \<Rightarrow> UINT32 list" where
  "words_le32 (a # b # c # d # xs) = le32 a b c d # words_le32 xs"
| "words_le32 _ = []"

lemma length_words_be32 [simp, buf_simps]: "length (words_be32 xs) = length xs div 4"
  by (induction xs rule: words_be32.induct) auto

lemma length_words_le32 [simp, buf_simps]: "length (words_le32 xs) = length xs div 4"
  by (induction xs rule: words_le32.induct) auto

lemma be32_split:
  "be32 (ucast (drop_bit 24 w)) (ucast (drop_bit 16 w)) (ucast (drop_bit 8 w)) (ucast w) = w"
proof (rule bit_word_eqI)
  fix n assume "n < LENGTH(32)"
  then consider "n < 8" | "8 \<le> n \<and> n < 16" | "16 \<le> n \<and> n < 24" | "24 \<le> n \<and> n < 32"
    by fastforce
  then show "bit (be32 (ucast (drop_bit 24 w)) (ucast (drop_bit 16 w)) (ucast (drop_bit 8 w)) (ucast w)) n
    = bit w n"
    by cases (auto simp: be32_def bit_simps)
qed

lemma be32_bytes [simp]: "words_be32 (bytes_be32 w) = [w]"
  by (simp add: bytes_be32_def be32_split)

lemma le32_bytes [simp]: "words_le32 (bytes_le32 w) = [w]"
  using be32_bytes [of w] by (simp add: bytes_le32_def bytes_be32_def le32_def)

section \<open>Generic lemmas\<close>

lemma unat_byte_less [simp]: "unat (x :: UINT8) < 256"
  using unsigned_less [where 'a = nat and w = x] by simp

text \<open>A statement about every byte is a finite check.\<close>

lemma all_bytes:
  assumes "list_all (\<lambda>n. P (word_of_nat n)) [0..<256]"
  shows "P (x :: UINT8)"
proof -
  from assms have "\<forall>n < 256. P (word_of_nat n)" by (simp add: list_all_iff)
  then have "P (word_of_nat (unat x))" by (simp only: unat_byte_less)
  then show ?thesis by simp
qed

lemma and_ff_less [simp]: "unat (x AND 0xff :: UINT32) < 256"
proof -
  have "x AND 0xff = take_bit 8 x"
    by (simp add: take_bit_eq_mask mask_eq_exp_minus_1)
  then show ?thesis
    using take_bit_nat_less_exp [of 8 "unat x"] by (simp add: unsigned_take_bit_eq)
qed

end
