(* ===== verification/HashCtx.thy ===== *)
theory HashCtx
  imports Prelude
begin

text \<open>
  What \<^verbatim>\<open>common/crypt_md5.c\<close> and \<^verbatim>\<open>common/crypt_sha2.c\<close> share: the three context
  structures have the same fields, and the three \<open>_Append\<close> and \<open>_End\<close> routines are the
  same text around the block function they call.  The shared code is written once here, over
  the compression function; the theories \<open>Md5\<close> and \<open>Sha2\<close> instantiate it.

  \<open>md_digest\<close> is the reference: pad the whole message as the standards say and fold the
  compression function over its 64-byte blocks.  \<open>hash_append_absorbs\<close> and
  \<open>hash_end_digest\<close> show that the incremental code computes it.
\<close>

definition ROTL32 :: "UINT32 \<Rightarrow> nat \<Rightarrow> UINT32" where
  "ROTL32 x n = push_bit n x OR drop_bit (32 - n) x"

record hash_ctx =
  HashValue :: "UINT32 list"
  MessageLen :: UINT64
  Block :: bytes
  BlockLen :: nat

text \<open>The size of \<open>Block\<close> is 64 for all three algorithms.\<close>

definition hash_init :: "UINT32 list \<Rightarrow> hash_ctx" where
  "hash_init iv = \<lparr>HashValue = iv, MessageLen = 0, Block = NdisZeroMemory 64, BlockLen = 0\<rparr>"

text \<open>
  The effect of \<open>RT_MD5_Hash\<close>, \<open>RT_SHA1_Hash\<close> and \<open>RT_SHA256_Hash\<close> on the context: the hash value
  takes in the block, the block is cleared.
\<close>

definition hash_block :: "(UINT32 list \<Rightarrow> bytes \<Rightarrow> UINT32 list) \<Rightarrow> hash_ctx \<Rightarrow> hash_ctx" where
  "hash_block compress ctx =
     ctx\<lparr>HashValue := compress (HashValue ctx) (Block ctx),
         Block := NdisZeroMemory 64, BlockLen := 0\<rparr>"

text \<open>
  The \<open>while\<close> loop of the \<open>_Append\<close> routines; \<open>rest\<close> is \<open>Message + appendLen\<close>, so the loop
  ends when it is empty.  The sum of two \<^verbatim>\<open>UINT\<close> values in the guard is
  taken at 32 bits.
\<close>

function hash_append_loop ::
  "(UINT32 list \<Rightarrow> bytes \<Rightarrow> UINT32 list) \<Rightarrow> hash_ctx \<Rightarrow> bytes \<Rightarrow> hash_ctx" where
  "hash_append_loop compress ctx rest =
     (if rest = [] then ctx
      else
        let diffLen = length rest in
        if (word_of_nat (BlockLen ctx + diffLen) :: UINT32) < 64
        then ctx\<lparr>Block := NdisMoveMemory (Block ctx) (BlockLen ctx) rest,
                 BlockLen := BlockLen ctx + diffLen\<rparr>
        else
          let n = 64 - BlockLen ctx;
              ctx' = ctx\<lparr>Block := NdisMoveMemory (Block ctx) (BlockLen ctx) (take n rest),
                         BlockLen := 64\<rparr>
          in hash_append_loop compress (hash_block compress ctx') (drop n rest))"
  by pat_completeness auto
termination
  by (relation "measures [\<lambda>(_, _, rest). length rest, \<lambda>(_, ctx, _). BlockLen ctx]")
     (auto simp: hash_block_def simp flip: length_greater_0_conv)

declare hash_append_loop.simps [simp del]

definition hash_append ::
  "(UINT32 list \<Rightarrow> bytes \<Rightarrow> UINT32 list) \<Rightarrow> hash_ctx \<Rightarrow> bytes \<Rightarrow> hash_ctx" where
  "hash_append compress ctx Message =
     (let ctx' = hash_append_loop compress ctx Message
      in ctx'\<lparr>MessageLen := MessageLen ctx' + word_of_nat (length Message)\<rparr>)"

definition hash_end ::
  "(UINT32 list \<Rightarrow> bytes \<Rightarrow> UINT32 list) \<Rightarrow> (UINT64 \<Rightarrow> bytes) \<Rightarrow> (UINT32 \<Rightarrow> bytes) \<Rightarrow> hash_ctx \<Rightarrow> bytes" where
  "hash_end compress len_bytes ser ctx =
     (let ctx1 = ctx\<lparr>Block := NdisFillMemory (Block ctx) (BlockLen ctx) 1 0x80\<rparr>;
          ctx2 = (if BlockLen ctx1 > 55 then hash_block compress ctx1 else ctx1);
          message_length_bits = MessageLen ctx2 * 8;
          ctx3 = ctx2\<lparr>Block := NdisMoveMemory (Block ctx2) 56 (len_bytes message_length_bits)\<rparr>;
          ctx4 = hash_block compress ctx3
      in concat (map ser (HashValue ctx4)))"

section \<open>The reference: padding and iteration over whole messages\<close>

function md_blocks :: "('h \<Rightarrow> bytes \<Rightarrow> 'h) \<Rightarrow> 'h \<Rightarrow> bytes \<Rightarrow> 'h" where
  "md_blocks f h xs = (if length xs < 64 then h else md_blocks f (f h (take 64 xs)) (drop 64 xs))"
  by pat_completeness auto
termination by (relation "measure (\<lambda>(_, _, xs). length xs)") auto

declare md_blocks.simps [simp del]

definition md_tail :: "bytes \<Rightarrow> bytes" where
  "md_tail xs = drop (64 * (length xs div 64)) xs"

definition md_pad :: "(UINT64 \<Rightarrow> bytes) \<Rightarrow> bytes \<Rightarrow> bytes" where
  "md_pad len_bytes m =
     m @ [0x80] @ replicate ((119 - length m mod 64) mod 64) 0 @ len_bytes (word_of_nat (length m) * 8)"

definition md_digest ::
  "(UINT32 list \<Rightarrow> bytes \<Rightarrow> UINT32 list) \<Rightarrow> UINT32 list \<Rightarrow> (UINT64 \<Rightarrow> bytes) \<Rightarrow> (UINT32 \<Rightarrow> bytes)
   \<Rightarrow> bytes \<Rightarrow> bytes" where
  "md_digest compress iv len_bytes ser m =
     concat (map ser (md_blocks compress iv (md_pad len_bytes m)))"

lemma md_blocks_short: "length xs < 64 \<Longrightarrow> md_blocks f h xs = h"
  by (simp add: md_blocks.simps)

lemma md_blocks_step:
  "length b = 64 \<Longrightarrow> md_blocks f h (b @ xs) = md_blocks f (f h b) xs"
  by (subst md_blocks.simps) simp

lemma md_blocks_one: "length b = 64 \<Longrightarrow> md_blocks f h b = f h b"
  using md_blocks_step [of b f h "[]"] by (simp add: md_blocks_short)

lemma md_blocks_cong:
  "(\<And>h b. length b = 64 \<Longrightarrow> f h b = g h b) \<Longrightarrow> md_blocks f h xs = md_blocks g h xs"
proof (induction f h xs rule: md_blocks.induct)
  case (1 f h xs)
  then show ?case by (subst (1 2) md_blocks.simps) simp
qed

lemma md_digest_cong:
  "(\<And>h b. length b = 64 \<Longrightarrow> f h b = g h b) \<Longrightarrow>
   md_digest f iv len_bytes ser m = md_digest g iv len_bytes ser m"
  unfolding md_digest_def by (simp cong: md_blocks_cong)

lemma md_blocks_invariant:
  "P h \<Longrightarrow> (\<And>h b. P h \<Longrightarrow> P (f h b)) \<Longrightarrow> P (md_blocks f h xs)"
proof (induction f h xs rule: md_blocks.induct)
  case (1 f h xs)
  then show ?case by (subst md_blocks.simps) simp
qed

lemma length_md_digest:
  assumes "length iv = n" "\<And>h b. length (f h b) = n" "\<And>w. length (ser w) = 4"
  shows "length (md_digest f iv len_bytes ser m) = 4 * n"
proof -
  have "length (concat (map ser xs)) = 4 * length xs" for xs :: "UINT32 list"
    using assms(3) by (induction xs) simp_all
  moreover have "length (md_blocks f iv xs) = n" for xs
    by (rule md_blocks_invariant) (simp_all add: assms)
  ultimately show ?thesis by (simp add: md_digest_def)
qed

lemma md_tail_short: "length xs < 64 \<Longrightarrow> md_tail xs = xs"
  by (simp add: md_tail_def)

lemma md_tail_step: "length b = 64 \<Longrightarrow> md_tail (b @ xs) = md_tail xs"
  by (simp add: md_tail_def div_add_self1)

lemma length_md_tail: "length (md_tail xs) = length xs mod 64"
  by (simp add: md_tail_def minus_mult_div_eq_mod)

lemma split_block: "64 \<le> length (xs :: bytes) \<Longrightarrow> \<exists>b ys. xs = b @ ys \<and> length b = 64"
  by (metis append_take_drop_id length_take min.absorb2)

text \<open>Folding over a concatenation: whole blocks of the first part, then its tail joins the second.\<close>

lemma md_blocks_append:
  "md_blocks f h (xs @ ys) = md_blocks f (md_blocks f h xs) (md_tail xs @ ys)"
proof (induction f h xs rule: md_blocks.induct)
  case (1 f h xs)
  show ?case
  proof (cases "length xs < 64")
    case True
    then show ?thesis by (simp add: md_blocks_short md_tail_short)
  next
    case False
    then obtain b zs where "xs = b @ zs" "length b = 64" using split_block [of xs] by auto
    with False "1.IH" show ?thesis by (simp add: md_blocks_step md_tail_step)
  qed
qed

lemma md_tail_append: "md_tail (xs @ ys) = md_tail (md_tail xs @ ys)"
proof (induction "length xs" arbitrary: xs rule: less_induct)
  case less
  show ?case
  proof (cases "length xs < 64")
    case True
    then show ?thesis by (simp add: md_tail_short)
  next
    case False
    then obtain b zs where "xs = b @ zs" "length b = 64" using split_block [of xs] by auto
    with less show ?thesis by (simp add: md_tail_step)
  qed
qed

lemma pad_zeros_long: "r < 64 \<Longrightarrow> 55 < r \<Longrightarrow> (119 - r) mod 64 = (63 - r) + (56 :: nat)"
  by simp

lemma pad_zeros_short:
  assumes "r \<le> (55 :: nat)"
  shows "(119 - r) mod 64 = 55 - r"
proof -
  from assms have "119 - r = 64 + (55 - r)" by simp
  then have "(119 - r) mod 64 = (55 - r) mod 64" by (simp only: mod_add_self1)
  then show ?thesis by simp
qed

section \<open>The incremental code computes the reference\<close>

text \<open>
  \<open>absorbed compress iv ctx m\<close>: the context is the one reached from \<open>iv\<close> after the bytes \<open>m\<close>.
\<close>

definition absorbed ::
  "(UINT32 list \<Rightarrow> bytes \<Rightarrow> UINT32 list) \<Rightarrow> UINT32 list \<Rightarrow> hash_ctx \<Rightarrow> bytes \<Rightarrow> bool" where
  "absorbed compress iv ctx m \<longleftrightarrow>
     HashValue ctx = md_blocks compress iv m \<and>
     MessageLen ctx = word_of_nat (length m) \<and>
     Block ctx = md_tail m @ replicate (64 - length m mod 64) 0 \<and>
     BlockLen ctx = length m mod 64"

lemma absorbed_init: "absorbed compress iv (hash_init iv) []"
  by (simp add: absorbed_def hash_init_def md_blocks_short md_tail_def NdisZeroMemory_def)

lemma UINT_less_64: "n < 2 ^ 32 \<Longrightarrow> (word_of_nat n :: UINT32) < 64 \<longleftrightarrow> n < 64"
  by (simp add: word_less_nat_alt unsigned_of_nat take_bit_nat_eq_self)

lemma hash_append_loop_spec:
  assumes "BlockLen ctx = length p" "length p < 64" "Block ctx = p @ replicate (64 - length p) 0"
    and "length p + length rest < 2 ^ 32"
  shows "hash_append_loop compress ctx rest =
    ctx\<lparr>HashValue := md_blocks compress (HashValue ctx) (p @ rest),
        Block := md_tail (p @ rest) @ replicate (64 - length (p @ rest) mod 64) 0,
        BlockLen := length (p @ rest) mod 64\<rparr>"
  using assms
proof (induction "length rest" arbitrary: ctx p rest rule: less_induct)
  case less
  note unf = hash_append_loop.simps [of compress ctx rest]
  show ?case
  proof (cases "rest = []")
    case True
    with less.prems show ?thesis
      by (subst hash_append_loop.simps) (simp add: md_blocks_short md_tail_short)
  next
    case ne: False
    show ?thesis
    proof (cases "length p + length rest < 64")
      case True
      with less.prems ne show ?thesis
        by (simp add: unf Let_def md_blocks_short md_tail_short NdisMoveMemory_def UINT_less_64 flip: of_nat_add)
    next
      case False
      define n where "n = 64 - length p"
      have n: "n \<le> length rest" "0 < n" "length p + n = 64"
        using False less.prems(2) by (auto simp: n_def)
      define b where "b = p @ take n rest"
      have b: "length b = 64" "p @ rest = b @ drop n rest" using n by (auto simp: b_def)
      define ctx' where "ctx' = hash_block compress
        (ctx\<lparr>Block := NdisMoveMemory (Block ctx) (BlockLen ctx) (take n rest), BlockLen := 64\<rparr>)"
      have ctx': "HashValue ctx' = compress (HashValue ctx) b" "BlockLen ctx' = 0"
        "Block ctx' = replicate 64 0"
        using less.prems n by (auto simp: ctx'_def hash_block_def NdisMoveMemory_def b_def NdisZeroMemory_def)
      have "hash_append_loop compress ctx rest = hash_append_loop compress ctx' (drop n rest)"
        using False less.prems(1,4) ne by (simp add: unf Let_def ctx'_def n_def UINT_less_64 flip: of_nat_add)
      also have "\<dots> = ctx'\<lparr>HashValue := md_blocks compress (HashValue ctx') ([] @ drop n rest),
        Block := md_tail ([] @ drop n rest) @ replicate (64 - length ([] @ drop n rest) mod 64) 0,
        BlockLen := length ([] @ drop n rest) mod 64\<rparr>"
        by (rule less.hyps) (use ctx' n less.prems(4) in auto)
      also have "\<dots> = ctx\<lparr>HashValue := md_blocks compress (HashValue ctx) (b @ drop n rest),
        Block := md_tail (b @ drop n rest) @ replicate (64 - length (b @ drop n rest) mod 64) 0,
        BlockLen := length (b @ drop n rest) mod 64\<rparr>"
        using b(1) by (simp add: ctx'(1) md_blocks_step md_tail_step) (simp add: ctx'_def hash_block_def)
      finally show ?thesis by (simp only: b(2))
    qed
  qed
qed

lemma hash_append_absorbs:
  assumes "absorbed compress iv ctx m" "length m mod 64 + length xs < 2 ^ 32"
  shows "absorbed compress iv (hash_append compress ctx xs) (m @ xs)"
proof -
  have *: "(length m mod 64 + length xs) mod 64 = length (m @ xs) mod 64" by (simp add: mod_simps)
  have "hash_append_loop compress ctx xs =
    ctx\<lparr>HashValue := md_blocks compress (HashValue ctx) (md_tail m @ xs),
        Block := md_tail (md_tail m @ xs) @ replicate (64 - length (md_tail m @ xs) mod 64) 0,
        BlockLen := length (md_tail m @ xs) mod 64\<rparr>"
    by (rule hash_append_loop_spec) (use assms in \<open>auto simp: absorbed_def length_md_tail\<close>)
  with assms(1) * show ?thesis
    by (simp add: absorbed_def hash_append_def Let_def length_md_tail
        flip: md_blocks_append md_tail_append)
qed

lemma hash_end_digest:
  assumes ab: "absorbed compress iv ctx m" and len: "\<And>w. length (len_bytes w) = 8"
  shows "hash_end compress len_bytes ser ctx = md_digest compress iv len_bytes ser m"
proof -
  let ?t = "md_tail m" and ?r = "length m mod 64" and ?L = "len_bytes (word_of_nat (length m) * 8)"
  have lt: "length ?t = ?r" by (rule length_md_tail)
  have r: "?r < 64" by simp
  have fill: "NdisFillMemory (Block ctx) (BlockLen ctx) 1 0x80 = ?t @ [0x80] @ replicate (63 - ?r) 0"
    using ab r by (simp add: absorbed_def NdisFillMemory_def NdisMoveMemory_def lt)
  have pad: "md_blocks compress iv (md_pad len_bytes m) =
    md_blocks compress (HashValue ctx) (?t @ [0x80] @ replicate ((119 - ?r) mod 64) 0 @ ?L)"
    using ab by (simp add: absorbed_def md_pad_def md_blocks_append [of _ _ m])
  show ?thesis
  proof (cases "?r > 55")
    case True
    then have k: "(119 - ?r) mod 64 = (63 - ?r) + 56" by (intro pad_zeros_long r True)
    have "md_blocks compress (HashValue ctx) (?t @ [0x80] @ replicate ((119 - ?r) mod 64) 0 @ ?L)
      = md_blocks compress (HashValue ctx) ((?t @ [0x80] @ replicate (63 - ?r) 0) @ (replicate 56 0 @ ?L))"
      by (simp only: k replicate_add append.assoc)
    also have "\<dots> = compress (compress (HashValue ctx) (?t @ [0x80] @ replicate (63 - ?r) 0)) (replicate 56 0 @ ?L)"
      using r len by (subst md_blocks_step) (simp_all add: lt md_blocks_one)
    finally show ?thesis
      using ab True pad fill len
      by (simp add: md_digest_def hash_end_def Let_def hash_block_def absorbed_def NdisMoveMemory_def NdisZeroMemory_def)
  next
    case False
    then have k: "(119 - ?r) mod 64 = 55 - ?r" by (intro pad_zeros_short) simp
    have "md_blocks compress (HashValue ctx) (?t @ [0x80] @ replicate (55 - ?r) 0 @ ?L)
      = compress (HashValue ctx) (?t @ [0x80] @ replicate (55 - ?r) 0 @ ?L)"
      using False len by (intro md_blocks_one) (simp add: lt)
    moreover have "NdisMoveMemory (?t @ [0x80] @ replicate (63 - ?r) 0) 56 ?L
      = ?t @ [0x80] @ replicate (55 - ?r) 0 @ ?L"
      using False r len by (simp add: NdisMoveMemory_def lt take_Cons')
    ultimately show ?thesis
      using ab False pad fill len k
      by (simp add: md_digest_def hash_end_def Let_def hash_block_def absorbed_def)
  qed
qed

end
