(* ===== verification/Md5.thy ===== *)
theory Md5
  imports HashCtx
begin

text \<open>
  \<^verbatim>\<open>common/crypt_md5.c\<close>: MD5.  The four groups of sixteen macro calls of \<open>RT_MD5_Hash\<close> are
  transcribed call by call; \<open>md5_compress_reference\<close> is the table-driven description of
  RFC 1321 and the theory shows that the two agree, and that \<open>RT_MD5\<close> computes the padded
  iteration of the reference.
\<close>

definition MD5_F :: "UINT32 \<Rightarrow> UINT32 \<Rightarrow> UINT32 \<Rightarrow> UINT32" where
  "MD5_F x y z = (x AND y) OR (NOT x AND z)"

definition MD5_G :: "UINT32 \<Rightarrow> UINT32 \<Rightarrow> UINT32 \<Rightarrow> UINT32" where
  "MD5_G x y z = (x AND z) OR (y AND NOT z)"

definition MD5_H :: "UINT32 \<Rightarrow> UINT32 \<Rightarrow> UINT32 \<Rightarrow> UINT32" where
  "MD5_H x y z = x XOR y XOR z"

definition MD5_I :: "UINT32 \<Rightarrow> UINT32 \<Rightarrow> UINT32 \<Rightarrow> UINT32" where
  "MD5_I x y z = y XOR (x OR NOT z)"

definition ROUND1 :: "UINT32 \<Rightarrow> UINT32 \<Rightarrow> UINT32 \<Rightarrow> UINT32 \<Rightarrow> UINT32 \<Rightarrow> nat \<Rightarrow> UINT32 \<Rightarrow> UINT32" where
  "ROUND1 a b c d x s ac = ROTL32 (a + (MD5_F b c d + x + ac)) s + b"

definition ROUND2 :: "UINT32 \<Rightarrow> UINT32 \<Rightarrow> UINT32 \<Rightarrow> UINT32 \<Rightarrow> UINT32 \<Rightarrow> nat \<Rightarrow> UINT32 \<Rightarrow> UINT32" where
  "ROUND2 a b c d x s ac = ROTL32 (a + (MD5_G b c d + x + ac)) s + b"

definition ROUND3 :: "UINT32 \<Rightarrow> UINT32 \<Rightarrow> UINT32 \<Rightarrow> UINT32 \<Rightarrow> UINT32 \<Rightarrow> nat \<Rightarrow> UINT32 \<Rightarrow> UINT32" where
  "ROUND3 a b c d x s ac = ROTL32 (a + (MD5_H b c d + x + ac)) s + b"

definition ROUND4 :: "UINT32 \<Rightarrow> UINT32 \<Rightarrow> UINT32 \<Rightarrow> UINT32 \<Rightarrow> UINT32 \<Rightarrow> nat \<Rightarrow> UINT32 \<Rightarrow> UINT32" where
  "ROUND4 a b c d x s ac = ROTL32 (a + (MD5_I b c d + x + ac)) s + b"

definition MD5_DefaultHashValue :: "UINT32 list" where
  "MD5_DefaultHashValue = [0x67452301, 0xefcdab89, 0x98badcfe, 0x10325476]"

type_synonym md5_vars = "UINT32 \<times> UINT32 \<times> UINT32 \<times> UINT32"

definition md5_round1 :: "UINT32 list \<Rightarrow> md5_vars \<Rightarrow> md5_vars" where
  "md5_round1 X = (\<lambda>(a, b, c, d).
     let a = ROUND1 a b c d (X ! 0) 7 0xd76aa478;
         d = ROUND1 d a b c (X ! 1) 12 0xe8c7b756;
         c = ROUND1 c d a b (X ! 2) 17 0x242070db;
         b = ROUND1 b c d a (X ! 3) 22 0xc1bdceee;
         a = ROUND1 a b c d (X ! 4) 7 0xf57c0faf;
         d = ROUND1 d a b c (X ! 5) 12 0x4787c62a;
         c = ROUND1 c d a b (X ! 6) 17 0xa8304613;
         b = ROUND1 b c d a (X ! 7) 22 0xfd469501;
         a = ROUND1 a b c d (X ! 8) 7 0x698098d8;
         d = ROUND1 d a b c (X ! 9) 12 0x8b44f7af;
         c = ROUND1 c d a b (X ! 10) 17 0xffff5bb1;
         b = ROUND1 b c d a (X ! 11) 22 0x895cd7be;
         a = ROUND1 a b c d (X ! 12) 7 0x6b901122;
         d = ROUND1 d a b c (X ! 13) 12 0xfd987193;
         c = ROUND1 c d a b (X ! 14) 17 0xa679438e;
         b = ROUND1 b c d a (X ! 15) 22 0x49b40821
     in (a, b, c, d))"

definition md5_round2 :: "UINT32 list \<Rightarrow> md5_vars \<Rightarrow> md5_vars" where
  "md5_round2 X = (\<lambda>(a, b, c, d).
     let a = ROUND2 a b c d (X ! 1) 5 0xf61e2562;
         d = ROUND2 d a b c (X ! 6) 9 0xc040b340;
         c = ROUND2 c d a b (X ! 11) 14 0x265e5a51;
         b = ROUND2 b c d a (X ! 0) 20 0xe9b6c7aa;
         a = ROUND2 a b c d (X ! 5) 5 0xd62f105d;
         d = ROUND2 d a b c (X ! 10) 9 0x2441453;
         c = ROUND2 c d a b (X ! 15) 14 0xd8a1e681;
         b = ROUND2 b c d a (X ! 4) 20 0xe7d3fbc8;
         a = ROUND2 a b c d (X ! 9) 5 0x21e1cde6;
         d = ROUND2 d a b c (X ! 14) 9 0xc33707d6;
         c = ROUND2 c d a b (X ! 3) 14 0xf4d50d87;
         b = ROUND2 b c d a (X ! 8) 20 0x455a14ed;
         a = ROUND2 a b c d (X ! 13) 5 0xa9e3e905;
         d = ROUND2 d a b c (X ! 2) 9 0xfcefa3f8;
         c = ROUND2 c d a b (X ! 7) 14 0x676f02d9;
         b = ROUND2 b c d a (X ! 12) 20 0x8d2a4c8a
     in (a, b, c, d))"

definition md5_round3 :: "UINT32 list \<Rightarrow> md5_vars \<Rightarrow> md5_vars" where
  "md5_round3 X = (\<lambda>(a, b, c, d).
     let a = ROUND3 a b c d (X ! 5) 4 0xfffa3942;
         d = ROUND3 d a b c (X ! 8) 11 0x8771f681;
         c = ROUND3 c d a b (X ! 11) 16 0x6d9d6122;
         b = ROUND3 b c d a (X ! 14) 23 0xfde5380c;
         a = ROUND3 a b c d (X ! 1) 4 0xa4beea44;
         d = ROUND3 d a b c (X ! 4) 11 0x4bdecfa9;
         c = ROUND3 c d a b (X ! 7) 16 0xf6bb4b60;
         b = ROUND3 b c d a (X ! 10) 23 0xbebfbc70;
         a = ROUND3 a b c d (X ! 13) 4 0x289b7ec6;
         d = ROUND3 d a b c (X ! 0) 11 0xeaa127fa;
         c = ROUND3 c d a b (X ! 3) 16 0xd4ef3085;
         b = ROUND3 b c d a (X ! 6) 23 0x4881d05;
         a = ROUND3 a b c d (X ! 9) 4 0xd9d4d039;
         d = ROUND3 d a b c (X ! 12) 11 0xe6db99e5;
         c = ROUND3 c d a b (X ! 15) 16 0x1fa27cf8;
         b = ROUND3 b c d a (X ! 2) 23 0xc4ac5665
     in (a, b, c, d))"

definition md5_round4 :: "UINT32 list \<Rightarrow> md5_vars \<Rightarrow> md5_vars" where
  "md5_round4 X = (\<lambda>(a, b, c, d).
     let a = ROUND4 a b c d (X ! 0) 6 0xf4292244;
         d = ROUND4 d a b c (X ! 7) 10 0x432aff97;
         c = ROUND4 c d a b (X ! 14) 15 0xab9423a7;
         b = ROUND4 b c d a (X ! 5) 21 0xfc93a039;
         a = ROUND4 a b c d (X ! 12) 6 0x655b59c3;
         d = ROUND4 d a b c (X ! 3) 10 0x8f0ccc92;
         c = ROUND4 c d a b (X ! 10) 15 0xffeff47d;
         b = ROUND4 b c d a (X ! 1) 21 0x85845dd1;
         a = ROUND4 a b c d (X ! 8) 6 0x6fa87e4f;
         d = ROUND4 d a b c (X ! 15) 10 0xfe2ce6e0;
         c = ROUND4 c d a b (X ! 6) 15 0xa3014314;
         b = ROUND4 b c d a (X ! 13) 21 0x4e0811a1;
         a = ROUND4 a b c d (X ! 4) 6 0xf7537e82;
         d = ROUND4 d a b c (X ! 11) 10 0xbd3af235;
         c = ROUND4 c d a b (X ! 2) 15 0x2ad7d2bb;
         b = ROUND4 b c d a (X ! 9) 21 0xeb86d391
     in (a, b, c, d))"

text \<open>The hash value update of \<open>RT_MD5_Hash\<close>: \<open>X\<close> is the block read as little-endian words.\<close>

definition md5_compress :: "UINT32 list \<Rightarrow> bytes \<Rightarrow> UINT32 list" where
  "md5_compress H blk =
     (let X = words_le32 blk;
          (a, b, c, d) = md5_round4 X (md5_round3 X (md5_round2 X (md5_round1 X (H ! 0, H ! 1, H ! 2, H ! 3))))
      in [H ! 0 + a, H ! 1 + b, H ! 2 + c, H ! 3 + d])"

definition RT_MD5_Init :: hash_ctx where
  "RT_MD5_Init = hash_init MD5_DefaultHashValue"

definition RT_MD5_Hash :: "hash_ctx \<Rightarrow> hash_ctx" where
  "RT_MD5_Hash = hash_block md5_compress"

definition RT_MD5_Append :: "hash_ctx \<Rightarrow> bytes \<Rightarrow> hash_ctx" where
  "RT_MD5_Append = hash_append md5_compress"

definition RT_MD5_End :: "hash_ctx \<Rightarrow> bytes" where
  "RT_MD5_End = hash_end md5_compress bytes_le64 bytes_le32"

definition RT_MD5 :: "bytes \<Rightarrow> bytes" where
  "RT_MD5 Message = RT_MD5_End (RT_MD5_Append RT_MD5_Init Message)"

section \<open>The table-driven reference\<close>

definition md5_step ::
  "(UINT32 \<Rightarrow> UINT32 \<Rightarrow> UINT32 \<Rightarrow> UINT32) \<Rightarrow> UINT32 list \<Rightarrow> nat \<times> nat \<times> UINT32 \<Rightarrow> md5_vars \<Rightarrow> md5_vars" where
  "md5_step f X = (\<lambda>(k, s, t) (a, b, c, d).
     let a' = ROTL32 (a + (f b c d + X ! k + t)) s + b in (d, a', b, c))"

definition md5_T :: "UINT32 list" where
  "md5_T = [0xd76aa478, 0xe8c7b756, 0x242070db, 0xc1bdceee,
     0xf57c0faf, 0x4787c62a, 0xa8304613, 0xfd469501,
     0x698098d8, 0x8b44f7af, 0xffff5bb1, 0x895cd7be,
     0x6b901122, 0xfd987193, 0xa679438e, 0x49b40821,
     0xf61e2562, 0xc040b340, 0x265e5a51, 0xe9b6c7aa,
     0xd62f105d, 0x2441453, 0xd8a1e681, 0xe7d3fbc8,
     0x21e1cde6, 0xc33707d6, 0xf4d50d87, 0x455a14ed,
     0xa9e3e905, 0xfcefa3f8, 0x676f02d9, 0x8d2a4c8a,
     0xfffa3942, 0x8771f681, 0x6d9d6122, 0xfde5380c,
     0xa4beea44, 0x4bdecfa9, 0xf6bb4b60, 0xbebfbc70,
     0x289b7ec6, 0xeaa127fa, 0xd4ef3085, 0x4881d05,
     0xd9d4d039, 0xe6db99e5, 0x1fa27cf8, 0xc4ac5665,
     0xf4292244, 0x432aff97, 0xab9423a7, 0xfc93a039,
     0x655b59c3, 0x8f0ccc92, 0xffeff47d, 0x85845dd1,
     0x6fa87e4f, 0xfe2ce6e0, 0xa3014314, 0x4e0811a1,
     0xf7537e82, 0xbd3af235, 0x2ad7d2bb, 0xeb86d391]"

text \<open>Steps \<open>16 * r .. 16 * r + 15\<close>: the message index runs in a stride of \<open>stride\<close> from \<open>start\<close>.\<close>

definition md5_table :: "nat \<Rightarrow> nat \<Rightarrow> nat \<Rightarrow> nat list \<Rightarrow> (nat \<times> nat \<times> UINT32) list" where
  "md5_table r start stride shifts =
     map (\<lambda>i. ((start + stride * i) mod 16, shifts ! (i mod 4), md5_T ! (16 * r + i))) [0..<16]"

definition md5_compress_reference :: "UINT32 list \<Rightarrow> bytes \<Rightarrow> UINT32 list" where
  "md5_compress_reference H blk =
     (let X = words_le32 blk;
          s1 = fold (md5_step MD5_F X) (md5_table 0 0 1 [7, 12, 17, 22]) (H ! 0, H ! 1, H ! 2, H ! 3);
          s2 = fold (md5_step MD5_G X) (md5_table 1 1 5 [5, 9, 14, 20]) s1;
          s3 = fold (md5_step MD5_H X) (md5_table 2 5 3 [4, 11, 16, 23]) s2;
          (a, b, c, d) = fold (md5_step MD5_I X) (md5_table 3 0 7 [6, 10, 15, 21]) s3
      in [H ! 0 + a, H ! 1 + b, H ! 2 + c, H ! 3 + d])"

lemma upt_16: "[0..<16] = [0, 1, 2, 3, 4, 5, 6, 7, 8, 9, 10, 11, 12, 13, 14, 15 :: nat]"
  by (simp add: upt_rec)

lemma fold_step_Let: "fold f ts (let t = e in p t) = (let t = e in fold f ts (p t))"
  by (simp add: Let_def)

lemma md5_table1:
  "md5_table 0 0 1 [7, 12, 17, 22] =
     [(0, 7, 0xd76aa478),
      (1, 12, 0xe8c7b756),
      (2, 17, 0x242070db),
      (3, 22, 0xc1bdceee),
      (4, 7, 0xf57c0faf),
      (5, 12, 0x4787c62a),
      (6, 17, 0xa8304613),
      (7, 22, 0xfd469501),
      (8, 7, 0x698098d8),
      (9, 12, 0x8b44f7af),
      (10, 17, 0xffff5bb1),
      (11, 22, 0x895cd7be),
      (12, 7, 0x6b901122),
      (13, 12, 0xfd987193),
      (14, 17, 0xa679438e),
      (15, 22, 0x49b40821)]"
  unfolding md5_table_def md5_T_def upt_16 by simp

lemma md5_round1_eq:
  "md5_round1 X s = fold (md5_step MD5_F X) (md5_table 0 0 1 [7, 12, 17, 22]) s"
proof (cases s)
  case (fields a b c d)
  show ?thesis
    by (simp only: fields md5_table1 md5_round1_def ROUND1_def md5_step_def
        fold_simps prod.case fold_step_Let)
qed

lemma md5_table2:
  "md5_table 1 1 5 [5, 9, 14, 20] =
     [(1, 5, 0xf61e2562),
      (6, 9, 0xc040b340),
      (11, 14, 0x265e5a51),
      (0, 20, 0xe9b6c7aa),
      (5, 5, 0xd62f105d),
      (10, 9, 0x2441453),
      (15, 14, 0xd8a1e681),
      (4, 20, 0xe7d3fbc8),
      (9, 5, 0x21e1cde6),
      (14, 9, 0xc33707d6),
      (3, 14, 0xf4d50d87),
      (8, 20, 0x455a14ed),
      (13, 5, 0xa9e3e905),
      (2, 9, 0xfcefa3f8),
      (7, 14, 0x676f02d9),
      (12, 20, 0x8d2a4c8a)]"
  unfolding md5_table_def md5_T_def upt_16 by simp

lemma md5_round2_eq:
  "md5_round2 X s = fold (md5_step MD5_G X) (md5_table 1 1 5 [5, 9, 14, 20]) s"
proof (cases s)
  case (fields a b c d)
  show ?thesis
    by (simp only: fields md5_table2 md5_round2_def ROUND2_def md5_step_def
        fold_simps prod.case fold_step_Let)
qed

lemma md5_table3:
  "md5_table 2 5 3 [4, 11, 16, 23] =
     [(5, 4, 0xfffa3942),
      (8, 11, 0x8771f681),
      (11, 16, 0x6d9d6122),
      (14, 23, 0xfde5380c),
      (1, 4, 0xa4beea44),
      (4, 11, 0x4bdecfa9),
      (7, 16, 0xf6bb4b60),
      (10, 23, 0xbebfbc70),
      (13, 4, 0x289b7ec6),
      (0, 11, 0xeaa127fa),
      (3, 16, 0xd4ef3085),
      (6, 23, 0x4881d05),
      (9, 4, 0xd9d4d039),
      (12, 11, 0xe6db99e5),
      (15, 16, 0x1fa27cf8),
      (2, 23, 0xc4ac5665)]"
  unfolding md5_table_def md5_T_def upt_16 by simp

lemma md5_round3_eq:
  "md5_round3 X s = fold (md5_step MD5_H X) (md5_table 2 5 3 [4, 11, 16, 23]) s"
proof (cases s)
  case (fields a b c d)
  show ?thesis
    by (simp only: fields md5_table3 md5_round3_def ROUND3_def md5_step_def
        fold_simps prod.case fold_step_Let)
qed

lemma md5_table4:
  "md5_table 3 0 7 [6, 10, 15, 21] =
     [(0, 6, 0xf4292244),
      (7, 10, 0x432aff97),
      (14, 15, 0xab9423a7),
      (5, 21, 0xfc93a039),
      (12, 6, 0x655b59c3),
      (3, 10, 0x8f0ccc92),
      (10, 15, 0xffeff47d),
      (1, 21, 0x85845dd1),
      (8, 6, 0x6fa87e4f),
      (15, 10, 0xfe2ce6e0),
      (6, 15, 0xa3014314),
      (13, 21, 0x4e0811a1),
      (4, 6, 0xf7537e82),
      (11, 10, 0xbd3af235),
      (2, 15, 0x2ad7d2bb),
      (9, 21, 0xeb86d391)]"
  unfolding md5_table_def md5_T_def upt_16 by simp

lemma md5_round4_eq:
  "md5_round4 X s = fold (md5_step MD5_I X) (md5_table 3 0 7 [6, 10, 15, 21]) s"
proof (cases s)
  case (fields a b c d)
  show ?thesis
    by (simp only: fields md5_table4 md5_round4_def ROUND4_def md5_step_def
        fold_simps prod.case fold_step_Let)
qed

lemma md5_compress_eq: "md5_compress H blk = md5_compress_reference H blk"
  by (simp only: md5_compress_def md5_compress_reference_def md5_round1_eq md5_round2_eq
      md5_round3_eq md5_round4_eq Let_def)

definition md5_reference :: "bytes \<Rightarrow> bytes" where
  "md5_reference = md_digest md5_compress_reference MD5_DefaultHashValue bytes_le64 bytes_le32"

lemma RT_MD5_absorbs:
  "absorbed md5_compress MD5_DefaultHashValue ctx m \<Longrightarrow> length m mod 64 + length xs < 2 ^ 32 \<Longrightarrow>
   absorbed md5_compress MD5_DefaultHashValue (RT_MD5_Append ctx xs) (m @ xs)"
  unfolding RT_MD5_Append_def by (rule hash_append_absorbs)

lemma RT_MD5_End_digest:
  "absorbed md5_compress MD5_DefaultHashValue ctx m \<Longrightarrow> RT_MD5_End ctx = md5_reference m"
  unfolding RT_MD5_End_def md5_reference_def
  by (subst hash_end_digest) (auto simp: md5_compress_eq [abs_def])

lemma length_md5_reference [simp]: "length (md5_reference m) = 16"
proof -
  have *: "length (md5_compress_reference h b) = 4" for h b
    by (simp add: md5_compress_reference_def Let_def case_prod_beta)
  show ?thesis unfolding md5_reference_def
    by (subst length_md_digest [where n = 4]) (simp_all add: * MD5_DefaultHashValue_def)
qed

end
