(* ===== verification/Sha2.thy ===== *)
theory Sha2
  imports HashCtx
begin

text \<open>
  \<^verbatim>\<open>common/crypt_sha2.c\<close>: SHA-1 and SHA-256.  The compression functions follow the loops of
  \<open>RT_SHA1_Hash\<close> and \<open>RT_SHA256_Hash\<close> (the latter extends the message schedule inside the
  round loop).  The references are the recursive message schedule and the single round loop of
  the standard; the theory shows the code equal to them and \<open>RT_SHA1\<close>, \<open>RT_SHA256\<close> equal to
  the padded iteration.
\<close>

definition SHR :: "UINT32 \<Rightarrow> nat \<Rightarrow> UINT32" where
  "SHR x n = drop_bit n x"

definition ROTR32 :: "UINT32 \<Rightarrow> nat \<Rightarrow> UINT32" where
  "ROTR32 x n = drop_bit n x OR push_bit (32 - n) x"

definition Ch :: "UINT32 \<Rightarrow> UINT32 \<Rightarrow> UINT32 \<Rightarrow> UINT32" where
  "Ch x y z = (x AND y) XOR (NOT x AND z)"

definition Maj :: "UINT32 \<Rightarrow> UINT32 \<Rightarrow> UINT32 \<Rightarrow> UINT32" where
  "Maj x y z = (x AND y) XOR (x AND z) XOR (y AND z)"

definition Parity :: "UINT32 \<Rightarrow> UINT32 \<Rightarrow> UINT32 \<Rightarrow> UINT32" where
  "Parity x y z = x XOR y XOR z"

section \<open>SHA-1\<close>

definition SHA1_K :: "UINT32 list" where
  "SHA1_K = [0x5a827999, 0x6ed9eba1, 0x8f1bbcdc, 0xca62c1d6]"

definition SHA1_DefaultHashValue :: "UINT32 list" where
  "SHA1_DefaultHashValue =
    [0x67452301, 0xefcdab89, 0x98badcfe, 0x10325476, 0xc3d2e1f0]"

type_synonym sha1_vars = "UINT32 \<times> UINT32 \<times> UINT32 \<times> UINT32 \<times> UINT32"

text \<open>The loop that fills \<open>W[16 .. 79]\<close>; index \<open>W_i\<close> is always the first one not yet filled.\<close>

definition sha1_schedule :: "UINT32 list \<Rightarrow> UINT32 list" where
  "sha1_schedule M =
     fold (\<lambda>W_i W. W @ [ROTL32 (W ! (W_i - 3) XOR W ! (W_i - 8) XOR W ! (W_i - 14) XOR W ! (W_i - 16)) 1])
       [16..<80] M"

definition sha1_round ::
  "(UINT32 \<Rightarrow> UINT32 \<Rightarrow> UINT32 \<Rightarrow> UINT32) \<Rightarrow> UINT32 \<Rightarrow> UINT32 \<Rightarrow> sha1_vars \<Rightarrow> sha1_vars" where
  "sha1_round f k w = (\<lambda>(a, b, c, d, e).
     let f_t = f b c d;
         T = ROTL32 a 5 + f_t + e + k + w
     in (T, a, ROTL32 b 30, c, d))"

definition sha1_compress :: "UINT32 list \<Rightarrow> bytes \<Rightarrow> UINT32 list" where
  "sha1_compress H blk =
     (let W = sha1_schedule (words_be32 blk);
          s1 = fold (\<lambda>t. sha1_round Ch (SHA1_K ! 0) (W ! t)) [0..<20] (H ! 0, H ! 1, H ! 2, H ! 3, H ! 4);
          s2 = fold (\<lambda>t. sha1_round Parity (SHA1_K ! 1) (W ! t)) [20..<40] s1;
          s3 = fold (\<lambda>t. sha1_round Maj (SHA1_K ! 2) (W ! t)) [40..<60] s2;
          (a, b, c, d, e) = fold (\<lambda>t. sha1_round Parity (SHA1_K ! 3) (W ! t)) [60..<80] s3
      in [H ! 0 + a, H ! 1 + b, H ! 2 + c, H ! 3 + d, H ! 4 + e])"

definition RT_SHA1_Init :: hash_ctx where
  "RT_SHA1_Init = hash_init SHA1_DefaultHashValue"

definition RT_SHA1_Hash :: "hash_ctx \<Rightarrow> hash_ctx" where
  "RT_SHA1_Hash = hash_block sha1_compress"

definition RT_SHA1_Append :: "hash_ctx \<Rightarrow> bytes \<Rightarrow> hash_ctx" where
  "RT_SHA1_Append = hash_append sha1_compress"

definition RT_SHA1_End :: "hash_ctx \<Rightarrow> bytes" where
  "RT_SHA1_End = hash_end sha1_compress bytes_be64 bytes_be32"

definition RT_SHA1 :: "bytes \<Rightarrow> bytes" where
  "RT_SHA1 Message = RT_SHA1_End (RT_SHA1_Append RT_SHA1_Init Message)"

section \<open>SHA-256\<close>

definition Zsigma_256_0 :: "UINT32 \<Rightarrow> UINT32" where
  "Zsigma_256_0 x = ROTR32 x 2 XOR ROTR32 x 13 XOR ROTR32 x 22"

definition Zsigma_256_1 :: "UINT32 \<Rightarrow> UINT32" where
  "Zsigma_256_1 x = ROTR32 x 6 XOR ROTR32 x 11 XOR ROTR32 x 25"

definition Sigma_256_0 :: "UINT32 \<Rightarrow> UINT32" where
  "Sigma_256_0 x = ROTR32 x 7 XOR ROTR32 x 18 XOR SHR x 3"

definition Sigma_256_1 :: "UINT32 \<Rightarrow> UINT32" where
  "Sigma_256_1 x = ROTR32 x 17 XOR ROTR32 x 19 XOR SHR x 10"

definition SHA256_K :: "UINT32 list" where
  "SHA256_K = concat
    [[0x428a2f98, 0x71374491, 0xb5c0fbcf, 0xe9b5dba5],
     [0x3956c25b, 0x59f111f1, 0x923f82a4, 0xab1c5ed5],
     [0xd807aa98, 0x12835b01, 0x243185be, 0x550c7dc3],
     [0x72be5d74, 0x80deb1fe, 0x9bdc06a7, 0xc19bf174],
     [0xe49b69c1, 0xefbe4786, 0x0fc19dc6, 0x240ca1cc],
     [0x2de92c6f, 0x4a7484aa, 0x5cb0a9dc, 0x76f988da],
     [0x983e5152, 0xa831c66d, 0xb00327c8, 0xbf597fc7],
     [0xc6e00bf3, 0xd5a79147, 0x06ca6351, 0x14292967],
     [0x27b70a85, 0x2e1b2138, 0x4d2c6dfc, 0x53380d13],
     [0x650a7354, 0x766a0abb, 0x81c2c92e, 0x92722c85],
     [0xa2bfe8a1, 0xa81a664b, 0xc24b8b70, 0xc76c51a3],
     [0xd192e819, 0xd6990624, 0xf40e3585, 0x106aa070],
     [0x19a4c116, 0x1e376c08, 0x2748774c, 0x34b0bcb5],
     [0x391c0cb3, 0x4ed8aa4a, 0x5b9cca4f, 0x682e6ff3],
     [0x748f82ee, 0x78a5636f, 0x84c87814, 0x8cc70208],
     [0x90befffa, 0xa4506ceb, 0xbef9a3f7, 0xc67178f2]]"

definition SHA256_DefaultHashValue :: "UINT32 list" where
  "SHA256_DefaultHashValue =
    [0x6a09e667, 0xbb67ae85, 0x3c6ef372, 0xa54ff53a,
     0x510e527f, 0x9b05688c, 0x1f83d9ab, 0x5be0cd19]"

type_synonym sha256_vars =
  "UINT32 \<times> UINT32 \<times> UINT32 \<times> UINT32 \<times> UINT32 \<times> UINT32 \<times> UINT32 \<times> UINT32"

definition sha256_round :: "UINT32 \<Rightarrow> UINT32 \<Rightarrow> sha256_vars \<Rightarrow> sha256_vars" where
  "sha256_round k w = (\<lambda>(a, b, c, d, e, f, g, h).
     let T1 = h + Zsigma_256_1 e + Ch e f g + k + w;
         T2 = Zsigma_256_0 a + Maj a b c
     in (T1 + T2, a, b, c, d + T1, e, f, g))"

text \<open>One turn of the 64-round loop: for \<open>t > 15\<close> the schedule word \<open>W[t]\<close> is filled first.\<close>

definition sha256_loop_body :: "nat \<Rightarrow> UINT32 list \<times> sha256_vars \<Rightarrow> UINT32 list \<times> sha256_vars" where
  "sha256_loop_body t = (\<lambda>(W, s).
     let W' = (if t > 15
               then W @ [Sigma_256_1 (W ! (t - 2)) + W ! (t - 7) + Sigma_256_0 (W ! (t - 15)) + W ! (t - 16)]
               else W)
     in (W', sha256_round (SHA256_K ! t) (W' ! t) s))"

definition sha256_compress :: "UINT32 list \<Rightarrow> bytes \<Rightarrow> UINT32 list" where
  "sha256_compress H blk =
     (let (W, a, b, c, d, e, f, g, h) =
            fold sha256_loop_body [0..<64]
              (words_be32 blk, H ! 0, H ! 1, H ! 2, H ! 3, H ! 4, H ! 5, H ! 6, H ! 7)
      in [H ! 0 + a, H ! 1 + b, H ! 2 + c, H ! 3 + d, H ! 4 + e, H ! 5 + f, H ! 6 + g, H ! 7 + h])"

definition RT_SHA256_Init :: hash_ctx where
  "RT_SHA256_Init = hash_init SHA256_DefaultHashValue"

definition RT_SHA256_Hash :: "hash_ctx \<Rightarrow> hash_ctx" where
  "RT_SHA256_Hash = hash_block sha256_compress"

definition RT_SHA256_Append :: "hash_ctx \<Rightarrow> bytes \<Rightarrow> hash_ctx" where
  "RT_SHA256_Append = hash_append sha256_compress"

definition RT_SHA256_End :: "hash_ctx \<Rightarrow> bytes" where
  "RT_SHA256_End = hash_end sha256_compress bytes_be64 bytes_be32"

definition RT_SHA256 :: "bytes \<Rightarrow> bytes" where
  "RT_SHA256 Message = RT_SHA256_End (RT_SHA256_Append RT_SHA256_Init Message)"

section \<open>The references\<close>

fun sha1_W :: "UINT32 list \<Rightarrow> nat \<Rightarrow> UINT32" where
  "sha1_W M t =
     (if t < 16 then M ! t
      else ROTL32 (sha1_W M (t - 3) XOR sha1_W M (t - 8) XOR sha1_W M (t - 14) XOR sha1_W M (t - 16)) 1)"

declare sha1_W.simps [simp del]

definition sha1_f :: "nat \<Rightarrow> UINT32 \<Rightarrow> UINT32 \<Rightarrow> UINT32 \<Rightarrow> UINT32" where
  "sha1_f t = (if t < 20 then Ch else if t < 40 then Parity else if t < 60 then Maj else Parity)"

definition sha1_compress_reference :: "UINT32 list \<Rightarrow> bytes \<Rightarrow> UINT32 list" where
  "sha1_compress_reference H blk =
     (let (a, b, c, d, e) =
            fold (\<lambda>t. sha1_round (sha1_f t) (SHA1_K ! (t div 20)) (sha1_W (words_be32 blk) t)) [0..<80]
              (H ! 0, H ! 1, H ! 2, H ! 3, H ! 4)
      in [H ! 0 + a, H ! 1 + b, H ! 2 + c, H ! 3 + d, H ! 4 + e])"

fun sha256_W :: "UINT32 list \<Rightarrow> nat \<Rightarrow> UINT32" where
  "sha256_W M t =
     (if t < 16 then M ! t
      else Sigma_256_1 (sha256_W M (t - 2)) + sha256_W M (t - 7) + Sigma_256_0 (sha256_W M (t - 15))
           + sha256_W M (t - 16))"

declare sha256_W.simps [simp del]

definition sha256_compress_reference :: "UINT32 list \<Rightarrow> bytes \<Rightarrow> UINT32 list" where
  "sha256_compress_reference H blk =
     (let (a, b, c, d, e, f, g, h) =
            fold (\<lambda>t. sha256_round (SHA256_K ! t) (sha256_W (words_be32 blk) t)) [0..<64]
              (H ! 0, H ! 1, H ! 2, H ! 3, H ! 4, H ! 5, H ! 6, H ! 7)
      in [H ! 0 + a, H ! 1 + b, H ! 2 + c, H ! 3 + d, H ! 4 + e, H ! 5 + f, H ! 6 + g, H ! 7 + h])"

definition sha1_reference :: "bytes \<Rightarrow> bytes" where
  "sha1_reference = md_digest sha1_compress_reference SHA1_DefaultHashValue bytes_be64 bytes_be32"

definition sha256_reference :: "bytes \<Rightarrow> bytes" where
  "sha256_reference = md_digest sha256_compress_reference SHA256_DefaultHashValue bytes_be64 bytes_be32"

section \<open>The code equals the references\<close>

lemma sha1_schedule_prefix:
  assumes "length M = 16" "16 \<le> n"
  shows "fold (\<lambda>W_i W. W @ [ROTL32 (W ! (W_i - 3) XOR W ! (W_i - 8) XOR W ! (W_i - 14) XOR W ! (W_i - 16)) 1])
       [16..<n] M = map (sha1_W M) [0..<n]"
  using assms(2)
proof (induction n rule: dec_induct)
  case base
  show ?case using assms(1) by (auto intro!: nth_equalityI simp: sha1_W.simps)
next
  case (step n)
  then have "sha1_W M n
    = ROTL32 (sha1_W M (n - 3) XOR sha1_W M (n - 8) XOR sha1_W M (n - 14) XOR sha1_W M (n - 16)) 1"
    by (subst sha1_W.simps) simp
  with step show ?case by simp
qed

lemma sha1_schedule_eq: "length M = 16 \<Longrightarrow> sha1_schedule M = map (sha1_W M) [0..<80]"
  unfolding sha1_schedule_def by (rule sha1_schedule_prefix) simp_all

lemma fold_cong_set: "(\<And>t. t \<in> set ts \<Longrightarrow> f t = g t) \<Longrightarrow> fold f ts s = fold g ts s"
  by (rule fold_cong) auto

lemma upt_split: "i \<le> j \<Longrightarrow> j \<le> k \<Longrightarrow> [i..<k] = [i..<j] @ [j..<k]"
  by (metis le_Suc_ex upt_add_eq_append)

lemma fold_upt_80:
  "fold f [0..<80] s = fold f [60..<80] (fold f [40..<60] (fold f [20..<40] (fold f [0..<20] s)))"
  using upt_split [of 0 20 80] upt_split [of 20 40 80] upt_split [of 40 60 80]
  by (simp only: fold_append o_apply)

lemma sha1_compress_eq:
  assumes "length blk = 64"
  shows "sha1_compress H blk = sha1_compress_reference H blk"
proof -
  let ?W = "map (sha1_W (words_be32 blk)) [0..<80]"
  let ?g = "\<lambda>t. sha1_round (sha1_f t) (SHA1_K ! (t div 20)) (sha1_W (words_be32 blk) t)"
  have W: "sha1_schedule (words_be32 blk) = ?W" using assms by (simp add: sha1_schedule_eq)
  have 1: "fold (\<lambda>t. sha1_round Ch (SHA1_K ! 0) (?W ! t)) [0..<20] s = fold ?g [0..<20] s" for s
    by (rule fold_cong_set) (auto simp: sha1_f_def)
  have 2: "fold (\<lambda>t. sha1_round Parity (SHA1_K ! 1) (?W ! t)) [20..<40] s = fold ?g [20..<40] s" for s
    by (rule fold_cong_set) (auto simp: sha1_f_def div_nat_eqI)
  have 3: "fold (\<lambda>t. sha1_round Maj (SHA1_K ! 2) (?W ! t)) [40..<60] s = fold ?g [40..<60] s" for s
    by (rule fold_cong_set) (auto simp: sha1_f_def div_nat_eqI)
  have 4: "fold (\<lambda>t. sha1_round Parity (SHA1_K ! 3) (?W ! t)) [60..<80] s = fold ?g [60..<80] s" for s
    by (rule fold_cong_set) (auto simp: sha1_f_def div_nat_eqI)
  show ?thesis
    unfolding sha1_compress_def sha1_compress_reference_def W Let_def 1 2 3 4 fold_upt_80
    by (rule refl)
qed

lemma sha256_loop_prefix:
  assumes "length M = 16"
  shows "fold sha256_loop_body [0..<n] (M, s) =
    (map (sha256_W M) [0..<max 16 n], fold (\<lambda>t. sha256_round (SHA256_K ! t) (sha256_W M t)) [0..<n] s)"
proof (induction n)
  case 0
  show ?case using assms by (auto intro!: nth_equalityI simp: sha256_W.simps)
next
  case (Suc n)
  show ?case
  proof (cases "n > 15")
    case True
    have "sha256_W M n = Sigma_256_1 (sha256_W M (n - 2)) + sha256_W M (n - 7)
        + Sigma_256_0 (sha256_W M (n - 15)) + sha256_W M (n - 16)"
      using True by (subst sha256_W.simps) simp
    moreover from True have "max 16 n = n" "max 16 (Suc n) = Suc n" by simp_all
    ultimately show ?thesis using Suc True
      by (simp add: sha256_loop_body_def Let_def nth_append)
  next
    case False
    then have "max 16 n = 16" "max 16 (Suc n) = 16" by simp_all
    with Suc False show ?thesis by (simp add: sha256_loop_body_def Let_def)
  qed
qed

lemma sha256_compress_eq:
  "length blk = 64 \<Longrightarrow> sha256_compress H blk = sha256_compress_reference H blk"
  by (simp add: sha256_compress_def sha256_compress_reference_def sha256_loop_prefix)

lemma RT_SHA1_absorbs:
  "absorbed sha1_compress SHA1_DefaultHashValue ctx m \<Longrightarrow> length m mod 64 + length xs < 2 ^ 32 \<Longrightarrow>
   absorbed sha1_compress SHA1_DefaultHashValue (RT_SHA1_Append ctx xs) (m @ xs)"
  unfolding RT_SHA1_Append_def by (rule hash_append_absorbs)

lemma RT_SHA256_absorbs:
  "absorbed sha256_compress SHA256_DefaultHashValue ctx m \<Longrightarrow> length m mod 64 + length xs < 2 ^ 32 \<Longrightarrow>
   absorbed sha256_compress SHA256_DefaultHashValue (RT_SHA256_Append ctx xs) (m @ xs)"
  unfolding RT_SHA256_Append_def by (rule hash_append_absorbs)

lemma RT_SHA1_End_digest:
  "absorbed sha1_compress SHA1_DefaultHashValue ctx m \<Longrightarrow> RT_SHA1_End ctx = sha1_reference m"
  unfolding RT_SHA1_End_def sha1_reference_def
  by (subst hash_end_digest) (auto intro: md_digest_cong sha1_compress_eq)

lemma RT_SHA256_End_digest:
  "absorbed sha256_compress SHA256_DefaultHashValue ctx m \<Longrightarrow> RT_SHA256_End ctx = sha256_reference m"
  unfolding RT_SHA256_End_def sha256_reference_def
  by (subst hash_end_digest) (auto intro: md_digest_cong sha256_compress_eq)

lemma length_sha1_reference [simp]: "length (sha1_reference m) = 20"
proof -
  have *: "length (sha1_compress_reference h b) = 5" for h b
    by (simp add: sha1_compress_reference_def Let_def case_prod_beta)
  show ?thesis unfolding sha1_reference_def
    by (subst length_md_digest [where n = 5])
       (simp_all add: * SHA1_DefaultHashValue_def)
qed

lemma length_sha256_reference [simp]: "length (sha256_reference m) = 32"
proof -
  have *: "length (sha256_compress_reference h b) = 8" for h b
    by (simp add: sha256_compress_reference_def Let_def case_prod_beta)
  show ?thesis unfolding sha256_reference_def
    by (subst length_md_digest [where n = 8])
       (simp_all add: * SHA256_DefaultHashValue_def)
qed

end
