(* ===== verification/Hmac.thy ===== *)
theory Hmac
  imports Md5 Sha2
begin

text \<open>
  \<^verbatim>\<open>common/crypt_hmac.c\<close>: HMAC over the three hash functions.  The interface HMAC relies on is
  the locale \<open>stream_hash\<close>: an initial context, an append operation and a finishing
  operation that together compute a hash function on whole byte strings.  HMAC is proved
  equal to its standard definition once inside the locale; the locale is interpreted on the
  MD5, SHA-1 and SHA-256 code.
\<close>

definition RT_HMAC_SHA1 :: "bytes \<Rightarrow> bytes \<Rightarrow> nat \<Rightarrow> bytes" where
  "RT_HMAC_SHA1 Key Message MACLen =
     (let K0 = NdisZeroMemory 64;
          K0 = (if length Key \<le> 64 then NdisMoveMemory K0 0 Key
                else NdisMoveMemory K0 0 (RT_SHA1 Key));
          K0 = map (\<lambda>b. b XOR 0x36) K0;
          sha_ctx1 = RT_SHA1_Append (RT_SHA1_Append RT_SHA1_Init K0) Message;
          Digest = RT_SHA1_End sha_ctx1;
          K0 = map (\<lambda>b. b XOR (0x36 XOR 0x5c)) K0;
          sha_ctx2 = RT_SHA1_Append (RT_SHA1_Append RT_SHA1_Init K0) Digest;
          Digest = RT_SHA1_End sha_ctx2
      in if MACLen > 20 then take 20 Digest else take MACLen Digest)"

definition RT_HMAC_SHA256 :: "bytes \<Rightarrow> bytes \<Rightarrow> nat \<Rightarrow> bytes" where
  "RT_HMAC_SHA256 Key Message MACLen =
     (let K0 = NdisZeroMemory 64;
          K0 = (if length Key \<le> 64 then NdisMoveMemory K0 0 Key
                else NdisMoveMemory K0 0 (RT_SHA256 Key));
          K0 = map (\<lambda>b. b XOR 0x36) K0;
          sha_ctx1 = RT_SHA256_Append (RT_SHA256_Append RT_SHA256_Init K0) Message;
          Digest = RT_SHA256_End sha_ctx1;
          K0 = map (\<lambda>b. b XOR (0x36 XOR 0x5c)) K0;
          sha_ctx2 = RT_SHA256_Append (RT_SHA256_Append RT_SHA256_Init K0) Digest;
          Digest = RT_SHA256_End sha_ctx2
      in if MACLen > 32 then take 32 Digest else take MACLen Digest)"

definition RT_HMAC_MD5 :: "bytes \<Rightarrow> bytes \<Rightarrow> nat \<Rightarrow> bytes" where
  "RT_HMAC_MD5 Key Message MACLen =
     (let K0 = NdisZeroMemory 64;
          K0 = (if length Key \<le> 64 then NdisMoveMemory K0 0 Key
                else NdisMoveMemory K0 0 (RT_MD5 Key));
          K0 = map (\<lambda>b. b XOR 0x36) K0;
          md5_ctx1 = RT_MD5_Append (RT_MD5_Append RT_MD5_Init K0) Message;
          Digest = RT_MD5_End md5_ctx1;
          K0 = map (\<lambda>b. b XOR (0x36 XOR 0x5c)) K0;
          md5_ctx2 = RT_MD5_Append (RT_MD5_Append RT_MD5_Init K0) Digest;
          Digest = RT_MD5_End md5_ctx2
      in if MACLen > 16 then take 16 Digest else take MACLen Digest)"

section \<open>The standard definition\<close>

definition hmac_key :: "(bytes \<Rightarrow> bytes) \<Rightarrow> bytes \<Rightarrow> bytes" where
  "hmac_key H K =
     (let K' = (if length K > 64 then H K else K) in K' @ replicate (64 - length K') 0)"

definition hmac_reference :: "(bytes \<Rightarrow> bytes) \<Rightarrow> bytes \<Rightarrow> bytes \<Rightarrow> bytes" where
  "hmac_reference H K m =
     H (xor_bytes (hmac_key H K) (replicate 64 0x5c)
        @ H (xor_bytes (hmac_key H K) (replicate 64 0x36) @ m))"

section \<open>The interface of a streaming hash\<close>

locale stream_hash =
  fixes ini :: "'c" and app :: "'c \<Rightarrow> bytes \<Rightarrow> 'c" and fin :: "'c \<Rightarrow> bytes"
    and state_of :: "'c \<Rightarrow> bytes \<Rightarrow> bool" and H :: "bytes \<Rightarrow> bytes" and L :: nat
  assumes ini: "state_of ini []"
    and app: "state_of c m \<Longrightarrow> length m mod 64 + length xs < 2 ^ 32 \<Longrightarrow> state_of (app c xs) (m @ xs)"
    and fin: "state_of c m \<Longrightarrow> fin c = H m"
    and length_H: "length (H m) = L"
    and L_le: "L \<le> 64"
begin

lemma one_part: "length m < 2 ^ 32 \<Longrightarrow> fin (app ini m) = H m"
  using fin [OF app [OF ini, of m]] by simp

lemma two_parts:
  "length a = 64 \<Longrightarrow> length b < 2 ^ 32 \<Longrightarrow> fin (app (app ini a) b) = H (a @ b)"
  using fin [OF app [OF app [OF ini, of a], of b]] by simp

lemma fragments_irrelevant:
  assumes "length (concat ms) < 2 ^ 31"
  shows "fin (foldl app ini ms) = H (concat ms)"
proof -
  have "state_of (foldl app c ms) (m @ concat ms)" if "state_of c m" "length (concat ms) < 2 ^ 31" for c m
    using that
  proof (induction ms arbitrary: c m)
    case (Cons x xs)
    then have "length m mod 64 + length x < 2 ^ 32" using mod_less_divisor [of 64 "length m"] by simp
    with Cons show ?case using Cons.IH [of "app c x" "m @ x"] app [of c m x] by simp
  qed simp
  from this [OF ini assms] show ?thesis by (simp add: fin)
qed

lemma hmac_key_code:
  assumes "length Key < 2 ^ 32"
  shows "(if length Key \<le> 64 then NdisMoveMemory (NdisZeroMemory 64) 0 Key
          else NdisMoveMemory (NdisZeroMemory 64) 0 (fin (app ini Key))) = hmac_key H Key"
  using assms by (simp add: hmac_key_def NdisMoveMemory_def NdisZeroMemory_def Let_def one_part)

lemma length_hmac_key: "length (hmac_key H Key) = 64"
  using L_le by (simp add: hmac_key_def Let_def length_H)

lemma hmac_code:
  assumes "length Key < 2 ^ 32" "length Message < 2 ^ 32"
    and "K0 = hmac_key H Key"
    and "K1 = map (\<lambda>b. b XOR 0x36) K0"
    and "K2 = map (\<lambda>b. b XOR (0x36 XOR 0x5c)) K1"
  shows "fin (app (app ini K2) (fin (app (app ini K1) Message))) = hmac_reference H Key Message"
proof -
  have K1: "K1 = xor_bytes (hmac_key H Key) (replicate 64 0x36)"
    by (simp add: assms length_hmac_key)
  have "K2 = map (\<lambda>b. (b XOR 0x36) XOR (0x36 XOR 0x5c)) (hmac_key H Key)"
    by (simp add: assms)
  also have "\<dots> = map (\<lambda>b. b XOR 0x5c) (hmac_key H Key)"
    by (rule map_cong) (simp_all only: xor.assoc xor_self_cancel2 refl)
  finally have K2: "K2 = xor_bytes (hmac_key H Key) (replicate 64 0x5c)"
    by (simp add: length_hmac_key)
  have L: "length (H m) < 2 ^ 32" for m using L_le by (simp add: length_H)
  have len: "length K1 = 64" "length K2 = 64" by (simp_all add: assms length_hmac_key)
  show ?thesis
    by (simp only: two_parts [OF len(1) assms(2)] two_parts [OF len(2) L] hmac_reference_def
        flip: K1 K2)
qed

lemma length_hmac_reference: "length (hmac_reference H K m) = L"
  by (simp add: hmac_reference_def length_H)

end

interpretation md5: stream_hash RT_MD5_Init RT_MD5_Append RT_MD5_End
  "absorbed md5_compress MD5_DefaultHashValue" md5_reference 16
  by unfold_locales
     (auto simp: RT_MD5_Init_def absorbed_init RT_MD5_absorbs RT_MD5_End_digest)

interpretation sha1: stream_hash RT_SHA1_Init RT_SHA1_Append RT_SHA1_End
  "absorbed sha1_compress SHA1_DefaultHashValue" sha1_reference 20
  by unfold_locales
     (auto simp: RT_SHA1_Init_def absorbed_init RT_SHA1_absorbs RT_SHA1_End_digest)

interpretation sha256: stream_hash RT_SHA256_Init RT_SHA256_Append RT_SHA256_End
  "absorbed sha256_compress SHA256_DefaultHashValue" sha256_reference 32
  by unfold_locales
     (auto simp: RT_SHA256_Init_def absorbed_init RT_SHA256_absorbs RT_SHA256_End_digest)

lemma HMAC_SHA1_spec:
  "length Key < 2 ^ 32 \<Longrightarrow> length Message < 2 ^ 32 \<Longrightarrow>
   RT_HMAC_SHA1 Key Message MACLen = take MACLen (hmac_reference sha1_reference Key Message)"
  by (simp only: RT_HMAC_SHA1_def Let_def RT_SHA1_def sha1.hmac_key_code sha1.hmac_code
      sha1.length_hmac_reference take_all_iff if_split) (simp add: sha1.length_hmac_reference)

lemma HMAC_SHA256_spec:
  "length Key < 2 ^ 32 \<Longrightarrow> length Message < 2 ^ 32 \<Longrightarrow>
   RT_HMAC_SHA256 Key Message MACLen = take MACLen (hmac_reference sha256_reference Key Message)"
  by (simp only: RT_HMAC_SHA256_def Let_def RT_SHA256_def sha256.hmac_key_code sha256.hmac_code
      sha256.length_hmac_reference take_all_iff if_split) (simp add: sha256.length_hmac_reference)

lemma HMAC_MD5_spec:
  "length Key < 2 ^ 32 \<Longrightarrow> length Message < 2 ^ 32 \<Longrightarrow>
   RT_HMAC_MD5 Key Message MACLen = take MACLen (hmac_reference md5_reference Key Message)"
  by (simp only: RT_HMAC_MD5_def Let_def RT_MD5_def md5.hmac_key_code md5.hmac_code
      md5.length_hmac_reference take_all_iff if_split) (simp add: md5.length_hmac_reference)

section \<open>Properties\<close>

text \<open>SHA-256 of the driver, fed one message, is the standard's padded iteration with the
  recursive message schedule, for every message whose length fits the \<^verbatim>\<open>UINT\<close> parameter.\<close>

theorem RT_SHA256_correct: "length m < 2 ^ 32 \<Longrightarrow> RT_SHA256 m = sha256_reference m"
  unfolding RT_SHA256_def by (rule sha256.one_part)

theorem RT_SHA256_correct_witness: "RT_SHA256 [0x61, 0x62, 0x63] = sha256_reference [0x61, 0x62, 0x63]"
  by (rule RT_SHA256_correct) simp



text \<open>the unrolled MD5 of the driver equals the table-driven definition of RFC 1321.\<close>

theorem RT_MD5_correct: "length m < 2 ^ 32 \<Longrightarrow> RT_MD5 m = md5_reference m"
  unfolding RT_MD5_def by (rule md5.one_part)

theorem RT_MD5_correct_witness: "RT_MD5 [0x61, 0x62, 0x63] = md5_reference [0x61, 0x62, 0x63]"
  by (rule RT_MD5_correct) simp

text \<open>feeding a message in any fragments gives the digest of the whole message.\<close>

theorem RT_SHA1_fragments:
  "length (concat ms) < 2 ^ 31 \<Longrightarrow>
   RT_SHA1_End (foldl RT_SHA1_Append RT_SHA1_Init ms) = sha1_reference (concat ms)"
  by (rule sha1.fragments_irrelevant)

theorem RT_SHA1_fragments_witness:
  "RT_SHA1_End (foldl RT_SHA1_Append RT_SHA1_Init [[1], [], [2, 3]]) = sha1_reference [1, 2, 3]"
  using RT_SHA1_fragments [of "[[1], [], [2, 3]]"] by simp

text \<open>C27: HMAC-SHA1 (the PRF of the WPA key hierarchy) is the standard's HMAC, cut to
  \<open>MACLen\<close> bytes.\<close>

theorem RT_HMAC_SHA1_correct:
  "length Key < 2 ^ 32 \<Longrightarrow> length Message < 2 ^ 32 \<Longrightarrow>
   RT_HMAC_SHA1 Key Message MACLen = take MACLen (hmac_reference sha1_reference Key Message)"
  by (rule HMAC_SHA1_spec)

theorem RT_HMAC_SHA1_correct_witness:
  "RT_HMAC_SHA1 [1, 2] [3] 12 = take 12 (hmac_reference sha1_reference [1, 2] [3])"
  by (rule RT_HMAC_SHA1_correct) simp_all

text \<open>HMAC-SHA256 is the standard's HMAC.\<close>

theorem RT_HMAC_SHA256_correct:
  "length Key < 2 ^ 32 \<Longrightarrow> length Message < 2 ^ 32 \<Longrightarrow>
   RT_HMAC_SHA256 Key Message MACLen = take MACLen (hmac_reference sha256_reference Key Message)"
  by (rule HMAC_SHA256_spec)

theorem RT_HMAC_SHA256_correct_witness:
  "RT_HMAC_SHA256 [1, 2] [3] 12 = take 12 (hmac_reference sha256_reference [1, 2] [3])"
  by (rule RT_HMAC_SHA256_correct) simp_all

text \<open>HMAC-MD5 is the standard's HMAC.\<close>

theorem RT_HMAC_MD5_correct:
  "length Key < 2 ^ 32 \<Longrightarrow> length Message < 2 ^ 32 \<Longrightarrow>
   RT_HMAC_MD5 Key Message MACLen = take MACLen (hmac_reference md5_reference Key Message)"
  by (rule HMAC_MD5_spec)

theorem RT_HMAC_MD5_correct_witness:
  "RT_HMAC_MD5 [1, 2] [3] 12 = take 12 (hmac_reference md5_reference [1, 2] [3])"
  by (rule RT_HMAC_MD5_correct) simp_all

end
