(* ===== verification/AesBlock.thy ===== *)
theory AesBlock
  imports AesTables
begin

text \<open>
  The AES block cipher of \<^verbatim>\<open>common/crypt_aes.c\<close>: key expansion, encryption and decryption of one
  block.  A function that allocates its \<^verbatim>\<open>AES_CTX_STRUC\<close> takes the answer of \<^verbatim>\<open>os_alloc_mem\<close>
  as its first argument: \<open>None\<close> when the allocation fails, otherwise a context whose contents are
  whatever the memory held.  The loops over the cells of the state that replace each cell by a
  function of itself are \<open>aes_cells\<close>; the assignments of the row shifts and of the column mixing
  are kept one by one.
\<close>

section \<open>Data\<close>

definition AES_STATE_ROWS :: nat where "AES_STATE_ROWS = 4"
definition AES_STATE_COLUMNS :: nat where "AES_STATE_COLUMNS = 4"
definition AES_KEY_ROWS :: nat where "AES_KEY_ROWS = 4"

text \<open>\<^verbatim>\<open>AES_BLOCK_SIZES\<close> is the token sequence \<^verbatim>\<open>4*4\<close>; where the code compares with it, that is 16.\<close>

definition AES_BLOCK_SIZES :: nat where "AES_BLOCK_SIZES = 16"

definition aes_key_length_ok :: "nat \<Rightarrow> bool" where
  "aes_key_length_ok KeyLength \<longleftrightarrow> KeyLength = 16 \<or> KeyLength = 24 \<or> KeyLength = 32"

lemmas aes_consts = AES_STATE_ROWS_def AES_STATE_COLUMNS_def AES_KEY_ROWS_def AES_BLOCK_SIZES_def

record AES_CTX_STRUC =
  State :: "bytes list"
  KeyWordExpansion :: "bytes list"

definition get2 :: "'a list list \<Rightarrow> nat \<Rightarrow> nat \<Rightarrow> 'a" where
  "get2 m r c = m ! r ! c"

definition set2 :: "'a list list \<Rightarrow> nat \<Rightarrow> nat \<Rightarrow> 'a \<Rightarrow> 'a list list" where
  "set2 m r c v = m[r := (m ! r)[c := v]]"

definition matrix_wf :: "nat \<Rightarrow> nat \<Rightarrow> 'a list list \<Rightarrow> bool" where
  "matrix_wf r c m \<longleftrightarrow> length m = r \<and> (\<forall>row \<in> set m. length row = c)"

definition aes_ctx_wf :: "AES_CTX_STRUC \<Rightarrow> bool" where
  "aes_ctx_wf ctx \<longleftrightarrow> matrix_wf 4 4 (State ctx) \<and> matrix_wf 4 60 (KeyWordExpansion ctx)"

section \<open>Key expansion\<close>

definition aes_set_column :: "bytes list \<Rightarrow> nat \<Rightarrow> UINT8 \<Rightarrow> UINT8 \<Rightarrow> UINT8 \<Rightarrow> UINT8 \<Rightarrow> bytes list" where
  "aes_set_column kw i a b c d = set2 (set2 (set2 (set2 kw 0 i a) 1 i b) 2 i c) 3 i d"

definition aes_key_load :: "bytes \<Rightarrow> nat \<Rightarrow> bytes list \<Rightarrow> bytes list" where
  "aes_key_load Key i kw =
     aes_set_column kw i (Key ! (4 * i)) (Key ! (4 * i + 1)) (Key ! (4 * i + 2)) (Key ! (4 * i + 3))"

definition aes_temp_word :: "nat \<Rightarrow> nat \<Rightarrow> UINT8 \<Rightarrow> UINT8 \<Rightarrow> UINT8 \<Rightarrow> UINT8 \<Rightarrow> UINT8 \<times> UINT8 \<times> UINT8 \<times> UINT8" where
  "aes_temp_word Nk i t0 t1 t2 t3 =
    (if i mod Nk = 0 then
       let Temprcon = aes_rcon ! (i div Nk);
           Temp = aes_sbox_enc ! unat t1 XOR ucast (drop_bit 24 Temprcon AND 0xff);
           t1' = aes_sbox_enc ! unat t2 XOR ucast (drop_bit 16 Temprcon AND 0xff);
           t2' = aes_sbox_enc ! unat t3 XOR ucast (drop_bit 8 Temprcon AND 0xff);
           t3' = aes_sbox_enc ! unat t0 XOR ucast (Temprcon AND 0xff)
       in (Temp, t1', t2', t3')
     else if Nk > 6 \<and> i mod Nk = 4 then
       (aes_sbox_enc ! unat t0, aes_sbox_enc ! unat t1, aes_sbox_enc ! unat t2, aes_sbox_enc ! unat t3)
     else (t0, t1, t2, t3))"

definition aes_key_expand :: "nat \<Rightarrow> nat \<Rightarrow> bytes list \<Rightarrow> bytes list" where
  "aes_key_expand Nk i kw =
    (let (t0, t1, t2, t3) =
       aes_temp_word Nk i (get2 kw 0 (i - 1)) (get2 kw 1 (i - 1)) (get2 kw 2 (i - 1)) (get2 kw 3 (i - 1))
     in aes_set_column kw i
          (get2 kw 0 (i - Nk) XOR t0) (get2 kw 1 (i - Nk) XOR t1)
          (get2 kw 2 (i - Nk) XOR t2) (get2 kw 3 (i - Nk) XOR t3))"

definition RT_AES_KeyExpansion :: "bytes \<Rightarrow> nat \<Rightarrow> AES_CTX_STRUC \<Rightarrow> AES_CTX_STRUC" where
  "RT_AES_KeyExpansion Key KeyLength ctx =
    (let NumberOfWordOfKey = KeyLength div 4;
         kw = fold (aes_key_load Key) [0..<NumberOfWordOfKey] (KeyWordExpansion ctx);
         NumberOfWordOfKeyExpansion = AES_KEY_ROWS * (KeyLength div 4 + 6 + 1);
         kw' = fold (aes_key_expand NumberOfWordOfKey)
                 [NumberOfWordOfKey..<NumberOfWordOfKeyExpansion] kw
     in ctx\<lparr>KeyWordExpansion := kw'\<rparr>)"

section \<open>Round functions\<close>

definition aes_cells :: "(nat \<Rightarrow> nat \<Rightarrow> UINT8) \<Rightarrow> bytes list" where
  "aes_cells f = map (\<lambda>r. map (\<lambda>c. f r c) [0..<AES_STATE_COLUMNS]) [0..<AES_STATE_ROWS]"

definition AES_AddRoundKey :: "bytes list \<Rightarrow> nat \<Rightarrow> bytes list \<Rightarrow> bytes list" where
  "AES_AddRoundKey kw RoundIndex st =
     aes_cells (\<lambda>r c. get2 st r c XOR get2 kw r (RoundIndex * AES_STATE_COLUMNS + c))"

definition AES_SubBytes :: "bytes list \<Rightarrow> bytes list" where
  "AES_SubBytes st = aes_cells (\<lambda>r c. aes_sbox_enc ! unat (get2 st r c))"

definition AES_InvSubBytes :: "bytes list \<Rightarrow> bytes list" where
  "AES_InvSubBytes st = aes_cells (\<lambda>r c. aes_sbox_dec ! unat (get2 st r c))"

definition AES_ShiftRows :: "bytes list \<Rightarrow> bytes list" where
  "AES_ShiftRows st =
    (let Temp = get2 st 1 0;
         st = set2 st 1 0 (get2 st 1 1);
         st = set2 st 1 1 (get2 st 1 2);
         st = set2 st 1 2 (get2 st 1 3);
         st = set2 st 1 3 Temp;
         Temp = get2 st 2 0;
         st = set2 st 2 0 (get2 st 2 2);
         st = set2 st 2 2 Temp;
         Temp = get2 st 2 1;
         st = set2 st 2 1 (get2 st 2 3);
         st = set2 st 2 3 Temp;
         Temp = get2 st 3 3;
         st = set2 st 3 3 (get2 st 3 2);
         st = set2 st 3 2 (get2 st 3 1);
         st = set2 st 3 1 (get2 st 3 0)
     in set2 st 3 0 Temp)"

definition AES_InvShiftRows :: "bytes list \<Rightarrow> bytes list" where
  "AES_InvShiftRows st =
    (let Temp = get2 st 1 3;
         st = set2 st 1 3 (get2 st 1 2);
         st = set2 st 1 2 (get2 st 1 1);
         st = set2 st 1 1 (get2 st 1 0);
         st = set2 st 1 0 Temp;
         Temp = get2 st 2 0;
         st = set2 st 2 0 (get2 st 2 2);
         st = set2 st 2 2 Temp;
         Temp = get2 st 2 1;
         st = set2 st 2 1 (get2 st 2 3);
         st = set2 st 2 3 Temp;
         Temp = get2 st 3 0;
         st = set2 st 3 0 (get2 st 3 1);
         st = set2 st 3 1 (get2 st 3 2);
         st = set2 st 3 2 (get2 st 3 3)
     in set2 st 3 3 Temp)"

definition aes_mix_column :: "nat \<Rightarrow> bytes list \<Rightarrow> bytes list" where
  "aes_mix_column c st =
    (let Row0 = get2 st 0 c; Row1 = get2 st 1 c; Row2 = get2 st 2 c; Row3 = get2 st 3 c;
         st = set2 st 0 c (aes_mul_2 ! unat Row0 XOR aes_mul_3 ! unat Row1 XOR Row2 XOR Row3);
         st = set2 st 1 c (Row0 XOR aes_mul_2 ! unat Row1 XOR aes_mul_3 ! unat Row2 XOR Row3);
         st = set2 st 2 c (Row0 XOR Row1 XOR aes_mul_2 ! unat Row2 XOR aes_mul_3 ! unat Row3)
     in set2 st 3 c (aes_mul_3 ! unat Row0 XOR Row1 XOR Row2 XOR aes_mul_2 ! unat Row3))"

definition AES_MixColumns :: "bytes list \<Rightarrow> bytes list" where
  "AES_MixColumns st = fold aes_mix_column [0..<AES_STATE_COLUMNS] st"

definition aes_inv_mix_column :: "nat \<Rightarrow> bytes list \<Rightarrow> bytes list" where
  "aes_inv_mix_column c st =
    (let Row0 = get2 st 0 c; Row1 = get2 st 1 c; Row2 = get2 st 2 c; Row3 = get2 st 3 c;
         st = set2 st 0 c (aes_mul_e ! unat Row0 XOR aes_mul_b ! unat Row1 XOR aes_mul_d ! unat Row2
                             XOR aes_mul_9 ! unat Row3);
         st = set2 st 1 c (aes_mul_9 ! unat Row0 XOR aes_mul_e ! unat Row1 XOR aes_mul_b ! unat Row2
                             XOR aes_mul_d ! unat Row3);
         st = set2 st 2 c (aes_mul_d ! unat Row0 XOR aes_mul_9 ! unat Row1 XOR aes_mul_e ! unat Row2
                             XOR aes_mul_b ! unat Row3)
     in set2 st 3 c (aes_mul_b ! unat Row0 XOR aes_mul_d ! unat Row1 XOR aes_mul_9 ! unat Row2
                             XOR aes_mul_e ! unat Row3))"

definition AES_InvMixColumns :: "bytes list \<Rightarrow> bytes list" where
  "AES_InvMixColumns st = fold aes_inv_mix_column [0..<AES_STATE_COLUMNS] st"

section \<open>Encryption and decryption of a block\<close>

definition aes_load_state :: "bytes \<Rightarrow> bytes list" where
  "aes_load_state blk = aes_cells (\<lambda>r c. blk ! (r + 4 * c))"

text \<open>The store loop writes every index \<open>r + 4 * c\<close> once, which is the order of the block.\<close>

definition aes_store_state :: "bytes list \<Rightarrow> bytes" where
  "aes_store_state st = map (\<lambda>i. get2 st (i mod 4) (i div 4)) [0..<AES_BLOCK_SIZES]"

definition aes_enc_round :: "bytes list \<Rightarrow> nat \<Rightarrow> bytes list \<Rightarrow> bytes list" where
  "aes_enc_round kw RoundIndex st =
     AES_AddRoundKey kw RoundIndex (AES_MixColumns (AES_ShiftRows (AES_SubBytes st)))"

definition aes_dec_round :: "bytes list \<Rightarrow> nat \<Rightarrow> bytes list \<Rightarrow> bytes list" where
  "aes_dec_round kw RoundIndex st =
     AES_InvMixColumns (AES_AddRoundKey kw RoundIndex (AES_InvSubBytes (AES_InvShiftRows st)))"

definition aes_enc_rounds :: "bytes list \<Rightarrow> nat \<Rightarrow> bytes list \<Rightarrow> bytes list" where
  "aes_enc_rounds kw NumberOfRound st =
    (let st = AES_AddRoundKey kw 0 st;
         st = fold (aes_enc_round kw) [1..<NumberOfRound] st
     in AES_AddRoundKey kw NumberOfRound (AES_ShiftRows (AES_SubBytes st)))"

definition aes_dec_rounds :: "bytes list \<Rightarrow> nat \<Rightarrow> bytes list \<Rightarrow> bytes list" where
  "aes_dec_rounds kw NumberOfRound st =
    (let st = AES_AddRoundKey kw NumberOfRound st;
         st = fold (aes_dec_round kw) (rev [1..<NumberOfRound]) st
     in AES_AddRoundKey kw 0 (AES_InvSubBytes (AES_InvShiftRows st)))"

definition RT_AES_Encrypt ::
  "AES_CTX_STRUC option \<Rightarrow> bytes \<Rightarrow> nat \<Rightarrow> bytes \<Rightarrow> nat \<Rightarrow> bytes \<Rightarrow> nat \<Rightarrow> bytes \<times> nat" where
  "RT_AES_Encrypt mem PlainBlock PlainBlockSize Key KeyLength CipherBlock CipherBlockSize =
    (if PlainBlockSize \<noteq> AES_BLOCK_SIZES then (CipherBlock, CipherBlockSize)
     else if \<not> aes_key_length_ok KeyLength then (CipherBlock, CipherBlockSize)
     else if CipherBlockSize < AES_BLOCK_SIZES then (CipherBlock, CipherBlockSize)
     else case mem of None \<Rightarrow> (CipherBlock, CipherBlockSize)
     | Some ctx \<Rightarrow>
        let ctx = RT_AES_KeyExpansion Key KeyLength (ctx\<lparr>State := aes_load_state PlainBlock\<rparr>);
            st = aes_enc_rounds (KeyWordExpansion ctx) (KeyLength div 4 + 6) (State ctx)
        in (NdisMoveMemory CipherBlock 0 (aes_store_state st), AES_STATE_ROWS * AES_STATE_COLUMNS))"

definition RT_AES_Decrypt ::
  "AES_CTX_STRUC option \<Rightarrow> bytes \<Rightarrow> nat \<Rightarrow> bytes \<Rightarrow> nat \<Rightarrow> bytes \<Rightarrow> nat \<Rightarrow> bytes \<times> nat" where
  "RT_AES_Decrypt mem CipherBlock CipherBlockSize Key KeyLength PlainBlock PlainBlockSize =
    (if PlainBlockSize < AES_BLOCK_SIZES then (PlainBlock, PlainBlockSize)
     else if \<not> aes_key_length_ok KeyLength then (PlainBlock, PlainBlockSize)
     else if CipherBlockSize \<noteq> AES_BLOCK_SIZES then (PlainBlock, PlainBlockSize)
     else case mem of None \<Rightarrow> (PlainBlock, PlainBlockSize)
     | Some ctx \<Rightarrow>
        let ctx = RT_AES_KeyExpansion Key KeyLength (ctx\<lparr>State := aes_load_state CipherBlock\<rparr>);
            st = aes_dec_rounds (KeyWordExpansion ctx) (KeyLength div 4 + 6) (State ctx)
        in (NdisMoveMemory PlainBlock 0 (aes_store_state st), AES_STATE_ROWS * AES_STATE_COLUMNS))"

section \<open>Matrices\<close>

lemma matrix_wf_set2 [simp]: "matrix_wf m n k \<Longrightarrow> matrix_wf m n (set2 k r c v)"
  by (cases "r < length k") (auto simp: matrix_wf_def set2_def all_set_conv_all_nth nth_list_update)

lemma get2_set2:
  "matrix_wf m n k \<Longrightarrow> r < m \<Longrightarrow> c < n \<Longrightarrow>
   get2 (set2 k r c v) r' c' = (if r = r' \<and> c = c' then v else get2 k r' c')"
  by (auto simp: matrix_wf_def set2_def get2_def nth_list_update)

lemma matrix_wf_cells [simp]: "matrix_wf 4 4 (aes_cells f)"
  by (simp add: matrix_wf_def aes_cells_def aes_consts)

lemma get2_cells [simp]: "r < 4 \<Longrightarrow> c < 4 \<Longrightarrow> get2 (aes_cells f) r c = f r c"
  by (simp add: aes_cells_def get2_def aes_consts)

lemma length_4_conv: "length xs = 4 \<longleftrightarrow> (\<exists>a b c d. xs = [a, b, c, d])"
  by (auto simp: eval_nat_numeral length_Suc_conv)

lemma state_literal:
  assumes "matrix_wf 4 4 st"
  obtains a b c d e f g h i j k l m n p q where "st = [[a, b, c, d], [e, f, g, h], [i, j, k, l], [m, n, p, q]]"
proof -
  from assms obtain r0 r1 r2 r3 where "st = [r0, r1, r2, r3]"
    and "length r0 = 4" "length r1 = 4" "length r2 = 4" "length r3 = 4"
    by (auto simp: matrix_wf_def length_4_conv [of st])
  then show thesis using that by (auto simp: length_4_conv)
qed

lemma cells_get2 [simp]: "matrix_wf 4 4 st \<Longrightarrow> aes_cells (get2 st) = st"
  by (erule state_literal) (simp add: aes_cells_def get2_def aes_consts upt_rec)

lemma aes_cells_cong:
  "(\<And>r c. r < 4 \<Longrightarrow> c < 4 \<Longrightarrow> f r c = g r c) \<Longrightarrow> aes_cells f = aes_cells g"
  by (simp add: aes_cells_def aes_consts)

section \<open>Each decryption step undoes its encryption step\<close>

lemma InvSubBytes_SubBytes: "matrix_wf 4 4 st \<Longrightarrow> AES_InvSubBytes (AES_SubBytes st) = st"
proof -
  assume wf: "matrix_wf 4 4 st"
  have "AES_InvSubBytes (AES_SubBytes st) = aes_cells (get2 st)"
    unfolding AES_InvSubBytes_def AES_SubBytes_def
    by (rule aes_cells_cong) (simp add: aes_sbox_dec_enc)
  with wf show ?thesis by simp
qed

lemma AddRoundKey_twice: "matrix_wf 4 4 st \<Longrightarrow> AES_AddRoundKey kw n (AES_AddRoundKey kw n st) = st"
proof -
  assume wf: "matrix_wf 4 4 st"
  have "AES_AddRoundKey kw n (AES_AddRoundKey kw n st) = aes_cells (get2 st)"
    unfolding AES_AddRoundKey_def by (rule aes_cells_cong) simp
  with wf show ?thesis by simp
qed

lemma ShiftRows_literal:
  "AES_ShiftRows [r, [e, f, g, h], [i, j, k, l], [m, n, p, q]] = [r, [f, g, h, e], [k, l, i, j], [q, m, n, p]]"
  by (simp add: AES_ShiftRows_def get2_def set2_def)

lemma InvShiftRows_literal:
  "AES_InvShiftRows [r, [f, g, h, e], [k, l, i, j], [q, m, n, p]] = [r, [e, f, g, h], [i, j, k, l], [m, n, p, q]]"
  by (simp add: AES_InvShiftRows_def get2_def set2_def)

lemma InvShiftRows_ShiftRows: "matrix_wf 4 4 st \<Longrightarrow> AES_InvShiftRows (AES_ShiftRows st) = st"
  by (erule state_literal) (simp only: ShiftRows_literal InvShiftRows_literal)

lemma matrix_wf_Let_set2:
  "matrix_wf 4 4 st \<Longrightarrow> matrix_wf 4 4 (AES_ShiftRows st)"
  "matrix_wf 4 4 st \<Longrightarrow> matrix_wf 4 4 (aes_mix_column c st)"
  "matrix_wf 4 4 st \<Longrightarrow> matrix_wf 4 4 (aes_inv_mix_column c st)"
  by (simp_all add: AES_ShiftRows_def aes_mix_column_def aes_inv_mix_column_def Let_def)

lemma get2_set_column:
  assumes "matrix_wf 4 n kw" "i < n" "r < 4"
  shows "get2 (aes_set_column kw i a b c d) r j =
    (if i = j then [a, b, c, d] ! r else get2 kw r j)"
proof -
  from assms(3) consider "r = 0" | "r = 1" | "r = 2" | "r = 3" by linarith
  then show ?thesis
    using assms(1,2) by cases (simp_all add: aes_set_column_def get2_set2 [where m = 4 and n = n])
qed

lemma matrix_wf_MixColumns: "matrix_wf 4 4 st \<Longrightarrow> matrix_wf 4 4 (AES_MixColumns st)"
  by (simp add: AES_MixColumns_def matrix_wf_Let_set2 aes_consts upt_rec)

text \<open>Mixing works column by column, and the columns do not interfere.\<close>

lemma InvMixColumns_MixColumns: "matrix_wf 4 4 st \<Longrightarrow> AES_InvMixColumns (AES_MixColumns st) = st"
  by (erule state_literal)
     (simp add: AES_MixColumns_def AES_InvMixColumns_def aes_mix_column_def aes_inv_mix_column_def
        get2_def set2_def Let_def aes_consts upt_rec inv_mix_rows)

lemma matrix_wf_round_functions [simp]:
  "matrix_wf 4 4 (AES_AddRoundKey kw n st)" "matrix_wf 4 4 (AES_SubBytes st)"
  "matrix_wf 4 4 (AES_InvSubBytes st)"
  by (simp_all add: AES_AddRoundKey_def AES_SubBytes_def AES_InvSubBytes_def)

lemma dec_round_enc_round:
  "matrix_wf 4 4 st \<Longrightarrow>
   aes_dec_round kw n (AES_ShiftRows (AES_SubBytes (aes_enc_round kw n st))) = AES_ShiftRows (AES_SubBytes st)"
  by (simp add: aes_dec_round_def aes_enc_round_def InvShiftRows_ShiftRows InvSubBytes_SubBytes
      AddRoundKey_twice InvMixColumns_MixColumns matrix_wf_Let_set2 matrix_wf_MixColumns)

lemma matrix_wf_fold_enc: "matrix_wf 4 4 st \<Longrightarrow> matrix_wf 4 4 (fold (aes_enc_round kw) ns st)"
  by (induction ns arbitrary: st) (simp_all add: aes_enc_round_def)

lemma fold_dec_fold_enc:
  "matrix_wf 4 4 st \<Longrightarrow>
   fold (aes_dec_round kw) (rev ns) (AES_ShiftRows (AES_SubBytes (fold (aes_enc_round kw) ns st)))
   = AES_ShiftRows (AES_SubBytes st)"
  by (induction ns rule: rev_induct) (simp_all add: dec_round_enc_round matrix_wf_fold_enc)

lemma dec_rounds_enc_rounds:
  "matrix_wf 4 4 st \<Longrightarrow> aes_dec_rounds kw n (aes_enc_rounds kw n st) = st"
  by (simp add: aes_dec_rounds_def aes_enc_rounds_def AddRoundKey_twice matrix_wf_Let_set2
      fold_dec_fold_enc InvShiftRows_ShiftRows InvSubBytes_SubBytes Let_def)

lemma load_store: "matrix_wf 4 4 st \<Longrightarrow> aes_load_state (aes_store_state st @ xs) = st"
  by (erule state_literal)
     (simp add: aes_load_state_def aes_store_state_def aes_cells_def get2_def aes_consts upt_rec)

lemma length_store [simp]: "length (aes_store_state st) = 16"
  by (simp add: aes_store_state_def aes_consts)

lemma store_load: "16 \<le> length blk \<Longrightarrow> aes_store_state (aes_load_state blk) = take 16 blk"
  by (rule nth_equalityI)
     (auto simp: aes_store_state_def aes_load_state_def aes_consts div_less_iff_less_mult)

section \<open>The key schedule against the recursive definition of FIPS 197\<close>

definition SubWord :: "bytes \<Rightarrow> bytes" where
  "SubWord w = map (\<lambda>b. aes_sbox_enc ! unat b) w"

function aes_w :: "bytes \<Rightarrow> nat \<Rightarrow> nat \<Rightarrow> bytes" where
  "aes_w Key Nk i =
    (if i < Nk \<or> Nk = 0 then take 4 (drop (4 * i) Key)
     else xor_bytes (aes_w Key Nk (i - Nk))
       (if i mod Nk = 0 then xor_bytes (SubWord (rotate1 (aes_w Key Nk (i - 1)))) (bytes_be32 (aes_rcon ! (i div Nk)))
        else if Nk > 6 \<and> i mod Nk = 4 then SubWord (aes_w Key Nk (i - 1))
        else aes_w Key Nk (i - 1)))"
  by pat_completeness auto
termination by (relation "measure (\<lambda>(_, _, i). i)") auto

declare aes_w.simps [simp del]

definition kw_col :: "bytes list \<Rightarrow> nat \<Rightarrow> bytes" where
  "kw_col kw i = [get2 kw 0 i, get2 kw 1 i, get2 kw 2 i, get2 kw 3 i]"

lemma kw_col_set_column:
  "matrix_wf 4 n kw \<Longrightarrow> i < n \<Longrightarrow>
   kw_col (aes_set_column kw i a b c d) j = (if i = j then [a, b, c, d] else kw_col kw j)"
  by (simp add: kw_col_def get2_set_column [where n = n])

lemma matrix_wf_set_column [simp]: "matrix_wf m n kw \<Longrightarrow> matrix_wf m n (aes_set_column kw i a b c d)"
  by (simp add: aes_set_column_def)

lemma matrix_wf_key_steps [simp]:
  "matrix_wf m n kw \<Longrightarrow> matrix_wf m n (aes_key_load Key i kw)"
  "matrix_wf m n kw \<Longrightarrow> matrix_wf m n (aes_key_expand Nk i kw)"
  by (simp_all add: aes_key_load_def aes_key_expand_def case_prod_beta)

lemma take_drop_4:
  "4 * i + 4 \<le> length xs \<Longrightarrow>
   take 4 (drop (4 * i) xs) = [xs ! (4 * i), xs ! (4 * i + 1), xs ! (4 * i + 2), xs ! (4 * i + 3)]"
  by (rule nth_equalityI) (auto simp: less_Suc_eq numeral_eq_Suc)

lemma fold_key_load:
  assumes "matrix_wf 4 n kw" "m \<le> n" "4 * m \<le> length Key"
  shows "matrix_wf 4 n (fold (aes_key_load Key) [0..<m] kw) \<and>
    (\<forall>i < m. kw_col (fold (aes_key_load Key) [0..<m] kw) i = take 4 (drop (4 * i) Key))"
  using assms(2,3)
proof (induction m)
  case (Suc m)
  then show ?case
    by (auto simp: aes_key_load_def kw_col_set_column [where n = n] take_drop_4 less_Suc_eq)
qed (simp add: assms)

lemma ucast_and_ff: "ucast (w AND 0xff :: UINT32) = (ucast w :: UINT8)"
proof -
  have "w AND 0xff = take_bit 8 w"
    by (simp add: take_bit_eq_mask mask_eq_exp_minus_1)
  then show ?thesis by (simp add: bit_word_eqI bit_simps)
qed

lemma key_expand_col:
  assumes wf: "matrix_wf 4 n kw" "i < n" and Nk: "0 < Nk" "Nk \<le> i"
  shows "kw_col (aes_key_expand Nk i kw) i = xor_bytes (kw_col kw (i - Nk))
       (if i mod Nk = 0 then xor_bytes (SubWord (rotate1 (kw_col kw (i - 1)))) (bytes_be32 (aes_rcon ! (i div Nk)))
        else if Nk > 6 \<and> i mod Nk = 4 then SubWord (kw_col kw (i - 1))
        else kw_col kw (i - 1))"
    and "j < i \<Longrightarrow> kw_col (aes_key_expand Nk i kw) j = kw_col kw j"
  using wf by (simp_all add: aes_key_expand_def case_prod_beta kw_col_set_column [where n = n])
    (simp_all add: kw_col_def aes_temp_word_def SubWord_def bytes_be32_def Let_def ucast_and_ff)

lemma fold_key_expand:
  assumes wf: "matrix_wf 4 n kw" and Nk: "0 < Nk" "Nk \<le> m" "m \<le> n"
    and load: "\<forall>i < Nk. kw_col kw i = aes_w Key Nk i"
  shows "matrix_wf 4 n (fold (aes_key_expand Nk) [Nk..<m] kw) \<and>
    (\<forall>i < m. kw_col (fold (aes_key_expand Nk) [Nk..<m] kw) i = aes_w Key Nk i)"
  using Nk(2,3)
proof (induction m rule: dec_induct)
  case base
  then show ?case using wf load by simp
next
  case (step m)
  then have IH: "matrix_wf 4 n (fold (aes_key_expand Nk) [Nk..<m] kw)"
      "\<And>i. i < m \<Longrightarrow> kw_col (fold (aes_key_expand Nk) [Nk..<m] kw) i = aes_w Key Nk i"
    by simp_all
  have "kw_col (aes_key_expand Nk m (fold (aes_key_expand Nk) [Nk..<m] kw)) m = aes_w Key Nk m"
    using step.hyps step.prems Nk(1) by (subst aes_w.simps) (simp add: key_expand_col [OF IH(1)] IH(2))
  then show ?case
    using step.hyps step.prems Nk(1)
    by (auto simp: IH less_Suc_eq key_expand_col(2) [OF IH(1)])
qed

lemma key_words:
  assumes "aes_key_length_ok KeyLength" "KeyLength \<le> length Key" "matrix_wf 4 60 (KeyWordExpansion ctx)"
    and i: "i < 4 * (KeyLength div 4 + 7)"
  shows "kw_col (KeyWordExpansion (RT_AES_KeyExpansion Key KeyLength ctx)) i = aes_w Key (KeyLength div 4) i"
proof -
  let ?Nk = "KeyLength div 4"
  have Nk: "0 < ?Nk" "?Nk \<le> 4 * (?Nk + 7)" "4 * (?Nk + 7) \<le> 60" "?Nk \<le> 60" "4 * ?Nk \<le> length Key"
    using assms(1,2) by (auto simp: aes_key_length_ok_def)
  define kw where "kw = fold (aes_key_load Key) [0..<?Nk] (KeyWordExpansion ctx)"
  have kw: "matrix_wf 4 60 kw" "\<forall>i < ?Nk. kw_col kw i = aes_w Key ?Nk i"
    using fold_key_load [OF assms(3) Nk(4,5)] by (simp_all add: kw_def aes_w.simps [of _ ?Nk])
  show ?thesis
    using fold_key_expand [OF kw(1) Nk(1-3) kw(2)] i
    by (simp add: RT_AES_KeyExpansion_def kw_def Let_def aes_consts algebra_simps)
qed

section \<open>The cipher as a permutation of blocks\<close>

definition aes_kw :: "bytes \<Rightarrow> nat \<Rightarrow> bytes list" where
  "aes_kw Key Nk = map (\<lambda>r. map (\<lambda>i. aes_w Key Nk i ! r) [0..<4 * (Nk + 7)]) [0..<4]"

definition aes_cipher :: "bytes \<Rightarrow> nat \<Rightarrow> bytes \<Rightarrow> bytes" where
  "aes_cipher Key KeyLength blk = aes_store_state
     (aes_enc_rounds (aes_kw Key (KeyLength div 4)) (KeyLength div 4 + 6) (aes_load_state blk))"

definition aes_inv_cipher :: "bytes \<Rightarrow> nat \<Rightarrow> bytes \<Rightarrow> bytes" where
  "aes_inv_cipher Key KeyLength blk = aes_store_state
     (aes_dec_rounds (aes_kw Key (KeyLength div 4)) (KeyLength div 4 + 6) (aes_load_state blk))"

lemma AddRoundKey_cong:
  assumes "\<And>i. i < 4 * Suc N \<Longrightarrow> kw_col kw i = kw_col kw' i" "n \<le> N"
  shows "AES_AddRoundKey kw n st = AES_AddRoundKey kw' n st"
  unfolding AES_AddRoundKey_def
proof (rule aes_cells_cong)
  fix r c :: nat assume rc: "r < 4" "c < 4"
  then have "kw_col kw (n * 4 + c) = kw_col kw' (n * 4 + c)"
    using assms(2) by (intro assms(1)) simp
  moreover from rc(1) have "r = 0 \<or> r = 1 \<or> r = 2 \<or> r = 3" by linarith
  ultimately show "get2 st r c XOR get2 kw r (n * AES_STATE_COLUMNS + c) =
      get2 st r c XOR get2 kw' r (n * AES_STATE_COLUMNS + c)"
    by (auto simp: kw_col_def aes_consts)
qed

lemma rounds_cong:
  assumes "\<And>i. i < 4 * Suc N \<Longrightarrow> kw_col kw i = kw_col kw' i"
  shows "aes_enc_rounds kw N st = aes_enc_rounds kw' N st"
    and "aes_dec_rounds kw N st = aes_dec_rounds kw' N st"
proof -
  have add: "n \<le> N \<Longrightarrow> AES_AddRoundKey kw n x = AES_AddRoundKey kw' n x" for n x
    by (rule AddRoundKey_cong [OF assms])
  have "fold (aes_enc_round kw) [1..<N] x = fold (aes_enc_round kw') [1..<N] x" for x
    by (rule fold_cong) (auto simp: aes_enc_round_def fun_eq_iff intro: add)
  then show "aes_enc_rounds kw N st = aes_enc_rounds kw' N st"
    by (simp add: aes_enc_rounds_def add)
  have "fold (aes_dec_round kw) (rev [1..<N]) x = fold (aes_dec_round kw') (rev [1..<N]) x" for x
    by (rule fold_cong) (auto simp: aes_dec_round_def fun_eq_iff intro!: add arg_cong [where f = AES_InvMixColumns])
  then show "aes_dec_rounds kw N st = aes_dec_rounds kw' N st"
    by (simp add: aes_dec_rounds_def add)
qed

lemma length_aes_w: "4 * Nk \<le> length Key \<Longrightarrow> 0 < Nk \<Longrightarrow> length (aes_w Key Nk i) = 4"
proof (induction i rule: less_induct)
  case (less i)
  then have "i - Nk < i" "i - 1 < i" if "\<not> i < Nk" using that by auto
  with less show ?case
    by (subst aes_w.simps) (auto simp: SubWord_def)
qed

lemma kw_col_aes_kw:
  "4 * Nk \<le> length Key \<Longrightarrow> 0 < Nk \<Longrightarrow> i < 4 * (Nk + 7) \<Longrightarrow> kw_col (aes_kw Key Nk) i = aes_w Key Nk i"
  using length_aes_w [of Nk Key i]
  by (auto simp: kw_col_def aes_kw_def get2_def length_4_conv)

lemma State_KeyExpansion [simp]: "State (RT_AES_KeyExpansion Key KeyLength ctx) = State ctx"
  by (simp add: RT_AES_KeyExpansion_def Let_def)

lemma key_schedule_cong:
  assumes "aes_key_length_ok KeyLength" "KeyLength \<le> length Key" "aes_ctx_wf ctx"
    and "i < 4 * Suc (KeyLength div 4 + 6)"
  shows "kw_col (KeyWordExpansion (RT_AES_KeyExpansion Key KeyLength (ctx\<lparr>State := st\<rparr>))) i
    = kw_col (aes_kw Key (KeyLength div 4)) i"
proof -
  have "0 < KeyLength div 4" "4 * (KeyLength div 4) \<le> length Key"
    using assms(1,2) by (auto simp: aes_key_length_ok_def)
  then show ?thesis
    using assms by (simp add: key_words kw_col_aes_kw aes_ctx_wf_def)
qed

lemma RT_AES_Encrypt_spec:
  assumes "aes_key_length_ok KeyLength" "KeyLength \<le> length Key" "aes_ctx_wf ctx" "16 \<le> CipherBlockSize"
  shows "RT_AES_Encrypt (Some ctx) PlainBlock 16 Key KeyLength CipherBlock CipherBlockSize =
    (NdisMoveMemory CipherBlock 0 (aes_cipher Key KeyLength PlainBlock), 16)"
  using rounds_cong(1) [where N = "KeyLength div 4 + 6", OF key_schedule_cong [OF assms(1-3)]] assms(1,4)
  by (simp add: RT_AES_Encrypt_def aes_cipher_def Let_def aes_consts)

lemma RT_AES_Decrypt_spec:
  assumes "aes_key_length_ok KeyLength" "KeyLength \<le> length Key" "aes_ctx_wf ctx" "16 \<le> PlainBlockSize"
  shows "RT_AES_Decrypt (Some ctx) CipherBlock 16 Key KeyLength PlainBlock PlainBlockSize =
    (NdisMoveMemory PlainBlock 0 (aes_inv_cipher Key KeyLength CipherBlock), 16)"
  using rounds_cong(2) [where N = "KeyLength div 4 + 6", OF key_schedule_cong [OF assms(1-3)]] assms(1,4)
  by (simp add: RT_AES_Decrypt_def aes_inv_cipher_def Let_def aes_consts)

lemma length_aes_cipher [simp]:
  "length (aes_cipher Key KeyLength b) = 16" "length (aes_inv_cipher Key KeyLength b) = 16"
  by (simp_all add: aes_cipher_def aes_inv_cipher_def)

lemma matrix_wf_load [simp]: "matrix_wf 4 4 (aes_load_state b)"
  by (simp add: aes_load_state_def)

lemma matrix_wf_enc_rounds [simp]: "matrix_wf 4 4 (aes_enc_rounds kw n st)"
  by (simp add: aes_enc_rounds_def Let_def)

lemma aes_inv_cipher_cipher:
  "length b = 16 \<Longrightarrow> aes_inv_cipher Key KeyLength (aes_cipher Key KeyLength b @ xs) = b"
  by (simp add: aes_cipher_def aes_inv_cipher_def load_store dec_rounds_enc_rounds store_load)

text \<open>
  What the modes of operation rely on: a length-preserving map on 16-byte blocks with a left
  inverse.
\<close>

locale block_cipher =
  fixes E :: "bytes \<Rightarrow> bytes" and D :: "bytes \<Rightarrow> bytes"
  assumes length_E: "length (E b) = 16"
    and length_D: "length (D b) = 16"
    and D_E: "length b = 16 \<Longrightarrow> D (E b) = b"
begin

lemma E_inject: "length a = 16 \<Longrightarrow> length b = 16 \<Longrightarrow> E a = E b \<longleftrightarrow> a = b"
  using D_E by metis

end

interpretation aes: block_cipher "aes_cipher Key KeyLength" "aes_inv_cipher Key KeyLength"
  for Key KeyLength
  using aes_inv_cipher_cipher [where xs = "[]"] by unfold_locales simp_all

section \<open>Properties\<close>

definition aes_ctx0 :: AES_CTX_STRUC where
  "aes_ctx0 = \<lparr>State = replicate 4 (replicate 4 0), KeyWordExpansion = replicate 4 (replicate 60 0xaa)\<rparr>"

lemma aes_ctx0_wf: "aes_ctx_wf aes_ctx0"
  by (simp add: aes_ctx_wf_def aes_ctx0_def matrix_wf_def)

text \<open>For every legal key length, every column of the array filled by
  \<^verbatim>\<open>RT_AES_KeyExpansion\<close> is the key word of the recursive definition of FIPS 197, whatever the
  context held before.\<close>

theorem RT_AES_KeyExpansion_schedule:
  assumes "aes_key_length_ok KeyLength" "KeyLength \<le> length Key" "aes_ctx_wf ctx"
    and "i < 4 * (KeyLength div 4 + 7)"
  shows "kw_col (KeyWordExpansion (RT_AES_KeyExpansion Key KeyLength ctx)) i = aes_w Key (KeyLength div 4) i"
  using assms by (simp add: key_words aes_ctx_wf_def)

theorem RT_AES_KeyExpansion_schedule_witness:
  "kw_col (KeyWordExpansion (RT_AES_KeyExpansion (replicate 24 1) 24 aes_ctx0)) 51 = aes_w (replicate 24 1) 6 51"
  using RT_AES_KeyExpansion_schedule [of 24 "replicate 24 1" aes_ctx0 51] aes_ctx0_wf
  by (simp add: aes_key_length_ok_def)

text \<open>C22: \<^verbatim>\<open>RT_AES_Decrypt\<close> recovers the block that \<^verbatim>\<open>RT_AES_Encrypt\<close> encrypted under the same key,
  for all three key lengths, and writes exactly 16 bytes of each output buffer.\<close>

theorem RT_AES_Decrypt_Encrypt:
  assumes "aes_key_length_ok KeyLength" "KeyLength \<le> length Key"
    and "aes_ctx_wf ctx" "aes_ctx_wf ctx'" "length PlainBlock = 16"
    and "16 \<le> CipherBlockSize" "16 \<le> PlainBlockSize"
    and "RT_AES_Encrypt (Some ctx) PlainBlock 16 Key KeyLength CipherBlock CipherBlockSize = (C, n)"
  shows "RT_AES_Decrypt (Some ctx') C n Key KeyLength P PlainBlockSize = (PlainBlock @ drop 16 P, 16)
    \<and> drop 16 C = drop 16 CipherBlock"
  using assms
  by (auto simp: RT_AES_Encrypt_spec RT_AES_Decrypt_spec NdisMoveMemory_def aes_inv_cipher_cipher)

theorem RT_AES_Decrypt_Encrypt_witness:
  "RT_AES_Decrypt (Some aes_ctx0)
     (fst (RT_AES_Encrypt (Some aes_ctx0) (replicate 16 9) 16 (replicate 32 5) 32 (replicate 16 0) 16)) 16
     (replicate 32 5) 32 (replicate 16 0) 16 = (replicate 16 9, 16)"
  using RT_AES_Decrypt_Encrypt [of 32 "replicate 32 5" aes_ctx0 aes_ctx0 "replicate 16 9" 16 16 "replicate 16 0"
      "fst (RT_AES_Encrypt (Some aes_ctx0) (replicate 16 9) 16 (replicate 32 5) 32 (replicate 16 0) 16)" 16
      "replicate 16 0"] aes_ctx0_wf
  by (simp add: aes_key_length_ok_def RT_AES_Encrypt_spec)

text \<open>\<^verbatim>\<open>RT_AES_Encrypt\<close> touches neither of its outputs exactly when a size is illegal or the
  allocation of its context fails.\<close>

theorem RT_AES_Encrypt_error:
  "RT_AES_Encrypt mem P PlainBlockSize Key KeyLength C CipherBlockSize =
     (if PlainBlockSize = 16 \<and> aes_key_length_ok KeyLength \<and> 16 \<le> CipherBlockSize \<and> mem \<noteq> None
      then (fst (RT_AES_Encrypt mem P 16 Key KeyLength C 16), 16)
      else (C, CipherBlockSize))"
  by (auto simp: RT_AES_Encrypt_def aes_consts Let_def)

end
