(* ===== verification/AesModes.thy ===== *)
theory AesModes
  imports AesBlock
begin

text \<open>
  The modes of operation of \<^verbatim>\<open>common/crypt_aes.c\<close>: CCM, CMAC, CBC and the RFC 3394 key wrap.
  Every function takes the answer \<open>mem\<close> of the context allocations that its block cipher calls
  make; local arrays that the code fills completely before reading them start as zeros.  A read
  outside an array is the value \<open>None\<close>.
\<close>

section \<open>CCM\<close>

definition aes_enc16 :: "AES_CTX_STRUC option \<Rightarrow> bytes \<Rightarrow> nat \<Rightarrow> bytes \<Rightarrow> bytes \<Rightarrow> bytes" where
  "aes_enc16 mem Key KeyLength Block Out = fst (RT_AES_Encrypt mem Block 16 Key KeyLength Out 16)"

definition aes_dec16 :: "AES_CTX_STRUC option \<Rightarrow> bytes \<Rightarrow> nat \<Rightarrow> bytes \<Rightarrow> bytes \<Rightarrow> bytes" where
  "aes_dec16 mem Key KeyLength Block Out = fst (RT_AES_Decrypt mem Block 16 Key KeyLength Out 16)"

definition byte_of :: "nat \<Rightarrow> nat \<Rightarrow> UINT8" where
  "byte_of k n = word_of_nat (n div 2 ^ k)"

definition ccm_first_block :: "nat \<Rightarrow> bytes \<Rightarrow> nat \<Rightarrow> nat \<Rightarrow> nat \<Rightarrow> bytes" where
  "ccm_first_block PayloadLength Nonce NonceLength AADLength MACLength =
    (let b0 = (if AADLength > 0 then 0x40 else 0)
          OR ucast (push_bit 3 (drop_bit 1 (word_of_nat MACLength - 2 :: UINT32)))
          OR ucast ((15 - word_of_nat NonceLength) - 1 :: UINT32);
         Block = (NdisZeroMemory 16)[0 := b0];
         Block = NdisMoveMemory Block 1 (take NonceLength Nonce);
         Block = (if NonceLength < 12 then Block[12 := byte_of 24 PayloadLength] else Block);
         Block = (if NonceLength < 13 then Block[13 := byte_of 16 PayloadLength] else Block)
     in Block[14 := byte_of 8 PayloadLength, 15 := byte_of 0 PayloadLength])"

definition ccm_aad_block :: "nat \<Rightarrow> bytes \<times> nat" where
  "ccm_aad_block AADLength =
    (if AADLength > 0 \<and> AADLength < 0xFF00 then
       ((NdisZeroMemory 16)[0 := byte_of 8 AADLength, 1 := byte_of 0 AADLength], 2)
     else ((NdisZeroMemory 16)[2 := byte_of 24 AADLength, 3 := byte_of 16 AADLength,
                               4 := byte_of 8 AADLength, 5 := byte_of 0 AADLength], 6))"

function ccm_aad_loop ::
  "AES_CTX_STRUC option \<Rightarrow> bytes \<Rightarrow> nat \<Rightarrow> bytes \<Rightarrow> nat \<Rightarrow> nat \<Rightarrow> nat \<Rightarrow> bytes \<Rightarrow> bytes \<Rightarrow> bytes" where
  "ccm_aad_loop mem Key KeyLength AAD AADLength ADD_Index Block_Index Block Block_MAC =
    (if ADD_Index < AADLength then
       let Copy_Length = min (AADLength - ADD_Index) AES_BLOCK_SIZES;
           Copy_Length = (if Copy_Length + Block_Index > AES_BLOCK_SIZES
                          then AES_BLOCK_SIZES - Block_Index else Copy_Length);
           Block = NdisMoveMemory Block Block_Index (take Copy_Length (drop ADD_Index AAD));
           Block = xor_bytes Block Block_MAC;
           Block_MAC = aes_enc16 mem Key KeyLength Block (NdisZeroMemory 16)
       in ccm_aad_loop mem Key KeyLength AAD AADLength (ADD_Index + Copy_Length) 0 (NdisZeroMemory 16) Block_MAC
     else Block_MAC)"
  by pat_completeness auto
termination
  by (relation "measure (\<lambda>(_, _, _, _, n, i, k, _, _). 2 * (n - i) + (if k = 0 then 0 else 1))")
     (auto simp: aes_consts)

function ccm_payload_loop ::
  "AES_CTX_STRUC option \<Rightarrow> bytes \<Rightarrow> nat \<Rightarrow> bytes \<Rightarrow> nat \<Rightarrow> nat \<Rightarrow> bytes \<Rightarrow> bytes" where
  "ccm_payload_loop mem Key KeyLength Payload PayloadLength Payload_Index Block_MAC =
    (if Payload_Index < PayloadLength then
       let Copy_Length = min (PayloadLength - Payload_Index) AES_BLOCK_SIZES;
           Block = NdisMoveMemory (NdisZeroMemory 16) 0 (take Copy_Length (drop Payload_Index Payload));
           Block = xor_bytes Block Block_MAC;
           Block_MAC = aes_enc16 mem Key KeyLength Block (NdisZeroMemory 16)
       in ccm_payload_loop mem Key KeyLength Payload PayloadLength (Payload_Index + Copy_Length) Block_MAC
     else Block_MAC)"
  by pat_completeness auto
termination
  by (relation "measure (\<lambda>(_, _, _, _, n, i, _). n - i)") (auto simp: aes_consts)

declare ccm_aad_loop.simps [simp del] ccm_payload_loop.simps [simp del]

definition AES_CCM_MAC ::
  "AES_CTX_STRUC option \<Rightarrow> bytes \<Rightarrow> nat \<Rightarrow> bytes \<Rightarrow> nat \<Rightarrow> bytes \<Rightarrow> nat \<Rightarrow> bytes \<Rightarrow> nat \<Rightarrow> nat \<Rightarrow> bytes \<Rightarrow> bytes" where
  "AES_CCM_MAC mem Payload PayloadLength Key KeyLength Nonce NonceLength AAD AADLength MACLength MACText =
    (let Block = ccm_first_block PayloadLength Nonce NonceLength AADLength MACLength;
         Block_MAC = aes_enc16 mem Key KeyLength Block (NdisZeroMemory 16);
         (Block, Block_Index) = ccm_aad_block AADLength;
         Block_MAC = ccm_aad_loop mem Key KeyLength AAD AADLength 0 Block_Index Block Block_MAC;
         Block_MAC = ccm_payload_loop mem Key KeyLength Payload PayloadLength 0 Block_MAC
     in NdisMoveMemory MACText 0 (take MACLength Block_MAC))"

definition ccm_counter_block :: "bytes \<Rightarrow> nat \<Rightarrow> bytes" where
  "ccm_counter_block Nonce NonceLength =
     NdisMoveMemory ((NdisZeroMemory 16)[0 := ucast ((15 - word_of_nat NonceLength) - 1 :: UINT32)]) 1
       (take NonceLength Nonce)"

text \<open>The payload loops of encryption and decryption are the same text with other buffers.\<close>

function ccm_ctr_loop ::
  "AES_CTX_STRUC option \<Rightarrow> bytes \<Rightarrow> nat \<Rightarrow> bytes \<Rightarrow> nat \<Rightarrow> nat \<Rightarrow> bytes \<Rightarrow> bytes \<Rightarrow> bytes \<Rightarrow> bytes" where
  "ccm_ctr_loop mem Key KeyLength Src Len Cipher_Index Block_CTR Block_CTR_Cipher Dst =
    (if Cipher_Index < Len then
       let Block_CTR = Block_CTR[15 := Block_CTR ! 15 + 1];
           Block_CTR_Cipher = aes_enc16 mem Key KeyLength Block_CTR Block_CTR_Cipher;
           Copy_Length = min (Len - Cipher_Index) AES_BLOCK_SIZES;
           Dst = NdisMoveMemory Dst Cipher_Index
                   (xor_bytes (take Copy_Length (drop Cipher_Index Src)) (take Copy_Length Block_CTR_Cipher))
       in ccm_ctr_loop mem Key KeyLength Src Len (Cipher_Index + Copy_Length) Block_CTR Block_CTR_Cipher Dst
     else Dst)"
  by pat_completeness auto
termination
  by (relation "measure (\<lambda>(_, _, _, _, n, i, _, _, _). n - i)") (auto simp: aes_consts)

declare ccm_ctr_loop.simps [simp del]

definition ccm_mac_length_ok :: "nat \<Rightarrow> bool" where
  "ccm_mac_length_ok MACLength \<longleftrightarrow> MACLength \<in> {4, 6, 8, 10, 12, 14, 16}"

definition AES_CCM_Encrypt ::
  "AES_CTX_STRUC option \<Rightarrow> bytes \<Rightarrow> nat \<Rightarrow> bytes \<Rightarrow> nat \<Rightarrow> bytes \<Rightarrow> nat \<Rightarrow> bytes \<Rightarrow> nat \<Rightarrow> nat \<Rightarrow> bytes \<Rightarrow> nat
    \<Rightarrow> int \<times> bytes \<times> nat" where
  "AES_CCM_Encrypt mem PlainText PlainTextLength Key KeyLength Nonce NonceLength AAD AADLength MACLength
      CipherText CipherTextLength =
    (if KeyLength \<noteq> 16 then (-1, CipherText, CipherTextLength)
     else if NonceLength < 7 \<or> NonceLength > 13 then (-2, CipherText, CipherTextLength)
     else if \<not> ccm_mac_length_ok MACLength then (-3, CipherText, CipherTextLength)
     else if CipherTextLength < uint_add PlainTextLength MACLength then (-4, CipherText, CipherTextLength)
     else
       let Block_CTR = ccm_counter_block Nonce NonceLength;
           Block_MAC = AES_CCM_MAC mem PlainText PlainTextLength Key KeyLength Nonce NonceLength
                         AAD AADLength MACLength (NdisZeroMemory 16);
           Block_CTR_Cipher = aes_enc16 mem Key KeyLength Block_CTR (NdisZeroMemory 16);
           Block_MAC = NdisMoveMemory Block_MAC 0
                         (xor_bytes (take MACLength Block_MAC) (take MACLength Block_CTR_Cipher));
           CipherText = ccm_ctr_loop mem Key KeyLength PlainText PlainTextLength 0 Block_CTR
                          Block_CTR_Cipher CipherText;
           CipherText = NdisMoveMemory CipherText PlainTextLength (take MACLength Block_MAC)
       in (0, CipherText, uint_add PlainTextLength MACLength))"

definition AES_CCM_Decrypt ::
  "AES_CTX_STRUC option \<Rightarrow> bytes \<Rightarrow> nat \<Rightarrow> bytes \<Rightarrow> nat \<Rightarrow> bytes \<Rightarrow> nat \<Rightarrow> bytes \<Rightarrow> nat \<Rightarrow> nat \<Rightarrow> bytes \<Rightarrow> nat
    \<Rightarrow> int \<times> bytes \<times> nat" where
  "AES_CCM_Decrypt mem CipherText CipherTextLength Key KeyLength Nonce NonceLength AAD AADLength MACLength
      PlainText PlainTextLength =
    (if KeyLength \<noteq> 16 then (-1, PlainText, PlainTextLength)
     else if NonceLength < 7 \<or> NonceLength > 13 then (-2, PlainText, PlainTextLength)
     else if \<not> ccm_mac_length_ok MACLength then (-3, PlainText, PlainTextLength)
     else if PlainTextLength < uint_sub CipherTextLength MACLength then (-4, PlainText, PlainTextLength)
     else
       let Block_CTR = ccm_counter_block Nonce NonceLength;
           Block_CTR_Cipher = aes_enc16 mem Key KeyLength Block_CTR (NdisZeroMemory 16);
           Len = uint_sub CipherTextLength MACLength;
           Block_MAC_From_Cipher = NdisMoveMemory (NdisZeroMemory 16) 0
             (xor_bytes (take (CipherTextLength - Len) (drop Len CipherText))
                        (take (CipherTextLength - Len) Block_CTR_Cipher));
           PlainText = ccm_ctr_loop mem Key KeyLength CipherText Len 0 Block_CTR Block_CTR_Cipher PlainText;
           Block_MAC = AES_CCM_MAC mem PlainText Len Key KeyLength Nonce NonceLength AAD AADLength MACLength
                         (NdisZeroMemory 16)
       in if take MACLength Block_MAC_From_Cipher \<noteq> take MACLength Block_MAC
          then (-5, PlainText, Len) else (0, PlainText, Len))"

section \<open>CMAC\<close>

definition Const_Zero :: bytes where "Const_Zero = replicate 16 0"
definition Const_Rb :: bytes where "Const_Rb = replicate 15 0 @ [0x87]"

definition cmac_shift_byte :: "nat \<Rightarrow> bytes \<Rightarrow> bytes" where
  "cmac_shift_byte Index K =
    (let Top_Bit = (if K ! (Index + 1) AND 0x80 \<noteq> 0 then 1 else 0)
     in K[Index := push_bit 1 (K ! Index) OR Top_Bit])"

definition cmac_double :: "bytes \<Rightarrow> bytes" where
  "cmac_double L =
    (let MSB = L ! 0 AND 0x80;
         K = fold cmac_shift_byte [0..<15] L;
         K = K[15 := push_bit 1 (K ! 15)]
     in if MSB > 0 then xor_bytes K Const_Rb else K)"

text \<open>
  The first half works in place on \<open>SubKey1\<close>; the second writes the same doubling of \<open>SubKey1\<close>
  to \<open>SubKey2\<close>: its loop reads only \<open>SubKey1\<close>.
\<close>

definition AES_CMAC_GenerateSubKey ::
  "AES_CTX_STRUC option \<Rightarrow> bytes \<Rightarrow> nat \<Rightarrow> bytes \<Rightarrow> bytes \<Rightarrow> bytes \<times> bytes" where
  "AES_CMAC_GenerateSubKey mem Key KeyLength SubKey1 SubKey2 =
    (if KeyLength \<noteq> 16 then (SubKey1, SubKey2)
     else
       let SubKey1 = aes_enc16 mem Key KeyLength Const_Zero SubKey1;
           SubKey1 = cmac_double SubKey1;
           MSB_K1 = SubKey1 ! 0 AND 0x80;
           SubKey2 = map (\<lambda>Index. push_bit 1 (SubKey1 ! Index)
             OR (if SubKey1 ! (Index + 1) AND 0x80 \<noteq> 0 then 1 else 0)) [0..<15]
             @ [push_bit 1 (SubKey1 ! 15)];
           SubKey2 = (if MSB_K1 > 0 then xor_bytes SubKey2 Const_Rb else SubKey2)
       in (SubKey1, SubKey2))"

function cmac_loop ::
  "AES_CTX_STRUC option \<Rightarrow> bytes \<Rightarrow> nat \<Rightarrow> bytes \<Rightarrow> nat \<Rightarrow> nat \<Rightarrow> bytes \<Rightarrow> nat \<times> bytes" where
  "cmac_loop mem Key KeyLength PlainText PlainTextLength PlainBlockStart X =
    (if PlainTextLength - PlainBlockStart > AES_BLOCK_SIZES then
       let Y = xor_bytes (take 16 (drop PlainBlockStart PlainText)) X;
           X = aes_enc16 mem Key KeyLength Y X
       in cmac_loop mem Key KeyLength PlainText PlainTextLength (PlainBlockStart + AES_BLOCK_SIZES) X
     else (PlainBlockStart, X))"
  by pat_completeness auto
termination
  by (relation "measure (\<lambda>(_, _, _, _, n, i, _). n - i)") (auto simp: aes_consts)

declare cmac_loop.simps [simp del]

definition AES_CMAC ::
  "AES_CTX_STRUC option \<Rightarrow> bytes \<Rightarrow> nat \<Rightarrow> bytes \<Rightarrow> nat \<Rightarrow> bytes \<Rightarrow> nat \<Rightarrow> bytes \<times> nat" where
  "AES_CMAC mem PlainText PlainTextLength Key KeyLength MACText MACTextLength =
    (if MACTextLength < 16 then (MACText, MACTextLength)
     else if KeyLength \<noteq> 16 then (MACText, MACTextLength)
     else
       let (SubKey1, SubKey2) =
             AES_CMAC_GenerateSubKey mem Key KeyLength (NdisZeroMemory 16) (NdisZeroMemory 16);
           (PlainBlockStart, X) = cmac_loop mem Key KeyLength PlainText PlainTextLength 0 Const_Zero;
           Rest = PlainTextLength - PlainBlockStart;
           Y = (if Rest = AES_BLOCK_SIZES
                then xor_bytes (xor_bytes (take 16 (drop PlainBlockStart PlainText)) X) SubKey1
                else
                  let Y = NdisMoveMemory (NdisZeroMemory 16) 0 (take Rest (drop PlainBlockStart PlainText));
                      Y = Y[Rest := 0x80]
                  in xor_bytes (xor_bytes Y X) SubKey2)
       in RT_AES_Encrypt mem Y 16 Key KeyLength MACText MACTextLength)"

section \<open>CBC\<close>

text \<open>A block cipher call whose output is \<^verbatim>\<open>buf + off\<close>.\<close>

definition aes_enc_at ::
  "AES_CTX_STRUC option \<Rightarrow> bytes \<Rightarrow> nat \<Rightarrow> bytes \<Rightarrow> bytes \<Rightarrow> nat \<Rightarrow> nat \<Rightarrow> bytes \<times> nat" where
  "aes_enc_at mem Key KeyLength Block buf off sz =
    (let (out, n) = RT_AES_Encrypt mem Block 16 Key KeyLength (drop off buf) sz
     in (take off buf @ out, n))"

definition aes_dec_at ::
  "AES_CTX_STRUC option \<Rightarrow> bytes \<Rightarrow> nat \<Rightarrow> bytes \<Rightarrow> bytes \<Rightarrow> nat \<Rightarrow> nat \<Rightarrow> bytes \<times> nat" where
  "aes_dec_at mem Key KeyLength Block buf off sz =
    (let (out, n) = RT_AES_Decrypt mem Block 16 Key KeyLength (drop off buf) sz
     in (take off buf @ out, n))"

definition cbc_chain :: "bytes \<Rightarrow> bytes \<Rightarrow> nat \<Rightarrow> bytes" where
  "cbc_chain IV Text Start = (if Start = 0 then take 16 IV else take 16 (drop (Start - 16) Text))"

function cbc_enc_loop ::
  "AES_CTX_STRUC option \<Rightarrow> bytes \<Rightarrow> nat \<Rightarrow> bytes \<Rightarrow> bytes \<Rightarrow> nat \<Rightarrow> nat \<Rightarrow> nat \<Rightarrow> bytes \<Rightarrow> nat
    \<Rightarrow> nat \<times> bytes \<times> nat" where
  "cbc_enc_loop mem Key KeyLength IV PlainText PlainTextLength CipherTextLength PlainBlockStart CipherText
      CipherBlockStart =
    (if PlainTextLength - PlainBlockStart \<ge> AES_BLOCK_SIZES then
       let Block = xor_bytes (take 16 (drop PlainBlockStart PlainText)) (cbc_chain IV CipherText CipherBlockStart);
           (CipherText, CipherBlockSize) = aes_enc_at mem Key KeyLength Block CipherText CipherBlockStart
             (uint_sub CipherTextLength CipherBlockStart)
       in cbc_enc_loop mem Key KeyLength IV PlainText PlainTextLength CipherTextLength
            (PlainBlockStart + AES_BLOCK_SIZES) CipherText (uint_add CipherBlockStart CipherBlockSize)
     else (PlainBlockStart, CipherText, CipherBlockStart))"
  by pat_completeness auto
termination
  by (relation "measure (\<lambda>(_, _, _, _, _, n, _, i, _, _). n - i)") (auto simp: aes_consts)

definition cbc_enc_final ::
  "AES_CTX_STRUC option \<Rightarrow> bytes \<Rightarrow> nat \<Rightarrow> bytes \<Rightarrow> bytes \<Rightarrow> nat \<Rightarrow> nat \<Rightarrow> nat \<Rightarrow> nat \<times> bytes \<times> nat \<Rightarrow> bytes \<times> nat" where
  "cbc_enc_final mem Key KeyLength IV PlainText PlainTextLength CipherTextLength PaddingSize =
    (\<lambda>(PlainBlockStart, CipherText, CipherBlockStart).
       let Block = NdisMoveMemory (NdisZeroMemory 16) 0
             (take (PlainTextLength - PlainBlockStart) (drop PlainBlockStart PlainText));
           Block = NdisFillMemory Block (AES_BLOCK_SIZES - PaddingSize) PaddingSize (word_of_nat PaddingSize);
           Block = xor_bytes Block (cbc_chain IV CipherText CipherBlockStart);
           (CipherText, CipherBlockSize) = aes_enc_at mem Key KeyLength Block CipherText CipherBlockStart
             (uint_sub CipherTextLength CipherBlockStart)
       in (CipherText, uint_add CipherBlockStart CipherBlockSize))"

definition AES_CBC_Encrypt ::
  "AES_CTX_STRUC option \<Rightarrow> bytes \<Rightarrow> nat \<Rightarrow> bytes \<Rightarrow> nat \<Rightarrow> bytes \<Rightarrow> nat \<Rightarrow> bytes \<Rightarrow> nat \<Rightarrow> bytes \<times> nat" where
  "AES_CBC_Encrypt mem PlainText PlainTextLength Key KeyLength IV IVLength CipherText CipherTextLength =
    (let PaddingSize = AES_BLOCK_SIZES - PlainTextLength mod AES_BLOCK_SIZES in
     if CipherTextLength < uint_add PlainTextLength PaddingSize then (CipherText, CipherTextLength)
     else if \<not> aes_key_length_ok KeyLength then (CipherText, CipherTextLength)
     else if IVLength \<noteq> 16 then (CipherText, CipherTextLength)
     else cbc_enc_final mem Key KeyLength IV PlainText PlainTextLength CipherTextLength PaddingSize
            (cbc_enc_loop mem Key KeyLength IV PlainText PlainTextLength CipherTextLength 0 CipherText 0))"

text \<open>
  The length test of decryption is \<^verbatim>\<open>(CipherTextLength % AES_BLOCK_SIZES) != 0\<close> with the macro
  \<^verbatim>\<open>AES_BLOCK_SIZES\<close> expanded to \<^verbatim>\<open>4*4\<close>, which C parses as \<^verbatim>\<open>(CipherTextLength % 4) * 4\<close>.
\<close>

function cbc_dec_loop ::
  "AES_CTX_STRUC option \<Rightarrow> bytes \<Rightarrow> nat \<Rightarrow> bytes \<Rightarrow> bytes \<Rightarrow> nat \<Rightarrow> nat \<Rightarrow> nat \<Rightarrow> bytes \<Rightarrow> nat
    \<Rightarrow> bytes \<times> nat" where
  "cbc_dec_loop mem Key KeyLength IV CipherText CipherTextLength PlainTextLength CipherBlockStart PlainText
      PlainBlockStart =
    (if CipherTextLength - CipherBlockStart \<ge> AES_BLOCK_SIZES then
       let (PlainText, PlainBlockSize) = aes_dec_at mem Key KeyLength (drop CipherBlockStart CipherText)
             PlainText PlainBlockStart (uint_sub PlainTextLength PlainBlockStart);
           Chain = (if PlainBlockStart = 0 then take 16 IV
                    else take 16 (drop (CipherBlockStart - AES_BLOCK_SIZES) CipherText));
           PlainText = NdisMoveMemory PlainText PlainBlockStart
             (xor_bytes (take 16 (drop PlainBlockStart PlainText)) Chain)
       in cbc_dec_loop mem Key KeyLength IV CipherText CipherTextLength PlainTextLength
            (CipherBlockStart + AES_BLOCK_SIZES) PlainText (uint_add PlainBlockStart PlainBlockSize)
     else (PlainText, PlainBlockStart))"
  by pat_completeness auto
termination
  by (relation "measure (\<lambda>(_, _, _, _, _, n, _, i, _, _). n - i)") (auto simp: aes_consts)

declare cbc_enc_loop.simps [simp del] cbc_dec_loop.simps [simp del]

definition AES_CBC_Decrypt ::
  "AES_CTX_STRUC option \<Rightarrow> bytes \<Rightarrow> nat \<Rightarrow> bytes \<Rightarrow> nat \<Rightarrow> bytes \<Rightarrow> nat \<Rightarrow> bytes \<Rightarrow> nat \<Rightarrow> (bytes \<times> nat) option" where
  "AES_CBC_Decrypt mem CipherText CipherTextLength Key KeyLength IV IVLength PlainText PlainTextLength =
    (if CipherTextLength mod AES_STATE_ROWS * AES_STATE_COLUMNS \<noteq> 0 then Some (PlainText, PlainTextLength)
     else if \<not> aes_key_length_ok KeyLength then Some (PlainText, PlainTextLength)
     else if IVLength \<noteq> 16 then Some (PlainText, PlainTextLength)
     else
       let (PlainText, PlainBlockStart) =
             cbc_dec_loop mem Key KeyLength IV CipherText CipherTextLength PlainTextLength 0 PlainText 0
       in if uint_sub PlainBlockStart 1 < length PlainText then
            Some (PlainText, uint_sub PlainBlockStart (unat (PlainText ! uint_sub PlainBlockStart 1)))
          else None)"

section \<open>Key wrap\<close>

definition Default_IV :: bytes where
  "Default_IV = [0xa6, 0xa6, 0xa6, 0xa6, 0xa6, 0xa6, 0xa6, 0xa6]"

definition wrap_counter :: "nat \<Rightarrow> nat \<times> nat \<Rightarrow> UINT8" where
  "wrap_counter Number_Of_Block = (\<lambda>(Index_j, Index_i). word_of_nat (Number_Of_Block * Index_j + Index_i + 1))"

definition wrap_step ::
  "AES_CTX_STRUC option \<Rightarrow> bytes \<Rightarrow> nat \<Rightarrow> nat \<Rightarrow> nat \<times> nat \<Rightarrow> bytes \<times> bytes \<Rightarrow> bytes \<times> bytes" where
  "wrap_step mem Key KeyLength Number_Of_Block ji = (\<lambda>(IV, Result).
    let Index_i = snd ji;
        Block_Input = IV @ take 8 (drop (Index_i * 8) Result);
        Block_B = aes_enc16 mem Key KeyLength Block_Input (NdisZeroMemory 16);
        IV = take 8 Block_B;
        IV = IV[7 := Block_B ! 7 XOR wrap_counter Number_Of_Block ji];
        Result = NdisMoveMemory Result (Index_i * 8) (drop 8 Block_B)
    in (IV, Result))"

definition unwrap_step ::
  "AES_CTX_STRUC option \<Rightarrow> bytes \<Rightarrow> nat \<Rightarrow> nat \<Rightarrow> nat \<times> nat \<Rightarrow> bytes \<times> bytes \<Rightarrow> bytes \<times> bytes" where
  "unwrap_step mem Key KeyLength Number_Of_Block ji = (\<lambda>(IV, Result).
    let Index_i = snd ji;
        IV = IV[7 := IV ! 7 XOR wrap_counter Number_Of_Block ji];
        Block_Input = IV @ take 8 (drop (Index_i * 8) Result);
        Block_B = aes_dec16 mem Key KeyLength Block_Input (NdisZeroMemory 16);
        IV = take 8 Block_B;
        Result = NdisMoveMemory Result (Index_i * 8) (drop 8 Block_B)
    in (IV, Result))"

text \<open>The nested loops visit the pairs \<open>(Index_j, Index_i)\<close> in this order, and unwrapping in the reverse one.\<close>

definition wrap_order :: "nat \<Rightarrow> (nat \<times> nat) list" where
  "wrap_order Number_Of_Block = List.product [0..<6] [0..<Number_Of_Block]"

definition AES_Key_Wrap ::
  "AES_CTX_STRUC option \<Rightarrow> bool \<Rightarrow> bytes \<Rightarrow> nat \<Rightarrow> bytes \<Rightarrow> nat \<Rightarrow> bytes \<Rightarrow> nat \<Rightarrow> int \<times> bytes \<times> nat" where
  "AES_Key_Wrap mem alloc_ok PlainText PlainTextLength Key KeyLength CipherText CipherTextLength =
    (if \<not> aes_key_length_ok KeyLength then (-1, CipherText, CipherTextLength)
     else if \<not> alloc_ok then (-2, CipherText, CipherTextLength)
     else
       let Number_Of_Block = PlainTextLength div 8;
           (IV, Result) = fold (wrap_step mem Key KeyLength Number_Of_Block) (wrap_order Number_Of_Block)
                            (Default_IV, take PlainTextLength PlainText);
           CipherText = NdisMoveMemory CipherText 0 IV;
           CipherText = NdisMoveMemory CipherText 8 Result
       in (0, CipherText, uint_add PlainTextLength 8))"

definition AES_Key_Unwrap ::
  "AES_CTX_STRUC option \<Rightarrow> bool \<Rightarrow> bytes \<Rightarrow> nat \<Rightarrow> bytes \<Rightarrow> nat \<Rightarrow> bytes \<Rightarrow> nat \<Rightarrow> int \<times> bytes \<times> nat" where
  "AES_Key_Unwrap mem alloc_ok CipherText CipherTextLength Key KeyLength PlainText PlainTextLength =
    (let PlainLength = uint_sub CipherTextLength 8 in
     if \<not> aes_key_length_ok KeyLength then (-1, PlainText, PlainTextLength)
     else if \<not> alloc_ok then (-2, PlainText, PlainTextLength)
     else
       let Number_Of_Block = PlainLength div 8;
           (IV, Result) = fold (unwrap_step mem Key KeyLength Number_Of_Block) (rev (wrap_order Number_Of_Block))
                            (take 8 CipherText, take PlainLength (drop 8 CipherText))
       in (0, NdisMoveMemory PlainText 0 Result, PlainLength))"

section \<open>Block cipher calls\<close>

lemma aes_enc16_spec:
  "aes_ctx_wf ctx \<Longrightarrow> aes_key_length_ok KeyLength \<Longrightarrow> KeyLength \<le> length Key \<Longrightarrow> length Out = 16 \<Longrightarrow>
   aes_enc16 (Some ctx) Key KeyLength Block Out = aes_cipher Key KeyLength Block"
  by (simp add: aes_enc16_def RT_AES_Encrypt_spec NdisMoveMemory_0_all)

lemma aes_dec16_spec:
  "aes_ctx_wf ctx \<Longrightarrow> aes_key_length_ok KeyLength \<Longrightarrow> KeyLength \<le> length Key \<Longrightarrow> length Out = 16 \<Longrightarrow>
   aes_dec16 (Some ctx) Key KeyLength Block Out = aes_inv_cipher Key KeyLength Block"
  by (simp add: aes_dec16_def RT_AES_Decrypt_spec NdisMoveMemory_0_all)

lemma aes_enc_at_spec:
  "aes_ctx_wf ctx \<Longrightarrow> aes_key_length_ok KeyLength \<Longrightarrow> KeyLength \<le> length Key \<Longrightarrow> 16 \<le> sz \<Longrightarrow> off \<le> length buf \<Longrightarrow>
   aes_enc_at (Some ctx) Key KeyLength Block buf off sz = (NdisMoveMemory buf off (aes_cipher Key KeyLength Block), 16)"
  by (simp add: aes_enc_at_def RT_AES_Encrypt_spec NdisMoveMemory_def add.commute)

lemma aes_dec_at_spec:
  "aes_ctx_wf ctx \<Longrightarrow> aes_key_length_ok KeyLength \<Longrightarrow> KeyLength \<le> length Key \<Longrightarrow> 16 \<le> sz \<Longrightarrow> off \<le> length buf \<Longrightarrow>
   aes_dec_at (Some ctx) Key KeyLength Block buf off sz = (NdisMoveMemory buf off (aes_inv_cipher Key KeyLength Block), 16)"
  by (simp add: aes_dec_at_def RT_AES_Decrypt_spec NdisMoveMemory_def add.commute)

lemma key_length_16 [simp]: "aes_key_length_ok 16"
  by (simp add: aes_key_length_ok_def)

section \<open>CCM: the key stream\<close>

function ctr_stream :: "(bytes \<Rightarrow> bytes) \<Rightarrow> bytes \<Rightarrow> nat \<Rightarrow> bytes" where
  "ctr_stream E CTR n = (if n = 0 then [] else
     let CTR = CTR[15 := CTR ! 15 + 1] in take n (E CTR) @ ctr_stream E CTR (n - 16))"
  by pat_completeness auto
termination by (relation "measure (\<lambda>(_, _, n). n)") auto

declare ctr_stream.simps [simp del]

lemma length_ctr_stream: "(\<And>b. length (E b) = 16) \<Longrightarrow> length (ctr_stream E CTR n) = n"
  by (induction E CTR n rule: ctr_stream.induct) (subst ctr_stream.simps, auto simp: Let_def)

lemma ctr_loop_stream:
  assumes "aes_ctx_wf ctx" "16 \<le> length Key" "idx \<le> Len" "Len \<le> length Src" "Len \<le> length Dst" "length S = 16"
  shows "ccm_ctr_loop (Some ctx) Key 16 Src Len idx CTR S Dst =
    take idx Dst @ xor_bytes (take (Len - idx) (drop idx Src)) (ctr_stream (aes_cipher Key 16) CTR (Len - idx))
      @ drop Len Dst"
  using assms(3-6)
proof (induction "Len - idx" arbitrary: idx CTR S Dst rule: less_induct)
  case less
  show ?case
  proof (cases "idx < Len")
    case False
    with less.prems show ?thesis by (simp add: ccm_ctr_loop.simps ctr_stream.simps)
  next
    case True
    define c where "c = CTR[15 := CTR ! 15 + 1]"
    define k where "k = min (Len - idx) 16"
    define D where "D = NdisMoveMemory Dst idx (xor_bytes (take k (drop idx Src)) (take k (aes_cipher Key 16 c)))"
    have k: "k > 0" "idx + k \<le> Len" "k \<le> 16" using True by (auto simp: k_def)
    have D: "take (idx + k) D = take idx Dst @ xor_bytes (take k (drop idx Src)) (take k (aes_cipher Key 16 c))"
        "length D = length Dst" "drop Len D = drop Len Dst"
      using k less.prems by (auto simp: D_def NdisMoveMemory_def min_def)
    have ks: "ctr_stream (aes_cipher Key 16) CTR (Len - idx) =
        take k (aes_cipher Key 16 c) @ ctr_stream (aes_cipher Key 16) c (Len - (idx + k))"
    proof (cases "Len - idx \<le> 16")
      case True
      with \<open>idx < Len\<close> show ?thesis
        by (subst ctr_stream.simps) (simp add: k_def c_def Let_def ctr_stream.simps [of _ _ 0])
    next
      case False
      with \<open>idx < Len\<close> show ?thesis
        by (subst ctr_stream.simps) (simp add: k_def c_def Let_def)
    qed
    have src: "take (Len - idx) (drop idx Src) = take k (drop idx Src) @ take (Len - (idx + k)) (drop (idx + k) Src)"
      using k by (metis add.commute add_diff_cancel_left' diff_diff_left drop_drop le_add_diff_inverse take_add
          add_le_imp_le_diff)
    have "ccm_ctr_loop (Some ctx) Key 16 Src Len idx CTR S Dst =
        ccm_ctr_loop (Some ctx) Key 16 Src Len (idx + k) c (aes_cipher Key 16 c) D"
      using True less.prems
      by (subst ccm_ctr_loop.simps)
         (simp add: aes_enc16_spec assms(1,2) c_def k_def D_def Let_def aes_consts)
    also have "\<dots> = take (idx + k) D @ xor_bytes (take (Len - (idx + k)) (drop (idx + k) Src))
         (ctr_stream (aes_cipher Key 16) c (Len - (idx + k))) @ drop Len D"
      using True k less.prems D(2) by (intro less.hyps) auto
    finally show ?thesis
      using k less.prems D by (simp add: ks src xor_bytes_append)
  qed
qed

section \<open>CCM: the message authentication code\<close>

definition cbc_mac :: "(bytes \<Rightarrow> bytes) \<Rightarrow> bytes \<Rightarrow> bytes list \<Rightarrow> bytes" where
  "cbc_mac E M bs = fold (\<lambda>b M. E (xor_bytes b M)) bs M"

definition pad16 :: "bytes \<Rightarrow> bytes" where
  "pad16 b = b @ replicate (16 - length b) 0"

function blocks16 :: "bytes \<Rightarrow> bytes list" where
  "blocks16 xs = (if xs = [] then [] else pad16 (take 16 xs) # blocks16 (drop 16 xs))"
  by pat_completeness auto
termination by (relation "measure length") auto

declare blocks16.simps [simp del]

lemma blocks16_Nil [simp]: "blocks16 [] = []"
  by (simp add: blocks16.simps)

lemma cbc_mac_Nil [simp]: "cbc_mac E M [] = M"
  by (simp add: cbc_mac_def)

lemma cbc_mac_append: "cbc_mac E M (as @ bs) = cbc_mac E (cbc_mac E M as) bs"
  by (simp add: cbc_mac_def)

lemma cbc_mac_blocks16:
  "xs \<noteq> [] \<Longrightarrow> cbc_mac E M (blocks16 xs) = cbc_mac E (E (xor_bytes (pad16 (take 16 xs)) M)) (blocks16 (drop 16 xs))"
  by (subst blocks16.simps) (simp add: cbc_mac_def)

lemma move_zero_pad16: "length xs \<le> 16 \<Longrightarrow> NdisMoveMemory (NdisZeroMemory 16) 0 xs = pad16 xs"
  by (simp add: NdisMoveMemory_def NdisZeroMemory_def pad16_def)

lemma payload_loop_mac:
  assumes "aes_ctx_wf ctx" "16 \<le> length Key" "n \<le> length P"
  shows "ccm_payload_loop (Some ctx) Key 16 P n i M = cbc_mac (aes_cipher Key 16) M (blocks16 (drop i (take n P)))"
proof (induction "n - i" arbitrary: i M rule: less_induct)
  case less
  show ?case
  proof (cases "i < n")
    case False
    with assms(3) show ?thesis by (simp add: ccm_payload_loop.simps)
  next
    case True
    define k where "k = min (n - i) 16"
    have k: "k > 0" "i + k \<le> n" "take 16 (drop i (take n P)) = take k (drop i P)"
        "drop (i + 16) (take n P) = drop (i + k) (take n P)" "k \<le> 16"
      using True assms(3) by (auto simp: k_def min_def drop_take)
    have "ccm_payload_loop (Some ctx) Key 16 P n i M =
       ccm_payload_loop (Some ctx) Key 16 P n (i + k) (aes_cipher Key 16 (xor_bytes (pad16 (take k (drop i P))) M))"
      using True k(5) by (subst ccm_payload_loop.simps)
        (simp add: Let_def aes_consts aes_enc16_spec assms(1,2) move_zero_pad16 k_def)
    moreover have "drop i (take n P) \<noteq> []" using True assms(3) by simp
    ultimately show ?thesis
      using k True by (simp add: cbc_mac_blocks16 less.hyps add.commute)
  qed
qed

lemma aad_loop_mac:
  assumes "aes_ctx_wf ctx" "16 \<le> length Key" "n \<le> length AAD"
  shows "i < n \<Longrightarrow> length pre < 16 \<Longrightarrow>
     ccm_aad_loop (Some ctx) Key 16 AAD n i (length pre) (pad16 pre) M =
     cbc_mac (aes_cipher Key 16) M (blocks16 (pre @ drop i (take n AAD)))"
proof (induction "n - i" arbitrary: i M pre rule: less_induct)
  case less
  define k where "k = min (n - i) (16 - length pre)"
  have k: "k > 0" "i + k \<le> n" "length pre + k \<le> 16" using less.prems by (auto simp: k_def)
  have split: "take 16 (pre @ drop i (take n AAD)) = pre @ take k (drop i AAD)"
      "drop 16 (pre @ drop i (take n AAD)) = drop (i + k) (take n AAD)"
    using less.prems assms(3) by (auto simp: k_def min_def drop_take add.commute)
  have move: "NdisMoveMemory (pad16 pre) (length pre) (take k (drop i AAD)) = pad16 (pre @ take k (drop i AAD))"
    using k assms(3) by (simp add: NdisMoveMemory_def pad16_def min_def)
  have copy: "(if min (n - i) 16 + length pre > 16 then 16 - length pre else min (n - i) 16) = k"
    using less.prems by (auto simp: k_def min_def)
  have "ccm_aad_loop (Some ctx) Key 16 AAD n i (length pre) (pad16 pre) M =
      ccm_aad_loop (Some ctx) Key 16 AAD n (i + k) 0 (pad16 [])
        (aes_cipher Key 16 (xor_bytes (pad16 (pre @ take k (drop i AAD))) M))"
    using less.prems
    by (subst ccm_aad_loop.simps, simp only: Let_def aes_consts copy)
       (simp add: aes_enc16_spec assms(1,2) move pad16_def [of "[]"] NdisZeroMemory_def)
  also have "\<dots> = cbc_mac (aes_cipher Key 16) (aes_cipher Key 16 (xor_bytes (pad16 (pre @ take k (drop i AAD))) M))
      (blocks16 (drop (i + k) (take n AAD)))"
  proof (cases "i + k < n")
    case True
    then show ?thesis using less.hyps [of "i + k" "[]"] k less.prems by simp
  next
    case False
    then show ?thesis using k assms(3) by (simp add: ccm_aad_loop.simps)
  qed
  also have "\<dots> = cbc_mac (aes_cipher Key 16) M (blocks16 (pre @ drop i (take n AAD)))"
    using less.prems assms(3)
    by (subst cbc_mac_blocks16 [of "pre @ drop i (take n AAD)"]) (auto simp: split simp del: drop_append take_append)
  finally show ?case .
qed

text \<open>The associated data as the code formats it: the length prefix, then the data.\<close>

definition ccm_aad_prefix :: "nat \<Rightarrow> bytes" where
  "ccm_aad_prefix n = (if n < 0xFF00 then [byte_of 8 n, byte_of 0 n]
     else [0, 0, byte_of 24 n, byte_of 16 n, byte_of 8 n, byte_of 0 n])"

definition ccm_mac_blocks :: "bytes \<Rightarrow> nat \<Rightarrow> bytes \<Rightarrow> nat \<Rightarrow> bytes list" where
  "ccm_mac_blocks AAD AADLength P n =
    (if AADLength = 0 then [] else blocks16 (ccm_aad_prefix AADLength @ take AADLength AAD)) @ blocks16 (take n P)"

definition ccm_mac_spec :: "(bytes \<Rightarrow> bytes) \<Rightarrow> bytes \<Rightarrow> nat \<Rightarrow> bytes \<Rightarrow> nat \<Rightarrow> bytes \<Rightarrow> nat \<Rightarrow> nat \<Rightarrow> bytes" where
  "ccm_mac_spec E P n Nonce NonceLength AAD AADLength MACLength =
     cbc_mac E (E (ccm_first_block n Nonce NonceLength AADLength MACLength)) (ccm_mac_blocks AAD AADLength P n)"

lemma ccm_aad_block_pad:
  "0 < n \<Longrightarrow> ccm_aad_block n = (pad16 (ccm_aad_prefix n), length (ccm_aad_prefix n))"
proof -
  have "NdisZeroMemory 16 = [0, 0, 0, 0, 0, 0, 0, 0, 0, 0, 0, 0, 0, 0, 0, 0]"
    "replicate 14 (0 :: UINT8) = [0, 0, 0, 0, 0, 0, 0, 0, 0, 0, 0, 0, 0, 0]"
    "replicate 10 (0 :: UINT8) = [0, 0, 0, 0, 0, 0, 0, 0, 0, 0]"
    by (simp_all add: NdisZeroMemory_def numeral_eq_Suc)
  moreover assume "0 < n"
  ultimately show ?thesis by (simp add: ccm_aad_block_def ccm_aad_prefix_def pad16_def)
qed

lemma CCM_MAC_spec:
  assumes "aes_ctx_wf ctx" "16 \<le> length Key" "n \<le> length P" "AADLength \<le> length AAD"
  shows "AES_CCM_MAC (Some ctx) P n Key 16 Nonce NonceLength AAD AADLength MACLength T =
    NdisMoveMemory T 0 (take MACLength (ccm_mac_spec (aes_cipher Key 16) P n Nonce NonceLength AAD AADLength MACLength))"
proof (cases "AADLength = 0")
  case True
  then show ?thesis
    using assms by (simp add: AES_CCM_MAC_def Let_def case_prod_beta aes_enc16_spec payload_loop_mac
        ccm_aad_loop.simps ccm_mac_spec_def ccm_mac_blocks_def)
next
  case False
  then show ?thesis
    using assms aad_loop_mac [OF assms(1,2,4), of 0 "ccm_aad_prefix AADLength"]
    by (simp add: AES_CCM_MAC_def ccm_aad_block_pad aes_enc16_spec payload_loop_mac
        ccm_mac_spec_def ccm_mac_blocks_def cbc_mac_append Let_def)
       (simp add: ccm_aad_prefix_def split: if_splits)
qed

lemma length_cbc_mac: "(\<And>b. length (E b) = 16) \<Longrightarrow> length M = 16 \<Longrightarrow> length (cbc_mac E M bs) = 16"
  by (induction bs rule: rev_induct) (simp_all add: cbc_mac_def)

lemma length_ccm_mac_spec: "(\<And>b. length (E b) = 16) \<Longrightarrow>
  length (ccm_mac_spec E P n Nonce NonceLength AAD AADLength MACLength) = 16"
  by (simp add: ccm_mac_spec_def length_cbc_mac)

lemma ccm_mac_spec_cong: "take n P = take n P' \<Longrightarrow>
  ccm_mac_spec E P n Nonce NonceLength AAD AADLength MACLength =
  ccm_mac_spec E P' n Nonce NonceLength AAD AADLength MACLength"
  by (simp add: ccm_mac_spec_def ccm_mac_blocks_def)

section \<open>CCM: what the two directions compute\<close>

text \<open>The abstract mode over a block cipher: the payload and the truncated code, both masked.\<close>

definition ccm_seal :: "(bytes \<Rightarrow> bytes) \<Rightarrow> bytes \<Rightarrow> nat \<Rightarrow> bytes \<Rightarrow> nat \<Rightarrow> nat \<Rightarrow> bytes \<Rightarrow> bytes" where
  "ccm_seal E Nonce NonceLength AAD AADLength MACLength P =
    (let CTR = ccm_counter_block Nonce NonceLength in
     xor_bytes P (ctr_stream E CTR (length P)) @
     xor_bytes (take MACLength (ccm_mac_spec E P (length P) Nonce NonceLength AAD AADLength MACLength))
       (take MACLength (E CTR)))"

definition ccm_open :: "(bytes \<Rightarrow> bytes) \<Rightarrow> bytes \<Rightarrow> nat \<Rightarrow> bytes \<Rightarrow> nat \<Rightarrow> nat \<Rightarrow> bytes \<Rightarrow> bytes \<times> bool" where
  "ccm_open E Nonce NonceLength AAD AADLength MACLength C =
    (let CTR = ccm_counter_block Nonce NonceLength; n = length C - MACLength;
         P = xor_bytes (take n C) (ctr_stream E CTR n)
     in (P, xor_bytes (drop n C) (take MACLength (E CTR))
              = take MACLength (ccm_mac_spec E P n Nonce NonceLength AAD AADLength MACLength)))"

context block_cipher
begin

lemma ccm_open_seal:
  assumes "MACLength \<le> 16"
  shows "ccm_open E Nonce NonceLength AAD AADLength MACLength
     (ccm_seal E Nonce NonceLength AAD AADLength MACLength P) = (P, True)"
  using assms
  by (simp add: ccm_open_def ccm_seal_def Let_def length_ctr_stream length_E length_ccm_mac_spec
      xor_bytes_cancel)

lemma ccm_open_tampered:
  assumes "MACLength \<le> 16" "length tag = MACLength"
    "tag \<noteq> drop (length P) (ccm_seal E Nonce NonceLength AAD AADLength MACLength P)"
  shows "\<not> snd (ccm_open E Nonce NonceLength AAD AADLength MACLength
     (take (length P) (ccm_seal E Nonce NonceLength AAD AADLength MACLength P) @ tag))"
proof
  let ?S = "take MACLength (E (ccm_counter_block Nonce NonceLength))"
  let ?T = "take MACLength (ccm_mac_spec E P (length P) Nonce NonceLength AAD AADLength MACLength)"
  assume "snd (ccm_open E Nonce NonceLength AAD AADLength MACLength
     (take (length P) (ccm_seal E Nonce NonceLength AAD AADLength MACLength P) @ tag))"
  then have "xor_bytes tag ?S = ?T"
    using assms by (simp add: ccm_open_def ccm_seal_def Let_def length_ctr_stream length_E xor_bytes_cancel)
  then have "xor_bytes (xor_bytes tag ?S) ?S = xor_bytes ?T ?S" by simp
  then have "tag = xor_bytes ?T ?S" using assms by (simp add: xor_bytes_cancel length_E)
  with assms(3) show False by (simp add: ccm_seal_def Let_def length_ctr_stream length_E)
qed

end

definition ccm_args_ok :: "nat \<Rightarrow> nat \<Rightarrow> nat \<Rightarrow> bool" where
  "ccm_args_ok KeyLength NonceLength MACLength \<longleftrightarrow>
     KeyLength = 16 \<and> 7 \<le> NonceLength \<and> NonceLength \<le> 13 \<and> ccm_mac_length_ok MACLength"

lemma ccm_mac_length_le: "ccm_mac_length_ok MACLength \<Longrightarrow> MACLength \<le> 16"
  by (auto simp: ccm_mac_length_ok_def)

lemma CCM_Encrypt_spec:
  assumes "aes_ctx_wf ctx" "ccm_args_ok KeyLength NonceLength MACLength" "KeyLength \<le> length Key"
    and "n \<le> length P" "AADLength \<le> length AAD"
    and "n + MACLength \<le> CipherTextLength" "CipherTextLength \<le> length C" "CipherTextLength < 2 ^ 32"
  shows "AES_CCM_Encrypt (Some ctx) P n Key KeyLength Nonce NonceLength AAD AADLength MACLength C CipherTextLength =
    (0, ccm_seal (aes_cipher Key 16) Nonce NonceLength AAD AADLength MACLength (take n P)
          @ drop (n + MACLength) C, n + MACLength)"
proof -
  let ?E = "aes_cipher Key 16" and ?CTR = "ccm_counter_block Nonce NonceLength"
  let ?M = "ccm_mac_spec ?E P n Nonce NonceLength AAD AADLength MACLength"
  have len: "length ?M = 16" by (simp add: length_ccm_mac_spec)
  have ml: "MACLength \<le> 16" using assms(2) by (auto simp: ccm_args_ok_def intro: ccm_mac_length_le)
  have loop: "ccm_ctr_loop (Some ctx) Key 16 P n 0 ?CTR (?E ?CTR) C =
      xor_bytes (take n P) (ctr_stream ?E ?CTR n) @ drop n C"
    using assms by (subst ctr_loop_stream) (auto simp: ccm_args_ok_def)
  have mac: "ccm_mac_spec ?E (take n P) n Nonce NonceLength AAD AADLength MACLength = ?M"
    by (rule ccm_mac_spec_cong) simp
  have "AES_CCM_Encrypt (Some ctx) P n Key KeyLength Nonce NonceLength AAD AADLength MACLength C CipherTextLength =
    (0, NdisMoveMemory (xor_bytes (take n P) (ctr_stream ?E ?CTR n) @ drop n C) n
       (xor_bytes (take MACLength ?M) (take MACLength (?E ?CTR))), n + MACLength)"
    using assms ml len
    by (simp add: AES_CCM_Encrypt_def ccm_args_ok_def aes_enc16_spec CCM_MAC_spec Let_def loop)
       (simp add: NdisMoveMemory_def)
  then show ?thesis
    using assms ml by (simp add: ccm_seal_def Let_def NdisMoveMemory_def length_ctr_stream mac min_def len)
qed

lemma CCM_Decrypt_spec:
  assumes "aes_ctx_wf ctx" "ccm_args_ok KeyLength NonceLength MACLength" "KeyLength \<le> length Key"
    and "n + MACLength \<le> length C" "AADLength \<le> length AAD"
    and "n \<le> PlainTextLength" "n \<le> length Q"
    and opened: "ccm_open (aes_cipher Key 16) Nonce NonceLength AAD AADLength MACLength (take (n + MACLength) C) = (P, ok)"
  shows "AES_CCM_Decrypt (Some ctx) C (n + MACLength) Key KeyLength Nonce NonceLength AAD AADLength MACLength
      Q PlainTextLength = (if ok then 0 else -5, P @ drop n Q, n)"
proof -
  let ?E = "aes_cipher Key 16" and ?CTR = "ccm_counter_block Nonce NonceLength"
  have ml: "MACLength \<le> 16" using assms(2) by (auto simp: ccm_args_ok_def intro: ccm_mac_length_le)
  have P: "P = xor_bytes (take n C) (ctr_stream ?E ?CTR n)"
    and ok: "ok \<longleftrightarrow> xor_bytes (take MACLength (drop n C)) (take MACLength (?E ?CTR)) =
      take MACLength (ccm_mac_spec ?E P n Nonce NonceLength AAD AADLength MACLength)"
    using opened assms(4) by (auto simp: ccm_open_def Let_def drop_take)
  have lenP: "length P = n" using assms(4) by (simp add: P length_ctr_stream)
  have loop: "ccm_ctr_loop (Some ctx) Key 16 C n 0 ?CTR (?E ?CTR) Q = P @ drop n Q"
    using assms by (subst ctr_loop_stream) (auto simp: ccm_args_ok_def P)
  have mac: "ccm_mac_spec ?E (P @ drop n Q) n Nonce NonceLength AAD AADLength MACLength =
      ccm_mac_spec ?E P n Nonce NonceLength AAD AADLength MACLength"
    by (rule ccm_mac_spec_cong) (simp add: lenP)
  show ?thesis
    using assms ml lenP
    by (simp add: AES_CCM_Decrypt_def ccm_args_ok_def aes_enc16_spec CCM_MAC_spec Let_def loop mac ok)
       (simp add: NdisMoveMemory_def length_ccm_mac_spec)
qed

section \<open>Key wrap\<close>

lemma wrap_step_length:
  assumes "aes_ctx_wf ctx" "aes_key_length_ok KeyLength" "KeyLength \<le> length Key"
    and "length IV = 8" "8 * Suc (snd ji) \<le> length R"
  shows "wrap_step (Some ctx) Key KeyLength N ji (IV, R) = (IV', R') \<Longrightarrow> length IV' = 8 \<and> length R' = length R"
  using assms by (auto simp: wrap_step_def Let_def aes_enc16_spec length_NdisMoveMemory)

lemma unwrap_wrap_step:
  assumes ctx: "aes_ctx_wf ctx" "aes_ctx_wf ctx'" and key: "aes_key_length_ok KeyLength" "KeyLength \<le> length Key"
    and len: "length IV = 8" "8 * Suc (snd ji) \<le> length R"
  shows "unwrap_step (Some ctx') Key KeyLength N ji (wrap_step (Some ctx) Key KeyLength N ji (IV, R)) = (IV, R)"
proof -
  let ?i = "snd ji * 8"
  define B where "B = aes_cipher Key KeyLength (IV @ take 8 (drop ?i R))"
  have B: "length B = 16" "aes_inv_cipher Key KeyLength B = IV @ take 8 (drop ?i R)"
    using len by (simp_all add: B_def aes.D_E)
  have "wrap_step (Some ctx) Key KeyLength N ji (IV, R) =
      ((take 8 B)[7 := B ! 7 XOR wrap_counter N ji], NdisMoveMemory R ?i (drop 8 B))"
    using ctx key by (simp add: wrap_step_def Let_def aes_enc16_spec B_def)
  moreover have "take 8 (drop ?i (NdisMoveMemory R ?i (drop 8 B))) = drop 8 B"
    using len B(1) by (simp add: NdisMoveMemory_def)
  moreover have "NdisMoveMemory (NdisMoveMemory R ?i (drop 8 B)) ?i (take 8 (drop ?i R)) = R"
    using len B(1) by (intro NdisMoveMemory_restore) simp_all
  moreover have "(take 8 B)[7 := B ! 7] = take 8 B"
    using B(1) by (simp add: list_update_same_conv)
  ultimately show ?thesis
    using ctx key len B by (simp add: unwrap_step_def Let_def aes_dec16_spec)
qed

lemma unwrap_wrap_fold:
  assumes "aes_ctx_wf ctx" "aes_ctx_wf ctx'" "aes_key_length_ok KeyLength" "KeyLength \<le> length Key"
    and "length IV = 8" "\<forall>ji \<in> set order. 8 * Suc (snd ji) \<le> length R"
  shows "fold (unwrap_step (Some ctx') Key KeyLength N) (rev order) (fold (wrap_step (Some ctx) Key KeyLength N) order (IV, R))
     = (IV, R)"
  using assms(5,6)
proof (induction order arbitrary: IV R)
  case (Cons ji order)
  obtain IV' R' where step: "wrap_step (Some ctx) Key KeyLength N ji (IV, R) = (IV', R')" by force
  with Cons.prems assms have "length IV' = 8" "length R' = length R"
    using wrap_step_length [of ctx KeyLength Key IV ji R N IV' R'] by auto
  with Cons.prems have "fold (unwrap_step (Some ctx') Key KeyLength N) (rev order)
      (fold (wrap_step (Some ctx) Key KeyLength N) order (IV', R')) = (IV', R')"
    by (intro Cons.IH) auto
  then show ?case
    using unwrap_wrap_step [of ctx ctx' KeyLength Key IV ji R N] Cons.prems assms by (simp add: step)
qed simp

lemma wrap_fold_length:
  assumes "aes_ctx_wf ctx" "aes_key_length_ok KeyLength" "KeyLength \<le> length Key"
    and "length IV = 8" "\<forall>ji \<in> set order. 8 * Suc (snd ji) \<le> length R"
    and "fold (wrap_step (Some ctx) Key KeyLength N) order (IV, R) = (IV', R')"
  shows "length IV' = 8 \<and> length R' = length R"
  using assms(4-)
proof (induction order arbitrary: IV R)
  case (Cons ji order)
  obtain IV1 R1 where step: "wrap_step (Some ctx) Key KeyLength N ji (IV, R) = (IV1, R1)" by force
  with Cons.prems assms(1-3) have "length IV1 = 8" "length R1 = length R"
    using wrap_step_length [of ctx KeyLength Key IV ji R N IV1 R1] by auto
  with Cons.IH [of IV1 R1] Cons.prems show ?case by (auto simp: step)
qed auto

lemma wrap_order_bound: "ji \<in> set (wrap_order (n div 8)) \<Longrightarrow> 8 * Suc (snd ji) \<le> n"
  by (auto simp: wrap_order_def)

text \<open>One step of RFC 3394: the 64-bit counter is added to all of the register \<open>A\<close>.\<close>

definition rfc3394_step :: "(bytes \<Rightarrow> bytes) \<Rightarrow> nat \<Rightarrow> nat \<times> nat \<Rightarrow> bytes \<times> bytes \<Rightarrow> bytes \<times> bytes" where
  "rfc3394_step E n = (\<lambda>(j, i) (A, R).
    let B = E (A @ take 8 (drop (8 * i) R)); t = n * j + i + 1
    in (xor_bytes (take 8 B) (bytes_be64 (word_of_nat t)), NdisMoveMemory R (8 * i) (drop 8 B)))"

definition rfc3394_wrap :: "(bytes \<Rightarrow> bytes) \<Rightarrow> bytes \<Rightarrow> bytes" where
  "rfc3394_wrap E P = (let n = length P div 8;
     (A, R) = fold (rfc3394_step E n) [(j, i). j \<leftarrow> [0..<6], i \<leftarrow> [0..<n]] (replicate 8 0xA6, P) in A @ R)"

lemma bytes_be64_small:
  assumes "t < 256"
  shows "bytes_be64 (word_of_nat t) = replicate 7 0 @ [word_of_nat t]"
proof -
  have "ucast (drop_bit (8 * k) (word_of_nat t :: UINT64)) = (if k = 0 then word_of_nat t else 0 :: UINT8)" for k
  proof (cases "k = 0")
    case True
    then show ?thesis using assms by (simp add: unsigned_of_nat take_bit_nat_eq_self)
  next
    case False
    then have "t < 2 ^ (8 * k)" using assms power_increasing [of 8 "8 * k" "2 :: nat"] by simp
    then have "drop_bit (8 * k) t = 0" by (simp add: drop_bit_eq_div)
    then have "drop_bit (8 * k) (word_of_nat t :: UINT64) = 0"
      using assms by (intro unat_eq_0 [THEN iffD1])
        (simp add: unsigned_drop_bit_eq unsigned_of_nat take_bit_nat_eq_self)
    with False show ?thesis by simp
  qed
  then show ?thesis
    unfolding bytes_be64_def by (simp add: upt_rec numeral_eq_Suc)
qed

lemma wrap_step_rfc3394:
  assumes "aes_ctx_wf ctx" "aes_key_length_ok KeyLength" "KeyLength \<le> length Key"
    and "N * fst ji + snd ji + 1 < 256"
  shows "wrap_step (Some ctx) Key KeyLength N ji (IV, R) = rfc3394_step (aes_cipher Key KeyLength) N ji (IV, R)"
proof -
  have "xor_bytes (take 8 B) (replicate 7 0 @ [c]) = (take 8 B)[7 := B ! 7 XOR c]" if "length B = 16" for B and c :: UINT8
    using that by (intro nth_equalityI) (auto simp: nth_append nth_list_update less_Suc_eq numeral_eq_Suc)
  then show ?thesis
    using assms by (cases ji) (simp add: wrap_step_def rfc3394_step_def aes_enc16_spec Let_def wrap_counter_def
        bytes_be64_small mult.commute [of _ 8] del: of_nat_add of_nat_mult of_nat_Suc)
qed

lemma wrap_order_counter: "ji \<in> set (wrap_order n) \<Longrightarrow> n * fst ji + snd ji + 1 \<le> n * 6"
proof -
  assume "ji \<in> set (wrap_order n)"
  then have "fst ji \<le> 5" "snd ji + 1 \<le> n" by (auto simp: wrap_order_def)
  then have "n * fst ji + (snd ji + 1) \<le> n * 5 + n" by (intro add_mono mult_le_mono2)
  then show ?thesis by simp
qed

lemma wrap_fold_rfc3394:
  assumes "aes_ctx_wf ctx" "aes_key_length_ok KeyLength" "KeyLength \<le> length Key" "N * 6 < 256"
  shows "fold (wrap_step (Some ctx) Key KeyLength N) (wrap_order N) s = fold (rfc3394_step (aes_cipher Key KeyLength) N) (wrap_order N) s"
proof (rule fold_cong)
  fix ji assume "ji \<in> set (wrap_order N)"
  then have "N * fst ji + snd ji + 1 < 256" using wrap_order_counter [of ji N] assms(4) by linarith
  then show "wrap_step (Some ctx) Key KeyLength N ji = rfc3394_step (aes_cipher Key KeyLength) N ji"
    using wrap_step_rfc3394 [OF assms(1-3)] by (auto simp: fun_eq_iff)
qed simp_all

section \<open>CBC\<close>

function cbc_enc_bytes :: "(bytes \<Rightarrow> bytes) \<Rightarrow> bytes \<Rightarrow> bytes \<Rightarrow> bytes" where
  "cbc_enc_bytes E iv xs = (if length xs < 16 then [] else
     let c = E (xor_bytes (take 16 xs) iv) in c @ cbc_enc_bytes E c (drop 16 xs))"
  by pat_completeness auto
termination by (relation "measure (\<lambda>(_, _, xs). length xs)") auto

function cbc_dec_bytes :: "(bytes \<Rightarrow> bytes) \<Rightarrow> bytes \<Rightarrow> bytes \<Rightarrow> bytes" where
  "cbc_dec_bytes D iv xs = (if length xs < 16 then [] else
     xor_bytes (D (take 16 xs)) iv @ cbc_dec_bytes D (take 16 xs) (drop 16 xs))"
  by pat_completeness auto
termination by (relation "measure (\<lambda>(_, _, xs). length xs)") auto

declare cbc_enc_bytes.simps [simp del] cbc_dec_bytes.simps [simp del]

lemma dvd_16_less: "16 dvd n \<Longrightarrow> n < 16 \<Longrightarrow> n = (0 :: nat)"
  by (auto dest: dvd_imp_le)

context block_cipher
begin

lemma length_cbc_enc: "16 dvd length xs \<Longrightarrow> length (cbc_enc_bytes E iv xs) = length xs"
proof (induction "length xs" arbitrary: iv xs rule: less_induct)
  case less
  then show ?case
    by (subst cbc_enc_bytes.simps) (auto simp: Let_def length_E dest: dvd_16_less)
qed

lemma length_cbc_dec: "16 dvd length xs \<Longrightarrow> length iv = 16 \<Longrightarrow> length (cbc_dec_bytes D iv xs) = length xs"
proof (induction "length xs" arbitrary: iv xs rule: less_induct)
  case less
  then show ?case
    by (subst cbc_dec_bytes.simps) (auto simp: Let_def length_D dest: dvd_16_less)
qed

lemma cbc_dec_enc:
  "16 dvd length xs \<Longrightarrow> length iv = 16 \<Longrightarrow> cbc_dec_bytes D iv (cbc_enc_bytes E iv xs) = xs"
proof (induction "length xs" arbitrary: iv xs rule: less_induct)
  case less
  show ?case
  proof (cases "length xs < 16")
    case True
    with less.prems have "xs = []" by (auto dest: dvd_16_less)
    then show ?thesis by (simp add: cbc_enc_bytes.simps cbc_dec_bytes.simps)
  next
    case False
    then have enc: "cbc_enc_bytes E iv xs = E (xor_bytes (take 16 xs) iv)
        @ cbc_enc_bytes E (E (xor_bytes (take 16 xs) iv)) (drop 16 xs)"
      by (subst cbc_enc_bytes.simps) (simp add: Let_def)
    have "cbc_dec_bytes D c (cbc_enc_bytes E c (drop 16 xs)) = drop 16 xs" if "length c = 16" for c
      using False less.prems that by (intro less.hyps) auto
    then show ?thesis
      unfolding enc using less.prems False
      by (subst cbc_dec_bytes.simps) (simp add: length_E D_E xor_bytes_cancel)
  qed
qed

end

lemma cbc_enc_one: "length xs = 16 \<Longrightarrow> length (E (xor_bytes xs iv)) = 16 \<Longrightarrow>
  cbc_enc_bytes E iv xs = E (xor_bytes xs iv)"
  by (subst cbc_enc_bytes.simps) (simp add: Let_def cbc_enc_bytes.simps)

lemma cbc_enc_step: "16 \<le> length xs \<Longrightarrow> cbc_enc_bytes E iv xs =
  (let c = E (xor_bytes (take 16 xs) iv) in c @ cbc_enc_bytes E c (drop 16 xs))"
  by (subst cbc_enc_bytes.simps) simp

lemma cbc_enc_loop_bytes:
  assumes ctx: "aes_ctx_wf ctx" "aes_key_length_ok KeyLength" "KeyLength \<le> length Key"
    and iv: "16 \<le> length IV" and n: "n \<le> length P" and pad: "pad = 16 - n mod 16"
    and size: "n + pad \<le> CL" "CL < 2 ^ 32" and s: "16 dvd s" "s \<le> n" and C: "CL \<le> length C"
  shows "cbc_enc_final (Some ctx) Key KeyLength IV P n CL pad (cbc_enc_loop (Some ctx) Key KeyLength IV P n CL s C s) =
    (take s C @ cbc_enc_bytes (aes_cipher Key KeyLength) (cbc_chain IV C s)
        (drop s (take n P @ replicate pad (word_of_nat pad))) @ drop (n + pad) C, n + pad)"
  using s C
proof (induction "n - s" arbitrary: s C rule: less_induct)
  case less
  let ?E = "aes_cipher Key KeyLength" and ?T = "take n P @ replicate pad (word_of_nat pad) :: bytes"
  have pad_pos: "0 < pad" "pad \<le> 16" by (simp_all add: pad)
  show ?case
  proof (cases "n - s < 16")
    case True
    obtain k where k: "s = 16 * k" using less.prems by blast
    have rest: "n mod 16 = n - s"
      using True less.prems mod_mult_self4 [of 16 k "n - s"] by (simp add: k)
    define B where "B = take (n - s) (drop s P) @ replicate pad (word_of_nat pad)"
    have B: "drop s ?T = B" "length B = 16" and np: "n + pad = s + 16"
      using less.prems n pad rest True by (simp_all add: drop_take B_def)
    have fill: "NdisFillMemory (NdisMoveMemory (NdisZeroMemory 16) 0 (take (n - s) (drop s P))) (16 - pad) pad (word_of_nat pad)
        = B"
      using pad rest True less.prems n
      by (simp add: NdisFillMemory_def NdisMoveMemory_def min_def B_def)
    have "16 \<le> uint_sub CL s" using size np by simp
    then show ?thesis
      using True less.prems size np ctx unfolding B(1)
      by (simp add: cbc_enc_loop.simps cbc_enc_final_def Let_def aes_consts fill aes_enc_at_spec
          cbc_enc_one [OF B(2)]) (simp add: NdisMoveMemory_def)
  next
    case False
    define c where "c = aes_cipher Key KeyLength (xor_bytes (take 16 (drop s P)) (cbc_chain IV C s))"
    define C' where "C' = NdisMoveMemory C s c"
    have step: "cbc_enc_loop (Some ctx) Key KeyLength IV P n CL s C s =
        cbc_enc_loop (Some ctx) Key KeyLength IV P n CL (s + 16) C' (s + 16)"
      using False less.prems size ctx
      by (subst cbc_enc_loop.simps) (simp add: Let_def aes_consts aes_enc_at_spec c_def C'_def)
    have C': "length C' = length C" "take (s + 16) C' = take s C @ c" "drop (n + pad) C' = drop (n + pad) C"
        "cbc_chain IV C' (s + 16) = c"
      using False less.prems size by (auto simp: C'_def NdisMoveMemory_def c_def cbc_chain_def)
    have T: "take 16 (drop s ?T) = take 16 (drop s P)" "16 \<le> length (drop s ?T)"
      using False less.prems n by (auto simp: drop_take)
    have "drop 16 (drop s ?T) = drop (s + 16) ?T"
      by (simp only: drop_drop add.commute)
    then have "cbc_enc_bytes ?E (cbc_chain IV C s) (drop s ?T) = c @ cbc_enc_bytes ?E c (drop (s + 16) ?T)"
      by (simp only: cbc_enc_step [OF T(2)] T(1) Let_def c_def)
    then show ?thesis
      using less.hyps [of "s + 16" C'] False less.prems C' by (simp add: step)
  qed
qed

lemma CBC_Encrypt_spec:
  assumes "aes_ctx_wf ctx" "aes_key_length_ok KeyLength" "KeyLength \<le> length Key"
    and "length IV = 16" "n \<le> length P" "pad = 16 - n mod 16" "n + pad \<le> CL" "CL < 2 ^ 32" "CL \<le> length C"
  shows "AES_CBC_Encrypt (Some ctx) P n Key KeyLength IV 16 C CL =
    (cbc_enc_bytes (aes_cipher Key KeyLength) IV (take n P @ replicate pad (word_of_nat pad)) @ drop (n + pad) C, n + pad)"
  using cbc_enc_loop_bytes [OF assms(1-3) _ assms(5-8) _ _ assms(9), of IV 0] assms
  by (simp add: AES_CBC_Encrypt_def Let_def aes_consts cbc_chain_def)

lemma aes_inv_cipher_take: "aes_inv_cipher Key KeyLength b = aes_inv_cipher Key KeyLength (take 16 b)"
proof -
  have "aes_load_state b = aes_load_state (take 16 b)"
    unfolding aes_load_state_def by (rule aes_cells_cong) simp
  then show ?thesis by (simp add: aes_inv_cipher_def)
qed

lemma cbc_dec_loop_bytes:
  assumes ctx: "aes_ctx_wf ctx" "aes_key_length_ok KeyLength" "KeyLength \<le> length Key"
    and m: "m \<le> length C" "16 dvd m" "m \<le> PL" "PL < 2 ^ 32" "r < 16"
    and s: "16 dvd s" "s \<le> m" and Q: "PL \<le> length Q" and iv: "length IV = 16"
  shows "cbc_dec_loop (Some ctx) Key KeyLength IV C (m + r) PL s Q s =
    (take s Q @ cbc_dec_bytes (aes_inv_cipher Key KeyLength) (cbc_chain IV C s) (drop s (take m C)) @ drop m Q, m)"
  using s Q
proof (induction "m - s" arbitrary: s Q rule: less_induct)
  case less
  let ?D = "aes_inv_cipher Key KeyLength"
  show ?case
  proof (cases "s = m")
    case True
    with m less.prems show ?thesis by (simp add: cbc_dec_loop.simps cbc_dec_bytes.simps aes_consts)
  next
    case False
    then have "16 \<le> m - s" using m less.prems by (intro dvd_imp_le dvd_diff_nat) auto
    then have sm: "s + 16 \<le> m" "16 \<le> m - s" using less.prems by simp_all
    define p where "p = xor_bytes (?D (take 16 (drop s C))) (cbc_chain IV C s)"
    define Q' where "Q' = NdisMoveMemory Q s p"
    have chain: "length (cbc_chain IV C s) = 16"
      using sm m less.prems iv by (auto simp: cbc_chain_def dest: dvd_16_less)
    have step: "cbc_dec_loop (Some ctx) Key KeyLength IV C (m + r) PL s Q s =
        cbc_dec_loop (Some ctx) Key KeyLength IV C (m + r) PL (s + 16) Q' (s + 16)"
      using sm less.prems m ctx chain iv le_diff_conv2 [of s "m + r" 16]
      by (subst cbc_dec_loop.simps)
         (simp add: Let_def aes_consts aes_dec_at_spec aes_inv_cipher_take [of _ _ "drop s C"] Q'_def p_def cbc_chain_def
            NdisMoveMemory_def)
    have Q': "length Q' = length Q" "take (s + 16) Q' = take s Q @ p" "drop m Q' = drop m Q"
      using sm less.prems m chain by (auto simp: Q'_def NdisMoveMemory_def p_def)
    have "cbc_dec_bytes ?D (cbc_chain IV C s) (drop s (take m C)) =
        p @ cbc_dec_bytes ?D (cbc_chain IV C (s + 16)) (drop (s + 16) (take m C))"
      using sm m by (subst cbc_dec_bytes.simps) (simp add: p_def cbc_chain_def drop_take add.commute)
    then show ?thesis
      using less.hyps [of "s + 16" Q'] sm less.prems Q' by (simp add: step)
  qed
qed

section \<open>CMAC\<close>

definition shl_byte :: "bytes \<Rightarrow> nat \<Rightarrow> UINT8" where
  "shl_byte L i = push_bit 1 (L ! i) OR (if L ! (i + 1) AND 0x80 \<noteq> 0 then 1 else 0)"

lemma fold_shift:
  "k < length L \<Longrightarrow> fold cmac_shift_byte [0..<k] L = map (shl_byte L) [0..<k] @ drop k L"
proof (induction k)
  case (Suc k)
  then have "drop k L = L ! k # drop (Suc k) L" "drop (Suc k) L = L ! Suc k # drop (Suc (Suc k)) L"
    by (simp_all add: Cons_nth_drop_Suc)
  with Suc show ?case
    by (simp add: cmac_shift_byte_def shl_byte_def nth_append Let_def list_update_append)
qed simp

definition cmac_shift :: "bytes \<Rightarrow> bytes" where
  "cmac_shift L = map (shl_byte L) [0..<15] @ [push_bit 1 (L ! 15)]"

lemma cmac_double_shift:
  assumes "length L = 16"
  shows "cmac_double L = (if L ! 0 AND 0x80 > 0 then xor_bytes (cmac_shift L) Const_Rb else cmac_shift L)"
proof -
  have "drop 15 L = [L ! 15]" using assms by (simp add: Cons_nth_drop_Suc [symmetric])
  with assms show ?thesis by (simp add: cmac_double_def fold_shift cmac_shift_def Let_def nth_append
        list_update_append)
qed

lemma length_cmac_double: "length L = 16 \<Longrightarrow> length (cmac_double L) = 16"
  by (simp add: cmac_double_shift cmac_shift_def Const_Rb_def)

lemma GenerateSubKey_spec:
  assumes "aes_ctx_wf ctx" "16 \<le> length Key" "length SubKey1 = 16"
    and "K1 = cmac_double (aes_cipher Key 16 Const_Zero)"
  shows "AES_CMAC_GenerateSubKey (Some ctx) Key 16 SubKey1 SubKey2 = (K1, cmac_double K1)"
proof -
  have "length K1 = 16" using assms(4) by (simp add: length_cmac_double)
  note dbl = cmac_double_shift [OF this, unfolded cmac_shift_def shl_byte_def [abs_def]]
  show ?thesis
    using assms(1-3)
    by (simp add: AES_CMAC_GenerateSubKey_def aes_enc16_spec Let_def assms(4) [symmetric] dbl)
qed

text \<open>The message as RFC 4493 prepares it: the last block is masked with one of the two subkeys.\<close>

definition cmac_blocks :: "bytes \<Rightarrow> bytes \<Rightarrow> bytes \<Rightarrow> bytes list" where
  "cmac_blocks K1 K2 msg =
    (if msg \<noteq> [] \<and> 16 dvd length msg
     then let bs = blocks16 msg in butlast bs @ [xor_bytes (last bs) K1]
     else let bs = blocks16 (msg @ [0x80]) in butlast bs @ [xor_bytes (last bs) K2])"

lemma blocks16_step: "16 \<le> length xs \<Longrightarrow> blocks16 xs = take 16 xs # blocks16 (drop 16 xs)"
  by (subst blocks16.simps) (auto simp: pad16_def)

lemma blocks16_one: "xs \<noteq> [] \<Longrightarrow> length xs \<le> 16 \<Longrightarrow> blocks16 xs = [pad16 xs]"
  by (subst blocks16.simps) simp

lemma blocks16_nonempty: "xs \<noteq> [] \<Longrightarrow> blocks16 xs \<noteq> []"
  by (subst blocks16.simps) simp

lemma cmac_blocks_step:
  assumes "16 < length msg"
  shows "cmac_blocks K1 K2 msg = take 16 msg # cmac_blocks K1 K2 (drop 16 msg)"
proof -
  have "drop 16 msg \<noteq> []" "drop 16 msg @ [0x80] \<noteq> []" using assms by simp_all
  note ne = this [THEN blocks16_nonempty]
  have "16 dvd length msg \<longleftrightarrow> 16 dvd length (drop 16 msg)"
    using assms by (simp add: dvd_minus_self)
  moreover have "blocks16 msg = take 16 msg # blocks16 (drop 16 msg)"
    "blocks16 (msg @ [0x80]) = take 16 msg # blocks16 (drop 16 msg @ [0x80])"
    using assms blocks16_step [of msg] blocks16_step [of "msg @ [0x80]"] by simp_all
  ultimately show ?thesis using assms ne by (auto simp: cmac_blocks_def Let_def)
qed

lemma xor_bytes_right_commute: "xor_bytes (xor_bytes a b) c = xor_bytes (xor_bytes a c) b"
  by (rule nth_equalityI) (auto simp: xor.assoc xor.commute xor.left_commute)

lemma cmac_loop_blocks:
  assumes "aes_ctx_wf ctx" "16 \<le> length Key" "n \<le> length P"
    and "length X = 16" "cmac_loop (Some ctx) Key 16 P n i X = (j, X')" "i \<le> n"
  shows "length X' = 16 \<and> j \<le> n \<and> n - j \<le> 16 \<and> (i < n \<longrightarrow> j < n) \<and>
    cbc_mac (aes_cipher Key 16) X (cmac_blocks K1 K2 (drop i (take n P))) =
    cbc_mac (aes_cipher Key 16) X' (cmac_blocks K1 K2 (drop j (take n P)))"
  using assms(4-)
proof (induction "n - i" arbitrary: i X rule: less_induct)
  case less
  show ?case
  proof (cases "n - i > 16")
    case False
    with less.prems show ?thesis by (simp add: cmac_loop.simps aes_consts)
  next
    case True
    let ?X = "aes_cipher Key 16 (xor_bytes (take 16 (drop i P)) X)"
    have blk: "cmac_blocks K1 K2 (drop i (take n P)) = take 16 (drop i P) # cmac_blocks K1 K2 (drop (i + 16) (take n P))"
      using True assms(3) by (subst cmac_blocks_step) (auto simp: drop_take add.commute)
    have "cmac_loop (Some ctx) Key 16 P n i X = cmac_loop (Some ctx) Key 16 P n (i + 16) ?X"
      using True less.prems
      by (subst cmac_loop.simps) (simp add: aes_consts Let_def aes_enc16_spec assms(1,2))
    with less.prems have "cmac_loop (Some ctx) Key 16 P n (i + 16) ?X = (j, X')" by simp
    with True less.hyps [of "i + 16" ?X] show ?thesis
      by (simp add: blk cbc_mac_def)
  qed
qed

lemma CMAC_spec:
  assumes "aes_ctx_wf ctx" "16 \<le> length Key" "n \<le> length P" "16 \<le> TL"
    and K1: "K1 = cmac_double (aes_cipher Key 16 Const_Zero)"
  shows "AES_CMAC (Some ctx) P n Key 16 T TL =
    (NdisMoveMemory T 0 (cbc_mac (aes_cipher Key 16) Const_Zero (cmac_blocks K1 (cmac_double K1) (take n P))), 16)"
proof -
  let ?E = "aes_cipher Key 16" and ?K2 = "cmac_double K1"
  obtain j X where loop: "cmac_loop (Some ctx) Key 16 P n 0 Const_Zero = (j, X)" by force
  have j: "length X = 16" "j \<le> n" "n - j \<le> 16" "0 < n \<Longrightarrow> j < n"
    and mac: "cbc_mac ?E Const_Zero (cmac_blocks K1 ?K2 (take n P)) = cbc_mac ?E X (cmac_blocks K1 ?K2 (drop j (take n P)))"
    using cmac_loop_blocks [OF assms(1-3) _ loop, of K1 ?K2] by (simp_all add: Const_Zero_def)
  define R where "R = take (n - j) (drop j P)"
  have R: "drop j (take n P) = R" "length R = n - j" using j assms(3) by (simp_all add: R_def drop_take)
  have sub: "AES_CMAC_GenerateSubKey (Some ctx) Key 16 (NdisZeroMemory 16) (NdisZeroMemory 16) = (K1, ?K2)"
    using assms(1,2) K1 by (intro GenerateSubKey_spec) simp_all
  have full: "cbc_mac ?E X (cmac_blocks K1 ?K2 R) = ?E (xor_bytes (xor_bytes R X) K1)" if "n - j = 16"
    using that R by (auto simp: cmac_blocks_def Let_def blocks16_one pad16_def cbc_mac_def xor_bytes_right_commute)
  have part: "cbc_mac ?E X (cmac_blocks K1 ?K2 R) = ?E (xor_bytes (xor_bytes (pad16 (R @ [0x80])) X) ?K2)" if "n - j < 16"
    using that R by (auto simp: cmac_blocks_def Let_def blocks16_one cbc_mac_def xor_bytes_right_commute
        dest: dvd_16_less)
  have last: "(NdisMoveMemory (NdisZeroMemory 16) 0 R)[n - j := 0x80] = pad16 (R @ [0x80])" if "n - j < 16"
  proof -
    have "16 - length R = Suc (15 - length R)" using that R by simp
    then show ?thesis using that by (simp add: move_zero_pad16 pad16_def R(2) [symmetric])
  qed
  show ?thesis
  proof (cases "n - j = 16")
    case True
    then show ?thesis
      using assms(1,2,4) full
      by (simp add: AES_CMAC_def loop sub Let_def aes_consts RT_AES_Encrypt_spec mac R R_def [symmetric])
         (simp add: R_def)
  next
    case False
    with j(3) have "n - j < 16" by simp
    with False show ?thesis
      using assms(1,2,4) part last
      by (simp add: AES_CMAC_def loop sub Let_def aes_consts RT_AES_Encrypt_spec mac R R_def [symmetric])
  qed
qed

section \<open>The subkeys as numbers\<close>

text \<open>Doubling in the field of 128-bit strings, on the big-endian number that a block denotes.\<close>

fun be_nat :: "bytes \<Rightarrow> nat" where
  "be_nat [] = 0"
| "be_nat (x # xs) = unat x * 256 ^ length xs + be_nat xs"

fun shl1 :: "bytes \<Rightarrow> bytes" where
  "shl1 [] = []"
| "shl1 [x] = [push_bit 1 x]"
| "shl1 (x # y # ys) = (push_bit 1 x OR (if y AND 0x80 \<noteq> 0 then 1 else 0)) # shl1 (y # ys)"

lemma length_shl1 [simp]: "length (shl1 xs) = length xs"
  by (induction xs rule: shl1.induct) auto

lemma be_nat_less: "be_nat xs < 256 ^ length xs"
proof (induction xs)
  case (Cons x xs)
  have "unat x * 256 ^ length xs + be_nat xs < (unat x + 1) * 256 ^ length xs"
    using Cons by simp
  also have "\<dots> \<le> 256 * 256 ^ length xs"
  proof (rule mult_right_mono)
    show "unat x + 1 \<le> 256" using unat_byte_less [of x] by linarith
  qed simp
  finally show ?case by simp
qed simp

lemma unat_shl_byte:
  "unat (push_bit 1 x OR (if c then 1 else 0) :: UINT8) = 2 * unat x mod 256 + (if c then 1 else 0)"
proof -
  have "unat (push_bit 1 x OR 1 :: UINT8) = 2 * unat x mod 256 + 1"
    by (rule all_bytes [where x = x]) code_simp
  moreover have "unat (push_bit 1 x :: UINT8) = 2 * unat x mod 256"
    by (rule all_bytes [where x = x]) code_simp
  ultimately show ?thesis by simp
qed

lemma top_bit_iff: "x AND 0x80 \<noteq> (0 :: UINT8) \<longleftrightarrow> 128 \<le> unat x"
  by (rule all_bytes [where x = x]) code_simp

lemma top_bit_be_nat:
  "128 \<le> unat x \<longleftrightarrow> 256 ^ Suc (length xs) \<le> 2 * be_nat (x # xs)"
proof -
  define P where "P = (256 :: nat) ^ length xs"
  have b: "be_nat xs < P" unfolding P_def by (rule be_nat_less)
  have "256 * P \<le> 2 * (unat x * P + be_nat xs)" if "128 \<le> unat x"
  proof -
    from that have "128 * P \<le> unat x * P" by (rule mult_right_mono) simp
    then have "2 * (128 * P) \<le> 2 * (unat x * P + be_nat xs)" by (intro mult_le_mono2 trans_le_add1)
    then show ?thesis by simp
  qed
  moreover have "2 * (unat x * P + be_nat xs) < 256 * P" if "\<not> 128 \<le> unat x"
  proof -
    from that have "(unat x + 1) * P \<le> 128 * P" by (intro mult_right_mono) simp_all
    moreover obtain U where U: "unat x * P = U" by simp
    ultimately have "U + P \<le> 128 * P" by (simp add: distrib_right)
    with b show ?thesis unfolding U by presburger
  qed
  ultimately show ?thesis
    unfolding be_nat.simps power_Suc P_def [symmetric] by (meson linorder_not_le)
qed

lemma be_nat_shl1: "be_nat (shl1 xs) = 2 * be_nat xs mod 256 ^ length xs"
proof (induction xs rule: shl1.induct)
  case (2 x)
  then show ?case using unat_shl_byte [of x False] by simp
next
  case (3 x y ys)
  let ?n = "Suc (length ys)" and ?V = "be_nat (y # ys)"
  define b where "b = (if y AND 0x80 \<noteq> 0 then 1 else 0 :: nat)"
  have div: "2 * ?V div 256 ^ ?n = b"
  proof -
    have "2 * ?V < 2 * 256 ^ ?n" using be_nat_less [of "y # ys"] by simp
    then show ?thesis
      by (auto simp: b_def top_bit_iff top_bit_be_nat [of y ys] div_nat_eqI simp del: be_nat.simps)
  qed
  have even: "(2 * unat x + b) mod 256 = 2 * unat x mod 256 + b"
  proof -
    have "2 * unat x mod 256 = 2 * (unat x mod 128)" by (simp add: mult_mod_right)
    moreover have "unat x mod 128 < 128" by simp
    ultimately have "2 * unat x mod 256 + b < 256" by (auto simp: b_def)
    then show ?thesis by (metis mod_add_left_eq mod_less)
  qed
  have "2 * be_nat (x # y # ys) = (2 * unat x + b) * 256 ^ ?n + 2 * ?V mod 256 ^ ?n"
    using div_mult_mod_eq [of "2 * ?V" "256 ^ ?n"] unfolding div by (simp add: algebra_simps)
  then have "2 * be_nat (x # y # ys) mod 256 ^ Suc ?n =
      ((2 * unat x + b) * 256 ^ ?n + 2 * ?V mod 256 ^ ?n) mod (256 ^ ?n * 256)"
    by (simp only: power_Suc mult.commute)
  also have "\<dots> = (2 * unat x mod 256 + b) * 256 ^ ?n + 2 * ?V mod 256 ^ ?n"
    by (subst mod_mult2_eq) (simp add: even)
  finally have "2 * be_nat (x # y # ys) mod 256 ^ Suc ?n = (2 * unat x mod 256 + b) * 256 ^ ?n + 2 * ?V mod 256 ^ ?n" .
  then show ?case
    using 3 unat_shl_byte [of x "y AND 0x80 \<noteq> 0"]
    by (simp only: shl1.simps be_nat.simps(2) [of "_ OR _"] length_shl1 length_Cons b_def)
qed simp

lemma cmac_shift_shl1: "length L = Suc k \<Longrightarrow> map (shl_byte L) [0..<k] @ [push_bit 1 (L ! k)] = shl1 L"
proof (induction L arbitrary: k rule: shl1.induct)
  case (3 x y ys)
  then obtain j where k: "k = Suc j" "length (y # ys) = Suc j" by (cases k) auto
  have upt: "[0..<Suc j] = 0 # map Suc [0..<j]"
    by (simp add: upt_conv_Cons map_Suc_upt del: upt_Suc)
  have "shl_byte (x # y # ys) (Suc i) = shl_byte (y # ys) i" for i by (simp add: shl_byte_def)
  then have "map (shl_byte (x # y # ys)) [0..<k] = shl_byte (x # y # ys) 0 # map (shl_byte (y # ys)) [0..<j]"
    by (simp only: k(1) upt list.map map_map comp_def)
  moreover have "shl_byte (x # y # ys) 0 = (push_bit 1 x OR (if y AND 0x80 \<noteq> 0 then 1 else 0))"
    by (simp add: shl_byte_def)
  ultimately show ?case
    unfolding shl1.simps 3(1) [OF k(2), symmetric] by (simp only: append_Cons k(1) nth_Cons_Suc)
qed auto

lemma xor_nat_low: "l < 256 \<Longrightarrow> c < 256 \<Longrightarrow> (h * 256 + l) XOR c = h * 256 + (l XOR c)" for h l c :: nat
proof -
  assume a: "l < 256" "c < 256"
  have d: "drop_bit 8 (h * 256 + l) = h" "take_bit 8 (h * 256 + l) = l" "drop_bit 8 c = 0" "take_bit 8 c = c"
    using a by (simp_all add: drop_bit_eq_div take_bit_eq_mod)
  have "push_bit 8 (drop_bit 8 ((h * 256 + l) XOR c)) + take_bit 8 ((h * 256 + l) XOR c) = h * 256 + (l XOR c)"
    by (simp add: drop_bit_xor take_bit_xor d push_bit_eq_mult)
  then show ?thesis by (simp only: bits_ident)
qed

lemma be_nat_snoc: "be_nat (xs @ [b]) = be_nat xs * 256 + unat b"
  by (induction xs) (simp_all add: algebra_simps)

lemma be_nat_Rb:
  assumes "length K = 16"
  shows "be_nat (xor_bytes K Const_Rb) = be_nat K XOR 0x87"
proof -
  obtain xs b where K: "K = xs @ [b]" "length xs = 15"
    using assms by (cases K rule: rev_cases) auto
  have "xor_bytes K Const_Rb = xs @ [b XOR 0x87]"
    using K by (simp add: Const_Rb_def xor_bytes_append)
  then show ?thesis
    by (simp add: K be_nat_snoc xor_nat_low unsigned_xor_eq)
qed

definition gf128_double :: "nat \<Rightarrow> nat" where
  "gf128_double n = (2 * n mod 2 ^ 128) XOR (if 2 ^ 127 \<le> n then 0x87 else 0)"

lemma be_nat_cmac_double:
  assumes "length L = 16"
  shows "be_nat (cmac_double L) = gf128_double (be_nat L)"
proof -
  obtain x xs where L: "L = x # xs" "length xs = 15" using assms by (cases L) auto
  have msb: "L ! 0 AND 0x80 > 0 \<longleftrightarrow> 2 ^ 127 \<le> be_nat L"
  proof -
    have "(256 :: nat) ^ Suc (length xs) = 2 * 2 ^ 127" by (simp add: L)
    then have "128 \<le> unat x \<longleftrightarrow> 2 ^ 127 \<le> be_nat (x # xs)"
      unfolding top_bit_be_nat [of x xs] by linarith
    then show ?thesis using top_bit_iff [of x] by (simp add: L(1) word_gt_0 del: be_nat.simps)
  qed
  have sh: "cmac_shift L = shl1 L"
    using cmac_shift_shl1 [of L 15] assms by (simp add: cmac_shift_def)
  show ?thesis
    using assms be_nat_shl1 [of L]
    by (simp add: cmac_double_shift msb sh be_nat_Rb gf128_double_def)
qed
lemma CCM_Encrypt_success:
  assumes "AES_CCM_Encrypt (Some ctx) P n Key KeyLength Nonce NonceLength AAD AADLength MACLength C CL = (0, C', m)"
    and "aes_ctx_wf ctx" "KeyLength \<le> length Key" "AADLength \<le> length AAD"
    and "n \<le> length P" "CL \<le> length C" "CL < 2 ^ 32" "n + MACLength < 2 ^ 32"
  shows "ccm_args_ok KeyLength NonceLength MACLength" "n + MACLength \<le> CL" "MACLength \<le> 16"
    and "length (ccm_seal (aes_cipher Key 16) Nonce NonceLength AAD AADLength MACLength (take n P)) = n + MACLength"
    and "C' = ccm_seal (aes_cipher Key 16) Nonce NonceLength AAD AADLength MACLength (take n P) @ drop (n + MACLength) C"
    and "m = n + MACLength"
proof -
  show args: "ccm_args_ok KeyLength NonceLength MACLength" and size: "n + MACLength \<le> CL"
    using assms(1,8) by (auto simp: AES_CCM_Encrypt_def ccm_args_ok_def Let_def split: if_splits)
  then show ml: "MACLength \<le> 16" by (simp add: ccm_args_ok_def ccm_mac_length_le)
  show "length (ccm_seal (aes_cipher Key 16) Nonce NonceLength AAD AADLength MACLength (take n P)) = n + MACLength"
    using assms(5) ml by (simp add: ccm_seal_def Let_def length_ctr_stream length_ccm_mac_spec)
  show "C' = ccm_seal (aes_cipher Key 16) Nonce NonceLength AAD AADLength MACLength (take n P) @ drop (n + MACLength) C"
    and "m = n + MACLength"
    using CCM_Encrypt_spec [OF assms(2) args assms(3,5,4) size assms(6,7), of Nonce] assms(1) by auto
qed

lemma Key_Unwrap_Wrap:
  assumes "aes_ctx_wf ctx" "aes_ctx_wf ctx'" "aes_key_length_ok KeyLength" "KeyLength \<le> length Key"
    and "n \<le> length P" "n + 8 < 2 ^ 32" "n + 8 \<le> length C" "n \<le> length Q"
    and "AES_Key_Wrap (Some ctx) True P n Key KeyLength C CL = (rc, C', m)"
  shows "rc = 0 \<and> m = n + 8 \<and> length C' = length C
    \<and> AES_Key_Unwrap (Some ctx') True C' m Key KeyLength Q QL = (0, take n P @ drop n Q, n)"
proof -
  let ?R = "take n P" and ?N = "n div 8"
  obtain IV' R' where wrap: "fold (wrap_step (Some ctx) Key KeyLength ?N) (wrap_order ?N) (Default_IV, ?R) = (IV', R')"
    by force
  have bound: "\<forall>ji \<in> set (wrap_order ?N). 8 * Suc (snd ji) \<le> length ?R"
    using wrap_order_bound assms(5) by simp
  have iv: "length Default_IV = 8" by (simp add: Default_IV_def)
  have len: "length IV' = 8" "length R' = n"
    using wrap_fold_length [OF assms(1,3,4) iv bound wrap] assms(5) by simp_all
  have out: "rc = 0" "C' = IV' @ R' @ drop (n + 8) C" "m = n + 8"
    using assms(3,6,7,9) len by (auto simp: AES_Key_Wrap_def Let_def wrap NdisMoveMemory_def add.commute)
  have "fold (unwrap_step (Some ctx') Key KeyLength ?N) (rev (wrap_order ?N)) (IV', R') = (Default_IV, ?R)"
    using unwrap_wrap_fold [OF assms(1-4) iv bound, of ?N] by (simp add: wrap)
  then show ?thesis
    using assms(3,5,7) len by (simp add: out AES_Key_Unwrap_def NdisMoveMemory_def)
qed

section \<open>Properties\<close>

text \<open>C6: whatever \<^verbatim>\<open>AES_CCM_Encrypt\<close> produces with return code 0, \<^verbatim>\<open>AES_CCM_Decrypt\<close> opens under the
  same key, nonce, associated data and MAC length: it returns 0, the plain text and its length,
  and leaves the rest of the output buffer alone.\<close>

theorem AES_CCM_Decrypt_Encrypt:
  assumes "AES_CCM_Encrypt (Some ctx) P n Key KeyLength Nonce NonceLength AAD AADLength MACLength C CL = (0, C', m)"
    and "aes_ctx_wf ctx" "aes_ctx_wf ctx'" "KeyLength \<le> length Key" "AADLength \<le> length AAD"
    and "n \<le> length P" "CL \<le> length C" "CL < 2 ^ 32" "n + MACLength < 2 ^ 32"
    and "n \<le> QL" "n \<le> length Q"
  shows "AES_CCM_Decrypt (Some ctx') C' m Key KeyLength Nonce NonceLength AAD AADLength MACLength Q QL =
    (0, take n P @ drop n Q, n)"
proof -
  let ?S = "ccm_seal (aes_cipher Key 16) Nonce NonceLength AAD AADLength MACLength (take n P)"
  note ok = CCM_Encrypt_success [OF assms(1,2,4-9)]
  note args = ok(1) and size = ok(2) and ml = ok(3) and len = ok(4) and C' = ok(5,6)
  have "ccm_open (aes_cipher Key 16) Nonce NonceLength AAD AADLength MACLength (take (n + MACLength) C') = (take n P, True)"
    using aes.ccm_open_seal [OF ml] by (simp add: C' len)
  from CCM_Decrypt_spec [OF assms(3) args assms(4) _ assms(5,10,11) this]
  show ?thesis using size assms(7) by (simp add: C' len)
qed

theorem AES_CCM_Decrypt_Encrypt_witness:
  "AES_CCM_Decrypt (Some aes_ctx0)
     (fst (snd (AES_CCM_Encrypt (Some aes_ctx0) [1, 2, 3] 3 (replicate 16 7) 16 (replicate 13 5) 13 [9] 1 8 (replicate 11 0) 11)))
     11 (replicate 16 7) 16 (replicate 13 5) 13 [9] 1 8 [0, 0, 0, 4] 4 = (0, [1, 2, 3, 4], 3)"
proof -
  have "AES_CCM_Encrypt (Some aes_ctx0) [1, 2, 3] 3 (replicate 16 7) 16 (replicate 13 5) 13 [9] 1 8 (replicate 11 0) 11 =
    (0, fst (snd (AES_CCM_Encrypt (Some aes_ctx0) [1, 2, 3] 3 (replicate 16 7) 16 (replicate 13 5) 13 [9] 1 8 (replicate 11 0) 11)), 11)"
    by (simp add: CCM_Encrypt_spec aes_ctx0_wf ccm_args_ok_def ccm_mac_length_ok_def)
  from AES_CCM_Decrypt_Encrypt [OF this aes_ctx0_wf aes_ctx0_wf, of 4 "[0, 0, 0, 4]"]
  show ?thesis by simp
qed

text \<open>replacing the code at the end of a cipher text by any other string of its length makes
  \<^verbatim>\<open>AES_CCM_Decrypt\<close> report that the MIC does not match (-5).\<close>

theorem AES_CCM_Decrypt_tampered:
  assumes "AES_CCM_Encrypt (Some ctx) P n Key KeyLength Nonce NonceLength AAD AADLength MACLength C CL = (0, C', m)"
    and "aes_ctx_wf ctx" "aes_ctx_wf ctx'" "KeyLength \<le> length Key" "AADLength \<le> length AAD"
    and "n \<le> length P" "CL \<le> length C" "CL < 2 ^ 32" "n + MACLength < 2 ^ 32"
    and "n \<le> QL" "n \<le> length Q" "length tag = MACLength" "tag \<noteq> drop n (take m C')"
  shows "fst (AES_CCM_Decrypt (Some ctx') (take n C' @ tag) m Key KeyLength Nonce NonceLength AAD AADLength MACLength
    Q QL) = -5"
proof -
  let ?S = "ccm_seal (aes_cipher Key 16) Nonce NonceLength AAD AADLength MACLength (take n P)"
  note ok = CCM_Encrypt_success [OF assms(1,2,4-9)]
  note args = ok(1) and size = ok(2) and ml = ok(3) and len = ok(4) and C' = ok(5,6)
  obtain Q' ok where opened: "ccm_open (aes_cipher Key 16) Nonce NonceLength AAD AADLength MACLength (take n ?S @ tag) = (Q', ok)"
    by force
  have "\<not> ok"
    using aes.ccm_open_tampered [OF ml assms(12), of "take n P" Key 16 Nonce NonceLength AAD AADLength] assms(6,13) opened len
    by (simp add: C')
  moreover have "take (n + MACLength) (take n C' @ tag) = take n ?S @ tag"
    using assms(12) len by (simp add: C')
  ultimately show ?thesis
    using CCM_Decrypt_spec [OF assms(3) args assms(4) _ assms(5,10,11), of "take n C' @ tag" Nonce Q' ok] opened assms(12) len
    by (simp add: C')
qed

theorem AES_CCM_Decrypt_tampered_witness:
  "\<exists>tag. length tag = 8 \<and>
   fst (AES_CCM_Decrypt (Some aes_ctx0)
     (take 3 (fst (snd (AES_CCM_Encrypt (Some aes_ctx0) [1, 2, 3] 3 (replicate 16 7) 16 (replicate 13 5) 13 [9] 1 8 (replicate 11 0) 11))) @ tag)
     11 (replicate 16 7) 16 (replicate 13 5) 13 [9] 1 8 [0, 0, 0] 3) = -5"
proof -
  let ?C = "fst (snd (AES_CCM_Encrypt (Some aes_ctx0) [1, 2, 3] 3 (replicate 16 7) 16 (replicate 13 5) 13 [9] 1 8 (replicate 11 0) 11))"
  have enc: "AES_CCM_Encrypt (Some aes_ctx0) [1, 2, 3] 3 (replicate 16 7) 16 (replicate 13 5) 13 [9] 1 8 (replicate 11 0) 11 = (0, ?C, 11)"
    by (simp add: CCM_Encrypt_spec aes_ctx0_wf ccm_args_ok_def ccm_mac_length_ok_def)
  obtain tag where "length tag = 8" "tag \<noteq> drop 3 (take 11 ?C)"
    by (metis length_replicate nth_replicate zero_less_numeral zero_neq_one)
  with AES_CCM_Decrypt_tampered [OF enc aes_ctx0_wf aes_ctx0_wf, of 3 "[0, 0, 0]" tag]
  show ?thesis by auto
qed

text \<open>the code of \<^verbatim>\<open>AES_CCM_MAC\<close> is the CBC-MAC of the formatting of NIST 800-38C: first block, length-prefixed
  associated data, payload, the two strings zero-padded to whole blocks; only the first
  \<^verbatim>\<open>MACLength\<close> bytes of the output are written.\<close>

theorem AES_CCM_MAC_formatting:
  assumes "aes_ctx_wf ctx" "16 \<le> length Key" "n \<le> length P" "AADLength \<le> length AAD"
  shows "AES_CCM_MAC (Some ctx) P n Key 16 Nonce NonceLength AAD AADLength MACLength T =
    NdisMoveMemory T 0 (take MACLength (cbc_mac (aes_cipher Key 16)
      (aes_cipher Key 16 (ccm_first_block n Nonce NonceLength AADLength MACLength))
      ((if AADLength = 0 then [] else blocks16 (ccm_aad_prefix AADLength @ take AADLength AAD)) @ blocks16 (take n P))))"
  using assms by (simp add: CCM_MAC_spec ccm_mac_spec_def ccm_mac_blocks_def)

theorem AES_CCM_MAC_formatting_witness:
  "AES_CCM_MAC (Some aes_ctx0) [1, 2] 2 (replicate 16 7) 16 (replicate 13 5) 13 [9] 1 8 (replicate 16 0) =
    NdisMoveMemory (replicate 16 0) 0 (take 8 (cbc_mac (aes_cipher (replicate 16 7) 16)
      (aes_cipher (replicate 16 7) 16 (ccm_first_block 2 (replicate 13 5) 13 1 8))
      (blocks16 [0, 1, 9] @ blocks16 [1, 2])))"
  using AES_CCM_MAC_formatting [of aes_ctx0 "replicate 16 7" 2 "[1, 2]" 1 "[9]" "replicate 13 5" 13 8 "replicate 16 0"] aes_ctx0_wf
  by (simp add: ccm_aad_prefix_def byte_of_def)

text \<open>\<^verbatim>\<open>AES_CMAC\<close> is the code of RFC 4493: with the subkeys obtained by doubling the encrypted zero
  block in the field of 128-bit strings, it is the CBC-MAC of the message whose last block is
  masked by \<open>K1\<close>, or padded with 10* and masked by \<open>K2\<close>.\<close>

theorem AES_CMAC_rfc4493:
  assumes "aes_ctx_wf ctx" "16 \<le> length Key" "n \<le> length P" "16 \<le> TL"
  shows "\<exists>K1 K2. length K1 = 16 \<and> length K2 = 16
    \<and> be_nat K1 = gf128_double (be_nat (aes_cipher Key 16 (replicate 16 0)))
    \<and> be_nat K2 = gf128_double (be_nat K1)
    \<and> AES_CMAC (Some ctx) P n Key 16 T TL =
        (NdisMoveMemory T 0 (cbc_mac (aes_cipher Key 16) (replicate 16 0) (cmac_blocks K1 K2 (take n P))), 16)"
proof -
  let ?K1 = "cmac_double (aes_cipher Key 16 Const_Zero)"
  have "length ?K1 = 16" by (simp add: length_cmac_double)
  then show ?thesis
    using CMAC_spec [OF assms refl, of T]
    by (intro exI [of _ ?K1] exI [of _ "cmac_double ?K1"])
       (simp add: length_cmac_double be_nat_cmac_double Const_Zero_def)
qed

theorem AES_CMAC_rfc4493_witness:
  "\<exists>K1 K2. be_nat K2 = gf128_double (be_nat K1) \<and>
    AES_CMAC (Some aes_ctx0) [1, 2] 2 (replicate 16 7) 16 (replicate 16 0) 16 =
      (NdisMoveMemory (replicate 16 0) 0 (cbc_mac (aes_cipher (replicate 16 7) 16) (replicate 16 0) (cmac_blocks K1 K2 [1, 2])), 16)"
  using AES_CMAC_rfc4493 [of aes_ctx0 "replicate 16 7" 2 "[1, 2]" 16 "replicate 16 0"] aes_ctx0_wf
  by auto

lemma CBC_Decrypt_spec:
  assumes "aes_ctx_wf ctx" "aes_key_length_ok KeyLength" "KeyLength \<le> length Key" "length IV = 16"
    and "m \<le> length C" "16 dvd m" "0 < m" "m \<le> PL" "PL < 2 ^ 32" "PL \<le> length Q" "r < 16" "4 dvd r"
    and "X = cbc_dec_bytes (aes_inv_cipher Key KeyLength) IV (take m C)"
  shows "AES_CBC_Decrypt (Some ctx) C (m + r) Key KeyLength IV 16 Q PL =
    Some (X @ drop m Q, uint_sub m (unat (X ! (m - 1))))"
proof -
  have "length X = m" using assms(4,5,6,13) by (simp add: aes.length_cbc_dec)
  moreover have "(m + r) mod 4 = 0" using assms(6,12) by presburger
  ultimately show ?thesis
    using cbc_dec_loop_bytes [OF assms(1-3,5,6,8,9,11) _ _ assms(10,4), of 0] assms
    by (simp add: AES_CBC_Decrypt_def aes_consts cbc_chain_def nth_append)
qed

text \<open>\<^verbatim>\<open>AES_CBC_Decrypt\<close> inverts \<^verbatim>\<open>AES_CBC_Encrypt\<close>: from the cipher text of \<open>n\<close> bytes under the same key
  and vector it recovers the text, and the padding it strips leaves exactly \<open>n\<close>.\<close>

theorem AES_CBC_Decrypt_Encrypt:
  assumes "aes_ctx_wf ctx" "aes_ctx_wf ctx'" "aes_key_length_ok KeyLength" "KeyLength \<le> length Key" "length IV = 16"
    and "n \<le> length P" "n + 16 \<le> CL" "CL < 2 ^ 32" "CL \<le> length C"
    and "n + 16 \<le> PL" "PL < 2 ^ 32" "PL \<le> length Q"
    and "AES_CBC_Encrypt (Some ctx) P n Key KeyLength IV 16 C CL = (C', m)"
  shows "\<exists>Q'. AES_CBC_Decrypt (Some ctx') C' m Key KeyLength IV 16 Q PL = Some (Q', n)
    \<and> take n Q' = take n P \<and> length Q' = length Q"
proof -
  define pad where "pad = 16 - n mod 16"
  let ?T = "take n P @ replicate pad (word_of_nat pad) :: bytes"
  have pad: "0 < pad" "pad \<le> 16" by (simp_all add: pad_def)
  have dvd: "16 dvd n + pad"
    unfolding pad_def using mod_less_divisor [of 16 n] by presburger
  have len: "length ?T = n + pad" using assms(6) by simp
  have C': "C' = cbc_enc_bytes (aes_cipher Key KeyLength) IV ?T @ drop (n + pad) C" "m = n + pad"
    using CBC_Encrypt_spec [OF assms(1,3-6) pad_def _ assms(8,9)] assms(7,13) pad by auto
  have "length (cbc_enc_bytes (aes_cipher Key KeyLength) IV ?T) = n + pad"
    using aes.length_cbc_enc [of ?T] dvd len by simp
  then have X: "?T = cbc_dec_bytes (aes_inv_cipher Key KeyLength) IV (take m C')" and mC: "m \<le> length C'"
    using aes.cbc_dec_enc [of ?T IV Key KeyLength] dvd len assms(5) by (simp_all add: C')
  obtain k where k: "m - 1 = n + k" "k < pad" using pad(1) C'(2) by (cases pad) simp_all
  then have "?T ! (m - 1) = word_of_nat pad" using assms(6) by (simp add: nth_append)
  moreover have "unat (word_of_nat pad :: UINT8) = pad"
    using pad by (simp add: unsigned_of_nat take_bit_nat_eq_self)
  ultimately have "AES_CBC_Decrypt (Some ctx') C' (m + 0) Key KeyLength IV 16 Q PL = Some (?T @ drop m Q, n)"
    using CBC_Decrypt_spec [OF assms(2-5) mC _ _ _ assms(11,12) _ _ X, of 0] dvd pad assms(10) by (simp add: C')
  then show ?thesis
    using assms(6,10,12) pad len by (intro exI [of _ "?T @ drop m Q"]) (simp add: C')
qed

theorem AES_CBC_Decrypt_Encrypt_witness:
  "\<exists>Q'. AES_CBC_Decrypt (Some aes_ctx0)
      (fst (AES_CBC_Encrypt (Some aes_ctx0) [1, 2, 3] 3 (replicate 24 7) 24 (replicate 16 5) 16 (replicate 32 0) 32))
      (snd (AES_CBC_Encrypt (Some aes_ctx0) [1, 2, 3] 3 (replicate 24 7) 24 (replicate 16 5) 16 (replicate 32 0) 32))
      (replicate 24 7) 24 (replicate 16 5) 16 (replicate 32 0) 32 = Some (Q', 3) \<and> take 3 Q' = [1, 2, 3]"
proof -
  note * = AES_CBC_Decrypt_Encrypt [of aes_ctx0 aes_ctx0 24 "replicate 24 7" "replicate 16 5" 3 "[1, 2, 3]" 32 "replicate 32 0"
      32 "replicate 32 0", OF _ _ _ _ _ _ _ _ _ _ _ _ prod.collapse [symmetric]]
  show ?thesis using * aes_ctx0_wf by (auto simp: aes_key_length_ok_def)
qed

text \<open>the length test of \<^verbatim>\<open>AES_CBC_Decrypt\<close> only checks for a multiple of four: up to twelve trailing
  bytes that belong to no block are accepted and silently ignored, where the comment and the
  message of the test demand a multiple of the block size.\<close>

theorem AES_CBC_Decrypt_ignores_tail:
  assumes "aes_ctx_wf ctx" "aes_key_length_ok KeyLength" "KeyLength \<le> length Key" "length IV = 16"
    and "m \<le> length C" "16 dvd m" "0 < m" "m \<le> PL" "PL < 2 ^ 32" "PL \<le> length Q" "r \<in> {4, 8, 12}"
  shows "AES_CBC_Decrypt (Some ctx) C (m + r) Key KeyLength IV 16 Q PL = AES_CBC_Decrypt (Some ctx) C m Key KeyLength IV 16 Q PL"
proof -
  have "r < 16" "4 dvd r" using assms(11) by auto
  from CBC_Decrypt_spec [OF assms(1-10) this refl] CBC_Decrypt_spec [OF assms(1-10), of 0]
  show ?thesis by simp
qed

theorem AES_CBC_Decrypt_ignores_tail_witness:
  "AES_CBC_Decrypt (Some aes_ctx0) (replicate 28 1) 28 (replicate 16 7) 16 (replicate 16 5) 16 (replicate 16 0) 16 =
   AES_CBC_Decrypt (Some aes_ctx0) (replicate 28 1) 16 (replicate 16 7) 16 (replicate 16 5) 16 (replicate 16 0) 16"
  using AES_CBC_Decrypt_ignores_tail [of aes_ctx0 16 "replicate 16 7" "replicate 16 5" 16 "replicate 28 1" 16 "replicate 16 0" 12]
    aes_ctx0_wf by simp

text \<open>C28: \<^verbatim>\<open>AES_Key_Unwrap\<close> inverts \<^verbatim>\<open>AES_Key_Wrap\<close> on keys of any length, and both report success.\<close>

theorem AES_Key_Unwrap_Wrap:
  assumes "aes_ctx_wf ctx" "aes_ctx_wf ctx'" "aes_key_length_ok KeyLength" "KeyLength \<le> length Key"
    and "n \<le> length P" "n + 8 < 2 ^ 32" "n + 8 \<le> length C" "n \<le> length Q"
    and "AES_Key_Wrap (Some ctx) True P n Key KeyLength C CL = (rc, C', m)"
  shows "rc = 0 \<and> m = n + 8 \<and> length C' = length C
    \<and> AES_Key_Unwrap (Some ctx') True C' m Key KeyLength Q QL = (0, take n P @ drop n Q, n)"
  using assms by (rule Key_Unwrap_Wrap)

theorem AES_Key_Unwrap_Wrap_witness:
  "AES_Key_Unwrap (Some aes_ctx0) True
     (fst (snd (AES_Key_Wrap (Some aes_ctx0) True (replicate 16 3) 16 (replicate 16 7) 16 (replicate 24 0) 24))) 24
     (replicate 16 7) 16 (replicate 16 0) 16 = (0, replicate 16 3, 16)"
  using AES_Key_Unwrap_Wrap [of aes_ctx0 aes_ctx0 16 "replicate 16 7" 16 "replicate 16 3" "replicate 24 0" "replicate 16 0" 24
      "fst (AES_Key_Wrap (Some aes_ctx0) True (replicate 16 3) 16 (replicate 16 7) 16 (replicate 24 0) 24)"
      "fst (snd (AES_Key_Wrap (Some aes_ctx0) True (replicate 16 3) 16 (replicate 16 7) 16 (replicate 24 0) 24))"
      "snd (snd (AES_Key_Wrap (Some aes_ctx0) True (replicate 16 3) 16 (replicate 16 7) 16 (replicate 24 0) 24))" 16] aes_ctx0_wf
  by auto

text \<open>C34: for keys of at most 42 blocks, \<^verbatim>\<open>AES_Key_Wrap\<close> computes the wrapping of RFC 3394, although it adds only
  one byte of the 64-bit step counter.\<close>

theorem AES_Key_Wrap_rfc3394:
  assumes "aes_ctx_wf ctx" "aes_key_length_ok KeyLength" "KeyLength \<le> length Key"
    and "n \<le> length P" "n div 8 \<le> 42" "n + 8 \<le> length C"
  shows "AES_Key_Wrap (Some ctx) True P n Key KeyLength C CL =
    (0, rfc3394_wrap (aes_cipher Key KeyLength) (take n P) @ drop (n + 8) C, uint_add n 8)"
proof -
  let ?R = "take n P" and ?N = "n div 8"
  obtain IV' R' where wrap: "fold (wrap_step (Some ctx) Key KeyLength ?N) (wrap_order ?N) (Default_IV, ?R) = (IV', R')"
    by force
  have bound: "\<forall>ji \<in> set (wrap_order ?N). 8 * Suc (snd ji) \<le> length ?R"
    using wrap_order_bound assms(4) by simp
  have iv: "length Default_IV = 8" "Default_IV = replicate 8 0xA6"
    by (simp_all add: Default_IV_def numeral_eq_Suc)
  have len: "length IV' = 8" "length R' = n"
    using wrap_fold_length [OF assms(1-3) iv(1) bound wrap] assms(4) by simp_all
  have order: "[(j, i). j \<leftarrow> [0..<6], i \<leftarrow> [0..<?N]] = wrap_order ?N"
    by (simp add: wrap_order_def product_concat_map)
  have "rfc3394_wrap (aes_cipher Key KeyLength) ?R = IV' @ R'"
    using wrap wrap_fold_rfc3394 [OF assms(1-3), of ?N] assms(4,5)
    by (simp only: rfc3394_wrap_def Let_def order iv(2) [symmetric] length_take min.absorb2) simp
  then show ?thesis
    using assms(2,6) len by (simp add: AES_Key_Wrap_def Let_def wrap NdisMoveMemory_def add.commute)
qed

theorem AES_Key_Wrap_rfc3394_witness:
  "AES_Key_Wrap (Some aes_ctx0) True (replicate 16 3) 16 (replicate 16 7) 16 (replicate 24 0) 24 =
    (0, rfc3394_wrap (aes_cipher (replicate 16 7) 16) (replicate 16 3), 24)"
  using AES_Key_Wrap_rfc3394 [of aes_ctx0 16 "replicate 16 7" 16 "replicate 16 3" "replicate 24 0" 24] aes_ctx0_wf
  by simp

text \<open>\<^verbatim>\<open>AES_Key_Unwrap\<close> never checks the recovered initial value: with a legal key length and memory it
  reports success for every cipher text, where RFC 3394 requires an integrity failure whenever
  that value differs from the default.\<close>

theorem AES_Key_Unwrap_unchecked:
  assumes "aes_key_length_ok KeyLength"
  shows "fst (AES_Key_Unwrap mem True CipherText CipherTextLength Key KeyLength PlainText PlainTextLength) = 0"
  using assms by (simp add: AES_Key_Unwrap_def Let_def case_prod_beta)

theorem AES_Key_Unwrap_unchecked_witness:
  "fst (AES_Key_Unwrap (Some aes_ctx0) True (replicate 24 0) 24 (replicate 16 7) 16 (replicate 16 0) 16) = 0"
  using AES_Key_Unwrap_unchecked [of 16] by simp

end
