(* ===== verification/Arc4.thy ===== *)
theory Arc4
  imports Prelude "HOL-Library.Multiset"
begin

text \<open>
  \<^verbatim>\<open>common/crypt_arc4.c\<close>: the ARC4 stream cipher.  The context keeps the two block indices
  (\<^verbatim>\<open>UINT\<close>) and the 256-byte key block.  The theory shows that every operation keeps the
  key block a permutation of all bytes and the indices in range, that the key stream does not
  depend on how the data is cut into calls, that \<open>ARC4_Discard_KeyLength\<close> advances the
  state exactly as encryption does, and that decryption undoes encryption.
\<close>

record ARC4_CTX_STRUC =
  BlockIndex1 :: UINT32
  BlockIndex2 :: UINT32
  KeyBlock :: bytes

definition ARC4_KEY_BLOCK_SIZE :: nat where
  "ARC4_KEY_BLOCK_SIZE = 256"

text \<open>
  One round of the key schedule: the loop body of \<open>ARC4_INIT\<close> at \<open>BlockIndex\<close>, on the
  pair of \<open>SWAPIndex\<close> and the key block.
\<close>

definition ARC4_INIT_body :: "bytes \<Rightarrow> nat \<Rightarrow> UINT32 \<times> bytes \<Rightarrow> UINT32 \<times> bytes" where
  "ARC4_INIT_body pKey BlockIndex = (\<lambda>(SWAPIndex, kb).
     let TempValue = kb ! BlockIndex;
         KeyIndex = BlockIndex mod length pKey;
         SWAPIndex' = (SWAPIndex + ucast TempValue + ucast (pKey ! KeyIndex)) AND 0xff;
         kb' = kb[BlockIndex := kb ! unat SWAPIndex']
     in (SWAPIndex', kb'[unat SWAPIndex' := TempValue]))"

definition ARC4_INIT :: "bytes \<Rightarrow> ARC4_CTX_STRUC" where
  "ARC4_INIT pKey =
     \<lparr>BlockIndex1 = 0, BlockIndex2 = 0,
      KeyBlock = snd (fold (ARC4_INIT_body pKey) [0..<ARC4_KEY_BLOCK_SIZE]
                        (0, map word_of_nat [0..<ARC4_KEY_BLOCK_SIZE]))\<rparr>"

text \<open>
  The state update shared by the loop bodies of \<open>ARC4_Compute\<close> and
  \<open>ARC4_Discard_KeyLength\<close>; it returns the value left in \<open>TempValue\<close>.
\<close>

definition ARC4_step :: "ARC4_CTX_STRUC \<Rightarrow> UINT8 \<times> ARC4_CTX_STRUC" where
  "ARC4_step ctx =
     (let i1 = (BlockIndex1 ctx + 1) AND 0xff;
          TempValue = KeyBlock ctx ! unat i1;
          i2 = (BlockIndex2 ctx + ucast TempValue) AND 0xff;
          kb = (KeyBlock ctx)[unat i1 := KeyBlock ctx ! unat i2];
          kb' = kb[unat i2 := TempValue]
      in (TempValue, \<lparr>BlockIndex1 = i1, BlockIndex2 = i2, KeyBlock = kb'\<rparr>))"

definition ARC4_Compute_byte :: "ARC4_CTX_STRUC \<Rightarrow> UINT8 \<Rightarrow> ARC4_CTX_STRUC \<times> UINT8" where
  "ARC4_Compute_byte ctx x =
     (let (TempValue, ctx') = ARC4_step ctx;
          TempValue' = TempValue + KeyBlock ctx' ! unat (BlockIndex1 ctx')
      in (ctx', x XOR KeyBlock ctx' ! unat TempValue'))"

fun ARC4_Compute :: "ARC4_CTX_STRUC \<Rightarrow> bytes \<Rightarrow> ARC4_CTX_STRUC \<times> bytes" where
  "ARC4_Compute ctx [] = (ctx, [])"
| "ARC4_Compute ctx (x # xs) =
     (let (ctx', y) = ARC4_Compute_byte ctx x; (ctx'', ys) = ARC4_Compute ctx' xs
      in (ctx'', y # ys))"

fun ARC4_Discard_KeyLength :: "ARC4_CTX_STRUC \<Rightarrow> nat \<Rightarrow> ARC4_CTX_STRUC" where
  "ARC4_Discard_KeyLength ctx 0 = ctx"
| "ARC4_Discard_KeyLength ctx (Suc Length) = ARC4_Discard_KeyLength (snd (ARC4_step ctx)) Length"

section \<open>The key block stays a permutation\<close>

definition arc4_wf :: "ARC4_CTX_STRUC \<Rightarrow> bool" where
  "arc4_wf ctx \<longleftrightarrow> unat (BlockIndex1 ctx) < 256 \<and> unat (BlockIndex2 ctx) < 256 \<and>
     mset (KeyBlock ctx) = mset (map word_of_nat [0..<256])"

lemma mset_length_256: "mset xs = mset (map word_of_nat [0..<256] :: bytes) \<Longrightarrow> length xs = 256"
  by (metis length_map length_upt diff_zero size_mset)

lemma mset_swap:
  assumes "i < length xs" "j < length xs"
  shows "mset (xs[i := xs ! j, j := xs ! i]) = mset xs"
  using assms by (cases "i = j") (simp_all add: mset_update nth_list_update)

lemma ARC4_step_wf: "arc4_wf ctx \<Longrightarrow> arc4_wf (snd (ARC4_step ctx))"
  by (simp add: arc4_wf_def ARC4_step_def Let_def mset_swap mset_length_256)

lemma ARC4_Compute_byte_wf: "arc4_wf ctx \<Longrightarrow> arc4_wf (fst (ARC4_Compute_byte ctx x))"
  using ARC4_step_wf [of ctx] by (simp add: ARC4_Compute_byte_def case_prod_beta)

lemma ARC4_Compute_wf: "arc4_wf ctx \<Longrightarrow> arc4_wf (fst (ARC4_Compute ctx xs))"
proof (induction xs arbitrary: ctx)
  case (Cons x xs)
  then show ?case
    using ARC4_Compute_byte_wf [of ctx x] by (simp add: Let_def case_prod_beta)
qed simp

lemma ARC4_Discard_wf: "arc4_wf ctx \<Longrightarrow> arc4_wf (ARC4_Discard_KeyLength ctx n)"
  by (induction ctx n rule: ARC4_Discard_KeyLength.induct) (simp_all add: ARC4_step_wf)

lemma ARC4_INIT_body_mset:
  assumes "mset (snd s) = mset (map word_of_nat [0..<256])" "i < 256"
  shows "mset (snd (ARC4_INIT_body pKey i s)) = mset (map word_of_nat [0..<256])"
  using assms mset_length_256 [OF assms(1)]
  by (cases s) (simp add: ARC4_INIT_body_def Let_def mset_swap)

lemma ARC4_INIT_fold_mset:
  assumes "\<forall>i \<in> set is. i < 256" "mset (snd s) = mset (map word_of_nat [0..<256])"
  shows "mset (snd (fold (ARC4_INIT_body pKey) is s)) = mset (map word_of_nat [0..<256])"
  using assms by (induction "is" arbitrary: s) (simp_all add: ARC4_INIT_body_mset del: mset_map)

lemma ARC4_INIT_wf: "arc4_wf (ARC4_INIT pKey)"
  unfolding arc4_wf_def ARC4_INIT_def ARC4_KEY_BLOCK_SIZE_def
  by (simp add: ARC4_INIT_fold_mset del: mset_map)

section \<open>Streaming and round trip\<close>

lemma length_ARC4_Compute [simp]: "length (snd (ARC4_Compute ctx xs)) = length xs"
  by (induction xs arbitrary: ctx) (simp_all add: Let_def case_prod_beta)

lemma ARC4_Compute_append:
  "ARC4_Compute ctx (xs @ ys) =
     (let (c, us) = ARC4_Compute ctx xs; (c', vs) = ARC4_Compute c ys in (c', us @ vs))"
  by (induction xs arbitrary: ctx) (simp_all add: Let_def case_prod_beta)

lemma ARC4_Compute_byte_undo:
  "ARC4_Compute_byte ctx (snd (ARC4_Compute_byte ctx x)) = (fst (ARC4_Compute_byte ctx x), x)"
  by (simp add: ARC4_Compute_byte_def Let_def xor_simps split: prod.splits)

lemma ARC4_Compute_undo:
  "ARC4_Compute ctx (snd (ARC4_Compute ctx xs)) = (fst (ARC4_Compute ctx xs), xs)"
proof (induction xs arbitrary: ctx)
  case (Cons x xs)
  obtain c y where cy: "ARC4_Compute_byte ctx x = (c, y)" by fastforce
  then have "ARC4_Compute_byte ctx y = (c, x)"
    using ARC4_Compute_byte_undo [of ctx x] by simp
  with cy Cons.IH [of c] show ?case by (simp add: Let_def case_prod_beta)
qed simp

lemma ARC4_Discard_Compute:
  "ARC4_Discard_KeyLength ctx (length xs) = fst (ARC4_Compute ctx xs)"
  by (induction xs arbitrary: ctx) (simp_all add: ARC4_Compute_byte_def Let_def split: prod.splits)

lemma ARC4_Discard_add:
  "ARC4_Discard_KeyLength ctx (m + n) = ARC4_Discard_KeyLength (ARC4_Discard_KeyLength ctx m) n"
  by (induction ctx m rule: ARC4_Discard_KeyLength.induct) simp_all

section \<open>Properties\<close>

text \<open>from any key, after discarding any amount of key stream and processing any text, the key block is
  still a permutation of the 256 bytes and both indices are below 256, so no index of the next
  call leaves the block.\<close>

theorem ARC4_permutation: "arc4_wf (fst (ARC4_Compute (ARC4_Discard_KeyLength (ARC4_INIT pKey) n) xs))"
  by (intro ARC4_Compute_wf ARC4_Discard_wf ARC4_INIT_wf)

text \<open>decryption may start anywhere: after discarding \<open>n\<close> bytes of key stream, \<^verbatim>\<open>ARC4_Compute\<close> turns the
  tail of a cipher text into the tail of the plain text, and leaves the context as the sender's.\<close>

theorem ARC4_resume:
  assumes "n \<le> length xs"
  shows "ARC4_Compute (ARC4_Discard_KeyLength ctx n) (drop n (snd (ARC4_Compute ctx xs))) =
    (fst (ARC4_Compute ctx xs), drop n xs)"
proof -
  have "ARC4_Compute ctx (take n xs @ drop n xs) =
      (let (c, us) = ARC4_Compute ctx (take n xs); (c', vs) = ARC4_Compute c (drop n xs) in (c', us @ vs))"
    by (rule ARC4_Compute_append)
  moreover have "ARC4_Discard_KeyLength ctx n = fst (ARC4_Compute ctx (take n xs))"
    using ARC4_Discard_Compute [of ctx "take n xs"] assms by simp
  moreover have "length (snd (ARC4_Compute ctx (take n xs))) = n" using assms by simp
  ultimately show ?thesis
    using ARC4_Compute_undo [of "fst (ARC4_Compute ctx (take n xs))" "drop n xs"] by (simp add: case_prod_beta)
qed

theorem ARC4_resume_witness:
  "ARC4_Compute (ARC4_Discard_KeyLength (ARC4_INIT [1, 2]) 1) (drop 1 (snd (ARC4_Compute (ARC4_INIT [1, 2]) [5, 6, 7]))) =
    (fst (ARC4_Compute (ARC4_INIT [1, 2]) [5, 6, 7]), [6, 7])"
  using ARC4_resume [of 1 "[5, 6, 7]" "ARC4_INIT [1, 2]"] by simp

end
