(* ===== verification/Wep.thy ===== *)
theory Wep
  imports Arc4
begin

text \<open>
  \<^verbatim>\<open>common/cmm_wep.c\<close>: the CRC-32 check sequence and WEP encapsulation.  The functions that
  allocate take the answers of \<^verbatim>\<open>os_alloc_mem\<close> as arguments and return, beside the code's results,
  how many of their allocations are still held.  A read outside the frame buffer is \<open>None\<close>.
\<close>

record CIPHER_KEY =
  ck_Key :: bytes
  ck_TxMic :: bytes
  ck_RxMic :: bytes
  ck_TxTsc :: bytes
  ck_RxTsc :: bytes
  ck_CipherAlg :: UINT8
  ck_KeyLen :: UINT8
  ck_BssId :: bytes
  ck_Type :: UINT8

section \<open>CRC-32\<close>

definition FCSTAB_32 :: "UINT32 list" where
  "FCSTAB_32 =
    [0x00000000, 0x77073096, 0xee0e612c, 0x990951ba, 0x076dc419, 0x706af48f, 0xe963a535, 0x9e6495a3,
     0x0edb8832, 0x79dcb8a4, 0xe0d5e91e, 0x97d2d988, 0x09b64c2b, 0x7eb17cbd, 0xe7b82d07, 0x90bf1d91,
     0x1db71064, 0x6ab020f2, 0xf3b97148, 0x84be41de, 0x1adad47d, 0x6ddde4eb, 0xf4d4b551, 0x83d385c7,
     0x136c9856, 0x646ba8c0, 0xfd62f97a, 0x8a65c9ec, 0x14015c4f, 0x63066cd9, 0xfa0f3d63, 0x8d080df5,
     0x3b6e20c8, 0x4c69105e, 0xd56041e4, 0xa2677172, 0x3c03e4d1, 0x4b04d447, 0xd20d85fd, 0xa50ab56b,
     0x35b5a8fa, 0x42b2986c, 0xdbbbc9d6, 0xacbcf940, 0x32d86ce3, 0x45df5c75, 0xdcd60dcf, 0xabd13d59,
     0x26d930ac, 0x51de003a, 0xc8d75180, 0xbfd06116, 0x21b4f4b5, 0x56b3c423, 0xcfba9599, 0xb8bda50f,
     0x2802b89e, 0x5f058808, 0xc60cd9b2, 0xb10be924, 0x2f6f7c87, 0x58684c11, 0xc1611dab, 0xb6662d3d,
     0x76dc4190, 0x01db7106, 0x98d220bc, 0xefd5102a, 0x71b18589, 0x06b6b51f, 0x9fbfe4a5, 0xe8b8d433,
     0x7807c9a2, 0x0f00f934, 0x9609a88e, 0xe10e9818, 0x7f6a0dbb, 0x086d3d2d, 0x91646c97, 0xe6635c01,
     0x6b6b51f4, 0x1c6c6162, 0x856530d8, 0xf262004e, 0x6c0695ed, 0x1b01a57b, 0x8208f4c1, 0xf50fc457,
     0x65b0d9c6, 0x12b7e950, 0x8bbeb8ea, 0xfcb9887c, 0x62dd1ddf, 0x15da2d49, 0x8cd37cf3, 0xfbd44c65,
     0x4db26158, 0x3ab551ce, 0xa3bc0074, 0xd4bb30e2, 0x4adfa541, 0x3dd895d7, 0xa4d1c46d, 0xd3d6f4fb,
     0x4369e96a, 0x346ed9fc, 0xad678846, 0xda60b8d0, 0x44042d73, 0x33031de5, 0xaa0a4c5f, 0xdd0d7cc9,
     0x5005713c, 0x270241aa, 0xbe0b1010, 0xc90c2086, 0x5768b525, 0x206f85b3, 0xb966d409, 0xce61e49f,
     0x5edef90e, 0x29d9c998, 0xb0d09822, 0xc7d7a8b4, 0x59b33d17, 0x2eb40d81, 0xb7bd5c3b, 0xc0ba6cad,
     0xedb88320, 0x9abfb3b6, 0x03b6e20c, 0x74b1d29a, 0xead54739, 0x9dd277af, 0x04db2615, 0x73dc1683,
     0xe3630b12, 0x94643b84, 0x0d6d6a3e, 0x7a6a5aa8, 0xe40ecf0b, 0x9309ff9d, 0x0a00ae27, 0x7d079eb1,
     0xf00f9344, 0x8708a3d2, 0x1e01f268, 0x6906c2fe, 0xf762575d, 0x806567cb, 0x196c3671, 0x6e6b06e7,
     0xfed41b76, 0x89d32be0, 0x10da7a5a, 0x67dd4acc, 0xf9b9df6f, 0x8ebeeff9, 0x17b7be43, 0x60b08ed5,
     0xd6d6a3e8, 0xa1d1937e, 0x38d8c2c4, 0x4fdff252, 0xd1bb67f1, 0xa6bc5767, 0x3fb506dd, 0x48b2364b,
     0xd80d2bda, 0xaf0a1b4c, 0x36034af6, 0x41047a60, 0xdf60efc3, 0xa867df55, 0x316e8eef, 0x4669be79,
     0xcb61b38c, 0xbc66831a, 0x256fd2a0, 0x5268e236, 0xcc0c7795, 0xbb0b4703, 0x220216b9, 0x5505262f,
     0xc5ba3bbe, 0xb2bd0b28, 0x2bb45a92, 0x5cb36a04, 0xc2d7ffa7, 0xb5d0cf31, 0x2cd99e8b, 0x5bdeae1d,
     0x9b64c2b0, 0xec63f226, 0x756aa39c, 0x026d930a, 0x9c0906a9, 0xeb0e363f, 0x72076785, 0x05005713,
     0x95bf4a82, 0xe2b87a14, 0x7bb12bae, 0x0cb61b38, 0x92d28e9b, 0xe5d5be0d, 0x7cdcefb7, 0x0bdbdf21,
     0x86d3d2d4, 0xf1d4e242, 0x68ddb3f8, 0x1fda836e, 0x81be16cd, 0xf6b9265b, 0x6fb077e1, 0x18b74777,
     0x88085ae6, 0xff0f6a70, 0x66063bca, 0x11010b5c, 0x8f659eff, 0xf862ae69, 0x616bffd3, 0x166ccf45,
     0xa00ae278, 0xd70dd2ee, 0x4e048354, 0x3903b3c2, 0xa7672661, 0xd06016f7, 0x4969474d, 0x3e6e77db,
     0xaed16a4a, 0xd9d65adc, 0x40df0b66, 0x37d83bf0, 0xa9bcae53, 0xdebb9ec5, 0x47b2cf7f, 0x30b5ffe9,
     0xbdbdf21c, 0xcabac28a, 0x53b39330, 0x24b4a3a6, 0xbad03605, 0xcdd70693, 0x54de5729, 0x23d967bf,
     0xb3667a2e, 0xc4614ab8, 0x5d681b02, 0x2a6f2b94, 0xb40bbe37, 0xc30c8ea1, 0x5a05df1b, 0x2d02ef8d]"

definition PPPINITFCS32 :: UINT32 where "PPPINITFCS32 = 0xffffffff"

fun RTMP_CALC_FCS32 :: "UINT32 \<Rightarrow> bytes \<Rightarrow> UINT32" where
  "RTMP_CALC_FCS32 Fcs [] = Fcs"
| "RTMP_CALC_FCS32 Fcs (c # cp) =
     RTMP_CALC_FCS32 (drop_bit 8 Fcs XOR FCSTAB_32 ! unat ((Fcs XOR ucast c) AND 0xff)) cp"

section \<open>WEP\<close>

definition LEN_WEP_TSC :: nat where "LEN_WEP_TSC = 3"
definition LEN_WEP_IV_HDR :: nat where "LEN_WEP_IV_HDR = 4"
definition LEN_ICV :: nat where "LEN_ICV = 4"

lemmas wep_consts = LEN_WEP_TSC_def LEN_WEP_IV_HDR_def LEN_ICV_def

text \<open>\<open>seed_ok\<close> is the allocation of the seed; when it fails the context keeps its contents.\<close>

definition RTMPInitWepEngine :: "bool \<Rightarrow> bytes \<Rightarrow> bytes \<Rightarrow> UINT8 \<Rightarrow> ARC4_CTX_STRUC \<Rightarrow> ARC4_CTX_STRUC" where
  "RTMPInitWepEngine seed_ok pIv pKey KeyLen ctx =
    (if \<not> seed_ok then ctx
     else
       let seed = NdisMoveMemory (NdisZeroMemory 16) 0 (take 3 pIv);
           seed = NdisMoveMemory seed 3 (take (unat KeyLen) pKey);
           seed_len = (3 + KeyLen :: UINT8)
       in ARC4_INIT (take (unat seed_len) seed))"

definition RTMPConstructWEPIVHdr :: "UINT8 \<Rightarrow> bytes \<Rightarrow> bytes \<Rightarrow> bytes" where
  "RTMPConstructWEPIVHdr key_idx pn iv_hdr =
    (let iv_hdr = NdisMoveMemory iv_hdr 0 (NdisZeroMemory LEN_WEP_IV_HDR);
         iv_hdr = NdisMoveMemory iv_hdr 0 (take LEN_WEP_TSC pn)
     in iv_hdr[3 := push_bit 6 key_idx])"

definition RTMPSoftEncryptWEP ::
  "ARC4_CTX_STRUC option \<Rightarrow> bool \<Rightarrow> bytes \<Rightarrow> CIPHER_KEY \<Rightarrow> bytes \<Rightarrow> nat \<Rightarrow> bool \<times> bytes \<times> nat" where
  "RTMPSoftEncryptWEP mem seed_ok pIvHdr pKey pData DataByteCnt =
    (case mem of None \<Rightarrow> (False, pData, 0)
     | Some ctx \<Rightarrow>
       if ck_KeyLen pKey = 0 then (False, pData, 1)
       else
         let ctx = RTMPInitWepEngine seed_ok pIvHdr (ck_Key pKey) (ck_KeyLen pKey) ctx;
             FCSCRC32 = RTMP_CALC_FCS32 PPPINITFCS32 (take DataByteCnt pData) XOR 0xffffffff;
             pData = NdisMoveMemory pData DataByteCnt (bytes_le32 FCSCRC32);
             out = snd (ARC4_Compute ctx (take (DataByteCnt + LEN_ICV) pData))
         in (True, NdisMoveMemory pData 0 out, 0))"

text \<open>
  The output of the decryption overwrites the header, four bytes below the input it reads: byte
  \<open>i\<close> is written after byte \<open>i + 4\<close> was read, so the call computes the cipher of the original
  contents.
\<close>

definition RTMPSoftDecryptWEP ::
  "ARC4_CTX_STRUC option \<Rightarrow> bool \<Rightarrow> CIPHER_KEY \<Rightarrow> bytes \<Rightarrow> UINT16 \<Rightarrow> (bool \<times> bytes \<times> UINT16 \<times> nat) option" where
  "RTMPSoftDecryptWEP mem seed_ok pKey pData DataByteCnt =
    (case mem of None \<Rightarrow> Some (False, pData, DataByteCnt, 0)
     | Some ctx \<Rightarrow>
       if ck_KeyLen pKey = 0 then Some (False, pData, DataByteCnt, 1)
       else
         let ctx = RTMPInitWepEngine seed_ok pData (ck_Key pKey) (ck_KeyLen pKey) ctx;
             ciphertext_len = DataByteCnt - 4 :: UINT16;
             plaintext_len = ciphertext_len - 4 :: UINT16
         in if LEN_WEP_IV_HDR + unat ciphertext_len > length pData
               \<or> unat plaintext_len + LEN_ICV > length pData then None
            else
              let out = snd (ARC4_Compute ctx (take (unat ciphertext_len) (drop LEN_WEP_IV_HDR pData)));
                  pData = NdisMoveMemory pData 0 out;
                  trailfcs = words_le32 (take LEN_ICV (drop (unat plaintext_len) pData)) ! 0;
                  crc32 = RTMP_CALC_FCS32 PPPINITFCS32 (take (unat plaintext_len) pData) XOR 0xffffffff
              in if crc32 \<noteq> trailfcs then Some (False, pData, DataByteCnt, 1)
                 else Some (True, pData, plaintext_len, 0))"

section \<open>The table computes the CRC-32 polynomial division\<close>

definition crc_step :: "UINT32 \<Rightarrow> UINT32" where
  "crc_step c = (if bit c 0 then drop_bit 1 c XOR 0xedb88320 else drop_bit 1 c)"

definition crc32_bitwise :: "UINT32 \<Rightarrow> bytes \<Rightarrow> UINT32" where
  "crc32_bitwise c xs = fold (\<lambda>b c. (crc_step ^^ 8) (c XOR ucast b)) xs c"

lemma crc_step_xor: "crc_step (x XOR y) = crc_step x XOR crc_step y"
  by (auto simp: crc_step_def bit_xor_iff drop_bit_xor xor.assoc xor.commute xor.left_commute)

lemma crc_steps_xor: "(crc_step ^^ n) (x XOR y) = (crc_step ^^ n) x XOR (crc_step ^^ n) y"
  by (induction n) (simp_all add: crc_step_xor)

text \<open>
  Both sides are linear, so the 32 entries with one zero nibble and the linearity of the table
  settle all of it.
\<close>

definition fcs_low :: "UINT32 list" where
  "fcs_low = [0x00000000, 0x77073096, 0xee0e612c, 0x990951ba, 0x076dc419, 0x706af48f, 0xe963a535, 0x9e6495a3,
     0x0edb8832, 0x79dcb8a4, 0xe0d5e91e, 0x97d2d988, 0x09b64c2b, 0x7eb17cbd, 0xe7b82d07, 0x90bf1d91]"

definition fcs_high :: "UINT32 list" where
  "fcs_high = [0x00000000, 0x1db71064, 0x3b6e20c8, 0x26d930ac, 0x76dc4190, 0x6b6b51f4, 0x4db26158, 0x5005713c,
     0xedb88320, 0xf00f9344, 0xd6d6a3e8, 0xcb61b38c, 0x9b64c2b0, 0x86d3d2d4, 0xa00ae278, 0xbdbdf21c]"

lemma FCSTAB_32_linear: "FCSTAB_32 = concat (map (\<lambda>h. map (\<lambda>l. h XOR l) fcs_low) fcs_high)"
  by (simp add: FCSTAB_32_def fcs_low_def fcs_high_def)

lemma crc_steps8: "(crc_step ^^ 8) x =
  crc_step (crc_step (crc_step (crc_step (crc_step (crc_step (crc_step (crc_step x)))))))"
  by (simp add: numeral_eq_Suc)

lemmas crc_step_numeral = crc_step_def [of "numeral w" for w] crc_step_def [of 0] crc_step_def [of 1]

lemma less_16_cases:
  "n < 16 \<Longrightarrow> n = 15 \<or> n = 14 \<or> n = 13 \<or> n = 12 \<or> n = 11 \<or> n = 10 \<or> n = 9 \<or> n = 8 \<or> n = 7
    \<or> n = 6 \<or> n = 5 \<or> n = 4 \<or> n = 3 \<or> n = 2 \<or> n = 1 \<or> n = (0 :: nat)"
  by presburger

lemma fcs_low_crc: "n < 16 \<Longrightarrow> fcs_low ! n = (crc_step ^^ 8) (word_of_nat n)"
proof -
  assume "n < 16"
  then show ?thesis
    by (elim less_16_cases [THEN disjE] disjE) (simp_all add: fcs_low_def crc_steps8 crc_step_numeral)
qed

lemma fcs_high_crc: "n < 16 \<Longrightarrow> fcs_high ! n = (crc_step ^^ 8) (word_of_nat (16 * n))"
proof -
  assume "n < 16"
  then show ?thesis
    by (elim less_16_cases [THEN disjE] disjE) (simp_all add: fcs_high_def crc_steps8 crc_step_numeral)
qed

lemma nth_concat_uniform:
  "\<forall>h \<in> set hs. length (f h) = k \<Longrightarrow> a < length hs \<Longrightarrow> b < k \<Longrightarrow> concat (map f hs) ! (k * a + b) = f (hs ! a) ! b"
proof (induction hs arbitrary: a)
  case (Cons h hs)
  then show ?case by (cases a) (simp_all add: nth_append algebra_simps)
qed simp

lemma unat_16_split: "(word_of_nat n :: UINT32) = word_of_nat (16 * (n div 16)) XOR word_of_nat (n mod 16)"
proof -
  have "push_bit 4 (drop_bit 4 n) XOR take_bit 4 n = n"
    by (rule bit_eqI) (auto simp: bit_simps)
  then have "n = (16 * (n div 16)) XOR (n mod 16)"
    by (simp add: push_bit_eq_mult drop_bit_eq_div take_bit_eq_mod mult.commute)
  then have "(word_of_nat n :: UINT32) = word_of_nat ((16 * (n div 16)) XOR (n mod 16))" by simp
  then show ?thesis by (simp only: of_nat_xor_eq)
qed

lemma length_fcs: "length fcs_low = 16" "length fcs_high = 16"
  by (simp_all add: fcs_low_def fcs_high_def)

lemma FCSTAB_32_crc:
  assumes "n < 256"
  shows "FCSTAB_32 ! n = (crc_step ^^ 8) (word_of_nat n)"
proof -
  have n: "n div 16 < 16" "n mod 16 < 16" "16 * (n div 16) + n mod 16 = n" using assms by simp_all
  have "FCSTAB_32 ! n = fcs_high ! (n div 16) XOR fcs_low ! (n mod 16)"
    using nth_concat_uniform [of fcs_high "\<lambda>h. map (\<lambda>l. h XOR l) fcs_low" 16 "n div 16" "n mod 16"] n
    by (simp add: FCSTAB_32_linear length_fcs)
  also have "\<dots> = (crc_step ^^ 8) (word_of_nat (16 * (n div 16)) XOR word_of_nat (n mod 16))"
    by (simp only: fcs_low_crc fcs_high_crc n crc_steps_xor)
  finally show ?thesis by (simp only: unat_16_split [of n, symmetric])
qed

lemma crc_steps_zeros: "\<forall>i < k. \<not> bit z i \<Longrightarrow> (crc_step ^^ k) z = drop_bit k z"
proof (induction k)
  case (Suc k)
  then show ?case by (simp add: crc_step_def bit_drop_bit_eq)
qed simp

lemma crc_byte:
  "(crc_step ^^ 8) (c XOR ucast (b :: UINT8)) = drop_bit 8 c XOR FCSTAB_32 ! unat ((c XOR ucast b) AND 0xff)"
proof -
  define x where "x = c XOR ucast b"
  have m: "(0xff :: UINT32) = mask 8" by (simp add: mask_eq_exp_minus_1)
  have "x = (x AND 0xff) XOR (x AND NOT 0xff)"
    unfolding m by (rule bit_word_eqI) (auto simp: bit_simps)
  then have "(crc_step ^^ 8) x = (crc_step ^^ 8) (x AND 0xff) XOR (crc_step ^^ 8) (x AND NOT 0xff)"
    by (metis crc_steps_xor)
  also have "(crc_step ^^ 8) (x AND 0xff) = FCSTAB_32 ! unat (x AND 0xff)"
    by (simp add: FCSTAB_32_crc)
  also have "(crc_step ^^ 8) (x AND NOT 0xff) = drop_bit 8 (x AND NOT 0xff)"
    unfolding m by (rule crc_steps_zeros) (auto simp: bit_simps)
  also have "drop_bit 8 (x AND NOT 0xff) = drop_bit 8 c"
    unfolding m x_def by (rule bit_word_eqI) (auto simp: bit_simps dest: bit_imp_le_length)
  finally show ?thesis by (simp add: x_def xor.commute)
qed

lemma CALC_FCS32_bitwise: "RTMP_CALC_FCS32 c xs = crc32_bitwise c xs"
  by (induction xs arbitrary: c) (simp_all add: crc32_bitwise_def crc_byte)

lemma CALC_FCS32_append: "RTMP_CALC_FCS32 c (xs @ ys) = RTMP_CALC_FCS32 (RTMP_CALC_FCS32 c xs) ys"
  by (induction xs arbitrary: c) simp_all

section \<open>Properties\<close>

text \<open>the table-driven \<^verbatim>\<open>RTMP_CALC_FCS32\<close> computes the CRC-32 register of the bit-serial definition
  (reflected polynomial 0xEDB88320) for every start value and every message.\<close>

theorem RTMP_CALC_FCS32_crc32: "RTMP_CALC_FCS32 Fcs Cp = crc32_bitwise Fcs Cp"
  by (rule CALC_FCS32_bitwise)

lemma InitWepEngine_iv: "take 3 iv = take 3 iv' \<Longrightarrow>
  RTMPInitWepEngine True iv k n ctx = RTMPInitWepEngine True iv' k n ctx'"
  by (simp add: RTMPInitWepEngine_def)

lemma SoftEncryptWEP_spec:
  assumes "ck_KeyLen pKey \<noteq> 0" "n + 4 \<le> length pData"
    and "c = RTMPInitWepEngine seed_ok hdr (ck_Key pKey) (ck_KeyLen pKey) ctx"
    and "icv = bytes_le32 (RTMP_CALC_FCS32 PPPINITFCS32 (take n pData) XOR 0xffffffff)"
  shows "RTMPSoftEncryptWEP (Some ctx) seed_ok hdr pKey pData n =
    (True, snd (ARC4_Compute c (take n pData @ icv)) @ drop (n + 4) pData, 0)"
  using assms by (simp add: RTMPSoftEncryptWEP_def Let_def wep_consts NdisMoveMemory_def min_def)

lemma SoftDecryptWEP_Encrypt:
  assumes "ck_KeyLen pKey \<noteq> 0" "length hdr = 4" "n + 4 \<le> length pData" "n + 8 < 2 ^ 16"
    and "RTMPSoftEncryptWEP (Some ctx) True hdr pKey pData n = (ok, E, held)"
  shows "ok \<and> held = 0 \<and> (\<exists>D. RTMPSoftDecryptWEP (Some ctx') True pKey (hdr @ take (n + 4) E @ rest) (word_of_nat (n + 8))
    = Some (True, D, word_of_nat n, 0) \<and> take n D = take n pData)"
proof -
  define c where "c = RTMPInitWepEngine True hdr (ck_Key pKey) (ck_KeyLen pKey) ctx"
  define icv where "icv = bytes_le32 (RTMP_CALC_FCS32 PPPINITFCS32 (take n pData) XOR 0xffffffff)"
  define ct where "ct = snd (ARC4_Compute c (take n pData @ icv))"
  have enc: "ok" "held = 0" "E = ct @ drop (n + 4) pData"
    using SoftEncryptWEP_spec [OF assms(1,3) c_def icv_def] assms(5) by (auto simp: ct_def)
  have len: "length ct = n + 4" using assms(3) by (simp add: ct_def icv_def)
  define p where "p = hdr @ ct @ rest"
  have init: "RTMPInitWepEngine True p (ck_Key pKey) (ck_KeyLen pKey) ctx' = c"
    unfolding c_def p_def by (rule InitWepEngine_iv) (simp add: assms(2))
  have cnt: "(word_of_nat (n + 8) - 4 :: UINT16) = word_of_nat (n + 4)"
      "(word_of_nat (n + 4) - 4 :: UINT16) = word_of_nat n" by simp_all
  have u: "unat (word_of_nat (n + 4) :: UINT16) = n + 4" "unat (word_of_nat n :: UINT16) = n"
    using assms(4) by (simp_all add: unsigned_of_nat take_bit_nat_eq_self del: of_nat_add)
  have dec: "snd (ARC4_Compute c (take (n + 4) (drop 4 p))) = take n pData @ icv"
    using assms(2) len ARC4_Compute_undo [of c "take n pData @ icv"] by (simp add: p_def ct_def)
  define D where "D = take n pData @ icv @ drop (n + 4) p"
  have "NdisMoveMemory p 0 (take n pData @ icv) = D"
    using assms(3) by (simp add: NdisMoveMemory_def D_def icv_def)
  moreover have "words_le32 (take 4 (drop n D)) ! 0 = RTMP_CALC_FCS32 PPPINITFCS32 (take n pData) XOR 0xffffffff"
      "take n D = take n pData"
    using assms(3) by (simp_all add: D_def icv_def)
  ultimately have "RTMPSoftDecryptWEP (Some ctx') True pKey p (word_of_nat (n + 8)) = Some (True, D, word_of_nat n, 0)"
    using assms(1,2,3) len
    by (simp only: RTMPSoftDecryptWEP_def option.case Let_def init cnt u dec wep_consts) (simp add: p_def)
  then show ?thesis using enc len \<open>take n D = take n pData\<close> by (auto simp: p_def)
qed

text \<open>a frame that \<^verbatim>\<open>RTMPSoftEncryptWEP\<close> produced, sent behind its IV header, is accepted by
  \<^verbatim>\<open>RTMPSoftDecryptWEP\<close> under the same key: the plain text is back at the start of the buffer, the
  length excludes header and ICV, and no memory is held.\<close>

theorem RTMPSoftDecryptWEP_Encrypt:
  assumes "ck_KeyLen pKey \<noteq> 0" "length hdr = 4" "n + 4 \<le> length pData" "n + 8 < 2 ^ 16"
    and "RTMPSoftEncryptWEP (Some ctx) True hdr pKey pData n = (ok, E, held)"
  shows "ok \<and> held = 0 \<and> (\<exists>D. RTMPSoftDecryptWEP (Some ctx') True pKey (hdr @ take (n + 4) E @ rest) (word_of_nat (n + 8))
    = Some (True, D, word_of_nat n, 0) \<and> take n D = take n pData)"
  by (rule SoftDecryptWEP_Encrypt [OF assms])

definition wep_key0 :: CIPHER_KEY where
  "wep_key0 = \<lparr>ck_Key = [1, 2, 3, 4, 5, 0, 0, 0, 0, 0, 0, 0, 0, 0, 0, 0], ck_TxMic = replicate 8 0, ck_RxMic = replicate 8 0,
     ck_TxTsc = replicate 16 0, ck_RxTsc = replicate 16 0, ck_CipherAlg = 1, ck_KeyLen = 5, ck_BssId = replicate 6 0, ck_Type = 0\<rparr>"

definition arc4_ctx0 :: ARC4_CTX_STRUC where
  "arc4_ctx0 = \<lparr>BlockIndex1 = 0, BlockIndex2 = 0, KeyBlock = replicate 256 0\<rparr>"

theorem RTMPSoftDecryptWEP_Encrypt_witness:
  "\<exists>E D. RTMPSoftEncryptWEP (Some arc4_ctx0) True [9, 8, 7, 0] wep_key0 [1, 2, 3, 0, 0, 0, 0] 3 = (True, E, 0)
    \<and> RTMPSoftDecryptWEP (Some arc4_ctx0) True wep_key0 ([9, 8, 7, 0] @ take 7 E) 11 = Some (True, D, 3, 0)
    \<and> take 3 D = [1, 2, 3]"
proof -
  have key: "ck_KeyLen wep_key0 \<noteq> 0" by (simp add: wep_key0_def)
  note * = RTMPSoftDecryptWEP_Encrypt [of wep_key0 "[9, 8, 7, 0]" 3 "[1, 2, 3, 0, 0, 0, 0]" arc4_ctx0 True _ 0 arc4_ctx0 "[]"]
  show ?thesis
    using * [of "fst (snd (RTMPSoftEncryptWEP (Some arc4_ctx0) True [9, 8, 7, 0] wep_key0 [1, 2, 3, 0, 0, 0, 0] 3))"] key
    by (auto simp: SoftEncryptWEP_spec [OF key _ refl refl])
qed

text \<open>\<^verbatim>\<open>RTMPSoftDecryptWEP\<close> frees its cipher context only on success: every refused frame, for a missing key or
  a wrong check sequence, leaves one allocation behind.\<close>

theorem RTMPSoftDecryptWEP_leak:
  assumes "RTMPSoftDecryptWEP (Some ctx) seed_ok pKey pData DataByteCnt = Some (ok, D, cnt, held)"
  shows "held = (if ok then 0 else 1)"
  using assms by (auto simp: RTMPSoftDecryptWEP_def Let_def split: if_splits)

theorem RTMPSoftDecryptWEP_leak_witness:
  "\<exists>held. RTMPSoftDecryptWEP (Some arc4_ctx0) True (wep_key0\<lparr>ck_KeyLen := 0\<rparr>) [] 0 = Some (False, [], 0, held) \<and> 0 < held"
proof -
  have *: "RTMPSoftDecryptWEP (Some arc4_ctx0) True (wep_key0\<lparr>ck_KeyLen := 0\<rparr>) [] 0 = Some (False, [], 0, 1)"
    by (simp add: RTMPSoftDecryptWEP_def)
  with RTMPSoftDecryptWEP_leak [OF *] show ?thesis by simp
qed

end
