(* ===== verification/Tkip.thy ===== *)
theory Tkip
  imports Wep AesTables
begin

text \<open>
  \<^verbatim>\<open>common/cmm_tkip.c\<close>: the Michael message integrity code, the TKIP key mixing function, TKIP
  decapsulation and the RC4 wrapping of group keys.  \<^verbatim>\<open>ULONG\<close> and \<^verbatim>\<open>UINT\<close> have 32 bits on the
  target.  The S-box tables, declared as \<^verbatim>\<open>UINT\<close> arrays, hold bytes.
\<close>

section \<open>Michael\<close>

definition ROL32 :: "UINT32 \<Rightarrow> nat \<Rightarrow> UINT32" where
  "ROL32 A n = push_bit n A OR (drop_bit (32 - n) A AND (push_bit n 1 - 1))"

definition ROR32 :: "UINT32 \<Rightarrow> nat \<Rightarrow> UINT32" where
  "ROR32 A n = ROL32 A (32 - n)"

record TKIP_KEY_INFO =
  nBytesInM :: nat
  IV16 :: UINT32
  IV32 :: UINT32
  K0 :: UINT32
  K1 :: UINT32
  L :: UINT32
  R :: UINT32
  M :: UINT32
  RC4KEY :: bytes
  MIC :: bytes

definition RTMPTkipGetUInt32 :: "bytes \<Rightarrow> UINT32" where
  "RTMPTkipGetUInt32 pMICKey = fold (\<lambda>i res. res OR push_bit (8 * i) (ucast (pMICKey ! i))) [0..<4] 0"

definition RTMPTkipPutUInt32 :: "UINT32 \<Rightarrow> bytes" where
  "RTMPTkipPutUInt32 val = map (\<lambda>i. ucast (drop_bit (8 * i) val AND 0xff)) [0..<4]"

definition RTMPTkipSetMICKey :: "TKIP_KEY_INFO \<Rightarrow> bytes \<Rightarrow> TKIP_KEY_INFO" where
  "RTMPTkipSetMICKey pTkip pMICKey =
    (let k0 = RTMPTkipGetUInt32 pMICKey; k1 = RTMPTkipGetUInt32 (drop 4 pMICKey)
     in pTkip\<lparr>K0 := k0, K1 := k1, L := k0, R := k1, nBytesInM := 0, M := 0\<rparr>)"

definition RTMPTkipAppendByte :: "UINT8 \<Rightarrow> TKIP_KEY_INFO \<Rightarrow> TKIP_KEY_INFO" where
  "RTMPTkipAppendByte uChar t =
    (let t = t\<lparr>M := M t OR push_bit (8 * nBytesInM t) (ucast uChar)\<rparr>;
         t = t\<lparr>nBytesInM := nBytesInM t + 1\<rparr>
     in if nBytesInM t \<ge> 4 then
          let t = t\<lparr>L := L t XOR M t\<rparr>;
              t = t\<lparr>R := R t XOR ROL32 (L t) 17\<rparr>;
              t = t\<lparr>L := L t + R t\<rparr>;
              t = t\<lparr>R := R t XOR (drop_bit 8 (L t AND 0xff00ff00) OR push_bit 8 (L t AND 0x00ff00ff))\<rparr>;
              t = t\<lparr>L := L t + R t\<rparr>;
              t = t\<lparr>R := R t XOR ROL32 (L t) 3\<rparr>;
              t = t\<lparr>L := L t + R t\<rparr>;
              t = t\<lparr>R := R t XOR ROR32 (L t) 2\<rparr>;
              t = t\<lparr>L := L t + R t\<rparr>
          in t\<lparr>M := 0, nBytesInM := 0\<rparr>
        else t)"

fun RTMPTkipAppend :: "TKIP_KEY_INFO \<Rightarrow> bytes \<Rightarrow> TKIP_KEY_INFO" where
  "RTMPTkipAppend t [] = t"
| "RTMPTkipAppend t (x # xs) = RTMPTkipAppend (RTMPTkipAppendByte x t) xs"

lemma nBytesInM_AppendByte:
  "nBytesInM (RTMPTkipAppendByte x t) = (if nBytesInM t \<ge> 3 then 0 else nBytesInM t + 1)"
  by (simp add: RTMPTkipAppendByte_def Let_def)

function tkip_pad_loop :: "TKIP_KEY_INFO \<Rightarrow> TKIP_KEY_INFO" where
  "tkip_pad_loop t = (if nBytesInM t \<noteq> 0 then tkip_pad_loop (RTMPTkipAppendByte 0 t) else t)"
  by pat_completeness auto
termination
  by (relation "measure (\<lambda>t. if nBytesInM t = 0 then 0 else 5 - min (nBytesInM t) 4)")
     (auto simp: nBytesInM_AppendByte)

declare tkip_pad_loop.simps [simp del]

definition RTMPTkipGetMIC :: "TKIP_KEY_INFO \<Rightarrow> TKIP_KEY_INFO" where
  "RTMPTkipGetMIC t =
    (let t = RTMPTkipAppendByte 0x5a t;
         t = RTMPTkipAppendByte 0 t;
         t = RTMPTkipAppendByte 0 t;
         t = RTMPTkipAppendByte 0 t;
         t = RTMPTkipAppendByte 0 t;
         t = tkip_pad_loop t
     in t\<lparr>MIC := RTMPTkipPutUInt32 (L t) @ RTMPTkipPutUInt32 (R t)\<rparr>)"

text \<open>The part of \<^verbatim>\<open>PRIVATE_STRUC\<close> that the code uses.\<close>

record PRIVATE_STRUC =
  Tx :: TKIP_KEY_INFO
  Rx :: TKIP_KEY_INFO

text \<open>\<^verbatim>\<open>(PUCHAR)&Priority\<close> is the little-endian image of the \<^verbatim>\<open>ULONG\<close>; the argument \<^verbatim>\<open>pKey\<close> is not used.\<close>

definition tkip_mic_header :: "TKIP_KEY_INFO \<Rightarrow> bytes \<Rightarrow> bytes \<Rightarrow> UINT8 \<Rightarrow> bytes \<Rightarrow> TKIP_KEY_INFO" where
  "tkip_mic_header t pDA pSA UserPriority pMICKey =
    (let t = RTMPTkipSetMICKey t pMICKey;
         t = RTMPTkipAppend t (take 6 pDA);
         t = RTMPTkipAppend t (take 6 pSA)
     in RTMPTkipAppend t (bytes_le32 (ucast UserPriority)))"

definition RTMPInitMICEngine :: "PRIVATE_STRUC \<Rightarrow> bytes \<Rightarrow> bytes \<Rightarrow> UINT8 \<Rightarrow> bytes \<Rightarrow> PRIVATE_STRUC" where
  "RTMPInitMICEngine pAd pDA pSA UserPriority pMICKey =
     pAd\<lparr>Tx := tkip_mic_header (Tx pAd) pDA pSA UserPriority pMICKey\<rparr>"

definition RTMPTkipCompareMICValue ::
  "PRIVATE_STRUC \<Rightarrow> bytes \<Rightarrow> bytes \<Rightarrow> bytes \<Rightarrow> bytes \<Rightarrow> UINT8 \<Rightarrow> nat \<Rightarrow> bool \<times> PRIVATE_STRUC" where
  "RTMPTkipCompareMICValue pAd pSrc pDA pSA pMICKey UserPriority Len =
    (let t = tkip_mic_header (Rx pAd) pDA pSA UserPriority pMICKey;
         t = RTMPTkipAppend t (take Len pSrc);
         OldMic = take 8 (drop Len pSrc);
         t = RTMPTkipGetMIC t
     in (MIC t = OldMic, pAd\<lparr>Rx := t\<rparr>))"

text \<open>
  \<^verbatim>\<open>RTMP_QueryPacketInfo\<close> and \<^verbatim>\<open>RTMP_GET_PACKET_UP\<close> belong to the operating system layer: the packet's
  buffer \<open>pSrcBuf\<close> and its \<open>UserPriority\<close> are arguments.
\<close>

definition RTMPCalculateMICValue ::
  "PRIVATE_STRUC \<Rightarrow> bytes \<Rightarrow> UINT8 \<Rightarrow> bytes option \<Rightarrow> CIPHER_KEY \<Rightarrow> PRIVATE_STRUC" where
  "RTMPCalculateMICValue pAd pSrcBuf UserPriority pEncap pKey =
    (let vlan_offset = (if unat (pSrcBuf ! 12) * 256 + unat (pSrcBuf ! 13) = 0x8100 then 4 else 0);
         pAd = RTMPInitMICEngine pAd pSrcBuf (drop 6 pSrcBuf) UserPriority (ck_TxMic pKey);
         pAd = (case pEncap of None \<Rightarrow> pAd
                | Some enc \<Rightarrow>
                    let pAd = pAd\<lparr>Tx := RTMPTkipAppend (Tx pAd) (take 6 enc)\<rparr>
                    in pAd\<lparr>Tx := RTMPTkipAppend (Tx pAd) (take 2 (drop (12 + vlan_offset) pSrcBuf))\<rparr>);
         pAd = pAd\<lparr>Tx := RTMPTkipAppend (Tx pAd) (drop (14 + vlan_offset) pSrcBuf)\<rparr>
     in pAd\<lparr>Tx := RTMPTkipGetMIC (Tx pAd)\<rparr>)"

section \<open>Key mixing\<close>

definition Tkip_Sbox_Lower :: bytes where
  "Tkip_Sbox_Lower =
    [0xa5, 0x84, 0x99, 0x8d, 0x0d, 0xbd, 0xb1, 0x54, 0x50, 0x03, 0xa9, 0x7d, 0x19, 0x62, 0xe6, 0x9a,
     0x45, 0x9d, 0x40, 0x87, 0x15, 0xeb, 0xc9, 0x0b, 0xec, 0x67, 0xfd, 0xea, 0xbf, 0xf7, 0x96, 0x5b,
     0xc2, 0x1c, 0xae, 0x6a, 0x5a, 0x41, 0x02, 0x4f, 0x5c, 0xf4, 0x34, 0x08, 0x93, 0x73, 0x53, 0x3f,
     0x0c, 0x52, 0x65, 0x5e, 0x28, 0xa1, 0x0f, 0xb5, 0x09, 0x36, 0x9b, 0x3d, 0x26, 0x69, 0xcd, 0x9f,
     0x1b, 0x9e, 0x74, 0x2e, 0x2d, 0xb2, 0xee, 0xfb, 0xf6, 0x4d, 0x61, 0xce, 0x7b, 0x3e, 0x71, 0x97,
     0xf5, 0x68, 0x00, 0x2c, 0x60, 0x1f, 0xc8, 0xed, 0xbe, 0x46, 0xd9, 0x4b, 0xde, 0xd4, 0xe8, 0x4a,
     0x6b, 0x2a, 0xe5, 0x16, 0xc5, 0xd7, 0x55, 0x94, 0xcf, 0x10, 0x06, 0x81, 0xf0, 0x44, 0xba, 0xe3,
     0xf3, 0xfe, 0xc0, 0x8a, 0xad, 0xbc, 0x48, 0x04, 0xdf, 0xc1, 0x75, 0x63, 0x30, 0x1a, 0x0e, 0x6d,
     0x4c, 0x14, 0x35, 0x2f, 0xe1, 0xa2, 0xcc, 0x39, 0x57, 0xf2, 0x82, 0x47, 0xac, 0xe7, 0x2b, 0x95,
     0xa0, 0x98, 0xd1, 0x7f, 0x66, 0x7e, 0xab, 0x83, 0xca, 0x29, 0xd3, 0x3c, 0x79, 0xe2, 0x1d, 0x76,
     0x3b, 0x56, 0x4e, 0x1e, 0xdb, 0x0a, 0x6c, 0xe4, 0x5d, 0x6e, 0xef, 0xa6, 0xa8, 0xa4, 0x37, 0x8b,
     0x32, 0x43, 0x59, 0xb7, 0x8c, 0x64, 0xd2, 0xe0, 0xb4, 0xfa, 0x07, 0x25, 0xaf, 0x8e, 0xe9, 0x18,
     0xd5, 0x88, 0x6f, 0x72, 0x24, 0xf1, 0xc7, 0x51, 0x23, 0x7c, 0x9c, 0x21, 0xdd, 0xdc, 0x86, 0x85,
     0x90, 0x42, 0xc4, 0xaa, 0xd8, 0x05, 0x01, 0x12, 0xa3, 0x5f, 0xf9, 0xd0, 0x91, 0x58, 0x27, 0xb9,
     0x38, 0x13, 0xb3, 0x33, 0xbb, 0x70, 0x89, 0xa7, 0xb6, 0x22, 0x92, 0x20, 0x49, 0xff, 0x78, 0x7a,
     0x8f, 0xf8, 0x80, 0x17, 0xda, 0x31, 0xc6, 0xb8, 0xc3, 0xb0, 0x77, 0x11, 0xcb, 0xfc, 0xd6, 0x3a]"

definition Tkip_Sbox_Upper :: bytes where
  "Tkip_Sbox_Upper =
    [0xc6, 0xf8, 0xee, 0xf6, 0xff, 0xd6, 0xde, 0x91, 0x60, 0x02, 0xce, 0x56, 0xe7, 0xb5, 0x4d, 0xec,
     0x8f, 0x1f, 0x89, 0xfa, 0xef, 0xb2, 0x8e, 0xfb, 0x41, 0xb3, 0x5f, 0x45, 0x23, 0x53, 0xe4, 0x9b,
     0x75, 0xe1, 0x3d, 0x4c, 0x6c, 0x7e, 0xf5, 0x83, 0x68, 0x51, 0xd1, 0xf9, 0xe2, 0xab, 0x62, 0x2a,
     0x08, 0x95, 0x46, 0x9d, 0x30, 0x37, 0x0a, 0x2f, 0x0e, 0x24, 0x1b, 0xdf, 0xcd, 0x4e, 0x7f, 0xea,
     0x12, 0x1d, 0x58, 0x34, 0x36, 0xdc, 0xb4, 0x5b, 0xa4, 0x76, 0xb7, 0x7d, 0x52, 0xdd, 0x5e, 0x13,
     0xa6, 0xb9, 0x00, 0xc1, 0x40, 0xe3, 0x79, 0xb6, 0xd4, 0x8d, 0x67, 0x72, 0x94, 0x98, 0xb0, 0x85,
     0xbb, 0xc5, 0x4f, 0xed, 0x86, 0x9a, 0x66, 0x11, 0x8a, 0xe9, 0x04, 0xfe, 0xa0, 0x78, 0x25, 0x4b,
     0xa2, 0x5d, 0x80, 0x05, 0x3f, 0x21, 0x70, 0xf1, 0x63, 0x77, 0xaf, 0x42, 0x20, 0xe5, 0xfd, 0xbf,
     0x81, 0x18, 0x26, 0xc3, 0xbe, 0x35, 0x88, 0x2e, 0x93, 0x55, 0xfc, 0x7a, 0xc8, 0xba, 0x32, 0xe6,
     0xc0, 0x19, 0x9e, 0xa3, 0x44, 0x54, 0x3b, 0x0b, 0x8c, 0xc7, 0x6b, 0x28, 0xa7, 0xbc, 0x16, 0xad,
     0xdb, 0x64, 0x74, 0x14, 0x92, 0x0c, 0x48, 0xb8, 0x9f, 0xbd, 0x43, 0xc4, 0x39, 0x31, 0xd3, 0xf2,
     0xd5, 0x8b, 0x6e, 0xda, 0x01, 0xb1, 0x9c, 0x49, 0xd8, 0xac, 0xf3, 0xcf, 0xca, 0xf4, 0x47, 0x10,
     0x6f, 0xf0, 0x4a, 0x5c, 0x38, 0x57, 0x73, 0x97, 0xcb, 0xa1, 0xe8, 0x3e, 0x96, 0x61, 0x0d, 0x0f,
     0xe0, 0x7c, 0x71, 0xcc, 0x90, 0x06, 0xf7, 0x1c, 0xc2, 0x6a, 0xae, 0x69, 0x17, 0x99, 0x3a, 0x27,
     0xd9, 0xeb, 0x2b, 0x22, 0xd2, 0xa9, 0x07, 0x33, 0x2d, 0x3c, 0x15, 0xc9, 0x87, 0xaa, 0x50, 0xa5,
     0x03, 0x59, 0x09, 0x1a, 0x65, 0xd7, 0x84, 0xd0, 0x82, 0x29, 0x5a, 0x1e, 0x7b, 0xa8, 0x6d, 0x2c]"

definition tkip_sbox :: "UINT32 \<Rightarrow> UINT32" where
  "tkip_sbox index =
    (let index_low = unat index mod 256;
         index_high = unat (drop_bit 8 index) mod 256;
         left = ucast (Tkip_Sbox_Lower ! index_low) + ucast (Tkip_Sbox_Upper ! index_low) * 256;
         right = ucast (Tkip_Sbox_Upper ! index_high) + ucast (Tkip_Sbox_Lower ! index_high) * 256
     in left XOR right)"

definition rotr1 :: "UINT32 \<Rightarrow> UINT32" where
  "rotr1 a =
    (let b = (if a AND 0x01 = 0x01 then drop_bit 1 a OR 0x8000 else drop_bit 1 a AND 0x7fff)
     in b mod 65536)"

text \<open>\<open>key16 key j\<close> is the expression \<^verbatim>\<open>(256*key[j+1]) + key[j]\<close>.\<close>

definition key16 :: "bytes \<Rightarrow> nat \<Rightarrow> UINT32" where
  "key16 key j = 256 * ucast (key ! (j + 1)) + ucast (key ! j)"

definition tkip_phase1_step :: "bytes \<Rightarrow> nat \<Rightarrow> UINT32 list \<Rightarrow> UINT32 list" where
  "tkip_phase1_step key i p1k =
    (let j = 2 * (i mod 2);
         p1k = p1k[0 := (p1k ! 0 + tkip_sbox ((p1k ! 4 XOR key16 key j) mod 65536)) mod 65536];
         p1k = p1k[1 := (p1k ! 1 + tkip_sbox ((p1k ! 0 XOR key16 key (4 + j)) mod 65536)) mod 65536];
         p1k = p1k[2 := (p1k ! 2 + tkip_sbox ((p1k ! 1 XOR key16 key (8 + j)) mod 65536)) mod 65536];
         p1k = p1k[3 := (p1k ! 3 + tkip_sbox ((p1k ! 2 XOR key16 key (12 + j)) mod 65536)) mod 65536];
         p1k = p1k[4 := (p1k ! 4 + tkip_sbox ((p1k ! 3 XOR key16 key j) mod 65536)) mod 65536]
     in p1k[4 := (p1k ! 4 + word_of_nat i) mod 65536])"

definition tkip_phase1 :: "bytes \<Rightarrow> bytes \<Rightarrow> UINT32 \<Rightarrow> UINT32 list" where
  "tkip_phase1 key ta pnh =
    (let tsc0 = drop_bit 16 pnh mod 65536; tsc1 = pnh mod 65536
     in fold (tkip_phase1_step key) [0..<8] [tsc1, tsc0, key16 ta 0, key16 ta 2, key16 ta 4])"

definition tkip_phase2 :: "bytes \<Rightarrow> UINT32 list \<Rightarrow> UINT32 \<Rightarrow> bytes" where
  "tkip_phase2 key p1k pnl =
    (let tsc2 = pnl mod 65536;
         ppk0 = p1k ! 0; ppk1 = p1k ! 1; ppk2 = p1k ! 2; ppk3 = p1k ! 3; ppk4 = p1k ! 4;
         ppk5 = (p1k ! 4 + tsc2) mod 65536;
         ppk0 = ppk0 + tkip_sbox ((ppk5 XOR key16 key 0) mod 65536);
         ppk1 = ppk1 + tkip_sbox ((ppk0 XOR key16 key 2) mod 65536);
         ppk2 = ppk2 + tkip_sbox ((ppk1 XOR key16 key 4) mod 65536);
         ppk3 = ppk3 + tkip_sbox ((ppk2 XOR key16 key 6) mod 65536);
         ppk4 = ppk4 + tkip_sbox ((ppk3 XOR key16 key 8) mod 65536);
         ppk5 = ppk5 + tkip_sbox ((ppk4 XOR key16 key 10) mod 65536);
         ppk0 = ppk0 + rotr1 (ppk5 XOR key16 key 12);
         ppk1 = ppk1 + rotr1 (ppk0 XOR key16 key 14);
         ppk2 = ppk2 + rotr1 ppk1;
         ppk3 = ppk3 + rotr1 ppk2;
         ppk4 = ppk4 + rotr1 ppk3;
         ppk5 = ppk5 + rotr1 ppk4;
         b = (\<lambda>v :: UINT32. ucast (v mod 256) :: UINT8)
     in [b (drop_bit 8 tsc2), ucast (((drop_bit 8 tsc2 mod 256) OR 0x20) AND 0x7f), b tsc2,
         b (drop_bit 1 (ppk5 XOR key16 key 0)),
         b ppk0, b (drop_bit 8 ppk0), b ppk1, b (drop_bit 8 ppk1),
         b ppk2, b (drop_bit 8 ppk2), b ppk3, b (drop_bit 8 ppk3),
         b ppk4, b (drop_bit 8 ppk4), b ppk5, b (drop_bit 8 ppk5)])"

definition RTMPTkipMixKey :: "bytes \<Rightarrow> bytes \<Rightarrow> UINT32 \<Rightarrow> UINT32 \<Rightarrow> bytes \<times> UINT32 list" where
  "RTMPTkipMixKey key ta pnl pnh =
    (let p1k = tkip_phase1 key ta pnh in (tkip_phase2 key p1k pnl, p1k))"

section \<open>Decapsulation\<close>

definition LEN_TKIP_IV_HDR :: nat where "LEN_TKIP_IV_HDR = 8"
definition LEN_TKIP_MIC :: nat where "LEN_TKIP_MIC = 8"

text \<open>What a MIC failure triggers: a report to the supplicant (saying whether the key is pairwise) or
  the driver's own countermeasures.\<close>

datatype mic_event = MicFailureToSupplicant bool | ReportMicError

definition PAIRWISEKEY :: UINT8 where "PAIRWISEKEY = 1"

text \<open>
  The addresses of a frame by its DS bits, in the order destination, transmitter, source; the
  802.11 header keeps \<^verbatim>\<open>Addr1\<close>, \<^verbatim>\<open>Addr2\<close>, \<^verbatim>\<open>Addr3\<close> at offsets 4, 10, 16 and \<^verbatim>\<open>Octet\<close> at 24.
\<close>

definition tkip_addresses :: "bytes \<Rightarrow> bytes \<times> bytes \<times> bytes" where
  "tkip_addresses pHdr =
    (let from_ds = drop_bit 1 (pHdr ! 1 AND 0x2); to_ds = pHdr ! 1 AND 0x1;
         Addr1 = take 6 (drop 4 pHdr); Addr2 = take 6 (drop 10 pHdr);
         Addr3 = take 6 (drop 16 pHdr); Octet = take 6 (drop 24 pHdr)
     in if to_ds = 0 \<and> from_ds = 1 then (Addr1, Addr2, Addr3)
        else if to_ds = 0 \<and> from_ds = 0 then (Addr1, Addr2, Addr2)
        else if to_ds = 1 \<and> from_ds = 0 then (Addr3, Addr2, Addr2)
        else (Addr3, Addr2, Octet))"

definition RTMPSoftDecryptTKIP ::
  "bool \<Rightarrow> PRIVATE_STRUC \<Rightarrow> bytes \<Rightarrow> UINT8 \<Rightarrow> CIPHER_KEY \<Rightarrow> bytes \<Rightarrow> nat
    \<Rightarrow> (bool \<times> PRIVATE_STRUC \<times> bytes \<times> nat \<times> mic_event option) option" where
  "RTMPSoftDecryptTKIP WpaSupplicantUP pAd pHdr UserPriority pKey pData DataByteCnt =
    (if ck_KeyLen pKey = 0 then Some (False, pAd, pData, DataByteCnt, None)
     else
       let (DA, TA, SA) = tkip_addresses pHdr;
           pnl = push_bit 8 (ucast (pData ! 0)) OR ucast (pData ! 2);
           pnh = words_le32 (take 4 (drop 4 pData)) ! 0;
           RC4Key = fst (RTMPTkipMixKey (ck_Key pKey) TA pnl pnh);
           ciphertext_len = uint_sub DataByteCnt LEN_TKIP_IV_HDR;
           plaintext_len = uint_sub ciphertext_len LEN_ICV
       in if length pData < 8 \<or> LEN_TKIP_IV_HDR + ciphertext_len > length pData
             \<or> plaintext_len + LEN_ICV > length pData then None
          else
            let out = snd (ARC4_Compute (ARC4_INIT RC4Key) (take ciphertext_len (drop LEN_TKIP_IV_HDR pData)));
                pData = NdisMoveMemory pData 0 out;
                trailfcs = words_le32 (take LEN_ICV (drop plaintext_len pData)) ! 0;
                crc32 = RTMP_CALC_FCS32 PPPINITFCS32 (take plaintext_len pData) XOR 0xffffffff
            in if crc32 \<noteq> trailfcs then Some (False, pAd, pData, DataByteCnt, None)
               else
                 let plaintext_len = uint_sub plaintext_len LEN_TKIP_MIC
                 in if plaintext_len + LEN_TKIP_MIC > length pData then None
                    else
                      let TrailMIC = take LEN_TKIP_MIC (drop plaintext_len pData);
                          pAd = RTMPInitMICEngine pAd DA SA UserPriority (ck_RxMic pKey);
                          pAd = pAd\<lparr>Tx := RTMPTkipAppend (Tx pAd) (take plaintext_len pData)\<rparr>;
                          pAd = pAd\<lparr>Tx := RTMPTkipGetMIC (Tx pAd)\<rparr>
                      in if MIC (Tx pAd) \<noteq> TrailMIC then
                           Some (False, pAd, pData, DataByteCnt,
                             Some (if WpaSupplicantUP then MicFailureToSupplicant (ck_Type pKey = PAIRWISEKEY)
                                   else ReportMicError))
                         else Some (True, pAd, pData, plaintext_len, None))"

section \<open>Group key wrapping\<close>

definition TKIP_GTK_KEY_WRAP :: "bool \<Rightarrow> bytes \<Rightarrow> bytes \<Rightarrow> bytes \<Rightarrow> nat \<Rightarrow> bytes \<Rightarrow> bytes" where
  "TKIP_GTK_KEY_WRAP alloc_ok key iv input_text input_len output_text =
    (if \<not> alloc_ok then output_text
     else
       let ekey = take 16 iv @ take 16 key;
           ctx = ARC4_INIT ekey;
           ctx = ARC4_Discard_KeyLength ctx 256
       in NdisMoveMemory output_text 0 (snd (ARC4_Compute ctx (take input_len input_text))))"

definition TKIP_GTK_KEY_UNWRAP :: "bool \<Rightarrow> bytes \<Rightarrow> bytes \<Rightarrow> bytes \<Rightarrow> nat \<Rightarrow> bytes \<Rightarrow> bytes" where
  "TKIP_GTK_KEY_UNWRAP alloc_ok key iv input_text input_len output_text =
     TKIP_GTK_KEY_WRAP alloc_ok key iv input_text input_len output_text"

section \<open>Michael against its definition\<close>

definition xswap :: "UINT32 \<Rightarrow> UINT32" where
  "xswap l = drop_bit 8 (l AND 0xff00ff00) OR push_bit 8 (l AND 0x00ff00ff)"

definition michael_block :: "UINT32 \<times> UINT32 \<Rightarrow> UINT32 \<times> UINT32" where
  "michael_block = (\<lambda>(l, r).
    let r = r XOR word_rotl 17 l; l = l + r; r = r XOR xswap l; l = l + r;
        r = r XOR word_rotl 3 l; l = l + r; r = r XOR word_rotr 2 l; l = l + r
    in (l, r))"

definition michael_words :: "UINT32 list \<Rightarrow> UINT32 \<times> UINT32 \<Rightarrow> UINT32 \<times> UINT32" where
  "michael_words ws s = fold (\<lambda>m (l, r). michael_block (l XOR m, r)) ws s"

definition michael_pad :: "bytes \<Rightarrow> bytes" where
  "michael_pad msg = msg @ 0x5a # replicate (4 + (3 - length msg mod 4)) 0"

definition michael :: "bytes \<Rightarrow> bytes \<Rightarrow> bytes" where
  "michael key msg =
    (let (l, r) = michael_words (words_le32 (michael_pad msg))
       (words_le32 (take 4 key) ! 0, words_le32 (take 4 (drop 4 key)) ! 0)
     in bytes_le32 l @ bytes_le32 r)"

lemma bit_rotl_32:
  assumes "n < 32" "i < 32"
  shows "bit (word_rotl n (A :: UINT32)) i \<longleftrightarrow> bit A (if n \<le> i then i - n else i + (32 - n))"
proof -
  have "bit (word_rotl n A) i \<longleftrightarrow> bit A ((i + (32 - n)) mod 32)"
    using assms by (simp only: bit_word_rotl_iff) simp
  moreover have "(i + (32 - n)) mod 32 = (if n \<le> i then i - n else i + (32 - n))"
    using assms by (simp add: mod_if)
  ultimately show ?thesis by (simp only:)
qed

lemma ROL32_rotl:
  assumes "0 < n" "n < 32"
  shows "ROL32 A n = word_rotl n A"
proof (rule bit_word_eqI)
  fix i assume "i < LENGTH(32)"
  then have i: "i < 32" by simp
  have m: "(push_bit n 1 - 1 :: UINT32) = mask n" by (simp add: mask_eq_exp_minus_1 push_bit_eq_mult)
  have "\<not> bit A (32 - n + i)" if "n \<le> i" using that assms by (auto dest: bit_imp_le_length)
  then show "bit (ROL32 A n) i = bit (word_rotl n A) i"
    unfolding ROL32_def m bit_rotl_32 [OF assms(2) i] using assms i
    by (auto simp: bit_simps add.commute)
qed

lemma ROR32_rotr: "ROR32 A 2 = word_rotr 2 A"
proof -
  have "word_rotr 2 A = word_rotl 30 A"
  proof (rule bit_word_eqI)
    fix i assume i: "i < LENGTH(32)"
    have "bit (word_rotr 2 A) i \<longleftrightarrow> bit A ((i + 2) mod 32)"
      using i by (simp only: bit_word_rotr_iff) simp
    moreover have "(i + 2) mod 32 = (if 30 \<le> i then i - 30 else i + 2)" using i by (simp add: mod_if)
    ultimately show "bit (word_rotr 2 A) i = bit (word_rotl 30 A) i" using i by (simp add: bit_rotl_32)
  qed
  then show ?thesis by (simp add: ROR32_def ROL32_rotl)
qed

lemma GetUInt32_le32: "RTMPTkipGetUInt32 (a # b # c # d # xs) = le32 a b c d"
  by (simp add: RTMPTkipGetUInt32_def le32_def be32_def upt_rec or.assoc or.commute or.left_commute)

lemma PutUInt32_le32: "RTMPTkipPutUInt32 w = bytes_le32 w"
proof -
  have "ucast (v AND 0xff :: UINT32) = (ucast v :: UINT8)" for v
  proof -
    have "v AND 0xff = take_bit 8 v" by (simp add: take_bit_eq_mask mask_eq_exp_minus_1)
    then show ?thesis by (simp add: bit_word_eqI bit_simps)
  qed
  then show ?thesis
    by (simp add: RTMPTkipPutUInt32_def bytes_le32_def bytes_be32_def upt_rec)
qed

lemma Append_append: "RTMPTkipAppend t (xs @ ys) = RTMPTkipAppend (RTMPTkipAppend t xs) ys"
  by (induction xs arbitrary: t) simp_all

lemma nBytesInM_AppendByte_mod:
  "nBytesInM t < 4 \<Longrightarrow> nBytesInM (RTMPTkipAppendByte x t) = (nBytesInM t + 1) mod 4"
  by (cases "nBytesInM t = 3") (auto simp: nBytesInM_AppendByte)

lemma nBytesInM_Append:
  "nBytesInM t < 4 \<Longrightarrow> nBytesInM (RTMPTkipAppend t xs) = (nBytesInM t + length xs) mod 4"
proof (induction xs arbitrary: t)
  case (Cons x xs)
  then show ?case by (simp add: nBytesInM_AppendByte_mod mod_simps)
qed simp

lemma AppendByte_partial:
  "nBytesInM t < 3 \<Longrightarrow> RTMPTkipAppendByte x t =
     t\<lparr>M := M t OR push_bit (8 * nBytesInM t) (ucast x), nBytesInM := nBytesInM t + 1\<rparr>"
  by (simp add: RTMPTkipAppendByte_def Let_def)

lemma AppendByte_full:
  "nBytesInM t = 3 \<Longrightarrow> RTMPTkipAppendByte x t =
    (let (l, r) = michael_block (L t XOR (M t OR push_bit 24 (ucast x)), R t)
     in t\<lparr>L := l, R := r, M := 0, nBytesInM := 0\<rparr>)"
  by (simp add: RTMPTkipAppendByte_def michael_block_def Let_def xswap_def ROL32_rotl ROR32_rotr)

lemma Append_4:
  assumes "nBytesInM t = 0" "M t = 0"
  shows "RTMPTkipAppend t (a # b # c # d # xs) =
    (let (l, r) = michael_block (L t XOR le32 a b c d, R t) in RTMPTkipAppend (t\<lparr>L := l, R := r\<rparr>) xs)"
proof -
  have "ucast a OR push_bit 8 (ucast b) OR push_bit 16 (ucast c) OR push_bit 24 (ucast d) = le32 a b c d"
    by (simp only: le32_def be32_def or.assoc or.commute or.left_commute)
  with assms show ?thesis
    by (cases t) (simp add: AppendByte_partial AppendByte_full case_prod_beta or.assoc)
qed

lemma Append_words:
  "nBytesInM t = 0 \<Longrightarrow> M t = 0 \<Longrightarrow> 4 dvd length xs \<Longrightarrow>
   RTMPTkipAppend t xs = (let (l, r) = michael_words (words_le32 xs) (L t, R t) in t\<lparr>L := l, R := r\<rparr>)"
proof (induction xs arbitrary: t rule: words_le32.induct)
  case (1 a b c d xs)
  from 1(4) have "4 dvd length xs" by simp presburger
  with 1 show ?case
    by (simp add: Append_4 michael_words_def case_prod_beta Let_def del: RTMPTkipAppend.simps)
qed (auto simp: michael_words_def dest: dvd_imp_le)

lemma pad_loop_Append:
  "nBytesInM t < 4 \<Longrightarrow> tkip_pad_loop t = RTMPTkipAppend t (replicate ((4 - nBytesInM t) mod 4) 0)"
proof (induction t rule: tkip_pad_loop.induct)
  case (1 t)
  show ?case
  proof (cases "nBytesInM t = 0")
    case True
    then show ?thesis by (simp add: tkip_pad_loop.simps)
  next
    case False
    let ?n = "nBytesInM (RTMPTkipAppendByte 0 t)"
    have n: "?n = (nBytesInM t + 1) mod 4" using "1.prems" by (rule nBytesInM_AppendByte_mod)
    from False "1.prems" consider "nBytesInM t = 1" | "nBytesInM t = 2" | "nBytesInM t = 3" by linarith
    then have "(4 - nBytesInM t) mod 4 = Suc ((4 - (nBytesInM t + 1) mod 4) mod 4)"
      by cases simp_all
    then have "replicate ((4 - nBytesInM t) mod 4) 0 = 0 # replicate ((4 - ?n) mod 4) (0 :: UINT8)"
      by (simp only: n replicate_Suc)
    with 1 False n show ?thesis by (subst tkip_pad_loop.simps) simp
  qed
qed

lemma GetMIC_Append:
  assumes "nBytesInM t = length xs mod 4"
  shows "RTMPTkipGetMIC t = (let t' = RTMPTkipAppend t (drop (length xs) (michael_pad xs))
     in t'\<lparr>MIC := bytes_le32 (L t') @ bytes_le32 (R t')\<rparr>)"
proof -
  let ?t = "RTMPTkipAppend t [0x5a, 0, 0, 0, 0]"
  have n: "nBytesInM ?t = (length xs + 5) mod 4"
    using assms nBytesInM_Append [of t "[0x5a, 0, 0, 0, 0]"] by (simp add: mod_simps add.commute)
  have k: "length xs mod 4 < 4" by simp
  have five: "(length xs + 5) mod 4 = (length xs mod 4 + 1) mod 4" by presburger
  from k consider "length xs mod 4 = 0" | "length xs mod 4 = 1" | "length xs mod 4 = 2" | "length xs mod 4 = 3"
    by linarith
  then have "(4 - nBytesInM ?t) mod 4 = 3 - length xs mod 4"
    unfolding n five by cases simp_all
  then have "tkip_pad_loop ?t = RTMPTkipAppend ?t (replicate (3 - length xs mod 4) 0)"
    using n by (subst pad_loop_Append) simp_all
  also have "\<dots> = RTMPTkipAppend t (drop (length xs) (michael_pad xs))"
  proof -
    have "replicate 4 (0 :: UINT8) = [0, 0, 0, 0]" by (simp add: numeral_eq_Suc)
    then have "drop (length xs) (michael_pad xs) = [0x5a, 0, 0, 0, 0] @ replicate (3 - length xs mod 4) 0"
      unfolding michael_pad_def replicate_add by simp
    then show ?thesis by (simp only: Append_append)
  qed
  finally show ?thesis
    by (simp add: RTMPTkipGetMIC_def PutUInt32_le32 Let_def)
qed

lemma michael_correct:
  assumes "length key = 8"
  shows "MIC (RTMPTkipGetMIC (RTMPTkipAppend (RTMPTkipSetMICKey t key) xs)) = michael key xs"
proof -
  let ?t = "RTMPTkipSetMICKey t key"
  have t0: "nBytesInM ?t = 0" "M ?t = 0" by (simp_all add: RTMPTkipSetMICKey_def Let_def)
  obtain a b c d e f g h where key: "key = [a, b, c, d, e, f, g, h]"
    using assms by (auto simp: eval_nat_numeral length_Suc_conv)
  have lr: "L ?t = words_le32 (take 4 key) ! 0" "R ?t = words_le32 (take 4 (drop 4 key)) ! 0"
    by (simp_all add: RTMPTkipSetMICKey_def Let_def key GetUInt32_le32)
  have pad: "michael_pad xs = xs @ drop (length xs) (michael_pad xs)" by (simp add: michael_pad_def)
  have "4 dvd length (michael_pad xs)" unfolding michael_pad_def by simp presburger
  note w = Append_words [OF t0 this]
  have "RTMPTkipAppend (RTMPTkipAppend ?t xs) (drop (length xs) (michael_pad xs)) = RTMPTkipAppend ?t (michael_pad xs)"
    using pad by (metis Append_append)
  then show ?thesis
    using GetMIC_Append [of "RTMPTkipAppend ?t xs" xs] t0 nBytesInM_Append [of ?t xs]
    by (simp add: w lr michael_def Let_def case_prod_beta)
qed

section \<open>The key mixing function against its 16-bit definition\<close>

lemma Tkip_Sbox_Upper_aes: "Tkip_Sbox_Upper = map xtime aes_sbox_enc"
  by code_simp

lemma Tkip_Sbox_Lower_aes: "Tkip_Sbox_Lower = map (\<lambda>b. xtime b XOR b) aes_sbox_enc"
  by code_simp

text \<open>The S-box of IEEE 802.11: two byte tables made of the AES S-box, one swapped.\<close>

definition tkip_T :: "UINT8 \<Rightarrow> UINT16" where
  "tkip_T i = (let b = aes_sbox_enc ! unat i in push_bit 8 (ucast (xtime b)) OR ucast (xtime b XOR b))"

definition swap16 :: "UINT16 \<Rightarrow> UINT16" where
  "swap16 v = push_bit 8 v OR drop_bit 8 v"

definition tkip_S :: "UINT16 \<Rightarrow> UINT16" where
  "tkip_S v = tkip_T (ucast v) XOR swap16 (tkip_T (ucast (drop_bit 8 v)))"

definition mk16 :: "bytes \<Rightarrow> nat \<Rightarrow> UINT16" where
  "mk16 xs j = push_bit 8 (ucast (xs ! (j + 1))) OR ucast (xs ! j)"

fun tkip_p1 :: "bytes \<Rightarrow> nat \<Rightarrow> UINT16 \<times> UINT16 \<times> UINT16 \<times> UINT16 \<times> UINT16 \<Rightarrow> UINT16 \<times> UINT16 \<times> UINT16 \<times> UINT16 \<times> UINT16" where
  "tkip_p1 tk i (a, b, c, d, e) =
    (let j = 2 * (i mod 2);
         a = a + tkip_S (e XOR mk16 tk j);
         b = b + tkip_S (a XOR mk16 tk (4 + j));
         c = c + tkip_S (b XOR mk16 tk (8 + j));
         d = d + tkip_S (c XOR mk16 tk (12 + j));
         e = e + tkip_S (d XOR mk16 tk j) + word_of_nat i
     in (a, b, c, d, e))"

definition tkip_p2 :: "bytes \<Rightarrow> UINT16 \<times> UINT16 \<times> UINT16 \<times> UINT16 \<times> UINT16 \<Rightarrow> UINT16 \<Rightarrow> bytes" where
  "tkip_p2 tk = (\<lambda>(a, b, c, d, e) iv16.
    let f = e + iv16;
        a = a + tkip_S (f XOR mk16 tk 0);
        b = b + tkip_S (a XOR mk16 tk 2);
        c = c + tkip_S (b XOR mk16 tk 4);
        d = d + tkip_S (c XOR mk16 tk 6);
        e = e + tkip_S (d XOR mk16 tk 8);
        f = f + tkip_S (e XOR mk16 tk 10);
        a = a + word_rotr 1 (f XOR mk16 tk 12);
        b = b + word_rotr 1 (a XOR mk16 tk 14);
        c = c + word_rotr 1 b;
        d = d + word_rotr 1 c;
        e = e + word_rotr 1 d;
        f = f + word_rotr 1 e;
        hi = ucast (drop_bit 8 iv16) :: UINT8
    in [hi, (hi OR 0x20) AND 0x7f, ucast iv16, ucast (drop_bit 1 (f XOR mk16 tk 0)),
        ucast a, ucast (drop_bit 8 a), ucast b, ucast (drop_bit 8 b), ucast c, ucast (drop_bit 8 c),
        ucast d, ucast (drop_bit 8 d), ucast e, ucast (drop_bit 8 e), ucast f, ucast (drop_bit 8 f)])"

lemma mod_65536: "(x :: UINT32) mod 65536 = take_bit 16 x"
  by (simp add: take_bit_eq_mod)

lemma mod_256: "(x :: UINT32) mod 256 = take_bit 8 x"
  by (simp add: take_bit_eq_mod)

named_theorems tkip_down \<open>truncation of the 32-bit variables of the code to 16 bits\<close>

lemma down_add [tkip_down]: "(ucast (a + b :: UINT32) :: UINT16) = ucast a + ucast b"
  by (simp add: word_uint_eq_iff unsigned_ucast_eq uint_word_arith_bintrs take_bit_eq_mod mod_simps mod_mod_cancel)

lemma down_xor [tkip_down]: "(ucast (a XOR b :: UINT32) :: UINT16) = ucast a XOR ucast b"
  by (rule bit_word_eqI) (auto simp: bit_simps)

lemma down_mod [tkip_down]: "(ucast (a mod 65536 :: UINT32) :: UINT16) = ucast a"
  unfolding mod_65536 by (rule bit_word_eqI) (auto simp: bit_simps)

lemma up_down [tkip_down]: "(ucast (ucast (a :: UINT32) :: UINT16) :: UINT32) = a mod 65536"
  unfolding mod_65536 by (rule bit_word_eqI) (auto simp: bit_simps)

lemma down_up [tkip_down]: "(ucast (ucast (a :: UINT16) :: UINT32) :: UINT16) = a"
  by (rule bit_word_eqI) (auto simp: bit_simps)

lemma down_byte [tkip_down]:
  "(ucast (a mod 256 :: UINT32) :: UINT8) = ucast (ucast a :: UINT16)"
  "(ucast (ucast (drop_bit 8 a :: UINT32) :: UINT16) :: UINT8) = ucast (drop_bit 8 (ucast a :: UINT16))"
  "(ucast (ucast (drop_bit (Suc 0) a :: UINT32) :: UINT16) :: UINT8) = ucast (drop_bit (Suc 0) (ucast a :: UINT16))"
  unfolding mod_256 by (rule bit_word_eqI; auto simp: bit_simps)+

lemma byte_pair: "256 * ucast (h :: UINT8) + ucast (l :: UINT8) = (push_bit 8 (ucast h) OR ucast l :: UINT32)"
proof -
  have "256 * ucast h + ucast l = (push_bit 8 (ucast h) + ucast l :: UINT32)" by (simp add: push_bit_eq_mult)
  also have "\<dots> = push_bit 8 (ucast h) OR ucast l"
    by (rule disjunctive_add) (auto simp: bit_simps dest: bit_imp_le_length [of l])
  finally show ?thesis .
qed

lemma down_key16 [tkip_down]: "(ucast (key16 key j) :: UINT16) = mk16 key j"
  unfolding key16_def byte_pair mk16_def by (rule bit_word_eqI) (auto simp: bit_simps)

lemma rotr1_rotr: "rotr1 a = ucast (word_rotr 1 (ucast a :: UINT16))"
proof (rule bit_word_eqI)
  fix i assume i: "i < LENGTH(32)"
  have odd: "a AND 1 = 1 \<longleftrightarrow> bit a 0" by (simp add: and_one_eq bit_0 odd_iff_mod_2_eq_one)
  have c: "(0x7fff :: UINT32) = mask 15" by (simp add: mask_eq_exp_minus_1)
  have "(0x8000 :: int) = 2 ^ 15" by simp
  then have c': "bit (0x8000 :: int) i \<longleftrightarrow> i = 15" by (simp only: bit_exp_iff) auto
  have l: "bit (rotr1 a) i \<longleftrightarrow> i < 16 \<and> (if i = 15 then bit a 0 else bit a (i + 1))"
    unfolding rotr1_def Let_def mod_65536 odd c using i
    by (auto simp: bit_simps c')
  have "bit (word_rotr 1 (ucast a :: UINT16)) i \<longleftrightarrow> bit (ucast a :: UINT16) ((i + 1) mod 16)" if "i < 16"
    using that by (simp only: bit_word_rotr_iff) simp
  moreover have "(i + 1) mod 16 = (if i = 15 then 0 else i + 1)" if "i < 16" using that by (simp add: mod_if)
  ultimately have "bit (ucast (word_rotr 1 (ucast a :: UINT16)) :: UINT32) i \<longleftrightarrow> i < 16 \<and> (if i = 15 then bit a 0 else bit a (i + 1))"
    using i by (auto simp: bit_simps dest: bit_imp_le_length [of "word_rotr 1 _"])
  with l show "bit (rotr1 a) i = bit (ucast (word_rotr 1 (ucast a :: UINT16)) :: UINT32) i" by (simp only:)
qed

lemma length_aes_sbox_enc: "length aes_sbox_enc = 256"
  by (simp add: aes_sbox_enc_def)

lemma tkip_sbox_S: "tkip_sbox x = ucast (tkip_S (ucast x))"
proof -
  have low: "unat x mod 256 = unat (ucast (ucast x :: UINT16) :: UINT8)"
    and high: "unat (drop_bit 8 x) mod 256 = unat (ucast (drop_bit 8 (ucast x :: UINT16)) :: UINT8)"
  proof -
    have u: "unat (ucast y :: UINT8) = unat y mod 256" for y :: UINT32
      by (simp only: unsigned_ucast_eq unsigned_take_bit_eq) (simp add: take_bit_eq_mod)
    have "(ucast (ucast x :: UINT16) :: UINT8) = ucast x"
      "(ucast (drop_bit 8 (ucast x :: UINT16)) :: UINT8) = ucast (drop_bit 8 x)"
      by (rule bit_word_eqI; auto simp: bit_simps)+
    then show "unat x mod 256 = unat (ucast (ucast x :: UINT16) :: UINT8)"
      "unat (drop_bit 8 x) mod 256 = unat (ucast (drop_bit 8 (ucast x :: UINT16)) :: UINT8)"
      by (simp_all only: u)
  qed
  have pair: "ucast l + ucast h * 256 = (ucast (push_bit 8 (ucast h) OR ucast l :: UINT16) :: UINT32)" for h l :: UINT8
  proof -
    have "ucast l + ucast h * 256 = (push_bit 8 (ucast h) OR ucast l :: UINT32)"
      using byte_pair [of h l] by (simp only: mult.commute add.commute)
    also have "\<dots> = ucast (push_bit 8 (ucast h) OR ucast l :: UINT16)"
      by (rule bit_word_eqI) (auto simp: bit_simps dest: bit_imp_le_length)
    finally show ?thesis .
  qed
  have swap: "swap16 (push_bit 8 (ucast h) OR ucast l) = push_bit 8 (ucast l) OR ucast h" for h l :: UINT8
    unfolding swap16_def by (rule bit_word_eqI) (auto simp: bit_simps dest: bit_imp_le_length)
  have nth: "map f aes_sbox_enc ! unat b = f (aes_sbox_enc ! unat b)" for f :: "UINT8 \<Rightarrow> UINT8" and b :: UINT8
    by (simp add: length_aes_sbox_enc)
  show ?thesis
    unfolding tkip_sbox_def Let_def low high Tkip_Sbox_Upper_aes Tkip_Sbox_Lower_aes nth pair tkip_S_def tkip_T_def swap
    by (rule unsigned_xor_eq [symmetric])
qed

lemma down_sbox [tkip_down]: "(ucast (tkip_sbox (x mod 65536)) :: UINT16) = tkip_S (ucast x)"
  by (simp add: tkip_sbox_S tkip_down)

lemma down_rotr1 [tkip_down]: "(ucast (rotr1 x) :: UINT16) = word_rotr 1 (ucast x)"
  by (simp add: rotr1_rotr down_up)

definition p1k_up :: "UINT16 \<times> UINT16 \<times> UINT16 \<times> UINT16 \<times> UINT16 \<Rightarrow> UINT32 list" where
  "p1k_up = (\<lambda>(a, b, c, d, e). [ucast a, ucast b, ucast c, ucast d, ucast e])"

text \<open>A 16-bit step of the code, read at 16 bits.\<close>

lemma add_sbox: "(x + tkip_sbox ((y XOR k) mod 65536)) mod 65536
    = (ucast ((ucast x :: UINT16) + tkip_S (ucast y XOR ucast k)) :: UINT32)"
  using up_down [of "x + tkip_sbox ((y XOR k) mod 65536)"] by (simp add: down_add down_sbox down_xor)

lemma add_nat_16: "(ucast (e :: UINT16) + word_of_nat i) mod 65536 = (ucast (e + word_of_nat i) :: UINT32)"
proof -
  have "(ucast (word_of_nat i :: UINT32) :: UINT16) = word_of_nat i"
    by (simp add: word_unat_eq_iff unsigned_ucast_eq unsigned_of_nat)
  then show ?thesis using up_down [of "ucast e + word_of_nat i"] by (simp add: down_add down_up)
qed

lemma phase1_step: "tkip_phase1_step key i (p1k_up s) = p1k_up (tkip_p1 key i s)"
  by (cases s) (simp add: tkip_phase1_step_def p1k_up_def Let_def add_sbox down_up down_key16 add_nat_16)

lemma phase1_fold: "fold (tkip_phase1_step key) is (p1k_up s) = p1k_up (fold (tkip_p1 key) is s)"
  by (induction "is" arbitrary: s) (simp_all add: phase1_step)

definition tkip_ttak :: "bytes \<Rightarrow> bytes \<Rightarrow> UINT32 \<Rightarrow> UINT16 \<times> UINT16 \<times> UINT16 \<times> UINT16 \<times> UINT16" where
  "tkip_ttak tk ta iv32 =
     fold (tkip_p1 tk) [0..<8] (ucast iv32, ucast (drop_bit 16 iv32), mk16 ta 0, mk16 ta 2, mk16 ta 4)"

lemma key16_up: "key16 key j = ucast (mk16 key j)"
  unfolding key16_def byte_pair mk16_def
  by (rule bit_word_eqI) (auto simp: bit_simps dest: bit_imp_le_length)

lemma phase1_ttak: "tkip_phase1 key ta pnh = p1k_up (tkip_ttak key ta pnh)"
proof -
  have "[pnh mod 65536, drop_bit 16 pnh mod 65536, key16 ta 0, key16 ta 2, key16 ta 4] =
      p1k_up (ucast pnh, ucast (drop_bit 16 pnh), mk16 ta 0, mk16 ta 2, mk16 ta 4)"
    by (simp add: p1k_up_def up_down key16_up)
  then show ?thesis by (simp only: tkip_phase1_def Let_def phase1_fold [symmetric] tkip_ttak_def)
qed

lemma phase2_p2: "tkip_phase2 key (p1k_up s) pnl = tkip_p2 key s (ucast pnl)"
proof -
  have hi: "ucast ((drop_bit 8 (pnl mod 65536) mod 256 OR 0x20) AND 0x7f) =
      ((ucast (drop_bit 8 (ucast pnl :: UINT16)) OR 0x20) AND 0x7f :: UINT8)"
    using down_byte(2) [of "pnl mod 65536"] by (simp add: down_mod down_byte(1) unsigned_and_eq unsigned_or_eq)
  show ?thesis
    by (cases s) (simp add: tkip_phase2_def tkip_p2_def p1k_up_def Let_def tkip_down hi del: drop_bit_xor)
qed

section \<open>Messages\<close>

text \<open>The message that the code authenticates: addresses, priority, data.\<close>

definition mic_message :: "bytes \<Rightarrow> bytes \<Rightarrow> UINT8 \<Rightarrow> bytes \<Rightarrow> bytes" where
  "mic_message DA SA prio xs = take 6 DA @ take 6 SA @ [prio, 0, 0, 0] @ xs"

lemma bytes_le32_prio: "bytes_le32 (ucast (prio :: UINT8)) = [prio, 0, 0, 0]"
  unfolding bytes_le32_def bytes_be32_def
  by (simp, intro conjI; (rule bit_word_eqI, auto simp: bit_simps dest: bit_imp_le_length))

lemma mic_header_michael:
  assumes "length key = 8"
  shows "MIC (RTMPTkipGetMIC (RTMPTkipAppend (tkip_mic_header t DA SA prio key) xs)) = michael key (mic_message DA SA prio xs)"
  using michael_correct [OF assms, of t "mic_message DA SA prio xs"]
  by (simp only: tkip_mic_header_def Let_def bytes_le32_prio mic_message_def Append_append)

lemma length_michael [simp]: "length (michael key xs) = 8"
  by (simp add: michael_def case_prod_beta)

section \<open>Properties\<close>

text \<open>C35: \<^verbatim>\<open>RTMPTkipMixKey\<close>, which works on 32-bit variables and reduces some intermediate sums and not others,
  computes the two phases of the TKIP mixing function of IEEE 802.11, defined on 16-bit words with
  the S-box made of the AES S-box, for every key, address and sequence counter.\<close>

theorem RTMPTkipMixKey_reference:
  "RTMPTkipMixKey key ta pnl pnh =
    (tkip_p2 key (tkip_ttak key ta pnh) (ucast pnl), p1k_up (tkip_ttak key ta pnh))"
  by (simp add: RTMPTkipMixKey_def Let_def phase1_ttak phase2_p2)

text \<open>\<^verbatim>\<open>RTMPTkipCompareMICValue\<close> accepts a message exactly when the eight bytes behind it are its Michael code over
  destination, source, priority and data; it changes only the receive state.\<close>

theorem RTMPTkipCompareMICValue_michael:
  assumes "length pMICKey = 8"
  shows "(fst (RTMPTkipCompareMICValue pAd pSrc pDA pSA pMICKey UserPriority Len) \<longleftrightarrow>
      take 8 (drop Len pSrc) = michael pMICKey (mic_message pDA pSA UserPriority (take Len pSrc)))
    \<and> Tx (snd (RTMPTkipCompareMICValue pAd pSrc pDA pSA pMICKey UserPriority Len)) = Tx pAd"
  using assms by (auto simp: RTMPTkipCompareMICValue_def Let_def mic_header_michael)

definition tkip_info0 :: TKIP_KEY_INFO where
  "tkip_info0 = \<lparr>nBytesInM = 0, IV16 = 0, IV32 = 0, K0 = 0, K1 = 0, L = 0, R = 0, M = 0, RC4KEY = replicate 16 0, MIC = replicate 8 0\<rparr>"

definition private0 :: PRIVATE_STRUC where "private0 = \<lparr>Tx = tkip_info0, Rx = tkip_info0\<rparr>"

theorem RTMPTkipCompareMICValue_michael_witness:
  "fst (RTMPTkipCompareMICValue private0 ([1, 2] @ michael (replicate 8 3) (mic_message (replicate 6 4) (replicate 6 5) 0 [1, 2]))
     (replicate 6 4) (replicate 6 5) (replicate 8 3) 0 2)"
  using RTMPTkipCompareMICValue_michael [of "replicate 8 3" private0
      "[1, 2] @ michael (replicate 8 3) (mic_message (replicate 6 4) (replicate 6 5) 0 [1, 2])" "replicate 6 4" "replicate 6 5" 0 2]
  by simp

lemma CalculateMICValue_michael:
  assumes "length (ck_TxMic pKey) = 8"
    and "v = (if unat (pSrcBuf ! 12) * 256 + unat (pSrcBuf ! 13) = 0x8100 then 4 else 0)"
    and "msdu = (case pEncap of None \<Rightarrow> [] | Some enc \<Rightarrow> take 6 enc @ take 2 (drop (12 + v) pSrcBuf)) @ drop (14 + v) pSrcBuf"
  shows "MIC (Tx (RTMPCalculateMICValue pAd pSrcBuf UserPriority pEncap pKey)) =
    michael (ck_TxMic pKey) (mic_message pSrcBuf (drop 6 pSrcBuf) UserPriority msdu)"
  unfolding assms(3) mic_header_michael [OF assms(1), of "Tx pAd", symmetric]
  by (cases pEncap)
     (simp_all add: RTMPCalculateMICValue_def RTMPInitMICEngine_def Let_def assms(2) [symmetric] Append_append)

text \<open>the code computed for an outgoing packet by \<^verbatim>\<open>RTMPCalculateMICValue\<close>, with or without VLAN tag and LLC
  encapsulation, is accepted by \<^verbatim>\<open>RTMPTkipCompareMICValue\<close> at a receiver that uses the same MIC key.\<close>

theorem RTMPCalculateMICValue_accepted:
  assumes "length (ck_TxMic pKey) = 8"
    and "v = (if unat (pSrcBuf ! 12) * 256 + unat (pSrcBuf ! 13) = 0x8100 then 4 else 0)"
    and "msdu = (case pEncap of None \<Rightarrow> [] | Some enc \<Rightarrow> take 6 enc @ take 2 (drop (12 + v) pSrcBuf)) @ drop (14 + v) pSrcBuf"
  shows "fst (RTMPTkipCompareMICValue pAd'
      (msdu @ MIC (Tx (RTMPCalculateMICValue pAd pSrcBuf UserPriority pEncap pKey)))
      pSrcBuf (drop 6 pSrcBuf) (ck_TxMic pKey) UserPriority (length msdu))"
  using CalculateMICValue_michael [OF assms] assms(1)
  by (simp add: RTMPTkipCompareMICValue_def Let_def mic_header_michael)

theorem RTMPCalculateMICValue_accepted_witness:
  "fst (RTMPTkipCompareMICValue private0
      ([0xaa, 0xaa, 3, 0, 0, 0, 8, 0, 1, 2] @ MIC (Tx (RTMPCalculateMICValue private0
         [1, 1, 1, 1, 1, 1, 2, 2, 2, 2, 2, 2, 8, 0, 1, 2] 0 (Some [0xaa, 0xaa, 3, 0, 0, 0]) wep_key0)))
      [1, 1, 1, 1, 1, 1, 2, 2, 2, 2, 2, 2, 8, 0, 1, 2] [2, 2, 2, 2, 2, 2, 8, 0, 1, 2] (ck_TxMic wep_key0) 0 (length [0xaa, 0xaa, 3, 0, 0, 0, 8, 0, 1, 2 :: UINT8]))"
  using RTMPCalculateMICValue_accepted [of wep_key0 0 "[1, 1, 1, 1, 1, 1, 2, 2, 2, 2, 2, 2, 8, 0, 1, 2]"
      "[0xaa, 0xaa, 3, 0, 0, 0, 8, 0, 1, 2]" "Some [0xaa, 0xaa, 3, 0, 0, 0]" private0 private0 0]
  by (simp add: wep_key0_def)

text \<open>a group key wrapped by \<^verbatim>\<open>TKIP_GTK_KEY_WRAP\<close> is recovered by \<^verbatim>\<open>TKIP_GTK_KEY_UNWRAP\<close> with the same key
  encryption key and IV.\<close>

theorem TKIP_GTK_KEY_UNWRAP_WRAP:
  assumes "n \<le> length input_text"
  shows "TKIP_GTK_KEY_UNWRAP True key iv (TKIP_GTK_KEY_WRAP True key iv input_text n out) n out' = take n input_text @ drop n out'"
proof -
  have "take n (TKIP_GTK_KEY_WRAP True key iv input_text n out) =
      snd (ARC4_Compute (ARC4_Discard_KeyLength (ARC4_INIT (take 16 iv @ take 16 key)) 256) (take n input_text))"
    using assms by (simp add: TKIP_GTK_KEY_WRAP_def NdisMoveMemory_def)
  then show ?thesis
    using assms by (simp add: TKIP_GTK_KEY_UNWRAP_def TKIP_GTK_KEY_WRAP_def [of True key iv _ n out'] Let_def
        ARC4_Compute_undo NdisMoveMemory_def)
qed

theorem TKIP_GTK_KEY_UNWRAP_WRAP_witness:
  "TKIP_GTK_KEY_UNWRAP True (replicate 16 1) (replicate 16 2) (TKIP_GTK_KEY_WRAP True (replicate 16 1) (replicate 16 2) [7, 8] 2 [0, 0]) 2 [0, 0]
    = [7, 8]"
  using TKIP_GTK_KEY_UNWRAP_WRAP [of 2 "[7, 8]" "replicate 16 1" "replicate 16 2" "[0, 0]" "[0, 0]"] by simp

lemma mic_engine_michael:
  assumes "length key = 8"
  shows "MIC (RTMPTkipGetMIC (RTMPTkipAppend (Tx (RTMPInitMICEngine pAd DA SA prio key)) xs)) = michael key (mic_message DA SA prio xs)"
  using mic_header_michael [OF assms] by (simp add: RTMPInitMICEngine_def)

text \<open>C10: \<^verbatim>\<open>RTMPSoftDecryptTKIP\<close> reports success only for authentic data: the check sequence over text and code
  matches, and the eight bytes behind the returned text are its Michael code under the receive MIC
  key for the addresses selected by the DS bits; no MIC failure is reported.\<close>

theorem RTMPSoftDecryptTKIP_authentic:
  assumes "RTMPSoftDecryptTKIP up pAd pHdr UserPriority pKey pData cnt = Some (True, pAd', D, n, ev)"
    and "length (ck_RxMic pKey) = 8" "tkip_addresses pHdr = (DA, TA, SA)" "20 \<le> cnt"
  shows "ev = None \<and> n = cnt - 20
    \<and> take 8 (drop n D) = michael (ck_RxMic pKey) (mic_message DA SA UserPriority (take n D))
    \<and> words_le32 (take 4 (drop (n + 8) D)) ! 0 = crc32_bitwise 0xffffffff (take (n + 8) D) XOR 0xffffffff"
proof -
  obtain k where k: "cnt = k + 20" using assms(4) by (metis add.commute le_Suc_ex)
  have len: "uint_sub (k + 20) 8 = k + 12" "uint_sub (k + 12) 4 = k + 8" "uint_sub (k + 8) 8 = k" by simp_all
  show ?thesis
    using assms(1)
    unfolding RTMPSoftDecryptTKIP_def LEN_TKIP_IV_HDR_def LEN_ICV_def LEN_TKIP_MIC_def assms(3) prod.case k Let_def len
    by (auto simp: mic_engine_michael [OF assms(2)] CALC_FCS32_bitwise [symmetric] PPPINITFCS32_def split: if_splits)
qed

lemma SoftDecryptTKIP_accepts:
  fixes n :: nat
  assumes key: "ck_KeyLen pKey \<noteq> 0" "length (ck_RxMic pKey) = 8"
    and hdr: "length hdr = 8" and addr: "tkip_addresses pHdr = (DA, TA, SA)"
    and rc4: "rc4 = fst (RTMPTkipMixKey (ck_Key pKey) TA (push_bit 8 (ucast (hdr ! 0)) OR ucast (hdr ! 2)) (words_le32 (drop 4 hdr) ! 0))"
    and body: "body = msdu @ michael (ck_RxMic pKey) (mic_message DA SA prio msdu)"
    and icv: "icv = bytes_le32 (RTMP_CALC_FCS32 0xffffffff body XOR 0xffffffff)"
    and ct: "ct = snd (ARC4_Compute (ARC4_INIT rc4) (body @ icv))"
  shows "\<exists>pAd'. RTMPSoftDecryptTKIP up pAd pHdr prio pKey (hdr @ ct @ rest) (length msdu + 20)
    = Some (True, pAd', body @ icv @ drop (4 + length msdu) (ct @ rest), length msdu, None)"
proof -
  let ?p = "hdr @ ct @ rest" and ?D = "body @ icv @ drop (4 + length msdu) (ct @ rest)"
  have lens: "length body = length msdu + 8" "length icv = 4" "length ct = length msdu + 12"
    by (simp_all add: body icv ct)
  have nth: "?p ! 0 = hdr ! 0" "?p ! 2 = hdr ! 2" "take 4 (drop 4 ?p) = drop 4 hdr"
    using hdr by (simp_all add: nth_append)
  have dec: "snd (ARC4_Compute (ARC4_INIT rc4) (take (length msdu + 12) (drop 8 ?p))) = body @ icv"
    using hdr lens ARC4_Compute_undo [of "ARC4_INIT rc4" "body @ icv"] by (simp add: ct)
  have move: "NdisMoveMemory ?p 0 (body @ icv) = ?D"
    using hdr lens by (simp add: NdisMoveMemory_def)
  have D: "take (length msdu + 8) ?D = body" "take 4 (drop (length msdu + 8) ?D) = icv" "take (length msdu) ?D = msdu"
      "take 8 (drop (length msdu) ?D) = michael (ck_RxMic pKey) (mic_message DA SA prio msdu)" "length ?D = length ?p"
    using lens hdr by (simp_all add: body)
  have len: "uint_sub (length msdu + 20) 8 = length msdu + 12" "uint_sub (length msdu + 12) 4 = length msdu + 8"
      "uint_sub (length msdu + 8) 8 = length msdu" by simp_all
  have w: "words_le32 icv ! 0 = RTMP_CALC_FCS32 0xffffffff body XOR 0xffffffff" by (simp add: icv)
  show ?thesis
    unfolding RTMPSoftDecryptTKIP_def LEN_TKIP_IV_HDR_def LEN_ICV_def LEN_TKIP_MIC_def addr prod.case Let_def
    using key lens hdr
    by (simp only: nth rc4 [symmetric] len dec move D w PPPINITFCS32_def)
       (simp add: mic_engine_michael)
qed

theorem RTMPSoftDecryptTKIP_authentic_witness:
  "\<exists>D. take 8 (drop 2 D) = michael (replicate 8 0) (mic_message (replicate 6 0) (replicate 6 0) 0 [5, 6])
    \<and> (\<exists>pData pAd'. RTMPSoftDecryptTKIP False private0 (replicate 24 0) 0 wep_key0 pData 22 = Some (True, pAd', D, 2, None))"
proof -
  have l: "length [5 :: UINT8, 6] + 20 = 22" "length [5 :: UINT8, 6] = 2" by simp_all
  have addr: "tkip_addresses (replicate 24 0) = (replicate 6 0, replicate 6 0, replicate 6 0)"
    by (simp add: tkip_addresses_def Let_def)
  have k: "ck_KeyLen wep_key0 \<noteq> 0" "length (ck_RxMic wep_key0) = 8" "ck_RxMic wep_key0 = replicate 8 0"
    by (simp_all add: wep_key0_def)
  obtain pData pAd' D where dec:
      "RTMPSoftDecryptTKIP False private0 (replicate 24 0) 0 wep_key0 pData 22 = Some (True, pAd', D, 2, None)"
      "take 2 D = [5, 6]"
    using SoftDecryptTKIP_accepts [where msdu = "[5, 6]" and prio = 0 and up = False and pAd = private0 and rest = "[]"
        and hdr = "replicate 8 0", OF k(1,2) length_replicate addr refl refl refl refl]
    unfolding l(1) unfolding l(2) by (elim exE) (erule that, simp)
  from RTMPSoftDecryptTKIP_authentic [OF dec(1) k(2) addr] show ?thesis
    using dec by (auto simp: k(3))
qed

text \<open>C11: a TKIP frame built by the standard (text, Michael code, check sequence, RC4 under the mixed key, behind the
  extended IV) is accepted by \<^verbatim>\<open>RTMPSoftDecryptTKIP\<close> and yields its text.\<close>

theorem RTMPSoftDecryptTKIP_accepts:
  assumes "ck_KeyLen pKey \<noteq> 0" "length (ck_RxMic pKey) = 8" "length hdr = 8" "tkip_addresses pHdr = (DA, TA, SA)"
    and "rc4 = tkip_p2 (ck_Key pKey) (tkip_ttak (ck_Key pKey) TA (words_le32 (drop 4 hdr) ! 0))
           (push_bit 8 (ucast (hdr ! 0)) OR ucast (hdr ! 2))"
    and "body = msdu @ michael (ck_RxMic pKey) (mic_message DA SA prio msdu)"
    and "icv = bytes_le32 (crc32_bitwise 0xffffffff body XOR 0xffffffff)"
    and "ct = snd (ARC4_Compute (ARC4_INIT rc4) (body @ icv))"
  shows "\<exists>pAd' D. RTMPSoftDecryptTKIP up pAd pHdr prio pKey (hdr @ ct @ rest) (length msdu + 20)
    = Some (True, pAd', D, length msdu, None) \<and> take (length msdu) D = msdu"
proof -
  have "(ucast (push_bit 8 (ucast a) OR ucast b :: UINT32) :: UINT16) = push_bit 8 (ucast a) OR ucast b" for a b :: UINT8
    by (rule bit_word_eqI) (auto simp: bit_simps)
  then have rc4: "rc4 = fst (RTMPTkipMixKey (ck_Key pKey) TA (push_bit 8 (ucast (hdr ! 0)) OR ucast (hdr ! 2)) (words_le32 (drop 4 hdr) ! 0))"
    by (simp only: assms(5) RTMPTkipMixKey_def Let_def phase1_ttak phase2_p2 fst_conv)
  have icv: "icv = bytes_le32 (RTMP_CALC_FCS32 0xffffffff body XOR 0xffffffff)"
    by (simp add: assms(7) CALC_FCS32_bitwise)
  from SoftDecryptTKIP_accepts [OF assms(1-4) rc4 assms(6) icv assms(8), of up pAd rest]
  show ?thesis by (auto simp: assms(6))
qed

theorem RTMPSoftDecryptTKIP_accepts_witness:
  "\<exists>ct pAd' D. RTMPSoftDecryptTKIP True private0 (replicate 24 0) 0 wep_key0 (replicate 8 0 @ ct) 22 = Some (True, pAd', D, 2, None)
    \<and> take 2 D = [5, 6]"
proof -
  have addr: "tkip_addresses (replicate 24 0) = (replicate 6 0, replicate 6 0, replicate 6 0)"
    by (simp add: tkip_addresses_def Let_def)
  have k: "ck_KeyLen wep_key0 \<noteq> 0" "length (ck_RxMic wep_key0) = 8"
    by (simp_all add: wep_key0_def)
  have l: "length [5 :: UINT8, 6] + 20 = 22" "length [5 :: UINT8, 6] = 2" by simp_all
  show ?thesis
    using RTMPSoftDecryptTKIP_accepts [where msdu = "[5, 6]" and prio = 0 and up = True and pAd = private0 and rest = "[]"
        and hdr = "replicate 8 0", OF k length_replicate addr refl refl refl refl]
    unfolding l(1) unfolding l(2) append_Nil2 by blast
qed

end
