(* ===== verification/MlmeMachine.thy ===== *)
theory MlmeMachine
  imports Prelude
begin

text \<open>
  The table-driven state machines of the station's management entity: the generic engine
  (\<^verbatim>\<open>StateMachineInit\<close>, \<^verbatim>\<open>StateMachineSetAction\<close>, \<^verbatim>\<open>StateMachinePerformAction\<close> of
  \<^verbatim>\<open>common/mlme.c\<close>), the six tables the station installs (\<^verbatim>\<open>sta/assoc.c\<close>, \<^verbatim>\<open>sta/auth.c\<close>,
  \<^verbatim>\<open>sta/auth_rsp.c\<close>, \<^verbatim>\<open>sta/sync.c\<close>, \<^verbatim>\<open>common/cmm_wpa.c\<close>, \<^verbatim>\<open>common/action.c\<close>), and the
  classification of received frames (\<^verbatim>\<open>MsgTypeSubst\<close>).  A function pointer of type
  \<^verbatim>\<open>STATE_MACHINE_FUNC\<close> is a constructor that carries the C function's name, NULL is
  \<open>None\<close>.  A read outside an array is \<open>None\<close>.
\<close>

section \<open>Constants\<close>

text \<open>The numbering of machines, states, messages and frame types of
  \<^verbatim>\<open>include/rtmp_def.h\<close>, \<^verbatim>\<open>include/rtmp_comm.h\<close> and \<^verbatim>\<open>include/wpa_cmm.h\<close>.\<close>

text \<open>State machines.\<close>

abbreviation (input) ASSOC_STATE_MACHINE :: nat where "ASSOC_STATE_MACHINE \<equiv> 1"
abbreviation (input) AUTH_STATE_MACHINE :: nat where "AUTH_STATE_MACHINE \<equiv> 2"
abbreviation (input) AUTH_RSP_STATE_MACHINE :: nat where "AUTH_RSP_STATE_MACHINE \<equiv> 3"
abbreviation (input) SYNC_STATE_MACHINE :: nat where "SYNC_STATE_MACHINE \<equiv> 4"
abbreviation (input) MLME_CNTL_STATE_MACHINE :: nat where "MLME_CNTL_STATE_MACHINE \<equiv> 5"
abbreviation (input) WPA_PSK_STATE_MACHINE :: nat where "WPA_PSK_STATE_MACHINE \<equiv> 6"
abbreviation (input) ACTION_STATE_MACHINE :: nat where "ACTION_STATE_MACHINE \<equiv> 9"
abbreviation (input) WPA_STATE_MACHINE :: nat where "WPA_STATE_MACHINE \<equiv> 23"
abbreviation (input) MT2_RESET_CONF :: nat where "MT2_RESET_CONF \<equiv> 45"

text \<open>Association.\<close>

abbreviation (input) ASSOC_IDLE :: nat where "ASSOC_IDLE \<equiv> 0"
abbreviation (input) ASSOC_WAIT_RSP :: nat where "ASSOC_WAIT_RSP \<equiv> 1"
abbreviation (input) REASSOC_WAIT_RSP :: nat where "REASSOC_WAIT_RSP \<equiv> 2"
abbreviation (input) DISASSOC_WAIT_RSP :: nat where "DISASSOC_WAIT_RSP \<equiv> 3"
abbreviation (input) MAX_ASSOC_STATE :: nat where "MAX_ASSOC_STATE \<equiv> 4"
abbreviation (input) ASSOC_MACHINE_BASE :: nat where "ASSOC_MACHINE_BASE \<equiv> 0"
abbreviation (input) MT2_MLME_ASSOC_REQ :: nat where "MT2_MLME_ASSOC_REQ \<equiv> 0"
abbreviation (input) MT2_MLME_REASSOC_REQ :: nat where "MT2_MLME_REASSOC_REQ \<equiv> 1"
abbreviation (input) MT2_MLME_DISASSOC_REQ :: nat where "MT2_MLME_DISASSOC_REQ \<equiv> 2"
abbreviation (input) MT2_PEER_DISASSOC_REQ :: nat where "MT2_PEER_DISASSOC_REQ \<equiv> 3"
abbreviation (input) MT2_PEER_ASSOC_REQ :: nat where "MT2_PEER_ASSOC_REQ \<equiv> 4"
abbreviation (input) MT2_PEER_ASSOC_RSP :: nat where "MT2_PEER_ASSOC_RSP \<equiv> 5"
abbreviation (input) MT2_PEER_REASSOC_REQ :: nat where "MT2_PEER_REASSOC_REQ \<equiv> 6"
abbreviation (input) MT2_PEER_REASSOC_RSP :: nat where "MT2_PEER_REASSOC_RSP \<equiv> 7"
abbreviation (input) MT2_DISASSOC_TIMEOUT :: nat where "MT2_DISASSOC_TIMEOUT \<equiv> 8"
abbreviation (input) MT2_ASSOC_TIMEOUT :: nat where "MT2_ASSOC_TIMEOUT \<equiv> 9"
abbreviation (input) MT2_REASSOC_TIMEOUT :: nat where "MT2_REASSOC_TIMEOUT \<equiv> 10"
abbreviation (input) MAX_ASSOC_MSG :: nat where "MAX_ASSOC_MSG \<equiv> 11"

text \<open>Action.\<close>

abbreviation (input) ACT_IDLE :: nat where "ACT_IDLE \<equiv> 0"
abbreviation (input) MAX_ACT_STATE :: nat where "MAX_ACT_STATE \<equiv> 1"
abbreviation (input) ACT_MACHINE_BASE :: nat where "ACT_MACHINE_BASE \<equiv> 0"
abbreviation (input) MT2_PEER_SPECTRUM_CATE :: nat where "MT2_PEER_SPECTRUM_CATE \<equiv> 0"
abbreviation (input) MT2_PEER_QOS_CATE :: nat where "MT2_PEER_QOS_CATE \<equiv> 1"
abbreviation (input) MT2_PEER_DLS_CATE :: nat where "MT2_PEER_DLS_CATE \<equiv> 2"
abbreviation (input) MT2_PEER_BA_CATE :: nat where "MT2_PEER_BA_CATE \<equiv> 3"
abbreviation (input) MT2_PEER_PUBLIC_CATE :: nat where "MT2_PEER_PUBLIC_CATE \<equiv> 4"
abbreviation (input) MT2_PEER_RM_CATE :: nat where "MT2_PEER_RM_CATE \<equiv> 5"
abbreviation (input) MT2_PEER_HT_CATE :: nat where "MT2_PEER_HT_CATE \<equiv> 7"
abbreviation (input) MAX_PEER_CATE_MSG :: nat where "MAX_PEER_CATE_MSG \<equiv> 17"
abbreviation (input) MT2_MLME_ADD_BA_CATE :: nat where "MT2_MLME_ADD_BA_CATE \<equiv> 18"
abbreviation (input) MT2_MLME_ORI_DELBA_CATE :: nat where "MT2_MLME_ORI_DELBA_CATE \<equiv> 19"
abbreviation (input) MT2_MLME_REC_DELBA_CATE :: nat where "MT2_MLME_REC_DELBA_CATE \<equiv> 20"
abbreviation (input) MT2_MLME_QOS_CATE :: nat where "MT2_MLME_QOS_CATE \<equiv> 21"
abbreviation (input) MT2_MLME_DLS_CATE :: nat where "MT2_MLME_DLS_CATE \<equiv> 22"
abbreviation (input) MT2_ACT_INVALID :: nat where "MT2_ACT_INVALID \<equiv> 23"
abbreviation (input) MAX_ACT_MSG :: nat where "MAX_ACT_MSG \<equiv> 24"

text \<open>Authentication.\<close>

abbreviation (input) AUTH_REQ_IDLE :: nat where "AUTH_REQ_IDLE \<equiv> 0"
abbreviation (input) AUTH_WAIT_SEQ2 :: nat where "AUTH_WAIT_SEQ2 \<equiv> 1"
abbreviation (input) AUTH_WAIT_SEQ4 :: nat where "AUTH_WAIT_SEQ4 \<equiv> 2"
abbreviation (input) MAX_AUTH_STATE :: nat where "MAX_AUTH_STATE \<equiv> 3"
abbreviation (input) AUTH_MACHINE_BASE :: nat where "AUTH_MACHINE_BASE \<equiv> 0"
abbreviation (input) MT2_MLME_AUTH_REQ :: nat where "MT2_MLME_AUTH_REQ \<equiv> 0"
abbreviation (input) MT2_PEER_AUTH_EVEN :: nat where "MT2_PEER_AUTH_EVEN \<equiv> 1"
abbreviation (input) MT2_AUTH_TIMEOUT :: nat where "MT2_AUTH_TIMEOUT \<equiv> 2"
abbreviation (input) MAX_AUTH_MSG :: nat where "MAX_AUTH_MSG \<equiv> 3"
abbreviation (input) AUTH_RSP_IDLE :: nat where "AUTH_RSP_IDLE \<equiv> 0"
abbreviation (input) AUTH_RSP_WAIT_CHAL :: nat where "AUTH_RSP_WAIT_CHAL \<equiv> 1"
abbreviation (input) MAX_AUTH_RSP_STATE :: nat where "MAX_AUTH_RSP_STATE \<equiv> 2"
abbreviation (input) AUTH_RSP_MACHINE_BASE :: nat where "AUTH_RSP_MACHINE_BASE \<equiv> 0"
abbreviation (input) MT2_PEER_AUTH_ODD :: nat where "MT2_PEER_AUTH_ODD \<equiv> 1"
abbreviation (input) MT2_PEER_DEAUTH :: nat where "MT2_PEER_DEAUTH \<equiv> 2"
abbreviation (input) MAX_AUTH_RSP_MSG :: nat where "MAX_AUTH_RSP_MSG \<equiv> 3"
abbreviation (input) AUTH_MODE_OPEN :: nat where "AUTH_MODE_OPEN \<equiv> 0"
abbreviation (input) AUTH_MODE_KEY :: nat where "AUTH_MODE_KEY \<equiv> 1"

text \<open>Synchronisation.\<close>

abbreviation (input) SYNC_IDLE :: nat where "SYNC_IDLE \<equiv> 0"
abbreviation (input) JOIN_WAIT_BEACON :: nat where "JOIN_WAIT_BEACON \<equiv> 1"
abbreviation (input) SCAN_LISTEN :: nat where "SCAN_LISTEN \<equiv> 2"
abbreviation (input) SCAN_PENDING :: nat where "SCAN_PENDING \<equiv> 3"
abbreviation (input) MAX_SYNC_STATE :: nat where "MAX_SYNC_STATE \<equiv> 4"
abbreviation (input) SYNC_MACHINE_BASE :: nat where "SYNC_MACHINE_BASE \<equiv> 0"
abbreviation (input) MT2_MLME_SCAN_REQ :: nat where "MT2_MLME_SCAN_REQ \<equiv> 0"
abbreviation (input) MT2_MLME_JOIN_REQ :: nat where "MT2_MLME_JOIN_REQ \<equiv> 1"
abbreviation (input) MT2_MLME_START_REQ :: nat where "MT2_MLME_START_REQ \<equiv> 2"
abbreviation (input) MT2_PEER_BEACON :: nat where "MT2_PEER_BEACON \<equiv> 3"
abbreviation (input) MT2_PEER_PROBE_RSP :: nat where "MT2_PEER_PROBE_RSP \<equiv> 4"
abbreviation (input) MT2_PEER_ATIM :: nat where "MT2_PEER_ATIM \<equiv> 5"
abbreviation (input) MT2_SCAN_TIMEOUT :: nat where "MT2_SCAN_TIMEOUT \<equiv> 6"
abbreviation (input) MT2_BEACON_TIMEOUT :: nat where "MT2_BEACON_TIMEOUT \<equiv> 7"
abbreviation (input) MT2_PEER_PROBE_REQ :: nat where "MT2_PEER_PROBE_REQ \<equiv> 9"
abbreviation (input) MT2_MLME_FORCE_JOIN_REQ :: nat where "MT2_MLME_FORCE_JOIN_REQ \<equiv> 10"
abbreviation (input) MT2_MLME_FORCE_SCAN_REQ :: nat where "MT2_MLME_FORCE_SCAN_REQ \<equiv> 11"
abbreviation (input) MAX_SYNC_MSG :: nat where "MAX_SYNC_MSG \<equiv> 12"

text \<open>Key handshake.\<close>

abbreviation (input) WPA_PTK :: nat where "WPA_PTK \<equiv> 0"
abbreviation (input) MAX_WPA_PTK_STATE :: nat where "MAX_WPA_PTK_STATE \<equiv> 1"
abbreviation (input) WPA_MACHINE_BASE :: nat where "WPA_MACHINE_BASE \<equiv> 0"
abbreviation (input) MT2_EAPPacket :: nat where "MT2_EAPPacket \<equiv> 0"
abbreviation (input) MT2_EAPOLStart :: nat where "MT2_EAPOLStart \<equiv> 1"
abbreviation (input) MT2_EAPOLLogoff :: nat where "MT2_EAPOLLogoff \<equiv> 2"
abbreviation (input) MT2_EAPOLKey :: nat where "MT2_EAPOLKey \<equiv> 3"
abbreviation (input) MT2_EAPOLASFAlert :: nat where "MT2_EAPOLASFAlert \<equiv> 4"
abbreviation (input) MAX_WPA_MSG :: nat where "MAX_WPA_MSG \<equiv> 5"
abbreviation (input) EAPPacket :: nat where "EAPPacket \<equiv> 0"
abbreviation (input) EAPOLStart :: nat where "EAPOLStart \<equiv> 1"
abbreviation (input) EAPOLLogoff :: nat where "EAPOLLogoff \<equiv> 2"
abbreviation (input) EAPOLKey :: nat where "EAPOLKey \<equiv> 3"
abbreviation (input) EAPOLASFAlert :: nat where "EAPOLASFAlert \<equiv> 4"
abbreviation (input) CNTL_IDLE :: nat where "CNTL_IDLE \<equiv> 0"

text \<open>Frames.\<close>

abbreviation (input) BTYPE_DATA :: nat where "BTYPE_DATA \<equiv> 2"
abbreviation (input) SUBTYPE_ASSOC_REQ :: nat where "SUBTYPE_ASSOC_REQ \<equiv> 0"
abbreviation (input) SUBTYPE_ASSOC_RSP :: nat where "SUBTYPE_ASSOC_RSP \<equiv> 1"
abbreviation (input) SUBTYPE_REASSOC_REQ :: nat where "SUBTYPE_REASSOC_REQ \<equiv> 2"
abbreviation (input) SUBTYPE_REASSOC_RSP :: nat where "SUBTYPE_REASSOC_RSP \<equiv> 3"
abbreviation (input) SUBTYPE_PROBE_REQ :: nat where "SUBTYPE_PROBE_REQ \<equiv> 4"
abbreviation (input) SUBTYPE_PROBE_RSP :: nat where "SUBTYPE_PROBE_RSP \<equiv> 5"
abbreviation (input) SUBTYPE_BEACON :: nat where "SUBTYPE_BEACON \<equiv> 8"
abbreviation (input) SUBTYPE_ATIM :: nat where "SUBTYPE_ATIM \<equiv> 9"
abbreviation (input) SUBTYPE_DISASSOC :: nat where "SUBTYPE_DISASSOC \<equiv> 10"
abbreviation (input) SUBTYPE_AUTH :: nat where "SUBTYPE_AUTH \<equiv> 11"
abbreviation (input) SUBTYPE_DEAUTH :: nat where "SUBTYPE_DEAUTH \<equiv> 12"
abbreviation (input) SUBTYPE_ACTION :: nat where "SUBTYPE_ACTION \<equiv> 13"
abbreviation (input) SUBTYPE_ACTION_NO_ACK :: nat where "SUBTYPE_ACTION_NO_ACK \<equiv> 14"
abbreviation (input) LENGTH_802_11 :: nat where "LENGTH_802_11 \<equiv> 24"
abbreviation (input) LENGTH_802_1_H :: nat where "LENGTH_802_1_H \<equiv> 8"

section \<open>The engine\<close>

datatype STATE_MACHINE_FUNC =
    Drop
  | MlmeAssocReqAction | MlmeReassocReqAction | MlmeDisassocReqAction | PeerDisassocAction
  | InvalidStateWhenAssoc | InvalidStateWhenReassoc | InvalidStateWhenDisassociate
  | PeerAssocRspAction | PeerReassocRspAction
  | AssocTimeoutAction | ReassocTimeoutAction | DisassocTimeoutAction
  | MlmeAuthReqAction | InvalidStateWhenAuth | PeerAuthRspAtSeq2Action | PeerAuthRspAtSeq4Action
  | AuthTimeoutAction | PeerDeauthAction
  | MlmeScanReqAction | MlmeForceScanReqAction | MlmeJoinReqAction | MlmeForceJoinReqAction
  | MlmeStartReqAction | PeerBeacon | PeerProbeReqAction | InvalidStateWhenStart
  | PeerBeaconAtJoinAction | BeaconTimeoutAtJoinAction | PeerBeaconAtScanAction | ScanTimeoutAction
  | WpaEAPPacketAction | WpaEAPOLStartAction | WpaEAPOLLogoffAction | WpaEAPOLKeyAction
  | WpaEAPOLASFAlertAction
  | PeerSpectrumAction | PeerQOSAction | ReservedAction | PeerBAAction | PeerHTAction
  | MlmeADDBAAction | MlmeDELBAAction | PeerPublicAction | PeerRMAction | MlmeQOSAction
  | MlmeDLSAction | MlmeInvalidAction

record STATE_MACHINE =
  sm_Base :: nat
  sm_NrState :: nat
  sm_NrMsg :: nat
  sm_CurrState :: nat
  sm_TransFunc :: "STATE_MACHINE_FUNC option list"

text \<open>The two nested loops store \<open>DefFunc\<close> in every cell of the array the caller supplies.\<close>

definition StateMachineInit ::
    "STATE_MACHINE_FUNC option list \<Rightarrow> nat \<Rightarrow> nat \<Rightarrow> STATE_MACHINE_FUNC \<Rightarrow> nat \<Rightarrow> nat \<Rightarrow> STATE_MACHINE" where
  "StateMachineInit Trans StNr MsgNr DefFunc InitState Base =
    \<lparr>sm_Base = Base, sm_NrState = StNr, sm_NrMsg = MsgNr, sm_CurrState = InitState,
     sm_TransFunc = fold (\<lambda>i. fold (\<lambda>j T. T[i * MsgNr + j := Some DefFunc]) [0..<MsgNr])
       [0..<StNr] Trans\<rparr>"

definition StateMachineSetAction ::
    "STATE_MACHINE \<Rightarrow> nat \<Rightarrow> nat \<Rightarrow> STATE_MACHINE_FUNC \<Rightarrow> STATE_MACHINE" where
  "StateMachineSetAction S St Msg Fn =
    (let MsgIdx = uint_sub Msg (sm_Base S)
     in if St < sm_NrState S \<and> MsgIdx < sm_NrMsg S
        then S\<lparr>sm_TransFunc := (sm_TransFunc S)[St * sm_NrMsg S + MsgIdx := Some Fn]\<rparr>
        else S)"

text \<open>The cell that \<^verbatim>\<open>StateMachinePerformAction\<close> reads, \<open>None\<close> when the index lies outside
  the table.\<close>

definition sm_cell :: "STATE_MACHINE \<Rightarrow> nat \<Rightarrow> nat \<Rightarrow> STATE_MACHINE_FUNC option option" where
  "sm_cell S CurrState MsgType =
    (let i = uint_sub (uint_add (CurrState * sm_NrMsg S) MsgType) (sm_Base S)
     in if i < length (sm_TransFunc S) then Some (sm_TransFunc S ! i) else None)"

text \<open>\<open>call f pAd Elem\<close> is the effect of the C function \<open>f\<close>; \<^verbatim>\<open>Drop\<close> has an empty body.\<close>

definition StateMachinePerformAction ::
    "(STATE_MACHINE_FUNC \<Rightarrow> 'ad \<Rightarrow> 'e \<Rightarrow> 'ad) \<Rightarrow> 'ad \<Rightarrow> STATE_MACHINE \<Rightarrow> 'e \<Rightarrow> nat \<Rightarrow> nat \<Rightarrow> 'ad option" where
  "StateMachinePerformAction call pAd S Elem MsgType CurrState =
    (case sm_cell S CurrState MsgType of
       None \<Rightarrow> None
     | Some None \<Rightarrow> Some pAd
     | Some (Some f) \<Rightarrow> Some (if f = Drop then pAd else call f pAd Elem))"

text \<open>A run of \<^verbatim>\<open>StateMachineSetAction\<close> calls.\<close>

definition sm_actions :: "STATE_MACHINE \<Rightarrow> (nat \<times> nat \<times> STATE_MACHINE_FUNC) list \<Rightarrow> STATE_MACHINE" where
  "sm_actions S acts = foldl (\<lambda>S (St, Msg, f). StateMachineSetAction S St Msg f) S acts"

section \<open>The tables of the station\<close>

definition AssocStateMachineInit :: "STATE_MACHINE_FUNC option list \<Rightarrow> STATE_MACHINE" where
  "AssocStateMachineInit Trans =
    sm_actions (StateMachineInit Trans MAX_ASSOC_STATE MAX_ASSOC_MSG Drop ASSOC_IDLE ASSOC_MACHINE_BASE)
     [(ASSOC_IDLE, MT2_MLME_ASSOC_REQ, MlmeAssocReqAction),
      (ASSOC_IDLE, MT2_MLME_REASSOC_REQ, MlmeReassocReqAction),
      (ASSOC_IDLE, MT2_MLME_DISASSOC_REQ, MlmeDisassocReqAction),
      (ASSOC_IDLE, MT2_PEER_DISASSOC_REQ, PeerDisassocAction),
      (ASSOC_WAIT_RSP, MT2_MLME_ASSOC_REQ, InvalidStateWhenAssoc),
      (ASSOC_WAIT_RSP, MT2_MLME_REASSOC_REQ, InvalidStateWhenReassoc),
      (ASSOC_WAIT_RSP, MT2_MLME_DISASSOC_REQ, InvalidStateWhenDisassociate),
      (ASSOC_WAIT_RSP, MT2_PEER_DISASSOC_REQ, PeerDisassocAction),
      (ASSOC_WAIT_RSP, MT2_PEER_ASSOC_RSP, PeerAssocRspAction),
      (ASSOC_WAIT_RSP, MT2_PEER_REASSOC_RSP, PeerAssocRspAction),
      (ASSOC_WAIT_RSP, MT2_ASSOC_TIMEOUT, AssocTimeoutAction),
      (REASSOC_WAIT_RSP, MT2_MLME_ASSOC_REQ, InvalidStateWhenAssoc),
      (REASSOC_WAIT_RSP, MT2_MLME_REASSOC_REQ, InvalidStateWhenReassoc),
      (REASSOC_WAIT_RSP, MT2_MLME_DISASSOC_REQ, InvalidStateWhenDisassociate),
      (REASSOC_WAIT_RSP, MT2_PEER_DISASSOC_REQ, PeerDisassocAction),
      (REASSOC_WAIT_RSP, MT2_PEER_REASSOC_RSP, PeerReassocRspAction),
      (REASSOC_WAIT_RSP, MT2_PEER_ASSOC_RSP, PeerReassocRspAction),
      (REASSOC_WAIT_RSP, MT2_REASSOC_TIMEOUT, ReassocTimeoutAction),
      (DISASSOC_WAIT_RSP, MT2_MLME_ASSOC_REQ, InvalidStateWhenAssoc),
      (DISASSOC_WAIT_RSP, MT2_MLME_REASSOC_REQ, InvalidStateWhenReassoc),
      (DISASSOC_WAIT_RSP, MT2_MLME_DISASSOC_REQ, InvalidStateWhenDisassociate),
      (DISASSOC_WAIT_RSP, MT2_PEER_DISASSOC_REQ, PeerDisassocAction),
      (DISASSOC_WAIT_RSP, MT2_DISASSOC_TIMEOUT, DisassocTimeoutAction)]"

definition AuthStateMachineInit :: "STATE_MACHINE_FUNC option list \<Rightarrow> STATE_MACHINE" where
  "AuthStateMachineInit Trans =
    sm_actions (StateMachineInit Trans MAX_AUTH_STATE MAX_AUTH_MSG Drop AUTH_REQ_IDLE AUTH_MACHINE_BASE)
     [(AUTH_REQ_IDLE, MT2_MLME_AUTH_REQ, MlmeAuthReqAction),
      (AUTH_WAIT_SEQ2, MT2_MLME_AUTH_REQ, InvalidStateWhenAuth),
      (AUTH_WAIT_SEQ2, MT2_PEER_AUTH_EVEN, PeerAuthRspAtSeq2Action),
      (AUTH_WAIT_SEQ2, MT2_AUTH_TIMEOUT, AuthTimeoutAction),
      (AUTH_WAIT_SEQ4, MT2_MLME_AUTH_REQ, InvalidStateWhenAuth),
      (AUTH_WAIT_SEQ4, MT2_PEER_AUTH_EVEN, PeerAuthRspAtSeq4Action),
      (AUTH_WAIT_SEQ4, MT2_AUTH_TIMEOUT, AuthTimeoutAction)]"

definition AuthRspStateMachineInit :: "STATE_MACHINE_FUNC option list \<Rightarrow> STATE_MACHINE" where
  "AuthRspStateMachineInit Trans =
    sm_actions (StateMachineInit Trans MAX_AUTH_RSP_STATE MAX_AUTH_RSP_MSG Drop AUTH_RSP_IDLE
        AUTH_RSP_MACHINE_BASE)
     [(AUTH_RSP_IDLE, MT2_PEER_DEAUTH, PeerDeauthAction),
      (AUTH_RSP_WAIT_CHAL, MT2_PEER_DEAUTH, PeerDeauthAction)]"

definition SyncStateMachineInit :: "STATE_MACHINE_FUNC option list \<Rightarrow> STATE_MACHINE" where
  "SyncStateMachineInit Trans =
    sm_actions (StateMachineInit Trans MAX_SYNC_STATE MAX_SYNC_MSG Drop SYNC_IDLE SYNC_MACHINE_BASE)
     [(SYNC_IDLE, MT2_MLME_SCAN_REQ, MlmeScanReqAction),
      (SYNC_IDLE, MT2_MLME_FORCE_SCAN_REQ, MlmeForceScanReqAction),
      (SYNC_IDLE, MT2_MLME_JOIN_REQ, MlmeJoinReqAction),
      (SYNC_IDLE, MT2_MLME_FORCE_JOIN_REQ, MlmeForceJoinReqAction),
      (SYNC_IDLE, MT2_MLME_START_REQ, MlmeStartReqAction),
      (SYNC_IDLE, MT2_PEER_BEACON, PeerBeacon),
      (SYNC_IDLE, MT2_PEER_PROBE_REQ, PeerProbeReqAction),
      (JOIN_WAIT_BEACON, MT2_MLME_JOIN_REQ, MlmeJoinReqAction),
      (JOIN_WAIT_BEACON, MT2_MLME_START_REQ, InvalidStateWhenStart),
      (JOIN_WAIT_BEACON, MT2_PEER_BEACON, PeerBeaconAtJoinAction),
      (JOIN_WAIT_BEACON, MT2_BEACON_TIMEOUT, BeaconTimeoutAtJoinAction),
      (JOIN_WAIT_BEACON, MT2_PEER_PROBE_RSP, PeerBeaconAtScanAction),
      (SCAN_LISTEN, MT2_MLME_JOIN_REQ, MlmeJoinReqAction),
      (SCAN_LISTEN, MT2_MLME_START_REQ, InvalidStateWhenStart),
      (SCAN_LISTEN, MT2_PEER_BEACON, PeerBeaconAtScanAction),
      (SCAN_LISTEN, MT2_PEER_PROBE_RSP, PeerBeaconAtScanAction),
      (SCAN_LISTEN, MT2_SCAN_TIMEOUT, ScanTimeoutAction),
      (SCAN_PENDING, MT2_MLME_SCAN_REQ, MlmeScanReqAction),
      (SCAN_PENDING, MT2_PEER_BEACON, PeerBeacon)]"

definition WpaStateMachineInit :: "STATE_MACHINE_FUNC option list \<Rightarrow> STATE_MACHINE" where
  "WpaStateMachineInit Trans =
    sm_actions (StateMachineInit Trans MAX_WPA_PTK_STATE MAX_WPA_MSG Drop WPA_PTK WPA_MACHINE_BASE)
     [(WPA_PTK, MT2_EAPPacket, WpaEAPPacketAction),
      (WPA_PTK, MT2_EAPOLStart, WpaEAPOLStartAction),
      (WPA_PTK, MT2_EAPOLLogoff, WpaEAPOLLogoffAction),
      (WPA_PTK, MT2_EAPOLKey, WpaEAPOLKeyAction),
      (WPA_PTK, MT2_EAPOLASFAlert, WpaEAPOLASFAlertAction)]"

definition ActionStateMachineInit :: "STATE_MACHINE_FUNC option list \<Rightarrow> STATE_MACHINE" where
  "ActionStateMachineInit Trans =
    sm_actions (StateMachineInit Trans MAX_ACT_STATE MAX_ACT_MSG Drop ACT_IDLE ACT_MACHINE_BASE)
     [(ACT_IDLE, MT2_PEER_SPECTRUM_CATE, PeerSpectrumAction),
      (ACT_IDLE, MT2_PEER_QOS_CATE, PeerQOSAction),
      (ACT_IDLE, MT2_PEER_DLS_CATE, ReservedAction),
      (ACT_IDLE, MT2_PEER_BA_CATE, PeerBAAction),
      (ACT_IDLE, MT2_PEER_HT_CATE, PeerHTAction),
      (ACT_IDLE, MT2_MLME_ADD_BA_CATE, MlmeADDBAAction),
      (ACT_IDLE, MT2_MLME_ORI_DELBA_CATE, MlmeDELBAAction),
      (ACT_IDLE, MT2_MLME_REC_DELBA_CATE, MlmeDELBAAction),
      (ACT_IDLE, MT2_PEER_PUBLIC_CATE, PeerPublicAction),
      (ACT_IDLE, MT2_PEER_RM_CATE, PeerRMAction),
      (ACT_IDLE, MT2_MLME_QOS_CATE, MlmeQOSAction),
      (ACT_IDLE, MT2_MLME_DLS_CATE, MlmeDLSAction),
      (ACT_IDLE, MT2_ACT_INVALID, MlmeInvalidAction)]"

section \<open>Classification of received frames\<close>

text \<open>The code reads the frame by address without a length check; here a frame that is too
  short for a read gives \<open>None\<close>.\<close>

definition octet :: "bytes \<Rightarrow> nat \<Rightarrow> UINT8 option" where
  "octet frame i = (if i < length frame then Some (frame ! i) else None)"

definition FC_Type :: "UINT8 \<Rightarrow> nat" where
  "FC_Type b = unat (drop_bit 2 b AND 3)"

definition FC_SubType :: "UINT8 \<Rightarrow> nat" where
  "FC_SubType b = unat (drop_bit 4 b)"

text \<open>Both functions return the status and the OUT parameters.\<close>

definition WpaMsgTypeSubst :: "nat \<Rightarrow> nat \<Rightarrow> bool \<times> nat" where
  "WpaMsgTypeSubst EAPType MsgType =
    (if EAPType = EAPPacket then (True, MT2_EAPPacket)
     else if EAPType = EAPOLStart then (True, MT2_EAPOLStart)
     else if EAPType = EAPOLLogoff then (True, MT2_EAPOLLogoff)
     else if EAPType = EAPOLKey then (True, MT2_EAPOLKey)
     else if EAPType = EAPOLASFAlert then (True, MT2_EAPOLASFAlert)
     else (False, MsgType))"

definition auth_subst :: "nat \<Rightarrow> nat \<Rightarrow> nat \<Rightarrow> nat \<Rightarrow> bool \<times> nat \<times> nat" where
  "auth_subst Seq Alg Machine MsgType =
    (if Seq = 1 \<or> Seq = 3 then (True, AUTH_RSP_STATE_MACHINE, MT2_PEER_AUTH_ODD)
     else if Seq = 2 \<or> Seq = 4 then
       (if Alg = AUTH_MODE_OPEN \<or> Alg = AUTH_MODE_KEY
        then (True, AUTH_STATE_MACHINE, MT2_PEER_AUTH_EVEN) else (True, Machine, MsgType))
     else (False, Machine, MsgType))"

definition action_subst :: "UINT8 \<Rightarrow> bool \<times> nat \<times> nat" where
  "action_subst cat =
    (let c = unat (cat AND 0x7F)
     in (True, ACTION_STATE_MACHINE, if c > MAX_PEER_CATE_MSG then MT2_ACT_INVALID else c))"

definition le16 :: "UINT8 \<Rightarrow> UINT8 \<Rightarrow> nat" where
  "le16 lo hi = unat lo + 256 * unat hi"

definition MsgTypeSubst :: "bytes \<Rightarrow> nat \<Rightarrow> nat \<Rightarrow> (bool \<times> nat \<times> nat) option" where
  "MsgTypeSubst frame Machine MsgType =
    (case octet frame 0 of None \<Rightarrow> None | Some fc \<Rightarrow>
     (if FC_Type fc = BTYPE_DATA then
        (case octet frame (LENGTH_802_11 + LENGTH_802_1_H + 1) of None \<Rightarrow> None
         | Some EAPType \<Rightarrow>
             let (ok, t) = WpaMsgTypeSubst (unat EAPType) MsgType in Some (ok, WPA_STATE_MACHINE, t))
      else
       (let st = FC_SubType fc in
        if st = SUBTYPE_ASSOC_REQ then Some (True, ASSOC_STATE_MACHINE, MT2_PEER_ASSOC_REQ)
        else if st = SUBTYPE_ASSOC_RSP then Some (True, ASSOC_STATE_MACHINE, MT2_PEER_ASSOC_RSP)
        else if st = SUBTYPE_REASSOC_REQ then Some (True, ASSOC_STATE_MACHINE, MT2_PEER_REASSOC_REQ)
        else if st = SUBTYPE_REASSOC_RSP then Some (True, ASSOC_STATE_MACHINE, MT2_PEER_REASSOC_RSP)
        else if st = SUBTYPE_PROBE_REQ then Some (True, SYNC_STATE_MACHINE, MT2_PEER_PROBE_REQ)
        else if st = SUBTYPE_PROBE_RSP then Some (True, SYNC_STATE_MACHINE, MT2_PEER_PROBE_RSP)
        else if st = SUBTYPE_BEACON then Some (True, SYNC_STATE_MACHINE, MT2_PEER_BEACON)
        else if st = SUBTYPE_ATIM then Some (True, SYNC_STATE_MACHINE, MT2_PEER_ATIM)
        else if st = SUBTYPE_DISASSOC then Some (True, ASSOC_STATE_MACHINE, MT2_PEER_DISASSOC_REQ)
        else if st = SUBTYPE_AUTH then
          (case (octet frame (LENGTH_802_11 + 2), octet frame (LENGTH_802_11 + 3),
                 octet frame LENGTH_802_11, octet frame (LENGTH_802_11 + 1)) of
             (Some s0, Some s1, Some a0, Some a1) \<Rightarrow>
               Some (auth_subst (le16 s0 s1) (le16 a0 a1) Machine MsgType)
           | _ \<Rightarrow> None)
        else if st = SUBTYPE_DEAUTH then Some (True, AUTH_RSP_STATE_MACHINE, MT2_PEER_DEAUTH)
        else if st = SUBTYPE_ACTION \<or> st = SUBTYPE_ACTION_NO_ACK then
          (case octet frame LENGTH_802_11 of None \<Rightarrow> None | Some c \<Rightarrow> Some (action_subst c))
        else Some (False, Machine, MsgType))))"

section \<open>Lemmas: the engine is a finite table\<close>

definition sm_wf :: "STATE_MACHINE \<Rightarrow> bool" where
  "sm_wf S \<longleftrightarrow> sm_NrState S * sm_NrMsg S \<le> length (sm_TransFunc S)
     \<and> sm_NrState S * sm_NrMsg S + sm_Base S < 2 ^ 32"

text \<open>What a table built by a run of \<^verbatim>\<open>StateMachineSetAction\<close> calls contains: the last
  setting for the cell, else the default.\<close>

definition sm_spec :: "(nat \<times> nat \<times> STATE_MACHINE_FUNC) list \<Rightarrow> STATE_MACHINE_FUNC \<Rightarrow> nat \<Rightarrow> nat \<Rightarrow> STATE_MACHINE_FUNC" where
  "sm_spec acts def st msg =
    (case find (\<lambda>(s, m, f). s = st \<and> m = msg) (rev acts) of
       None \<Rightarrow> def | Some (_, _, f) \<Rightarrow> f)"

lemma fill_row:
  "length (fold (\<lambda>j T. T[b + j := v]) [0..<n] T) = length T"
  "k < length T \<Longrightarrow>
   fold (\<lambda>j T. T[b + j := v]) [0..<n] T ! k = (if b \<le> k \<and> k < b + n then v else T ! k)"
proof (induction n)
  case (Suc n)
  { case 1 then show ?case using Suc by simp }
  { case 2 then show ?case using Suc by (cases "k = b + n") auto }
qed auto

lemma fill_table:
  "length (fold (\<lambda>i. fold (\<lambda>j T. T[i * m + j := v]) [0..<m]) [0..<n] T) = length T"
  "k < length T \<Longrightarrow>
   fold (\<lambda>i. fold (\<lambda>j T. T[i * m + j := v]) [0..<m]) [0..<n] T ! k = (if k < n * m then v else T ! k)"
  by (induction n) (auto simp: fill_row)

lemma cell_index_less: "st < n \<Longrightarrow> mi < m \<Longrightarrow> st * m + mi < n * (m :: nat)"
proof -
  assume "st < n" "mi < m"
  then have "st * m + mi < Suc st * m" by simp
  also have "\<dots> \<le> n * m" using \<open>st < n\<close> by (intro mult_le_mono1) simp
  finally show ?thesis .
qed

lemma cell_index_inj:
  assumes "mi < m" "mi' < m" "st * m + mi = st' * m + (mi' :: nat)"
  shows "st = st' \<and> mi = mi'"
proof -
  have "(st * m + mi) div m = st" "(st * m + mi) mod m = mi" using assms(1) by auto
  moreover have "(st' * m + mi') div m = st'" "(st' * m + mi') mod m = mi'" using assms(2) by auto
  ultimately show ?thesis using assms(3) by metis
qed

lemma sm_cell_eq:
  assumes "sm_wf S" "st < sm_NrState S" "sm_Base S \<le> msg" "msg < sm_Base S + sm_NrMsg S"
  shows "sm_cell S st msg = Some (sm_TransFunc S ! (st * sm_NrMsg S + (msg - sm_Base S)))"
proof -
  have lt: "st * sm_NrMsg S + (msg - sm_Base S) < sm_NrState S * sm_NrMsg S"
    using assms by (intro cell_index_less) auto
  then have "st * sm_NrMsg S + msg < 2 ^ 32" using assms by (auto simp: sm_wf_def)
  then show ?thesis using assms lt by (auto simp: sm_cell_def sm_wf_def)
qed

lemma StateMachineInit_simps [simp]:
  "sm_Base (StateMachineInit T n m d i b) = b"
  "sm_NrState (StateMachineInit T n m d i b) = n"
  "sm_NrMsg (StateMachineInit T n m d i b) = m"
  "sm_CurrState (StateMachineInit T n m d i b) = i"
  "length (sm_TransFunc (StateMachineInit T n m d i b)) = length T"
  by (simp_all add: StateMachineInit_def fill_table)

lemma StateMachineSetAction_simps [simp]:
  "sm_Base (StateMachineSetAction S st msg f) = sm_Base S"
  "sm_NrState (StateMachineSetAction S st msg f) = sm_NrState S"
  "sm_NrMsg (StateMachineSetAction S st msg f) = sm_NrMsg S"
  "sm_CurrState (StateMachineSetAction S st msg f) = sm_CurrState S"
  "length (sm_TransFunc (StateMachineSetAction S st msg f)) = length (sm_TransFunc S)"
  by (simp_all add: StateMachineSetAction_def Let_def)

lemma sm_wf_SetAction [simp]: "sm_wf (StateMachineSetAction S st msg f) = sm_wf S"
  by (simp add: sm_wf_def)

lemma sm_cell_Init:
  assumes "n * m \<le> length T" "n * m + b < 2 ^ 32" "st < n" "b \<le> msg" "msg < b + m"
  shows "sm_cell (StateMachineInit T n m d i b) st msg = Some (Some d)"
proof -
  have "st * m + (msg - b) < n * m" using assms by (intro cell_index_less) auto
  moreover have "sm_wf (StateMachineInit T n m d i b)" using assms by (simp add: sm_wf_def)
  ultimately show ?thesis
    using assms sm_cell_eq [of "StateMachineInit T n m d i b" st msg]
    by (simp add: StateMachineInit_def fill_table)
qed

lemma sm_cell_SetAction:
  assumes "sm_wf S" "st < sm_NrState S" "sm_Base S \<le> msg" "msg < sm_Base S + sm_NrMsg S"
    and "msg' < 2 ^ 32"
  shows "sm_cell (StateMachineSetAction S st' msg' f) st msg
    = (if st' = st \<and> msg' = msg then Some (Some f) else sm_cell S st msg)"
proof (cases "st' < sm_NrState S \<and> uint_sub msg' (sm_Base S) < sm_NrMsg S")
  case True
  let ?i = "st * sm_NrMsg S + (msg - sm_Base S)"
  let ?i' = "st' * sm_NrMsg S + uint_sub msg' (sm_Base S)"
  have lt: "?i < sm_NrState S * sm_NrMsg S" using assms by (intro cell_index_less) auto
  have bm: "sm_NrMsg S + sm_Base S < 2 ^ 32"
    using assms True by (cases "sm_NrState S") (auto simp: sm_wf_def)
  have "uint_sub msg' (sm_Base S) = msg - sm_Base S \<longleftrightarrow> msg' = msg"
    using assms bm by (auto simp: uint_sub_def split: if_splits)
  moreover have mi: "msg - sm_Base S < sm_NrMsg S" using assms by linarith
  ultimately have "?i = ?i' \<longleftrightarrow> st' = st \<and> msg' = msg"
    using cell_index_inj [of "msg - sm_Base S" "sm_NrMsg S" "uint_sub msg' (sm_Base S)" st st'] mi True
    by metis
  moreover have "sm_TransFunc (StateMachineSetAction S st' msg' f) = (sm_TransFunc S)[?i' := Some f]"
    using True by (simp add: StateMachineSetAction_def Let_def)
  ultimately show ?thesis
    using assms lt sm_cell_eq [of "StateMachineSetAction S st' msg' f" st msg] sm_cell_eq [of S st msg]
    by (auto simp: sm_wf_def nth_list_update)
next
  case False
  then have "\<not> (st' = st \<and> msg' = msg)" using assms by auto
  moreover have "StateMachineSetAction S st' msg' f = S"
    using False by (auto simp: StateMachineSetAction_def Let_def)
  ultimately show ?thesis by auto
qed

lemma sm_actions_simps [simp]:
  "sm_Base (sm_actions S acts) = sm_Base S"
  "sm_NrState (sm_actions S acts) = sm_NrState S"
  "sm_NrMsg (sm_actions S acts) = sm_NrMsg S"
  "sm_CurrState (sm_actions S acts) = sm_CurrState S"
  "length (sm_TransFunc (sm_actions S acts)) = length (sm_TransFunc S)"
  unfolding sm_actions_def by (induction acts arbitrary: S) auto

lemma sm_cell_actions:
  assumes "n * m \<le> length T" "n * m + b < 2 ^ 32" "st < n" "b \<le> msg" "msg < b + m"
    and "list_all (\<lambda>(s, k, f). k < 2 ^ 32) acts"
  shows "sm_cell (sm_actions (StateMachineInit T n m d i b) acts) st msg = Some (Some (sm_spec acts d st msg))"
  using assms(6)
proof (induction acts rule: rev_induct)
  case Nil
  then show ?case using assms sm_cell_Init [of n m T b st msg] by (simp add: sm_actions_def sm_spec_def)
next
  case (snoc a acts)
  obtain s k f where a: "a = (s, k, f)" by (cases a) auto
  let ?S = "sm_actions (StateMachineInit T n m d i b) acts"
  have "sm_actions (StateMachineInit T n m d i b) (acts @ [a]) = StateMachineSetAction ?S s k f"
    by (simp add: sm_actions_def a)
  moreover have "sm_wf ?S" using assms by (simp add: sm_wf_def)
  ultimately show ?case
    using snoc assms sm_cell_SetAction [of ?S st msg k s f] by (simp add: a sm_spec_def)
qed

section \<open>Lemmas: what a received frame is turned into\<close>

definition msg_ranges :: "(nat \<times> nat) list" where
  "msg_ranges = [(ASSOC_STATE_MACHINE, MAX_ASSOC_MSG), (AUTH_STATE_MACHINE, MAX_AUTH_MSG),
     (AUTH_RSP_STATE_MACHINE, MAX_AUTH_RSP_MSG), (SYNC_STATE_MACHINE, MAX_SYNC_MSG),
     (ACTION_STATE_MACHINE, MAX_ACT_MSG), (WPA_STATE_MACHINE, MAX_WPA_MSG)]"

lemma WpaMsgTypeSubst_range: "WpaMsgTypeSubst e t = (True, t') \<Longrightarrow> t' < MAX_WPA_MSG"
  by (auto simp: WpaMsgTypeSubst_def split: if_splits)

lemma MsgTypeSubst_total: "34 \<le> length frame \<Longrightarrow> MsgTypeSubst frame M T \<noteq> None"
  by (cases frame) (auto simp: MsgTypeSubst_def octet_def Let_def case_prod_beta auth_subst_def action_subst_def)

lemma MsgTypeSubst_range:
  assumes "MsgTypeSubst frame M0 T0 = Some (True, M, T)"
  shows "(\<exists>n. (M, n) \<in> set msg_ranges \<and> T < n) \<or> M = M0 \<and> T = T0 \<and>
    FC_SubType (hd frame) = SUBTYPE_AUTH"
  using assms
  by (auto simp: MsgTypeSubst_def octet_def msg_ranges_def auth_subst_def action_subst_def Let_def
      case_prod_beta hd_conv_nth dest!: WpaMsgTypeSubst_range [OF prod_eqI, simplified]
      split: option.splits if_splits)

section \<open>Property\<close>

text \<open>The state-machine engine is a finite table with a default.  After
  \<^verbatim>\<open>StateMachineInit\<close> on an array with room for all states and messages and any run of
  \<^verbatim>\<open>StateMachineSetAction\<close> calls, \<^verbatim>\<open>StateMachinePerformAction\<close> in a legal state with a legal
  message stays inside the array and calls exactly the function set last for that pair of state
  and message, or the default function when none was set; settings that lie outside the table
  have been ignored.\<close>

theorem StateMachinePerformAction_table:
  assumes "n * m \<le> length T" "n * m + b < 2 ^ 32" "st < n" "b \<le> msg" "msg < b + m"
    and "list_all (\<lambda>(s, k, f). k < 2 ^ 32) acts"
  shows "StateMachinePerformAction call pAd (sm_actions (StateMachineInit T n m d i b) acts) Elem msg st
    = Some (if sm_spec acts d st msg = Drop then pAd else call (sm_spec acts d st msg) pAd Elem)"
  using sm_cell_actions [OF assms] by (simp add: StateMachinePerformAction_def)

theorem StateMachinePerformAction_table_witness:
  "StateMachinePerformAction (\<lambda>f log e. f # log) []
     (sm_actions (StateMachineInit (replicate 6 None) 2 3 Drop 0 10)
       [(1, 11, PeerBeacon), (1, 99, PeerHTAction), (1, 11, PeerDeauthAction)]) () 11 1
   = Some [PeerDeauthAction]"
  using StateMachinePerformAction_table [where n = 2 and m = 3 and T = "replicate 6 None" and b = 10
      and st = 1 and msg = 11 and d = Drop and i = 0 and pAd = "[]" and Elem = "()"
      and call = "\<lambda>f log e. f # log"
      and acts = "[(1, 11, PeerBeacon), (1, 99, PeerHTAction), (1, 11, PeerDeauthAction)]"]
  by (simp add: sm_spec_def)

end
