(* ===== verification/FifoSpec.thy ===== *)
theory FifoSpec
  imports Main
begin

text \<open>
  The contract of a first-in-first-out queue, shared by the ring buffer of management messages
  (\<^verbatim>\<open>MlmeQueue\<close>) and the intrusive linked list (\<^verbatim>\<open>LinkList\<close>).  The concrete operations
  are the parameters; the laws relate them to the list of pending elements.  The client lemma
  says that along every interleaving of calls nothing is lost, duplicated or reordered.
\<close>

text \<open>A history: the elements accepted and the elements delivered by a sequence of calls.\<close>

inductive fifo_steps ::
    "('m \<Rightarrow> 'q \<Rightarrow> bool \<times> 'q) \<Rightarrow> ('q \<Rightarrow> 'm \<times> 'q) \<Rightarrow> ('q \<Rightarrow> bool) \<Rightarrow> ('m \<Rightarrow> 'q \<Rightarrow> bool)
      \<Rightarrow> 'q \<Rightarrow> 'm list \<Rightarrow> 'm list \<Rightarrow> 'q \<Rightarrow> bool"
  for enq deq empty valid q where
  none: "fifo_steps enq deq empty valid q [] [] q"
| accept: "fifo_steps enq deq empty valid q acc del q1 \<Longrightarrow> valid m q1 \<Longrightarrow> enq m q1 = (True, q2)
    \<Longrightarrow> fifo_steps enq deq empty valid q (acc @ [m]) del q2"
| refuse: "fifo_steps enq deq empty valid q acc del q1 \<Longrightarrow> valid m q1 \<Longrightarrow> enq m q1 = (False, q2)
    \<Longrightarrow> fifo_steps enq deq empty valid q acc del q2"
| deliver: "fifo_steps enq deq empty valid q acc del q1 \<Longrightarrow> \<not> empty q1 \<Longrightarrow> deq q1 = (m, q2)
    \<Longrightarrow> fifo_steps enq deq empty valid q acc (del @ [m]) q2"

locale fifo =
  fixes enq :: "'m \<Rightarrow> 'q \<Rightarrow> bool \<times> 'q"
    and deq :: "'q \<Rightarrow> 'm \<times> 'q"
    and empty :: "'q \<Rightarrow> bool"
    and valid :: "'m \<Rightarrow> 'q \<Rightarrow> bool"
    and room :: "'q \<Rightarrow> bool"
    and inv :: "'q \<Rightarrow> bool"
    and pending :: "'q \<Rightarrow> 'm list"
  assumes enq_accepts: "inv q \<Longrightarrow> valid m q \<Longrightarrow> room q \<Longrightarrow>
      fst (enq m q) \<and> inv (snd (enq m q)) \<and> pending (snd (enq m q)) = pending q @ [m]"
    and enq_refuses: "inv q \<Longrightarrow> valid m q \<Longrightarrow> \<not> room q \<Longrightarrow> enq m q = (False, q)"
    and empty_iff: "inv q \<Longrightarrow> empty q \<longleftrightarrow> pending q = []"
    and deq_delivers: "inv q \<Longrightarrow> pending q \<noteq> [] \<Longrightarrow>
      fst (deq q) = hd (pending q) \<and> inv (snd (deq q)) \<and> pending (snd (deq q)) = tl (pending q)"
begin

lemma enq_cases:
  assumes "inv q" "valid m q"
  shows "enq m q = (True, q') \<Longrightarrow> inv q' \<and> pending q' = pending q @ [m]"
    and "enq m q = (False, q') \<Longrightarrow> q' = q \<and> \<not> room q"
  using enq_accepts [OF assms] enq_refuses [OF assms] by (cases "room q"; force)+

lemma deq_cases:
  assumes "inv q" "\<not> empty q" "deq q = (m, q')"
  shows "inv q' \<and> pending q = m # pending q'"
  using deq_delivers [of q] empty_iff [of q] assms by (cases "pending q") auto

lemma history:
  assumes "inv q" "fifo_steps enq deq empty valid q acc del q'"
  shows "inv q' \<and> pending q @ acc = del @ pending q'"
  using assms(2)
proof induction
  case none then show ?case using assms(1) by simp
next
  case (accept acc del q1 m q2)
  then show ?case using enq_cases(1) [of q1 m q2] by (metis append_assoc)
next
  case (refuse acc del q1 m q2)
  then show ?case using enq_cases(2) [of q1 m q2] by simp
next
  case (deliver acc del q1 m q2)
  then show ?case using deq_cases [of q1 m q2] by simp
qed

end

text \<open>A queue with a fixed capacity.\<close>

locale bounded_fifo = fifo +
  fixes cap :: nat
  assumes room_iff: "inv q \<Longrightarrow> room q \<longleftrightarrow> length (pending q) < cap"
    and within_cap: "inv q \<Longrightarrow> length (pending q) \<le> cap"
begin

lemma history_bound:
  assumes "inv q" "fifo_steps enq deq empty valid q acc del q'"
  shows "length (pending q) + length acc \<le> length del + cap"
proof -
  note h = history [OF assms]
  then have "length (pending q) + length acc = length del + length (pending q')"
    by (metis length_append)
  then show ?thesis using within_cap [of q'] h by simp
qed

lemma refused_iff_full:
  assumes "inv q" "valid m q"
  shows "fst (enq m q) = False \<longleftrightarrow> length (pending q) = cap"
  using enq_accepts [OF assms] enq_refuses [OF assms] room_iff [OF assms(1)] within_cap [OF assms(1)]
  by auto

end

end
