(* ===== verification/MlmeQueue.thy ===== *)
theory MlmeQueue
  imports MlmeMachine FifoSpec
begin

text \<open>
  The message queue of the management entity and its main loop (\<^verbatim>\<open>common/mlme.c\<close>): a ring of
  40 slots, filled by \<^verbatim>\<open>MlmeEnqueue\<close> (internal requests, timers) and \<^verbatim>\<open>MlmeEnqueueForRecv\<close>
  (received frames), drained by \<^verbatim>\<open>MlmeHandler\<close>, which dispatches each message to a state
  machine.  \<^verbatim>\<open>ULONG\<close> counters are \<open>nat\<close> with wrap-around at \<open>2 ^ 32\<close>.  Every operation runs
  under the queue's spin lock and is one step.  The handlers a state machine calls are
  parameters; an \<^verbatim>\<open>Elem\<close> pointer is the index of its slot.
\<close>

section \<open>Data\<close>

abbreviation (input) MAX_LEN_OF_MLME_QUEUE :: nat where "MAX_LEN_OF_MLME_QUEUE \<equiv> 40"
abbreviation (input) MGMT_DMA_BUFFER_SIZE :: nat where "MGMT_DMA_BUFFER_SIZE \<equiv> 1600"
abbreviation (input) RESERVED_WCID :: UINT8 where "RESERVED_WCID \<equiv> 0xff"

record MLME_QUEUE_ELEM =
  me_Msg :: bytes
  me_Machine :: nat
  me_MsgType :: nat
  me_MsgLen :: nat
  me_TimeStampHigh :: UINT32
  me_TimeStampLow :: UINT32
  me_Rssi0 :: UINT8
  me_Rssi1 :: UINT8
  me_Rssi2 :: UINT8
  me_AntSel :: UINT8
  me_Signal :: UINT8
  me_Channel :: UINT8
  me_Wcid :: UINT8
  me_Occupied :: bool
  me_OpMode :: UINT8
  me_Priv :: nat

record MLME_QUEUE =
  mq_Num :: nat
  mq_Head :: nat
  mq_Tail :: nat
  mq_Entry :: "MLME_QUEUE_ELEM list"

text \<open>Calls that leave the modelled state, in the order they are made.\<close>

datatype MLME_TIMER = AssocTimer | ReassocTimer | DisassocTimer | AuthTimer | BeaconTimer | ScanTimer
  | LinkDownTimer | StaQuickResponeForRateUpTimer | WpaDisassocAndBlockAssocTimer | AutoWakeupTimer
  | PeriodicTimer | RxAntEvalTimer

datatype mlme_effect = RTMPInitTimer MLME_TIMER | RTMPSetTimer MLME_TIMER nat
  | RTMPCancelTimer MLME_TIMER | BssTableInit
  | AsicSwitchChannel UINT8 | AsicLockChannel UINT8 | RTMPResumeMsduTransmission | RTUSBMlmeUp

record RTMP_ADAPTER =
  ad_Flags :: UINT32
  ad_Queue :: MLME_QUEUE
  ad_bRunning :: bool
  ad_CntlMachine :: STATE_MACHINE
  ad_AssocMachine :: STATE_MACHINE
  ad_AuthMachine :: STATE_MACHINE
  ad_AuthRspMachine :: STATE_MACHINE
  ad_SyncMachine :: STATE_MACHINE
  ad_WpaPskMachine :: STATE_MACHINE
  ad_ActMachine :: STATE_MACHINE
  ad_WpaMachine :: STATE_MACHINE
  ad_Channel :: UINT8
  ad_LatchChannel :: UINT8
  ad_RateUpTimerRunning :: bool
  ad_AutoWakeupTimerRunning :: bool
  ad_Log :: "mlme_effect list"

definition RTMP_TEST_FLAG :: "'x RTMP_ADAPTER_scheme \<Rightarrow> UINT32 \<Rightarrow> bool" where
  "RTMP_TEST_FLAG pAd F \<longleftrightarrow> ad_Flags pAd AND F \<noteq> 0"

abbreviation (input) fRTMP_ADAPTER_MLME_RESET_IN_PROGRESS :: UINT32 where
  "fRTMP_ADAPTER_MLME_RESET_IN_PROGRESS \<equiv> 0x00000020"
abbreviation (input) fRTMP_ADAPTER_HALT_IN_PROGRESS :: UINT32 where
  "fRTMP_ADAPTER_HALT_IN_PROGRESS \<equiv> 0x00000040"
abbreviation (input) fRTMP_ADAPTER_NIC_NOT_EXIST :: UINT32 where
  "fRTMP_ADAPTER_NIC_NOT_EXIST \<equiv> 0x00000100"
abbreviation (input) fRTMP_ADAPTER_SUSPEND :: UINT32 where
  "fRTMP_ADAPTER_SUSPEND \<equiv> 0x00800000"

section \<open>The queue\<close>

definition MlmeQueueInit :: "MLME_QUEUE \<Rightarrow> MLME_QUEUE" where
  "MlmeQueueInit q = \<lparr>mq_Num = 0, mq_Head = 0, mq_Tail = 0,
     mq_Entry = map (\<lambda>e. e\<lparr>me_Occupied := False, me_MsgLen := 0,
       me_Msg := NdisZeroMemory MGMT_DMA_BUFFER_SIZE\<rparr>) (take MAX_LEN_OF_MLME_QUEUE (mq_Entry q))\<rparr>"

definition MlmeQueueEmpty :: "MLME_QUEUE \<Rightarrow> bool" where
  "MlmeQueueEmpty q \<longleftrightarrow> mq_Num q = 0"

definition MlmeQueueFull :: "MLME_QUEUE \<Rightarrow> nat \<Rightarrow> bool" where
  "MlmeQueueFull q SendId \<longleftrightarrow>
    (if SendId = 0
     then mq_Num q \<ge> MAX_LEN_OF_MLME_QUEUE div 2 \<or> me_Occupied (mq_Entry q ! mq_Tail q)
     else mq_Num q = MAX_LEN_OF_MLME_QUEUE)"

text \<open>Taking the slot at the tail, common to both enqueue functions.\<close>

definition mq_advance_tail :: "MLME_QUEUE \<Rightarrow> MLME_QUEUE" where
  "mq_advance_tail q =
    (let t = uint_add (mq_Tail q) 1
     in q\<lparr>mq_Tail := (if t = MAX_LEN_OF_MLME_QUEUE then 0 else t), mq_Num := uint_add (mq_Num q) 1\<rparr>)"

definition mq_store :: "bytes \<Rightarrow> nat \<Rightarrow> bytes option \<Rightarrow> bytes" where
  "mq_store buf MsgLen Msg = (case Msg of None \<Rightarrow> buf | Some m \<Rightarrow> NdisMoveMemory buf 0 (take MsgLen m))"

definition MlmeEnqueue ::
    "'x RTMP_ADAPTER_scheme \<Rightarrow> nat \<Rightarrow> nat \<Rightarrow> nat \<Rightarrow> bytes option \<Rightarrow> nat \<Rightarrow> bool \<times> 'x RTMP_ADAPTER_scheme" where
  "MlmeEnqueue pAd Machine MsgType MsgLen Msg Priv =
    (let q = ad_Queue pAd in
     if RTMP_TEST_FLAG pAd (fRTMP_ADAPTER_HALT_IN_PROGRESS OR fRTMP_ADAPTER_NIC_NOT_EXIST)
     then (False, pAd)
     else if MsgLen > MGMT_DMA_BUFFER_SIZE then (False, pAd)
     else if MlmeQueueFull q 1 then (False, pAd)
     else let t = mq_Tail q; e = mq_Entry q ! t in
       (True, pAd\<lparr>ad_Queue := (mq_advance_tail q)\<lparr>mq_Entry := (mq_Entry q)[t :=
          e\<lparr>me_Wcid := RESERVED_WCID, me_Occupied := True, me_Machine := Machine,
            me_MsgType := MsgType, me_MsgLen := MsgLen, me_Priv := Priv,
            me_Msg := mq_store (me_Msg e) MsgLen Msg\<rparr>]\<rparr>\<rparr>))"

record rx_info =
  rx_Wcid :: UINT32
  rx_TimeStampHigh :: UINT32
  rx_TimeStampLow :: UINT32
  rx_Rssi0 :: UINT8
  rx_Rssi1 :: UINT8
  rx_Rssi2 :: UINT8
  rx_AntSel :: UINT8
  rx_Signal :: UINT8
  rx_OpMode :: UINT8

text \<open>\<open>None\<close>: the frame is shorter than the fields that \<^verbatim>\<open>MsgTypeSubst\<close> reads.\<close>

definition MlmeEnqueueForRecv ::
    "'x RTMP_ADAPTER_scheme \<Rightarrow> rx_info \<Rightarrow> nat \<Rightarrow> bytes \<Rightarrow> (bool \<times> 'x RTMP_ADAPTER_scheme) option" where
  "MlmeEnqueueForRecv pAd rx MsgLen Msg =
    (let q = ad_Queue pAd in
     if RTMP_TEST_FLAG pAd (fRTMP_ADAPTER_HALT_IN_PROGRESS OR fRTMP_ADAPTER_NIC_NOT_EXIST)
     then Some (False, pAd)
     else if MsgLen > MGMT_DMA_BUFFER_SIZE then Some (False, pAd)
     else if MlmeQueueFull q 0 then Some (False, pAd)
     else case MsgTypeSubst Msg 0xff 0 of None \<Rightarrow> None
     | Some (ok, Machine, MsgType) \<Rightarrow>
       (if \<not> ok then Some (False, pAd)
        else let t = mq_Tail q; e = mq_Entry q ! t in
          Some (True, pAd\<lparr>ad_Queue := (mq_advance_tail q)\<lparr>mq_Entry := (mq_Entry q)[t :=
             e\<lparr>me_Occupied := True, me_Machine := Machine, me_MsgType := MsgType, me_MsgLen := MsgLen,
               me_TimeStampLow := rx_TimeStampLow rx, me_TimeStampHigh := rx_TimeStampHigh rx,
               me_Rssi0 := rx_Rssi0 rx, me_Rssi1 := rx_Rssi1 rx, me_Rssi2 := rx_Rssi2 rx,
               me_AntSel := rx_AntSel rx, me_Signal := rx_Signal rx, me_Wcid := ucast (rx_Wcid rx),
               me_OpMode := rx_OpMode rx, me_Priv := 0, me_Channel := ad_LatchChannel pAd,
               me_Msg := mq_store (me_Msg e) MsgLen (Some Msg)\<rparr>]\<rparr>,
             ad_Log := ad_Log pAd @ [RTUSBMlmeUp]\<rparr>)))"

text \<open>The element is returned as the index of its slot.\<close>

definition MlmeDequeue :: "MLME_QUEUE \<Rightarrow> nat \<times> MLME_QUEUE" where
  "MlmeDequeue q =
    (let h = uint_add (mq_Head q) 1
     in (mq_Head q, q\<lparr>mq_Num := uint_sub (mq_Num q) 1,
           mq_Head := (if h = MAX_LEN_OF_MLME_QUEUE then 0 else h)\<rparr>))"

definition MlmeQueueDestroy :: "MLME_QUEUE \<Rightarrow> MLME_QUEUE" where
  "MlmeQueueDestroy q = q\<lparr>mq_Num := 0, mq_Head := 0, mq_Tail := 0\<rparr>"

section \<open>The management task\<close>

definition MlmeRestartStateMachine :: "'x RTMP_ADAPTER_scheme \<Rightarrow> 'x RTMP_ADAPTER_scheme" where
  "MlmeRestartStateMachine pAd = pAd\<lparr>
     ad_Log := ad_Log pAd @ map RTMPCancelTimer
         [AssocTimer, ReassocTimer, DisassocTimer, AuthTimer, BeaconTimer, ScanTimer]
       @ [AsicSwitchChannel (ad_Channel pAd), AsicLockChannel (ad_Channel pAd), RTMPResumeMsduTransmission],
     ad_CntlMachine := (ad_CntlMachine pAd)\<lparr>sm_CurrState := CNTL_IDLE\<rparr>,
     ad_AssocMachine := (ad_AssocMachine pAd)\<lparr>sm_CurrState := ASSOC_IDLE\<rparr>,
     ad_AuthMachine := (ad_AuthMachine pAd)\<lparr>sm_CurrState := AUTH_REQ_IDLE\<rparr>,
     ad_AuthRspMachine := (ad_AuthRspMachine pAd)\<lparr>sm_CurrState := AUTH_RSP_IDLE\<rparr>,
     ad_SyncMachine := (ad_SyncMachine pAd)\<lparr>sm_CurrState := SYNC_IDLE\<rparr>,
     ad_ActMachine := (ad_ActMachine pAd)\<lparr>sm_CurrState := ACT_IDLE\<rparr>\<rparr>"

text \<open>The arrays that hold the transition tables, as they are before initialisation.\<close>

record MLME_FUNCS =
  AssocFunc :: "STATE_MACHINE_FUNC option list"
  AuthFunc :: "STATE_MACHINE_FUNC option list"
  AuthRspFunc :: "STATE_MACHINE_FUNC option list"
  SyncFunc :: "STATE_MACHINE_FUNC option list"
  WpaFunc :: "STATE_MACHINE_FUNC option list"
  ActFunc :: "STATE_MACHINE_FUNC option list"

definition MlmeInit :: "MLME_FUNCS \<Rightarrow> 'x RTMP_ADAPTER_scheme \<Rightarrow> 'x RTMP_ADAPTER_scheme" where
  "MlmeInit fs pAd = pAd\<lparr>
     ad_Queue := MlmeQueueInit (ad_Queue pAd),
     ad_bRunning := False,
     ad_AssocMachine := AssocStateMachineInit (AssocFunc fs),
     ad_AuthMachine := AuthStateMachineInit (AuthFunc fs),
     ad_AuthRspMachine := AuthRspStateMachineInit (AuthRspFunc fs),
     ad_SyncMachine := SyncStateMachineInit (SyncFunc fs),
     ad_CntlMachine := (ad_CntlMachine pAd)\<lparr>sm_CurrState := CNTL_IDLE\<rparr>,
     ad_RateUpTimerRunning := False,
     ad_AutoWakeupTimerRunning := False,
     ad_WpaMachine := WpaStateMachineInit (WpaFunc fs),
     ad_ActMachine := ActionStateMachineInit (ActFunc fs),
     ad_Log := ad_Log pAd @ BssTableInit # map RTMPInitTimer [AssocTimer, ReassocTimer, DisassocTimer,
         AuthTimer, BeaconTimer, ScanTimer, LinkDownTimer, StaQuickResponeForRateUpTimer,
         WpaDisassocAndBlockAssocTimer, AutoWakeupTimer, PeriodicTimer]
       @ [RTMPSetTimer PeriodicTimer 100, RTMPInitTimer RxAntEvalTimer]\<rparr>"

text \<open>\<^verbatim>\<open>Elem->Occupied = FALSE; Elem->MsgLen = 0\<close>\<close>

definition mlme_free :: "nat \<Rightarrow> 'x RTMP_ADAPTER_scheme \<Rightarrow> 'x RTMP_ADAPTER_scheme" where
  "mlme_free i pAd = pAd\<lparr>ad_Queue := (ad_Queue pAd)\<lparr>mq_Entry := (mq_Entry (ad_Queue pAd))[i :=
     (mq_Entry (ad_Queue pAd) ! i)\<lparr>me_Occupied := False, me_MsgLen := 0\<rparr>]\<rparr>\<rparr>"

definition mlme_switch ::
    "(STATE_MACHINE_FUNC \<Rightarrow> 'x RTMP_ADAPTER_scheme \<Rightarrow> nat \<Rightarrow> 'x RTMP_ADAPTER_scheme)
      \<Rightarrow> ('x RTMP_ADAPTER_scheme \<Rightarrow> nat \<Rightarrow> 'x RTMP_ADAPTER_scheme)
      \<Rightarrow> 'x RTMP_ADAPTER_scheme \<Rightarrow> nat \<Rightarrow> nat \<Rightarrow> nat \<Rightarrow> 'x RTMP_ADAPTER_scheme option" where
  "mlme_switch call cntl pAd Elem Machine MsgType =
    (let perform = (\<lambda>S. StateMachinePerformAction call pAd S Elem MsgType (sm_CurrState S)) in
     if Machine = ASSOC_STATE_MACHINE then perform (ad_AssocMachine pAd)
     else if Machine = AUTH_STATE_MACHINE then perform (ad_AuthMachine pAd)
     else if Machine = AUTH_RSP_STATE_MACHINE then perform (ad_AuthRspMachine pAd)
     else if Machine = SYNC_STATE_MACHINE then perform (ad_SyncMachine pAd)
     else if Machine = MLME_CNTL_STATE_MACHINE then Some (cntl pAd Elem)
     else if Machine = WPA_PSK_STATE_MACHINE then perform (ad_WpaPskMachine pAd)
     else if Machine = ACTION_STATE_MACHINE then perform (ad_ActMachine pAd)
     else if Machine = WPA_STATE_MACHINE then perform (ad_WpaMachine pAd)
     else Some pAd)"

text \<open>One round of the loop, from \<^verbatim>\<open>MlmeDequeue\<close> to the release of the element.\<close>

definition mlme_round ::
    "(STATE_MACHINE_FUNC \<Rightarrow> 'x RTMP_ADAPTER_scheme \<Rightarrow> nat \<Rightarrow> 'x RTMP_ADAPTER_scheme)
      \<Rightarrow> ('x RTMP_ADAPTER_scheme \<Rightarrow> nat \<Rightarrow> 'x RTMP_ADAPTER_scheme)
      \<Rightarrow> 'x RTMP_ADAPTER_scheme \<Rightarrow> 'x RTMP_ADAPTER_scheme option" where
  "mlme_round call cntl pAd =
    (let (i, q) = MlmeDequeue (ad_Queue pAd); pAd1 = pAd\<lparr>ad_Queue := q\<rparr>; e = mq_Entry q ! i in
     if me_MsgType e = MT2_RESET_CONF then Some (mlme_free i (MlmeRestartStateMachine pAd1))
     else map_option (mlme_free i) (mlme_switch call cntl pAd1 i (me_Machine e) (me_MsgType e)))"

definition mlme_stop :: "'x RTMP_ADAPTER_scheme \<Rightarrow> bool" where
  "mlme_stop pAd \<longleftrightarrow> RTMP_TEST_FLAG pAd fRTMP_ADAPTER_MLME_RESET_IN_PROGRESS
     \<or> RTMP_TEST_FLAG pAd fRTMP_ADAPTER_HALT_IN_PROGRESS
     \<or> RTMP_TEST_FLAG pAd fRTMP_ADAPTER_NIC_NOT_EXIST
     \<or> RTMP_TEST_FLAG pAd fRTMP_ADAPTER_SUSPEND"

partial_function (option) mlme_loop ::
    "(STATE_MACHINE_FUNC \<Rightarrow> 'x RTMP_ADAPTER_scheme \<Rightarrow> nat \<Rightarrow> 'x RTMP_ADAPTER_scheme)
      \<Rightarrow> ('x RTMP_ADAPTER_scheme \<Rightarrow> nat \<Rightarrow> 'x RTMP_ADAPTER_scheme)
      \<Rightarrow> 'x RTMP_ADAPTER_scheme \<Rightarrow> 'x RTMP_ADAPTER_scheme option" where
  "mlme_loop call cntl pAd =
    (if MlmeQueueEmpty (ad_Queue pAd) \<or> mlme_stop pAd then Some pAd
     else case mlme_round call cntl pAd of None \<Rightarrow> None | Some pAd' \<Rightarrow> mlme_loop call cntl pAd')"

definition MlmeHandler ::
    "(STATE_MACHINE_FUNC \<Rightarrow> 'x RTMP_ADAPTER_scheme \<Rightarrow> nat \<Rightarrow> 'x RTMP_ADAPTER_scheme)
      \<Rightarrow> ('x RTMP_ADAPTER_scheme \<Rightarrow> nat \<Rightarrow> 'x RTMP_ADAPTER_scheme)
      \<Rightarrow> 'x RTMP_ADAPTER_scheme \<Rightarrow> 'x RTMP_ADAPTER_scheme option" where
  "MlmeHandler call cntl pAd =
    (if ad_bRunning pAd then Some pAd
     else map_option (\<lambda>p. p\<lparr>ad_bRunning := False\<rparr>) (mlme_loop call cntl (pAd\<lparr>ad_bRunning := True\<rparr>)))"

section \<open>Lemmas: the ring is a bounded first-in-first-out queue\<close>

definition mq_inv :: "MLME_QUEUE \<Rightarrow> bool" where
  "mq_inv q \<longleftrightarrow> length (mq_Entry q) = MAX_LEN_OF_MLME_QUEUE \<and> mq_Num q \<le> MAX_LEN_OF_MLME_QUEUE
     \<and> mq_Head q < MAX_LEN_OF_MLME_QUEUE \<and> mq_Tail q = (mq_Head q + mq_Num q) mod MAX_LEN_OF_MLME_QUEUE
     \<and> list_all (\<lambda>e. length (me_Msg e) = MGMT_DMA_BUFFER_SIZE) (mq_Entry q)"

definition mq_pending :: "MLME_QUEUE \<Rightarrow> MLME_QUEUE_ELEM list" where
  "mq_pending q = map (\<lambda>k. mq_Entry q ! ((mq_Head q + k) mod MAX_LEN_OF_MLME_QUEUE)) [0..<mq_Num q]"

text \<open>The message a client sees in a slot.\<close>

type_synonym mlme_msg = "nat \<times> nat \<times> nat \<times> bytes"

definition me_view :: "MLME_QUEUE_ELEM \<Rightarrow> mlme_msg" where
  "me_view e = (me_Machine e, me_MsgType e, me_Priv e, take (me_MsgLen e) (me_Msg e))"

lemma length_mq_pending [simp]: "length (mq_pending q) = mq_Num q"
  by (simp add: mq_pending_def)

lemma mod_40: "x < 80 \<Longrightarrow> x mod 40 = (if x < 40 then x else x - (40 :: nat))"
  by (simp add: mod_if)

lemma ring_distinct: "h < 40 \<Longrightarrow> k < n \<Longrightarrow> n < 40 \<Longrightarrow> (h + k) mod 40 \<noteq> (h + n) mod (40 :: nat)"
  using mod_40 [of "h + k"] mod_40 [of "h + n"] by (auto split: if_splits)

lemma ring_next: "h < 40 \<Longrightarrow> (if h + 1 = 40 then 0 else h + 1) = (h + 1) mod (40 :: nat)"
  by simp

lemma mq_inv_init:
  "40 \<le> length (mq_Entry q) \<Longrightarrow> mq_inv (MlmeQueueInit q) \<and> mq_pending (MlmeQueueInit q) = []"
  by (simp add: mq_inv_def MlmeQueueInit_def mq_pending_def list_all_iff)

lemma mq_advance_tail_eq:
  assumes "mq_inv q" "mq_Num q < 40"
  shows "mq_advance_tail q = q\<lparr>mq_Tail := (mq_Head q + (mq_Num q + 1)) mod 40, mq_Num := mq_Num q + 1\<rparr>"
proof -
  have t: "mq_Tail q < 40" using assms by (simp add: mq_inv_def)
  have "(if mq_Tail q + 1 = 40 then 0 else mq_Tail q + 1) = (mq_Head q + (mq_Num q + 1)) mod 40"
    using assms ring_next [OF t] by (simp add: mq_inv_def mod_Suc_eq)
  moreover have "uint_add (mq_Tail q) 1 = mq_Tail q + 1" "uint_add (mq_Num q) 1 = mq_Num q + 1"
    using t assms(2) by simp_all
  ultimately show ?thesis unfolding mq_advance_tail_def Let_def by (simp only:)
qed

lemma mq_put:
  assumes "mq_inv q" "mq_Num q < 40" "length (me_Msg e) = 1600"
  defines "q' \<equiv> (mq_advance_tail q)\<lparr>mq_Entry := (mq_Entry q)[mq_Tail q := e]\<rparr>"
  shows "mq_inv q'" "mq_pending q' = mq_pending q @ [e]"
proof -
  have t: "mq_Tail q = (mq_Head q + mq_Num q) mod 40" "mq_Head q < 40" "length (mq_Entry q) = 40"
    using assms(1) by (simp_all add: mq_inv_def)
  have "list_all (\<lambda>e. length (me_Msg e) = 1600) ((mq_Entry q)[mq_Tail q := e])"
    using assms(1,3) set_update_subset_insert [of "mq_Entry q" "mq_Tail q" e]
    by (auto simp: list_all_iff mq_inv_def)
  then show "mq_inv q'"
    using assms(1,2) by (simp add: q'_def mq_advance_tail_eq [OF assms(1,2)]) (simp add: mq_inv_def)
  have "(mq_Entry q)[mq_Tail q := e] ! ((mq_Head q + k) mod 40) = mq_Entry q ! ((mq_Head q + k) mod 40)"
    if "k < mq_Num q" for k
    using ring_distinct [OF t(2) that assms(2)] t(1) by simp
  then show "mq_pending q' = mq_pending q @ [e]"
    using t by (simp add: q'_def mq_advance_tail_eq [OF assms(1,2)] mq_pending_def)
qed

lemma mq_get:
  assumes "mq_inv q" "mq_Num q \<noteq> 0"
  shows "fst (MlmeDequeue q) = mq_Head q" "mq_inv (snd (MlmeDequeue q))"
    "mq_Entry (snd (MlmeDequeue q)) = mq_Entry q"
    "mq_pending q = mq_Entry q ! mq_Head q # mq_pending (snd (MlmeDequeue q))"
proof -
  have h: "mq_Head q < 40" "mq_Num q \<le> 40" using assms(1) by (simp_all add: mq_inv_def)
  have eq: "MlmeDequeue q = (mq_Head q, q\<lparr>mq_Num := mq_Num q - 1, mq_Head := (mq_Head q + 1) mod 40\<rparr>)"
    using h assms(2) ring_next [OF h(1)] by (simp add: MlmeDequeue_def Let_def)
  then show "fst (MlmeDequeue q) = mq_Head q" "mq_Entry (snd (MlmeDequeue q)) = mq_Entry q" by simp_all
  have "((mq_Head q + 1) mod 40 + (mq_Num q - 1)) mod 40 = (mq_Head q + mq_Num q) mod 40"
    using assms(2) by (subst mod_add_left_eq) simp
  then show "mq_inv (snd (MlmeDequeue q))" using assms(1) le_trans [OF diff_le_self h(2)]
    by (simp add: eq mq_inv_def)
  have "[0..<mq_Num q] = 0 # map Suc [0..<mq_Num q - 1]"
    using assms(2) by (simp add: map_Suc_upt upt_conv_Cons)
  then show "mq_pending q = mq_Entry q ! mq_Head q # mq_pending (snd (MlmeDequeue q))"
    using h(1) by (simp add: eq mq_pending_def o_def mod_simps)
qed

lemma mq_store_length [simp]:
  "length buf = 1600 \<Longrightarrow> n \<le> 1600 \<Longrightarrow> length (mq_store buf n m) = 1600"
  by (cases m) (auto simp: mq_store_def length_NdisMoveMemory)

lemma take_mq_store: "length c \<le> length buf \<Longrightarrow> take (length c) (mq_store buf (length c) (Some c)) = c"
  by (simp add: mq_store_def NdisMoveMemory_def)

section \<open>Interpretation of the queue contract\<close>

definition mlme_enq :: "mlme_msg \<Rightarrow> 'x RTMP_ADAPTER_scheme \<Rightarrow> bool \<times> 'x RTMP_ADAPTER_scheme" where
  "mlme_enq = (\<lambda>(Machine, MsgType, Priv, c) pAd. MlmeEnqueue pAd Machine MsgType (length c) (Some c) Priv)"

definition mlme_deq :: "'x RTMP_ADAPTER_scheme \<Rightarrow> mlme_msg \<times> 'x RTMP_ADAPTER_scheme" where
  "mlme_deq pAd = (let (i, q) = MlmeDequeue (ad_Queue pAd) in (me_view (mq_Entry q ! i), pAd\<lparr>ad_Queue := q\<rparr>))"

definition mlme_empty :: "'x RTMP_ADAPTER_scheme \<Rightarrow> bool" where
  "mlme_empty pAd = MlmeQueueEmpty (ad_Queue pAd)"

definition mlme_valid :: "mlme_msg \<Rightarrow> 'x RTMP_ADAPTER_scheme \<Rightarrow> bool" where
  "mlme_valid = (\<lambda>(Machine, MsgType, Priv, c) pAd. length c \<le> MGMT_DMA_BUFFER_SIZE)"

definition mlme_running :: "'x RTMP_ADAPTER_scheme \<Rightarrow> bool" where
  "mlme_running pAd \<longleftrightarrow> mq_inv (ad_Queue pAd)
     \<and> \<not> RTMP_TEST_FLAG pAd (fRTMP_ADAPTER_HALT_IN_PROGRESS OR fRTMP_ADAPTER_NIC_NOT_EXIST)"

definition mlme_pending :: "'x RTMP_ADAPTER_scheme \<Rightarrow> mlme_msg list" where
  "mlme_pending pAd = map me_view (mq_pending (ad_Queue pAd))"

lemma MlmeEnqueue_full: "mq_Num (ad_Queue pAd) = 40 \<Longrightarrow> MlmeEnqueue pAd M T n m P = (False, pAd)"
  by (simp add: MlmeEnqueue_def MlmeQueueFull_def Let_def)

lemma mq_inv_entry: "mq_inv q \<Longrightarrow> i < 40 \<Longrightarrow> length (me_Msg (mq_Entry q ! i)) = 1600"
  by (simp add: mq_inv_def list_all_length)

lemma mlme_enq_accepts:
  assumes "mlme_running pAd" "mlme_valid m pAd" "mq_Num (ad_Queue pAd) < 40"
  shows "fst (mlme_enq m pAd) \<and> mlme_running (snd (mlme_enq m pAd))
    \<and> mlme_pending (snd (mlme_enq m pAd)) = mlme_pending pAd @ [m]"
proof -
  obtain M T P c where m: "m = (M, T, P, c)" by (cases m) auto
  let ?q = "ad_Queue pAd"
  let ?e = "mq_Entry ?q ! mq_Tail ?q"
  let ?e' = "?e\<lparr>me_Wcid := RESERVED_WCID, me_Occupied := True, me_Machine := M, me_MsgType := T,
    me_MsgLen := length c, me_Priv := P, me_Msg := mq_store (me_Msg ?e) (length c) (Some c)\<rparr>"
  have inv: "mq_inv ?q" and c: "length c \<le> 1600" using assms m by (simp_all add: mlme_running_def mlme_valid_def)
  then have "length (me_Msg ?e) = 1600" by (intro mq_inv_entry) (auto simp: mq_inv_def)
  then have e': "length (me_Msg ?e') = 1600" "me_view ?e' = m"
    using c m by (simp_all add: me_view_def take_mq_store)
  have enq: "mlme_enq m pAd
    = (True, pAd\<lparr>ad_Queue := (mq_advance_tail ?q)\<lparr>mq_Entry := (mq_Entry ?q)[mq_Tail ?q := ?e']\<rparr>\<rparr>)"
    using assms c m
    by (simp add: mlme_enq_def MlmeEnqueue_def mlme_running_def MlmeQueueFull_def Let_def)
  show ?thesis
    using mq_put [OF inv assms(3) e'(1)] assms(1) e'(2)
    by (simp add: enq mlme_running_def mlme_pending_def RTMP_TEST_FLAG_def)
qed

lemma mlme_deq_delivers:
  assumes "mlme_running pAd" "mlme_pending pAd \<noteq> []"
  shows "fst (mlme_deq pAd) = hd (mlme_pending pAd) \<and> mlme_running (snd (mlme_deq pAd))
    \<and> mlme_pending (snd (mlme_deq pAd)) = tl (mlme_pending pAd)"
proof -
  have inv: "mq_inv (ad_Queue pAd)" and n: "mq_Num (ad_Queue pAd) \<noteq> 0"
    using assms by (auto simp: mlme_running_def mlme_pending_def mq_pending_def)
  note g = mq_get [OF inv n]
  show ?thesis
    using g assms(1)
    by (simp add: mlme_deq_def case_prod_beta mlme_running_def mlme_pending_def RTMP_TEST_FLAG_def)
qed

interpretation mlmeq: bounded_fifo mlme_enq mlme_deq mlme_empty mlme_valid
    "\<lambda>pAd. mq_Num (ad_Queue pAd) < 40" mlme_running mlme_pending 40
proof unfold_locales
  fix pAd :: "'x RTMP_ADAPTER_scheme" and m
  show "mlme_running pAd \<Longrightarrow> mlme_valid m pAd \<Longrightarrow> mq_Num (ad_Queue pAd) < 40 \<Longrightarrow>
      fst (mlme_enq m pAd) \<and> mlme_running (snd (mlme_enq m pAd))
      \<and> mlme_pending (snd (mlme_enq m pAd)) = mlme_pending pAd @ [m]"
    by (rule mlme_enq_accepts)
  show "mlme_running pAd \<Longrightarrow> mlme_valid m pAd \<Longrightarrow> \<not> mq_Num (ad_Queue pAd) < 40 \<Longrightarrow>
      mlme_enq m pAd = (False, pAd)"
    by (cases m) (auto simp: mlme_running_def mq_inv_def mlme_enq_def intro!: MlmeEnqueue_full)
  show "mlme_running pAd \<Longrightarrow> mlme_empty pAd = (mlme_pending pAd = [])"
    by (simp add: mlme_empty_def MlmeQueueEmpty_def mlme_pending_def mq_pending_def)
  show "mlme_running pAd \<Longrightarrow> mlme_pending pAd \<noteq> [] \<Longrightarrow>
      fst (mlme_deq pAd) = hd (mlme_pending pAd) \<and> mlme_running (snd (mlme_deq pAd))
      \<and> mlme_pending (snd (mlme_deq pAd)) = tl (mlme_pending pAd)"
    by (rule mlme_deq_delivers)
  show "mlme_running pAd \<Longrightarrow> (mq_Num (ad_Queue pAd) < 40) = (length (mlme_pending pAd) < 40)"
    by (simp add: mlme_pending_def)
  show "mlme_running pAd \<Longrightarrow> length (mlme_pending pAd) \<le> 40"
    by (simp add: mlme_pending_def mlme_running_def mq_inv_def)
qed

section \<open>Lemmas: the task loop\<close>

text \<open>A transition table as installed: its size, a base of zero and a legal current state.\<close>

definition table_ok :: "STATE_MACHINE \<Rightarrow> nat \<Rightarrow> nat \<Rightarrow> bool" where
  "table_ok S n m \<longleftrightarrow> sm_wf S \<and> sm_NrState S = n \<and> sm_NrMsg S = m \<and> sm_Base S = 0 \<and> sm_CurrState S < n"

text \<open>A message that the switch of \<^verbatim>\<open>MlmeHandler\<close> can dispatch inside the tables.\<close>

definition mt_ok :: "nat \<Rightarrow> nat \<Rightarrow> bool" where
  "mt_ok M T \<longleftrightarrow> T = MT2_RESET_CONF
     \<or> list_all (\<lambda>(k, n). k = M \<longrightarrow> T < n) msg_ranges \<and> M \<noteq> WPA_PSK_STATE_MACHINE"

definition mlme_ok :: "'x RTMP_ADAPTER_scheme \<Rightarrow> bool" where
  "mlme_ok pAd \<longleftrightarrow> mq_inv (ad_Queue pAd)
     \<and> table_ok (ad_AssocMachine pAd) MAX_ASSOC_STATE MAX_ASSOC_MSG
     \<and> table_ok (ad_AuthMachine pAd) MAX_AUTH_STATE MAX_AUTH_MSG
     \<and> table_ok (ad_AuthRspMachine pAd) MAX_AUTH_RSP_STATE MAX_AUTH_RSP_MSG
     \<and> table_ok (ad_SyncMachine pAd) MAX_SYNC_STATE MAX_SYNC_MSG
     \<and> table_ok (ad_ActMachine pAd) MAX_ACT_STATE MAX_ACT_MSG
     \<and> table_ok (ad_WpaMachine pAd) MAX_WPA_PTK_STATE MAX_WPA_MSG
     \<and> list_all (\<lambda>e. mt_ok (me_Machine e) (me_MsgType e)) (mq_pending (ad_Queue pAd))"

definition mlme_weight :: "(nat \<Rightarrow> nat \<Rightarrow> nat) \<Rightarrow> 'x RTMP_ADAPTER_scheme \<Rightarrow> nat" where
  "mlme_weight w pAd = sum_list (map (\<lambda>e. w (me_Machine e) (me_MsgType e)) (mq_pending (ad_Queue pAd)))"

text \<open>The kind of a message.\<close>

definition me_kind :: "MLME_QUEUE_ELEM \<Rightarrow> nat \<times> nat" where
  "me_kind e = (me_Machine e, me_MsgType e)"

text \<open>The contract of the handlers: whatever the switch does for a message, it keeps the
  invariant, and the messages it queues weigh less than the message it handles.\<close>

definition handlers_respect ::
    "(nat \<Rightarrow> nat \<Rightarrow> nat)
      \<Rightarrow> (STATE_MACHINE_FUNC \<Rightarrow> 'x RTMP_ADAPTER_scheme \<Rightarrow> nat \<Rightarrow> 'x RTMP_ADAPTER_scheme)
      \<Rightarrow> ('x RTMP_ADAPTER_scheme \<Rightarrow> nat \<Rightarrow> 'x RTMP_ADAPTER_scheme) \<Rightarrow> bool" where
  "handlers_respect w call cntl \<longleftrightarrow> (\<forall>M. 0 < w M MT2_RESET_CONF) \<and>
    (\<forall>pAd i r M T. mlme_ok pAd \<and> i < MAX_LEN_OF_MLME_QUEUE
        \<and> me_kind (mq_Entry (ad_Queue pAd) ! i) = (M, T) \<and> mt_ok M T
        \<and> mlme_switch call cntl pAd i M T = Some r
      \<longrightarrow> mlme_ok r \<and> mlme_weight w r < mlme_weight w pAd + w M T)"

lemma table_ok_cell: "table_ok S n m \<Longrightarrow> T < m \<Longrightarrow> \<exists>c. sm_cell S (sm_CurrState S) T = Some c"
  using sm_cell_eq [of S "sm_CurrState S" T] by (auto simp: table_ok_def)

lemma perform_total:
  assumes "table_ok S n m" "T < m"
  shows "\<exists>r. StateMachinePerformAction call pAd S i T (sm_CurrState S) = Some r"
  using table_ok_cell [OF assms]
  by (auto simp: StateMachinePerformAction_def split: option.splits)

lemma mlme_switch_total:
  assumes "mlme_ok pAd" "mt_ok M T" "T \<noteq> MT2_RESET_CONF"
  shows "\<exists>r. mlme_switch call cntl pAd i M T = Some r"
proof -
  have T: "list_all (\<lambda>(k, n). k = M \<longrightarrow> T < n) msg_ranges" "M \<noteq> 6" using assms by (auto simp: mt_ok_def)
  note tables = assms(1) [unfolded mlme_ok_def]
  consider "M = 1" | "M = 2" | "M = 3" | "M = 4" | "M = 5" | "M = 9" | "M = 23"
    | "M \<notin> {1, 2, 3, 4, 5, 9, 23}" by blast
  then show ?thesis
  proof cases
    case 1 with T tables perform_total [of "ad_AssocMachine pAd" 4 11 T call pAd i] show ?thesis
      by (auto simp: mlme_switch_def msg_ranges_def)
  next
    case 2 with T tables perform_total [of "ad_AuthMachine pAd" 3 3 T call pAd i] show ?thesis
      by (auto simp: mlme_switch_def msg_ranges_def)
  next
    case 3 with T tables perform_total [of "ad_AuthRspMachine pAd" 2 3 T call pAd i] show ?thesis
      by (auto simp: mlme_switch_def msg_ranges_def)
  next
    case 4 with T tables perform_total [of "ad_SyncMachine pAd" 4 12 T call pAd i] show ?thesis
      by (auto simp: mlme_switch_def msg_ranges_def)
  next
    case 5 then show ?thesis by (auto simp: mlme_switch_def)
  next
    case 6 with T tables perform_total [of "ad_ActMachine pAd" 1 24 T call pAd i] show ?thesis
      by (auto simp: mlme_switch_def msg_ranges_def)
  next
    case 7 with T tables perform_total [of "ad_WpaMachine pAd" 1 5 T call pAd i] show ?thesis
      by (auto simp: mlme_switch_def msg_ranges_def)
  next
    case 8 with T(2) show ?thesis by (auto simp: mlme_switch_def)
  qed
qed

lemma mlme_weight_kind:
  "mlme_weight w pAd = sum_list (map (case_prod w) (map me_kind (mq_pending (ad_Queue pAd))))"
  by (simp add: mlme_weight_def me_kind_def comp_def)

lemma mlme_ok_kinds:
  "list_all (\<lambda>e. mt_ok (me_Machine e) (me_MsgType e)) es \<longleftrightarrow> list_all (case_prod mt_ok) (map me_kind es)"
  by (simp add: list_all_iff me_kind_def)

lemma nth_update_cong: "g y = g (xs ! i) \<Longrightarrow> g (xs[i := y] ! n) = g (xs ! n)"
  by (cases "i < length xs") (auto simp: nth_list_update list_update_beyond)

text \<open>Releasing a slot changes neither the order nor the kind of the pending messages.\<close>

lemma mlme_free_queue:
  "mq_inv (ad_Queue pAd) \<Longrightarrow> mq_inv (ad_Queue (mlme_free i pAd))"
  "mq_inv (ad_Queue pAd) \<Longrightarrow>
    map me_kind (mq_pending (ad_Queue (mlme_free i pAd))) = map me_kind (mq_pending (ad_Queue pAd))"
proof -
  let ?es = "mq_Entry (ad_Queue pAd)"
  let ?e = "(?es ! i)\<lparr>me_Occupied := False, me_MsgLen := 0\<rparr>"
  have "length (me_Msg (?es[i := ?e] ! n)) = length (me_Msg (?es ! n))"
    "me_kind (?es[i := ?e] ! n) = me_kind (?es ! n)" for n
    by (rule nth_update_cong; simp add: me_kind_def)+
  then show "mq_inv (ad_Queue pAd) \<Longrightarrow> mq_inv (ad_Queue (mlme_free i pAd))"
    "mq_inv (ad_Queue pAd) \<Longrightarrow>
      map me_kind (mq_pending (ad_Queue (mlme_free i pAd))) = map me_kind (mq_pending (ad_Queue pAd))"
    by (simp_all add: mlme_free_def mq_inv_def mq_pending_def list_all_length)
qed

lemma mlme_ok_free: "mlme_ok pAd \<Longrightarrow> mlme_ok (mlme_free i pAd)"
  using mlme_free_queue [of pAd i]
  by (simp add: mlme_ok_def mlme_ok_kinds) (simp add: mlme_free_def)

lemma mlme_weight_free: "mlme_ok pAd \<Longrightarrow> mlme_weight w (mlme_free i pAd) = mlme_weight w pAd"
  using mlme_free_queue [of pAd i] by (simp add: mlme_weight_kind mlme_ok_def)

lemma table_ok_CurrState: "table_ok S n m \<Longrightarrow> s < n \<Longrightarrow> table_ok (S\<lparr>sm_CurrState := s\<rparr>) n m"
  by (auto simp: table_ok_def sm_wf_def)

lemma mlme_ok_restart:
  assumes "mlme_ok pAd"
  shows "mlme_ok (MlmeRestartStateMachine pAd)"
    "mlme_weight w (MlmeRestartStateMachine pAd) = mlme_weight w pAd"
  using assms by (simp_all add: MlmeRestartStateMachine_def mlme_ok_def table_ok_CurrState mlme_weight_def)

lemma mlme_round_progress:
  assumes "mlme_ok pAd" "\<not> MlmeQueueEmpty (ad_Queue pAd)" "handlers_respect w call cntl"
  shows "\<exists>r. mlme_round call cntl pAd = Some r \<and> mlme_ok r \<and> mlme_weight w r < mlme_weight w pAd"
proof -
  let ?q = "ad_Queue pAd" let ?i = "mq_Head ?q" let ?e = "mq_Entry ?q ! ?i"
  let ?p1 = "pAd\<lparr>ad_Queue := snd (MlmeDequeue ?q)\<rparr>"
  have inv: "mq_inv ?q" "mq_Num ?q \<noteq> 0" using assms by (auto simp: mlme_ok_def MlmeQueueEmpty_def)
  note g = mq_get [OF inv]
  have e: "mt_ok (me_Machine ?e) (me_MsgType ?e)" and ok1: "mlme_ok ?p1"
    using assms(1) g by (auto simp: mlme_ok_def)
  have w1: "mlme_weight w pAd = w (me_Machine ?e) (me_MsgType ?e) + mlme_weight w ?p1"
    using g by (simp add: mlme_weight_def)
  have i: "?i < 40" using inv by (simp add: mq_inv_def)
  have round: "mlme_round call cntl pAd =
     (if me_MsgType ?e = MT2_RESET_CONF then Some (mlme_free ?i (MlmeRestartStateMachine ?p1))
      else map_option (mlme_free ?i) (mlme_switch call cntl ?p1 ?i (me_Machine ?e) (me_MsgType ?e)))"
    using g by (simp add: mlme_round_def case_prod_beta Let_def)
  show ?thesis
  proof (cases "me_MsgType ?e = MT2_RESET_CONF")
    case True
    have "0 < w (me_Machine ?e) (me_MsgType ?e)"
      using assms(3) unfolding True handlers_respect_def by blast
    with True show ?thesis
      using ok1 mlme_ok_restart [OF ok1] w1 by (simp add: round mlme_ok_free mlme_weight_free)
  next
    case False
    obtain r where r: "mlme_switch call cntl ?p1 ?i (me_Machine ?e) (me_MsgType ?e) = Some r"
      using mlme_switch_total [OF ok1 e False] by blast
    moreover have "me_kind (mq_Entry (ad_Queue ?p1) ! ?i) = (me_Machine ?e, me_MsgType ?e)"
      using g by (simp add: me_kind_def)
    ultimately have "mlme_ok r \<and> mlme_weight w r < mlme_weight w ?p1 + w (me_Machine ?e) (me_MsgType ?e)"
      using assms(3) ok1 i e unfolding handlers_respect_def by blast
    then show ?thesis using False r w1 by (simp add: round mlme_ok_free mlme_weight_free)
  qed
qed

lemma mlme_loop_returns:
  assumes "mlme_ok pAd" "handlers_respect w call cntl"
  shows "\<exists>r. mlme_loop call cntl pAd = Some r \<and> mlme_ok r \<and> (MlmeQueueEmpty (ad_Queue r) \<or> mlme_stop r)"
  using assms(1)
proof (induction "mlme_weight w pAd" arbitrary: pAd rule: less_induct)
  case less
  show ?case
  proof (cases "MlmeQueueEmpty (ad_Queue pAd) \<or> mlme_stop pAd")
    case True then show ?thesis using less.prems by (subst mlme_loop.simps) auto
  next
    case False
    then obtain r where "mlme_round call cntl pAd = Some r" "mlme_ok r" "mlme_weight w r < mlme_weight w pAd"
      using mlme_round_progress [OF less.prems _ assms(2)] by blast
    then show ?thesis using False less.hyps [of r] by (subst mlme_loop.simps) auto
  qed
qed

lemma mlme_ok_bRunning [simp]: "mlme_ok (pAd\<lparr>ad_bRunning := b\<rparr>) = mlme_ok pAd"
  "mlme_stop (pAd\<lparr>ad_bRunning := b\<rparr>) = mlme_stop pAd"
  by (simp_all add: mlme_ok_def mlme_stop_def RTMP_TEST_FLAG_def)

lemma table_ok_init:
  assumes "n * m \<le> length T" "n * m < 2 ^ 32" "i < n"
  shows "table_ok (sm_actions (StateMachineInit T n m d i 0) acts) n m"
  using assms by (simp add: table_ok_def sm_wf_def)

definition funcs_ok :: "MLME_FUNCS \<Rightarrow> bool" where
  "funcs_ok fs \<longleftrightarrow> length (AssocFunc fs) = MAX_ASSOC_STATE * MAX_ASSOC_MSG
     \<and> length (AuthFunc fs) = MAX_AUTH_STATE * MAX_AUTH_MSG
     \<and> length (AuthRspFunc fs) = MAX_AUTH_RSP_STATE * MAX_AUTH_RSP_MSG
     \<and> length (SyncFunc fs) = MAX_SYNC_STATE * MAX_SYNC_MSG
     \<and> length (WpaFunc fs) = MAX_WPA_PTK_STATE * MAX_WPA_MSG
     \<and> length (ActFunc fs) = MAX_ACT_STATE * MAX_ACT_MSG"

lemma mlme_ok_MlmeInit:
  assumes "funcs_ok fs" "length (mq_Entry (ad_Queue pAd)) = 40"
  shows "mlme_ok (MlmeInit fs pAd)" "mlme_pending (MlmeInit fs pAd) = []"
  using assms mq_inv_init [of "ad_Queue pAd"]
  by (simp_all add: mlme_ok_def MlmeInit_def funcs_ok_def AssocStateMachineInit_def AuthStateMachineInit_def
      AuthRspStateMachineInit_def SyncStateMachineInit_def WpaStateMachineInit_def ActionStateMachineInit_def
      table_ok_init mlme_pending_def)

lemma mlme_ok_enqueue:
  assumes "mlme_ok pAd" "mt_ok M T"
  shows "mlme_ok (snd (MlmeEnqueue pAd M T n m P))
    \<and> mlme_weight w (snd (MlmeEnqueue pAd M T n m P)) \<le> mlme_weight w pAd + w M T"
proof (cases "fst (MlmeEnqueue pAd M T n m P)")
  case False
  then show ?thesis using assms by (auto simp: MlmeEnqueue_def Let_def split: if_splits)
next
  case True
  let ?q = "ad_Queue pAd"
  let ?e = "mq_Entry ?q ! mq_Tail ?q"
  let ?e' = "?e\<lparr>me_Wcid := RESERVED_WCID, me_Occupied := True, me_Machine := M, me_MsgType := T,
    me_MsgLen := n, me_Priv := P, me_Msg := mq_store (me_Msg ?e) n m\<rparr>"
  have enq: "snd (MlmeEnqueue pAd M T n m P)
    = pAd\<lparr>ad_Queue := (mq_advance_tail ?q)\<lparr>mq_Entry := (mq_Entry ?q)[mq_Tail ?q := ?e']\<rparr>\<rparr>"
    and n: "n \<le> 1600" "mq_Num ?q \<noteq> 40"
    using True by (auto simp: MlmeEnqueue_def MlmeQueueFull_def Let_def split: if_splits)
  have inv: "mq_inv ?q" using assms(1) by (simp add: mlme_ok_def)
  have num: "mq_Num ?q < 40" using inv n(2) by (simp add: mq_inv_def)
  have "length (me_Msg ?e) = 1600" using inv by (intro mq_inv_entry) (auto simp: mq_inv_def)
  then have "length (me_Msg ?e') = 1600" using n(1) by simp
  note put = mq_put [OF inv num this]
  show ?thesis using assms put by (simp add: enq mlme_ok_def mlme_weight_def)
qed

lemma ForRecv_message:
  assumes "mlme_ok pAd" "mq_Num (ad_Queue pAd) < 40" "mt_ok (me_Machine e) (me_MsgType e)"
    and "length (me_Msg e) = 1600"
  defines "q \<equiv> (mq_advance_tail (ad_Queue pAd))\<lparr>mq_Entry := (mq_Entry (ad_Queue pAd))[mq_Tail (ad_Queue pAd) := e]\<rparr>"
  shows "mlme_ok (pAd\<lparr>ad_Queue := q, ad_Log := l\<rparr>)"
    "mlme_pending (pAd\<lparr>ad_Queue := q, ad_Log := l\<rparr>) = mlme_pending pAd @ [me_view e]"
proof -
  have inv: "mq_inv (ad_Queue pAd)" using assms(1) by (simp add: mlme_ok_def)
  note put = mq_put [OF inv assms(2,4), folded q_def]
  show "mlme_ok (pAd\<lparr>ad_Queue := q, ad_Log := l\<rparr>)"
    "mlme_pending (pAd\<lparr>ad_Queue := q, ad_Log := l\<rparr>) = mlme_pending pAd @ [me_view e]"
    using assms(1,3) put by (simp_all add: mlme_ok_def mlme_pending_def)
qed

lemma MsgTypeSubst_mt_ok: "MsgTypeSubst frame 0xff 0 = Some (True, M, T) \<Longrightarrow> mt_ok M T"
  by (drule MsgTypeSubst_range) (auto simp: mt_ok_def msg_ranges_def)

text \<open>The invariant holds after initialisation of an adapter whose queue array has its 40 slots.\<close>

definition elem0 :: MLME_QUEUE_ELEM where
  "elem0 = \<lparr>me_Msg = [], me_Machine = 0, me_MsgType = 0, me_MsgLen = 0, me_TimeStampHigh = 0,
     me_TimeStampLow = 0, me_Rssi0 = 0, me_Rssi1 = 0, me_Rssi2 = 0, me_AntSel = 0, me_Signal = 0,
     me_Channel = 0, me_Wcid = 0, me_Occupied = False, me_OpMode = 0, me_Priv = 0\<rparr>"

definition machine0 :: STATE_MACHINE where
  "machine0 = \<lparr>sm_Base = 0, sm_NrState = 0, sm_NrMsg = 0, sm_CurrState = 0, sm_TransFunc = []\<rparr>"

definition funcs0 :: MLME_FUNCS where
  "funcs0 = \<lparr>AssocFunc = replicate 44 None, AuthFunc = replicate 9 None, AuthRspFunc = replicate 6 None,
     SyncFunc = replicate 48 None, WpaFunc = replicate 5 None, ActFunc = replicate 24 None\<rparr>"

definition adapter0 :: RTMP_ADAPTER where
  "adapter0 = MlmeInit funcs0 \<lparr>ad_Flags = 0,
     ad_Queue = \<lparr>mq_Num = 0, mq_Head = 0, mq_Tail = 0, mq_Entry = replicate 40 elem0\<rparr>,
     ad_bRunning = False, ad_CntlMachine = machine0, ad_AssocMachine = machine0, ad_AuthMachine = machine0,
     ad_AuthRspMachine = machine0, ad_SyncMachine = machine0, ad_WpaPskMachine = machine0,
     ad_ActMachine = machine0, ad_WpaMachine = machine0, ad_Channel = 1, ad_LatchChannel = 1,
     ad_RateUpTimerRunning = False, ad_AutoWakeupTimerRunning = False, ad_Log = []\<rparr>"

definition rx0 :: rx_info where
  "rx0 = \<lparr>rx_Wcid = 1, rx_TimeStampHigh = 0, rx_TimeStampLow = 0, rx_Rssi0 = 40, rx_Rssi1 = 0, rx_Rssi2 = 0,
     rx_AntSel = 0, rx_Signal = 0, rx_OpMode = 0\<rparr>"

lemma adapter0_ok: "mlme_ok adapter0" "mlme_pending adapter0 = []" "ad_Flags adapter0 = 0"
    "ad_bRunning adapter0 = False"
  unfolding adapter0_def
  by (rule mlme_ok_MlmeInit; simp add: funcs_ok_def funcs0_def)+ (simp_all add: MlmeInit_def)

lemma adapter0_running: "mlme_running adapter0"
  using adapter0_ok by (simp add: mlme_running_def mlme_ok_def RTMP_TEST_FLAG_def)

section \<open>Properties\<close>

text \<open>C13: The message queue is first-in-first-out, for every interleaving of enqueue and
  dequeue calls.  From an initialised, running adapter, the messages accepted by
  \<^verbatim>\<open>MlmeEnqueue\<close> are exactly those delivered by \<^verbatim>\<open>MlmeDequeue\<close>, in the same order, followed by
  those still pending; at most 40 are pending, and the indices, the counter and the size of every
  message buffer stay within the arrays.\<close>

theorem MlmeQueue_fifo:
  assumes "mlme_running pAd" "mlme_pending pAd = []"
    and "fifo_steps mlme_enq mlme_deq mlme_empty mlme_valid pAd acc del p"
  shows "acc = del @ mlme_pending p \<and> length acc \<le> length del + 40 \<and> mq_inv (ad_Queue p)"
  using mlmeq.history [OF assms(1,3)] mlmeq.history_bound [OF assms(1,3)] assms(2)
  by (simp add: mlme_running_def)

theorem MlmeQueue_fifo_witness:
  "\<exists>p. fifo_steps mlme_enq mlme_deq mlme_empty mlme_valid adapter0 [(4, 0, 0, [7]), (5, 41, 0, [])] [(4, 0, 0, [7])] p
     \<and> mlme_pending p = [(5, 41, 0, [])]"
proof -
  let ?m1 = "(4, 0, 0, [7]) :: mlme_msg" and ?m2 = "(5, 41, 0, []) :: mlme_msg"
  obtain p1 where p1: "mlme_enq ?m1 adapter0 = (True, p1)" "mlme_running p1" "mlme_pending p1 = [?m1]"
    using mlmeq.enq_accepts [OF adapter0_running, of ?m1] adapter0_ok(2)
    by (cases "mlme_enq ?m1 adapter0") (auto simp: mlme_valid_def mlme_pending_def mq_pending_def)
  obtain p2 where p2: "mlme_enq ?m2 p1 = (True, p2)" "mlme_running p2" "mlme_pending p2 = [?m1, ?m2]"
    using mlmeq.enq_accepts [OF p1(2), of ?m2] p1(3) mlmeq.room_iff [OF p1(2)]
    by (cases "mlme_enq ?m2 p1") (auto simp: mlme_valid_def)
  obtain p3 where p3: "mlme_deq p2 = (?m1, p3)"
    using mlmeq.deq_delivers [OF p2(2)] p2(3) by (cases "mlme_deq p2") auto
  have "fifo_steps mlme_enq mlme_deq mlme_empty mlme_valid adapter0 (([] @ [?m1]) @ [?m2]) ([] @ [?m1]) p3"
    using p1 p2 p3 mlmeq.empty_iff [OF p2(2)]
    by (intro fifo_steps.deliver fifo_steps.accept [of _ _ _ _ _ _ _ p1] fifo_steps.accept [of _ _ _ _ _ _ _ adapter0]
        fifo_steps.none) (auto simp: mlme_valid_def)
  then show ?thesis
    using MlmeQueue_fifo [OF adapter0_running adapter0_ok(2), of "[?m1, ?m2]" "[?m1]" p3] by auto
qed


text \<open>Handlers of the witness: the control machine answers every message with a scan request.\<close>

definition cntl0 :: "RTMP_ADAPTER \<Rightarrow> nat \<Rightarrow> RTMP_ADAPTER" where
  "cntl0 pAd i = snd (MlmeEnqueue pAd SYNC_STATE_MACHINE MT2_MLME_SCAN_REQ 0 None 0)"

definition weight0 :: "nat \<Rightarrow> nat \<Rightarrow> nat" where
  "weight0 M T = (if M = MLME_CNTL_STATE_MACHINE then 2 else 1)"

lemma handlers0: "handlers_respect weight0 (\<lambda>f pAd i. pAd) cntl0"
proof -
  have sw: "mlme_switch (\<lambda>f pAd i. pAd) cntl0 pAd i M T = Some r \<Longrightarrow> r = (if M = 5 then cntl0 pAd i else pAd)"
    for pAd i M T r
    by (auto simp: mlme_switch_def StateMachinePerformAction_def Let_def split: if_splits option.splits)
  have "mt_ok 4 0" by (simp add: mt_ok_def msg_ranges_def)
  then have "mlme_ok pAd \<Longrightarrow> mlme_ok (cntl0 pAd i) \<and> mlme_weight weight0 (cntl0 pAd i) \<le> mlme_weight weight0 pAd + 1"
    for pAd i using mlme_ok_enqueue [of pAd 4 0 0 None 0 weight0] by (simp add: cntl0_def weight0_def)
  then show ?thesis unfolding handlers_respect_def
    by (auto dest!: sw simp: weight0_def split: if_splits) (metis less_Suc_eq_le add_2_eq_Suc' add_Suc_right le_imp_less_Suc Suc_eq_plus1)
qed


text \<open>C36: Receiving a management frame is safe.  For every frame of at least 34 bytes,
  \<^verbatim>\<open>MlmeEnqueueForRecv\<close> reads inside the frame; it either refuses the frame and changes nothing,
  or queues exactly one message, with the frame as content and a machine and type that
  \<^verbatim>\<open>MlmeHandler\<close> dispatches inside its tables, and wakes the task.  Received frames never take more
  than half of the queue.\<close>

theorem MlmeEnqueueForRecv_safe:
  assumes "mlme_ok pAd" "34 \<le> length Msg" "MsgLen \<le> length Msg"
  shows "case MlmeEnqueueForRecv pAd rx MsgLen Msg of None \<Rightarrow> False | Some (ok, p) \<Rightarrow> mlme_ok p
    \<and> (if ok then \<exists>M T. MsgTypeSubst Msg 0xff 0 = Some (True, M, T) \<and> mt_ok M T
           \<and> mlme_pending p = mlme_pending pAd @ [(M, T, 0, take MsgLen Msg)]
           \<and> length (mlme_pending p) \<le> 20 \<and> ad_Log p = ad_Log pAd @ [RTUSBMlmeUp]
       else p = pAd)"
proof (cases "RTMP_TEST_FLAG pAd 320 \<or> MsgLen > 1600 \<or> MlmeQueueFull (ad_Queue pAd) 0
    \<or> MsgTypeSubst Msg 0xff 0 = Some (False, fst (snd (the (MsgTypeSubst Msg 0xff 0))), snd (snd (the (MsgTypeSubst Msg 0xff 0))))")
  case True
  then have "MlmeEnqueueForRecv pAd rx MsgLen Msg = Some (False, pAd)"
    by (auto simp: MlmeEnqueueForRecv_def Let_def split: option.splits)
  then show ?thesis using assms(1) by simp
next
  case False
  then obtain M T where MT: "MsgTypeSubst Msg 0xff 0 = Some (True, M, T)"
    using MsgTypeSubst_total [OF assms(2), of 255 0] by auto
  let ?q = "ad_Queue pAd"
  let ?e = "mq_Entry ?q ! mq_Tail ?q"
  obtain e' where e': "MlmeEnqueueForRecv pAd rx MsgLen Msg = Some (True, pAd\<lparr>ad_Queue :=
      (mq_advance_tail ?q)\<lparr>mq_Entry := (mq_Entry ?q)[mq_Tail ?q := e']\<rparr>, ad_Log := ad_Log pAd @ [RTUSBMlmeUp]\<rparr>)"
    "me_Machine e' = M" "me_MsgType e' = T" "me_MsgLen e' = MsgLen" "me_Priv e' = 0"
    "me_Msg e' = mq_store (me_Msg ?e) MsgLen (Some Msg)"
    using False MT by (auto simp: MlmeEnqueueForRecv_def Let_def)
  have inv: "mq_inv ?q" and num: "mq_Num ?q < 20" "MsgLen \<le> 1600"
    using assms(1) False by (auto simp: mlme_ok_def MlmeQueueFull_def)
  have "length (me_Msg ?e) = 1600" using inv by (intro mq_inv_entry) (auto simp: mq_inv_def)
  then have len: "length (me_Msg e') = 1600" and "take MsgLen (me_Msg e') = take MsgLen Msg"
    using num(2) assms(3) e'(6) by (simp_all add: mq_store_def NdisMoveMemory_def)
  then have view: "me_view e' = (M, T, 0, take MsgLen Msg)" using e' by (simp add: me_view_def)
  have mt: "mt_ok M T" using MsgTypeSubst_mt_ok [OF MT] .
  note msg = ForRecv_message [of pAd e', OF assms(1) _ _ len, unfolded e'(2,3) view]
  have "length (mlme_pending pAd) < 20" using num(1) by (simp add: mlme_pending_def)
  then show ?thesis using e'(1) msg mt MT num(1) by simp
qed

theorem MlmeEnqueueForRecv_safe_witness:
  "\<exists>p. MlmeEnqueueForRecv adapter0 rx0 34 (0x80 # replicate 33 0) = Some (True, p)
     \<and> mlme_pending p = [(SYNC_STATE_MACHINE, MT2_PEER_BEACON, 0, 0x80 # replicate 33 0)]"
proof -
  let ?f = "0x80 # replicate 33 0 :: bytes"
  have subst: "MsgTypeSubst ?f 0xff 0 = Some (True, 4, 3)"
    by (simp add: MsgTypeSubst_def octet_def FC_Type_def FC_SubType_def Let_def)
  have "\<not> MlmeQueueFull (ad_Queue adapter0) 0"
    by (simp add: MlmeQueueFull_def adapter0_def MlmeInit_def MlmeQueueInit_def)
  then have acc: "\<exists>p. MlmeEnqueueForRecv adapter0 rx 34 ?f = Some (True, p)" for rx
    using adapter0_ok(3) subst by (simp add: MlmeEnqueueForRecv_def RTMP_TEST_FLAG_def Let_def)
  then obtain p where p: "MlmeEnqueueForRecv adapter0 rx0 34 ?f = Some (True, p)" by blast
  then have "mlme_pending p = [(4, 3, 0, ?f)]"
    using MlmeEnqueueForRecv_safe [OF adapter0_ok(1), of ?f 34 rx0] subst adapter0_ok(2) by simp
  with p show ?thesis by blast
qed

text \<open>\<^verbatim>\<open>MlmeEnqueue\<close> can overwrite the message that is being handled.  When the queue is
  full, \<^verbatim>\<open>MlmeHandler\<close> has dequeued an element and its handler queues a message, the counter says
  39, so the message is accepted and stored in the very slot whose address the handler holds;
  when the handler returns, the loop clears the length of that slot, and the new message is
  delivered empty.\<close>

theorem MlmeEnqueue_overwrites_current:
  assumes "mlme_running pAd" "length (mlme_pending pAd) = 40" "length c \<le> 1600"
    and "MlmeDequeue (ad_Queue pAd) = (i, q)"
    and "MlmeEnqueue (pAd\<lparr>ad_Queue := q\<rparr>) M T (length c) (Some c) P = (ok, p)"
  shows "ok \<and> me_view (mq_Entry (ad_Queue p) ! i) = (M, T, P, c)
    \<and> last (mlme_pending (mlme_free i p)) = (M, T, P, [])"
proof -
  have inv: "mq_inv (ad_Queue pAd)" and num: "mq_Num (ad_Queue pAd) = 40"
    using assms(1,2) by (simp_all add: mlme_running_def mlme_pending_def)
  let ?h = "mq_Head (ad_Queue pAd)"
  have h: "?h < 40" "mq_Tail (ad_Queue pAd) = ?h" "length (mq_Entry (ad_Queue pAd)) = 40"
    using inv num by (simp_all add: mq_inv_def)
  have q: "i = ?h" "q = (ad_Queue pAd)\<lparr>mq_Num := 39, mq_Head := (?h + 1) mod 40\<rparr>"
    using assms(4) num h(1) by (auto simp: MlmeDequeue_def Let_def split: if_splits)
  have qinv: "mq_inv q" using mq_get [OF inv] num assms(4) by simp
  have flags: "\<not> RTMP_TEST_FLAG (pAd\<lparr>ad_Queue := q\<rparr>) 320"
    using assms(1) by (simp add: mlme_running_def RTMP_TEST_FLAG_def)
  have len: "length (me_Msg (mq_Entry (ad_Queue pAd) ! ?h)) = 1600" using inv h(1) by (rule mq_inv_entry)
  have ok: "ok" and p: "mq_Entry (ad_Queue p) = (mq_Entry (ad_Queue pAd))[?h := mq_Entry (ad_Queue p) ! ?h]"
    "me_view (mq_Entry (ad_Queue p) ! ?h) = (M, T, P, c)"
    "mq_Num (ad_Queue p) = 40" "mq_Head (ad_Queue p) = (?h + 1) mod 40"
    using assms(3,5) flags h q len mq_advance_tail_eq [OF qinv]
    by (auto simp: MlmeEnqueue_def MlmeQueueFull_def Let_def me_view_def take_mq_store)
  have "((?h + 1) mod 40 + 39) mod 40 = ?h" using h(1) by (simp add: mod_simps)
  moreover have "length (mq_Entry (ad_Queue p)) = 40" using p(1) h(3) by (metis length_list_update)
  ultimately have "last (mlme_pending (mlme_free i p)) = (M, T, P, [])"
    using p h(1) q(1) by (simp add: mlme_pending_def mq_pending_def mlme_free_def last_map me_view_def)
  then show ?thesis using ok p(2) q(1) by simp
qed

text \<open>A full queue for the witness.\<close>

definition adapter_full :: RTMP_ADAPTER where
  "adapter_full = adapter0\<lparr>ad_Queue := (ad_Queue adapter0)\<lparr>mq_Num := 40\<rparr>\<rparr>"

lemma adapter_full_running: "mlme_running adapter_full" "length (mlme_pending adapter_full) = 40"
proof -
  have "mq_Num (ad_Queue adapter0) = 0" "mq_Head (ad_Queue adapter0) = 0" "mq_Tail (ad_Queue adapter0) = 0"
    by (simp_all add: adapter0_def MlmeInit_def MlmeQueueInit_def)
  then show "mlme_running adapter_full" "length (mlme_pending adapter_full) = 40"
    using adapter0_running
    by (simp_all add: adapter_full_def mlme_running_def mq_inv_def RTMP_TEST_FLAG_def mlme_pending_def)
qed

theorem MlmeEnqueue_overwrites_current_witness:
  "\<exists>i q p. MlmeDequeue (ad_Queue adapter_full) = (i, q)
     \<and> MlmeEnqueue (adapter_full\<lparr>ad_Queue := q\<rparr>) MLME_CNTL_STATE_MACHINE 41 2 (Some [1, 0]) 0 = (True, p)
     \<and> last (mlme_pending (mlme_free i p)) = (MLME_CNTL_STATE_MACHINE, 41, 0, [])"
proof -
  obtain i q where q: "MlmeDequeue (ad_Queue adapter_full) = (i, q)" by fastforce
  obtain ok p where p: "MlmeEnqueue (adapter_full\<lparr>ad_Queue := q\<rparr>) 5 41 (length [1, 0 :: UINT8]) (Some [1, 0]) 0 = (ok, p)"
    by fastforce
  show ?thesis
    using MlmeEnqueue_overwrites_current [OF adapter_full_running _ q p] q p by (auto simp: numeral_2_eq_2)
qed

end
