(* ===== verification/LinkList.thy ===== *)
theory LinkList
  imports Prelude FifoSpec
begin

text \<open>
  The intrusive lists of \<^verbatim>\<open>include/link_list.h\<close>, with which the driver keeps its pending
  queues: the singly linked \<^verbatim>\<open>LIST_HEADER\<close> with a tail pointer and an 8-bit size, and the circular
  doubly linked \<^verbatim>\<open>DL_LIST\<close>.  Addresses are natural numbers, a pointer is an optional address,
  and the link fields of all entries form the heap.  Dereferencing NULL is \<open>None\<close>.  Refinement:
  every operation is the corresponding operation on a HOL list.
\<close>

section \<open>The singly linked list\<close>

record LIST_HEADER =
  pNext :: "nat \<Rightarrow> nat option"
  pHead :: "nat option"
  pTail :: "nat option"
  lsize :: UINT8

definition initList :: "LIST_HEADER \<Rightarrow> LIST_HEADER" where
  "initList L = L\<lparr>pHead := None, pTail := None, lsize := 0\<rparr>"

definition insertTailList :: "LIST_HEADER \<Rightarrow> nat \<Rightarrow> LIST_HEADER" where
  "insertTailList L pEntry =
    (let L1 = L\<lparr>pNext := (pNext L)(pEntry := None)\<rparr>;
         L2 = (case pTail L of
                 Some t \<Rightarrow> L1\<lparr>pNext := (pNext L1)(t := Some pEntry)\<rparr>
               | None \<Rightarrow> L1\<lparr>pHead := Some pEntry\<rparr>)
     in L2\<lparr>pTail := Some pEntry, lsize := lsize L2 + 1\<rparr>)"

definition removeHeadList :: "LIST_HEADER \<Rightarrow> nat option \<times> LIST_HEADER" where
  "removeHeadList L =
    (case pHead L of None \<Rightarrow> (None, L)
     | Some e \<Rightarrow>
        let n = pNext L e; L1 = L\<lparr>pHead := n\<rparr>;
            L2 = (if n = None then L1\<lparr>pTail := None\<rparr> else L1)
        in (Some e, L2\<lparr>lsize := lsize L2 - 1\<rparr>))"

definition getListSize :: "LIST_HEADER \<Rightarrow> nat" where
  "getListSize L = unat (lsize L)"

text \<open>Unlinking \<open>c\<close>, the successor of \<open>pPrvEntry\<close>.\<close>

definition del_unlink :: "LIST_HEADER \<Rightarrow> nat \<Rightarrow> nat \<Rightarrow> LIST_HEADER" where
  "del_unlink L pPrvEntry c =
    (let L1 = L\<lparr>pNext := (pNext L)(pPrvEntry := pNext L c)\<rparr>;
         L2 = (if Some c = pTail L then L1\<lparr>pTail := Some pPrvEntry\<rparr> else L1)
     in L2\<lparr>lsize := lsize L2 - 1\<rparr>)"

text \<open>The search loop of \<^verbatim>\<open>delEntryList\<close>, which a cyclic chain would keep running.\<close>

partial_function (option) del_loop ::
    "LIST_HEADER \<Rightarrow> nat \<Rightarrow> nat \<Rightarrow> nat option \<Rightarrow> (nat option \<times> LIST_HEADER) option" where
  "del_loop L pEntry pPrvEntry pCurEntry =
    (if pCurEntry = None then Some (None, L)
     else if Some pEntry = pCurEntry then Some (pCurEntry, del_unlink L pPrvEntry pEntry)
     else del_loop L pEntry (the pCurEntry) (pNext L (the pCurEntry)))"

definition delEntryList :: "LIST_HEADER \<Rightarrow> nat \<Rightarrow> (nat option \<times> LIST_HEADER) option" where
  "delEntryList L pEntry =
    (case pHead L of None \<Rightarrow> Some (None, L)
     | Some c \<Rightarrow>
       if pEntry = c
       then let L1 = L\<lparr>pHead := pNext L c\<rparr>;
                L2 = (if pHead L1 = None then L1\<lparr>pTail := None\<rparr> else L1)
            in Some (Some c, L2\<lparr>lsize := lsize L2 - 1\<rparr>)
       else del_loop L pEntry c (pNext L c))"

section \<open>The circular doubly linked list\<close>

record DL_LIST =
  dlNext :: "nat \<Rightarrow> nat option"
  dlPrev :: "nat \<Rightarrow> nat option"

definition DlListInit :: "DL_LIST \<Rightarrow> nat \<Rightarrow> DL_LIST" where
  "DlListInit s List = s\<lparr>dlNext := (dlNext s)(List := Some List), dlPrev := (dlPrev s)(List := Some List)\<rparr>"

definition DlListAdd :: "DL_LIST \<Rightarrow> nat \<Rightarrow> nat \<Rightarrow> DL_LIST option" where
  "DlListAdd s List Item =
    (let s1 = s\<lparr>dlNext := (dlNext s)(Item := dlNext s List)\<rparr>;
         s2 = s1\<lparr>dlPrev := (dlPrev s1)(Item := Some List)\<rparr>
     in case dlNext s2 List of None \<Rightarrow> None
        | Some n \<Rightarrow>
          (let s3 = s2\<lparr>dlPrev := (dlPrev s2)(n := Some Item)\<rparr>
           in Some (s3\<lparr>dlNext := (dlNext s3)(List := Some Item)\<rparr>)))"

definition DlListAddTail :: "DL_LIST \<Rightarrow> nat \<Rightarrow> nat \<Rightarrow> DL_LIST option" where
  "DlListAddTail s List Item = (case dlPrev s List of None \<Rightarrow> None | Some p \<Rightarrow> DlListAdd s p Item)"

definition DlListDel :: "DL_LIST \<Rightarrow> nat \<Rightarrow> DL_LIST option" where
  "DlListDel s Item =
    (case dlNext s Item of None \<Rightarrow> None
     | Some n \<Rightarrow>
       let s1 = s\<lparr>dlPrev := (dlPrev s)(n := dlPrev s Item)\<rparr>
       in case dlPrev s1 Item of None \<Rightarrow> None
          | Some p \<Rightarrow>
            let s2 = s1\<lparr>dlNext := (dlNext s1)(p := dlNext s1 Item)\<rparr>
            in Some (s2\<lparr>dlNext := (dlNext s2)(Item := None), dlPrev := (dlPrev s2)(Item := None)\<rparr>))"

definition DlListEmpty :: "DL_LIST \<Rightarrow> nat \<Rightarrow> bool" where
  "DlListEmpty s List \<longleftrightarrow> dlNext s List = Some List"

text \<open>The loop of \<^verbatim>\<open>DlListLen\<close> from \<open>Item\<close> on; the counter is \<^verbatim>\<open>unsigned int\<close>.\<close>

partial_function (option) dl_len_loop :: "DL_LIST \<Rightarrow> nat \<Rightarrow> nat option \<Rightarrow> UINT32 \<Rightarrow> UINT32 option" where
  "dl_len_loop s List Item Count =
    (if Item = Some List then Some Count
     else if Item = None then None
     else dl_len_loop s List (dlNext s (the Item)) (Count + 1))"

definition DlListLen :: "DL_LIST \<Rightarrow> nat \<Rightarrow> UINT32 option" where
  "DlListLen s List = dl_len_loop s List (dlNext s List) 0"

section \<open>Lemmas: chains\<close>

fun chain :: "(nat \<Rightarrow> nat option) \<Rightarrow> nat option \<Rightarrow> nat list \<Rightarrow> bool" where
  "chain h p [] = (p = None)"
| "chain h p (x # xs) = (p = Some x \<and> chain h (h x) xs)"

lemma chain_unique: "chain h p xs \<Longrightarrow> chain h p ys \<Longrightarrow> xs = ys"
  by (induction xs arbitrary: p ys) (case_tac ys; simp)+

lemma chain_frame: "a \<notin> set xs \<Longrightarrow> chain (h(a := b)) p xs = chain h p xs"
  by (induction xs arbitrary: p) auto

lemma chain_snoc:
  assumes "chain h p (xs @ [t])" "distinct (xs @ [t])" "e \<notin> set (xs @ [t])" "h e = None"
  shows "chain (h(t := Some e)) p (xs @ [t, e])"
  using assms by (induction xs arbitrary: p) auto

text \<open>The list a header stands for.\<close>

definition list_rep :: "LIST_HEADER \<Rightarrow> nat list \<Rightarrow> bool" where
  "list_rep L xs \<longleftrightarrow> chain (pNext L) (pHead L) xs \<and> distinct xs
     \<and> pTail L = (if xs = [] then None else Some (last xs)) \<and> lsize L = word_of_nat (length xs)"

definition list_of :: "LIST_HEADER \<Rightarrow> nat list" where
  "list_of L = (THE xs. chain (pNext L) (pHead L) xs)"

definition list_wf :: "LIST_HEADER \<Rightarrow> bool" where
  "list_wf L \<longleftrightarrow> (\<exists>xs. list_rep L xs)"

lemma list_of_rep: "list_rep L xs \<Longrightarrow> list_of L = xs"
  unfolding list_of_def list_rep_def by (blast intro: the_equality chain_unique)

lemma list_wf_rep: "list_wf L \<longleftrightarrow> list_rep L (list_of L)"
  unfolding list_wf_def using list_of_rep by metis

lemma list_rep_init: "list_rep (initList L) []"
  by (simp add: list_rep_def initList_def)

lemma list_rep_insertTail:
  assumes "list_rep L xs" "e \<notin> set xs"
  shows "list_rep (insertTailList L e) (xs @ [e])"
proof (cases xs rule: rev_cases)
  case Nil
  with assms show ?thesis by (simp add: list_rep_def insertTailList_def Let_def)
next
  case (snoc ys t)
  then have "chain ((pNext L)(e := None, t := Some e)) (pHead L) (ys @ [t, e])"
    using assms by (intro chain_snoc) (auto simp: list_rep_def chain_frame)
  then show ?thesis using assms snoc by (simp add: list_rep_def insertTailList_def Let_def)
qed

lemma list_rep_removeHead:
  assumes "list_rep L (x # xs)"
  shows "fst (removeHeadList L) = Some x" "list_rep (snd (removeHeadList L)) xs"
  using assms by (cases xs; simp add: list_rep_def removeHeadList_def Let_def)+

lemma list_rep_empty: "list_rep L xs \<Longrightarrow> pHead L = None \<longleftrightarrow> xs = []"
  by (cases xs) (auto simp: list_rep_def)

text \<open>Removal of an inner entry: the loop runs with its two cursors on adjacent entries.\<close>

lemma del_loop_found:
  assumes "chain (pNext L) (Some p) (p # us @ e # vs)" "distinct (p # us @ e # vs)"
  shows "del_loop L e p (pNext L p) =
    Some (Some e, del_unlink L (last (p # us)) e)"
  using assms
proof (induction us arbitrary: p)
  case Nil
  then show ?case by (subst del_loop.simps) auto
next
  case (Cons u us)
  then show ?case by (subst del_loop.simps) auto
qed

lemma del_loop_absent:
  "chain (pNext L) c xs \<Longrightarrow> e \<notin> set xs \<Longrightarrow> del_loop L e p c = Some (None, L)"
  by (induction xs arbitrary: p c) (subst del_loop.simps; auto)+

lemma chain_delete:
  assumes "chain h p (us @ a # e # vs)" "distinct (us @ a # e # vs)"
  shows "chain (h(a := h e)) p (us @ a # vs)"
  using assms by (induction us arbitrary: p) (auto simp: chain_frame)

lemma list_rep_delEntry:
  assumes "list_rep L (us @ e # vs)"
  shows "\<exists>L'. delEntryList L e = Some (Some e, L') \<and> list_rep L' (us @ vs)"
proof (cases us)
  case Nil
  with assms show ?thesis
    by (cases vs) (auto simp: list_rep_def delEntryList_def Let_def)
next
  case (Cons p ws)
  let ?a = "last (p # ws)"
  have us: "us = butlast us @ [?a]" using Cons by simp
  have rep: "chain (pNext L) (Some p) (p # ws @ e # vs)" "distinct (p # ws @ e # vs)" "pHead L = Some p"
    using assms Cons by (auto simp: list_rep_def)
  have "delEntryList L e = del_loop L e p (pNext L p)"
    using rep by (auto simp: delEntryList_def)
  note del = this [unfolded del_loop_found [OF rep(1,2)]]
  have "chain (pNext L) (pHead L) (butlast us @ ?a # e # vs)" "distinct (butlast us @ ?a # e # vs)"
    using assms us by (metis append.assoc append_Cons append_Nil list_rep_def)+
  then have "chain ((pNext L)(?a := pNext L e)) (pHead L) (us @ vs)"
    using us chain_delete by (metis append.assoc append_Cons append_Nil)
  moreover have "last (us @ vs) = (if vs = [] then ?a else last vs)" using us by (metis last_append last_snoc)
  moreover have "pTail L = Some e \<longleftrightarrow> vs = []"
    using assms by (cases vs rule: rev_cases) (auto simp: list_rep_def)
  ultimately show ?thesis
    using assms Cons by (auto simp: del list_rep_def del_unlink_def Let_def)
qed

lemma list_rep_delEntry_absent:
  assumes "list_rep L xs" "e \<notin> set xs"
  shows "delEntryList L e = Some (None, L)"
  using assms del_loop_absent [of L _ "tl xs"]
  by (cases xs) (auto simp: list_rep_def delEntryList_def)

section \<open>Interpretation of the queue contract\<close>

definition list_enq :: "nat \<Rightarrow> LIST_HEADER \<Rightarrow> bool \<times> LIST_HEADER" where
  "list_enq e L = (True, insertTailList L e)"

definition list_deq :: "LIST_HEADER \<Rightarrow> nat \<times> LIST_HEADER" where
  "list_deq L = (case removeHeadList L of (e, L') \<Rightarrow> (the e, L'))"

definition list_fresh :: "nat \<Rightarrow> LIST_HEADER \<Rightarrow> bool" where
  "list_fresh e L \<longleftrightarrow> e \<notin> set (list_of L)"

lemma list_wf_insertTail:
  assumes "list_wf L" "list_fresh e L"
  shows "list_wf (insertTailList L e) \<and> list_of (insertTailList L e) = list_of L @ [e]"
proof -
  have "list_rep (insertTailList L e) (list_of L @ [e])"
    using list_rep_insertTail assms unfolding list_wf_rep list_fresh_def by blast
  then show ?thesis using list_of_rep unfolding list_wf_def by blast
qed

lemma list_wf_removeHead:
  assumes "list_wf L" "list_of L \<noteq> []"
  shows "fst (list_deq L) = hd (list_of L) \<and> list_wf (snd (list_deq L)) \<and> list_of (snd (list_deq L)) = tl (list_of L)"
proof -
  obtain x xs where "list_of L = x # xs" using assms(2) by (cases "list_of L") auto
  moreover from this have "fst (removeHeadList L) = Some x" "list_rep (snd (removeHeadList L)) xs"
    using list_rep_removeHead [of L x xs] assms(1) unfolding list_wf_rep by simp_all
  ultimately show ?thesis
    using list_of_rep unfolding list_wf_def list_deq_def case_prod_beta by auto
qed

interpretation llist: fifo list_enq list_deq "\<lambda>L. pHead L = None" list_fresh "\<lambda>_. True" list_wf list_of
proof unfold_locales
  fix L e
  show "list_wf L \<Longrightarrow> list_fresh e L \<Longrightarrow> True \<Longrightarrow>
      fst (list_enq e L) \<and> list_wf (snd (list_enq e L)) \<and> list_of (snd (list_enq e L)) = list_of L @ [e]"
    using list_wf_insertTail by (simp add: list_enq_def)
  show "list_wf L \<Longrightarrow> list_fresh e L \<Longrightarrow> \<not> True \<Longrightarrow> list_enq e L = (False, L)" by simp
  show "list_wf L \<Longrightarrow> (pHead L = None) = (list_of L = [])"
    using list_rep_empty by (simp add: list_wf_rep)
  show "list_wf L \<Longrightarrow> list_of L \<noteq> [] \<Longrightarrow>
      fst (list_deq L) = hd (list_of L) \<and> list_wf (snd (list_deq L)) \<and> list_of (snd (list_deq L)) = tl (list_of L)"
    by (rule list_wf_removeHead)
qed

section \<open>Lemmas: rings\<close>

fun dl_path :: "DL_LIST \<Rightarrow> nat \<Rightarrow> nat list \<Rightarrow> nat \<Rightarrow> bool" where
  "dl_path s a [] b = (dlNext s a = Some b \<and> dlPrev s b = Some a)"
| "dl_path s a (x # xs) b = (dlNext s a = Some x \<and> dlPrev s x = Some a \<and> dl_path s x xs b)"

definition dl_rep :: "DL_LIST \<Rightarrow> nat \<Rightarrow> nat list \<Rightarrow> bool" where
  "dl_rep s l xs \<longleftrightarrow> distinct (l # xs) \<and> dl_path s l xs l"

lemma dl_path_append: "dl_path s a (xs @ y # ys) b = (dl_path s a xs y \<and> dl_path s y ys b)"
  by (induction xs arbitrary: a) auto

lemma dl_path_frame:
  assumes "\<And>x. x \<in> set (a # xs) \<Longrightarrow> dlNext s' x = dlNext s x"
    and "\<And>x. x \<in> set (xs @ [b]) \<Longrightarrow> dlPrev s' x = dlPrev s x"
  shows "dl_path s' a xs b = dl_path s a xs b"
  using assms by (induction xs arbitrary: a) auto

lemma dl_path_Next: "dl_path s a xs b \<Longrightarrow> dlNext s a = Some (hd (xs @ [b]))"
  by (cases xs) auto

lemma dl_path_Prev: "dl_path s a xs b \<Longrightarrow> dlPrev s b = Some (last (a # xs))"
  by (induction xs arbitrary: a) auto

text \<open>Insertion after any node of a ring.\<close>

lemma DlListAdd_after:
  assumes "dl_rep s l (us @ vs)" "i \<notin> set (l # us @ vs)" "a = last (l # us)"
  shows "\<exists>s'. DlListAdd s a i = Some s' \<and> dl_rep s' l (us @ i # vs)"
proof -
  let ?n = "hd (vs @ [l])"
  have tail: "dl_path s a vs l"
    using assms(1,3) by (cases us rule: rev_cases) (auto simp: dl_rep_def dl_path_append)
  have ia: "i \<noteq> a" using assms by (cases us rule: rev_cases) auto
  let ?s = "s\<lparr>dlNext := (dlNext s)(i := Some ?n, a := Some i), dlPrev := (dlPrev s)(i := Some a, ?n := Some i)\<rparr>"
  have add: "DlListAdd s a i = Some ?s"
    using dl_path_Next [OF tail] ia by (simp add: DlListAdd_def Let_def fun_upd_twist)
  have "dl_path ?s i vs l"
  proof (cases vs)
    case Nil
    then show ?thesis using ia assms(2) by simp
  next
    case (Cons v ws)
    then have "dl_path ?s v ws l = dl_path s v ws l"
      using assms ia
      by (intro dl_path_frame) (cases us rule: rev_cases; force simp: dl_rep_def)+
    then show ?thesis using tail Cons ia assms(2) by simp
  qed
  then have new: "dl_path ?s a (i # vs) l" using ia assms(2) by (cases vs) auto
  have "dl_path ?s l (us @ i # vs) l"
  proof (cases us rule: rev_cases)
    case Nil
    then show ?thesis using new assms(3) by simp
  next
    case (snoc ws b)
    then have ba: "b = a" using assms(3) by simp
    have "distinct (l # ws @ a # vs)" "i \<notin> set (l # ws @ a # vs)" "?n = l \<or> ?n \<in> set vs"
      using assms(1,2) snoc ba by (auto simp: dl_rep_def) (cases vs; simp)
    then have "dl_path ?s l ws a = dl_path s l ws a"
      by (intro dl_path_frame) auto
    then show ?thesis using new assms(1) snoc ba by (simp add: dl_rep_def dl_path_append)
  qed
  then show ?thesis using add assms(1,2) by (auto simp: dl_rep_def)
qed

lemma DlListDel_from:
  assumes "dl_rep s l (us @ i # vs)"
  shows "\<exists>s'. DlListDel s i = Some s' \<and> dl_rep s' l (us @ vs) \<and> dlNext s' i = None \<and> dlPrev s' i = None"
proof -
  let ?p = "last (l # us)" and ?n = "hd (vs @ [l])"
  have paths: "dl_path s l us i" "dl_path s i vs l" and d: "distinct (l # us @ i # vs)"
    using assms by (auto simp: dl_rep_def dl_path_append)
  have pi: "?p \<noteq> i" "?n \<noteq> i" using d by (cases us rule: rev_cases; cases vs; auto)+
  let ?s = "s\<lparr>dlNext := (dlNext s)(?p := Some ?n, i := None), dlPrev := (dlPrev s)(?n := Some ?p, i := None)\<rparr>"
  have del: "DlListDel s i = Some ?s"
    using dl_path_Next [OF paths(2)] dl_path_Prev [OF paths(1)] pi
    by (simp add: DlListDel_def Let_def)
  have tail: "dl_path ?s ?p vs l"
  proof (cases vs)
    case Nil then show ?thesis using pi by simp
  next
    case (Cons v ws)
    then have "dl_path ?s v ws l = dl_path s v ws l"
      using d pi by (intro dl_path_frame) (cases us rule: rev_cases; force)+
    then show ?thesis using paths(2) Cons pi by simp
  qed
  have "dl_path ?s l (us @ vs) l"
  proof (cases us rule: rev_cases)
    case Nil then show ?thesis using tail by simp
  next
    case (snoc ws b)
    then have "dl_path ?s l ws b = dl_path s l ws b"
      using d pi by (intro dl_path_frame) (cases vs; force)+
    then show ?thesis using tail paths(1) snoc by (simp add: dl_path_append)
  qed
  then show ?thesis using del d pi by (auto simp: dl_rep_def)
qed

lemma dl_len_loop_path:
  "dl_path s a xs l \<Longrightarrow> l \<notin> set xs \<Longrightarrow> dl_len_loop s l (dlNext s a) c = Some (c + word_of_nat (length xs))"
proof (induction xs arbitrary: a c)
  case Nil then show ?case by (subst dl_len_loop.simps) simp
next
  case (Cons x xs) then show ?case by (subst dl_len_loop.simps) (auto simp: add.assoc)
qed

lemma DlListLen_rep: "dl_rep s l xs \<Longrightarrow> DlListLen s l = Some (word_of_nat (length xs))"
  using dl_len_loop_path [of s l xs l 0] by (simp add: dl_rep_def DlListLen_def)

section \<open>Properties\<close>

text \<open>C30: The singly linked list is a first-in-first-out queue, for every interleaving of
  \<^verbatim>\<open>insertTailList\<close> with entries that are not in the list and \<^verbatim>\<open>removeHeadList\<close>: the entries
  inserted come out in the same order, the links never form a cycle, and the 8-bit size field is
  the number of entries modulo 256.\<close>

theorem insertTailList_removeHeadList_fifo:
  assumes "fifo_steps list_enq list_deq (\<lambda>L. pHead L = None) list_fresh (initList L) acc del L'"
  shows "acc = del @ list_of L' \<and> chain (pNext L') (pHead L') (list_of L') \<and> distinct (list_of L')
    \<and> getListSize L' = length (list_of L') mod 256"
proof -
  have "list_wf (initList L)" "list_of (initList L) = []"
    using list_rep_init list_of_rep by (auto simp: list_wf_def)
  then have h: "list_wf L'" "acc = del @ list_of L'" using llist.history [OF _ assms] by auto
  then show ?thesis
    by (simp add: list_wf_rep list_rep_def getListSize_def unsigned_of_nat take_bit_eq_mod)
qed

definition list0 :: LIST_HEADER where
  "list0 = \<lparr>pNext = (\<lambda>_. None), pHead = None, pTail = None, lsize = 0\<rparr>"

theorem insertTailList_removeHeadList_fifo_witness:
  "\<exists>L'. fifo_steps list_enq list_deq (\<lambda>L. pHead L = None) list_fresh (initList list0) [8, 16] [8] L'
     \<and> list_of L' = [16] \<and> getListSize L' = 1"
proof -
  have wf: "list_wf (initList list0)" "list_of (initList list0) = []"
    using list_rep_init list_of_rep by (auto simp: list_wf_def)
  let ?L1 = "insertTailList (initList list0) 8" let ?L2 = "insertTailList ?L1 16"
  have L1: "list_wf ?L1" "list_of ?L1 = [8]" using list_wf_insertTail [OF wf(1), of 8] wf(2) by (simp_all add: list_fresh_def)
  have L2: "list_wf ?L2" "list_of ?L2 = [8, 16]" using list_wf_insertTail [OF L1(1), of 16] L1(2) by (simp_all add: list_fresh_def)
  obtain L3 where L3: "list_deq ?L2 = (8, L3)"
    using list_wf_removeHead [OF L2(1)] L2(2) by (cases "list_deq ?L2") auto
  have "fifo_steps list_enq list_deq (\<lambda>L. pHead L = None) list_fresh (initList list0) (([] @ [8]) @ [16]) ([] @ [8]) L3"
    using L3 L1 L2 wf llist.empty_iff [OF L2(1)]
    by (intro fifo_steps.deliver [of _ _ _ _ _ _ _ ?L2] fifo_steps.accept [of _ _ _ _ _ _ _ ?L1]
        fifo_steps.accept [of _ _ _ _ _ _ _ "initList list0"] fifo_steps.none)
      (auto simp: list_enq_def list_fresh_def)
  then have steps: "fifo_steps list_enq list_deq (\<lambda>L. pHead L = None) list_fresh (initList list0) [8, 16] [8] L3"
    by simp
  note hist = insertTailList_removeHeadList_fifo [OF steps]
  then have "list_of L3 = [16]" by simp
  moreover from this hist have "getListSize L3 = 1" by simp
  ultimately show ?thesis using steps by blast
qed

text \<open>\<^verbatim>\<open>delEntryList\<close> terminates on every well-formed list and removes exactly the entry it is
  given: it returns the entry and the list without it, at the head, in the middle or at the tail,
  and returns NULL and changes nothing when the entry is not in the list.\<close>

theorem delEntryList_remove1:
  assumes "list_rep L xs"
  shows "\<exists>L'. delEntryList L e = Some (if e \<in> set xs then Some e else None, L') \<and> list_rep L' (remove1 e xs)"
proof (cases "e \<in> set xs")
  case True
  then obtain us vs where xs: "xs = us @ e # vs" "e \<notin> set us" by (meson split_list_first)
  then show ?thesis using list_rep_delEntry [of L us e vs] assms by (auto simp: remove1_append)
next
  case False
  then show ?thesis using list_rep_delEntry_absent [OF assms] assms by (simp add: remove1_idem)
qed

theorem delEntryList_remove1_witness:
  "\<exists>L'. delEntryList (insertTailList (insertTailList (insertTailList (initList list0) 8) 16) 24) 16 = Some (Some 16, L')
     \<and> list_rep L' [8, 24]"
proof -
  have "list_rep (insertTailList (insertTailList (insertTailList (initList list0) 8) 16) 24) [8, 16, 24]"
    using list_rep_insertTail [OF list_rep_insertTail [OF list_rep_insertTail [OF list_rep_init, of 8 list0], of 16], of 24]
    by simp
  from delEntryList_remove1 [OF this, of 16] show ?thesis by simp
qed

text \<open>The circular list refines a HOL list: on a ring that holds \<open>xs\<close>, \<^verbatim>\<open>DlListAdd\<close> of a new
  item gives the ring of \<open>i # xs\<close>, \<^verbatim>\<open>DlListAddTail\<close> that of \<open>xs @ [i]\<close>, \<^verbatim>\<open>DlListDel\<close> of any member
  the ring without it, with the links of the item cleared, \<^verbatim>\<open>DlListEmpty\<close> tests \<open>xs = []\<close>, and the
  loop of \<^verbatim>\<open>DlListLen\<close> ends with the length (modulo \<open>2 ^ 32\<close>); none of them dereferences NULL.\<close>

theorem DlList_refines:
  assumes "dl_rep s l xs"
  shows "(i \<notin> set (l # xs) \<longrightarrow> (\<exists>s'. DlListAdd s l i = Some s' \<and> dl_rep s' l (i # xs)))
    \<and> (i \<notin> set (l # xs) \<longrightarrow> (\<exists>s'. DlListAddTail s l i = Some s' \<and> dl_rep s' l (xs @ [i])))
    \<and> (i \<in> set xs \<longrightarrow> (\<exists>s'. DlListDel s i = Some s' \<and> dl_rep s' l (remove1 i xs)
          \<and> dlNext s' i = None \<and> dlPrev s' i = None))
    \<and> (DlListEmpty s l \<longleftrightarrow> xs = []) \<and> DlListLen s l = Some (word_of_nat (length xs))"
proof (intro conjI impI)
  assume i: "i \<notin> set (l # xs)"
  show "\<exists>s'. DlListAdd s l i = Some s' \<and> dl_rep s' l (i # xs)"
    using DlListAdd_after [of s l "[]" xs i l] assms i by simp
  show "\<exists>s'. DlListAddTail s l i = Some s' \<and> dl_rep s' l (xs @ [i])"
    using DlListAdd_after [of s l xs "[]" i] dl_path_Prev [of s l xs l] assms i
    by (simp add: DlListAddTail_def dl_rep_def)
next
  assume "i \<in> set xs"
  then obtain us vs where "xs = us @ i # vs" "i \<notin> set us" by (blast dest: split_list_first)
  then show "\<exists>s'. DlListDel s i = Some s' \<and> dl_rep s' l (remove1 i xs) \<and> dlNext s' i = None \<and> dlPrev s' i = None"
    using DlListDel_from [of s l us i vs] assms by (auto simp: remove1_append)
next
  show "DlListEmpty s l \<longleftrightarrow> xs = []"
    using assms by (cases xs) (auto simp: dl_rep_def DlListEmpty_def)
  show "DlListLen s l = Some (word_of_nat (length xs))" using DlListLen_rep [OF assms] .
qed

theorem DlList_refines_witness:
  "\<exists>s'. DlListAddTail (DlListInit \<lparr>dlNext = (\<lambda>_. None), dlPrev = (\<lambda>_. None)\<rparr> 1) 1 5 = Some s' \<and> DlListLen s' 1 = Some 1"
proof -
  let ?s = "DlListInit \<lparr>dlNext = (\<lambda>_. None), dlPrev = (\<lambda>_. None)\<rparr> 1"
  have "dl_rep ?s 1 []" by (simp add: dl_rep_def DlListInit_def)
  from DlList_refines [OF this, of 5] obtain s' where "DlListAddTail ?s 1 5 = Some s'" "dl_rep s' 1 [5]" by auto
  then show ?thesis using DlList_refines [of s' 1 "[5]"] by auto
qed

end
