(* ===== verification/BaReorder.thy ===== *)
theory BaReorder
  imports Prelude "HOL-Library.Multiset"
begin

text \<open>
  The receive reordering buffer of a block-acknowledgement session (\<^verbatim>\<open>common/ba_action.c\<close>):
  12-bit sequence arithmetic, the sorted list of early frames, the pool of list blocks, in-order
  delivery, the two timeouts, and the handling of a received A-MPDU frame.  The \<^verbatim>\<open>next\<close>-linked
  lists are HOL lists of blocks, kept beside the \<^verbatim>\<open>qlen\<close> counter the code maintains; a block is
  identified by its address and a packet by its handle.  What reaches the upper layer or is freed
  is recorded, in order, as events, with the frame's sequence number as annotation.  \<open>None\<close> is the
  dereference of the NULL that an inconsistent \<^verbatim>\<open>qlen\<close> would give.
\<close>

section \<open>Sequence numbers\<close>

abbreviation (input) MAXSEQ :: int where "MAXSEQ \<equiv> 0xFFF"
abbreviation (input) RESET_RCV_SEQ :: int where "RESET_RCV_SEQ \<equiv> 0xFFFF"

definition SEQ_STEPONE :: "int \<Rightarrow> int \<Rightarrow> int \<Rightarrow> bool" where
  "SEQ_STEPONE s1 s2 lim \<longleftrightarrow> s1 = (s2 + 1) AND lim"

definition SEQ_SMALLER :: "int \<Rightarrow> int \<Rightarrow> int \<Rightarrow> bool" where
  "SEQ_SMALLER s1 s2 lim \<longleftrightarrow> (s1 - s2) AND drop_bit 1 (lim + 1) \<noteq> 0"

text \<open>Ticks are \<^verbatim>\<open>unsigned long\<close>; the difference is compared as a signed number.\<close>

definition RTMP_TIME_AFTER :: "UINT32 \<Rightarrow> UINT32 \<Rightarrow> bool" where
  "RTMP_TIME_AFTER a b \<longleftrightarrow> sint (b - a) < 0"

definition REORDERING_PACKET_TIMEOUT :: "nat \<Rightarrow> UINT32" where
  "REORDERING_PACKET_TIMEOUT OS_HZ = word_of_nat ((100 * OS_HZ) div 1000)"

definition MAX_REORDERING_PACKET_TIMEOUT :: "nat \<Rightarrow> UINT32" where
  "MAX_REORDERING_PACKET_TIMEOUT OS_HZ = word_of_nat ((3000 * OS_HZ) div 1000)"

section \<open>Blocks, lists and sessions\<close>

record reordering_mpdu =
  blk :: nat
  pPacket :: nat
  Sequence :: int
  bAMSDU :: bool
  mOpMode :: UINT8

record reordering_list =
  rl_next :: "reordering_mpdu list"
  qlen :: int

datatype rx_event =
    BA_Reorder_AMSDU_Annnounce nat UINT8 int
  | Sta_Announce_or_Forward_802_3_Packet nat int
  | Indicate_AMSDU_Packet nat int
  | Indicate_EAPOL_Packet nat int
  | Indicate_Legacy_Packet nat int
  | RELEASE_NDIS_PACKET nat
  | Convert_802_3 nat

text \<open>The pool of blocks and the record of events.\<close>

record BA_CTX =
  freelist :: reordering_list
  rxlog :: "rx_event list"

datatype REC_BLOCKACK_STATUS = Recipient_NONE | Recipient_USED | Recipient_HandleRes | Recipient_Accept

record BA_REC_ENTRY =
  re_Wcid :: nat
  re_TID :: nat
  re_BAWinSize :: UINT8
  re_LastIndSeq :: int
  re_TimeOutValue :: nat
  re_LastIndSeqAtTimer :: UINT32
  re_nDropPacket :: UINT32
  re_rcvSeq :: int
  re_Status :: REC_BLOCKACK_STATUS
  re_list :: reordering_list

record RX_BLK =
  rx_Sequence :: int
  rx_Packet :: nat
  rx_AMSDU :: bool
  rx_EAP :: bool
  rx_Opmode :: UINT8
  rx_DataSize :: nat
  rx_WirelessCliID :: nat
  rx_TID :: nat

definition log_event :: "BA_CTX \<Rightarrow> rx_event \<Rightarrow> BA_CTX" where
  "log_event c ev = c\<lparr>rxlog := rxlog c @ [ev]\<rparr>"

section \<open>The lists\<close>

text \<open>The scan of \<^verbatim>\<open>ba_reordering_mpdu_insertsorted\<close>; \<open>None\<close> when the frame is a duplicate.\<close>

fun insert_scan :: "reordering_mpdu \<Rightarrow> reordering_mpdu list \<Rightarrow> reordering_mpdu list option" where
  "insert_scan mpdu [] = Some [mpdu]"
| "insert_scan mpdu (b # bs) =
    (if SEQ_SMALLER (Sequence b) (Sequence mpdu) MAXSEQ then map_option (\<lambda>bs'. b # bs') (insert_scan mpdu bs)
     else if Sequence b = Sequence mpdu then None
     else Some (mpdu # b # bs))"

definition ba_reordering_mpdu_insertsorted ::
    "reordering_list \<Rightarrow> reordering_mpdu \<Rightarrow> bool \<times> reordering_list" where
  "ba_reordering_mpdu_insertsorted L mpdu =
    (case insert_scan mpdu (rl_next L) of None \<Rightarrow> (False, L)
     | Some bs \<Rightarrow> (True, \<lparr>rl_next = bs, qlen = qlen L + 1\<rparr>))"

definition ba_enqueue :: "reordering_list \<Rightarrow> reordering_mpdu \<Rightarrow> reordering_list" where
  "ba_enqueue L b = \<lparr>rl_next = b # rl_next L, qlen = qlen L + 1\<rparr>"

definition ba_dequeue :: "reordering_list \<Rightarrow> reordering_mpdu option \<times> reordering_list" where
  "ba_dequeue L =
    (if qlen L \<noteq> 0
     then (case rl_next L of [] \<Rightarrow> (None, L\<lparr>qlen := qlen L - 1\<rparr>)
           | b # bs \<Rightarrow> (Some b, \<lparr>rl_next = bs, qlen = qlen L - 1\<rparr>))
     else (None, L))"

definition mpdu_zero :: "nat \<Rightarrow> reordering_mpdu" where
  "mpdu_zero a = \<lparr>blk = a, pPacket = 0, Sequence = 0, bAMSDU = False, mOpMode = 0\<rparr>"

definition ba_mpdu_blk_alloc :: "BA_CTX \<Rightarrow> reordering_mpdu option \<times> BA_CTX" where
  "ba_mpdu_blk_alloc c =
    (case ba_dequeue (freelist c) of (b, L) \<Rightarrow> (map_option (\<lambda>b. mpdu_zero (blk b)) b, c\<lparr>freelist := L\<rparr>))"

definition ba_mpdu_blk_free :: "BA_CTX \<Rightarrow> reordering_mpdu \<Rightarrow> BA_CTX" where
  "ba_mpdu_blk_free c b = c\<lparr>freelist := ba_enqueue (freelist c) b\<rparr>"

text \<open>\<open>mem\<close> is the answer of \<^verbatim>\<open>os_alloc_mem\<close>; the blocks lie at the addresses \<open>0 .. num - 1\<close> of it.\<close>

definition ba_reordering_resource_init :: "bool \<Rightarrow> nat \<Rightarrow> BA_CTX \<Rightarrow> bool \<times> BA_CTX" where
  "ba_reordering_resource_init mem num c =
    (let L0 = \<lparr>rl_next = [], qlen = 0\<rparr> in
     if \<not> mem then (False, c\<lparr>freelist := L0\<rparr>)
     else (True, c\<lparr>freelist := foldl (\<lambda>L i. ba_enqueue L (mpdu_zero i)) L0 [0..<num]\<rparr>))"

section \<open>Delivery\<close>

definition Announce_Reordering_Packet :: "BA_CTX \<Rightarrow> reordering_mpdu \<Rightarrow> BA_CTX" where
  "Announce_Reordering_Packet c b = log_event c
    (if bAMSDU b then BA_Reorder_AMSDU_Annnounce (pPacket b) (mOpMode b) (Sequence b)
     else Sta_Announce_or_Forward_802_3_Packet (pPacket b) (Sequence b))"

lemma ba_dequeue_shorter: "ba_dequeue L = (Some b, L') \<Longrightarrow> length (rl_next L') < length (rl_next L)"
  by (auto simp: ba_dequeue_def split: if_splits list.splits)

function in_order_loop ::
    "BA_CTX \<Rightarrow> reordering_list \<Rightarrow> int \<Rightarrow> int \<Rightarrow> (int \<times> BA_CTX \<times> reordering_list) option" where
  "in_order_loop c L StartSeq LastIndSeq =
    (case rl_next L of [] \<Rightarrow> Some (LastIndSeq, c, L)
     | b # bs \<Rightarrow>
       if \<not> SEQ_STEPONE (Sequence b) StartSeq MAXSEQ then Some (LastIndSeq, c, L)
       else (case ba_dequeue L of (None, L') \<Rightarrow> None
             | (Some d, L') \<Rightarrow>
                 in_order_loop (ba_mpdu_blk_free (Announce_Reordering_Packet c d) d) L' (Sequence d) (Sequence d)))"
  by pat_completeness auto
termination
  by (relation "measure (\<lambda>(c, L, s, l). length (rl_next L))") (auto dest!: sym [THEN ba_dequeue_shorter])

definition ba_indicate_reordering_mpdus_in_order ::
    "BA_CTX \<Rightarrow> BA_REC_ENTRY \<Rightarrow> int \<Rightarrow> (int \<times> BA_CTX \<times> BA_REC_ENTRY) option" where
  "ba_indicate_reordering_mpdus_in_order c e StartSeq =
    map_option (\<lambda>(l, c, L). (l, c, e\<lparr>re_list := L\<rparr>)) (in_order_loop c (re_list e) StartSeq RESET_RCV_SEQ)"

function le_seq_loop :: "BA_CTX \<Rightarrow> reordering_list \<Rightarrow> int \<Rightarrow> (BA_CTX \<times> reordering_list) option" where
  "le_seq_loop c L Seq =
    (case rl_next L of [] \<Rightarrow> Some (c, L)
     | b # bs \<Rightarrow>
       if Sequence b = Seq \<or> SEQ_SMALLER (Sequence b) Seq MAXSEQ
       then (case ba_dequeue L of (None, L') \<Rightarrow> None
             | (Some d, L') \<Rightarrow> le_seq_loop (ba_mpdu_blk_free (Announce_Reordering_Packet c d) d) L' Seq)
       else Some (c, L))"
  by pat_completeness auto
termination
  by (relation "measure (\<lambda>(c, L, s). length (rl_next L))") (auto dest!: sym [THEN ba_dequeue_shorter])

definition ba_indicate_reordering_mpdus_le_seq ::
    "BA_CTX \<Rightarrow> BA_REC_ENTRY \<Rightarrow> int \<Rightarrow> (BA_CTX \<times> BA_REC_ENTRY) option" where
  "ba_indicate_reordering_mpdus_le_seq c e Seq =
    map_option (\<lambda>(c, L). (c, e\<lparr>re_list := L\<rparr>)) (le_seq_loop c (re_list e) Seq)"

function refresh_loop :: "BA_CTX \<Rightarrow> BA_REC_ENTRY \<Rightarrow> BA_CTX \<times> BA_REC_ENTRY" where
  "refresh_loop c e =
    (case ba_dequeue (re_list e) of
       (None, L) \<Rightarrow> (c, e\<lparr>re_list := L\<rparr>)
     | (Some b, L) \<Rightarrow>
         refresh_loop (ba_mpdu_blk_free (Announce_Reordering_Packet c b) b)
           (e\<lparr>re_list := L, re_LastIndSeq := Sequence b\<rparr>))"
  by pat_completeness auto
termination
  by (relation "measure (\<lambda>(c, e). length (rl_next (re_list e)))") (auto dest!: sym [THEN ba_dequeue_shorter])

declare in_order_loop.simps [simp del] le_seq_loop.simps [simp del] refresh_loop.simps [simp del]

definition ba_refresh_reordering_mpdus :: "BA_CTX \<Rightarrow> BA_REC_ENTRY \<Rightarrow> BA_CTX \<times> BA_REC_ENTRY" where
  "ba_refresh_reordering_mpdus c e =
    (case refresh_loop c e of (c, e) \<Rightarrow> (c, e\<lparr>re_LastIndSeq := RESET_RCV_SEQ\<rparr>))"

text \<open>The last sequence number indicated becomes \<^verbatim>\<open>LastIndSeq\<close>, unless nothing was.\<close>

definition set_LastIndSeq :: "int \<Rightarrow> BA_REC_ENTRY \<Rightarrow> BA_REC_ENTRY" where
  "set_LastIndSeq s e = (if s \<noteq> RESET_RCV_SEQ then e\<lparr>re_LastIndSeq := s\<rparr> else e)"

definition ba_flush_reordering_timeout_mpdus ::
    "nat \<Rightarrow> BA_CTX \<Rightarrow> BA_REC_ENTRY \<Rightarrow> UINT32 \<Rightarrow> (BA_CTX \<times> BA_REC_ENTRY) option" where
  "ba_flush_reordering_timeout_mpdus OS_HZ c e Now32 =
    (if qlen (re_list e) \<le> 0 then Some (c, e)
     else if RTMP_TIME_AFTER Now32 (re_LastIndSeqAtTimer e + MAX_REORDERING_PACKET_TIMEOUT OS_HZ div 6)
         \<and> qlen (re_list e) > 1
     then (case ba_refresh_reordering_mpdus c e of (c, e) \<Rightarrow> Some (c, e\<lparr>re_LastIndSeqAtTimer := Now32\<rparr>))
     else if RTMP_TIME_AFTER Now32 (re_LastIndSeqAtTimer e + REORDERING_PACKET_TIMEOUT OS_HZ)
         \<and> qlen (re_list e) > 0
     then let Seq = (re_LastIndSeq e + 1) AND MAXSEQ in
       (case ba_indicate_reordering_mpdus_le_seq c e Seq of None \<Rightarrow> None
        | Some (c, e) \<Rightarrow>
          (case ba_indicate_reordering_mpdus_in_order c
                  (e\<lparr>re_LastIndSeqAtTimer := Now32, re_LastIndSeq := Seq\<rparr>) Seq of None \<Rightarrow> None
           | Some (s, c, e) \<Rightarrow> Some (c, set_LastIndSeq s e)))
     else Some (c, e))"

section \<open>Reception\<close>

definition INDICATE_LEGACY_OR_AMSDU :: "BA_CTX \<Rightarrow> RX_BLK \<Rightarrow> BA_CTX" where
  "INDICATE_LEGACY_OR_AMSDU c rx = log_event c
    (if rx_AMSDU rx then Indicate_AMSDU_Packet (rx_Packet rx) (rx_Sequence rx)
     else if rx_EAP rx then Indicate_EAPOL_Packet (rx_Packet rx) (rx_Sequence rx)
     else Indicate_Legacy_Packet (rx_Packet rx) (rx_Sequence rx))"

definition ba_enqueue_reordering_packet ::
    "BA_CTX \<Rightarrow> BA_REC_ENTRY \<Rightarrow> RX_BLK \<Rightarrow> (BA_CTX \<times> BA_REC_ENTRY) option" where
  "ba_enqueue_reordering_packet c e rx =
    (case ba_mpdu_blk_alloc c of (mpdu_blk, c1) \<Rightarrow>
     (case (mpdu_blk, rx_EAP rx) of
        (Some b, False) \<Rightarrow>
          (let b = b\<lparr>Sequence := rx_Sequence rx, mOpMode := rx_Opmode rx, bAMSDU := rx_AMSDU rx,
                     pPacket := rx_Packet rx\<rparr>;
               c2 = log_event c1 (Convert_802_3 (rx_Packet rx));
               (ok, L) = ba_reordering_mpdu_insertsorted (re_list e) b
           in Some (if ok then c2
                    else ba_mpdu_blk_free (log_event c2 (RELEASE_NDIS_PACKET (rx_Packet rx))) b,
                    e\<lparr>re_list := L\<rparr>))
      | _ \<Rightarrow>
          map_option (\<lambda>(c, e). (INDICATE_LEGACY_OR_AMSDU c rx, e\<lparr>re_LastIndSeq := rx_Sequence rx\<rparr>))
            (ba_indicate_reordering_mpdus_le_seq c1 e (rx_Sequence rx))))"

definition drop_frame :: "BA_CTX \<Rightarrow> BA_REC_ENTRY \<Rightarrow> RX_BLK \<Rightarrow> (BA_CTX \<times> BA_REC_ENTRY) option" where
  "drop_frame c e rx =
    Some (log_event c (RELEASE_NDIS_PACKET (rx_Packet rx)), e\<lparr>re_nDropPacket := re_nDropPacket e + 1\<rparr>)"

text \<open>The five cases of \<^verbatim>\<open>Indicate_AMPDU_Packet\<close>, for a session with a known last sequence number.\<close>

definition ampdu_in_order :: "BA_CTX \<Rightarrow> BA_REC_ENTRY \<Rightarrow> RX_BLK \<Rightarrow> UINT32 \<Rightarrow> (BA_CTX \<times> BA_REC_ENTRY) option" where
  "ampdu_in_order c e rx Now32 =
    (let e1 = e\<lparr>re_LastIndSeq := rx_Sequence rx\<rparr>; c1 = INDICATE_LEGACY_OR_AMSDU c rx in
     map_option (\<lambda>(s, c, e). (c, (set_LastIndSeq s e)\<lparr>re_LastIndSeqAtTimer := Now32\<rparr>))
       (ba_indicate_reordering_mpdus_in_order c1 e1 (re_LastIndSeq e1)))"

definition ampdu_surpass :: "BA_CTX \<Rightarrow> BA_REC_ENTRY \<Rightarrow> RX_BLK \<Rightarrow> UINT32 \<Rightarrow> (BA_CTX \<times> BA_REC_ENTRY) option" where
  "ampdu_surpass c e rx Now32 =
    (let t = rx_Sequence rx - uint (re_BAWinSize e) - 1;
         TmpSeq = (if t < 0 then (MAXSEQ + 1) + t else t);
         WinStartSeq = (TmpSeq + 1) AND MAXSEQ in
     case ba_indicate_reordering_mpdus_le_seq c e WinStartSeq of None \<Rightarrow> None
     | Some (c, e) \<Rightarrow>
       (case ba_enqueue_reordering_packet c
               (e\<lparr>re_LastIndSeq := WinStartSeq, re_LastIndSeqAtTimer := Now32\<rparr>) rx of None \<Rightarrow> None
        | Some (c, e) \<Rightarrow>
           map_option (\<lambda>(s, c, e). (c, set_LastIndSeq s e))
             (ba_indicate_reordering_mpdus_in_order c e (re_LastIndSeq e))))"

definition ampdu_cases :: "BA_CTX \<Rightarrow> BA_REC_ENTRY \<Rightarrow> RX_BLK \<Rightarrow> UINT32 \<Rightarrow> (BA_CTX \<times> BA_REC_ENTRY) option" where
  "ampdu_cases c e rx Now32 =
    (if SEQ_STEPONE (rx_Sequence rx) (re_LastIndSeq e) MAXSEQ then ampdu_in_order c e rx Now32
     else if rx_Sequence rx = re_LastIndSeq e then drop_frame c e rx
     else if SEQ_SMALLER (rx_Sequence rx) (re_LastIndSeq e) MAXSEQ then drop_frame c e rx
     else if SEQ_SMALLER (rx_Sequence rx) ((re_LastIndSeq e + uint (re_BAWinSize e) + 1) AND MAXSEQ) MAXSEQ
     then ba_enqueue_reordering_packet c e rx
     else ampdu_surpass c e rx Now32)"

text \<open>\<^verbatim>\<open>Indicate_AMPDU_Packet\<close> from the point where the session entry is known.\<close>

definition ampdu_session ::
    "nat \<Rightarrow> BA_CTX \<Rightarrow> BA_REC_ENTRY \<Rightarrow> RX_BLK \<Rightarrow> UINT32 \<Rightarrow> (BA_CTX \<times> BA_REC_ENTRY) option" where
  "ampdu_session OS_HZ c e rx Now32 =
    (case ba_flush_reordering_timeout_mpdus OS_HZ c (e\<lparr>re_rcvSeq := rx_Sequence rx\<rparr>) Now32 of None \<Rightarrow> None
     | Some (c, e) \<Rightarrow>
       (let e = e\<lparr>re_LastIndSeqAtTimer := Now32\<rparr> in
        if re_LastIndSeq e = RESET_RCV_SEQ
        then Some (INDICATE_LEGACY_OR_AMSDU c rx,
                   e\<lparr>re_LastIndSeq := rx_Sequence rx, re_LastIndSeqAtTimer := Now32\<rparr>)
        else ampdu_cases c e rx Now32))"

text \<open>The idle timer: \<^verbatim>\<open>REC_BA_SESSION_IDLE_TIMEOUT\<close> is added to ticks.\<close>

abbreviation (input) REC_BA_SESSION_IDLE_TIMEOUT :: UINT32 where "REC_BA_SESSION_IDLE_TIMEOUT \<equiv> 1000"

definition BARecSessionIdleTimeout :: "BA_CTX \<Rightarrow> BA_REC_ENTRY \<Rightarrow> UINT32 \<Rightarrow> BA_CTX \<times> BA_REC_ENTRY" where
  "BARecSessionIdleTimeout c e Now32 =
    (if re_Status e = Recipient_Accept
         \<and> RTMP_TIME_AFTER Now32 (re_LastIndSeqAtTimer e + REC_BA_SESSION_IDLE_TIMEOUT)
     then ba_refresh_reordering_mpdus c e else (c, e))"

section \<open>Circular sequence arithmetic\<close>

text \<open>Sequence numbers are the residues of unwrapped positions; the code's tests decide the order of
  the positions as long as these are less than half the number space apart.\<close>

lemma and_MAXSEQ [simp]: "(x :: int) AND 4095 = x mod 4096"
  using take_bit_eq_mask [of 12 x] by (simp add: take_bit_eq_mod mask_eq_exp_minus_1)

lemma high_digit:
  "0 \<le> r \<Longrightarrow> r < 2048 \<Longrightarrow> 0 \<le> q \<Longrightarrow> q < 2 \<Longrightarrow> (q = 1) = (2048 \<le> 2048 * q + (r :: int))"
  by linarith

lemma and_half: "(x :: int) AND 2048 \<noteq> 0 \<longleftrightarrow> 2048 \<le> x mod 4096"
proof -
  have "x AND 2048 \<noteq> 0 \<longleftrightarrow> bit x 11"
    using and_exp_eq_0_iff_not_bit [of x 11] by simp
  also have "\<dots> \<longleftrightarrow> odd (x div 2048)"
    by (simp add: bit_iff_odd)
  also have "\<dots> \<longleftrightarrow> x div 2048 mod 2 = 1"
    by (simp add: odd_iff_mod_2_eq_one)
  also have "\<dots> \<longleftrightarrow> 2048 \<le> x mod 4096"
    using zmod_zmult2_eq [of 2 x 2048] high_digit [of "x mod 2048" "x div 2048 mod 2"] by simp
  finally show ?thesis .
qed

lemma SEQ_SMALLER_iff: "SEQ_SMALLER a b MAXSEQ \<longleftrightarrow> 2048 \<le> (a - b) mod 4096"
  by (simp add: SEQ_SMALLER_def and_half drop_bit_eq_div)

lemma half_mod:
  assumes "- 2048 \<le> (d :: int)" "d < 2048"
  shows "2048 \<le> d mod 4096 \<longleftrightarrow> d < 0"
proof (cases "d < 0")
  case True
  then have "d mod 4096 = d + 4096"
    using assms mod_pos_pos_trivial [of "d + 4096" 4096] by simp
  then show ?thesis using True assms by simp
next
  case False
  then show ?thesis using assms mod_pos_pos_trivial [of d 4096] by simp
qed

lemma SEQ_SMALLER_unwrap:
  assumes "- 2048 \<le> a - b" "a - b < 2048"
  shows "SEQ_SMALLER (a mod 4096) (b mod 4096) MAXSEQ \<longleftrightarrow> a < b"
  using half_mod [OF assms] by (simp add: SEQ_SMALLER_iff mod_diff_eq)

lemma mod_inj_near:
  assumes "\<bar>a - b\<bar> < (4096 :: int)"
  shows "a mod 4096 = b mod 4096 \<longleftrightarrow> a = b"
proof
  assume "a mod 4096 = b mod 4096"
  then have "4096 dvd a - b" by (simp add: mod_eq_dvd_iff)
  then show "a = b" using assms zdvd_not_zless [of "\<bar>a - b\<bar>" 4096] by (cases "a = b") auto
qed simp

lemma SEQ_STEPONE_unwrap:
  assumes "\<bar>a - b - 1\<bar> < 4096"
  shows "SEQ_STEPONE (a mod 4096) (b mod 4096) MAXSEQ \<longleftrightarrow> a = b + 1"
  using mod_inj_near [of a "b + 1"] assms by (simp add: SEQ_STEPONE_def mod_simps algebra_simps)


section \<open>Closed forms of the delivery loops\<close>

definition rl_of :: "reordering_mpdu list \<Rightarrow> reordering_list" where
  "rl_of bs = \<lparr>rl_next = bs, qlen = int (length bs)\<rparr>"

lemma rl_of_sel [simp]: "rl_next (rl_of bs) = bs" "qlen (rl_of bs) = int (length bs)"
  by (simp_all add: rl_of_def)

lemma ba_dequeue_rl_of [simp]:
  "ba_dequeue (rl_of []) = (None, rl_of [])"
  "ba_dequeue (rl_of (b # bs)) = (Some b, rl_of bs)"
  by (simp_all add: ba_dequeue_def rl_of_def)

lemma ba_enqueue_rl_of [simp]: "ba_enqueue (rl_of bs) b = rl_of (b # bs)"
  by (simp add: ba_enqueue_def rl_of_def)

text \<open>One block is announced and given back; several, in turn.\<close>

definition deliver1 :: "reordering_mpdu \<Rightarrow> BA_CTX \<Rightarrow> BA_CTX" where
  "deliver1 b c = ba_mpdu_blk_free (Announce_Reordering_Packet c b) b"

definition deliver :: "reordering_mpdu list \<Rightarrow> BA_CTX \<Rightarrow> BA_CTX" where
  "deliver bs c = fold deliver1 bs c"

lemma deliver_simps [simp]:
  "deliver [] c = c" "deliver (b # bs) c = deliver bs (deliver1 b c)"
  by (simp_all add: deliver_def)

fun step_run :: "int \<Rightarrow> reordering_mpdu list \<Rightarrow> reordering_mpdu list" where
  "step_run s [] = []"
| "step_run s (b # bs) = (if SEQ_STEPONE (Sequence b) s MAXSEQ then b # step_run (Sequence b) bs else [])"

lemma in_order_loop_rl_of:
  "in_order_loop c (rl_of bs) s l =
    Some (last (l # map Sequence (step_run s bs)), deliver (step_run s bs) c,
          rl_of (drop (length (step_run s bs)) bs))"
  by (induction bs arbitrary: c s l) (subst in_order_loop.simps, simp add: deliver1_def)+

abbreviation seq_le :: "int \<Rightarrow> reordering_mpdu \<Rightarrow> bool" where
  "seq_le s \<equiv> \<lambda>b. Sequence b = s \<or> SEQ_SMALLER (Sequence b) s MAXSEQ"

lemma le_seq_loop_rl_of:
  "le_seq_loop c (rl_of bs) s = Some (deliver (takeWhile (seq_le s) bs) c, rl_of (dropWhile (seq_le s) bs))"
  by (induction bs arbitrary: c) (subst le_seq_loop.simps, simp add: deliver1_def)+

lemma refresh_loop_rl_of:
  "re_list e = rl_of bs \<Longrightarrow> refresh_loop c e =
    (deliver bs c, e\<lparr>re_list := rl_of [], re_LastIndSeq := last (re_LastIndSeq e # map Sequence bs)\<rparr>)"
proof (induction bs arbitrary: c e)
  case Nil
  then show ?case by (subst refresh_loop.simps) simp
next
  case (Cons b bs)
  then show ?case by (subst refresh_loop.simps) (simp add: deliver1_def)
qed

lemma ba_refresh_reordering_mpdus_rl_of:
  "re_list e = rl_of bs \<Longrightarrow> ba_refresh_reordering_mpdus c e =
    (deliver bs c, e\<lparr>re_list := rl_of [], re_LastIndSeq := RESET_RCV_SEQ\<rparr>)"
  by (simp add: ba_refresh_reordering_mpdus_def refresh_loop_rl_of)

lemma ba_indicate_in_order_rl_of:
  "re_list e = rl_of bs \<Longrightarrow> ba_indicate_reordering_mpdus_in_order c e s =
    Some (last (RESET_RCV_SEQ # map Sequence (step_run s bs)), deliver (step_run s bs) c,
          e\<lparr>re_list := rl_of (drop (length (step_run s bs)) bs)\<rparr>)"
  by (simp add: ba_indicate_reordering_mpdus_in_order_def in_order_loop_rl_of)

lemma ba_indicate_le_seq_rl_of:
  "re_list e = rl_of bs \<Longrightarrow> ba_indicate_reordering_mpdus_le_seq c e s =
    Some (deliver (takeWhile (seq_le s) bs) c, e\<lparr>re_list := rl_of (dropWhile (seq_le s) bs)\<rparr>)"
  by (simp add: ba_indicate_reordering_mpdus_le_seq_def le_seq_loop_rl_of)

lemma ba_reordering_mpdu_insertsorted_rl_of:
  "ba_reordering_mpdu_insertsorted (rl_of bs) m =
    (case insert_scan m bs of None \<Rightarrow> (False, rl_of bs) | Some bs' \<Rightarrow> (True, rl_of bs'))"
proof -
  have "insert_scan m bs = Some bs' \<Longrightarrow> length bs' = Suc (length bs)" for bs'
    by (induction bs arbitrary: bs') (auto split: if_splits)
  then show ?thesis
    by (auto simp: ba_reordering_mpdu_insertsorted_def rl_of_def split: option.splits)
qed

section \<open>What leaves the buffer\<close>

text \<open>The packets handed up or released, and the sequence numbers handed up, in order.\<close>

fun ev_packets :: "rx_event \<Rightarrow> nat list" where
  "ev_packets (BA_Reorder_AMSDU_Annnounce p m s) = [p]"
| "ev_packets (Sta_Announce_or_Forward_802_3_Packet p s) = [p]"
| "ev_packets (Indicate_AMSDU_Packet p s) = [p]"
| "ev_packets (Indicate_EAPOL_Packet p s) = [p]"
| "ev_packets (Indicate_Legacy_Packet p s) = [p]"
| "ev_packets (RELEASE_NDIS_PACKET p) = [p]"
| "ev_packets (Convert_802_3 p) = []"

fun ev_seqs :: "rx_event \<Rightarrow> int list" where
  "ev_seqs (BA_Reorder_AMSDU_Annnounce p m s) = [s]"
| "ev_seqs (Sta_Announce_or_Forward_802_3_Packet p s) = [s]"
| "ev_seqs (Indicate_AMSDU_Packet p s) = [s]"
| "ev_seqs (Indicate_EAPOL_Packet p s) = [s]"
| "ev_seqs (Indicate_Legacy_Packet p s) = [s]"
| "ev_seqs (RELEASE_NDIS_PACKET p) = []"
| "ev_seqs (Convert_802_3 p) = []"

definition outs :: "BA_CTX \<Rightarrow> nat list" where
  "outs c = concat (map ev_packets (rxlog c))"

definition indicated :: "BA_CTX \<Rightarrow> int list" where
  "indicated c = concat (map ev_seqs (rxlog c))"

named_theorems ctx_simps \<open>effect of the steps on what left the buffer and on the pool\<close>

lemma log_event_ctx [ctx_simps]:
  "outs (log_event c ev) = outs c @ ev_packets ev"
  "indicated (log_event c ev) = indicated c @ ev_seqs ev"
  "freelist (log_event c ev) = freelist c"
  by (simp_all add: outs_def indicated_def log_event_def)

lemma ba_mpdu_blk_free_ctx [ctx_simps]:
  "outs (ba_mpdu_blk_free c b) = outs c"
  "indicated (ba_mpdu_blk_free c b) = indicated c"
  "freelist (ba_mpdu_blk_free c b) = ba_enqueue (freelist c) b"
  by (simp_all add: outs_def indicated_def ba_mpdu_blk_free_def)

lemma INDICATE_ctx [ctx_simps]:
  "outs (INDICATE_LEGACY_OR_AMSDU c rx) = outs c @ [rx_Packet rx]"
  "indicated (INDICATE_LEGACY_OR_AMSDU c rx) = indicated c @ [rx_Sequence rx]"
  "freelist (INDICATE_LEGACY_OR_AMSDU c rx) = freelist c"
  by (simp_all add: INDICATE_LEGACY_OR_AMSDU_def ctx_simps)

lemma deliver1_ctx [ctx_simps]:
  "outs (deliver1 b c) = outs c @ [pPacket b]"
  "indicated (deliver1 b c) = indicated c @ [Sequence b]"
  "freelist (deliver1 b c) = ba_enqueue (freelist c) b"
  by (simp_all add: deliver1_def Announce_Reordering_Packet_def ctx_simps)

lemma deliver_ctx [ctx_simps]:
  "outs (deliver bs c) = outs c @ map pPacket bs"
  "indicated (deliver bs c) = indicated c @ map Sequence bs"
  "freelist c = rl_of fs \<Longrightarrow> freelist (deliver bs c) = rl_of (rev bs @ fs)"
  by (induction bs arbitrary: c fs) (simp_all add: ctx_simps)

lemma ba_mpdu_blk_alloc_rl_of:
  "freelist c = rl_of [] \<Longrightarrow> ba_mpdu_blk_alloc c = (None, c)"
  "freelist c = rl_of (f # fs) \<Longrightarrow> ba_mpdu_blk_alloc c = (Some (mpdu_zero (blk f)), c\<lparr>freelist := rl_of fs\<rparr>)"
  by (simp_all add: ba_mpdu_blk_alloc_def)

lemma freelist_update_ctx [ctx_simps]:
  "outs (c\<lparr>freelist := L\<rparr>) = outs c" "indicated (c\<lparr>freelist := L\<rparr>) = indicated c"
  by (simp_all add: outs_def indicated_def)


section \<open>Conservation of packets and blocks\<close>

text \<open>Both counters are the lengths of their lists; the packets that left or wait; the blocks of the
  pool and of the session.\<close>

definition ba_ok :: "BA_CTX \<Rightarrow> BA_REC_ENTRY \<Rightarrow> bool" where
  "ba_ok c e \<longleftrightarrow> freelist c = rl_of (rl_next (freelist c)) \<and> re_list e = rl_of (rl_next (re_list e))"

definition held :: "BA_CTX \<Rightarrow> BA_REC_ENTRY \<Rightarrow> nat multiset" where
  "held c e = mset (outs c) + mset (map pPacket (rl_next (re_list e)))"

definition blocks :: "BA_CTX \<Rightarrow> BA_REC_ENTRY \<Rightarrow> nat multiset" where
  "blocks c e = mset (map blk (rl_next (freelist c))) + mset (map blk (rl_next (re_list e)))"

text \<open>\<open>conserves c e P B r\<close>: the step \<open>r\<close> from \<open>(c, e)\<close> succeeds, takes in the packets \<open>P\<close> and loses
  the blocks \<open>B\<close>, and otherwise keeps both.\<close>

definition conserves ::
    "BA_CTX \<Rightarrow> BA_REC_ENTRY \<Rightarrow> nat multiset \<Rightarrow> nat multiset \<Rightarrow> (BA_CTX \<times> BA_REC_ENTRY) option \<Rightarrow> bool" where
  "conserves c e P B r \<longleftrightarrow> (\<exists>c' e'. r = Some (c', e') \<and> ba_ok c' e' \<and>
    held c' e' = held c e + P \<and> blocks c' e' + B = blocks c e)"

lemma conservesE:
  assumes "conserves c e P B r"
  obtains c' e' where "r = Some (c', e')" "ba_ok c' e'" "held c' e' = held c e + P"
    "blocks c' e' + B = blocks c e"
  using assms by (auto simp: conserves_def)

lemma ba_okE:
  assumes "ba_ok c e"
  obtains fs bs where "freelist c = rl_of fs" "re_list e = rl_of bs"
  using assms by (auto simp: ba_ok_def)

lemma ba_okI: "freelist c = rl_of fs \<Longrightarrow> re_list e = rl_of bs \<Longrightarrow> ba_ok c e"
  by (simp add: ba_ok_def)

lemma conservesI:
  assumes "r = Some (c', e')" "freelist c' = rl_of fs'" "re_list e' = rl_of bs'"
    "mset (outs c') + mset (map pPacket bs') = held c e + P"
    "mset (map blk fs') + mset (map blk bs') + B = blocks c e"
  shows "conserves c e P B r"
  using assms by (simp add: conserves_def ba_ok_def held_def blocks_def)

text \<open>The lists, their packets and their blocks do not depend on the other fields of the session.\<close>

lemma entry_irrelevant [simp]:
  "ba_ok c (e\<lparr>re_LastIndSeq := s\<rparr>) = ba_ok c e" "held c (e\<lparr>re_LastIndSeq := s\<rparr>) = held c e"
  "blocks c (e\<lparr>re_LastIndSeq := s\<rparr>) = blocks c e"
  "ba_ok c (e\<lparr>re_LastIndSeqAtTimer := t\<rparr>) = ba_ok c e" "held c (e\<lparr>re_LastIndSeqAtTimer := t\<rparr>) = held c e"
  "blocks c (e\<lparr>re_LastIndSeqAtTimer := t\<rparr>) = blocks c e"
  "ba_ok c (e\<lparr>re_rcvSeq := s\<rparr>) = ba_ok c e" "held c (e\<lparr>re_rcvSeq := s\<rparr>) = held c e"
  "blocks c (e\<lparr>re_rcvSeq := s\<rparr>) = blocks c e"
  "ba_ok c (e\<lparr>re_nDropPacket := n\<rparr>) = ba_ok c e" "held c (e\<lparr>re_nDropPacket := n\<rparr>) = held c e"
  "blocks c (e\<lparr>re_nDropPacket := n\<rparr>) = blocks c e"
  "ba_ok c (set_LastIndSeq s e) = ba_ok c e" "held c (set_LastIndSeq s e) = held c e"
  "blocks c (set_LastIndSeq s e) = blocks c e"
  by (simp_all add: ba_ok_def held_def blocks_def set_LastIndSeq_def)

lemma INDICATE_conserves [simp]:
  "ba_ok (INDICATE_LEGACY_OR_AMSDU c rx) e = ba_ok c e"
  "held (INDICATE_LEGACY_OR_AMSDU c rx) e = held c e + {#rx_Packet rx#}"
  "blocks (INDICATE_LEGACY_OR_AMSDU c rx) e = blocks c e"
  by (simp_all add: ba_ok_def held_def blocks_def ctx_simps)

lemma split_conserves:
  assumes "ba_ok c e" "rl_next (re_list e) = ds @ rs"
  shows "conserves c e {#} {#} (Some (deliver ds c, e\<lparr>re_list := rl_of rs\<rparr>))"
proof -
  obtain fs bs where fb: "freelist c = rl_of fs" "re_list e = rl_of bs" using assms(1) by (rule ba_okE)
  show ?thesis
  proof (rule conservesI)
    show "freelist (deliver ds c) = rl_of (rev ds @ fs)" using fb by (simp add: ctx_simps)
    show "re_list (e\<lparr>re_list := rl_of rs\<rparr>) = rl_of rs" by simp
  qed (use fb assms(2) in \<open>simp_all add: held_def blocks_def ctx_simps\<close>)
qed

lemma le_seq_conserves:
  assumes "ba_ok c e"
  shows "conserves c e {#} {#} (ba_indicate_reordering_mpdus_le_seq c e s)"
proof -
  have L: "re_list e = rl_of (rl_next (re_list e))" using assms by (simp add: ba_ok_def)
  show ?thesis
    unfolding ba_indicate_le_seq_rl_of [OF L] by (rule split_conserves [OF assms]) simp
qed

lemma step_run_prefix: "bs = step_run s bs @ drop (length (step_run s bs)) bs"
  by (induction bs arbitrary: s) auto

lemma in_order_conserves:
  assumes "ba_ok c e"
  obtains s' c' e' where "ba_indicate_reordering_mpdus_in_order c e s = Some (s', c', e')"
    "ba_ok c' e'" "held c' e' = held c e" "blocks c' e' = blocks c e"
proof -
  have L: "re_list e = rl_of (rl_next (re_list e))" using assms by (simp add: ba_ok_def)
  from split_conserves [OF assms step_run_prefix [of _ s]] show ?thesis
    by (rule conservesE) (rule that [OF ba_indicate_in_order_rl_of [OF L]], auto)
qed

lemma refresh_conserves:
  assumes "ba_ok c e"
  shows "conserves c e {#} {#} (Some (ba_refresh_reordering_mpdus c e))"
proof -
  have L: "re_list e = rl_of (rl_next (re_list e))" using assms by (simp add: ba_ok_def)
  show ?thesis
    using split_conserves [OF assms, of "rl_next (re_list e)" "[]"]
    unfolding ba_refresh_reordering_mpdus_rl_of [OF L] by (simp add: conserves_def)
qed

lemma flush_conserves:
  assumes ok: "ba_ok c e"
  shows "conserves c e {#} {#} (ba_flush_reordering_timeout_mpdus hz c e now)"
proof -
  obtain c1 e1 where all: "ba_refresh_reordering_mpdus c e = (c1, e1)" "ba_ok c1 e1"
    "held c1 e1 = held c e" "blocks c1 e1 = blocks c e"
    using refresh_conserves [OF ok] by (auto elim!: conservesE)
  define s where "s = (re_LastIndSeq e + 1) AND MAXSEQ"
  obtain c2 e2 where le: "ba_indicate_reordering_mpdus_le_seq c e s = Some (c2, e2)" "ba_ok c2 e2"
    "held c2 e2 = held c e" "blocks c2 e2 = blocks c e"
    using le_seq_conserves [OF ok, of s] by (auto elim!: conservesE)
  obtain l c3 e3 where io: "ba_indicate_reordering_mpdus_in_order c2
      (e2\<lparr>re_LastIndSeqAtTimer := now, re_LastIndSeq := s\<rparr>) s = Some (l, c3, e3)" "ba_ok c3 e3"
    "held c3 e3 = held c e" "blocks c3 e3 = blocks c e"
    using in_order_conserves [of c2 "e2\<lparr>re_LastIndSeqAtTimer := now, re_LastIndSeq := s\<rparr>" s] le by auto
  show ?thesis
    using ok all le io unfolding ba_flush_reordering_timeout_mpdus_def s_def [symmetric] Let_def
    by (simp add: conserves_def)
qed


lemma insert_scan_mset: "insert_scan m bs = Some bs' \<Longrightarrow> mset bs' = mset (m # bs)"
  by (induction bs arbitrary: bs') (auto split: if_splits)

text \<open>The block taken for a frame that is not queued: it goes neither to the list nor back.\<close>

definition leaked :: "BA_CTX \<Rightarrow> RX_BLK \<Rightarrow> nat multiset" where
  "leaked c rx = (if rx_EAP rx then mset (map blk (take 1 (rl_next (freelist c)))) else {#})"

lemma enqueue_direct:
  assumes ok: "ba_ok c e" and c: "ba_ok c1 e" "held c1 e = held c e" "blocks c1 e + B = blocks c e"
  shows "conserves c e {#rx_Packet rx#} B
    (map_option (\<lambda>(c, e). (INDICATE_LEGACY_OR_AMSDU c rx, e\<lparr>re_LastIndSeq := rx_Sequence rx\<rparr>))
      (ba_indicate_reordering_mpdus_le_seq c1 e (rx_Sequence rx)))"
  using le_seq_conserves [OF c(1), of "rx_Sequence rx"] c by (auto elim!: conservesE simp: conserves_def)

lemma enqueue_conserves:
  assumes ok: "ba_ok c e"
  shows "conserves c e {#rx_Packet rx#} (leaked c rx) (ba_enqueue_reordering_packet c e rx)"
proof -
  obtain fs bs where fb: "freelist c = rl_of fs" "re_list e = rl_of bs" using ok by (rule ba_okE)
  show ?thesis
  proof (cases fs)
    case Nil
    then show ?thesis
      using fb ok enqueue_direct [OF ok ok, of "{#}" rx]
      by (simp add: ba_enqueue_reordering_packet_def ba_mpdu_blk_alloc_rl_of leaked_def)
  next
    case (Cons f fs')
    note alloc = ba_mpdu_blk_alloc_rl_of(2) [OF fb(1) [unfolded Cons]]
    let ?c1 = "c\<lparr>freelist := rl_of fs'\<rparr>"
    show ?thesis
    proof (cases "rx_EAP rx")
      case True
      have "conserves c e {#rx_Packet rx#} {#blk f#}
        (map_option (\<lambda>(c, e). (INDICATE_LEGACY_OR_AMSDU c rx, e\<lparr>re_LastIndSeq := rx_Sequence rx\<rparr>))
          (ba_indicate_reordering_mpdus_le_seq ?c1 e (rx_Sequence rx)))"
        using fb Cons by (intro enqueue_direct [OF ok]) (simp_all add: ba_ok_def held_def blocks_def ctx_simps)
      then show ?thesis
        using True fb Cons by (simp add: ba_enqueue_reordering_packet_def alloc leaked_def)
    next
      case False
      let ?m = "(mpdu_zero (blk f))\<lparr>Sequence := rx_Sequence rx, mOpMode := rx_Opmode rx,
        bAMSDU := rx_AMSDU rx, pPacket := rx_Packet rx\<rparr>"
      show ?thesis
      proof (cases "insert_scan ?m bs")
        case None
        then show ?thesis
          using False fb Cons
          by (simp add: ba_enqueue_reordering_packet_def alloc leaked_def conserves_def ba_ok_def held_def
              blocks_def ctx_simps ba_reordering_mpdu_insertsorted_rl_of mpdu_zero_def)
      next
        case (Some bs')
        from insert_scan_mset [OF Some]
        have "mset (map pPacket bs') = mset (map pPacket (?m # bs))" "mset (map blk bs') = mset (map blk (?m # bs))"
          by (metis mset_map)+
        then show ?thesis
          using False fb Cons Some
          by (simp add: ba_enqueue_reordering_packet_def alloc leaked_def conserves_def ba_ok_def held_def
              blocks_def ctx_simps ba_reordering_mpdu_insertsorted_rl_of mpdu_zero_def)
      qed
    qed
  qed
qed

lemma in_order_case_conserves:
  assumes ok: "ba_ok c e"
  shows "conserves c e {#rx_Packet rx#} {#} (ampdu_in_order c e rx now)"
proof -
  let ?c = "INDICATE_LEGACY_OR_AMSDU c rx" and ?e = "e\<lparr>re_LastIndSeq := rx_Sequence rx\<rparr>"
  have "ba_ok ?c ?e" using ok by simp
  then obtain s c' e' where "ba_indicate_reordering_mpdus_in_order ?c ?e (rx_Sequence rx) = Some (s, c', e')"
    "ba_ok c' e'" "held c' e' = held ?c ?e" "blocks c' e' = blocks ?c ?e"
    by (rule in_order_conserves)
  then show ?thesis by (simp add: ampdu_in_order_def Let_def conserves_def)
qed

lemma drop_conserves: "ba_ok c e \<Longrightarrow> conserves c e {#rx_Packet rx#} {#} (drop_frame c e rx)"
  by (simp add: drop_frame_def conserves_def) (simp add: ba_ok_def held_def blocks_def ctx_simps)

lemma surpass_conserves:
  assumes ok: "ba_ok c e"
  shows "\<exists>B. conserves c e {#rx_Packet rx#} B (ampdu_surpass c e rx now) \<and> (\<not> rx_EAP rx \<longrightarrow> B = {#}) \<and> size B \<le> 1"
proof -
  define t where "t = rx_Sequence rx - uint (re_BAWinSize e) - 1"
  define w where "w = ((if t < 0 then (MAXSEQ + 1) + t else t) + 1) AND MAXSEQ"
  obtain c1 e1 where 1: "ba_indicate_reordering_mpdus_le_seq c e w = Some (c1, e1)" "ba_ok c1 e1"
    "held c1 e1 = held c e" "blocks c1 e1 = blocks c e"
    using le_seq_conserves [OF ok, of w] by (auto elim!: conservesE)
  define e2 where "e2 = e1\<lparr>re_LastIndSeq := w, re_LastIndSeqAtTimer := now\<rparr>"
  have "conserves c1 e2 {#rx_Packet rx#} (leaked c1 rx) (ba_enqueue_reordering_packet c1 e2 rx)"
    by (rule enqueue_conserves) (use 1 in \<open>simp add: e2_def\<close>)
  then obtain c3 e3 where 3: "ba_enqueue_reordering_packet c1 e2 rx = Some (c3, e3)" "ba_ok c3 e3"
    "held c3 e3 = held c e + {#rx_Packet rx#}" "blocks c3 e3 + leaked c1 rx = blocks c e"
    using 1 by (auto elim!: conservesE simp: e2_def)
  obtain s c4 e4 where 4: "ba_indicate_reordering_mpdus_in_order c3 e3 (re_LastIndSeq e3) = Some (s, c4, e4)"
    "ba_ok c4 e4" "held c4 e4 = held c3 e3" "blocks c4 e4 = blocks c3 e3"
    using 3(2) by (rule in_order_conserves)
  have "conserves c e {#rx_Packet rx#} (leaked c1 rx) (ampdu_surpass c e rx now)"
    using 1(1) 3 4 unfolding ampdu_surpass_def Let_def t_def [symmetric] w_def [symmetric]
    by (simp add: conserves_def flip: e2_def)
  moreover have "\<not> rx_EAP rx \<Longrightarrow> leaked c1 rx = {#}" "size (leaked c1 rx) \<le> 1"
    by (simp_all add: leaked_def)
  ultimately show ?thesis by blast
qed

lemma cases_conserves:
  assumes ok: "ba_ok c e"
  shows "\<exists>B. conserves c e {#rx_Packet rx#} B (ampdu_cases c e rx now) \<and> (\<not> rx_EAP rx \<longrightarrow> B = {#}) \<and> size B \<le> 1"
proof -
  obtain B where "conserves c e {#rx_Packet rx#} B (ampdu_surpass c e rx now)" "\<not> rx_EAP rx \<Longrightarrow> B = {#}" "size B \<le> 1"
    using surpass_conserves [OF ok, of rx now] by blast
  moreover have "\<not> rx_EAP rx \<Longrightarrow> leaked c rx = {#}" "size (leaked c rx) \<le> 1"
    by (simp_all add: leaked_def)
  ultimately show ?thesis
    unfolding ampdu_cases_def
    using in_order_case_conserves [OF ok, of rx now] drop_conserves [OF ok, of rx] enqueue_conserves [OF ok, of rx]
    by (auto intro: exI [of _ "{#}"])
qed

lemma session_conserves:
  assumes ok: "ba_ok c e"
  shows "\<exists>B. conserves c e {#rx_Packet rx#} B (ampdu_session hz c e rx now) \<and> (\<not> rx_EAP rx \<longrightarrow> B = {#}) \<and> size B \<le> 1"
proof -
  let ?e = "e\<lparr>re_rcvSeq := rx_Sequence rx\<rparr>"
  have "ba_ok c ?e" using ok by simp
  then have "conserves c ?e {#} {#} (ba_flush_reordering_timeout_mpdus hz c ?e now)" by (rule flush_conserves)
  then obtain c1 e1 where 1: "ba_flush_reordering_timeout_mpdus hz c ?e now = Some (c1, e1)" "ba_ok c1 e1"
    "held c1 e1 = held c e" "blocks c1 e1 = blocks c e"
    by (auto elim!: conservesE)
  have "ba_ok c1 (e1\<lparr>re_LastIndSeqAtTimer := now\<rparr>)" using 1 by simp
  from cases_conserves [OF this, of rx now] 1 show ?thesis
    by (auto simp: ampdu_session_def Let_def conserves_def intro: exI [of _ "{#}"])
qed


section \<open>The reordering buffer over unwrapped positions\<close>

text \<open>The specification has no modular arithmetic: \<open>l\<close> is the position of the last frame given up,
  \<open>us\<close> the positions of the waiting frames.  A step yields the positions delivered, in order.\<close>

fun crun :: "int \<Rightarrow> int list \<Rightarrow> int list" where
  "crun l [] = []"
| "crun l (u # us) = (if u = l + 1 then u # crun u us else [])"

definition settle :: "int \<Rightarrow> int list \<Rightarrow> int list \<times> int \<times> int list" where
  "settle l us = (crun l us, last (l # crun l us), drop (length (crun l us)) us)"

definition spec_recv :: "int \<Rightarrow> int \<Rightarrow> int list \<Rightarrow> int \<Rightarrow> int list \<times> int \<times> int list" where
  "spec_recv W l us s =
    (if s = l + 1 then (case settle s us of (r, l', us') \<Rightarrow> (s # r, l', us'))
     else if s \<le> l then ([], l, us)
     else if s \<le> l + W then ([], l, if s \<in> set us then us else insort s us)
     else case settle (s - W) (dropWhile (\<lambda>u. u \<le> s - W) us @ [s]) of
       (r, l', us') \<Rightarrow> (takeWhile (\<lambda>u. u \<le> s - W) us @ r, l', us'))"

definition spec_inv :: "int \<Rightarrow> int \<Rightarrow> int list \<Rightarrow> bool" where
  "spec_inv W l us \<longleftrightarrow> sorted_wrt (<) us \<and> (\<forall>u \<in> set us. l + 2 \<le> u \<and> u \<le> l + W)"

text \<open>A step from \<open>l\<close> to \<open>l'\<close> delivers increasing positions between the two.\<close>

definition spec_ordered :: "int \<Rightarrow> int list \<Rightarrow> int \<Rightarrow> bool" where
  "spec_ordered l ds l' \<longleftrightarrow> l \<le> l' \<and> sorted_wrt (<) ds \<and> (\<forall>d \<in> set ds. l < d \<and> d \<le> l')"

lemma spec_ordered_append:
  "spec_ordered l ds l' \<Longrightarrow> spec_ordered l' ds' l'' \<Longrightarrow> spec_ordered l (ds @ ds') l''"
  by (fastforce simp: spec_ordered_def sorted_wrt_append)

lemma spec_ordered_Nil [simp]: "spec_ordered l [] l' \<longleftrightarrow> l \<le> l'"
  by (simp add: spec_ordered_def)

lemma spec_ordered_Cons: "spec_ordered l (d # ds) l' \<longleftrightarrow> l < d \<and> spec_ordered d ds l'"
  by (fastforce simp: spec_ordered_def)

lemma settle_correct:
  assumes "sorted_wrt (<) us" "\<forall>u \<in> set us. l < u \<and> u \<le> l + W" "settle l us = (r, l', us')"
  shows "spec_inv W l' us' \<and> spec_ordered l r l'"
  using assms
proof (induction us arbitrary: l r)
  case Nil
  then show ?case by (auto simp: settle_def spec_inv_def)
next
  case (Cons u us)
  show ?case
  proof (cases "u = l + 1")
    case True
    then have r: "settle u us = (tl r, l', us')" "r = u # tl r"
      using Cons.prems(3) by (auto simp: settle_def)
    have "\<forall>v \<in> set us. u < v \<and> v \<le> u + W" using Cons.prems True by fastforce
    then have "spec_inv W l' us' \<and> spec_ordered u (tl r) l'"
      using Cons.IH [OF _ _ r(1)] Cons.prems(1) by simp
    then show ?thesis using r(2) True spec_ordered_Cons [of l u "tl r" l'] by simp
  next
    case False
    then show ?thesis using Cons.prems by (fastforce simp: settle_def spec_inv_def)
  qed
qed

lemma sorted_split_at:
  assumes "sorted_wrt (<) (us :: int list)"
  shows "\<forall>u \<in> set (takeWhile (\<lambda>u. u \<le> w) us). u \<le> w" "\<forall>u \<in> set (dropWhile (\<lambda>u. u \<le> w) us). w < u"
    "sorted_wrt (<) (takeWhile (\<lambda>u. u \<le> w) us)" "sorted_wrt (<) (dropWhile (\<lambda>u. u \<le> w) us)"
proof -
  show "\<forall>u \<in> set (takeWhile (\<lambda>u. u \<le> w) us). u \<le> w" by (auto dest: set_takeWhileD)
  show "\<forall>u \<in> set (dropWhile (\<lambda>u. u \<le> w) us). w < u"
    using assms by (induction us) auto
  show "sorted_wrt (<) (takeWhile (\<lambda>u. u \<le> w) us)" "sorted_wrt (<) (dropWhile (\<lambda>u. u \<le> w) us)"
    using assms by (induction us) (auto dest: set_takeWhileD)
qed

lemma spec_recv_correct:
  assumes inv: "spec_inv W l us" and W: "1 \<le> W" and r: "spec_recv W l us s = (ds, l', us')"
  shows "spec_inv W l' us' \<and> spec_ordered l ds l'"
proof -
  consider "s = l + 1" | "s \<le> l" | "l + 1 < s" "s \<le> l + W" | "l + W < s" "s \<noteq> l + 1" by linarith
  then show ?thesis
  proof cases
    case 1
    then obtain r1 where 2: "settle s us = (r1, l', us')" "ds = s # r1"
      using r by (auto simp: spec_recv_def split: prod.splits)
    have "spec_inv W l' us' \<and> spec_ordered s r1 l'"
      by (rule settle_correct [OF _ _ 2(1)]) (use inv 1 in \<open>auto simp: spec_inv_def\<close>)
    then show ?thesis using 1 2 by (simp add: spec_ordered_Cons)
  next
    case 2
    then show ?thesis using r inv by (auto simp: spec_recv_def)
  next
    case 3
    then show ?thesis
      using r inv by (auto simp: spec_recv_def spec_inv_def set_insort_key strict_sorted_iff distinct_insort
          sorted_insort split: if_splits)
  next
    case 4
    define w where "w = s - W"
    then obtain r1 where 2: "settle w (dropWhile (\<lambda>u. u \<le> w) us @ [s]) = (r1, l', us')"
      "ds = takeWhile (\<lambda>u. u \<le> w) us @ r1"
      using r 4 W by (auto simp: spec_recv_def split: prod.splits if_splits)
    have us: "sorted_wrt (<) us" "\<forall>u \<in> set us. l + 2 \<le> u \<and> u \<le> l + W" using inv by (auto simp: spec_inv_def)
    note at = sorted_split_at [OF us(1), of w]
    have sub: "set (dropWhile (\<lambda>u. u \<le> w) us) \<subseteq> set us" "set (takeWhile (\<lambda>u. u \<le> w) us) \<subseteq> set us"
      by (auto dest: set_dropWhileD set_takeWhileD)
    have "sorted_wrt (<) (dropWhile (\<lambda>u. u \<le> w) us @ [s])"
      "\<forall>u \<in> set (dropWhile (\<lambda>u. u \<le> w) us @ [s]). w < u \<and> u \<le> w + W"
      using at us sub 4 W by (fastforce simp: sorted_wrt_append w_def)+
    then have "spec_inv W l' us' \<and> spec_ordered w r1 l'" by (rule settle_correct [OF _ _ 2(1)])
    moreover have "spec_ordered l (takeWhile (\<lambda>u. u \<le> w) us) w"
      using at us sub 4 by (fastforce simp: spec_ordered_def w_def)
    ultimately show ?thesis using spec_ordered_append 2(2) by blast
  qed
qed


section \<open>The session refines the specification\<close>

abbreviation seq_rel :: "reordering_mpdu \<Rightarrow> int \<Rightarrow> bool" where
  "seq_rel \<equiv> \<lambda>b u. Sequence b = u mod 4096"

abbreviation wrap :: "int list \<Rightarrow> int list" where
  "wrap \<equiv> map (\<lambda>u. u mod 4096)"

definition ba_rep :: "BA_REC_ENTRY \<Rightarrow> int \<Rightarrow> int list \<Rightarrow> bool" where
  "ba_rep e l us \<longleftrightarrow> re_list e = rl_of (rl_next (re_list e)) \<and> list_all2 seq_rel (rl_next (re_list e)) us
    \<and> re_LastIndSeq e = l mod 4096 \<and> spec_inv (uint (re_BAWinSize e)) l us"

lemma wrap_of_rel: "list_all2 seq_rel bs us \<Longrightarrow> map Sequence bs = wrap us"
  by (induction rule: list_all2_induct) auto

lemma step_run_rel:
  assumes "list_all2 seq_rel bs us" "sorted_wrt (<) us" "\<forall>u \<in> set us. l < u \<and> u \<le> l + 256"
  shows "list_all2 seq_rel (step_run (l mod 4096) bs) (crun l us)"
  using assms
proof (induction arbitrary: l rule: list_all2_induct)
  case Nil
  then show ?case by simp
next
  case (Cons b bs u us)
  have step: "SEQ_STEPONE (Sequence b) (l mod 4096) MAXSEQ \<longleftrightarrow> u = l + 1"
    using Cons by (simp add: SEQ_STEPONE_unwrap)
  show ?case
  proof (cases "u = l + 1")
    case True
    have "\<forall>v \<in> set us. u < v \<and> v \<le> u + 256" using Cons.prems True by fastforce
    then have "list_all2 seq_rel (step_run (Sequence b) bs) (crun u us)"
      using Cons.IH [of u] Cons.prems(1) Cons.hyps(1) by simp
    then show ?thesis using step True Cons.hyps(1) by simp
  next
    case False
    then show ?thesis using step by simp
  qed
qed

lemma while_rel:
  assumes "list_all2 R xs ys" "\<forall>x y. R x y \<longrightarrow> y \<in> set ys \<longrightarrow> P x = Q y"
  shows "list_all2 R (takeWhile P xs) (takeWhile Q ys)" "list_all2 R (dropWhile P xs) (dropWhile Q ys)"
  using assms by (induction rule: list_all2_induct) auto

lemma seq_le_rel:
  assumes "list_all2 seq_rel bs us" "\<forall>u \<in> set us. - 2048 \<le> u - w \<and> u - w < 2048"
  shows "list_all2 seq_rel (takeWhile (seq_le (w mod 4096)) bs) (takeWhile (\<lambda>u. u \<le> w) us)"
    "list_all2 seq_rel (dropWhile (seq_le (w mod 4096)) bs) (dropWhile (\<lambda>u. u \<le> w) us)"
proof -
  have "seq_le (w mod 4096) b = (u \<le> w)" if "seq_rel b u" "u \<in> set us" for b u
    using assms(2) that mod_inj_near [of u w] SEQ_SMALLER_unwrap [of u w] by fastforce
  then have "\<forall>b u. seq_rel b u \<longrightarrow> u \<in> set us \<longrightarrow> seq_le (w mod 4096) b = (u \<le> w)" by blast
  from while_rel [OF assms(1) this]
  show "list_all2 seq_rel (takeWhile (seq_le (w mod 4096)) bs) (takeWhile (\<lambda>u. u \<le> w) us)"
    "list_all2 seq_rel (dropWhile (seq_le (w mod 4096)) bs) (dropWhile (\<lambda>u. u \<le> w) us)" .
qed

lemma insert_scan_rel:
  assumes "list_all2 seq_rel bs us" "sorted us" "\<forall>u \<in> set us. - 2048 \<le> u - s \<and> u - s < 2048" "seq_rel m s"
  shows "if s \<in> set us then insert_scan m bs = None
         else \<exists>bs'. insert_scan m bs = Some bs' \<and> list_all2 seq_rel bs' (insort s us)"
  using assms
proof (induction rule: list_all2_induct)
  case Nil
  then show ?case by simp
next
  case (Cons b bs u us)
  have "SEQ_SMALLER (Sequence b) (Sequence m) MAXSEQ \<longleftrightarrow> u < s" "Sequence b = Sequence m \<longleftrightarrow> u = s"
    using Cons by (auto simp: SEQ_SMALLER_unwrap mod_inj_near)
  moreover have "s \<notin> set us" if "s < u" using that Cons.prems(1) by auto
  ultimately show ?case using Cons by (cases u s rule: linorder_cases) (auto split: if_splits)
qed

lemma settle_rel:
  assumes "re_list e = rl_of bs" "list_all2 seq_rel bs us" "re_LastIndSeq e = l mod 4096"
    and us: "sorted_wrt (<) us" "\<forall>u \<in> set us. l < u \<and> u \<le> l + uint (re_BAWinSize e)"
    and r: "settle l us = (r, l', us')"
  shows "\<exists>s c' e'. ba_indicate_reordering_mpdus_in_order c e (l mod 4096) = Some (s, c', e')
    \<and> ba_rep (set_LastIndSeq s e') l' us' \<and> indicated c' = indicated c @ wrap r
    \<and> re_BAWinSize e' = re_BAWinSize e \<and> re_LastIndSeqAtTimer e' = re_LastIndSeqAtTimer e"
proof -
  let ?r = "step_run (l mod 4096) bs"
  have W: "uint (re_BAWinSize e) \<le> 256" using uint_lt2p [of "re_BAWinSize e"] by simp
  have r': "r = crun l us" "l' = last (l # crun l us)" "us' = drop (length (crun l us)) us"
    using r by (auto simp: settle_def)
  have run: "list_all2 seq_rel ?r r"
    unfolding r'(1) by (rule step_run_rel [OF assms(2) us(1)]) (use us(2) W in fastforce)
  then have rest: "list_all2 seq_rel (drop (length ?r) bs) us'"
    using assms(2) list_all2_lengthD [OF run] unfolding r' by (simp add: list_all2_dropI)
  have "last (RESET_RCV_SEQ # map Sequence ?r) = (if r = [] then RESET_RCV_SEQ else l' mod 4096)"
    unfolding wrap_of_rel [OF run] r' by (cases "crun l us" rule: rev_cases) auto
  moreover have "l' mod 4096 \<noteq> 65535" using pos_mod_bound [of 4096 l'] by linarith
  moreover have "r = [] \<Longrightarrow> l' = l" using r' by simp
  ultimately show ?thesis
    using settle_correct [OF us r] rest assms(1,3) wrap_of_rel [OF run]
    by (simp add: ba_indicate_in_order_rl_of [OF assms(1)] ba_rep_def set_LastIndSeq_def ctx_simps)
qed


lemma set_LastIndSeq_sel [simp]:
  "re_BAWinSize (set_LastIndSeq s e) = re_BAWinSize e"
  "re_LastIndSeqAtTimer (set_LastIndSeq s e) = re_LastIndSeqAtTimer e"
  by (simp_all add: set_LastIndSeq_def)

lemma ba_rep_irrelevant [simp]:
  "ba_rep (e\<lparr>re_LastIndSeqAtTimer := t\<rparr>) l us = ba_rep e l us"
  "ba_rep (e\<lparr>re_nDropPacket := n\<rparr>) l us = ba_rep e l us"
  "ba_rep (e\<lparr>re_rcvSeq := q\<rparr>) l us = ba_rep e l us"
  by (simp_all add: ba_rep_def)

lemma enqueue_rel:
  assumes "re_list e = rl_of bs" "list_all2 seq_rel bs us" "sorted us"
    "\<forall>u \<in> set us. - 2048 \<le> u - s \<and> u - s < 2048" "rx_Sequence rx = s mod 4096" "\<not> rx_EAP rx"
    "freelist c = rl_of (f # fs)"
  shows "\<exists>c' bs'. ba_enqueue_reordering_packet c e rx = Some (c', e\<lparr>re_list := rl_of bs'\<rparr>)
    \<and> list_all2 seq_rel bs' (if s \<in> set us then us else insort s us) \<and> indicated c' = indicated c"
proof -
  let ?m = "(mpdu_zero (blk f))\<lparr>Sequence := rx_Sequence rx, mOpMode := rx_Opmode rx,
    bAMSDU := rx_AMSDU rx, pPacket := rx_Packet rx\<rparr>"
  have m: "seq_rel ?m s" using assms(5) by simp
  show ?thesis
    using insert_scan_rel [OF assms(2,3,4) m] assms
    by (auto simp: ba_enqueue_reordering_packet_def ba_mpdu_blk_alloc_rl_of
        ba_reordering_mpdu_insertsorted_rl_of ctx_simps split: if_splits)
qed

text \<open>What a refining step guarantees.\<close>

definition refines_to ::
    "BA_CTX \<Rightarrow> BA_REC_ENTRY \<Rightarrow> UINT32 \<Rightarrow> int list \<Rightarrow> int \<Rightarrow> int list \<Rightarrow> (BA_CTX \<times> BA_REC_ENTRY) option \<Rightarrow> bool" where
  "refines_to c e now ds l' us' r \<longleftrightarrow> (\<exists>c' e'. r = Some (c', e') \<and> ba_rep e' l' us'
    \<and> indicated c' = indicated c @ wrap ds \<and> re_BAWinSize e' = re_BAWinSize e
    \<and> (re_LastIndSeqAtTimer e = now \<longrightarrow> re_LastIndSeqAtTimer e' = now))"

lemma in_order_refines:
  assumes rep: "ba_rep e l us" and s: "rx_Sequence rx = (l + 1) mod 4096"
    and r: "settle (l + 1) us = (r, l', us')"
  shows "refines_to c e now ((l + 1) # r) l' us' (ampdu_in_order c e rx now)"
proof -
  let ?e = "e\<lparr>re_LastIndSeq := rx_Sequence rx\<rparr>"
  have "sorted_wrt (<) us" "\<forall>u \<in> set us. l + 1 < u \<and> u \<le> l + 1 + uint (re_BAWinSize ?e)"
    using rep by (auto simp: ba_rep_def spec_inv_def)
  from settle_rel [OF _ _ _ this r, of "rl_next (re_list e)" "INDICATE_LEGACY_OR_AMSDU c rx"]
  show ?thesis
    using rep s by (auto simp: ba_rep_def refines_to_def ampdu_in_order_def Let_def ctx_simps)
qed

lemma surpass_start:
  assumes "rx_Sequence rx = s mod 4096"
  shows "((let t = rx_Sequence rx - W - 1 in if t < 0 then (MAXSEQ + 1) + t else t) + 1) AND MAXSEQ = (s - W) mod 4096"
proof -
  have "(s mod 4096 - W) mod 4096 = (s - W) mod 4096" by (simp add: mod_simps)
  moreover have "(4096 + (s mod 4096 - W)) mod 4096 = (s mod 4096 - W) mod 4096" by simp
  ultimately show ?thesis using assms by (simp add: Let_def algebra_simps)
qed

lemma surpass_refines:
  assumes rep: "ba_rep e l us" and s: "rx_Sequence rx = s mod 4096" "l + uint (re_BAWinSize e) < s" "s - l < 2048"
    and W: "1 \<le> re_BAWinSize e" and rx: "\<not> rx_EAP rx" and ok: "freelist c = rl_of (f # fs)"
    and r: "spec_recv (uint (re_BAWinSize e)) l us s = (ds, l', us')"
  shows "refines_to c e now ds l' us' (ampdu_surpass c e rx now)"
proof -
  define bs where "bs = rl_next (re_list e)"
  define V where "V = uint (re_BAWinSize e)"
  define w where "w = s - V"
  have V: "1 \<le> V" "V < 256" using W uint_lt2p [of "re_BAWinSize e"] by (simp_all add: V_def word_le_def)
  have us: "sorted_wrt (<) us" "\<forall>u \<in> set us. l + 2 \<le> u \<and> u \<le> l + V" and bs: "re_list e = rl_of bs"
    and rel: "list_all2 seq_rel bs us" using rep by (auto simp: ba_rep_def spec_inv_def bs_def V_def)
  obtain r1 where r1: "settle w (dropWhile (\<lambda>u. u \<le> w) us @ [s]) = (r1, l', us')"
    "ds = takeWhile (\<lambda>u. u \<le> w) us @ r1"
    using r s V by (auto simp: spec_recv_def w_def V_def [symmetric] split: prod.splits if_splits)
  have near: "\<forall>u \<in> set us. - 2048 \<le> u - w \<and> u - w < 2048" using us(2) s V by (fastforce simp: w_def V_def)
  note split = seq_le_rel [OF rel near]
  define ts where "ts = takeWhile (seq_le (w mod 4096)) bs"
  define rs where "rs = dropWhile (seq_le (w mod 4096)) bs"
  define e1 where "e1 = e\<lparr>re_list := rl_of rs, re_LastIndSeq := w mod 4096, re_LastIndSeqAtTimer := now\<rparr>"
  have le: "ba_indicate_reordering_mpdus_le_seq c e (w mod 4096) = Some (deliver ts c, e\<lparr>re_list := rl_of rs\<rparr>)"
    using ba_indicate_le_seq_rl_of [OF bs] by (simp add: ts_def rs_def)
  let ?us = "dropWhile (\<lambda>u. u \<le> w) us"
  have sub: "set ?us \<subseteq> set us" by (auto dest: set_dropWhileD)
  note at = sorted_split_at [OF us(1), of w]
  have lt: "\<forall>u \<in> set ?us. u < s" using sub us(2) s(2) V_def by fastforce
  then have ins: "(if s \<in> set ?us then ?us else insort s ?us) = ?us @ [s]"
    using at by (auto simp: sorted_insort_is_snoc strict_sorted_iff order_le_less)
  obtain f' fs' where free: "freelist (deliver ts c) = rl_of (f' # fs')"
    using ok by (cases "rev ts") (auto simp: ctx_simps)
  have "\<forall>u \<in> set ?us. - 2048 \<le> u - s \<and> u - s < 2048" using sub us(2) s V_def by fastforce
  then obtain c2 bs2 where enq: "ba_enqueue_reordering_packet (deliver ts c) e1 rx = Some (c2, e1\<lparr>re_list := rl_of bs2\<rparr>)"
    "list_all2 seq_rel bs2 (?us @ [s])" "indicated c2 = indicated (deliver ts c)"
    using enqueue_rel [OF _ split(2) _ _ s(1) rx free, of e1] at(4) ins
    by (auto simp: e1_def rs_def strict_sorted_iff)
  have "sorted_wrt (<) (?us @ [s])" "\<forall>u \<in> set (?us @ [s]). w < u \<and> u \<le> w + V"
    using at lt V by (fastforce simp: sorted_wrt_append w_def)+
  then obtain l2 c3 e3 where io: "ba_indicate_reordering_mpdus_in_order c2 (e1\<lparr>re_list := rl_of bs2\<rparr>) (w mod 4096)
      = Some (l2, c3, e3)" "ba_rep (set_LastIndSeq l2 e3) l' us'" "indicated c3 = indicated c2 @ wrap r1"
    "re_BAWinSize e3 = re_BAWinSize e" "re_LastIndSeqAtTimer e3 = now"
    using settle_rel [OF _ enq(2) _ _ _ r1(1), of "e1\<lparr>re_list := rl_of bs2\<rparr>" c2] by (auto simp: e1_def V_def)
  have "ampdu_surpass c e rx now = Some (c3, set_LastIndSeq l2 e3)"
    using le enq(1) io(1) surpass_start [OF s(1), of V]
    by (simp add: ampdu_surpass_def Let_def e1_def V_def [symmetric] w_def [symmetric])
  moreover have "indicated c3 = indicated c @ wrap ds"
    using io(3) enq(3) r1(2) wrap_of_rel [OF split(1)] by (simp add: ctx_simps ts_def)
  ultimately show ?thesis using io by (simp add: refines_to_def)
qed


lemma cases_refines:
  assumes rep: "ba_rep e l us" and s: "rx_Sequence rx = s mod 4096" "- 2048 \<le> s - l" "s - l < 2048"
    and W: "1 \<le> re_BAWinSize e" and rx: "\<not> rx_EAP rx" and free: "freelist c = rl_of (f # fs)"
    and r: "spec_recv (uint (re_BAWinSize e)) l us s = (ds, l', us')"
  shows "refines_to c e now ds l' us' (ampdu_cases c e rx now)"
proof -
  define V where "V = uint (re_BAWinSize e)"
  have V: "1 \<le> V" "V < 256" using W uint_lt2p [of "re_BAWinSize e"] by (simp_all add: V_def word_le_def)
  have l: "re_LastIndSeq e = l mod 4096" and inv: "spec_inv V l us" using rep by (auto simp: ba_rep_def V_def)
  have step: "SEQ_STEPONE (rx_Sequence rx) (re_LastIndSeq e) MAXSEQ \<longleftrightarrow> s = l + 1"
    and same: "rx_Sequence rx = re_LastIndSeq e \<longleftrightarrow> s = l"
    and old: "SEQ_SMALLER (rx_Sequence rx) (re_LastIndSeq e) MAXSEQ \<longleftrightarrow> s < l"
    using s l by (simp_all add: SEQ_STEPONE_unwrap mod_inj_near SEQ_SMALLER_unwrap)
  have win: "SEQ_SMALLER (rx_Sequence rx) ((re_LastIndSeq e + uint (re_BAWinSize e) + 1) AND MAXSEQ) MAXSEQ
      \<longleftrightarrow> s < l + V + 1" if "l \<le> s"
    using SEQ_SMALLER_unwrap [of s "l + V + 1"] s V that l mod_add_left_eq [of l 4096 "V + 1"]
    by (simp add: V_def [symmetric] add.assoc)
  consider "s = l + 1" | "s \<le> l" | "l + 1 < s" "s \<le> l + V" | "l + V < s" "s \<noteq> l + 1" by linarith
  then show ?thesis
  proof cases
    case 1
    then obtain r1 where "settle (l + 1) us = (r1, l', us')" "ds = (l + 1) # r1"
      using r by (auto simp: spec_recv_def split: prod.splits)
    then show ?thesis using in_order_refines [OF rep, of rx r1 l' us' c now] s(1) step 1
      by (simp add: ampdu_cases_def)
  next
    case 2
    then have "ampdu_cases c e rx now = drop_frame c e rx" using step same old by (auto simp: ampdu_cases_def)
    then show ?thesis using r rep 2 by (auto simp: spec_recv_def refines_to_def drop_frame_def ctx_simps)
  next
    case 3
    have bs: "re_list e = rl_of (rl_next (re_list e))" "list_all2 seq_rel (rl_next (re_list e)) us"
      using rep by (auto simp: ba_rep_def)
    have "sorted us" "\<forall>u \<in> set us. - 2048 \<le> u - s \<and> u - s < 2048"
      using inv V 3 by (auto simp: spec_inv_def strict_sorted_iff)
    from enqueue_rel [OF bs this s(1) rx free] obtain c' bs' where
      enq: "ba_enqueue_reordering_packet c e rx = Some (c', e\<lparr>re_list := rl_of bs'\<rparr>)"
        "list_all2 seq_rel bs' (if s \<in> set us then us else insort s us)" "indicated c' = indicated c" by auto
    have us': "us' = (if s \<in> set us then us else insort s us)" "l' = l" "ds = []"
      using r 3 by (auto simp: spec_recv_def V_def)
    have "ampdu_cases c e rx now = ba_enqueue_reordering_packet c e rx"
      using step same old win 3 by (auto simp: ampdu_cases_def)
    then show ?thesis
      using enq us' l spec_recv_correct [OF inv V(1), of s ds l' us'] r by (simp add: refines_to_def ba_rep_def V_def)
  next
    case 4
    then have "ampdu_cases c e rx now = ampdu_surpass c e rx now"
      using step same old win V by (auto simp: ampdu_cases_def)
    then show ?thesis using surpass_refines [OF rep s(1) _ s(3) W rx free r] 4 by (simp add: V_def)
  qed
qed

text \<open>The timeout that skips one position.\<close>

lemma skip_refines:
  assumes rep: "ba_rep e l us" and calm: "\<not> RTMP_TIME_AFTER now (re_LastIndSeqAtTimer e + MAX_REORDERING_PACKET_TIMEOUT hz div 6)"
  shows "\<exists>ds l' us'. refines_to c e now ds l' us' (ba_flush_reordering_timeout_mpdus hz c e now) \<and> spec_ordered l ds l'"
proof -
  define bs where "bs = rl_next (re_list e)"
  let ?s = "(l + 1) mod 4096"
  let ?e = "e\<lparr>re_list := rl_of bs, re_LastIndSeqAtTimer := now, re_LastIndSeq := ?s\<rparr>"
  have us: "sorted_wrt (<) us" "\<forall>u \<in> set us. l + 1 < u \<and> u \<le> l + 1 + uint (re_BAWinSize ?e)"
    and bs: "re_list e = rl_of bs" "list_all2 seq_rel bs us" and l: "re_LastIndSeq e = l mod 4096"
    using rep by (auto simp: ba_rep_def spec_inv_def bs_def)
  have "\<forall>u \<in> set us. - 2048 \<le> u - (l + 1) \<and> u - (l + 1) < 2048"
    using us(2) uint_lt2p [of "re_BAWinSize e"] by fastforce
  moreover have "takeWhile (\<lambda>u. u \<le> l + 1) us = []" using us(2) by (cases us) auto
  ultimately have none: "takeWhile (seq_le ?s) bs = []" using seq_le_rel(1) [OF bs(2)] by fastforce
  then have all: "dropWhile (seq_le ?s) bs = bs" using takeWhile_dropWhile_id [of "seq_le ?s" bs] by simp
  obtain r l' us' where r: "settle (l + 1) us = (r, l', us')" by (metis prod_cases3)
  have lists: "re_list ?e = rl_of bs" "re_LastIndSeq ?e = ?s" by simp_all
  obtain s c' e' where io: "ba_indicate_reordering_mpdus_in_order c ?e ?s = Some (s, c', e')"
    "ba_rep (set_LastIndSeq s e') l' us'" "indicated c' = indicated c @ wrap r"
    "re_BAWinSize e' = re_BAWinSize e" "re_LastIndSeqAtTimer e' = now"
    using settle_rel [OF lists(1) bs(2) lists(2) us r, of c] by auto
  have ord: "spec_ordered l r l'"
    using settle_correct [OF us r] by (auto simp: spec_ordered_def)
  let ?r = "ba_flush_reordering_timeout_mpdus hz c e now"
  have "?r = Some (c, e) \<or> ?r = Some (c', set_LastIndSeq s e')"
    using calm io(1) l none all bs by (auto simp: ba_flush_reordering_timeout_mpdus_def ba_indicate_le_seq_rl_of Let_def mod_simps)
  then show ?thesis
  proof
    assume "?r = Some (c, e)"
    then have "refines_to c e now [] l us ?r" using rep by (simp add: refines_to_def)
    then show ?thesis by (meson order_refl spec_ordered_Nil)
  next
    assume "?r = Some (c', set_LastIndSeq s e')"
    then have "refines_to c e now r l' us' ?r" using io by (simp add: refines_to_def)
    then show ?thesis using ord by blast
  qed
qed


section \<open>Receiving a sequence of frames\<close>

lemma spec_inv_length:
  assumes "spec_inv W l us" "1 \<le> W"
  shows "int (length us) < W"
proof -
  have "distinct us" "set us \<subseteq> {l + 2..l + W}" using assms(1) by (auto simp: spec_inv_def strict_sorted_iff)
  then have "length us \<le> card {l + 2..l + W}" by (metis card_mono distinct_card finite_atLeastAtMost_int)
  then show ?thesis using assms(2) by simp
qed

lemma free_block:
  assumes "ba_ok c e" "ba_rep e l us" "1 \<le> re_BAWinSize e" "unat (re_BAWinSize e) \<le> size (blocks c e)"
  obtains f fs where "freelist c = rl_of (f # fs)"
proof -
  obtain fs bs where fb: "freelist c = rl_of fs" "re_list e = rl_of bs" using assms(1) by (rule ba_okE)
  have "length bs = length us" using assms(2) fb list_all2_lengthD by (fastforce simp: ba_rep_def)
  moreover have "int (length us) < uint (re_BAWinSize e)"
    using assms(2,3) by (intro spec_inv_length) (auto simp: ba_rep_def word_le_def)
  then have "length us < unat (re_BAWinSize e)" by (metis of_nat_less_iff uint_nat)
  ultimately have "length fs \<noteq> 0" using assms(4) fb by (auto simp: blocks_def)
  then show thesis using fb that by (cases fs) auto
qed

text \<open>A residue has a position within half the number space of any other.\<close>

lemma nearest_position:
  assumes "0 \<le> q" "q < (4096 :: int)"
  obtains s where "q = s mod 4096" "- 2048 \<le> s - l" "s - l < 2048"
proof
  let ?s = "l + ((q - l + 2048) mod 4096 - 2048)"
  have "?s mod 4096 = (l + ((q - l + 2048) - 2048)) mod 4096" by (metis mod_add_right_eq mod_diff_left_eq)
  then show "q = ?s mod 4096" using assms by simp
  show "- 2048 \<le> ?s - l" "?s - l < 2048"
    using pos_mod_bound [of 4096 "q - l + 2048"] pos_mod_sign [of 4096 "q - l + 2048"] by linarith+
qed

definition plain_frame :: "RX_BLK \<Rightarrow> bool" where
  "plain_frame rx \<longleftrightarrow> \<not> rx_EAP rx \<and> 0 \<le> rx_Sequence rx \<and> rx_Sequence rx < 4096"

text \<open>A session with its pool: a window, enough blocks to fill it, and a represented list.\<close>

definition ba_ready :: "BA_CTX \<Rightarrow> BA_REC_ENTRY \<Rightarrow> int \<Rightarrow> int list \<Rightarrow> bool" where
  "ba_ready c e l us \<longleftrightarrow> ba_ok c e \<and> ba_rep e l us \<and> 1 \<le> re_BAWinSize e \<and> unat (re_BAWinSize e) \<le> size (blocks c e)"

lemma session_refines:
  assumes ready: "ba_ready c e l us" and rx: "plain_frame rx"
    and calm: "\<not> RTMP_TIME_AFTER now (re_LastIndSeqAtTimer e + MAX_REORDERING_PACKET_TIMEOUT hz div 6)"
  shows "\<exists>c' e' ds l' us'. ampdu_session hz c e rx now = Some (c', e') \<and> ba_ready c' e' l' us'
    \<and> spec_ordered l ds l' \<and> indicated c' = indicated c @ wrap ds \<and> re_LastIndSeqAtTimer e' = now"
proof -
  let ?e = "e\<lparr>re_rcvSeq := rx_Sequence rx\<rparr>"
  have ok: "ba_ok c e" and rep: "ba_rep e l us" and W: "1 \<le> re_BAWinSize e"
    and pool: "unat (re_BAWinSize e) \<le> size (blocks c e)" using ready by (auto simp: ba_ready_def)
  obtain c1 e1 ds1 l1 us1 where 1: "ba_flush_reordering_timeout_mpdus hz c ?e now = Some (c1, e1)"
    "ba_rep e1 l1 us1" "spec_ordered l ds1 l1" "indicated c1 = indicated c @ wrap ds1"
    "re_BAWinSize e1 = re_BAWinSize e"
    using skip_refines [of ?e l us now hz c] rep calm by (auto simp: refines_to_def)
  have cons1: "ba_ok c1 e1" "blocks c1 e1 = blocks c e"
    using flush_conserves [of c ?e hz now] ok 1(1) by (auto simp: conserves_def)
  let ?e1 = "e1\<lparr>re_LastIndSeqAtTimer := now\<rparr>"
  obtain f fs where free: "freelist c1 = rl_of (f # fs)"
    using free_block [OF cons1(1) 1(2)] W pool 1(5) cons1(2) by metis
  obtain s where s: "rx_Sequence rx = s mod 4096" "- 2048 \<le> s - l1" "s - l1 < 2048"
    using rx by (auto simp: plain_frame_def intro: nearest_position)
  obtain ds2 l2 us2 where r: "spec_recv (uint (re_BAWinSize ?e1)) l1 us1 s = (ds2, l2, us2)" by (metis prod_cases3)
  have "refines_to c1 ?e1 now ds2 l2 us2 (ampdu_cases c1 ?e1 rx now)"
    using 1(2,5) W rx s free r by (intro cases_refines) (auto simp: plain_frame_def)
  then obtain c2 e2 where 2: "ampdu_cases c1 ?e1 rx now = Some (c2, e2)" "ba_rep e2 l2 us2"
    "indicated c2 = indicated c1 @ wrap ds2" "re_BAWinSize e2 = re_BAWinSize e" "re_LastIndSeqAtTimer e2 = now"
    using 1(5) by (auto simp: refines_to_def)
  have "spec_ordered l1 ds2 l2"
    using spec_recv_correct [OF _ _ r] 1(2,5) W by (auto simp: ba_rep_def word_le_def)
  then have ord: "spec_ordered l (ds1 @ ds2) l2" by (rule spec_ordered_append [OF 1(3)])
  have cons2: "ba_ok c2 e2" "blocks c2 e2 = blocks c e"
    using cases_conserves [of c1 ?e1 rx now] cons1 2(1) rx by (auto simp: conserves_def plain_frame_def)
  have "l1 mod 4096 \<noteq> 65535" using pos_mod_bound [of 4096 l1] by linarith
  then have "ampdu_session hz c e rx now = Some (c2, e2)"
    using 1(1,2) 2(1) by (simp add: ampdu_session_def ba_rep_def)
  moreover have "ba_ready c2 e2 l2 us2" using cons2 2 W pool by (simp add: ba_ready_def)
  moreover have "indicated c2 = indicated c @ wrap (ds1 @ ds2)" using 1(4) 2(3) by simp
  ultimately show ?thesis using ord 2(5) by blast
qed

text \<open>Frames of one session, each with the tick of its arrival, and arrivals less than half a second apart.\<close>

fun ba_receive :: "nat \<Rightarrow> BA_CTX \<Rightarrow> BA_REC_ENTRY \<Rightarrow> (RX_BLK \<times> UINT32) list \<Rightarrow> (BA_CTX \<times> BA_REC_ENTRY) option" where
  "ba_receive hz c e [] = Some (c, e)"
| "ba_receive hz c e ((rx, now) # rxs) =
    (case ampdu_session hz c e rx now of None \<Rightarrow> None | Some (c, e) \<Rightarrow> ba_receive hz c e rxs)"

fun calm :: "nat \<Rightarrow> UINT32 \<Rightarrow> (RX_BLK \<times> UINT32) list \<Rightarrow> bool" where
  "calm hz t [] = True"
| "calm hz t ((rx, now) # rxs) =
    (\<not> RTMP_TIME_AFTER now (t + MAX_REORDERING_PACKET_TIMEOUT hz div 6) \<and> calm hz now rxs)"

lemma receive_refines:
  assumes "ba_ready c e l us" "list_all (\<lambda>(rx, now). plain_frame rx) rxs" "calm hz (re_LastIndSeqAtTimer e) rxs"
  shows "\<exists>c' e' ds l' us'. ba_receive hz c e rxs = Some (c', e') \<and> ba_ready c' e' l' us'
    \<and> spec_ordered l ds l' \<and> indicated c' = indicated c @ wrap ds"
  using assms
proof (induction rxs arbitrary: c e l us)
  case Nil
  then have "spec_ordered l [] l" "indicated c = indicated c @ wrap []" by simp_all
  then show ?case using Nil.prems by (metis ba_receive.simps(1))
next
  case (Cons f rxs)
  obtain rx now where f: "f = (rx, now)" by force
  obtain c1 e1 ds1 l1 us1 where 1: "ampdu_session hz c e rx now = Some (c1, e1)" "ba_ready c1 e1 l1 us1"
    "spec_ordered l ds1 l1" "indicated c1 = indicated c @ wrap ds1" "re_LastIndSeqAtTimer e1 = now"
    using session_refines [OF Cons.prems(1), of rx now hz] Cons.prems f by auto
  obtain c2 e2 ds2 l2 us2 where 2: "ba_receive hz c1 e1 rxs = Some (c2, e2)" "ba_ready c2 e2 l2 us2"
    "spec_ordered l1 ds2 l2" "indicated c2 = indicated c1 @ wrap ds2"
    using Cons.IH [OF 1(2)] Cons.prems f 1(5) by auto
  have "spec_ordered l (ds1 @ ds2) l2" "indicated c2 = indicated c @ wrap (ds1 @ ds2)"
    using 1 2 by (auto intro: spec_ordered_append)
  then show ?case using f 1(1) 2(1,2) by (metis (mono_tags, lifting) ba_receive.simps(2) option.simps(5) prod.simps(2))
qed


section \<open>Properties\<close>

text \<open>A session for the witnesses: window 4, last frame 4095, the frames 1 and 2 waiting, four free blocks.\<close>

definition frame0 :: "int \<Rightarrow> nat \<Rightarrow> bool \<Rightarrow> RX_BLK" where
  "frame0 s p eap = \<lparr>rx_Sequence = s, rx_Packet = p, rx_AMSDU = False, rx_EAP = eap, rx_Opmode = 0,
    rx_DataSize = 100, rx_WirelessCliID = 1, rx_TID = 0\<rparr>"

definition mpdu0 :: "nat \<Rightarrow> int \<Rightarrow> nat \<Rightarrow> reordering_mpdu" where
  "mpdu0 a s p = \<lparr>blk = a, pPacket = p, Sequence = s, bAMSDU = False, mOpMode = 0\<rparr>"

definition ctx0 :: BA_CTX where
  "ctx0 = \<lparr>freelist = rl_of (map mpdu_zero [0, 1, 2, 3]), rxlog = []\<rparr>"

definition ba0 :: BA_REC_ENTRY where
  "ba0 = \<lparr>re_Wcid = 1, re_TID = 0, re_BAWinSize = 4, re_LastIndSeq = 4095, re_TimeOutValue = 0,
    re_LastIndSeqAtTimer = 1000, re_nDropPacket = 0, re_rcvSeq = 0, re_Status = Recipient_Accept,
    re_list = rl_of [mpdu0 8 1 101, mpdu0 9 2 102]\<rparr>"

lemma ba0_ready: "ba_ready ctx0 ba0 4095 [4097, 4098]"
  by (simp add: ba_ready_def ba_ok_def ba_rep_def ctx0_def ba0_def mpdu0_def blocks_def spec_inv_def)

text \<open>C24: reception loses and duplicates no packet.  Whatever the session's state (with consistent counters)
  and whatever the frame, the time and the flags, \<^verbatim>\<open>Indicate_AMPDU_Packet\<close>'s session part finishes
  without a NULL dereference, and each packet handed to it is afterwards in exactly one place: waiting in
  the reordering list, or given to the upper layer or released once.  Unless the frame carries EAPOL, the list blocks
  are conserved as well.\<close>

theorem ampdu_session_conserves:
  assumes "ba_ok c e"
  shows "\<exists>c' e'. ampdu_session hz c e rx now = Some (c', e') \<and> ba_ok c' e'
    \<and> mset (outs c') + mset (map pPacket (rl_next (re_list e')))
      = mset (outs c) + mset (map pPacket (rl_next (re_list e))) + {#rx_Packet rx#}
    \<and> (\<not> rx_EAP rx \<longrightarrow> blocks c' e' = blocks c e)"
  using session_conserves [OF assms, of rx hz now] by (auto simp: conserves_def held_def)

theorem ampdu_session_conserves_witness:
  "\<exists>c' e'. ampdu_session 100 ctx0 ba0 (frame0 0 7 False) 1001 = Some (c', e') \<and> ba_ok c' e'
    \<and> mset (outs c') + mset (map pPacket (rl_next (re_list e'))) = {#7, 101, 102#}
    \<and> blocks c' e' = blocks ctx0 ba0"
  using ampdu_session_conserves [of ctx0 ba0 100 "frame0 0 7 False" 1001] ba0_ready
  by (simp add: ba_ready_def frame0_def ba0_def ctx0_def mpdu0_def outs_def)



text \<open>C29: one arrival, position by position.  When the frame's position \<open>s\<close> is within half the number
  space of the last one, the five cases of \<^verbatim>\<open>Indicate_AMPDU_Packet\<close>, with their 12-bit comparisons and window
  arithmetic, do exactly what the specification over unwrapped positions does: deliver \<open>s\<close> and the run behind it,
  drop a duplicate or old frame, keep a frame of the window in its sorted place, or slide the window to
  end at \<open>s\<close>.\<close>

theorem ampdu_cases_refines_spec:
  assumes "ba_ready c e l us" "plain_frame rx" "rx_Sequence rx = s mod 4096" "- 2048 \<le> s - l" "s - l < 2048"
    "spec_recv (uint (re_BAWinSize e)) l us s = (ds, l', us')"
  shows "\<exists>c' e'. ampdu_cases c e rx now = Some (c', e') \<and> ba_rep e' l' us'
    \<and> indicated c' = indicated c @ map (\<lambda>u. u mod 4096) ds"
proof -
  obtain f fs where "freelist c = rl_of (f # fs)" using assms(1) free_block by (metis ba_ready_def)
  with assms have "refines_to c e now ds l' us' (ampdu_cases c e rx now)"
    by (intro cases_refines) (auto simp: ba_ready_def plain_frame_def)
  then show ?thesis by (auto simp: refines_to_def)
qed

theorem ampdu_cases_refines_spec_witness:
  "\<exists>c' e'. ampdu_cases ctx0 ba0 (frame0 0 7 False) 1001 = Some (c', e') \<and> ba_rep e' 4098 []
    \<and> indicated c' = indicated ctx0 @ map (\<lambda>u. u mod 4096) [4096, 4097, 4098]"
  by (rule ampdu_cases_refines_spec [OF ba0_ready, where s = 4096])
    (simp_all add: frame0_def plain_frame_def ba0_def spec_recv_def settle_def)

text \<open>a block leaks with every EAPOL frame that arrives early.  \<^verbatim>\<open>ba_enqueue_reordering_packet\<close>
  takes a block from the pool before it looks at the EAPOL flag and, on the path that indicates the
  frame directly, never returns it: afterwards the block is neither in the pool nor in the list.\<close>

theorem eapol_leaks_block:
  assumes "ba_ok c e" "rx_EAP rx" "rl_next (freelist c) = f # fs"
  shows "\<exists>c' e'. ba_enqueue_reordering_packet c e rx = Some (c', e')
    \<and> mset (map blk (rl_next (freelist c))) + mset (map blk (rl_next (re_list e)))
      = add_mset (blk f) (mset (map blk (rl_next (freelist c'))) + mset (map blk (rl_next (re_list e'))))"
  using enqueue_conserves [OF assms(1), of rx] assms(2,3) by (auto simp: conserves_def leaked_def blocks_def)

theorem eapol_leaks_block_witness:
  "\<exists>c' e'. ba_enqueue_reordering_packet ctx0 ba0 (frame0 2 7 True) = Some (c', e')
    \<and> {#0, 1, 2, 3, 8, 9#}
      = add_mset 0 (mset (map blk (rl_next (freelist c'))) + mset (map blk (rl_next (re_list e'))))"
  using eapol_leaks_block [of ctx0 ba0 "frame0 2 7 True" "mpdu_zero 0" "map mpdu_zero [1, 2, 3]"] ba0_ready
  by (simp add: ba_ready_def frame0_def ba0_def ctx0_def mpdu0_def mpdu_zero_def add_mset_commute)

end
