(* ===== verification/BaTable.thy ===== *)
theory BaTable
  imports BaReorder MlmeMachine "HOL-Library.Monad_Syntax"
begin

text \<open>
  The block-acknowledgement sessions of the driver (\<^verbatim>\<open>common/ba_action.c\<close>, \<^verbatim>\<open>common/cmm_sanity.c\<close>): the two
  tables of session entries, the index arrays of each peer, the set-up and tear-down of sessions as
  originator and as recipient, the ADDBA and DELBA frames, the block-ack request, and the table
  level of reception.  A read or write outside an array gives \<open>None\<close>.  The session timer is the delay
  it is armed with, or \<open>None\<close>; frames sent and commands to the chip are recorded as events.
\<close>

abbreviation (input) NUM_OF_TID :: nat where "NUM_OF_TID \<equiv> 8"
abbreviation (input) MAX_LEN_OF_MAC_TABLE :: nat where "MAX_LEN_OF_MAC_TABLE \<equiv> 32"
abbreviation (input) MAX_LEN_OF_BA_REC_TABLE :: nat where "MAX_LEN_OF_BA_REC_TABLE \<equiv> 128"
abbreviation (input) MAX_LEN_OF_BA_ORI_TABLE :: nat where "MAX_LEN_OF_BA_ORI_TABLE \<equiv> 128"
abbreviation (input) ORI_SESSION_MAX_RETRY :: UINT8 where "ORI_SESSION_MAX_RETRY \<equiv> 8"
abbreviation (input) ORI_BA_SESSION_TIMEOUT :: nat where "ORI_BA_SESSION_TIMEOUT \<equiv> 2000"
abbreviation (input) MAX_RX_PKT_LEN :: nat where "MAX_RX_PKT_LEN \<equiv> 1520"
abbreviation (input) RALINK_2883_VERSION :: nat where "RALINK_2883_VERSION \<equiv> 0x28830300"
abbreviation (input) RALINK_2880E_VERSION :: nat where "RALINK_2880E_VERSION \<equiv> 0x28720200"
abbreviation (input) RALINK_3070_VERSION :: nat where "RALINK_3070_VERSION \<equiv> 0x30700200"

section \<open>State\<close>

datatype ORI_BLOCKACK_STATUS = Originator_NONE | Originator_USED | Originator_WaitRes | Originator_Done

record BA_ORI_ENTRY =
  oe_Wcid :: nat
  oe_TID :: nat
  oe_BAWinSize :: UINT8
  oe_Token :: UINT8
  oe_Sequence :: UINT16
  oe_TimeOutValue :: nat
  oe_Status :: ORI_BLOCKACK_STATUS
  oe_Timer :: "nat option"

record MAC_TABLE_ENTRY =
  mc_Aid :: nat
  mc_None :: bool
  mc_HT :: bool
  mc_RalinkChip :: bool
  mc_WepDisabled :: bool
  mc_MaxRAmpduFactor :: nat
  RXBAbitmap :: UINT16
  TXBAbitmap :: UINT16
  BADeclineBitmap :: UINT16
  BARecWcidArray :: "nat list"
  BAOriWcidArray :: "nat list"
  TxSeq :: "UINT16 list"

datatype Initiator = ORIGINATOR | RECIPIENT

datatype ba_event =
    MlmeDELBAAction nat nat Initiator
  | SendBAR nat nat UINT16
  | EnqueueADDBA nat nat UINT8 UINT8
  | SendADDBARsp nat UINT8 nat nat UINT8
  | AddAsicSession nat nat
  | DelAsicSession nat nat

record BA_ADAPTER =
  ba_Ctx :: BA_CTX
  BARecEntry :: "BA_REC_ENTRY list"
  BAOriEntry :: "BA_ORI_ENTRY list"
  numAsRecipient :: nat
  numAsOriginator :: nat
  numDoneOriginator :: nat
  MacTab :: "MAC_TABLE_ENTRY list"
  RxBAWinLimit :: UINT8
  AutoBA :: bool
  bBADecline :: bool
  FixedTxModeHT :: bool
  MACVersion :: nat
  MonitorOn :: bool
  ScanBusy :: bool
  TGnWifi :: bool
  Halting :: bool
  ba_Log :: "ba_event list"

definition arr :: "'a list \<Rightarrow> nat \<Rightarrow> 'a option" where
  "arr xs i = (if i < length xs then Some (xs ! i) else None)"

definition ba_emit :: "ba_event \<Rightarrow> BA_ADAPTER \<Rightarrow> BA_ADAPTER" where
  "ba_emit ev s = s\<lparr>ba_Log := ba_Log s @ [ev]\<rparr>"

definition upd_Rec :: "nat \<Rightarrow> (BA_REC_ENTRY \<Rightarrow> BA_REC_ENTRY) \<Rightarrow> BA_ADAPTER \<Rightarrow> BA_ADAPTER" where
  "upd_Rec i f s = s\<lparr>BARecEntry := (BARecEntry s)[i := f (BARecEntry s ! i)]\<rparr>"

definition upd_Ori :: "nat \<Rightarrow> (BA_ORI_ENTRY \<Rightarrow> BA_ORI_ENTRY) \<Rightarrow> BA_ADAPTER \<Rightarrow> BA_ADAPTER" where
  "upd_Ori i f s = s\<lparr>BAOriEntry := (BAOriEntry s)[i := f (BAOriEntry s ! i)]\<rparr>"

definition upd_Mac :: "nat \<Rightarrow> (MAC_TABLE_ENTRY \<Rightarrow> MAC_TABLE_ENTRY) \<Rightarrow> BA_ADAPTER \<Rightarrow> BA_ADAPTER" where
  "upd_Mac w f s = s\<lparr>MacTab := (MacTab s)[w := f (MacTab s ! w)]\<rparr>"

text \<open>The bit of a TID in a 16-bit map.\<close>

definition tid_bit :: "nat \<Rightarrow> UINT16" where
  "tid_bit TID = push_bit TID 1"

section \<open>Window size\<close>

definition IS_MT7601 :: "BA_ADAPTER \<Rightarrow> bool" where
  "IS_MT7601 s \<longleftrightarrow> MACVersion s div 0x10000 = 0x7601"

definition BA_MaxWinSizeReasign :: "BA_ADAPTER \<Rightarrow> MAC_TABLE_ENTRY \<Rightarrow> UINT8 \<Rightarrow> UINT8" where
  "BA_MaxWinSizeReasign s m WinSize =
    (let MaxPeerRxSize = (if mc_RalinkChip m then word_of_nat (2 ^ (mc_MaxRAmpduFactor m + 3))
                          else word_of_int (int ((2 ^ (mc_MaxRAmpduFactor m + 3) * 10) div 16) - 1));
         MaxSize = (if IS_MT7601 s then 21
                    else if MACVersion s \<ge> RALINK_2883_VERSION then
                      (if MACVersion s \<ge> RALINK_3070_VERSION
                       then (if \<not> mc_WepDisabled m then 7 else 13) else 31)
                    else if MACVersion s \<ge> RALINK_2880E_VERSION then
                      (if \<not> mc_WepDisabled m then 7 else 13)
                    else 7);
         MaxSize = min MaxPeerRxSize MaxSize
     in if WinSize > MaxSize then MaxSize else WinSize)"

section \<open>Table entries\<close>

text \<open>The result is the returned entry (\<open>None\<close> for NULL), \<^verbatim>\<open>*Idx\<close> and the new state.\<close>

definition BATableAllocRecEntry :: "BA_ADAPTER \<Rightarrow> nat \<Rightarrow> nat option \<times> nat \<times> BA_ADAPTER" where
  "BATableAllocRecEntry s Idx =
    (if numAsRecipient s \<ge> MAX_LEN_OF_BA_REC_TABLE - 1 then (None, Idx, s)
     else case find (\<lambda>i. re_Status (BARecEntry s ! i) = Recipient_NONE) [1..<MAX_LEN_OF_BA_REC_TABLE] of
       None \<Rightarrow> (Some (MAX_LEN_OF_BA_REC_TABLE - 1), Idx, s)
     | Some i \<Rightarrow> (Some i, i, upd_Rec i (\<lambda>e. e\<lparr>re_Status := Recipient_USED\<rparr>)
                              (s\<lparr>numAsRecipient := uint_add (numAsRecipient s) 1\<rparr>)))"

definition BATableAllocOriEntry :: "BA_ADAPTER \<Rightarrow> nat \<Rightarrow> nat option \<times> nat \<times> BA_ADAPTER" where
  "BATableAllocOriEntry s Idx =
    (if numAsOriginator s \<ge> MAX_LEN_OF_BA_ORI_TABLE - 1 then (None, Idx, s)
     else case find (\<lambda>i. oe_Status (BAOriEntry s ! i) = Originator_NONE) [1..<MAX_LEN_OF_BA_ORI_TABLE] of
       None \<Rightarrow> (Some (MAX_LEN_OF_BA_ORI_TABLE - 1), Idx, s)
     | Some i \<Rightarrow> (Some i, i, upd_Ori i (\<lambda>e. e\<lparr>oe_Status := Originator_USED\<rparr>)
                              (s\<lparr>numAsOriginator := uint_add (numAsOriginator s) 1\<rparr>)))"

definition BATableFreeOriEntry :: "BA_ADAPTER \<Rightarrow> nat \<Rightarrow> BA_ADAPTER option" where
  "BATableFreeOriEntry s Idx =
    (if Idx = 0 \<or> Idx \<ge> MAX_LEN_OF_BA_ORI_TABLE then Some s
     else do {
       e \<leftarrow> arr (BAOriEntry s) Idx;
       if oe_Status e = Originator_NONE then Some s
       else do {
         m \<leftarrow> arr (MacTab s) (oe_Wcid e);
         _ \<leftarrow> arr (BAOriWcidArray m) (oe_TID e);
         let s = upd_Mac (oe_Wcid e) (\<lambda>m. m\<lparr>BAOriWcidArray := (BAOriWcidArray m)[oe_TID e := 0]\<rparr>) s;
         let s = (if oe_Status e = Originator_Done
                  then upd_Mac (oe_Wcid e) (\<lambda>m. m\<lparr>TXBAbitmap := TXBAbitmap m AND NOT (tid_bit (oe_TID e))\<rparr>)
                         (s\<lparr>numDoneOriginator := uint_sub (numDoneOriginator s) 1\<rparr>)
                  else s);
         let s = s\<lparr>numAsOriginator := uint_sub (numAsOriginator s) 1\<rparr>;
         Some (upd_Ori Idx (\<lambda>e. e\<lparr>oe_Status := Originator_NONE, oe_Token := 0\<rparr>) s)
       }
     })"

definition BATableFreeRecEntry :: "BA_ADAPTER \<Rightarrow> nat \<Rightarrow> BA_ADAPTER option" where
  "BATableFreeRecEntry s Idx =
    (if Idx = 0 \<or> Idx \<ge> MAX_LEN_OF_BA_REC_TABLE then Some s
     else do {
       e \<leftarrow> arr (BARecEntry s) Idx;
       if re_Status e = Recipient_NONE then Some s
       else do {
         m \<leftarrow> arr (MacTab s) (re_Wcid e);
         _ \<leftarrow> arr (BARecWcidArray m) (re_TID e);
         let s = upd_Mac (re_Wcid e) (\<lambda>m. m\<lparr>BARecWcidArray := (BARecWcidArray m)[re_TID e := 0]\<rparr>) s;
         let s = s\<lparr>numAsRecipient := uint_sub (numAsRecipient s) 1\<rparr>;
         Some (upd_Rec Idx (\<lambda>e. e\<lparr>re_Status := Recipient_NONE\<rparr>) s)
       }
     })"

section \<open>Originator\<close>

definition BAOriSessionSetUp :: "BA_ADAPTER \<Rightarrow> nat \<Rightarrow> nat \<Rightarrow> nat \<Rightarrow> nat \<Rightarrow> bool \<Rightarrow> BA_ADAPTER option" where
  "BAOriSessionSetUp s w TID TimeOut DelayTime isForced =
    (if TID \<ge> NUM_OF_TID then Some s
     else if \<not> AutoBA s \<and> \<not> isForced then Some s
     else if \<not> FixedTxModeHT s then Some s
     else do {
       m \<leftarrow> arr (MacTab s) w;
       let DelayTime = (if BADeclineBitmap m AND tid_bit TID \<noteq> 0 \<and> \<not> isForced then 3000 else DelayTime);
       Idx \<leftarrow> arr (BAOriWcidArray m) TID;
       (case (if Idx = 0 then BATableAllocOriEntry s Idx else (Some Idx, Idx, s)) of
          (None, Idx, s) \<Rightarrow> Some s
        | (Some i, Idx, s) \<Rightarrow> do {
            e \<leftarrow> arr (BAOriEntry s) i;
            if oe_Status e \<in> {Originator_WaitRes, Originator_Done} then Some s
            else do {
              seq \<leftarrow> arr (TxSeq m) TID;
              let s = upd_Mac w (\<lambda>m. m\<lparr>BAOriWcidArray := (BAOriWcidArray m)[TID := Idx]\<rparr>) s;
              Some (upd_Ori i (\<lambda>e. e\<lparr>oe_Status := Originator_WaitRes, oe_Wcid := mc_Aid m,
                oe_BAWinSize := RxBAWinLimit s, oe_Sequence := seq, oe_Token := 1, oe_TID := TID,
                oe_TimeOutValue := TimeOut, oe_Timer := Some DelayTime\<rparr>) s)
            }
          })
     })"

text \<open>The parts of an ADDBA response that the driver reads.\<close>

record FRAME_ADDBA_RSP =
  rsp_StatusCode :: nat
  rsp_TID :: nat
  rsp_BufSize :: nat
  rsp_TimeOutValue :: nat

text \<open>\<open>mem\<close> is the answer of \<^verbatim>\<open>MlmeAllocateMemory\<close> for the BAR.\<close>

definition BAOriSessionAdd :: "bool \<Rightarrow> BA_ADAPTER \<Rightarrow> nat \<Rightarrow> FRAME_ADDBA_RSP \<Rightarrow> BA_ADAPTER option" where
  "BAOriSessionAdd mem s w pFrame =
    do {
      m \<leftarrow> arr (MacTab s) w;
      let TID = rsp_TID pFrame;
      Idx \<leftarrow> arr (BAOriWcidArray m) TID;
      e \<leftarrow> arr (BAOriEntry s) Idx;
      if Idx \<noteq> 0 \<and> oe_TID e = TID \<and> oe_Status e = Originator_WaitRes
      then do {
        let MaxPeerBufSize = (word_of_nat (rsp_BufSize pFrame) :: UINT8);
        let MaxPeerBufSize = (if MaxPeerBufSize > 0 then MaxPeerBufSize - 1 else 0);
        let Win = BA_MaxWinSizeReasign s m (min (oe_BAWinSize e) MaxPeerBufSize);
        seq \<leftarrow> arr (TxSeq m) TID;
        let s = upd_Ori Idx (\<lambda>e. e\<lparr>oe_BAWinSize := Win, oe_TimeOutValue := rsp_TimeOutValue pFrame,
          oe_Status := Originator_Done, oe_Sequence := seq, oe_Timer := None\<rparr>) s;
        let s = s\<lparr>numDoneOriginator := uint_add (numDoneOriginator s) 1\<rparr>;
        let s = upd_Mac w (\<lambda>m. m\<lparr>TXBAbitmap := TXBAbitmap m OR tid_bit TID\<rparr>) s;
        _ \<leftarrow> (if mem then arr (MacTab s) (oe_Wcid e) else Some m);
        Some (if mem then ba_emit (SendBAR (oe_Wcid e) TID seq) s else s)
      }
      else Some s
    }"

text \<open>\<open>mem\<close> is the answer of \<^verbatim>\<open>os_alloc_mem\<close> for the queue element of the DELBA request.\<close>

definition BAOriSessionTearDown :: "bool \<Rightarrow> BA_ADAPTER \<Rightarrow> nat \<Rightarrow> nat \<Rightarrow> bool \<Rightarrow> bool \<Rightarrow> BA_ADAPTER option" where
  "BAOriSessionTearDown mem s Wcid TID bPassive bForceSend =
    (if Wcid \<ge> MAX_LEN_OF_MAC_TABLE then Some s
     else do {
       m \<leftarrow> arr (MacTab s) Wcid;
       Idx \<leftarrow> arr (BAOriWcidArray m) TID;
       if Idx = 0 \<or> Idx \<ge> MAX_LEN_OF_BA_ORI_TABLE
       then Some (if bForceSend \<and> mem then ba_emit (MlmeDELBAAction Wcid TID ORIGINATOR) s else s)
       else do {
         e \<leftarrow> arr (BAOriEntry s) Idx;
         let send = (\<not> bPassive \<and> TID = oe_TID e \<and> oe_Status e = Originator_Done);
         if send \<and> \<not> mem then Some s
         else do {
           let s = (if send then ba_emit (MlmeDELBAAction Wcid (oe_TID e) ORIGINATOR) s else s);
           let s = upd_Ori Idx (\<lambda>e. e\<lparr>oe_Timer := None\<rparr>) s;
           BATableFreeOriEntry s Idx
         }
       }
     })"

text \<open>The timer of entry \<open>i\<close> has fired.\<close>

definition BAOriSessionSetupTimeout :: "BA_ADAPTER \<Rightarrow> nat \<Rightarrow> BA_ADAPTER option" where
  "BAOriSessionSetupTimeout s i =
    do {
      e \<leftarrow> arr (BAOriEntry s) i;
      let s = upd_Ori i (\<lambda>e. e\<lparr>oe_Timer := None\<rparr>) s;
      if MonitorOn s then Some s
      else do {
        m \<leftarrow> arr (MacTab s) (oe_Wcid e);
        if oe_Status e = Originator_WaitRes \<and> oe_Token e < ORI_SESSION_MAX_RETRY
        then (if ScanBusy s then Some (upd_Ori i (\<lambda>e. e\<lparr>oe_Timer := Some ORI_BA_SESSION_TIMEOUT\<rparr>) s)
              else Some (upd_Ori i (\<lambda>e. e\<lparr>oe_Token := oe_Token e + 1, oe_Timer := Some ORI_BA_SESSION_TIMEOUT\<rparr>)
                     (ba_emit (EnqueueADDBA (mc_Aid m) (oe_TID e) (RxBAWinLimit s) (oe_Token e)) s)))
        else do {
          Idx \<leftarrow> arr (BAOriWcidArray m) (oe_TID e);
          BATableFreeOriEntry s Idx
        }
      }
    }"

section \<open>Recipient\<close>

record FRAME_ADDBA_REQ =
  req_Token :: UINT8
  req_BAPolicy :: nat
  req_TID :: nat
  req_BufSize :: nat
  req_TimeOutValue :: nat

text \<open>The window granted for a request: the smaller of the two limits, and 64 for none.\<close>

definition rec_winsize :: "BA_ADAPTER \<Rightarrow> FRAME_ADDBA_REQ \<Rightarrow> UINT8" where
  "rec_winsize s pFrame =
    (let BAWinSize = min (word_of_nat (req_BufSize pFrame)) (RxBAWinLimit s)
     in if BAWinSize = 0 then 64 else BAWinSize)"

definition BARecSessionAdd :: "BA_ADAPTER \<Rightarrow> nat \<Rightarrow> FRAME_ADDBA_REQ \<Rightarrow> (bool \<times> BA_ADAPTER) option" where
  "BARecSessionAdd s w pFrame =
    do {
      m \<leftarrow> arr (MacTab s) w;
      let TID = req_TID pFrame;
      let BAWinSize = rec_winsize s pFrame;
      Idx \<leftarrow> arr (BARecWcidArray m) TID;
      r \<leftarrow> (if Idx = 0 then Some (BATableAllocRecEntry s Idx)
           else do {
             e \<leftarrow> arr (BARecEntry s) Idx;
             let r = ba_refresh_reordering_mpdus (ba_Ctx s) e;
             Some (Some Idx, Idx, upd_Rec Idx (\<lambda>_. snd r) (s\<lparr>ba_Ctx := fst r\<rparr>))
           });
      (case r of
         (None, Idx, s) \<Rightarrow> Some (False, s)
       | (Some i, Idx, s) \<Rightarrow> do {
           _ \<leftarrow> arr (BARecEntry s) i;
           let s = upd_Rec i (\<lambda>e. e\<lparr>re_BAWinSize := BAWinSize, re_Wcid := mc_Aid m, re_TID := TID,
             re_TimeOutValue := req_TimeOutValue pFrame, re_Status := Recipient_Accept,
             re_LastIndSeq := RESET_RCV_SEQ\<rparr>) s;
           let s = upd_Mac w (\<lambda>m. m\<lparr>RXBAbitmap := RXBAbitmap m OR tid_bit TID,
             BARecWcidArray := (BARecWcidArray m)[TID := Idx],
             BADeclineBitmap := BADeclineBitmap m AND NOT (tid_bit TID)\<rparr>) s;
           Some (True, ba_emit (AddAsicSession (mc_Aid m) TID) s)
         })
    }"

definition BARecSessionTearDown :: "bool \<Rightarrow> BA_ADAPTER \<Rightarrow> nat \<Rightarrow> nat \<Rightarrow> bool \<Rightarrow> BA_ADAPTER option" where
  "BARecSessionTearDown mem s Wcid TID bPassive =
    (if Wcid \<ge> MAX_LEN_OF_MAC_TABLE then Some s
     else do {
       m \<leftarrow> arr (MacTab s) Wcid;
       Idx \<leftarrow> arr (BARecWcidArray m) TID;
       if Idx = 0 then Some s
       else do {
         e \<leftarrow> arr (BARecEntry s) Idx;
         if TID = re_TID e \<and> re_Status e = Recipient_Accept
         then (if \<not> bPassive \<and> \<not> mem then Some s
           else do {
             let s = (if bPassive then s else ba_emit (MlmeDELBAAction Wcid TID RECIPIENT) s);
             let r = ba_refresh_reordering_mpdus (ba_Ctx s) e;
             let s = upd_Rec Idx (\<lambda>_. (snd r)\<lparr>re_LastIndSeq := RESET_RCV_SEQ, re_BAWinSize := 0\<rparr>)
                       (s\<lparr>ba_Ctx := fst r\<rparr>);
             let s = upd_Mac Wcid (\<lambda>m. m\<lparr>RXBAbitmap := RXBAbitmap m AND NOT (tid_bit TID),
               BARecWcidArray := (BARecWcidArray m)[TID := 0]\<rparr>) s;
             BATableFreeRecEntry (ba_emit (DelAsicSession Wcid TID) s) Idx
           })
         else BATableFreeRecEntry s Idx
       }
     })"

text \<open>\<open>mem i\<close> are the two answers of the allocator in round \<open>i\<close>.\<close>

definition BASessionTearDownALL :: "(nat \<Rightarrow> bool \<times> bool) \<Rightarrow> BA_ADAPTER \<Rightarrow> nat \<Rightarrow> BA_ADAPTER option" where
  "BASessionTearDownALL mem s Wcid =
    fold (\<lambda>i r. do {
        s \<leftarrow> r;
        s \<leftarrow> BAOriSessionTearDown (fst (mem i)) s Wcid i False False;
        BARecSessionTearDown (snd (mem i)) s Wcid i False
      }) [0..<NUM_OF_TID] (Some s)"

section \<open>Action frames\<close>

text \<open>The 16-bit BA parameter set: A-MSDU, policy, 4 bits of TID, 10 bits of buffer size.\<close>

definition msg16 :: "bytes \<Rightarrow> nat \<Rightarrow> nat option" where
  "msg16 Msg i = do { a \<leftarrow> octet Msg i; b \<leftarrow> octet Msg (i + 1); Some (le16 a b) }"

definition parse_addba_req :: "bytes \<Rightarrow> FRAME_ADDBA_REQ option" where
  "parse_addba_req Msg = do {
    tok \<leftarrow> octet Msg 26; p \<leftarrow> msg16 Msg 27; t \<leftarrow> msg16 Msg 29;
    Some \<lparr>req_Token = tok, req_BAPolicy = p div 2 mod 2, req_TID = p div 4 mod 16, req_BufSize = p div 64,
          req_TimeOutValue = t\<rparr> }"

definition parse_addba_rsp :: "bytes \<Rightarrow> FRAME_ADDBA_RSP option" where
  "parse_addba_rsp Msg = do {
    c \<leftarrow> msg16 Msg 27; p \<leftarrow> msg16 Msg 29; t \<leftarrow> msg16 Msg 31;
    Some \<lparr>rsp_StatusCode = c, rsp_TID = p div 4 mod 16, rsp_BufSize = p div 64, rsp_TimeOutValue = t\<rparr> }"

definition PeerAddBAReqActionSanity :: "bytes \<Rightarrow> nat \<Rightarrow> bool option" where
  "PeerAddBAReqActionSanity Msg MsgLen =
    (if MsgLen < 33 then Some False
     else do { f \<leftarrow> parse_addba_req Msg; Some (req_BAPolicy f = 1) })"

definition PeerAddBARspActionSanity :: "bytes \<Rightarrow> nat \<Rightarrow> bool option" where
  "PeerAddBARspActionSanity Msg MsgLen =
    (if MsgLen < 33 then Some False
     else do { p \<leftarrow> msg16 Msg 29; Some (p div 2 mod 2 = 1) })"

definition PeerDelBAActionSanity :: "nat \<Rightarrow> nat \<Rightarrow> bool" where
  "PeerDelBAActionSanity Wcid MsgLen \<longleftrightarrow> MsgLen = 30 \<and> Wcid < MAX_LEN_OF_MAC_TABLE"

definition PeerAddBAReqAction :: "bool \<Rightarrow> BA_ADAPTER \<Rightarrow> nat \<Rightarrow> bytes \<Rightarrow> nat \<Rightarrow> BA_ADAPTER option" where
  "PeerAddBAReqAction mem s Wcid Msg MsgLen =
    (if Wcid \<ge> MAX_LEN_OF_MAC_TABLE then Some s
     else do {
       m \<leftarrow> arr (MacTab s) Wcid;
       sane \<leftarrow> PeerAddBAReqActionSanity Msg MsgLen;
       pFrame \<leftarrow> parse_addba_req Msg;
       r \<leftarrow> (if sane then
               (if \<not> bBADecline s \<and> mc_HT m
                then do { (ok, s) \<leftarrow> BARecSessionAdd s Wcid pFrame; Some (if ok then 0 else 38, s) }
                else Some (37, s))
             else Some (1, s));
       (case r of (Status, s) \<Rightarrow>
         Some (if mem then ba_emit (SendADDBARsp Wcid (req_Token pFrame) Status (req_TID pFrame) (rec_winsize s pFrame)) s
               else s))
     })"

definition PeerAddBARspAction :: "bool \<Rightarrow> BA_ADAPTER \<Rightarrow> nat \<Rightarrow> bytes \<Rightarrow> nat \<Rightarrow> BA_ADAPTER option" where
  "PeerAddBARspAction mem s Wcid Msg MsgLen =
    (if Wcid \<ge> MAX_LEN_OF_MAC_TABLE then Some s
     else do {
       sane \<leftarrow> PeerAddBARspActionSanity Msg MsgLen;
       if \<not> sane then Some s
       else do {
         pFrame \<leftarrow> parse_addba_rsp Msg;
         s \<leftarrow> (if rsp_StatusCode pFrame = 0 then BAOriSessionAdd mem s Wcid pFrame
               else BAOriSessionTearDown mem s Wcid (rsp_TID pFrame) True False);
         if rsp_StatusCode pFrame = 37 \<or> (TGnWifi s \<and> rsp_StatusCode pFrame \<noteq> 0)
         then do {
           _ \<leftarrow> arr (MacTab s) Wcid;
           Some (upd_Mac Wcid (\<lambda>m. m\<lparr>BADeclineBitmap := BADeclineBitmap m OR tid_bit (rsp_TID pFrame)\<rparr>) s)
         }
         else Some s
       }
     })"

text \<open>The DELBA parameters: 11 reserved bits, the initiator, 4 bits of TID.\<close>

definition PeerDelBAAction :: "bool \<Rightarrow> BA_ADAPTER \<Rightarrow> nat \<Rightarrow> bytes \<Rightarrow> nat \<Rightarrow> BA_ADAPTER option" where
  "PeerDelBAAction mem s Wcid Msg MsgLen =
    (if \<not> PeerDelBAActionSanity Wcid MsgLen then Some s
     else do {
       p \<leftarrow> msg16 Msg 26;
       let TID = p div 4096 mod 16;
       if p div 2048 mod 2 = 1 then BARecSessionTearDown mem s Wcid TID True
       else BAOriSessionTearDown mem s Wcid TID True False
     })"

section \<open>Reception\<close>

text \<open>A block-ack request; \<open>TID\<close> and \<open>StartSeq\<close> are the fields of the frame.\<close>

definition CntlEnqueueForRecv :: "BA_ADAPTER \<Rightarrow> nat \<Rightarrow> nat \<Rightarrow> nat \<Rightarrow> int \<Rightarrow> (bool \<times> BA_ADAPTER) option" where
  "CntlEnqueueForRecv s Wcid MsgLen TID StartSeq =
    (if Halting s then Some (False, s)
     else if MsgLen > 1600 then Some (False, s)
     else if MsgLen \<noteq> 20 then Some (False, s)
     else if Wcid < MAX_LEN_OF_MAC_TABLE \<and> TID < 8
     then do {
       m \<leftarrow> arr (MacTab s) Wcid;
       Idx \<leftarrow> arr (BARecWcidArray m) TID;
       e \<leftarrow> arr (BARecEntry s) Idx;
       if SEQ_SMALLER (re_LastIndSeq e) StartSeq MAXSEQ
       then do {
         (c, e) \<leftarrow> ba_indicate_reordering_mpdus_le_seq (ba_Ctx s) e StartSeq;
         Some (True, upd_Rec Idx (\<lambda>_. e\<lparr>re_LastIndSeq := (if StartSeq = 0 then MAXSEQ else StartSeq - 1)\<rparr>)
                 (s\<lparr>ba_Ctx := c\<rparr>))
       }
       else Some (True, s)
     }
     else Some (False, s))"

definition Indicate_AMPDU_Packet :: "nat \<Rightarrow> BA_ADAPTER \<Rightarrow> RX_BLK \<Rightarrow> UINT32 \<Rightarrow> BA_ADAPTER option" where
  "Indicate_AMPDU_Packet OS_HZ s rx Now32 =
    (if \<not> rx_AMSDU rx \<and> rx_DataSize rx > MAX_RX_PKT_LEN
     then Some (s\<lparr>ba_Ctx := log_event (ba_Ctx s) (RELEASE_NDIS_PACKET (rx_Packet rx))\<rparr>)
     else if rx_WirelessCliID rx < MAX_LEN_OF_MAC_TABLE
     then do {
       m \<leftarrow> arr (MacTab s) (rx_WirelessCliID rx);
       Idx \<leftarrow> arr (BARecWcidArray m) (rx_TID rx);
       if Idx = 0 then Some (s\<lparr>ba_Ctx := INDICATE_LEGACY_OR_AMSDU (ba_Ctx s) rx\<rparr>)
       else do {
         e \<leftarrow> arr (BARecEntry s) Idx;
         (c, e) \<leftarrow> ampdu_session OS_HZ (ba_Ctx s) e rx Now32;
         Some (upd_Rec Idx (\<lambda>_. e) (s\<lparr>ba_Ctx := c\<rparr>))
       }
     }
     else Some (s\<lparr>ba_Ctx := log_event (ba_Ctx s) (RELEASE_NDIS_PACKET (rx_Packet rx))\<rparr>))"

definition maintain_one :: "nat \<Rightarrow> UINT32 \<Rightarrow> nat \<Rightarrow> nat \<Rightarrow> BA_ADAPTER \<Rightarrow> BA_ADAPTER option" where
  "maintain_one OS_HZ Now32 Wcid TID s =
    do {
      m \<leftarrow> arr (MacTab s) Wcid;
      Idx \<leftarrow> arr (BARecWcidArray m) TID;
      e \<leftarrow> arr (BARecEntry s) Idx;
      (c, e) \<leftarrow> ba_flush_reordering_timeout_mpdus OS_HZ (ba_Ctx s) e Now32;
      Some (upd_Rec Idx (\<lambda>_. e) (s\<lparr>ba_Ctx := c\<rparr>))
    }"

definition BaReOrderingBufferMaintain :: "nat \<Rightarrow> BA_ADAPTER \<Rightarrow> UINT32 \<Rightarrow> BA_ADAPTER option" where
  "BaReOrderingBufferMaintain OS_HZ s Now32 =
    fold (\<lambda>Wcid r. do {
        s \<leftarrow> r;
        m \<leftarrow> arr (MacTab s) Wcid;
        if mc_None m then Some s
        else fold (\<lambda>TID r. do { s \<leftarrow> r; maintain_one OS_HZ Now32 Wcid TID s }) [0..<NUM_OF_TID] (Some s)
      }) [1..<MAX_LEN_OF_MAC_TABLE] (Some s)"

text \<open>\<^verbatim>\<open>ba_reordering_resource_release\<close>: the waiting packets of all sessions are released.\<close>

function release_loop :: "BA_CTX \<Rightarrow> reordering_list \<Rightarrow> BA_CTX \<times> reordering_list" where
  "release_loop c L =
    (case ba_dequeue L of
       (None, L') \<Rightarrow> (c, L')
     | (Some b, L') \<Rightarrow> release_loop (ba_mpdu_blk_free (log_event c (RELEASE_NDIS_PACKET (pPacket b))) b) L')"
  by pat_completeness auto
termination
  by (relation "measure (\<lambda>(c, L). length (rl_next L))") (auto dest!: sym [THEN ba_dequeue_shorter])

declare release_loop.simps [simp del]

definition ba_reordering_resource_release :: "BA_ADAPTER \<Rightarrow> BA_ADAPTER" where
  "ba_reordering_resource_release s =
    fold (\<lambda>i s. let e = BARecEntry s ! i in
        if re_Status e = Recipient_NONE then s
        else let r = release_loop (ba_Ctx s) (re_list e)
             in upd_Rec i (\<lambda>e. e\<lparr>re_list := snd r\<rparr>) (s\<lparr>ba_Ctx := fst r\<rparr>))
      [0..<MAX_LEN_OF_BA_REC_TABLE] s"

end
