(* ===== verification/BaSession.thy ===== *)
theory BaSession
  imports BaTable
begin

text \<open>
  The invariant of the block-acknowledgement tables and its preservation by every operation: the
  counters count the used entries, the index arrays of the peers and the owner fields of the entries
  are inverse to each other, the bitmaps and the timers agree with the states of the sessions, and
  the reordering lists are well formed.  The index arrays represent, for each role, a finite map from
  peer and TID to session; set-up and tear-down are update and removal of that map.
\<close>

section \<open>Tables of slots\<close>

text \<open>Entry 0 is reserved; \<open>idx w t\<close> is the slot of the session that peer \<open>w\<close> has for TID \<open>t\<close>, or 0.\<close>

definition slots :: "('e \<Rightarrow> bool) \<Rightarrow> 'e list \<Rightarrow> nat set" where
  "slots used es = {i. 1 \<le> i \<and> i < 128 \<and> used (es ! i)}"

definition slot_inv ::
    "('e \<Rightarrow> bool) \<Rightarrow> ('e \<Rightarrow> nat \<times> nat) \<Rightarrow> 'e list \<Rightarrow> (nat \<Rightarrow> nat \<Rightarrow> nat) \<Rightarrow> nat \<Rightarrow> bool" where
  "slot_inv used owner es idx n \<longleftrightarrow> length es = 128 \<and> n = card (slots used es)
    \<and> (\<forall>w < 32. \<forall>t < 8. idx w t \<noteq> 0 \<longrightarrow> idx w t \<in> slots used es \<and> owner (es ! idx w t) = (w, t))
    \<and> (\<forall>i \<in> slots used es. \<exists>w t. owner (es ! i) = (w, t) \<and> w < 32 \<and> t < 8 \<and> idx w t = i)"

lemma finite_slots [simp]: "finite (slots used es)"
  by (simp add: slots_def)

lemma slots_update:
  assumes "length es = 128" "i < 128"
  shows "slots used (es[i := e]) = (if 1 \<le> i \<and> used e then insert i (slots used es) else slots used es - {i})"
  using assms by (auto simp: slots_def nth_list_update)

lemma slot_inv_cong:
  assumes "slot_inv used owner es idx n" "\<And>w t. w < 32 \<Longrightarrow> t < 8 \<Longrightarrow> idx' w t = idx w t"
  shows "slot_inv used owner es idx' n"
  using assms unfolding slot_inv_def by metis

lemma slot_count_le:
  assumes "slot_inv used owner es idx n"
  shows "n \<le> 127"
proof -
  have "card (slots used es) \<le> card {1..<128 :: nat}" by (rule card_mono) (auto simp: slots_def)
  then show ?thesis using assms by (simp add: slot_inv_def)
qed

lemma slot_free:
  assumes inv: "slot_inv used owner es idx n" and n: "n < 127"
  obtains i where "find (\<lambda>i. \<not> used (es ! i)) [1..<128] = Some i" "1 \<le> i" "i < 128" "\<not> used (es ! i)"
proof -
  have "\<exists>i \<in> {1..<128}. \<not> used (es ! i)"
  proof (rule ccontr)
    assume "\<not> ?thesis"
    then have "slots used es = {1..<128}" by (auto simp: slots_def)
    then show False using inv n by (simp add: slot_inv_def)
  qed
  then obtain i where f: "find (\<lambda>i. \<not> used (es ! i)) [1..<128] = Some i"
    using find_None_iff [of "\<lambda>i. \<not> used (es ! i)" "[1..<128]"] by fastforce
  then have "1 \<le> i \<and> i < 128 \<and> \<not> used (es ! i)" by (auto simp: find_Some_iff)
  then show thesis using that f by blast
qed

lemma slot_claim:
  assumes inv: "slot_inv used owner es idx n" and i: "1 \<le> i" "i < 128" "\<not> used (es ! i)"
    and e: "used e" "owner e = (w, t)" "w < 32" "t < 8" "idx w t = 0"
    and idx': "\<And>v u. v < 32 \<Longrightarrow> u < 8 \<Longrightarrow> idx' v u = (if v = w \<and> u = t then i else idx v u)"
  shows "slot_inv used owner (es[i := e]) idx' (n + 1)"
proof -
  have S: "slots used (es[i := e]) = insert i (slots used es)" "i \<notin> slots used es"
    using slots_update [of es i used e] inv i e by (simp_all add: slot_inv_def) (simp add: slots_def)
  have len: "length es = 128" and n: "n = card (slots used es)"
    and fwd: "\<And>v u. v < 32 \<Longrightarrow> u < 8 \<Longrightarrow> idx v u \<noteq> 0 \<Longrightarrow> idx v u \<in> slots used es \<and> owner (es ! idx v u) = (v, u)"
    and bwd: "\<And>j. j \<in> slots used es \<Longrightarrow> \<exists>v u. owner (es ! j) = (v, u) \<and> v < 32 \<and> u < 8 \<and> idx v u = j"
    using inv by (auto simp: slot_inv_def)
  have "\<exists>v u. owner (es[i := e] ! j) = (v, u) \<and> v < 32 \<and> u < 8 \<and> idx' v u = j"
    if j: "j \<in> insert i (slots used es)" for j
  proof (cases "j = i")
    case True
    then show ?thesis using e len i idx' by auto
  next
    case False
    then obtain v u where "owner (es ! j) = (v, u)" "v < 32" "u < 8" "idx v u = j" using bwd j by blast
    moreover have "j \<noteq> 0" using False j by (auto simp: slots_def)
    ultimately show ?thesis using False idx' [of v u] e by (auto simp: nth_list_update_neq)
  qed
  moreover have "idx' v u \<in> insert i (slots used es) \<and> owner (es[i := e] ! idx' v u) = (v, u)"
    if "v < 32" "u < 8" "idx' v u \<noteq> 0" for v u
  proof (cases "v = w \<and> u = t")
    case True
    then show ?thesis using idx' [OF that(1,2)] e len i by simp
  next
    case False
    then have "idx' v u = idx v u" using idx' [OF that(1,2)] by auto
    then show ?thesis using fwd [OF that(1,2)] that(3) S(2) by (metis insertCI nth_list_update_neq)
  qed
  ultimately show ?thesis using S n len by (simp add: slot_inv_def)
qed

lemma slot_release:
  assumes inv: "slot_inv used owner es idx n" and wt: "w < 32" "t < 8" "idx w t \<noteq> 0" and e: "\<not> used e"
    and idx': "\<And>v u. v < 32 \<Longrightarrow> u < 8 \<Longrightarrow> idx' v u = (if v = w \<and> u = t then 0 else idx v u)"
  shows "slot_inv used owner (es[idx w t := e]) idx' (n - 1)"
proof -
  define i where "i = idx w t"
  have len: "length es = 128" and n: "n = card (slots used es)"
    and fwd: "\<And>v u. v < 32 \<Longrightarrow> u < 8 \<Longrightarrow> idx v u \<noteq> 0 \<Longrightarrow> idx v u \<in> slots used es \<and> owner (es ! idx v u) = (v, u)"
    and bwd: "\<And>j. j \<in> slots used es \<Longrightarrow> \<exists>v u. owner (es ! j) = (v, u) \<and> v < 32 \<and> u < 8 \<and> idx v u = j"
    using inv by (auto simp: slot_inv_def)
  have i: "i \<in> slots used es" "owner (es ! i) = (w, t)" using fwd wt by (auto simp: i_def)
  have S: "slots used (es[i := e]) = slots used es - {i}"
    using slots_update [OF len, of i used e] i e by (auto simp: slots_def)
  have "idx' v u \<in> slots used es - {i} \<and> owner (es[i := e] ! idx' v u) = (v, u)"
    if "v < 32" "u < 8" "idx' v u \<noteq> 0" for v u
  proof -
    have vu: "idx' v u = idx v u" "\<not> (v = w \<and> u = t)" using idx' [OF that(1,2)] that(3) by (auto split: if_splits)
    then have "idx v u \<noteq> i" using fwd [OF that(1,2)] that(3) i by fastforce
    then show ?thesis using vu fwd [OF that(1,2)] that(3) by (simp add: nth_list_update_neq)
  qed
  moreover have "\<exists>v u. owner (es[i := e] ! j) = (v, u) \<and> v < 32 \<and> u < 8 \<and> idx' v u = j"
    if j: "j \<in> slots used es - {i}" for j
  proof -
    obtain v u where "owner (es ! j) = (v, u)" "v < 32" "u < 8" "idx v u = j" using bwd j by blast
    then show ?thesis using j idx' [of v u] i_def by (auto simp: nth_list_update_neq)
  qed
  ultimately show ?thesis using S n len i by (simp add: slot_inv_def flip: i_def)
qed

text \<open>A change of an entry that is neither claimed nor released.\<close>

lemma slot_keep:
  assumes inv: "slot_inv used owner es idx n" and i: "i < 128"
    and e: "i = 0 \<or> used e = used (es ! i) \<and> (used e \<longrightarrow> owner e = owner (es ! i))"
  shows "slot_inv used owner (es[i := e]) idx n"
proof -
  have len: "length es = 128" using inv by (simp add: slot_inv_def)
  have S: "slots used (es[i := e]) = slots used es"
    using slots_update [OF len i, of used e] e i by (auto simp: slots_def)
  have "owner (es[i := e] ! j) = owner (es ! j)" if "j \<in> slots used es" for j
    using that e len i by (cases "j = i") (auto simp: slots_def)
  then show ?thesis using inv S by (simp add: slot_inv_def)
qed

text \<open>The map that a table represents, and the effect of the changes on it.\<close>

definition sessions :: "'e list \<Rightarrow> (nat \<Rightarrow> nat \<Rightarrow> nat) \<Rightarrow> nat \<times> nat \<Rightarrow> 'e option" where
  "sessions es idx = (\<lambda>(w, t). if w < 32 \<and> t < 8 \<and> idx w t \<noteq> 0 then Some (es ! idx w t) else None)"

lemma idx_inj:
  assumes "slot_inv used owner es idx n" "v < 32" "u < 8" "w < 32" "t < 8" "idx v u = idx w t" "idx v u \<noteq> 0"
  shows "v = w \<and> u = t"
  using assms unfolding slot_inv_def by (metis Pair_inject)

lemma sessions_claim:
  assumes inv: "slot_inv used owner es idx n" and i: "1 \<le> i" "i < 128" "\<not> used (es ! i)" and wt: "w < 32" "t < 8"
    and idx': "\<And>v u. v < 32 \<Longrightarrow> u < 8 \<Longrightarrow> idx' v u = (if v = w \<and> u = t then i else idx v u)"
  shows "sessions (es[i := e]) idx' = (sessions es idx)((w, t) \<mapsto> e)"
proof
  fix p :: "nat \<times> nat"
  obtain v u where p: "p = (v, u)" by (cases p)
  have "idx v u \<noteq> i" if "v < 32" "u < 8" "idx v u \<noteq> 0"
    using inv that i by (auto simp: slot_inv_def slots_def)
  then show "sessions (es[i := e]) idx' p = ((sessions es idx)((w, t) \<mapsto> e)) p"
    using p idx' [of v u] i wt inv by (auto simp: sessions_def slot_inv_def nth_list_update_neq)
qed

lemma sessions_release:
  assumes inv: "slot_inv used owner es idx n" and wt: "w < 32" "t < 8" "idx w t \<noteq> 0"
    and idx': "\<And>v u. v < 32 \<Longrightarrow> u < 8 \<Longrightarrow> idx' v u = (if v = w \<and> u = t then 0 else idx v u)"
  shows "sessions (es[idx w t := e]) idx' = (sessions es idx)((w, t) := None)"
proof
  fix p :: "nat \<times> nat"
  obtain v u where p: "p = (v, u)" by (cases p)
  have "idx w t \<noteq> idx v u" if "\<not> (v = w \<and> u = t)" "v < 32" "u < 8"
    using idx_inj [OF inv, of w t v u] wt that by blast
  then show "sessions (es[idx w t := e]) idx' p = ((sessions es idx)((w, t) := None)) p"
    using p idx' [of v u] wt by (auto simp: sessions_def)
qed

lemma sessions_update:
  assumes inv: "slot_inv used owner es idx n" and wt: "w < 32" "t < 8" "idx w t \<noteq> 0"
  shows "sessions (es[idx w t := e]) idx = (sessions es idx)((w, t) \<mapsto> e)"
proof
  fix p :: "nat \<times> nat"
  obtain v u where p: "p = (v, u)" by (cases p)
  have "idx w t \<noteq> idx v u" if "\<not> (v = w \<and> u = t)" "v < 32" "u < 8"
    using idx_inj [OF inv, of w t v u] wt that by blast
  moreover have "idx w t < length es" using inv wt by (auto simp: slot_inv_def slots_def)
  ultimately show "sessions (es[idx w t := e]) idx p = ((sessions es idx)((w, t) \<mapsto> e)) p"
    using p wt by (auto simp: sessions_def)
qed

section \<open>The invariant\<close>

named_theorems ba_sels \<open>fields after an update of one entry\<close>

lemma upd_sels [ba_sels, simp]:
  "BARecEntry (upd_Rec i f s) = (BARecEntry s)[i := f (BARecEntry s ! i)]" "BARecEntry (upd_Ori i g s) = BARecEntry s"
  "BARecEntry (upd_Mac w h s) = BARecEntry s" "BARecEntry (ba_emit ev s) = BARecEntry s"
  "BAOriEntry (upd_Ori i g s) = (BAOriEntry s)[i := g (BAOriEntry s ! i)]" "BAOriEntry (upd_Rec i f s) = BAOriEntry s"
  "BAOriEntry (upd_Mac w h s) = BAOriEntry s" "BAOriEntry (ba_emit ev s) = BAOriEntry s"
  "MacTab (upd_Mac w h s) = (MacTab s)[w := h (MacTab s ! w)]" "MacTab (upd_Rec i f s) = MacTab s"
  "MacTab (upd_Ori i g s) = MacTab s" "MacTab (ba_emit ev s) = MacTab s"
  "numAsRecipient (upd_Rec i f s) = numAsRecipient s" "numAsRecipient (upd_Ori i g s) = numAsRecipient s"
  "numAsRecipient (upd_Mac w h s) = numAsRecipient s" "numAsRecipient (ba_emit ev s) = numAsRecipient s"
  "numAsOriginator (upd_Rec i f s) = numAsOriginator s" "numAsOriginator (upd_Ori i g s) = numAsOriginator s"
  "numAsOriginator (upd_Mac w h s) = numAsOriginator s" "numAsOriginator (ba_emit ev s) = numAsOriginator s"
  "numDoneOriginator (upd_Rec i f s) = numDoneOriginator s" "numDoneOriginator (upd_Ori i g s) = numDoneOriginator s"
  "numDoneOriginator (upd_Mac w h s) = numDoneOriginator s" "numDoneOriginator (ba_emit ev s) = numDoneOriginator s"
  "ba_Ctx (upd_Rec i f s) = ba_Ctx s" "ba_Ctx (upd_Ori i g s) = ba_Ctx s"
  "ba_Ctx (upd_Mac w h s) = ba_Ctx s" "ba_Ctx (ba_emit ev s) = ba_Ctx s"
  by (simp_all add: upd_Rec_def upd_Ori_def upd_Mac_def ba_emit_def)

definition rec_idx :: "BA_ADAPTER \<Rightarrow> nat \<Rightarrow> nat \<Rightarrow> nat" where
  "rec_idx s w t = BARecWcidArray (MacTab s ! w) ! t"

definition ori_idx :: "BA_ADAPTER \<Rightarrow> nat \<Rightarrow> nat \<Rightarrow> nat" where
  "ori_idx s w t = BAOriWcidArray (MacTab s ! w) ! t"

abbreviation rec_used :: "BA_REC_ENTRY \<Rightarrow> bool" where
  "rec_used \<equiv> \<lambda>e. re_Status e \<noteq> Recipient_NONE"

abbreviation ori_used :: "BA_ORI_ENTRY \<Rightarrow> bool" where
  "ori_used \<equiv> \<lambda>e. oe_Status e \<noteq> Originator_NONE"

abbreviation ori_done :: "BA_ORI_ENTRY \<Rightarrow> bool" where
  "ori_done \<equiv> \<lambda>e. oe_Status e = Originator_Done"

abbreviation rec_owner :: "BA_REC_ENTRY \<Rightarrow> nat \<times> nat" where
  "rec_owner \<equiv> \<lambda>e. (re_Wcid e, re_TID e)"

abbreviation ori_owner :: "BA_ORI_ENTRY \<Rightarrow> nat \<times> nat" where
  "ori_owner \<equiv> \<lambda>e. (oe_Wcid e, oe_TID e)"

definition mac_inv :: "BA_ADAPTER \<Rightarrow> bool" where
  "mac_inv s \<longleftrightarrow> length (MacTab s) = 32 \<and> (\<forall>w < 32. mc_Aid (MacTab s ! w) = w
    \<and> length (BARecWcidArray (MacTab s ! w)) = 8 \<and> length (BAOriWcidArray (MacTab s ! w)) = 8
    \<and> length (TxSeq (MacTab s ! w)) = 8)"

definition rec_inv :: "BA_ADAPTER \<Rightarrow> bool" where
  "rec_inv s \<longleftrightarrow> slot_inv rec_used rec_owner (BARecEntry s) (rec_idx s) (numAsRecipient s)
    \<and> (\<forall>i \<in> slots rec_used (BARecEntry s). re_Status (BARecEntry s ! i) = Recipient_Accept)
    \<and> (\<forall>w < 32. \<forall>t < 8. bit (RXBAbitmap (MacTab s ! w)) t \<longleftrightarrow> rec_idx s w t \<noteq> 0)"

definition ori_inv :: "BA_ADAPTER \<Rightarrow> bool" where
  "ori_inv s \<longleftrightarrow> slot_inv ori_used ori_owner (BAOriEntry s) (ori_idx s) (numAsOriginator s)
    \<and> numDoneOriginator s = card (slots ori_done (BAOriEntry s))
    \<and> (\<forall>i \<in> slots ori_used (BAOriEntry s). oe_Status (BAOriEntry s ! i) \<noteq> Originator_USED)
    \<and> (\<forall>i < 128. oe_Timer (BAOriEntry s ! i) \<noteq> None \<longrightarrow> 1 \<le> i \<and> oe_Status (BAOriEntry s ! i) = Originator_WaitRes)
    \<and> (\<forall>w < 32. \<forall>t < 8. bit (TXBAbitmap (MacTab s ! w)) t
         \<longleftrightarrow> ori_idx s w t \<noteq> 0 \<and> ori_done (BAOriEntry s ! ori_idx s w t))"

definition list_inv :: "BA_CTX \<Rightarrow> BA_REC_ENTRY list \<Rightarrow> bool" where
  "list_inv c es \<longleftrightarrow> (\<forall>e \<in> set es. ba_ok c e \<and> (re_Status e = Recipient_NONE \<longrightarrow> rl_next (re_list e) = []))"

definition ba_table_inv :: "BA_ADAPTER \<Rightarrow> bool" where
  "ba_table_inv s \<longleftrightarrow> mac_inv s \<and> rec_inv s \<and> ori_inv s \<and> list_inv (ba_Ctx s) (BARecEntry s)"

lemma arr_simps [simp]: "i < length xs \<Longrightarrow> arr xs i = Some (xs ! i)" "length xs \<le> i \<Longrightarrow> arr xs i = None"
  by (simp_all add: arr_def)

lemma bit_tid [simp]:
  "t < 16 \<Longrightarrow> bit (b OR tid_bit u) t \<longleftrightarrow> bit b t \<or> t = u"
  "t < 16 \<Longrightarrow> bit (b AND NOT (tid_bit u)) t \<longleftrightarrow> bit b t \<and> t \<noteq> u"
  by (auto simp: tid_bit_def bit_or_iff bit_and_iff bit_not_iff bit_exp_iff)

text \<open>Each part depends on its own fields only.\<close>

lemma rec_inv_frame:
  assumes "rec_inv s" "BARecEntry s' = BARecEntry s" "numAsRecipient s' = numAsRecipient s"
    "\<And>w. w < 32 \<Longrightarrow> BARecWcidArray (MacTab s' ! w) = BARecWcidArray (MacTab s ! w)
       \<and> RXBAbitmap (MacTab s' ! w) = RXBAbitmap (MacTab s ! w)"
  shows "rec_inv s'"
proof -
  have idx: "rec_idx s' w t = rec_idx s w t" if "w < 32" for w t using assms(4) [OF that] by (simp add: rec_idx_def)
  then have "slot_inv rec_used rec_owner (BARecEntry s) (rec_idx s') (numAsRecipient s)"
    using assms(1) unfolding rec_inv_def by (blast intro: slot_inv_cong)
  then show ?thesis using assms idx by (simp add: rec_inv_def)
qed

lemma ori_inv_frame:
  assumes "ori_inv s" "BAOriEntry s' = BAOriEntry s" "numAsOriginator s' = numAsOriginator s"
    "numDoneOriginator s' = numDoneOriginator s"
    "\<And>w. w < 32 \<Longrightarrow> BAOriWcidArray (MacTab s' ! w) = BAOriWcidArray (MacTab s ! w)
       \<and> TXBAbitmap (MacTab s' ! w) = TXBAbitmap (MacTab s ! w)"
  shows "ori_inv s'"
proof -
  have idx: "ori_idx s' w t = ori_idx s w t" if "w < 32" for w t using assms(5) [OF that] by (simp add: ori_idx_def)
  then have "slot_inv ori_used ori_owner (BAOriEntry s) (ori_idx s') (numAsOriginator s)"
    using assms(1) unfolding ori_inv_def by (blast intro: slot_inv_cong)
  then show ?thesis using assms idx by (simp add: ori_inv_def)
qed

lemma ba_emit_inv [simp]: "ba_table_inv (ba_emit ev s) = ba_table_inv s"
proof -
  have "rec_idx (ba_emit ev s) = rec_idx s" "ori_idx (ba_emit ev s) = ori_idx s"
    by (simp_all add: rec_idx_def ori_idx_def fun_eq_iff)
  then show ?thesis by (simp add: ba_table_inv_def mac_inv_def rec_inv_def ori_inv_def)
qed

text \<open>A change of one peer that keeps its identity and the sizes of its arrays.\<close>

lemma mac_inv_upd:
  assumes "mac_inv s" "w < 32" "MacTab s' = (MacTab s)[w := m]" "mc_Aid m = w"
    "length (BARecWcidArray m) = 8" "length (BAOriWcidArray m) = 8" "length (TxSeq m) = 8"
  shows "mac_inv s'"
  using assms by (auto simp: mac_inv_def nth_list_update)

text \<open>The free list and one session change, the lists of the others stay.\<close>

lemma list_inv_upd:
  assumes "list_inv c es" "ba_ok c' e" "re_Status e = Recipient_NONE \<longrightarrow> rl_next (re_list e) = []"
  shows "list_inv c' (es[i := e])"
proof -
  have "ba_ok c' d" if "ba_ok c d" for d using that assms(2) by (auto simp: ba_ok_def)
  then show ?thesis using assms set_update_subset_insert [of es i e] by (fastforce simp: list_inv_def)
qed

section \<open>Changes of the recipient table\<close>

definition rec_sess :: "BA_ADAPTER \<Rightarrow> nat \<times> nat \<Rightarrow> BA_REC_ENTRY option" where
  "rec_sess s = sessions (BARecEntry s) (rec_idx s)"

definition ori_sess :: "BA_ADAPTER \<Rightarrow> nat \<times> nat \<Rightarrow> BA_ORI_ENTRY option" where
  "ori_sess s = sessions (BAOriEntry s) (ori_idx s)"

lemma rec_idx_upd:
  assumes "mac_inv s" "w < 32" "t < 8" "MacTab s' = (MacTab s)[w := m]"
    "BARecWcidArray m = (BARecWcidArray (MacTab s ! w))[t := k]" "v < 32" "u < 8"
  shows "rec_idx s' v u = (if v = w \<and> u = t then k else rec_idx s v u)"
  using assms by (auto simp: rec_idx_def mac_inv_def nth_list_update)

lemma ori_idx_upd:
  assumes "mac_inv s" "w < 32" "t < 8" "MacTab s' = (MacTab s)[w := m]"
    "BAOriWcidArray m = (BAOriWcidArray (MacTab s ! w))[t := k]" "v < 32" "u < 8"
  shows "ori_idx s' v u = (if v = w \<and> u = t then k else ori_idx s v u)"
  using assms by (auto simp: ori_idx_def mac_inv_def nth_list_update)

lemma rec_claim:
  assumes mac: "mac_inv s" and rec: "rec_inv s" and wt: "w < 32" "t < 8" "rec_idx s w t = 0"
    and i: "1 \<le> i" "i < 128" "re_Status (BARecEntry s ! i) = Recipient_NONE"
    and e: "re_Status e = Recipient_Accept" "re_Wcid e = w" "re_TID e = t"
    and s': "BARecEntry s' = (BARecEntry s)[i := e]" "numAsRecipient s' = numAsRecipient s + 1"
      "MacTab s' = (MacTab s)[w := m]" "BARecWcidArray m = (BARecWcidArray (MacTab s ! w))[t := i]"
      "RXBAbitmap m = RXBAbitmap (MacTab s ! w) OR tid_bit t"
  shows "rec_inv s' \<and> rec_sess s' = (rec_sess s)((w, t) \<mapsto> e)"
proof -
  have inv: "slot_inv rec_used rec_owner (BARecEntry s) (rec_idx s) (numAsRecipient s)" using rec by (simp add: rec_inv_def)
  have len: "length (BARecEntry s) = 128" using inv by (simp add: slot_inv_def)
  note idx = rec_idx_upd [OF mac wt(1,2) s'(3,4)]
  have "slot_inv rec_used rec_owner (BARecEntry s') (rec_idx s') (numAsRecipient s')"
    unfolding s'(1,2) by (rule slot_claim [OF inv i(1,2) _ _ _ wt idx]) (use i e in auto)
  moreover have "rec_sess s' = (rec_sess s)((w, t) \<mapsto> e)"
    unfolding rec_sess_def s'(1) by (rule sessions_claim [OF inv i(1,2) _ wt(1,2) idx]) (use i in auto)
  moreover have "re_Status (BARecEntry s' ! j) = Recipient_Accept" if "j \<in> slots rec_used (BARecEntry s')" for j
    using that rec e len i by (cases "j = i") (auto simp: s'(1) rec_inv_def slots_def)
  moreover have "bit (RXBAbitmap (MacTab s' ! v)) u \<longleftrightarrow> rec_idx s' v u \<noteq> 0" if "v < 32" "u < 8" for v u
    using rec mac that wt i idx [OF that] by (cases "v = w") (auto simp: s' rec_inv_def mac_inv_def)
  ultimately show ?thesis by (simp add: rec_inv_def)
qed

lemma rec_update:
  assumes mac: "mac_inv s" and rec: "rec_inv s" and wt: "w < 32" "t < 8" "rec_idx s w t \<noteq> 0"
    and e: "re_Status e = Recipient_Accept" "re_Wcid e = w" "re_TID e = t"
    and s': "BARecEntry s' = (BARecEntry s)[rec_idx s w t := e]" "numAsRecipient s' = numAsRecipient s"
      "MacTab s' = (MacTab s)[w := m]" "BARecWcidArray m = (BARecWcidArray (MacTab s ! w))[t := rec_idx s w t]"
      "RXBAbitmap m = RXBAbitmap (MacTab s ! w) OR tid_bit t"
  shows "rec_inv s' \<and> rec_sess s' = (rec_sess s)((w, t) \<mapsto> e)"
proof -
  have inv: "slot_inv rec_used rec_owner (BARecEntry s) (rec_idx s) (numAsRecipient s)" using rec by (simp add: rec_inv_def)
  have i: "rec_idx s w t < 128" "rec_used (BARecEntry s ! rec_idx s w t)" "rec_owner (BARecEntry s ! rec_idx s w t) = (w, t)"
    and len: "length (BARecEntry s) = 128" using inv wt by (auto simp: slot_inv_def slots_def)
  have idx: "rec_idx s' v u = rec_idx s v u" if "v < 32" "u < 8" for v u
    using rec_idx_upd [OF mac wt(1,2) s'(3,4) that] by simp
  have "slot_inv rec_used rec_owner (BARecEntry s') (rec_idx s) (numAsRecipient s')"
    unfolding s'(1,2) by (rule slot_keep [OF inv i(1)]) (use i e in auto)
  then have "slot_inv rec_used rec_owner (BARecEntry s') (rec_idx s') (numAsRecipient s')"
    using idx by (rule slot_inv_cong)
  moreover have "rec_sess s' = sessions (BARecEntry s') (rec_idx s)" using idx by (auto simp: rec_sess_def sessions_def fun_eq_iff)
  then have "rec_sess s' = (rec_sess s)((w, t) \<mapsto> e)"
    using sessions_update [OF inv wt, of e] by (simp add: rec_sess_def s'(1))
  moreover have "re_Status (BARecEntry s' ! j) = Recipient_Accept" if "j \<in> slots rec_used (BARecEntry s')" for j
    using that rec e len i by (cases "j = rec_idx s w t") (auto simp: s'(1) rec_inv_def slots_def)
  moreover have "bit (RXBAbitmap (MacTab s' ! v)) u \<longleftrightarrow> rec_idx s' v u \<noteq> 0" if "v < 32" "u < 8" for v u
    using rec mac that wt i idx [OF that] by (cases "v = w") (auto simp: s' rec_inv_def mac_inv_def)
  ultimately show ?thesis by (simp add: rec_inv_def)
qed

lemma rec_release:
  assumes mac: "mac_inv s" and rec: "rec_inv s" and wt: "w < 32" "t < 8" "rec_idx s w t \<noteq> 0"
    and e: "re_Status e = Recipient_NONE"
    and s': "BARecEntry s' = (BARecEntry s)[rec_idx s w t := e]" "numAsRecipient s' = numAsRecipient s - 1"
      "MacTab s' = (MacTab s)[w := m]" "BARecWcidArray m = (BARecWcidArray (MacTab s ! w))[t := 0]"
      "RXBAbitmap m = RXBAbitmap (MacTab s ! w) AND NOT (tid_bit t)"
  shows "rec_inv s' \<and> rec_sess s' = (rec_sess s)((w, t) := None)"
proof -
  have inv: "slot_inv rec_used rec_owner (BARecEntry s) (rec_idx s) (numAsRecipient s)" using rec by (simp add: rec_inv_def)
  have i: "rec_idx s w t < 128" and len: "length (BARecEntry s) = 128" using inv wt by (auto simp: slot_inv_def slots_def)
  note idx = rec_idx_upd [OF mac wt(1,2) s'(3,4)]
  have "slot_inv rec_used rec_owner (BARecEntry s') (rec_idx s') (numAsRecipient s')"
    unfolding s'(1,2) by (rule slot_release [OF inv wt _ idx]) (use e in auto)
  moreover have "rec_sess s' = (rec_sess s)((w, t) := None)"
    unfolding rec_sess_def s'(1) by (rule sessions_release [OF inv wt idx])
  moreover have "re_Status (BARecEntry s' ! j) = Recipient_Accept" if "j \<in> slots rec_used (BARecEntry s')" for j
    using that rec e len i by (cases "j = rec_idx s w t") (auto simp: s'(1) rec_inv_def slots_def)
  moreover have "bit (RXBAbitmap (MacTab s' ! v)) u \<longleftrightarrow> rec_idx s' v u \<noteq> 0" if "v < 32" "u < 8" for v u
    using rec mac that wt idx [OF that] by (cases "v = w") (auto simp: s' rec_inv_def mac_inv_def)
  ultimately show ?thesis by (simp add: rec_inv_def)
qed

text \<open>An entry keeps its state and owner; the peers do not change.\<close>

lemma rec_keep:
  assumes rec: "rec_inv s" and i: "i < 128"
    and e: "re_Status e = re_Status (BARecEntry s ! i)" "re_Wcid e = re_Wcid (BARecEntry s ! i)"
      "re_TID e = re_TID (BARecEntry s ! i)"
    and s': "BARecEntry s' = (BARecEntry s)[i := e]" "numAsRecipient s' = numAsRecipient s" "MacTab s' = MacTab s"
  shows "rec_inv s'"
proof -
  have inv: "slot_inv rec_used rec_owner (BARecEntry s) (rec_idx s) (numAsRecipient s)" using rec by (simp add: rec_inv_def)
  have len: "length (BARecEntry s) = 128" using inv by (simp add: slot_inv_def)
  have idx: "rec_idx s' = rec_idx s" by (simp add: rec_idx_def s'(3) fun_eq_iff)
  have "slot_inv rec_used rec_owner (BARecEntry s') (rec_idx s') (numAsRecipient s')"
    unfolding s'(1,2) idx by (rule slot_keep [OF inv i]) (use e in auto)
  moreover have "re_Status (BARecEntry s' ! j) = re_Status (BARecEntry s ! j)" if "j < 128" for j
    using that e len by (cases "j = i") (auto simp: s'(1))
  ultimately show ?thesis using rec idx s'(3) by (auto simp: rec_inv_def slots_def)
qed

section \<open>Changes of the originator table\<close>

lemma ori_claim:
  assumes mac: "mac_inv s" and ori: "ori_inv s" and wt: "w < 32" "t < 8" "ori_idx s w t = 0"
    and i: "1 \<le> i" "i < 128" "oe_Status (BAOriEntry s ! i) = Originator_NONE"
    and e: "oe_Status e = Originator_WaitRes" "oe_Wcid e = w" "oe_TID e = t"
    and s': "BAOriEntry s' = (BAOriEntry s)[i := e]" "numAsOriginator s' = numAsOriginator s + 1"
      "numDoneOriginator s' = numDoneOriginator s"
      "MacTab s' = (MacTab s)[w := m]" "BAOriWcidArray m = (BAOriWcidArray (MacTab s ! w))[t := i]"
      "TXBAbitmap m = TXBAbitmap (MacTab s ! w)"
  shows "ori_inv s' \<and> ori_sess s' = (ori_sess s)((w, t) \<mapsto> e)"
proof -
  have inv: "slot_inv ori_used ori_owner (BAOriEntry s) (ori_idx s) (numAsOriginator s)" using ori by (simp add: ori_inv_def)
  have len: "length (BAOriEntry s) = 128" using inv by (simp add: slot_inv_def)
  note idx = ori_idx_upd [OF mac wt(1,2) s'(4,5)]
  have "slot_inv ori_used ori_owner (BAOriEntry s') (ori_idx s') (numAsOriginator s')"
    unfolding s'(1,2) by (rule slot_claim [OF inv i(1,2) _ _ _ wt idx]) (use i e in auto)
  moreover have "ori_sess s' = (ori_sess s)((w, t) \<mapsto> e)"
    unfolding ori_sess_def s'(1) by (rule sessions_claim [OF inv i(1,2) _ wt(1,2) idx]) (use i in auto)
  moreover have "slots ori_done (BAOriEntry s') = slots ori_done (BAOriEntry s)"
    using slots_update [OF len i(2), of ori_done e] e i by (auto simp: s'(1) slots_def)
  moreover have "oe_Status (BAOriEntry s' ! j) \<noteq> Originator_USED" if "j \<in> slots ori_used (BAOriEntry s')" for j
    using that ori e len i by (cases "j = i") (auto simp: s'(1) ori_inv_def slots_def)
  moreover have "1 \<le> j \<and> oe_Status (BAOriEntry s' ! j) = Originator_WaitRes"
    if "j < 128" "oe_Timer (BAOriEntry s' ! j) \<noteq> None" for j
    using that ori e len i by (cases "j = i") (auto simp: s'(1) ori_inv_def)
  moreover have "bit (TXBAbitmap (MacTab s' ! v)) u \<longleftrightarrow> ori_idx s' v u \<noteq> 0 \<and> ori_done (BAOriEntry s' ! ori_idx s' v u)"
    if "v < 32" "u < 8" for v u
  proof (cases "v = w \<and> u = t")
    case True
    then show ?thesis using ori mac wt i e len idx [OF that] by (simp add: s' ori_inv_def mac_inv_def)
  next
    case False
    then have "ori_idx s' v u = ori_idx s v u" using idx [OF that] by auto
    moreover have "ori_idx s v u \<noteq> i" if "ori_idx s v u \<noteq> 0"
      using inv that \<open>v < 32\<close> \<open>u < 8\<close> i by (auto simp: slot_inv_def slots_def)
    moreover have "TXBAbitmap (MacTab s' ! v) = TXBAbitmap (MacTab s ! v)"
      using mac wt s' that by (cases "v = w") (auto simp: mac_inv_def)
    ultimately show ?thesis using ori that by (auto simp: s'(1) ori_inv_def)
  qed
  ultimately show ?thesis using ori s'(3) by (simp add: ori_inv_def)
qed

text \<open>A session changes state or data; the peer's bit is set exactly when it is established.\<close>

lemma ori_update:
  assumes mac: "mac_inv s" and ori: "ori_inv s" and wt: "w < 32" "t < 8" "ori_idx s w t \<noteq> 0"
    and old: "oe_Status (BAOriEntry s ! ori_idx s w t) = Originator_WaitRes"
    and e: "oe_Status e = Originator_Done" "oe_Wcid e = w" "oe_TID e = t" "oe_Timer e = None"
    and s': "BAOriEntry s' = (BAOriEntry s)[ori_idx s w t := e]" "numAsOriginator s' = numAsOriginator s"
      "numDoneOriginator s' = numDoneOriginator s + 1"
      "MacTab s' = (MacTab s)[w := m]" "BAOriWcidArray m = BAOriWcidArray (MacTab s ! w)"
      "TXBAbitmap m = TXBAbitmap (MacTab s ! w) OR tid_bit t"
  shows "ori_inv s' \<and> ori_sess s' = (ori_sess s)((w, t) \<mapsto> e)"
proof -
  have inv: "slot_inv ori_used ori_owner (BAOriEntry s) (ori_idx s) (numAsOriginator s)" using ori by (simp add: ori_inv_def)
  let ?i = "ori_idx s w t"
  have i: "?i < 128" "1 \<le> ?i" "ori_owner (BAOriEntry s ! ?i) = (w, t)" and len: "length (BAOriEntry s) = 128"
    using inv wt by (auto simp: slot_inv_def slots_def)
  have idx: "ori_idx s' v u = ori_idx s v u" if "v < 32" for v u
    using mac wt s'(4,5) that by (cases "v = w") (auto simp: ori_idx_def mac_inv_def)
  have "slot_inv ori_used ori_owner (BAOriEntry s') (ori_idx s) (numAsOriginator s')"
    unfolding s'(1,2) by (rule slot_keep [OF inv i(1)]) (use i e old in auto)
  then have "slot_inv ori_used ori_owner (BAOriEntry s') (ori_idx s') (numAsOriginator s')"
    using idx by (rule slot_inv_cong)
  moreover have "ori_sess s' = sessions (BAOriEntry s') (ori_idx s)" using idx by (auto simp: ori_sess_def sessions_def fun_eq_iff)
  then have "ori_sess s' = (ori_sess s)((w, t) \<mapsto> e)"
    using sessions_update [OF inv wt, of e] by (simp add: ori_sess_def s'(1))
  moreover have "?i \<notin> slots ori_done (BAOriEntry s)" using old by (simp add: slots_def)
  then have "card (slots ori_done (BAOriEntry s')) = card (slots ori_done (BAOriEntry s)) + 1"
    using slots_update [OF len i(1), of ori_done e] e i by (simp add: s'(1))
  moreover have "oe_Status (BAOriEntry s' ! j) \<noteq> Originator_USED" if "j \<in> slots ori_used (BAOriEntry s')" for j
    using that ori e len i by (cases "j = ?i") (auto simp: s'(1) ori_inv_def slots_def)
  moreover have "1 \<le> j \<and> oe_Status (BAOriEntry s' ! j) = Originator_WaitRes"
    if "j < 128" "oe_Timer (BAOriEntry s' ! j) \<noteq> None" for j
    using that ori e len i by (cases "j = ?i") (auto simp: s'(1) ori_inv_def)
  moreover have "bit (TXBAbitmap (MacTab s' ! v)) u \<longleftrightarrow> ori_idx s' v u \<noteq> 0 \<and> ori_done (BAOriEntry s' ! ori_idx s' v u)"
    if "v < 32" "u < 8" for v u
  proof (cases "v = w \<and> u = t")
    case True
    then show ?thesis using mac wt i e len idx [OF that(1)] by (simp add: s' mac_inv_def)
  next
    case False
    then have "ori_idx s v u \<noteq> ?i" if "ori_idx s v u \<noteq> 0" using idx_inj [OF inv _ _ wt(1,2)] that \<open>v < 32\<close> \<open>u < 8\<close> by blast
    moreover have "bit (TXBAbitmap (MacTab s' ! v)) u = bit (TXBAbitmap (MacTab s ! v)) u"
      using mac wt s' that False by (cases "v = w") (auto simp: mac_inv_def)
    ultimately show ?thesis using ori that idx [OF that(1)] by (auto simp: s'(1) ori_inv_def)
  qed
  ultimately show ?thesis using ori s'(3) by (simp add: ori_inv_def)
qed

lemma ori_release:
  assumes mac: "mac_inv s" and ori: "ori_inv s" and wt: "w < 32" "t < 8" "ori_idx s w t \<noteq> 0"
    and e: "oe_Status e = Originator_NONE" "oe_Timer e = None"
    and s': "BAOriEntry s' = (BAOriEntry s)[ori_idx s w t := e]" "numAsOriginator s' = numAsOriginator s - 1"
      "numDoneOriginator s' = numDoneOriginator s - (if ori_done (BAOriEntry s ! ori_idx s w t) then 1 else 0)"
      "MacTab s' = (MacTab s)[w := m]" "BAOriWcidArray m = (BAOriWcidArray (MacTab s ! w))[t := 0]"
      "TXBAbitmap m = (if ori_done (BAOriEntry s ! ori_idx s w t) then TXBAbitmap (MacTab s ! w) AND NOT (tid_bit t)
                       else TXBAbitmap (MacTab s ! w))"
  shows "ori_inv s' \<and> ori_sess s' = (ori_sess s)((w, t) := None)"
proof -
  have inv: "slot_inv ori_used ori_owner (BAOriEntry s) (ori_idx s) (numAsOriginator s)" using ori by (simp add: ori_inv_def)
  let ?i = "ori_idx s w t"
  have i: "?i < 128" "1 \<le> ?i" and len: "length (BAOriEntry s) = 128" using inv wt by (auto simp: slot_inv_def slots_def)
  note idx = ori_idx_upd [OF mac wt(1,2) s'(4,5)]
  have "slot_inv ori_used ori_owner (BAOriEntry s') (ori_idx s') (numAsOriginator s')"
    unfolding s'(1,2) by (rule slot_release [OF inv wt _ idx]) (use e in auto)
  moreover have "ori_sess s' = (ori_sess s)((w, t) := None)"
    unfolding ori_sess_def s'(1) by (rule sessions_release [OF inv wt idx])
  moreover have "slots ori_done (BAOriEntry s') = slots ori_done (BAOriEntry s) - {?i}"
    using slots_update [OF len i(1), of ori_done e] e by (simp add: s'(1))
  then have "card (slots ori_done (BAOriEntry s')) = numDoneOriginator s'"
    using ori i by (auto simp: s'(3) ori_inv_def slots_def card_Diff_singleton_if)
  moreover have "oe_Status (BAOriEntry s' ! j) \<noteq> Originator_USED" if "j \<in> slots ori_used (BAOriEntry s')" for j
    using that ori e len i by (cases "j = ?i") (auto simp: s'(1) ori_inv_def slots_def)
  moreover have "1 \<le> j \<and> oe_Status (BAOriEntry s' ! j) = Originator_WaitRes"
    if "j < 128" "oe_Timer (BAOriEntry s' ! j) \<noteq> None" for j
    using that ori e len i by (cases "j = ?i") (auto simp: s'(1) ori_inv_def)
  moreover have "bit (TXBAbitmap (MacTab s' ! v)) u \<longleftrightarrow> ori_idx s' v u \<noteq> 0 \<and> ori_done (BAOriEntry s' ! ori_idx s' v u)"
    if "v < 32" "u < 8" for v u
  proof (cases "v = w \<and> u = t")
    case True
    then show ?thesis using ori mac wt idx [OF that] by (auto simp: s' ori_inv_def mac_inv_def)
  next
    case False
    then have "ori_idx s' v u = ori_idx s v u" using idx [OF that] by auto
    moreover have "ori_idx s v u \<noteq> ?i" if "ori_idx s v u \<noteq> 0"
      using False idx_inj [OF inv _ _ wt(1,2)] that \<open>v < 32\<close> \<open>u < 8\<close> by blast
    moreover have "bit (TXBAbitmap (MacTab s' ! v)) u = bit (TXBAbitmap (MacTab s ! v)) u"
      using mac wt s' that False by (cases "v = w") (auto simp: mac_inv_def)
    ultimately show ?thesis using ori that by (auto simp: s'(1) ori_inv_def)
  qed
  ultimately show ?thesis by (simp add: ori_inv_def)
qed

lemma ori_keep:
  assumes ori: "ori_inv s" and i: "i < 128"
    and e: "oe_Status e = oe_Status (BAOriEntry s ! i)" "oe_Wcid e = oe_Wcid (BAOriEntry s ! i)"
      "oe_TID e = oe_TID (BAOriEntry s ! i)" "oe_Timer e \<noteq> None \<Longrightarrow> 1 \<le> i \<and> oe_Status e = Originator_WaitRes"
    and s': "BAOriEntry s' = (BAOriEntry s)[i := e]" "numAsOriginator s' = numAsOriginator s"
      "numDoneOriginator s' = numDoneOriginator s" "MacTab s' = MacTab s"
  shows "ori_inv s'"
proof -
  have inv: "slot_inv ori_used ori_owner (BAOriEntry s) (ori_idx s) (numAsOriginator s)" using ori by (simp add: ori_inv_def)
  have len: "length (BAOriEntry s) = 128" using inv by (simp add: slot_inv_def)
  have idx: "ori_idx s' = ori_idx s" by (simp add: ori_idx_def s'(4) fun_eq_iff)
  have "slot_inv ori_used ori_owner (BAOriEntry s') (ori_idx s') (numAsOriginator s')"
    unfolding s'(1,2) idx by (rule slot_keep [OF inv i]) (use e in auto)
  moreover have st: "oe_Status (BAOriEntry s' ! j) = oe_Status (BAOriEntry s ! j)" if "j < 128" for j
    using that e len by (cases "j = i") (auto simp: s'(1))
  then have "slots ori_used (BAOriEntry s') = slots ori_used (BAOriEntry s)"
    "slots ori_done (BAOriEntry s') = slots ori_done (BAOriEntry s)" by (auto simp: slots_def)
  moreover have "oe_Status (BAOriEntry s' ! j) \<noteq> Originator_USED" if "j \<in> slots ori_used (BAOriEntry s)" for j
    using that ori st by (auto simp: ori_inv_def slots_def)
  moreover have "1 \<le> j \<and> oe_Status (BAOriEntry s' ! j) = Originator_WaitRes"
    if "j < 128" "oe_Timer (BAOriEntry s' ! j) \<noteq> None" for j
    using that ori e len by (cases "j = i") (auto simp: s'(1) ori_inv_def)
  moreover have "ori_idx s w t < 128" if "w < 32" "t < 8" for w t
    using inv that by (cases "ori_idx s w t = 0") (auto simp: slot_inv_def slots_def)
  ultimately show ?thesis using ori idx s'(3,4) st by (simp add: ori_inv_def)
qed

end
