(* ===== verification/BaOps.thy ===== *)
theory BaOps
  imports BaSession
begin

text \<open>
  Every operation on the block-acknowledgement tables keeps the invariant of \<open>BaSession\<close> and has, on the
  maps of sessions it represents, the effect its name announces.  The operations are the steps of a
  transition system whose reachable states all satisfy the invariant.
\<close>

section \<open>What an operation leaves alone\<close>

lemma ori_other:
  assumes "mac_inv s" "ori_inv s" "w < 32" "BAOriEntry s' = BAOriEntry s" "numAsOriginator s' = numAsOriginator s"
    "numDoneOriginator s' = numDoneOriginator s" "MacTab s' = (MacTab s)[w := m]"
    "BAOriWcidArray m = BAOriWcidArray (MacTab s ! w)" "TXBAbitmap m = TXBAbitmap (MacTab s ! w)"
  shows "ori_inv s' \<and> ori_sess s' = ori_sess s"
proof -
  have same: "BAOriWcidArray (MacTab s' ! v) = BAOriWcidArray (MacTab s ! v)
      \<and> TXBAbitmap (MacTab s' ! v) = TXBAbitmap (MacTab s ! v)" if "v < 32" for v
    using assms that by (cases "v = w") (auto simp: mac_inv_def)
  then have "ori_inv s'" by (rule ori_inv_frame [OF assms(2,4,5,6)])
  moreover have "ori_sess s' = ori_sess s"
    using same assms(4) by (auto simp: ori_sess_def sessions_def ori_idx_def fun_eq_iff)
  ultimately show ?thesis ..
qed

lemma rec_other:
  assumes "mac_inv s" "rec_inv s" "w < 32" "BARecEntry s' = BARecEntry s" "numAsRecipient s' = numAsRecipient s"
    "MacTab s' = (MacTab s)[w := m]"
    "BARecWcidArray m = BARecWcidArray (MacTab s ! w)" "RXBAbitmap m = RXBAbitmap (MacTab s ! w)"
  shows "rec_inv s' \<and> rec_sess s' = rec_sess s"
proof -
  have same: "BARecWcidArray (MacTab s' ! v) = BARecWcidArray (MacTab s ! v)
      \<and> RXBAbitmap (MacTab s' ! v) = RXBAbitmap (MacTab s ! v)" if "v < 32" for v
    using assms that by (cases "v = w") (auto simp: mac_inv_def)
  then have "rec_inv s'" by (rule rec_inv_frame [OF assms(2,4,5)])
  moreover have "rec_sess s' = rec_sess s"
    using same assms(4) by (auto simp: rec_sess_def sessions_def rec_idx_def fun_eq_iff)
  ultimately show ?thesis ..
qed

lemma table_invE:
  assumes "ba_table_inv s"
  obtains "mac_inv s" "rec_inv s" "ori_inv s" "list_inv (ba_Ctx s) (BARecEntry s)" "length (MacTab s) = 32"
    "length (BARecEntry s) = 128" "length (BAOriEntry s) = 128" "numAsRecipient s \<le> 127" "numAsOriginator s \<le> 127"
    "slot_inv rec_used rec_owner (BARecEntry s) (rec_idx s) (numAsRecipient s)"
    "slot_inv ori_used ori_owner (BAOriEntry s) (ori_idx s) (numAsOriginator s)"
proof -
  have parts: "mac_inv s" "rec_inv s" "ori_inv s" "list_inv (ba_Ctx s) (BARecEntry s)"
    using assms by (simp_all add: ba_table_inv_def)
  then have slots: "slot_inv rec_used rec_owner (BARecEntry s) (rec_idx s) (numAsRecipient s)"
    "slot_inv ori_used ori_owner (BAOriEntry s) (ori_idx s) (numAsOriginator s)"
    by (simp_all add: rec_inv_def ori_inv_def)
  moreover have "length (MacTab s) = 32" "length (BARecEntry s) = 128" "length (BAOriEntry s) = 128"
    using parts(1) slots by (simp_all add: mac_inv_def slot_inv_def)
  ultimately show thesis using that parts slot_count_le [OF slots(1)] slot_count_le [OF slots(2)] by blast
qed

lemma peer_arrays:
  assumes "mac_inv s" "w < 32"
  shows "arr (MacTab s) w = Some (MacTab s ! w)" "mc_Aid (MacTab s ! w) = w"
    "length (BARecWcidArray (MacTab s ! w)) = 8" "length (BAOriWcidArray (MacTab s ! w)) = 8"
    "length (TxSeq (MacTab s ! w)) = 8"
  using assms by (auto simp: mac_inv_def)

lemma peer_rec_idx:
  assumes "mac_inv s" "w < 32" "t < 8"
  shows "arr (BARecWcidArray (MacTab s ! w)) t = Some (rec_idx s w t)"
    "arr (BAOriWcidArray (MacTab s ! w)) t = Some (ori_idx s w t)"
  using assms by (auto simp: mac_inv_def rec_idx_def ori_idx_def)

lemma rec_session:
  assumes "rec_inv s" "w < 32" "t < 8" "rec_idx s w t \<noteq> 0"
  shows "rec_idx s w t < 128" "arr (BARecEntry s) (rec_idx s w t) = Some (BARecEntry s ! rec_idx s w t)"
    "re_Status (BARecEntry s ! rec_idx s w t) = Recipient_Accept" "re_Wcid (BARecEntry s ! rec_idx s w t) = w"
    "re_TID (BARecEntry s ! rec_idx s w t) = t"
  using assms by (auto simp: rec_inv_def slot_inv_def slots_def)

lemma ori_session:
  assumes "ori_inv s" "w < 32" "t < 8" "ori_idx s w t \<noteq> 0"
  shows "ori_idx s w t < 128" "1 \<le> ori_idx s w t"
    "arr (BAOriEntry s) (ori_idx s w t) = Some (BAOriEntry s ! ori_idx s w t)"
    "oe_Status (BAOriEntry s ! ori_idx s w t) \<in> {Originator_WaitRes, Originator_Done}"
    "oe_Wcid (BAOriEntry s ! ori_idx s w t) = w" "oe_TID (BAOriEntry s ! ori_idx s w t) = t"
proof -
  show "oe_Status (BAOriEntry s ! ori_idx s w t) \<in> {Originator_WaitRes, Originator_Done}"
    using assms by (cases "oe_Status (BAOriEntry s ! ori_idx s w t)") (auto simp: ori_inv_def slot_inv_def slots_def)
qed (use assms in \<open>auto simp: ori_inv_def slot_inv_def slots_def\<close>)

section \<open>Recipient sessions\<close>

lemma refresh_result:
  assumes "ba_ok c e"
  shows "ba_refresh_reordering_mpdus c e =
      (deliver (rl_next (re_list e)) c, e\<lparr>re_list := rl_of [], re_LastIndSeq := RESET_RCV_SEQ\<rparr>)"
    "ba_ok (deliver (rl_next (re_list e)) c) (e\<lparr>re_list := rl_of [], re_LastIndSeq := RESET_RCV_SEQ\<rparr>)"
proof -
  have L: "re_list e = rl_of (rl_next (re_list e))" using assms by (simp add: ba_ok_def)
  show 1: "ba_refresh_reordering_mpdus c e =
      (deliver (rl_next (re_list e)) c, e\<lparr>re_list := rl_of [], re_LastIndSeq := RESET_RCV_SEQ\<rparr>)"
    by (rule ba_refresh_reordering_mpdus_rl_of [OF L])
  show "ba_ok (deliver (rl_next (re_list e)) c) (e\<lparr>re_list := rl_of [], re_LastIndSeq := RESET_RCV_SEQ\<rparr>)"
    using refresh_conserves [OF assms] by (simp add: 1 conserves_def)
qed

text \<open>The entry that a granted request leaves behind.\<close>

definition granted :: "BA_ADAPTER \<Rightarrow> nat \<Rightarrow> FRAME_ADDBA_REQ \<Rightarrow> BA_REC_ENTRY \<Rightarrow> bool" where
  "granted s w f e \<longleftrightarrow> re_Status e = Recipient_Accept \<and> re_Wcid e = w \<and> re_TID e = req_TID f
    \<and> re_BAWinSize e = rec_winsize s f \<and> re_LastIndSeq e = RESET_RCV_SEQ \<and> re_list e = rl_of []"

lemma rec_add_new:
  assumes inv: "ba_table_inv s" and w: "w < 32" "req_TID f < 8" and none: "rec_idx s w (req_TID f) = 0"
    and free: "numAsRecipient s < 127"
  shows "\<exists>s' e. BARecSessionAdd s w f = Some (True, s') \<and> ba_table_inv s' \<and> granted s w f e
    \<and> rec_sess s' = (rec_sess s)((w, req_TID f) \<mapsto> e) \<and> ori_sess s' = ori_sess s"
proof -
  from inv show ?thesis
  proof (rule table_invE)
    assume mac: "mac_inv s" and rec: "rec_inv s" and ori: "ori_inv s" and lists: "list_inv (ba_Ctx s) (BARecEntry s)"
      and len: "length (MacTab s) = 32" "length (BARecEntry s) = 128"
      and slots: "slot_inv rec_used rec_owner (BARecEntry s) (rec_idx s) (numAsRecipient s)"
    let ?t = "req_TID f" and ?m = "MacTab s ! w"
    obtain i where i: "find (\<lambda>i. re_Status (BARecEntry s ! i) = Recipient_NONE) [1..<128] = Some i"
      "1 \<le> i" "i < 128" "re_Status (BARecEntry s ! i) = Recipient_NONE"
      using slot_free [OF slots free] by auto
    let ?e = "(BARecEntry s ! i)\<lparr>re_BAWinSize := rec_winsize s f, re_Wcid := w, re_TID := ?t,
      re_TimeOutValue := req_TimeOutValue f, re_Status := Recipient_Accept, re_LastIndSeq := RESET_RCV_SEQ\<rparr>"
    let ?m' = "?m\<lparr>RXBAbitmap := RXBAbitmap ?m OR tid_bit ?t, BARecWcidArray := (BARecWcidArray ?m)[?t := i],
      BADeclineBitmap := BADeclineBitmap ?m AND NOT (tid_bit ?t)\<rparr>"
    obtain s' where s': "BARecSessionAdd s w f = Some (True, s')" "BARecEntry s' = (BARecEntry s)[i := ?e]"
      "numAsRecipient s' = numAsRecipient s + 1" "MacTab s' = (MacTab s)[w := ?m']" "BAOriEntry s' = BAOriEntry s"
      "numAsOriginator s' = numAsOriginator s" "numDoneOriginator s' = numDoneOriginator s" "ba_Ctx s' = ba_Ctx s"
      using peer_arrays [OF mac w(1)] peer_rec_idx [OF mac w] none free i len
      by (simp add: BARecSessionAdd_def BATableAllocRecEntry_def Let_def)
    have "ba_ok (ba_Ctx s) (BARecEntry s ! i)" "rl_next (re_list (BARecEntry s ! i)) = []"
      using lists i len by (auto simp: list_inv_def)
    then have e: "granted s w f ?e" "ba_ok (ba_Ctx s) ?e" by (auto simp: granted_def ba_ok_def)
    have "mac_inv s'" by (rule mac_inv_upd [OF mac w(1) s'(4)]) (use peer_arrays [OF mac w(1)] in auto)
    moreover have "rec_inv s' \<and> rec_sess s' = (rec_sess s)((w, ?t) \<mapsto> ?e)"
      by (rule rec_claim [OF mac rec w none i(2,3,4) _ _ _ s'(2,3,4)]) auto
    moreover have "ori_inv s' \<and> ori_sess s' = ori_sess s"
      by (rule ori_other [OF mac ori w(1) s'(5,6,7,4)]) auto
    moreover have "list_inv (ba_Ctx s') (BARecEntry s')"
      unfolding s'(2,8) by (rule list_inv_upd [OF lists e(2)]) simp
    ultimately show ?thesis using s'(1) e(1) unfolding ba_table_inv_def by blast
  qed
qed

lemma rec_add_again:
  assumes inv: "ba_table_inv s" and w: "w < 32" "req_TID f < 8" and some: "rec_idx s w (req_TID f) \<noteq> 0"
  shows "\<exists>s' e. BARecSessionAdd s w f = Some (True, s') \<and> ba_table_inv s' \<and> granted s w f e
    \<and> rec_sess s' = (rec_sess s)((w, req_TID f) \<mapsto> e) \<and> ori_sess s' = ori_sess s"
proof -
  from inv show ?thesis
  proof (rule table_invE)
    assume mac: "mac_inv s" and rec: "rec_inv s" and ori: "ori_inv s" and lists: "list_inv (ba_Ctx s) (BARecEntry s)"
      and len: "length (MacTab s) = 32" "length (BARecEntry s) = 128"
    let ?t = "req_TID f" and ?m = "MacTab s ! w"
    define i where "i = rec_idx s w ?t"
    note se = rec_session [OF rec w some, folded i_def]
    let ?d = "BARecEntry s ! i"
    have ok: "ba_ok (ba_Ctx s) ?d" using lists se len by (auto simp: list_inv_def)
    let ?c = "deliver (rl_next (re_list ?d)) (ba_Ctx s)"
    let ?e = "?d\<lparr>re_list := rl_of [], re_BAWinSize := rec_winsize s f, re_Wcid := w, re_TID := ?t,
      re_TimeOutValue := req_TimeOutValue f, re_Status := Recipient_Accept, re_LastIndSeq := RESET_RCV_SEQ\<rparr>"
    let ?m' = "?m\<lparr>RXBAbitmap := RXBAbitmap ?m OR tid_bit ?t, BARecWcidArray := (BARecWcidArray ?m)[?t := i],
      BADeclineBitmap := BADeclineBitmap ?m AND NOT (tid_bit ?t)\<rparr>"
    obtain s' where s': "BARecSessionAdd s w f = Some (True, s')" "BARecEntry s' = (BARecEntry s)[i := ?e]"
      "numAsRecipient s' = numAsRecipient s" "MacTab s' = (MacTab s)[w := ?m']" "BAOriEntry s' = BAOriEntry s"
      "numAsOriginator s' = numAsOriginator s" "numDoneOriginator s' = numDoneOriginator s" "ba_Ctx s' = ?c"
      using peer_arrays [OF mac w(1)] peer_rec_idx [OF mac w] some se len refresh_result(1) [OF ok]
      by (simp add: BARecSessionAdd_def Let_def flip: i_def)
    have e: "granted s w f ?e" "ba_ok ?c ?e"
      using refresh_result(2) [OF ok] by (auto simp: granted_def ba_ok_def)
    have "mac_inv s'" by (rule mac_inv_upd [OF mac w(1) s'(4)]) (use peer_arrays [OF mac w(1)] in auto)
    moreover have "rec_inv s' \<and> rec_sess s' = (rec_sess s)((w, ?t) \<mapsto> ?e)"
      by (rule rec_update [OF mac rec w some _ _ _ _ s'(3,4)]) (auto simp: s'(2) simp flip: i_def)
    moreover have "ori_inv s' \<and> ori_sess s' = ori_sess s"
      by (rule ori_other [OF mac ori w(1) s'(5,6,7,4)]) auto
    moreover have "list_inv (ba_Ctx s') (BARecEntry s')"
      unfolding s'(2,8) by (rule list_inv_upd [OF lists e(2)]) simp
    ultimately show ?thesis using s'(1) e(1) unfolding ba_table_inv_def by blast
  qed
qed

text \<open>A request for a session that exists is granted; for a new one, if the table has room.\<close>

lemma rec_add:
  assumes inv: "ba_table_inv s" and w: "w < 32" "req_TID f < 8"
  shows "if rec_sess s (w, req_TID f) = None \<and> numAsRecipient s = 127 then BARecSessionAdd s w f = Some (False, s)
    else \<exists>s' e. BARecSessionAdd s w f = Some (True, s') \<and> ba_table_inv s' \<and> granted s w f e
      \<and> rec_sess s' = (rec_sess s)((w, req_TID f) \<mapsto> e) \<and> ori_sess s' = ori_sess s"
proof -
  have none: "rec_sess s (w, req_TID f) = None \<longleftrightarrow> rec_idx s w (req_TID f) = 0"
    using w by (simp add: rec_sess_def sessions_def)
  have mac: "mac_inv s" and n: "numAsRecipient s \<le> 127" using inv by (auto elim: table_invE)
  have "BARecSessionAdd s w f = Some (False, s)" if "rec_idx s w (req_TID f) = 0" "numAsRecipient s = 127"
    using that peer_arrays [OF mac w(1)] peer_rec_idx [OF mac w]
    by (simp add: BARecSessionAdd_def BATableAllocRecEntry_def Let_def)
  then show ?thesis
    using none n rec_add_new [OF inv w] rec_add_again [OF inv w] by (auto simp: order_le_less)
qed

text \<open>The entry and the peer after the session of peer \<open>w\<close> and TID \<open>t\<close> is torn down.\<close>

definition closed_rec :: "BA_REC_ENTRY \<Rightarrow> BA_REC_ENTRY" where
  "closed_rec e = e\<lparr>re_list := rl_of [], re_LastIndSeq := RESET_RCV_SEQ, re_BAWinSize := 0, re_Status := Recipient_NONE\<rparr>"

definition closed_peer :: "nat \<Rightarrow> MAC_TABLE_ENTRY \<Rightarrow> MAC_TABLE_ENTRY" where
  "closed_peer t m = m\<lparr>RXBAbitmap := RXBAbitmap m AND NOT (tid_bit t), BARecWcidArray := (BARecWcidArray m)[t := 0]\<rparr>"

lemma rec_teardown_state:
  assumes inv: "ba_table_inv s" and w: "w < 32" "t < 8" and go: "bPassive \<or> mem" and some: "rec_idx s w t \<noteq> 0"
  defines "i \<equiv> rec_idx s w t"
  shows "\<exists>s'. BARecSessionTearDown mem s w t bPassive = Some s' \<and> BARecEntry s' = (BARecEntry s)[i := closed_rec (BARecEntry s ! i)]
    \<and> numAsRecipient s' = numAsRecipient s - 1 \<and> MacTab s' = (MacTab s)[w := closed_peer t (MacTab s ! w)]
    \<and> BAOriEntry s' = BAOriEntry s \<and> numAsOriginator s' = numAsOriginator s \<and> numDoneOriginator s' = numDoneOriginator s
    \<and> ba_Ctx s' = deliver (rl_next (re_list (BARecEntry s ! i))) (ba_Ctx s)"
proof -
  from inv show ?thesis
  proof (rule table_invE)
    assume mac: "mac_inv s" and rec: "rec_inv s" and lists: "list_inv (ba_Ctx s) (BARecEntry s)"
      and len: "length (MacTab s) = 32" "length (BARecEntry s) = 128"
      and slots: "slot_inv rec_used rec_owner (BARecEntry s) (rec_idx s) (numAsRecipient s)"
    note se = rec_session [OF rec w some, folded i_def]
    let ?d = "BARecEntry s ! i" and ?m = "MacTab s ! w"
    let ?e = "?d\<lparr>re_list := rl_of [], re_LastIndSeq := RESET_RCV_SEQ, re_BAWinSize := 0\<rparr>"
    have ok: "ba_ok (ba_Ctx s) ?d" using lists se len by (auto simp: list_inv_def)
    have "numAsRecipient s \<noteq> 0" using slots se some i_def by (auto simp: slot_inv_def slots_def)
    then have sub: "uint_sub (numAsRecipient s) 1 = numAsRecipient s - 1" by simp
    define s0 where "s0 = (if bPassive then s else ba_emit (MlmeDELBAAction w t RECIPIENT) s)"
    have s0: "BARecEntry s0 = BARecEntry s" "MacTab s0 = MacTab s" "BAOriEntry s0 = BAOriEntry s" "ba_Ctx s0 = ba_Ctx s"
      "numAsRecipient s0 = numAsRecipient s" "numAsOriginator s0 = numAsOriginator s" "numDoneOriginator s0 = numDoneOriginator s"
      by (simp_all add: s0_def)
    define s1 where "s1 = ba_emit (DelAsicSession w t) (upd_Mac w (\<lambda>m. m\<lparr>RXBAbitmap := RXBAbitmap m AND NOT (tid_bit t),
      BARecWcidArray := (BARecWcidArray m)[t := 0]\<rparr>)
      (upd_Rec i (\<lambda>_. ?e) (s0\<lparr>ba_Ctx := deliver (rl_next (re_list ?d)) (ba_Ctx s)\<rparr>)))"
    have "BARecSessionTearDown mem s w t bPassive = BATableFreeRecEntry s1 i"
      using peer_arrays(1) [OF mac w(1)] peer_rec_idx(1) [OF mac w, folded i_def] some se(2,3,5) w refresh_result(1) [OF ok] go s0
      by (simp add: BARecSessionTearDown_def s1_def i_def [symmetric] s0_def [symmetric] Let_def) blast
    moreover have "arr (BARecEntry s1) i = Some ?e" "arr (MacTab s1) w = Some (closed_peer t ?m)"
      "numAsRecipient s1 = numAsRecipient s" using se(1) len w s0 by (simp_all add: s1_def closed_peer_def)
    ultimately show ?thesis
      using peer_arrays(3) [OF mac w(1)] some se(1,3,4,5) len w sub s0
      by (simp add: BATableFreeRecEntry_def s1_def i_def [symmetric] closed_rec_def closed_peer_def)
  qed
qed

lemma rec_teardown:
  assumes inv: "ba_table_inv s" and w: "w < 32" "t < 8" and go: "bPassive \<or> mem"
  shows "\<exists>s'. BARecSessionTearDown mem s w t bPassive = Some s' \<and> ba_table_inv s'
    \<and> rec_sess s' = (rec_sess s)((w, t) := None) \<and> ori_sess s' = ori_sess s"
proof (cases "rec_idx s w t = 0")
  case True
  have mac: "mac_inv s" using inv by (auto elim: table_invE)
  have "rec_sess s (w, t) = None" using True by (simp add: rec_sess_def sessions_def)
  moreover have "BARecSessionTearDown mem s w t bPassive = Some s"
    using True w peer_arrays [OF mac w(1)] peer_rec_idx [OF mac w] by (simp add: BARecSessionTearDown_def)
  ultimately show ?thesis using inv by (auto simp: fun_upd_idem)
next
  case some: False
  from inv have mac: "mac_inv s" and rec: "rec_inv s" and ori: "ori_inv s" and lists: "list_inv (ba_Ctx s) (BARecEntry s)"
    and len: "length (BARecEntry s) = 128" by (auto elim: table_invE)
  define i where "i = rec_idx s w t"
  note se = rec_session [OF rec w some, folded i_def]
  let ?d = "BARecEntry s ! i"
  have ok: "ba_ok (ba_Ctx s) ?d" using lists se len by (auto simp: list_inv_def)
  obtain s' where s': "BARecSessionTearDown mem s w t bPassive = Some s'" "BARecEntry s' = (BARecEntry s)[i := closed_rec ?d]"
    "numAsRecipient s' = numAsRecipient s - 1" "MacTab s' = (MacTab s)[w := closed_peer t (MacTab s ! w)]"
    "BAOriEntry s' = BAOriEntry s" "numAsOriginator s' = numAsOriginator s" "numDoneOriginator s' = numDoneOriginator s"
    "ba_Ctx s' = deliver (rl_next (re_list ?d)) (ba_Ctx s)"
    using rec_teardown_state [OF inv w go some, folded i_def] by blast
  have e: "ba_ok (ba_Ctx s') (closed_rec ?d)" using refresh_result(2) [OF ok] by (auto simp: ba_ok_def closed_rec_def s'(8))
  have "mac_inv s'" by (rule mac_inv_upd [OF mac w(1) s'(4)]) (use peer_arrays [OF mac w(1)] in \<open>auto simp: closed_peer_def\<close>)
  moreover have "rec_inv s' \<and> rec_sess s' = (rec_sess s)((w, t) := None)"
    by (rule rec_release [OF mac rec w some _ _ s'(3,4)]) (auto simp: s'(2) closed_rec_def closed_peer_def simp flip: i_def)
  moreover have "ori_inv s' \<and> ori_sess s' = ori_sess s"
    by (rule ori_other [OF mac ori w(1) s'(5,6,7,4)]) (auto simp: closed_peer_def)
  moreover have "list_inv (ba_Ctx s') (BARecEntry s')"
    unfolding s'(2) by (rule list_inv_upd [OF lists e]) (simp add: closed_rec_def)
  ultimately show ?thesis using s'(1) unfolding ba_table_inv_def by blast
qed

section \<open>Originator sessions\<close>

text \<open>The entry and the peer of an originator session that is given up.\<close>

definition closed_ori :: "BA_ORI_ENTRY \<Rightarrow> BA_ORI_ENTRY" where
  "closed_ori e = e\<lparr>oe_Status := Originator_NONE, oe_Token := 0\<rparr>"

definition ori_closed_peer :: "BA_ORI_ENTRY \<Rightarrow> MAC_TABLE_ENTRY \<Rightarrow> MAC_TABLE_ENTRY" where
  "ori_closed_peer e m = m\<lparr>BAOriWcidArray := (BAOriWcidArray m)[oe_TID e := 0],
    TXBAbitmap := (if ori_done e then TXBAbitmap m AND NOT (tid_bit (oe_TID e)) else TXBAbitmap m)\<rparr>"

lemma ori_free:
  assumes inv: "ba_table_inv s" and w: "w < 32" "t < 8" and some: "ori_idx s w t \<noteq> 0"
    and timer: "oe_Timer (BAOriEntry s ! ori_idx s w t) = None"
  shows "\<exists>s'. BATableFreeOriEntry s (ori_idx s w t) = Some s' \<and> ba_table_inv s'
    \<and> ori_sess s' = (ori_sess s)((w, t) := None) \<and> rec_sess s' = rec_sess s"
proof -
  from inv have mac: "mac_inv s" and rec: "rec_inv s" and ori: "ori_inv s" and lists: "list_inv (ba_Ctx s) (BARecEntry s)"
    and len: "length (BAOriEntry s) = 128" "length (MacTab s) = 32"
    and slots: "slot_inv ori_used ori_owner (BAOriEntry s) (ori_idx s) (numAsOriginator s)" by (auto elim: table_invE)
  define i where "i = ori_idx s w t"
  note se = ori_session [OF ori w some, folded i_def]
  let ?e = "BAOriEntry s ! i" and ?m = "MacTab s ! w"
  have used: "oe_Status ?e \<noteq> Originator_NONE" using se(4) by auto
  then have "i \<in> slots ori_used (BAOriEntry s)" using se by (simp add: slots_def)
  then have "numAsOriginator s \<noteq> 0" using slots by (auto simp: slot_inv_def)
  moreover have "numDoneOriginator s \<noteq> 0" if "ori_done ?e"
  proof -
    have "i \<in> slots ori_done (BAOriEntry s)" using that se by (simp add: slots_def)
    then show ?thesis using ori by (auto simp: ori_inv_def)
  qed
  ultimately obtain s' where s': "BATableFreeOriEntry s i = Some s'" "BAOriEntry s' = (BAOriEntry s)[i := closed_ori ?e]"
    "numAsOriginator s' = numAsOriginator s - 1"
    "numDoneOriginator s' = numDoneOriginator s - (if ori_done ?e then 1 else 0)"
    "MacTab s' = (MacTab s)[w := ori_closed_peer ?e ?m]" "BARecEntry s' = BARecEntry s"
    "numAsRecipient s' = numAsRecipient s" "ba_Ctx s' = ba_Ctx s"
    using peer_arrays(1,4) [OF mac w(1)] w se(1,2,3,5,6) used len
    by (cases "ori_done ?e") (simp_all add: BATableFreeOriEntry_def closed_ori_def ori_closed_peer_def Let_def)
  have "mac_inv s'"
    by (rule mac_inv_upd [OF mac w(1) s'(5)]) (use peer_arrays [OF mac w(1)] in \<open>auto simp: ori_closed_peer_def\<close>)
  moreover have "ori_inv s' \<and> ori_sess s' = (ori_sess s)((w, t) := None)"
    by (rule ori_release [OF mac ori w some _ _ _ s'(3) _ s'(5)])
      (use timer se in \<open>auto simp: s'(2,4) closed_ori_def ori_closed_peer_def simp flip: i_def\<close>)
  moreover have "rec_inv s' \<and> rec_sess s' = rec_sess s"
    by (rule rec_other [OF mac rec w(1) s'(6,7,5)]) (auto simp: ori_closed_peer_def)
  ultimately show ?thesis using s'(1,6,8) lists unfolding ba_table_inv_def i_def by auto
qed

text \<open>A change of the timer or the retry counter of an entry.\<close>

lemma ori_touch:
  assumes inv: "ba_table_inv s" and i: "i < 128"
    and g: "\<And>e. oe_Status (g e) = oe_Status e \<and> oe_Wcid (g e) = oe_Wcid e \<and> oe_TID (g e) = oe_TID e"
    and timer: "oe_Timer (g (BAOriEntry s ! i)) = None \<or> 1 \<le> i \<and> oe_Status (BAOriEntry s ! i) = Originator_WaitRes"
  shows "ba_table_inv (upd_Ori i g s)" "rec_sess (upd_Ori i g s) = rec_sess s"
    "ori_idx (upd_Ori i g s) = ori_idx s"
proof -
  from inv have mac: "mac_inv s" and rec: "rec_inv s" and ori: "ori_inv s" and lists: "list_inv (ba_Ctx s) (BARecEntry s)"
    by (auto elim: table_invE)
  have "ori_inv (upd_Ori i g s)"
    by (rule ori_keep [OF ori i, of "g (BAOriEntry s ! i)"]) (use g timer in auto)
  moreover have "mac_inv (upd_Ori i g s)" using mac by (simp add: mac_inv_def)
  moreover have "rec_inv (upd_Ori i g s)" by (rule rec_inv_frame [OF rec]) auto
  ultimately show "ba_table_inv (upd_Ori i g s)" using lists by (simp add: ba_table_inv_def)
  show "rec_sess (upd_Ori i g s) = rec_sess s" "ori_idx (upd_Ori i g s) = ori_idx s"
    by (simp_all add: rec_sess_def sessions_def rec_idx_def ori_idx_def fun_eq_iff)
qed

lemma ori_sess_touch:
  assumes "ba_table_inv s" "w < 32" "t < 8" "ori_idx s w t \<noteq> 0"
  shows "ori_sess (upd_Ori (ori_idx s w t) g s) = (ori_sess s)((w, t) \<mapsto> g (BAOriEntry s ! ori_idx s w t))"
proof -
  have "slot_inv ori_used ori_owner (BAOriEntry s) (ori_idx s) (numAsOriginator s)" using assms(1) by (rule table_invE)
  moreover have "ori_idx (upd_Ori (ori_idx s w t) g s) = ori_idx s" by (simp add: ori_idx_def fun_eq_iff)
  ultimately show ?thesis
    using sessions_update [of ori_used ori_owner "BAOriEntry s" "ori_idx s"] assms(2-4) by (simp add: ori_sess_def)
qed

lemma emit_sess [simp]: "rec_sess (ba_emit ev s) = rec_sess s" "ori_sess (ba_emit ev s) = ori_sess s"
  "ori_idx (ba_emit ev s) = ori_idx s" "rec_idx (ba_emit ev s) = rec_idx s"
  by (simp_all add: rec_sess_def ori_sess_def sessions_def rec_idx_def ori_idx_def fun_eq_iff)

lemma ori_teardown:
  assumes inv: "ba_table_inv s" and w: "w < 32" "t < 8" and go: "bPassive \<or> mem"
  shows "\<exists>s'. BAOriSessionTearDown mem s w t bPassive bForce = Some s' \<and> ba_table_inv s'
    \<and> ori_sess s' = (ori_sess s)((w, t) := None) \<and> rec_sess s' = rec_sess s"
proof -
  from inv have mac: "mac_inv s" and ori: "ori_inv s" by (auto elim: table_invE)
  note peer = peer_arrays(1) [OF mac w(1)] peer_rec_idx(2) [OF mac w]
  show ?thesis
  proof (cases "ori_idx s w t = 0")
    case True
    then have "ori_sess s (w, t) = None" by (simp add: ori_sess_def sessions_def)
    then show ?thesis
      using True w inv peer by (auto simp: BAOriSessionTearDown_def fun_upd_idem)
  next
    case some: False
    define i where "i = ori_idx s w t"
    note se = ori_session [OF ori w some, folded i_def]
    define s0 where "s0 = (if \<not> bPassive \<and> oe_Status (BAOriEntry s ! i) = Originator_Done
      then ba_emit (MlmeDELBAAction w t ORIGINATOR) s else s)"
    define s1 where "s1 = upd_Ori i (\<lambda>e. e\<lparr>oe_Timer := None\<rparr>) s0"
    have s0: "ba_table_inv s0" "ori_sess s0 = ori_sess s" "rec_sess s0 = rec_sess s" "ori_idx s0 = ori_idx s"
      "BAOriEntry s0 = BAOriEntry s" using inv by (simp_all add: s0_def)
    have s1: "ba_table_inv s1" "rec_sess s1 = rec_sess s" "ori_idx s1 = ori_idx s"
      using ori_touch [OF s0(1) se(1), of "\<lambda>e. e\<lparr>oe_Timer := None\<rparr>"] s0 by (simp_all add: s1_def)
    have sess1: "ori_sess s1 = (ori_sess s)((w, t) \<mapsto> (BAOriEntry s ! i)\<lparr>oe_Timer := None\<rparr>)"
      using ori_sess_touch [OF s0(1) w, of "\<lambda>e. e\<lparr>oe_Timer := None\<rparr>"] some s0 by (simp add: s1_def i_def)
    have "length (BAOriEntry s) = 128" using inv by (rule table_invE)
    then have "oe_Timer (BAOriEntry s1 ! ori_idx s1 w t) = None" using se(1) s0(5) s1(3) by (simp add: s1_def i_def [symmetric])
    then obtain s' where s': "BATableFreeOriEntry s1 i = Some s'" "ba_table_inv s'"
      "ori_sess s' = (ori_sess s)((w, t) := None)" "rec_sess s' = rec_sess s"
      using ori_free [OF s1(1) w] some s1 sess1 by (auto simp: i_def)
    have "BAOriSessionTearDown mem s w t bPassive bForce = BATableFreeOriEntry s1 i"
      using peer se w some go
      by (auto simp: BAOriSessionTearDown_def s1_def s0_def Let_def simp flip: i_def)
    then show ?thesis using s' by simp
  qed
qed

lemma cfg_sels [simp]:
  "RxBAWinLimit (upd_Mac w h s) = RxBAWinLimit s" "RxBAWinLimit (upd_Ori i g s) = RxBAWinLimit s"
  "RxBAWinLimit (upd_Rec i f s) = RxBAWinLimit s" "RxBAWinLimit (ba_emit ev s) = RxBAWinLimit s"
  "MonitorOn (upd_Ori i g s) = MonitorOn s" "ScanBusy (upd_Ori i g s) = ScanBusy s"
  by (simp_all add: upd_Mac_def upd_Ori_def upd_Rec_def ba_emit_def)

lemma ori_teardown_safe:
  assumes inv: "ba_table_inv s" and w: "w < 32" "t < 8"
  shows "\<exists>s'. BAOriSessionTearDown mem s w t bPassive bForce = Some s' \<and> ba_table_inv s'"
proof (cases "bPassive \<or> mem")
  case True
  then show ?thesis using ori_teardown [OF inv w] by blast
next
  case False
  from inv have mac: "mac_inv s" and ori: "ori_inv s" by (auto elim: table_invE)
  note peer = peer_arrays(1) [OF mac w(1)] peer_rec_idx(2) [OF mac w]
  show ?thesis
  proof (cases "ori_idx s w t \<noteq> 0 \<and> oe_Status (BAOriEntry s ! ori_idx s w t) = Originator_WaitRes")
    case wait: True
    then have "BAOriSessionTearDown mem s w t bPassive bForce = BAOriSessionTearDown True s w t bPassive bForce"
      using False peer w ori_session [OF ori w] by (auto simp: BAOriSessionTearDown_def Let_def)
    then show ?thesis using ori_teardown [OF inv w, of bPassive True] by auto
  next
    case False
    then have "BAOriSessionTearDown mem s w t bPassive bForce = Some s"
      using \<open>\<not> (bPassive \<or> mem)\<close> peer w ori_session [OF ori w] by (auto simp: BAOriSessionTearDown_def)
    then show ?thesis using inv by blast
  qed
qed

lemma rec_teardown_safe:
  assumes inv: "ba_table_inv s" and w: "w < 32" "t < 8"
  shows "\<exists>s'. BARecSessionTearDown mem s w t bPassive = Some s' \<and> ba_table_inv s'"
proof (cases "bPassive \<or> mem")
  case True
  then show ?thesis using rec_teardown [OF inv w] by blast
next
  case False
  from inv have mac: "mac_inv s" and rec: "rec_inv s" by (auto elim: table_invE)
  have "BARecSessionTearDown mem s w t bPassive = Some s"
    using False peer_arrays(1) [OF mac w(1)] peer_rec_idx(1) [OF mac w] w rec_session [OF rec w]
    by (auto simp: BARecSessionTearDown_def)
  then show ?thesis using inv by blast
qed

text \<open>Set-up claims an entry for a session that is not there yet, and does nothing otherwise.\<close>

lemma ori_setup:
  assumes inv: "ba_table_inv s" and w: "w < 32"
  shows "\<exists>s'. BAOriSessionSetUp s w t TimeOut Delay forced = Some s' \<and> ba_table_inv s' \<and> rec_sess s' = rec_sess s
    \<and> (ori_sess s' = ori_sess s \<or> t < 8 \<and> ori_sess s (w, t) = None
        \<and> (\<exists>e. ori_sess s' = (ori_sess s)((w, t) \<mapsto> e) \<and> oe_Status e = Originator_WaitRes \<and> oe_Timer e \<noteq> None))"
proof (cases "t < 8 \<and> (AutoBA s \<or> forced) \<and> FixedTxModeHT s \<and> ori_idx s w t = 0 \<and> numAsOriginator s < 127")
  case False
  from inv have mac: "mac_inv s" and ori: "ori_inv s" by (auto elim: table_invE)
  have "BAOriSessionSetUp s w t TimeOut Delay forced = Some s"
    using False peer_arrays(1) [OF mac w] peer_rec_idx(2) [OF mac w, of t] ori_session(3,4) [OF ori w, of t]
    by (auto simp: BAOriSessionSetUp_def BATableAllocOriEntry_def Let_def)
  then show ?thesis using inv by blast
next
  case True
  then have t: "t < 8" and none: "ori_idx s w t = 0" and free: "numAsOriginator s < 127" by auto
  from inv have mac: "mac_inv s" and rec: "rec_inv s" and ori: "ori_inv s" and lists: "list_inv (ba_Ctx s) (BARecEntry s)"
    and len: "length (BAOriEntry s) = 128" "length (MacTab s) = 32"
    and slots: "slot_inv ori_used ori_owner (BAOriEntry s) (ori_idx s) (numAsOriginator s)" by (auto elim: table_invE)
  obtain i where i: "find (\<lambda>i. oe_Status (BAOriEntry s ! i) = Originator_NONE) [1..<128] = Some i"
    "1 \<le> i" "i < 128" "oe_Status (BAOriEntry s ! i) = Originator_NONE"
    using slot_free [OF slots free] by auto
  let ?m = "MacTab s ! w"
  let ?d = "if BADeclineBitmap ?m AND tid_bit t \<noteq> 0 \<and> \<not> forced then 3000 else Delay"
  let ?e = "(BAOriEntry s ! i)\<lparr>oe_Status := Originator_WaitRes, oe_Wcid := w, oe_BAWinSize := RxBAWinLimit s,
    oe_Sequence := TxSeq ?m ! t, oe_Token := 1, oe_TID := t, oe_TimeOutValue := TimeOut, oe_Timer := Some ?d\<rparr>"
  let ?m' = "?m\<lparr>BAOriWcidArray := (BAOriWcidArray ?m)[t := i]\<rparr>"
  obtain s' where s': "BAOriSessionSetUp s w t TimeOut Delay forced = Some s'" "BAOriEntry s' = (BAOriEntry s)[i := ?e]"
    "numAsOriginator s' = numAsOriginator s + 1" "numDoneOriginator s' = numDoneOriginator s"
    "MacTab s' = (MacTab s)[w := ?m']" "BARecEntry s' = BARecEntry s" "numAsRecipient s' = numAsRecipient s" "ba_Ctx s' = ba_Ctx s"
    using True i len peer_arrays [OF mac w] peer_rec_idx(2) [OF mac w t]
    by (cases forced) (simp_all add: BAOriSessionSetUp_def BATableAllocOriEntry_def Let_def)
  have "mac_inv s'" by (rule mac_inv_upd [OF mac w s'(5)]) (use peer_arrays [OF mac w] in auto)
  moreover have claim: "ori_inv s' \<and> ori_sess s' = (ori_sess s)((w, t) \<mapsto> ?e)"
    by (rule ori_claim [OF mac ori w t none i(2,3,4) _ _ _ s'(2,3,4,5)]) auto
  moreover have "rec_inv s' \<and> rec_sess s' = rec_sess s" by (rule rec_other [OF mac rec w s'(6,7,5)]) auto
  ultimately have "ba_table_inv s'" "rec_sess s' = rec_sess s" using lists s'(6,8) by (auto simp: ba_table_inv_def)
  moreover have "ori_sess s (w, t) = None" using none by (simp add: ori_sess_def sessions_def)
  moreover have "oe_Status ?e = Originator_WaitRes" "oe_Timer ?e \<noteq> None" by simp_all
  ultimately show ?thesis using s'(1) t claim by blast
qed

text \<open>A positive response establishes a session that waits for one, and does nothing otherwise.\<close>

lemma ori_add:
  assumes inv: "ba_table_inv s" and w: "w < 32" "rsp_TID f < 8"
  shows "\<exists>s'. BAOriSessionAdd mem s w f = Some s' \<and> ba_table_inv s' \<and> rec_sess s' = rec_sess s
    \<and> (ori_sess s' = ori_sess s \<or> (\<exists>e d. ori_sess s (w, rsp_TID f) = Some d \<and> oe_Status d = Originator_WaitRes
        \<and> ori_sess s' = (ori_sess s)((w, rsp_TID f) \<mapsto> e) \<and> oe_Status e = Originator_Done))"
proof -
  let ?t = "rsp_TID f" and ?m = "MacTab s ! w"
  from inv have mac: "mac_inv s" and rec: "rec_inv s" and ori: "ori_inv s" and lists: "list_inv (ba_Ctx s) (BARecEntry s)"
    and len: "length (BAOriEntry s) = 128" "length (MacTab s) = 32" by (auto elim: table_invE)
  define i where "i = ori_idx s w ?t"
  note se = ori_session [OF ori w, folded i_def]
  have i: "i < 128" using se(1) by (cases "i = 0") auto
  note peer = peer_arrays [OF mac w(1)] peer_rec_idx(2) [OF mac w, folded i_def]
  show ?thesis
  proof (cases "i \<noteq> 0 \<and> oe_Status (BAOriEntry s ! i) = Originator_WaitRes")
    case False
    then have "BAOriSessionAdd mem s w f = Some s" using peer i len by (auto simp: BAOriSessionAdd_def Let_def)
    then show ?thesis using inv by blast
  next
    case True
    then have some: "ori_idx s w ?t \<noteq> 0" and wait: "oe_Status (BAOriEntry s ! ori_idx s w ?t) = Originator_WaitRes"
      by (simp_all add: i_def)
    have wcid: "oe_Wcid (BAOriEntry s ! i) = w" "oe_TID (BAOriEntry s ! i) = ?t" using se True by auto
    have "(ori_sess s) (w, ?t) = Some (BAOriEntry s ! i)" using some w by (simp add: ori_sess_def sessions_def i_def)
    let ?b = "word_of_nat (rsp_BufSize f) :: UINT8"
    let ?e = "(BAOriEntry s ! i)\<lparr>oe_BAWinSize := BA_MaxWinSizeReasign s ?m (min (oe_BAWinSize (BAOriEntry s ! i))
        (if ?b > 0 then ?b - 1 else 0)), oe_TimeOutValue := rsp_TimeOutValue f, oe_Status := Originator_Done,
        oe_Sequence := TxSeq ?m ! ?t, oe_Timer := None\<rparr>"
    let ?m' = "?m\<lparr>TXBAbitmap := TXBAbitmap ?m OR tid_bit ?t\<rparr>"
    have "slots ori_done (BAOriEntry s) \<subseteq> {1..<128}" by (auto simp: slots_def)
    from card_mono [OF _ this] have "card (slots ori_done (BAOriEntry s)) \<le> 127" by simp
    then have add: "uint_add (numDoneOriginator s) 1 = numDoneOriginator s + 1" using ori by (simp add: ori_inv_def)
    obtain s' where s': "BAOriSessionAdd mem s w f = Some s'" "BAOriEntry s' = (BAOriEntry s)[i := ?e]"
      "numAsOriginator s' = numAsOriginator s" "numDoneOriginator s' = numDoneOriginator s + 1"
      "MacTab s' = (MacTab s)[w := ?m']" "BARecEntry s' = BARecEntry s" "numAsRecipient s' = numAsRecipient s" "ba_Ctx s' = ba_Ctx s"
      using True peer i len w wcid add by (cases mem) (simp_all add: BAOriSessionAdd_def Let_def)
    have "mac_inv s'" by (rule mac_inv_upd [OF mac w(1) s'(5)]) (use peer in auto)
    moreover have upd: "ori_inv s' \<and> ori_sess s' = (ori_sess s)((w, ?t) \<mapsto> ?e)"
      by (rule ori_update [OF mac ori w some wait _ _ _ _ _ s'(3,4,5)]) (use wcid in \<open>auto simp: s'(2) simp flip: i_def\<close>)
    moreover have "rec_inv s' \<and> rec_sess s' = rec_sess s" by (rule rec_other [OF mac rec w(1) s'(6,7,5)]) auto
    ultimately have "ba_table_inv s'" "rec_sess s' = rec_sess s" using lists s'(6,8) by (auto simp: ba_table_inv_def)
    moreover have "oe_Status ?e = Originator_Done" by simp
    ultimately show ?thesis using s'(1) upd True \<open>(ori_sess s) (w, ?t) = Some (BAOriEntry s ! i)\<close> by blast
  qed
qed

lemma ori_timeout:
  assumes inv: "ba_table_inv s" and i: "i < 128" "oe_Timer (BAOriEntry s ! i) \<noteq> None"
  shows "\<exists>s'. BAOriSessionSetupTimeout s i = Some s' \<and> ba_table_inv s' \<and> rec_sess s' = rec_sess s"
proof -
  from inv have mac: "mac_inv s" and ori: "ori_inv s" and len: "length (BAOriEntry s) = 128"
    and slots: "slot_inv ori_used ori_owner (BAOriEntry s) (ori_idx s) (numAsOriginator s)" by (auto elim: table_invE)
  let ?e = "BAOriEntry s ! i"
  have wait: "1 \<le> i" "oe_Status ?e = Originator_WaitRes" using ori i by (auto simp: ori_inv_def)
  then have "i \<in> slots ori_used (BAOriEntry s)" using i by (simp add: slots_def)
  then have own: "oe_Wcid ?e < 32" "oe_TID ?e < 8" "ori_idx s (oe_Wcid ?e) (oe_TID ?e) = i"
    using slots by (auto simp: slot_inv_def)
  define s1 where "s1 = upd_Ori i (\<lambda>e. e\<lparr>oe_Timer := None\<rparr>) s"
  have s1: "ba_table_inv s1" "rec_sess s1 = rec_sess s" "ori_idx s1 = ori_idx s"
    using ori_touch [OF inv i(1), of "\<lambda>e. e\<lparr>oe_Timer := None\<rparr>"] by (simp_all add: s1_def)
  have e1: "BAOriEntry s1 ! i = ?e\<lparr>oe_Timer := None\<rparr>" using i len by (simp add: s1_def)
  have scan: "ba_table_inv (upd_Ori i (\<lambda>e. e\<lparr>oe_Timer := Some 2000\<rparr>) s1)"
    "rec_sess (upd_Ori i (\<lambda>e. e\<lparr>oe_Timer := Some 2000\<rparr>) s1) = rec_sess s"
    using ori_touch [OF s1(1) i(1), of "\<lambda>e. e\<lparr>oe_Timer := Some 2000\<rparr>"] wait e1 s1(2) by auto
  have send: "ba_table_inv (upd_Ori i (\<lambda>e. e\<lparr>oe_Token := oe_Token e + 1, oe_Timer := Some 2000\<rparr>) (ba_emit ev s1))"
    "rec_sess (upd_Ori i (\<lambda>e. e\<lparr>oe_Token := oe_Token e + 1, oe_Timer := Some 2000\<rparr>) (ba_emit ev s1)) = rec_sess s" for ev
    using ori_touch [OF _ i(1), of "ba_emit ev s1" "\<lambda>e. e\<lparr>oe_Token := oe_Token e + 1, oe_Timer := Some 2000\<rparr>"]
      wait e1 s1 by auto
  have idx1: "ori_idx s1 (oe_Wcid ?e) (oe_TID ?e) = i" using own s1(3) by simp
  obtain s' where give_up: "BATableFreeOriEntry s1 i = Some s'" "ba_table_inv s'" "rec_sess s' = rec_sess s"
    using ori_free [OF s1(1) own(1,2)] idx1 wait(1) e1 s1(2) by auto
  have "arr (BAOriEntry s) i = Some ?e" using i len by simp
  moreover note peer_arrays(1) [OF mac own(1)] peer_rec_idx(2) [OF mac own(1,2)]
  ultimately show ?thesis
    using scan send give_up own s1(1,2) wait
    by (auto simp: BAOriSessionSetupTimeout_def Let_def simp flip: s1_def) (auto simp: s1_def)
qed

section \<open>Reception\<close>

text \<open>What identifies a session is not touched by reception.\<close>

definition entry_key :: "BA_REC_ENTRY \<Rightarrow> REC_BLOCKACK_STATUS \<times> nat \<times> nat" where
  "entry_key e = (re_Status e, re_Wcid e, re_TID e)"

lemma entry_key_upd [simp]:
  "entry_key (e\<lparr>re_list := L\<rparr>) = entry_key e" "entry_key (e\<lparr>re_LastIndSeq := q\<rparr>) = entry_key e"
  "entry_key (e\<lparr>re_LastIndSeqAtTimer := x\<rparr>) = entry_key e" "entry_key (e\<lparr>re_rcvSeq := q\<rparr>) = entry_key e"
  "entry_key (e\<lparr>re_nDropPacket := x\<rparr>) = entry_key e" "entry_key (set_LastIndSeq q e) = entry_key e"
  by (simp_all add: entry_key_def set_LastIndSeq_def)

lemma refresh_loop_key: "entry_key (snd (refresh_loop c e)) = entry_key e"
  by (induction c e rule: refresh_loop.induct) (subst refresh_loop.simps, auto split: prod.splits option.splits)

lemma loops_key:
  "ba_indicate_reordering_mpdus_in_order c e q = Some (l, c', e') \<Longrightarrow> entry_key e' = entry_key e"
  "ba_indicate_reordering_mpdus_le_seq c e q = Some (c', e') \<Longrightarrow> entry_key e' = entry_key e"
  "ba_refresh_reordering_mpdus c e = (c', e') \<Longrightarrow> entry_key e' = entry_key e"
  using refresh_loop_key [of c e]
  by (auto simp: ba_indicate_reordering_mpdus_in_order_def ba_indicate_reordering_mpdus_le_seq_def
      ba_refresh_reordering_mpdus_def split: prod.splits)

lemma flush_key: "ba_flush_reordering_timeout_mpdus hz c e now = Some (c', e') \<Longrightarrow> entry_key e' = entry_key e"
  by (auto simp: ba_flush_reordering_timeout_mpdus_def Let_def dest!: loops_key split: if_splits option.splits prod.splits)

lemma enqueue_key: "ba_enqueue_reordering_packet c e rx = Some (c', e') \<Longrightarrow> entry_key e' = entry_key e"
  by (auto simp: ba_enqueue_reordering_packet_def Let_def dest!: loops_key split: option.splits prod.splits bool.splits)

lemma session_key: "ampdu_session hz c e rx now = Some (c', e') \<Longrightarrow> entry_key e' = entry_key e"
  by (auto simp: ampdu_session_def ampdu_cases_def ampdu_in_order_def ampdu_surpass_def drop_frame_def Let_def
      dest!: loops_key flush_key enqueue_key split: if_splits option.splits prod.splits)

lemma rx_change:
  assumes inv: "ba_table_inv s" and i: "i < 128" and e: "ba_ok c e" "entry_key e = entry_key (BARecEntry s ! i)"
    "re_Status e = Recipient_NONE \<Longrightarrow> rl_next (re_list e) = []"
  shows "ba_table_inv (upd_Rec i (\<lambda>_. e) (s\<lparr>ba_Ctx := c\<rparr>))"
proof -
  from inv have mac: "mac_inv s" and rec: "rec_inv s" and ori: "ori_inv s" and lists: "list_inv (ba_Ctx s) (BARecEntry s)"
    by (auto elim: table_invE)
  have "rec_inv (upd_Rec i (\<lambda>_. e) (s\<lparr>ba_Ctx := c\<rparr>))"
    by (rule rec_keep [OF rec i, of e]) (use e(2) in \<open>auto simp: entry_key_def\<close>)
  moreover have "mac_inv (upd_Rec i (\<lambda>_. e) (s\<lparr>ba_Ctx := c\<rparr>))" using mac by (simp add: mac_inv_def)
  moreover have "ori_inv (upd_Rec i (\<lambda>_. e) (s\<lparr>ba_Ctx := c\<rparr>))" by (rule ori_inv_frame [OF ori]) auto
  ultimately show ?thesis using list_inv_upd [OF lists e(1), of i] e(3) by (simp add: ba_table_inv_def)
qed

lemma ctx_change:
  assumes "ba_table_inv s" "freelist c = freelist (ba_Ctx s)"
  shows "ba_table_inv (s\<lparr>ba_Ctx := c\<rparr>)"
proof -
  from assms(1) have parts: "mac_inv s" "rec_inv s" "ori_inv s" "list_inv (ba_Ctx s) (BARecEntry s)" by (auto elim: table_invE)
  have "mac_inv (s\<lparr>ba_Ctx := c\<rparr>)" using parts(1) by (simp add: mac_inv_def)
  moreover have "rec_inv (s\<lparr>ba_Ctx := c\<rparr>)" by (rule rec_inv_frame [OF parts(2)]) auto
  moreover have "ori_inv (s\<lparr>ba_Ctx := c\<rparr>)" by (rule ori_inv_frame [OF parts(3)]) auto
  moreover have "list_inv c (BARecEntry s)" using parts(4) assms(2) by (simp add: list_inv_def ba_ok_def)
  ultimately show ?thesis by (simp add: ba_table_inv_def)
qed

lemma entry_ok:
  assumes inv: "ba_table_inv s" and w: "w < 32" "t < 8"
  shows "rec_idx s w t < 128" "arr (BARecEntry s) (rec_idx s w t) = Some (BARecEntry s ! rec_idx s w t)"
    "ba_ok (ba_Ctx s) (BARecEntry s ! rec_idx s w t)"
    "re_Status (BARecEntry s ! rec_idx s w t) = Recipient_NONE \<Longrightarrow> rl_next (re_list (BARecEntry s ! rec_idx s w t)) = []"
proof -
  from inv have rec: "rec_inv s" and lists: "list_inv (ba_Ctx s) (BARecEntry s)" and len: "length (BARecEntry s) = 128"
    by (auto elim: table_invE)
  show i: "rec_idx s w t < 128" using rec_session(1) [OF rec w] by (cases "rec_idx s w t = 0") auto
  then show "arr (BARecEntry s) (rec_idx s w t) = Some (BARecEntry s ! rec_idx s w t)" using len by simp
  have "BARecEntry s ! rec_idx s w t \<in> set (BARecEntry s)" using i len by simp
  then show "ba_ok (ba_Ctx s) (BARecEntry s ! rec_idx s w t)"
    "re_Status (BARecEntry s ! rec_idx s w t) = Recipient_NONE \<Longrightarrow> rl_next (re_list (BARecEntry s ! rec_idx s w t)) = []"
    using lists by (auto simp: list_inv_def)
qed

text \<open>What reception asks of a function on one session: it finishes, keeps the lists well formed and leaves the
  identity of the session alone; and, where it may be called on an entry that is not in use, it queues
  nothing there.\<close>

locale session_step =
  fixes step :: "BA_CTX \<Rightarrow> BA_REC_ENTRY \<Rightarrow> (BA_CTX \<times> BA_REC_ENTRY) option"
  assumes step_ok: "ba_ok c e \<Longrightarrow> \<exists>c' e'. step c e = Some (c', e') \<and> ba_ok c' e' \<and> entry_key e' = entry_key e"
begin

lemma used_step:
  assumes inv: "ba_table_inv s" and w: "w < 32" "t < 8" and some: "rec_idx s w t \<noteq> 0"
  shows "\<exists>c e. step (ba_Ctx s) (BARecEntry s ! rec_idx s w t) = Some (c, e)
    \<and> ba_table_inv (upd_Rec (rec_idx s w t) (\<lambda>_. e) (s\<lparr>ba_Ctx := c\<rparr>))"
proof -
  note e = entry_ok [OF inv w]
  obtain c' e' where r: "step (ba_Ctx s) (BARecEntry s ! rec_idx s w t) = Some (c', e')" "ba_ok c' e'"
    "entry_key e' = entry_key (BARecEntry s ! rec_idx s w t)" using step_ok [OF e(3)] by blast
  have "rec_inv s" using inv by (rule table_invE)
  then have "re_Status e' \<noteq> Recipient_NONE" using rec_session(3) [OF _ w some] r(3) by (simp add: entry_key_def)
  then show ?thesis using rx_change [OF inv e(1) r(2,3)] r(1) by auto
qed

end

locale idle_session_step = session_step +
  assumes step_idle: "ba_ok c e \<Longrightarrow> rl_next (re_list e) = [] \<Longrightarrow> step c e = Some (c', e') \<Longrightarrow> rl_next (re_list e') = []"
begin

lemma any_step:
  assumes inv: "ba_table_inv s" and w: "w < 32" "t < 8"
  shows "\<exists>c e. step (ba_Ctx s) (BARecEntry s ! rec_idx s w t) = Some (c, e)
    \<and> ba_table_inv (upd_Rec (rec_idx s w t) (\<lambda>_. e) (s\<lparr>ba_Ctx := c\<rparr>))"
proof -
  note e = entry_ok [OF inv w]
  obtain c' e' where r: "step (ba_Ctx s) (BARecEntry s ! rec_idx s w t) = Some (c', e')" "ba_ok c' e'"
    "entry_key e' = entry_key (BARecEntry s ! rec_idx s w t)" using step_ok [OF e(3)] by blast
  have "rl_next (re_list e') = []" if "re_Status e' = Recipient_NONE"
    using step_idle [OF e(3) _ r(1)] e(4) r(3) that by (simp add: entry_key_def)
  then show ?thesis using rx_change [OF inv e(1) r(2,3)] r(1) by blast
qed

end

text \<open>The contract holds for a data frame, for a block-ack request and for the timeouts.\<close>

definition bar_step :: "int \<Rightarrow> BA_CTX \<Rightarrow> BA_REC_ENTRY \<Rightarrow> (BA_CTX \<times> BA_REC_ENTRY) option" where
  "bar_step q c e = map_option (\<lambda>(c, e). (c, e\<lparr>re_LastIndSeq := (if q = 0 then MAXSEQ else q - 1)\<rparr>))
    (ba_indicate_reordering_mpdus_le_seq c e q)"

lemma ba_ok_list: "ba_ok c e \<Longrightarrow> re_list e = rl_of (rl_next (re_list e))"
  by (simp add: ba_ok_def)

interpretation rx: session_step "\<lambda>c e. ampdu_session hz c e rx now" for hz rx now
proof
  fix c e assume "ba_ok c e"
  from session_conserves [OF this, of rx hz now]
  show "\<exists>c' e'. ampdu_session hz c e rx now = Some (c', e') \<and> ba_ok c' e' \<and> entry_key e' = entry_key e"
    by (auto simp: conserves_def dest: session_key)
qed

interpretation bar: idle_session_step "bar_step q" for q
proof
  fix c e assume ok: "ba_ok c e"
  from le_seq_conserves [OF ok, of q]
  show "\<exists>c' e'. bar_step q c e = Some (c', e') \<and> ba_ok c' e' \<and> entry_key e' = entry_key e"
    by (auto simp: conserves_def bar_step_def dest: loops_key)
  fix c' e' assume "rl_next (re_list e) = []" "bar_step q c e = Some (c', e')"
  then show "rl_next (re_list e') = []"
    using ba_indicate_le_seq_rl_of [OF ba_ok_list [OF ok], of c q] by (auto simp: bar_step_def)
qed

interpretation flush: idle_session_step "\<lambda>c e. ba_flush_reordering_timeout_mpdus hz c e now" for hz now
proof
  fix c e assume ok: "ba_ok c e"
  from flush_conserves [OF ok, of hz now]
  show "\<exists>c' e'. ba_flush_reordering_timeout_mpdus hz c e now = Some (c', e') \<and> ba_ok c' e' \<and> entry_key e' = entry_key e"
    by (auto simp: conserves_def dest: flush_key)
  fix c' e' assume empty: "rl_next (re_list e) = []" and r: "ba_flush_reordering_timeout_mpdus hz c e now = Some (c', e')"
  have "re_list e = rl_of []" using ba_ok_list [OF ok] empty by argo
  then have "qlen (re_list e) = 0" by simp
  then show "rl_next (re_list e') = []" using r empty by (simp add: ba_flush_reordering_timeout_mpdus_def)
qed

lemma indicate_safe:
  assumes inv: "ba_table_inv s" and t: "rx_TID rx < 8"
  shows "\<exists>s'. Indicate_AMPDU_Packet hz s rx now = Some s' \<and> ba_table_inv s'"
proof (cases "(rx_AMSDU rx \<or> rx_DataSize rx \<le> 1520) \<and> rx_WirelessCliID rx < 32")
  case False
  then have "Indicate_AMPDU_Packet hz s rx now = Some (s\<lparr>ba_Ctx := log_event (ba_Ctx s) (RELEASE_NDIS_PACKET (rx_Packet rx))\<rparr>)"
    by (auto simp: Indicate_AMPDU_Packet_def)
  then show ?thesis using ctx_change [OF inv] by (simp add: ctx_simps)
next
  case True
  then have w: "rx_WirelessCliID rx < 32" and size: "\<not> (\<not> rx_AMSDU rx \<and> 1520 < rx_DataSize rx)" by auto
  from inv have mac: "mac_inv s" by (rule table_invE)
  note peer = peer_arrays(1) [OF mac w] peer_rec_idx(1) [OF mac w t]
  show ?thesis
  proof (cases "rec_idx s (rx_WirelessCliID rx) (rx_TID rx) = 0")
    case True
    then have "Indicate_AMPDU_Packet hz s rx now = Some (s\<lparr>ba_Ctx := INDICATE_LEGACY_OR_AMSDU (ba_Ctx s) rx\<rparr>)"
      using size w peer by (auto simp: Indicate_AMPDU_Packet_def)
    then show ?thesis using ctx_change [OF inv] by (simp add: ctx_simps)
  next
    case False
    then show ?thesis
      using rx.used_step [OF inv w t False, of hz rx now] size w peer entry_ok(2) [OF inv w t]
      by (auto simp: Indicate_AMPDU_Packet_def)
  qed
qed

lemma bar_safe:
  assumes inv: "ba_table_inv s"
  shows "\<exists>b s'. CntlEnqueueForRecv s w len t q = Some (b, s') \<and> ba_table_inv s'"
proof (cases "\<not> Halting s \<and> len = 20 \<and> w < 32 \<and> t < 8")
  case False
  then have "CntlEnqueueForRecv s w len t q = Some (False, s)" by (auto simp: CntlEnqueueForRecv_def)
  then show ?thesis using inv by blast
next
  case True
  then have w: "w < 32" "t < 8" by auto
  from inv have mac: "mac_inv s" by (rule table_invE)
  show ?thesis
    using bar.any_step [OF inv w, of q] True peer_arrays(1) [OF mac w(1)] peer_rec_idx(1) [OF mac w] entry_ok(2) [OF inv w] inv
    by (auto simp: CntlEnqueueForRecv_def bar_step_def)
qed

lemma maintain_one_safe:
  assumes inv: "ba_table_inv s" and w: "w < 32" "t < 8"
  shows "\<exists>s'. maintain_one hz now w t s = Some s' \<and> ba_table_inv s'"
proof -
  from inv have mac: "mac_inv s" by (rule table_invE)
  show ?thesis
    using flush.any_step [OF inv w, of hz now] peer_arrays(1) [OF mac w(1)] peer_rec_idx(1) [OF mac w] entry_ok(2) [OF inv w]
    by (auto simp: maintain_one_def)
qed

text \<open>A loop of steps that keep the invariant keeps it.\<close>

lemma fold_safe:
  assumes "\<And>x s. x \<in> set xs \<Longrightarrow> ba_table_inv s \<Longrightarrow> \<exists>s'. f x (Some s) = Some s' \<and> ba_table_inv s'" "ba_table_inv s"
  shows "\<exists>s'. fold f xs (Some s) = Some s' \<and> ba_table_inv s'"
  using assms
proof (induction xs arbitrary: s)
  case Nil
  then show ?case by simp
next
  case (Cons x xs)
  obtain s1 where s1: "f x (Some s) = Some s1" "ba_table_inv s1" using Cons.prems(1) [of x s] Cons.prems(2) by auto
  have "\<exists>s'. fold f xs (Some s1) = Some s' \<and> ba_table_inv s'"
    by (rule Cons.IH [OF _ s1(2)]) (use Cons.prems(1) in auto)
  then show ?case using s1(1) by simp
qed

lemma maintain_safe:
  assumes "ba_table_inv s"
  shows "\<exists>s'. BaReOrderingBufferMaintain hz s now = Some s' \<and> ba_table_inv s'"
  unfolding BaReOrderingBufferMaintain_def
proof (rule fold_safe [OF _ assms])
  fix w s assume w: "w \<in> set [1..<32 :: nat]" and inv: "ba_table_inv s"
  have "\<exists>s'. fold (\<lambda>t r. do { s \<leftarrow> r; maintain_one hz now w t s }) [0..<8] (Some s) = Some s' \<and> ba_table_inv s'"
    by (rule fold_safe [OF _ inv]) (use maintain_one_safe w in auto)
  moreover have "arr (MacTab s) w = Some (MacTab s ! w)" using inv w by (auto elim!: table_invE)
  ultimately show "\<exists>s'. (do { s \<leftarrow> Some s; m \<leftarrow> arr (MacTab s) w; if mc_None m then Some s
      else fold (\<lambda>t r. do { s \<leftarrow> r; maintain_one hz now w t s }) [0..<8] (Some s) }) = Some s' \<and> ba_table_inv s'"
    using inv by auto
qed

lemma teardown_all_safe:
  assumes "ba_table_inv s" "w < 32"
  shows "\<exists>s'. BASessionTearDownALL mem s w = Some s' \<and> ba_table_inv s'"
  unfolding BASessionTearDownALL_def
proof (rule fold_safe [OF _ assms(1)])
  fix t s assume t: "t \<in> set [0..<8 :: nat]" and inv: "ba_table_inv s"
  obtain s1 where s1: "BAOriSessionTearDown (fst (mem t)) s w t False False = Some s1" "ba_table_inv s1"
    using ori_teardown_safe [OF inv assms(2), of t "fst (mem t)" False False] t by auto
  moreover obtain s2 where "BARecSessionTearDown (snd (mem t)) s1 w t False = Some s2" "ba_table_inv s2"
    using rec_teardown_safe [OF s1(2) assms(2), of t "snd (mem t)" False] t by auto
  ultimately show "\<exists>s'. (do { s \<leftarrow> Some s; s \<leftarrow> BAOriSessionTearDown (fst (mem t)) s w t False False;
      BARecSessionTearDown (snd (mem t)) s w t False }) = Some s' \<and> ba_table_inv s'" by simp
qed

end
