(* ===== verification/BaProtocol.thy ===== *)
theory BaProtocol
  imports BaOps
begin

text \<open>
  The block-acknowledgement protocol as a transition system over the operations of \<open>BaTable\<close>: action frames of
  peers, requests of the driver, timers and received data, in any order.  Every reachable state satisfies
  the invariant and no step leaves an array, provided the TIDs of the frames are those the index arrays have room
  for; the frames' own checks do not ensure that.
\<close>

section \<open>Action frames\<close>

definition addba_req_tid :: "bytes \<Rightarrow> nat" where
  "addba_req_tid Msg = le16 (Msg ! 27) (Msg ! 28) div 4 mod 16"

definition addba_rsp_tid :: "bytes \<Rightarrow> nat" where
  "addba_rsp_tid Msg = le16 (Msg ! 29) (Msg ! 30) div 4 mod 16"

definition delba_tid :: "bytes \<Rightarrow> nat" where
  "delba_tid Msg = le16 (Msg ! 26) (Msg ! 27) div 4096 mod 16"

lemma msg16_Some: "i + 1 < length Msg \<Longrightarrow> msg16 Msg i = Some (le16 (Msg ! i) (Msg ! (i + 1)))"
  by (simp add: msg16_def octet_def)

lemma parse_addba_req_Some:
  assumes "33 \<le> length Msg"
  obtains f where "parse_addba_req Msg = Some f" "req_TID f = addba_req_tid Msg"
  using assms by (simp add: parse_addba_req_def msg16_Some octet_def addba_req_tid_def)

lemma parse_addba_rsp_Some:
  assumes "33 \<le> length Msg"
  obtains f where "parse_addba_rsp Msg = Some f" "rsp_TID f = addba_rsp_tid Msg"
  using assms by (simp add: parse_addba_rsp_def msg16_Some addba_rsp_tid_def)

lemma addba_req_safe:
  assumes inv: "ba_table_inv s" and msg: "33 \<le> length Msg" "addba_req_tid Msg < 8"
  shows "\<exists>s'. PeerAddBAReqAction mem s w Msg n = Some s' \<and> ba_table_inv s'"
proof (cases "w < 32")
  case False
  then show ?thesis using inv by (simp add: PeerAddBAReqAction_def)
next
  case w: True
  from inv have mac: "mac_inv s" by (auto elim: table_invE)
  obtain f where f: "parse_addba_req Msg = Some f" "req_TID f = addba_req_tid Msg" using msg(1) by (rule parse_addba_req_Some)
  then obtain sane where sane: "PeerAddBAReqActionSanity Msg n = Some sane"
    by (cases "n < 33") (auto simp: PeerAddBAReqActionSanity_def)
  obtain ok s1 where add: "BARecSessionAdd s w f = Some (ok, s1)" "ba_table_inv s1"
    using rec_add [OF inv w, of f] f(2) msg(2) inv by (auto split: if_splits)
  show ?thesis
    using w peer_arrays(1) [OF mac w] f sane add inv
    by (auto simp: PeerAddBAReqAction_def split: if_splits)
qed

lemma decline_inv:
  assumes inv: "ba_table_inv s" and w: "w < 32"
  shows "ba_table_inv (upd_Mac w (\<lambda>m. m\<lparr>BADeclineBitmap := b m\<rparr>) s)"
proof -
  let ?s = "upd_Mac w (\<lambda>m. m\<lparr>BADeclineBitmap := b m\<rparr>) s"
  from inv have mac: "mac_inv s" and rec: "rec_inv s" and ori: "ori_inv s" and lists: "list_inv (ba_Ctx s) (BARecEntry s)"
    by (auto elim: table_invE)
  have M: "MacTab ?s = (MacTab s)[w := (MacTab s ! w)\<lparr>BADeclineBitmap := b (MacTab s ! w)\<rparr>]" by simp
  have "mac_inv ?s" by (rule mac_inv_upd [OF mac w M]) (use peer_arrays [OF mac w] in auto)
  moreover have "rec_inv ?s \<and> rec_sess ?s = rec_sess s" by (rule rec_other [OF mac rec w _ _ M]) auto
  moreover have "ori_inv ?s \<and> ori_sess ?s = ori_sess s" by (rule ori_other [OF mac ori w _ _ _ M]) auto
  ultimately show ?thesis using lists by (simp add: ba_table_inv_def)
qed

lemma addba_rsp_safe:
  assumes inv: "ba_table_inv s" and msg: "33 \<le> length Msg" "addba_rsp_tid Msg < 8"
  shows "\<exists>s'. PeerAddBARspAction mem s w Msg n = Some s' \<and> ba_table_inv s'"
proof (cases "w < 32 \<and> PeerAddBARspActionSanity Msg n = Some True")
  case False
  moreover obtain sane where "PeerAddBARspActionSanity Msg n = Some sane"
    using msg(1) by (cases "n < 33") (auto simp: PeerAddBARspActionSanity_def msg16_Some)
  ultimately have "PeerAddBARspAction mem s w Msg n = Some s" by (cases sane) (auto simp: PeerAddBARspAction_def)
  then show ?thesis using inv by blast
next
  case True
  then have w: "w < 32" by simp
  obtain f where f: "parse_addba_rsp Msg = Some f" "rsp_TID f = addba_rsp_tid Msg" using msg(1) by (rule parse_addba_rsp_Some)
  have "\<exists>s1. (if rsp_StatusCode f = 0 then BAOriSessionAdd mem s w f
      else BAOriSessionTearDown mem s w (rsp_TID f) True False) = Some s1 \<and> ba_table_inv s1"
    using ori_add [OF inv w, of f mem] ori_teardown_safe [OF inv w, of "rsp_TID f" mem True False] f(2) msg(2) by auto
  then obtain s1 where s1: "(if rsp_StatusCode f = 0 then BAOriSessionAdd mem s w f
      else BAOriSessionTearDown mem s w (rsp_TID f) True False) = Some s1" "ba_table_inv s1" by blast
  have "arr (MacTab s1) w = Some (MacTab s1 ! w)" using s1(2) w by (auto elim!: table_invE)
  then show ?thesis
    using True f(1) s1 decline_inv [OF s1(2) w, of "\<lambda>m. BADeclineBitmap m OR tid_bit (rsp_TID f)"]
    by (simp add: PeerAddBARspAction_def)
qed

lemma delba_safe:
  assumes inv: "ba_table_inv s" and msg: "33 \<le> length Msg" "delba_tid Msg < 8"
  shows "\<exists>s'. PeerDelBAAction mem s w Msg n = Some s' \<and> ba_table_inv s'"
proof (cases "PeerDelBAActionSanity w n")
  case False
  then show ?thesis using inv by (simp add: PeerDelBAAction_def)
next
  case True
  then have w: "w < 32" by (simp add: PeerDelBAActionSanity_def)
  show ?thesis
    using True msg ori_teardown_safe [OF inv w, of "delba_tid Msg" mem True False]
      rec_teardown_safe [OF inv w, of "delba_tid Msg" mem True]
    by (simp add: PeerDelBAAction_def msg16_Some delba_tid_def Let_def)
qed

section \<open>The transition system\<close>

text \<open>A step is an operation together with its outcome; \<open>None\<close> would be an access outside an array.\<close>

inductive ba_step :: "BA_ADAPTER \<Rightarrow> BA_ADAPTER option \<Rightarrow> bool" where
  addba_req: "length Msg = 1600 \<Longrightarrow> addba_req_tid Msg < 8 \<Longrightarrow> ba_step s (PeerAddBAReqAction mem s w Msg n)"
| addba_rsp: "length Msg = 1600 \<Longrightarrow> addba_rsp_tid Msg < 8 \<Longrightarrow> ba_step s (PeerAddBARspAction mem s w Msg n)"
| delba: "length Msg = 1600 \<Longrightarrow> delba_tid Msg < 8 \<Longrightarrow> ba_step s (PeerDelBAAction mem s w Msg n)"
| ori_up: "w < 32 \<Longrightarrow> ba_step s (BAOriSessionSetUp s w t TimeOut Delay forced)"
| ori_down: "w < 32 \<Longrightarrow> t < 8 \<Longrightarrow> ba_step s (BAOriSessionTearDown mem s w t passive force)"
| rec_down: "w < 32 \<Longrightarrow> t < 8 \<Longrightarrow> ba_step s (BARecSessionTearDown mem s w t passive)"
| all_down: "w < 32 \<Longrightarrow> ba_step s (BASessionTearDownALL mems s w)"
| timer: "i < 128 \<Longrightarrow> oe_Timer (BAOriEntry s ! i) \<noteq> None \<Longrightarrow> ba_step s (BAOriSessionSetupTimeout s i)"
| data: "rx_TID rx < 8 \<Longrightarrow> ba_step s (Indicate_AMPDU_Packet hz s rx now)"
| bar: "ba_step s (map_option snd (CntlEnqueueForRecv s w n t q))"
| maintain: "ba_step s (BaReOrderingBufferMaintain hz s now)"

inductive ba_reach :: "BA_ADAPTER \<Rightarrow> BA_ADAPTER \<Rightarrow> bool" where
  start: "ba_reach s s"
| move: "ba_reach s t \<Longrightarrow> ba_step t (Some u) \<Longrightarrow> ba_reach s u"

lemma ba_step_safe:
  assumes "ba_step s r" "ba_table_inv s"
  shows "\<exists>s'. r = Some s' \<and> ba_table_inv s'"
  using assms
proof (cases rule: ba_step.cases)
  case (bar w n t q)
  then show ?thesis using bar_safe [OF assms(2), of w n t q] by auto
next
  case (ori_up w t TimeOut Delay forced)
  then show ?thesis using ori_setup [OF assms(2), of w t TimeOut Delay forced] by auto
next
  case (timer i)
  then show ?thesis using ori_timeout [OF assms(2), of i] by auto
qed (simp_all add: addba_req_safe addba_rsp_safe delba_safe ori_teardown_safe rec_teardown_safe teardown_all_safe
      indicate_safe maintain_safe)

lemma ba_reach_inv: "ba_reach s t \<Longrightarrow> ba_table_inv s \<Longrightarrow> ba_table_inv t"
  by (induction rule: ba_reach.induct) (auto dest: ba_step_safe)

text \<open>With memory for the DELBA requests, the loop over the TIDs removes the sessions of the peer one by one.\<close>

lemma teardown_all_effect:
  assumes inv: "ba_table_inv s" and w: "w < 32" and mem: "\<And>i. mems i = (True, True)" and k: "k \<le> 8"
  shows "\<exists>s'. fold (\<lambda>i r. do { s \<leftarrow> r; s \<leftarrow> BAOriSessionTearDown (fst (mems i)) s w i False False;
        BARecSessionTearDown (snd (mems i)) s w i False }) [0..<k] (Some s) = Some s' \<and> ba_table_inv s'
    \<and> rec_sess s' = (\<lambda>(v, t). if v = w \<and> t < k then None else rec_sess s (v, t))
    \<and> ori_sess s' = (\<lambda>(v, t). if v = w \<and> t < k then None else ori_sess s (v, t))"
  using k
proof (induction k)
  case 0
  then show ?case using inv by simp
next
  case (Suc k)
  then obtain s1 where s1: "fold (\<lambda>i r. do { s \<leftarrow> r; s \<leftarrow> BAOriSessionTearDown (fst (mems i)) s w i False False;
        BARecSessionTearDown (snd (mems i)) s w i False }) [0..<k] (Some s) = Some s1" "ba_table_inv s1"
    "rec_sess s1 = (\<lambda>(v, t). if v = w \<and> t < k then None else rec_sess s (v, t))"
    "ori_sess s1 = (\<lambda>(v, t). if v = w \<and> t < k then None else ori_sess s (v, t))" by auto
  obtain s2 where s2: "BAOriSessionTearDown True s1 w k False False = Some s2" "ba_table_inv s2"
    "ori_sess s2 = (ori_sess s1)((w, k) := None)" "rec_sess s2 = rec_sess s1"
    using ori_teardown [OF s1(2) w, of k False True False] Suc.prems by auto
  obtain s3 where s3: "BARecSessionTearDown True s2 w k False = Some s3" "ba_table_inv s3"
    "rec_sess s3 = (rec_sess s2)((w, k) := None)" "ori_sess s3 = ori_sess s2"
    using rec_teardown [OF s2(2) w, of k False True] Suc.prems by auto
  have "rec_sess s3 = (\<lambda>(v, t). if v = w \<and> t < Suc k then None else rec_sess s (v, t))"
    "ori_sess s3 = (\<lambda>(v, t). if v = w \<and> t < Suc k then None else ori_sess s (v, t))"
    using s1 s2 s3 by (auto simp: fun_eq_iff less_Suc_eq)
  then show ?case using s1(1) s2(1) s3(1,2) mem by simp
qed

section \<open>Properties\<close>

text \<open>An idle adapter for the witnesses: 32 peers, no session, four free blocks.\<close>

definition peer0 :: "nat \<Rightarrow> MAC_TABLE_ENTRY" where
  "peer0 w = \<lparr>mc_Aid = w, mc_None = False, mc_HT = True, mc_RalinkChip = False, mc_WepDisabled = False,
    mc_MaxRAmpduFactor = 3, RXBAbitmap = 0, TXBAbitmap = 0, BADeclineBitmap = 0, BARecWcidArray = replicate 8 0,
    BAOriWcidArray = replicate 8 0, TxSeq = replicate 8 0\<rparr>"

definition rec_none :: BA_REC_ENTRY where
  "rec_none = ba0\<lparr>re_Status := Recipient_NONE, re_list := rl_of []\<rparr>"

definition ori_none :: BA_ORI_ENTRY where
  "ori_none = \<lparr>oe_Wcid = 0, oe_TID = 0, oe_BAWinSize = 0, oe_Token = 0, oe_Sequence = 0, oe_TimeOutValue = 0,
    oe_Status = Originator_NONE, oe_Timer = None\<rparr>"

definition tables0 :: BA_ADAPTER where
  "tables0 = \<lparr>ba_Ctx = ctx0, BARecEntry = replicate 128 rec_none, BAOriEntry = replicate 128 ori_none,
    numAsRecipient = 0, numAsOriginator = 0, numDoneOriginator = 0, MacTab = map peer0 [0..<32],
    RxBAWinLimit = 64, AutoBA = True, bBADecline = False, FixedTxModeHT = True, MACVersion = 0x76010500,
    MonitorOn = False, ScanBusy = False, TGnWifi = False, Halting = False, ba_Log = []\<rparr>"

lemma tables0_inv: "ba_table_inv tables0"
proof -
  have S: "slots rec_used (BARecEntry tables0) = {}" "slots ori_used (BAOriEntry tables0) = {}"
    "slots ori_done (BAOriEntry tables0) = {}"
    by (auto simp: slots_def tables0_def rec_none_def ori_none_def)
  have I: "w < 32 \<Longrightarrow> t < 8 \<Longrightarrow> rec_idx tables0 w t = 0 \<and> ori_idx tables0 w t = 0" for w t
    by (simp add: rec_idx_def ori_idx_def tables0_def peer0_def)
  have L: "length (BARecEntry tables0) = 128" "length (BAOriEntry tables0) = 128" "numAsRecipient tables0 = 0"
    "numAsOriginator tables0 = 0" "numDoneOriginator tables0 = 0" by (simp_all add: tables0_def)
  have "mac_inv tables0" by (simp add: mac_inv_def tables0_def peer0_def)
  moreover have "rec_inv tables0"
    using S I L by (simp add: rec_inv_def slot_inv_def) (simp add: tables0_def peer0_def)
  moreover have "ori_inv tables0"
    using S I L by (simp add: ori_inv_def slot_inv_def) (simp add: tables0_def peer0_def ori_none_def)
  moreover have "list_inv (ba_Ctx tables0) (BARecEntry tables0)"
    by (simp add: list_inv_def tables0_def rec_none_def ba_ok_def ctx0_def)
  ultimately show ?thesis by (simp add: ba_table_inv_def)
qed

text \<open>The request of the witnesses: immediate policy, TID \<open>t\<close>, buffer size 16.\<close>

definition addba0 :: "UINT8 \<Rightarrow> bytes" where
  "addba0 b = replicate 27 0 @ [b, 4] @ replicate 1571 0"

lemma addba0_fields:
  "length (addba0 b) = 1600" "addba_req_tid (addba0 b) = (unat b + 1024) div 4 mod 16"
  by (simp_all add: addba0_def addba_req_tid_def le16_def nth_append)



text \<open>C33: an ADDBA request updates exactly one session.  \<^verbatim>\<open>BARecSessionAdd\<close> for a TID below 8 refuses only a new
  session for a full table (and then changes nothing); otherwise the map from peers and TIDs to recipient
  sessions is updated at the requesting peer and TID, with the granted window, an empty reordering list and a reset
  sequence number, and every other session, recipient or originator, is as before.\<close>

theorem BARecSessionAdd_updates:
  assumes "ba_table_inv s" "w < 32" "req_TID f < 8"
  shows "if rec_sess s (w, req_TID f) = None \<and> numAsRecipient s = 127 then BARecSessionAdd s w f = Some (False, s)
    else \<exists>s' e. BARecSessionAdd s w f = Some (True, s') \<and> ba_table_inv s'
      \<and> re_Status e = Recipient_Accept \<and> re_BAWinSize e = rec_winsize s f \<and> re_LastIndSeq e = RESET_RCV_SEQ
      \<and> rl_next (re_list e) = [] \<and> rec_sess s' = (rec_sess s)((w, req_TID f) \<mapsto> e) \<and> ori_sess s' = ori_sess s"
proof -
  have "granted s w f e \<Longrightarrow> re_Status e = Recipient_Accept \<and> re_BAWinSize e = rec_winsize s f
      \<and> re_LastIndSeq e = RESET_RCV_SEQ \<and> rl_next (re_list e) = []" for e by (simp add: granted_def)
  then show ?thesis using rec_add [OF assms] by (auto split: if_splits)
qed

definition req0 :: FRAME_ADDBA_REQ where
  "req0 = \<lparr>req_Token = 1, req_BAPolicy = 1, req_TID = 0, req_BufSize = 16, req_TimeOutValue = 0\<rparr>"

theorem BARecSessionAdd_updates_witness:
  "\<exists>s' e. BARecSessionAdd tables0 1 req0 = Some (True, s') \<and> ba_table_inv s' \<and> re_BAWinSize e = 16
    \<and> rec_sess s' (1, 0) = Some e"
proof -
  have "numAsRecipient tables0 \<noteq> 127" "rec_winsize tables0 req0 = 16"
    by (simp_all add: tables0_def rec_winsize_def req0_def)
  then show ?thesis using BARecSessionAdd_updates [OF tables0_inv, of 1 req0] by (auto simp: req0_def)
qed

text \<open>a peer that leaves takes its sessions with it.  When memory for the DELBA requests can be had,
  \<^verbatim>\<open>BASessionTearDownALL\<close> finishes and removes every session of the peer, in both roles, and no session of another peer.\<close>

theorem BASessionTearDownALL_clears:
  assumes "ba_table_inv s" "w < 32" "\<forall>i. mems i = (True, True)"
  shows "\<exists>s'. BASessionTearDownALL mems s w = Some s' \<and> ba_table_inv s'
    \<and> rec_sess s' = (\<lambda>(v, t). if v = w then None else rec_sess s (v, t))
    \<and> ori_sess s' = (\<lambda>(v, t). if v = w then None else ori_sess s (v, t))"
proof -
  obtain s' where s': "BASessionTearDownALL mems s w = Some s'" "ba_table_inv s'"
    "rec_sess s' = (\<lambda>(v, t). if v = w \<and> t < 8 then None else rec_sess s (v, t))"
    "ori_sess s' = (\<lambda>(v, t). if v = w \<and> t < 8 then None else ori_sess s (v, t))"
    using teardown_all_effect [OF assms(1,2), of mems 8] assms(3) by (auto simp: BASessionTearDownALL_def)
  have "\<not> t < 8 \<Longrightarrow> rec_sess s (v, t) = None \<and> ori_sess s (v, t) = None" for v t
    by (simp add: rec_sess_def ori_sess_def sessions_def)
  then have "rec_sess s' = (\<lambda>(v, t). if v = w then None else rec_sess s (v, t))"
    "ori_sess s' = (\<lambda>(v, t). if v = w then None else ori_sess s (v, t))" using s'(3,4) by (auto simp: fun_eq_iff)
  then show ?thesis using s'(1,2) by blast
qed

theorem BASessionTearDownALL_clears_witness:
  "\<exists>s'. BASessionTearDownALL (\<lambda>_. (True, True)) tables0 1 = Some s' \<and> ba_table_inv s' \<and> rec_sess s' (1, 0) = None"
  using BASessionTearDownALL_clears [OF tables0_inv, of 1 "\<lambda>_. (True, True)"] by auto

text \<open>C37: the TID of an ADDBA request is not checked.  The field has four bits, the index arrays of a peer have eight
  entries: an immediate-policy request with a TID of 8 or more from an HT peer makes the driver read, and then
  write, outside the array.\<close>

theorem PeerAddBAReqAction_tid_overflow:
  assumes "ba_table_inv s" "w < 32" "mc_HT (MacTab s ! w)" "\<not> bBADecline s" "33 \<le> n" "length Msg = 1600"
    "odd (le16 (Msg ! 27) (Msg ! 28) div 2)" "8 \<le> addba_req_tid Msg"
  shows "PeerAddBAReqAction mem s w Msg n = None"
proof -
  from assms(1) have mac: "mac_inv s" by (auto elim: table_invE)
  obtain f where f: "parse_addba_req Msg = Some f" "req_TID f = addba_req_tid Msg"
    using parse_addba_req_Some [of Msg] assms(6) by auto
  moreover have "req_BAPolicy f = 1"
    using f(1) assms(6,7) by (auto simp: parse_addba_req_def msg16_Some octet_def odd_iff_mod_2_eq_one)
  moreover have "BARecSessionAdd s w f = None"
    using peer_arrays [OF mac assms(2)] f(2) assms(8) by (simp add: BARecSessionAdd_def Let_def)
  ultimately show ?thesis
    using peer_arrays(1) [OF mac assms(2)] assms(2-5) by (simp add: PeerAddBAReqAction_def PeerAddBAReqActionSanity_def)
qed

theorem PeerAddBAReqAction_tid_overflow_witness:
  "PeerAddBAReqAction True tables0 1 (addba0 0x22) 33 = None"
proof (rule PeerAddBAReqAction_tid_overflow [OF tables0_inv])
  show "odd (le16 (addba0 0x22 ! 27) (addba0 0x22 ! 28) div 2)"
    by (simp add: addba0_def le16_def nth_append)
qed (simp_all add: addba0_fields tables0_def peer0_def)

end
