(* ===== verification/WpaKdf.thy ===== *)
theory WpaKdf
  imports AesModes Hmac
begin

text \<open>
  The key derivations of \<^verbatim>\<open>common/cmm_wpa.c\<close>: the pseudo-random function \<^verbatim>\<open>PRF\<close>, the key derivation
  function \<^verbatim>\<open>KDF\<close>, the password hash, the pairwise, group and PMK identifier derivations and the
  nonce generator, with the counters \<^verbatim>\<open>inc_iv_byte\<close> and \<^verbatim>\<open>ADD_ONE_To_64BIT_VAR\<close>.  A byte string
  argument stands for the pointer and its length; the answer of \<^verbatim>\<open>os_alloc_mem\<close> is an argument that
  holds the uninitialised buffer; \<open>None\<close> is an access outside a buffer.
\<close>

definition ascii :: "string \<Rightarrow> bytes" where
  "ascii s = map of_char s"

lemma length_ascii [simp]: "length (ascii s) = length s"
  by (simp add: ascii_def)

section \<open>Counters and comparison\<close>

fun inc_iv_loop :: "bytes \<Rightarrow> nat \<Rightarrow> bool \<Rightarrow> UINT32 \<Rightarrow> nat \<Rightarrow> bytes option" where
  "inc_iv_loop iv pos carry cnt 0 = Some iv"
| "inc_iv_loop iv pos carry cnt (Suc n) =
    (if pos \<ge> length iv then None
     else
       let pre_iv = iv ! pos;
           iv = (if carry then iv[pos := pre_iv + 1] else iv[pos := pre_iv + ucast cnt])
       in if iv ! pos > pre_iv then Some iv else inc_iv_loop iv (pos + 1) True cnt n)"

definition inc_iv_byte :: "bytes \<Rightarrow> nat \<Rightarrow> UINT32 \<Rightarrow> bytes option" where
  "inc_iv_byte iv len cnt = inc_iv_loop iv 0 False cnt len"

definition LEN_KEY_DESC_REPLAY :: nat where "LEN_KEY_DESC_REPLAY = 8"

text \<open>The loop counts down from \<open>cnt\<close>; it stops at the first octet that does not become zero.\<close>

fun add_one_loop :: "nat \<Rightarrow> bytes \<Rightarrow> bytes" where
  "add_one_loop 0 V = V"
| "add_one_loop (Suc cnt) V =
    (let V = V[cnt := V ! cnt + 1]
     in if cnt = 0 then V else if V ! cnt = 0 then add_one_loop cnt V else V)"

definition ADD_ONE_To_64BIT_VAR :: "bytes \<Rightarrow> bytes" where
  "ADD_ONE_To_64BIT_VAR V = add_one_loop LEN_KEY_DESC_REPLAY V"

fun compare_loop :: "bytes \<Rightarrow> bytes \<Rightarrow> nat \<Rightarrow> nat \<Rightarrow> nat" where
  "compare_loop pMem1 pMem2 Index 0 = 0"
| "compare_loop pMem1 pMem2 Index (Suc n) =
    (if pMem1 ! Index > pMem2 ! Index then 1
     else if pMem1 ! Index < pMem2 ! Index then 2
     else compare_loop pMem1 pMem2 (Index + 1) n)"

definition RTMPCompareMemory :: "bytes \<Rightarrow> bytes \<Rightarrow> nat \<Rightarrow> nat" where
  "RTMPCompareMemory pSrc1 pSrc2 Length = compare_loop pSrc1 pSrc2 0 Length"

section \<open>Expansion of a key\<close>

text \<open>
  \<^verbatim>\<open>PRF\<close> and \<^verbatim>\<open>KDF\<close> share the shape of their loop: write the code of \<open>input\<close>, advance the output, and
  increment one counter octet of \<open>input\<close>.  They differ in the code, its length and the index of the
  counter octet.
\<close>

fun expand_loop ::
  "(bytes \<Rightarrow> bytes) \<Rightarrow> nat \<Rightarrow> nat \<Rightarrow> nat \<Rightarrow> nat \<Rightarrow> bytes \<Rightarrow> nat \<Rightarrow> bytes \<Rightarrow> bytes option" where
  "expand_loop hmac dsize ctr total_len 0 input currentindex output = Some output"
| "expand_loop hmac dsize ctr total_len (Suc n) input currentindex output =
    (if currentindex + dsize > length output then None
     else
       let output = NdisMoveMemory output currentindex (hmac (take total_len input));
           input = input[ctr := input ! ctr + 1]
       in expand_loop hmac dsize ctr total_len n input (currentindex + dsize) output)"

definition SHA1_DIGEST_SIZE :: nat where "SHA1_DIGEST_SIZE = 20"

definition PRF :: "bytes option \<Rightarrow> bytes \<Rightarrow> bytes \<Rightarrow> bytes \<Rightarrow> bytes \<Rightarrow> nat \<Rightarrow> bytes option" where
  "PRF mem key prefix data output len =
    (case mem of None \<Rightarrow> Some output
     | Some input \<Rightarrow>
         if length prefix + 1 + length data + 1 > length input then None
         else
           let input = NdisMoveMemory input 0 prefix;
               input = input[length prefix := 0];
               input = NdisMoveMemory input (length prefix + 1) data;
               total_len = length prefix + 1 + length data;
               input = input[total_len := 0];
               total_len = total_len + 1
           in expand_loop (\<lambda>m. RT_HMAC_SHA1 key m SHA1_DIGEST_SIZE) 20 (total_len - 1) total_len
                ((len + 19) div 20) input 0 output)"

definition KDF :: "bytes option \<Rightarrow> bytes \<Rightarrow> bytes \<Rightarrow> bytes \<Rightarrow> bytes \<Rightarrow> UINT16 \<Rightarrow> bytes option" where
  "KDF mem key label data output len =
    (case mem of None \<Rightarrow> Some output
     | Some input \<Rightarrow>
         if 2 + length label + length data + 2 > length input then None
         else
           let len_in_bits = push_bit 3 (ucast len :: UINT32);
               input = NdisMoveMemory input 0 (NdisZeroMemory 1024);
               input = input[0 := 1, 1 := 0];
               input = NdisMoveMemory input 2 label;
               total_len = 2 + length label;
               input = NdisMoveMemory input total_len data;
               total_len = total_len + length data;
               input = input[total_len := ucast (len_in_bits AND 0xFF),
                             total_len + 1 := ucast (drop_bit 8 (len_in_bits AND 0xFF00))];
               total_len = total_len + 2
           in expand_loop (\<lambda>m. RT_HMAC_SHA256 key m 32) 32 0 total_len
                ((unat len_in_bits + 255) div 256) input 0 output)"

section \<open>The password hash\<close>

text \<open>\<open>password\<close> is the string up to its terminator; \<^verbatim>\<open>digest\<close> has 36 octets on the stack, of which the
  call leaves those behind the salt untouched.\<close>

definition PasswordHash_round :: "bytes \<Rightarrow> bytes \<times> bytes \<Rightarrow> bytes \<times> bytes" where
  "PasswordHash_round password = (\<lambda>(digest1, output).
    let digest = RT_HMAC_SHA1 password digest1 SHA1_DIGEST_SIZE
    in (digest, NdisMoveMemory output 0 (xor_bytes (take SHA1_DIGEST_SIZE output) digest)))"

definition PasswordHash_F :: "bytes \<Rightarrow> bytes \<Rightarrow> nat \<Rightarrow> UINT32 \<Rightarrow> bytes \<Rightarrow> bytes option" where
  "PasswordHash_F password ssid iterations count output =
    (if length ssid + 4 > 36 \<or> SHA1_DIGEST_SIZE > length output then None
     else
       let digest = ssid @ [ucast (drop_bit 24 count AND 0xff), ucast (drop_bit 16 count AND 0xff),
                            ucast (drop_bit 8 count AND 0xff), ucast (count AND 0xff)];
           digest1 = RT_HMAC_SHA1 password digest SHA1_DIGEST_SIZE;
           output = NdisMoveMemory output 0 digest1
       in Some (snd ((PasswordHash_round password ^^ (iterations - 1)) (digest1, output))))"

definition RtmpPasswordHash :: "bytes \<Rightarrow> bytes \<Rightarrow> bytes \<Rightarrow> (int \<times> bytes) option" where
  "RtmpPasswordHash password ssid output =
    (let password = takeWhile (\<lambda>c. c \<noteq> 0) password
     in if length password > 63 \<or> length ssid > 32 then Some (0, output)
        else
          case PasswordHash_F password ssid 4096 1 output of None \<Rightarrow> None
          | Some output \<Rightarrow>
             (case PasswordHash_F password ssid 4096 2 (drop SHA1_DIGEST_SIZE output) of None \<Rightarrow> None
              | Some tail \<Rightarrow> Some (1, take SHA1_DIGEST_SIZE output @ tail)))"

section \<open>The keys of the hierarchy\<close>

definition MAC_ADDR_LEN :: nat where "MAC_ADDR_LEN = 6"
definition LEN_PMK :: nat where "LEN_PMK = 32"
definition LEN_PMKID :: nat where "LEN_PMKID = 16"

definition RTMPDerivePMKID :: "bytes \<Rightarrow> bytes \<Rightarrow> bytes \<Rightarrow> bytes \<Rightarrow> bytes" where
  "RTMPDerivePMKID pAaddr pSpaddr pKey pPMKID =
    (let text_buf = ascii ''PMK Name'' @ take MAC_ADDR_LEN pAaddr @ take MAC_ADDR_LEN pSpaddr;
         digest = RT_HMAC_SHA1 (take LEN_PMK pKey) text_buf SHA1_DIGEST_SIZE
     in NdisMoveMemory pPMKID 0 (take LEN_PMKID digest))"

definition WpaDerivePTK ::
  "bytes option \<Rightarrow> bytes \<Rightarrow> bytes \<Rightarrow> bytes \<Rightarrow> bytes \<Rightarrow> bytes \<Rightarrow> bytes \<Rightarrow> nat \<Rightarrow> bytes option" where
  "WpaDerivePTK mem PMK ANonce AA SNonce SA output len =
    (let temp = NdisZeroMemory 32;
         concatenation = NdisZeroMemory 76;
         CurrPos = 0;
         concatenation = (if RTMPCompareMemory SA AA 6 = 1
                          then NdisMoveMemory concatenation 0 (take 6 AA)
                          else NdisMoveMemory concatenation 0 (take 6 SA));
         CurrPos = CurrPos + 6;
         concatenation = (if RTMPCompareMemory SA AA 6 = 1
                          then NdisMoveMemory concatenation CurrPos (take 6 SA)
                          else NdisMoveMemory concatenation CurrPos (take 6 AA));
         temp = NdisMoveMemory temp 0 (take MAC_ADDR_LEN (drop CurrPos concatenation));
         CurrPos = CurrPos + 6;
         concatenation = (if RTMPCompareMemory ANonce SNonce 32 = 0
                          then NdisMoveMemory concatenation CurrPos temp
                          else if RTMPCompareMemory ANonce SNonce 32 = 1
                          then NdisMoveMemory concatenation CurrPos (take 32 SNonce)
                          else NdisMoveMemory concatenation CurrPos (take 32 ANonce));
         CurrPos = CurrPos + 32;
         concatenation = (if RTMPCompareMemory ANonce SNonce 32 = 0
                          then NdisMoveMemory concatenation CurrPos temp
                          else if RTMPCompareMemory ANonce SNonce 32 = 1
                          then NdisMoveMemory concatenation CurrPos (take 32 ANonce)
                          else NdisMoveMemory concatenation CurrPos (take 32 SNonce))
     in PRF mem (take LEN_PMK PMK) (ascii ''Pairwise key expansion'') concatenation output len)"

text \<open>\<open>temp\<close> is the content of the 80 octets on the stack.\<close>

definition WpaDeriveGTK :: "bytes option \<Rightarrow> bytes \<Rightarrow> bytes \<Rightarrow> bytes \<Rightarrow> bytes \<Rightarrow> bytes \<Rightarrow> nat \<Rightarrow> bytes option" where
  "WpaDeriveGTK mem GMK GNonce AA temp output len =
    (let concatenation = take 6 AA @ take 32 GNonce
     in case PRF mem (take 32 GMK) (ascii ''Group key expansion'') concatenation temp len of None \<Rightarrow> None
        | Some temp \<Rightarrow>
            if len > length temp \<or> len > length output then None
            else Some (NdisMoveMemory output 0 (take len temp)))"

text \<open>\<open>CurrentTime i\<close> is the system up time read in round \<open>i\<close> and \<open>mem i\<close> the answer to that round's
  allocation.  \<^verbatim>\<open>&i\<close> is copied as two octets of the little-endian counter.\<close>

definition GenRandom_round ::
  "(nat \<Rightarrow> bytes option) \<Rightarrow> (nat \<Rightarrow> UINT32) \<Rightarrow> bytes \<Rightarrow> nat \<Rightarrow> bytes \<Rightarrow> bytes option" where
  "GenRandom_round mem CurrentTime macAddr i result =
    (let local = take MAC_ADDR_LEN macAddr @ bytes_le32 (CurrentTime i) @ take 32 result
                   @ take 2 (bytes_le32 (word_of_nat i))
     in PRF (mem i) (NdisZeroMemory 32) (ascii ''Init Counter'') local result 32)"

fun GenRandom_loop ::
  "(nat \<Rightarrow> bytes option) \<Rightarrow> (nat \<Rightarrow> UINT32) \<Rightarrow> bytes \<Rightarrow> nat \<Rightarrow> bytes option" where
  "GenRandom_loop mem CurrentTime macAddr 0 = Some (NdisZeroMemory 80)"
| "GenRandom_loop mem CurrentTime macAddr (Suc i) =
    (case GenRandom_loop mem CurrentTime macAddr i of None \<Rightarrow> None
     | Some result \<Rightarrow> GenRandom_round mem CurrentTime macAddr i result)"

definition GenRandom ::
  "(nat \<Rightarrow> bytes option) \<Rightarrow> (nat \<Rightarrow> UINT32) \<Rightarrow> bytes \<Rightarrow> bytes \<Rightarrow> bytes option" where
  "GenRandom mem CurrentTime macAddr random =
    (case GenRandom_loop mem CurrentTime macAddr 32 of None \<Rightarrow> None
     | Some result \<Rightarrow> Some (NdisMoveMemory random 0 (take 32 result)))"

section \<open>Counters and comparison as arithmetic\<close>

fun le_nat :: "bytes \<Rightarrow> nat" where
  "le_nat [] = 0"
| "le_nat (x # xs) = unat x + 256 * le_nat xs"

lemma mod_wrap: "256 \<le> s \<Longrightarrow> s < 512 \<Longrightarrow> s mod 256 = s - (256 :: nat)"
  by (simp add: le_mod_geq)

lemma unat_byte_add: "unat (x + y :: UINT8) = (unat x + unat y) mod 256"
  by (simp add: unat_word_ariths)

lemma le_nat_less: "le_nat xs < 256 ^ length xs"
proof (induction xs)
  case (Cons x xs)
  have "unat x < 256" by simp
  with Cons.IH have "unat x + 256 * le_nat xs < 256 * 256 ^ length xs" by linarith
  then show ?case by simp
qed simp

text \<open>One octet of the little-endian addition: it wraps exactly when the octet does not grow.\<close>

lemma byte_carry:
  fixes x c :: UINT8
  assumes "0 < unat c"
  shows "(x + c > x) \<longleftrightarrow> unat x + unat c < 256"
proof (cases "unat x + unat c < 256")
  case True
  then show ?thesis using assms by (simp add: word_less_nat_alt unat_byte_add)
next
  case False
  have "unat x < 256" "unat c < 256" by simp_all
  with False have "unat (x + c) = unat x + unat c - 256" "unat x + unat c - 256 < unat x"
    unfolding unat_byte_add by (intro mod_wrap, linarith+)+
  then show ?thesis using False by (simp add: word_less_nat_alt)
qed

lemma inc_iv_loop_step:
  "c = (if carry then 1 else ucast cnt) \<Longrightarrow> pos = length pre \<Longrightarrow>
   inc_iv_loop (pre @ x # rest) pos carry cnt (Suc n) =
     (if x + c > x then Some (pre @ (x + c) # rest)
      else inc_iv_loop (pre @ (x + c) # rest) (pos + 1) True cnt n)"
  by (cases carry) (simp_all add: Let_def)

lemma inc_iv_loop_adds:
  fixes c :: UINT8
  assumes "0 < unat c" "c = (if carry then 1 else ucast cnt)" "iv = pre @ rest" "pos = length pre"
  shows "\<exists>rest'. inc_iv_loop iv pos carry cnt (length rest) = Some (pre @ rest')
    \<and> length rest' = length rest \<and> le_nat rest' = (le_nat rest + unat c) mod 256 ^ length rest"
  using assms
proof (induction rest arbitrary: pre pos carry c iv)
  case (Cons x rest)
  let ?y = "x + c" and ?N = "256 ^ length rest :: nat"
  note step = inc_iv_loop_step [OF Cons.prems(2,4), of x rest "length rest"]
  have x: "unat x < 256" "unat c < 256" "le_nat rest < ?N" by (simp_all add: le_nat_less)
  show ?case
  proof (cases "?y > x")
    case True
    then have "unat x + unat c < 256" using byte_carry Cons.prems(1) by blast
    then have "unat ?y = unat x + unat c" "unat x + 256 * le_nat rest + unat c < 256 * ?N"
      using x(3) by (simp_all add: unat_byte_add)
    then show ?thesis
      using True step by (intro exI [of _ "?y # rest"]) (simp add: Cons.prems(3))
  next
    case False
    then have big: "256 \<le> unat x + unat c" using byte_carry Cons.prems(1) by (meson leI)
    have y: "unat ?y = unat x + unat c - 256"
      unfolding unat_byte_add by (rule mod_wrap) (use x big in linarith)+
    from Cons.IH [of 1 True "(pre @ [?y]) @ rest" "pre @ [?y]" "pos + 1"] Cons.prems(4) obtain rest' where
      IH: "inc_iv_loop (pre @ ?y # rest) (pos + 1) True cnt (length rest) = Some (pre @ ?y # rest')"
        "length rest' = length rest" "le_nat rest' = (le_nat rest + 1) mod ?N" by auto
    have "unat ?y + 256 * ((le_nat rest + 1) mod ?N) = (unat x + 256 * le_nat rest + unat c) mod (256 * ?N)"
    proof (cases "le_nat rest + 1 = ?N")
      case True
      have "unat x + 256 * le_nat rest + unat c = unat ?y + 256 * ?N"
        using y big by (simp flip: True)
      moreover have "unat ?y < 256 * ?N"
      proof -
        have "1 \<le> ?N" by simp
        then show ?thesis using unat_byte_less [of ?y] by linarith
      qed
      ultimately show ?thesis using True by simp
    next
      case False
      then have lt: "le_nat rest + 1 < ?N" using x by simp
      have "unat ?y + 256 * (le_nat rest + 1) = unat x + 256 * le_nat rest + unat c"
        using y big by simp
      moreover have "unat x + 256 * le_nat rest + unat c < 256 * ?N" using x lt big by linarith
      ultimately show ?thesis using lt by simp
    qed
    then show ?thesis
      using step IH False by (intro exI [of _ "?y # rest'"]) (simp add: Cons.prems(3))
  qed
qed simp

lemma byte_zero: "x + 1 = 0 \<longleftrightarrow> unat x = 255" for x :: UINT8
  by (rule all_bytes) code_simp

lemma add_one_loop_adds:
  assumes "V = pre @ post" "n = length pre"
  shows "\<exists>pre'. add_one_loop n V = pre' @ post \<and> length pre' = n
    \<and> be_nat pre' = (be_nat pre + 1) mod 256 ^ n"
  using assms
proof (induction pre arbitrary: n V post rule: rev_induct)
  case (snoc x pre)
  let ?y = "x + 1" and ?N = "256 ^ length pre :: nat"
  have x: "unat x < 256" "be_nat pre < ?N" by (simp_all add: be_nat_less)
  have upd: "V[length pre := V ! length pre + 1] = pre @ ?y # post" "n = Suc (length pre)"
    using snoc.prems by (auto simp: add.commute)
  have yz: "?y = 0 \<longleftrightarrow> unat x = 255"
    using byte_zero by blast
  show ?case
  proof (cases "unat x = 255 \<and> pre \<noteq> []")
    case True
    from snoc.IH [of "pre @ ?y # post" "?y # post" "length pre"] obtain pre' where
      IH: "add_one_loop (length pre) (pre @ ?y # post) = pre' @ ?y # post" "length pre' = length pre"
        "be_nat pre' = (be_nat pre + 1) mod ?N" by auto
    have "be_nat pre' * 256 = (be_nat pre * 256 + 255 + 1) mod (256 * ?N)"
    proof (cases "be_nat pre + 1 = ?N")
      case c: True
      then have "be_nat pre * 256 + 255 + 1 = 256 * ?N" by (simp flip: c)
      moreover have "be_nat pre' = 0" by (simp only: IH(3) c mod_self)
      ultimately show ?thesis by simp
    next
      case False
      then have "be_nat pre + 1 < ?N" using x by simp
      then show ?thesis by (simp add: IH(3))
    qed
    then show ?thesis
      using True IH upd yz by (intro exI [of _ "pre' @ [?y]"]) (simp add: be_nat_snoc Let_def)
  next
    case False
    have "be_nat pre * 256 + unat ?y = (be_nat pre * 256 + unat x + 1) mod (256 * ?N)"
    proof (cases "unat x = 255")
      case True
      with False have "pre = []" by simp
      then show ?thesis using True by (simp add: unat_byte_add)
    next
      case c: False
      then have "unat x + 1 < 256" using x(1) by linarith
      then have "unat ?y = unat x + 1" by (simp add: unat_byte_add)
      moreover have "be_nat pre * 256 + unat x + 1 < 256 * ?N"
        using x(2) \<open>unat x + 1 < 256\<close> by linarith
      ultimately show ?thesis by simp
    qed
    then show ?thesis
      using False upd yz by (intro exI [of _ "pre @ [?y]"]) (auto simp: be_nat_snoc Let_def)
  qed
qed simp

lemma be_nat_Cons_less:
  "length xs = length ys \<Longrightarrow> x < y \<Longrightarrow> be_nat (x # xs) < be_nat (y # ys)"
proof -
  assume a: "length xs = length ys" "x < y"
  then have "unat x + 1 \<le> unat y" by (simp add: word_less_nat_alt)
  then have "(unat x + 1) * 256 ^ length ys \<le> unat y * 256 ^ length ys" by (rule mult_right_mono) simp
  with be_nat_less [of xs] a show ?thesis by (simp add: algebra_simps)
qed

lemma compare_loop_be_nat:
  assumes "length a = length b" "i + n = length a"
  shows "compare_loop a b i n =
    (if be_nat (drop i a) > be_nat (drop i b) then 1 else if be_nat (drop i a) < be_nat (drop i b) then 2 else 0)"
  using assms
proof (induction a b i n rule: compare_loop.induct)
  case (2 a b i n)
  then have i: "i < length a" "i < length b" by simp_all
  have d: "drop i a = a ! i # drop (Suc i) a" "drop i b = b ! i # drop (Suc i) b"
    using i by (simp_all add: Cons_nth_drop_Suc)
  have len: "length (drop (Suc i) a) = length (drop (Suc i) b)" using 2 by simp
  consider "a ! i > b ! i" | "a ! i < b ! i" | "a ! i = b ! i" by fastforce
  then show ?case
  proof cases
    case 1
    then show ?thesis
      unfolding d using be_nat_Cons_less [OF len [symmetric] 1] by simp
  next
    case c: 2
    then show ?thesis
      unfolding d using be_nat_Cons_less [OF len c] by simp
  next
    case 3
    then show ?thesis unfolding d using 2 by simp
  qed
qed simp

lemma compare_be_nat:
  "length a = n \<Longrightarrow> length b = n \<Longrightarrow>
   RTMPCompareMemory a b n = (if be_nat a > be_nat b then 1 else if be_nat a < be_nat b then 2 else 0)"
  by (simp add: RTMPCompareMemory_def compare_loop_be_nat)

lemma be_nat_inject: "length a = length b \<Longrightarrow> be_nat a = be_nat b \<Longrightarrow> a = b"
proof (induction a b rule: list_induct2)
  case (Cons x xs y ys)
  have "x = y"
    using Cons.prems be_nat_Cons_less [of xs ys x y] be_nat_Cons_less [of ys xs y x] Cons.hyps
    by (metis less_irrefl linorder_neqE)
  with Cons show ?case by simp
qed simp

section \<open>The derivations as the standards define them\<close>

text \<open>The interface the expansions rely on: a keyed code that agrees with its definition on strings
  that fit the lengths of the code and always has \<open>dsize\<close> octets.\<close>

locale keyed_mac =
  fixes mac :: "bytes \<Rightarrow> bytes \<Rightarrow> bytes" and H :: "bytes \<Rightarrow> bytes \<Rightarrow> bytes" and dsize :: nat
  assumes mac_H: "length K < 2 ^ 32 \<Longrightarrow> length m < 2 ^ 32 \<Longrightarrow> mac K m = H K m"
    and length_H: "length (H K m) = dsize"
begin

definition expansion :: "bytes \<Rightarrow> (nat \<Rightarrow> bytes) \<Rightarrow> nat \<Rightarrow> bytes" where
  "expansion K msg n = concat (map (\<lambda>i. H K (msg i)) [0..<n])"

lemma length_expansion: "length (expansion K msg n) = n * dsize"
  by (induction n) (simp_all add: expansion_def length_H)

lemma expansion_shift: "expansion K msg (Suc n) = H K (msg 0) @ expansion K (\<lambda>i. msg (Suc i)) n"
  by (simp add: expansion_def upt_conv_Cons map_Suc_upt [symmetric] comp_def del: upt_Suc)

lemma expand_loop_expansion:
  assumes "length K < 2 ^ 32" "total_len < 2 ^ 32" "total_len \<le> length input" "ctr < total_len"
    and "currentindex + n * dsize \<le> length out"
  shows "expand_loop (mac K) dsize ctr total_len n input currentindex out =
    Some (take currentindex out
      @ expansion K (\<lambda>i. (take total_len input)[ctr := input ! ctr + word_of_nat i]) n
      @ drop (currentindex + n * dsize) out)"
  using assms
proof (induction n arbitrary: input currentindex out)
  case 0
  then show ?case by (simp add: expansion_def)
next
  case (Suc n)
  let ?o = "NdisMoveMemory out currentindex (mac K (take total_len input))"
  let ?i = "input[ctr := input ! ctr + 1]"
  have m: "mac K (take total_len input) = H K (take total_len input)"
    using Suc.prems by (simp add: mac_H)
  have lo: "length ?o = length out" using Suc.prems by (simp add: m NdisMoveMemory_def length_H)
  have t: "(take total_len ?i)[ctr := ?i ! ctr + word_of_nat i]
      = (take total_len input)[ctr := input ! ctr + word_of_nat (Suc i)]" for i
    using Suc.prems by (simp add: take_update_swap add.assoc)
  have out: "take (currentindex + dsize) ?o = take currentindex out @ H K (take total_len input)"
    "drop (currentindex + Suc n * dsize) ?o = drop (currentindex + Suc n * dsize) out"
    using Suc.prems by (simp_all add: m NdisMoveMemory_def length_H ac_simps)
  have same: "(take total_len input)[ctr := input ! ctr] = take total_len input"
    using list_update_id [of "take total_len input" ctr] Suc.prems by simp
  have "expand_loop (mac K) dsize ctr total_len (Suc n) input currentindex out
    = expand_loop (mac K) dsize ctr total_len n ?i (currentindex + dsize) ?o"
    using Suc.prems by (simp add: Let_def)
  also have "\<dots> = Some (take (currentindex + dsize) ?o
      @ expansion K (\<lambda>i. (take total_len input)[ctr := input ! ctr + word_of_nat (Suc i)]) n
      @ drop (currentindex + dsize + n * dsize) ?o)"
    using Suc.prems lo by (subst Suc.IH) (simp_all only: t length_list_update, simp_all)
  finally show ?case
    using out Suc.prems same by (simp add: expansion_shift add.assoc)
qed

end

interpretation hs1: keyed_mac "\<lambda>K m. RT_HMAC_SHA1 K m SHA1_DIGEST_SIZE" "hmac_reference sha1_reference" 20
  by unfold_locales (simp_all add: HMAC_SHA1_spec SHA1_DIGEST_SIZE_def sha1.length_hmac_reference)

interpretation hs256: keyed_mac "\<lambda>K m. RT_HMAC_SHA256 K m 32" "hmac_reference sha256_reference" 32
  by unfold_locales (simp_all add: HMAC_SHA256_spec sha256.length_hmac_reference)

abbreviation (input) hmac_sha1 :: "bytes \<Rightarrow> bytes \<Rightarrow> bytes" where
  "hmac_sha1 \<equiv> hmac_reference sha1_reference"

abbreviation (input) hmac_sha256 :: "bytes \<Rightarrow> bytes \<Rightarrow> bytes" where
  "hmac_sha256 \<equiv> hmac_reference sha256_reference"

text \<open>IEEE 802.11i-2004, 8.5.1.1: the codes of \<open>A || 0 || B || i\<close> for \<open>i\<close> = 0, 1, ..., cut to the length.\<close>

definition prf_reference :: "bytes \<Rightarrow> bytes \<Rightarrow> bytes \<Rightarrow> nat \<Rightarrow> bytes" where
  "prf_reference K A B len =
     take len (concat (map (\<lambda>i. hmac_sha1 K (A @ [0] @ B @ [word_of_nat i])) [0..<(len + 19) div 20]))"

lemma prf_blocks: "concat (map (\<lambda>i. hmac_sha1 K (A @ [0] @ B @ [word_of_nat i])) [0..<n])
    = hs1.expansion K (\<lambda>i. A @ [0] @ B @ [word_of_nat i]) n"
  by (simp add: hs1.expansion_def)

lemma length_prf_reference [simp]: "length (prf_reference K A B len) = len"
  unfolding prf_reference_def prf_blocks by (simp add: hs1.length_expansion)

lemma PRF_spec:
  assumes "length buf = 1024" "length K < 2 ^ 32" "length A + length B + 2 \<le> 1024"
    and "20 * ((len + 19) div 20) \<le> length out"
  shows "\<exists>rest. PRF (Some buf) K A B out len = Some (prf_reference K A B len @ rest)
    \<and> length rest = length out - len"
proof -
  let ?n = "(len + 19) div 20" and ?t = "length A + 1 + length B + 1"
  define input where "input = (NdisMoveMemory ((NdisMoveMemory buf 0 A)[length A := 0]) (length A + 1) B)
      [length A + 1 + length B := 0]"
  have tail: "length A + length B < length buf" "length A < length buf" "length A + 1 + length B < length buf"
    using assms(1,3) by simp_all
  have "input = A @ [0] @ B @ [0] @ drop ?t buf"
    using tail unfolding input_def
    by (simp add: NdisMoveMemory_def list_update_append Cons_nth_drop_Suc [symmetric] add.commute add.left_commute)
  then have input: "take ?t input = A @ [0] @ B @ [0]" "input ! (length A + 1 + length B) = 0" "length input = 1024"
    using assms(1,3) by (simp_all add: nth_append)
  have msg: "(take ?t input)[?t - 1 := input ! (?t - 1) + word_of_nat i] = A @ [0] @ B @ [word_of_nat i]" for i
    unfolding input using input(2) by (simp add: list_update_append)
  let ?E = "hs1.expansion K (\<lambda>i. A @ [0] @ B @ [word_of_nat i]) ?n"
  have "PRF (Some buf) K A B out len =
      expand_loop (\<lambda>m. RT_HMAC_SHA1 K m SHA1_DIGEST_SIZE) 20 (?t - 1) ?t ?n input 0 out"
    using assms(1,3) by (simp add: PRF_def Let_def input_def)
  also have "\<dots> = Some (?E @ drop (?n * 20) out)"
    using assms(1-4) input(3) by (subst hs1.expand_loop_expansion) (simp_all only: msg, simp_all add: mult.commute)
  also have "?E @ drop (?n * 20) out = prf_reference K A B len @ drop len ?E @ drop (?n * 20) out"
    unfolding prf_reference_def prf_blocks by simp
  finally show ?thesis
    using assms(4) hs1.length_expansion [of K _ ?n] by fastforce
qed

text \<open>IEEE 802.11r, 8.5.1.5.2: the codes of \<open>i || label || context || length\<close> for \<open>i\<close> = 1, 2, ...; counter
  and length are 16-bit numbers.\<close>

definition bytes_le16 :: "UINT16 \<Rightarrow> bytes" where
  "bytes_le16 w = [ucast w, ucast (drop_bit 8 w)]"

definition kdf_reference :: "bytes \<Rightarrow> bytes \<Rightarrow> bytes \<Rightarrow> nat \<Rightarrow> bytes" where
  "kdf_reference K label context len =
     take len (concat (map (\<lambda>i. hmac_sha256 K (bytes_le16 (word_of_nat (i + 1)) @ label @ context
        @ bytes_le16 (word_of_nat (8 * len)))) [0..<(8 * len + 255) div 256]))"

lemma kdf_length_octets:
  assumes "len < 8192" "bits = push_bit 3 (ucast (word_of_nat len :: UINT16) :: UINT32)"
  shows "[ucast (bits AND 0xFF), ucast (drop_bit 8 (bits AND 0xFF00))] = bytes_le16 (word_of_nat (8 * len))"
    and "unat bits = 8 * len"
proof -
  have "(ucast (word_of_nat len :: UINT16) :: UINT32) = word_of_nat len"
    using assms(1) by (simp add: word_unat_eq_iff unsigned_ucast_eq unsigned_of_nat take_bit_nat_eq_self)
  then have b: "bits = word_of_nat (8 * len)" by (simp add: assms(2) push_bit_eq_mult mult.commute)
  have w: "ucast (word_of_nat n :: UINT32) = (ucast (word_of_nat n :: UINT16) :: UINT8)"
    "ucast (drop_bit 8 (word_of_nat n) :: UINT32) = (ucast (drop_bit 8 (word_of_nat n :: UINT16)) :: UINT8)" for n
    by (auto simp: bit_simps intro!: bit_word_eqI)
  have "drop_bit 8 (bits AND 0xFF00) = drop_bit 8 bits AND 0xFF" by (simp add: drop_bit_and)
  then show "[ucast (bits AND 0xFF), ucast (drop_bit 8 (bits AND 0xFF00))] = bytes_le16 (word_of_nat (8 * len))"
    unfolding bytes_le16_def by (simp only: ucast_and_ff b w)
  show "unat bits = 8 * len" using assms(1) by (simp only: b unsigned_of_nat) (simp add: take_bit_nat_eq_self)
qed

lemma bytes_le16_small:
  assumes "n < 256"
  shows "bytes_le16 (word_of_nat n) = [word_of_nat n, 0]"
proof -
  have "unat (drop_bit 8 (word_of_nat n :: UINT16)) = drop_bit 8 n"
    using assms by (simp add: unsigned_drop_bit_eq unsigned_of_nat take_bit_nat_eq_self)
  also have "\<dots> = 0" using assms by (simp add: drop_bit_eq_div)
  finally have "drop_bit 8 (word_of_nat n :: UINT16) = 0" by (simp add: unat_eq_zero)
  moreover have "ucast (word_of_nat n :: UINT16) = (word_of_nat n :: UINT8)"
    by (rule bit_word_eqI) (auto simp: bit_simps)
  ultimately show ?thesis by (simp add: bytes_le16_def)
qed

lemma KDF_spec:
  assumes "length buf = 1024" "length K < 2 ^ 32" "length label + length context + 4 \<le> 1024"
    and "len \<le> 8160" "32 * ((8 * len + 255) div 256) \<le> length out"
  shows "\<exists>rest. KDF (Some buf) K label context out (word_of_nat len) = Some (kdf_reference K label context len @ rest)
    \<and> length rest = length out - len"
proof -
  let ?n = "(8 * len + 255) div 256" and ?t = "2 + length label + length context + 2"
  let ?L = "bytes_le16 (word_of_nat (8 * len))" and ?b = "length label + length context + 2"
  define bits where "bits = push_bit 3 (ucast (word_of_nat len :: UINT16) :: UINT32)"
  note bits = kdf_length_octets [OF _ bits_def]
  define input where "input = (NdisMoveMemory (NdisMoveMemory
      ((NdisMoveMemory buf 0 (NdisZeroMemory 1024))[0 := 1, 1 := 0]) 2 label) (2 + length label) context)
      [?b := ucast (bits AND 0xFF), ?b + 1 := ucast (drop_bit 8 (bits AND 0xFF00))]"
  have "NdisMoveMemory buf 0 (NdisZeroMemory 1024) = replicate (Suc (Suc 1022)) 0"
    using assms(1) by (simp add: NdisMoveMemory_def NdisZeroMemory_def del: replicate.simps)
  then have z: "(NdisMoveMemory buf 0 (NdisZeroMemory 1024))[0 := 1, 1 := 0] = [1, 0] @ replicate 1022 0"
    by (simp only: replicate.simps) simp
  define k where "k = 1020 - (length label + length context)"
  have k: "1022 = length label + (length context + Suc (Suc k))" using assms(3) by (simp add: k_def)
  have r: "replicate 1022 (0 :: UINT8) = replicate (length label) 0 @ replicate (length context) 0 @ [0, 0] @ replicate k 0"
    unfolding k replicate_add by simp
  have "input = [1, 0] @ label @ context @ ?L @ replicate k 0"
    unfolding input_def z r using bits(1) assms(4)
    by (simp add: NdisMoveMemory_def list_update_append)
  then have input: "take ?t input = [1, 0] @ label @ context @ ?L" "input ! 0 = 1" "length input = 1024"
    using k by (simp_all add: bytes_le16_def)
  have msg: "(take ?t input)[0 := input ! 0 + word_of_nat i] = bytes_le16 (word_of_nat (i + 1)) @ label @ context @ ?L"
    if "i < ?n" for i
    unfolding input input(2) using that assms(4) by (subst bytes_le16_small) (linarith, simp)
  let ?E = "concat (map (\<lambda>i. hmac_sha256 K (bytes_le16 (word_of_nat (i + 1)) @ label @ context @ ?L)) [0..<?n])"
  have E: "hs256.expansion K (\<lambda>i. (take ?t input)[0 := input ! 0 + word_of_nat i]) ?n = ?E"
    unfolding hs256.expansion_def by (rule arg_cong [where f = concat], rule map_cong) (simp_all only: msg set_upt atLeastLessThan_iff)
  have lenE: "length ?E = ?n * 32" using hs256.length_expansion E by metis
  have "KDF (Some buf) K label context out (word_of_nat len) =
      expand_loop (\<lambda>m. RT_HMAC_SHA256 K m 32) 32 0 ?t ?n input 0 out"
    using assms(1,3) bits(2) assms(4) unfolding KDF_def
    by (simp add: Let_def input_def bits_def [symmetric] add.commute add.left_commute)
  also have "\<dots> = Some (?E @ drop (?n * 32) out)"
    using assms input(3) by (subst hs256.expand_loop_expansion) (simp_all only: E, simp_all add: mult.commute)
  also have "?E @ drop (?n * 32) out = kdf_reference K label context len @ drop len ?E @ drop (?n * 32) out"
    unfolding kdf_reference_def by simp
  finally show ?thesis
    using assms(5) lenE by fastforce
qed

text \<open>RFC 2898, PBKDF2 with HMAC-SHA1: \<open>T_i\<close> is the exclusive or of \<open>U_1, ..., U_c\<close>.\<close>

fun pbkdf2_U :: "bytes \<Rightarrow> bytes \<Rightarrow> nat \<Rightarrow> bytes" where
  "pbkdf2_U P Si 0 = hmac_sha1 P Si"
| "pbkdf2_U P Si (Suc c) = hmac_sha1 P (pbkdf2_U P Si c)"

definition pbkdf2_T :: "bytes \<Rightarrow> bytes \<Rightarrow> nat \<Rightarrow> UINT32 \<Rightarrow> bytes" where
  "pbkdf2_T P S c i =
     foldl xor_bytes (pbkdf2_U P (S @ bytes_be32 i) 0) (map (pbkdf2_U P (S @ bytes_be32 i)) [1..<c])"

lemma length_pbkdf2_U [simp]: "length (pbkdf2_U P Si c) = 20"
  by (cases c) (simp_all add: hs1.length_H)

lemma length_pbkdf2_T: "length (pbkdf2_T P S c i) = 20"
proof -
  have "length (foldl xor_bytes a bs) = 20" if "length a = 20" "\<forall>b \<in> set bs. length b = 20" for a and bs :: "bytes list"
    using that by (induction bs arbitrary: a) auto
  then show ?thesis by (simp add: pbkdf2_T_def hs1.length_H)
qed

lemma PasswordHash_rounds:
  assumes "length P < 2 ^ 32" "20 \<le> length out"
  shows "(PasswordHash_round P ^^ n) (pbkdf2_U P Si 0, NdisMoveMemory out 0 (pbkdf2_U P Si 0)) =
    (pbkdf2_U P Si n, foldl xor_bytes (pbkdf2_U P Si 0) (map (pbkdf2_U P Si) [1..<Suc n]) @ drop 20 out)"
proof (induction n)
  case 0
  then show ?case by (simp add: NdisMoveMemory_def hs1.length_H)
next
  case (Suc n)
  have "length (foldl xor_bytes (pbkdf2_U P Si 0) (map (pbkdf2_U P Si) [1..<Suc n])) = 20"
    by (induction n) (simp_all add: upt_Suc_append hs1.length_H)
  moreover have "RT_HMAC_SHA1 P (pbkdf2_U P Si n) SHA1_DIGEST_SIZE = pbkdf2_U P Si (Suc n)"
    using assms(1) by (simp add: hs1.mac_H)
  ultimately have "PasswordHash_round P (pbkdf2_U P Si n, foldl xor_bytes (pbkdf2_U P Si 0) (map (pbkdf2_U P Si) [1..<Suc n]) @ drop 20 out)
    = (pbkdf2_U P Si (Suc n), xor_bytes (foldl xor_bytes (pbkdf2_U P Si 0) (map (pbkdf2_U P Si) [1..<Suc n])) (pbkdf2_U P Si (Suc n)) @ drop 20 out)"
    by (simp add: PasswordHash_round_def Let_def NdisMoveMemory_def SHA1_DIGEST_SIZE_def del: pbkdf2_U.simps upt_Suc)
  then show ?case
    unfolding funpow.simps comp_apply Suc.IH by (simp add: upt_Suc_append del: pbkdf2_U.simps upt_Suc)
qed

lemma count_octets:
  "[ucast (drop_bit 24 w AND 0xff), ucast (drop_bit 16 w AND 0xff), ucast (drop_bit 8 w AND 0xff), ucast (w AND 0xff)]
    = bytes_be32 w" for w :: UINT32
  by (simp only: bytes_be32_def ucast_and_ff)

lemma PasswordHash_F_spec:
  assumes "length P < 2 ^ 32" "length S \<le> 32" "20 \<le> length out" "0 < c"
  shows "PasswordHash_F P S c i out = Some (pbkdf2_T P S c i @ drop 20 out)"
proof -
  have u: "RT_HMAC_SHA1 P (S @ bytes_be32 i) SHA1_DIGEST_SIZE = pbkdf2_U P (S @ bytes_be32 i) 0"
    using assms(1,2) by (simp add: hs1.mac_H)
  have c: "Suc (c - 1) = c" using assms(4) by simp
  show ?thesis
    using assms(2,3) PasswordHash_rounds [OF assms(1,3), of "c - 1" "S @ bytes_be32 i"]
    by (simp only: PasswordHash_F_def count_octets Let_def u c pbkdf2_T_def) (simp add: SHA1_DIGEST_SIZE_def)
qed

definition ptk_concatenation :: "bytes \<Rightarrow> bytes \<Rightarrow> bytes \<Rightarrow> bytes \<Rightarrow> bytes" where
  "ptk_concatenation AA SA ANonce SNonce =
    (let lo = (\<lambda>a b. if be_nat a \<le> be_nat b then a else b); hi = (\<lambda>a b. if be_nat a \<le> be_nat b then b else a)
     in lo AA SA @ hi AA SA @ lo ANonce SNonce @ hi ANonce SNonce)"

text \<open>IEEE 802.11i-2004, 8.5.1.2: the smaller and the larger address, then the smaller and the larger nonce.\<close>

definition ptk_reference :: "bytes \<Rightarrow> bytes \<Rightarrow> bytes \<Rightarrow> bytes \<Rightarrow> bytes \<Rightarrow> nat \<Rightarrow> bytes" where
  "ptk_reference PMK AA SA ANonce SNonce len =
     prf_reference PMK (ascii ''Pairwise key expansion'') (ptk_concatenation AA SA ANonce SNonce) len"

lemma ptk_concatenation_commute:
  "length AA = length SA \<Longrightarrow> length ANonce = length SNonce \<Longrightarrow>
   ptk_concatenation AA SA ANonce SNonce = ptk_concatenation SA AA SNonce ANonce"
  by (auto simp: ptk_concatenation_def Let_def dest: be_nat_inject intro: be_nat_inject)

lemma length_ptk_concatenation:
  "length AA = 6 \<Longrightarrow> length SA = 6 \<Longrightarrow> length ANonce = 32 \<Longrightarrow> length SNonce = 32 \<Longrightarrow>
   length (ptk_concatenation AA SA ANonce SNonce) = 76"
  by (simp add: ptk_concatenation_def Let_def)

text \<open>The 76 octets \<^verbatim>\<open>WpaDerivePTK\<close> hashes.  For equal nonces it hashes, in the place of each nonce, the larger
  address followed by zeros.\<close>

lemma WpaDerivePTK_concatenation:
  assumes "length AA = 6" "length SA = 6" "length ANonce = 32" "length SNonce = 32"
  shows "WpaDerivePTK mem PMK ANonce AA SNonce SA out len =
    PRF mem (take 32 PMK) (ascii ''Pairwise key expansion'')
      (if ANonce = SNonce
       then ptk_concatenation AA SA ((if be_nat AA \<le> be_nat SA then SA else AA) @ replicate 26 0)
              ((if be_nat AA \<le> be_nat SA then SA else AA) @ replicate 26 0)
       else ptk_concatenation AA SA ANonce SNonce) out len"
proof -
  have n: "RTMPCompareMemory ANonce SNonce 32 = 0 \<longleftrightarrow> ANonce = SNonce"
    using be_nat_inject [of ANonce SNonce] assms by (auto simp: compare_be_nat)
  have a: "be_nat AA = be_nat SA \<longleftrightarrow> AA = SA" using be_nat_inject [of AA SA] assms by auto
  have m1: "NdisMoveMemory (NdisMoveMemory (NdisZeroMemory 76) 0 p) 6 q = p @ q @ replicate 64 0"
    if "length p = 6" "length q = 6" for p q :: bytes
    using that by (simp add: NdisMoveMemory_def NdisZeroMemory_def)
  have m2: "NdisMoveMemory (NdisMoveMemory (p @ q @ replicate 64 0) 12 r) 44 t = p @ q @ r @ t"
    if "length p = 6" "length q = 6" "length r = 32" "length t = 32" for p q r t :: bytes
    using that by (simp add: NdisMoveMemory_def)
  have m3: "NdisMoveMemory (NdisZeroMemory 32) 0 q = q @ replicate 26 0" if "length q = 6" for q :: bytes
    using that by (simp add: NdisMoveMemory_def NdisZeroMemory_def)
  let ?lo = "if be_nat AA \<le> be_nat SA then AA else SA" and ?hi = "if be_nat AA \<le> be_nat SA then SA else AA"
  let ?nlo = "if be_nat ANonce \<le> be_nat SNonce then ANonce else SNonce"
  let ?nhi = "if be_nat ANonce \<le> be_nat SNonce then SNonce else ANonce"
  have addr: "(if RTMPCompareMemory SA AA 6 = 1 then NdisMoveMemory C k (take 6 AA) else NdisMoveMemory C k (take 6 SA))
      = NdisMoveMemory C k ?lo"
    "(if RTMPCompareMemory SA AA 6 = 1 then NdisMoveMemory C k (take 6 SA) else NdisMoveMemory C k (take 6 AA))
      = NdisMoveMemory C k ?hi" for C k
    using assms(1,2) a by (auto simp: compare_be_nat)
  have nonce: "(if ANonce = SNonce then NdisMoveMemory C k T
       else if RTMPCompareMemory ANonce SNonce 32 = 1 then NdisMoveMemory C k (take 32 SNonce) else NdisMoveMemory C k (take 32 ANonce))
      = NdisMoveMemory C k (if ANonce = SNonce then T else ?nlo)"
    "(if ANonce = SNonce then NdisMoveMemory C k T
       else if RTMPCompareMemory ANonce SNonce 32 = 1 then NdisMoveMemory C k (take 32 ANonce) else NdisMoveMemory C k (take 32 SNonce))
      = NdisMoveMemory C k (if ANonce = SNonce then T else ?nhi)" for C k T
    using assms(3,4) be_nat_inject [of ANonce SNonce] by (auto simp: compare_be_nat)
  have len: "length ?lo = 6" "length ?hi = 6" "length ?nlo = 32" "length ?nhi = 32" using assms by simp_all
  have t: "take 6 (drop 6 (?lo @ ?hi @ replicate 64 0)) = ?hi" using len by simp
  have pos: "(0 :: nat) + 6 = 6" "(6 :: nat) + 6 = 12" "(12 :: nat) + 32 = 44" by simp_all
  show ?thesis
    unfolding WpaDerivePTK_def Let_def n addr nonce MAC_ADDR_LEN_def LEN_PMK_def pos
    by (simp only: m1 [OF len(1,2)] t m3 [OF len(2)], subst m2)
       (use len in \<open>auto simp: ptk_concatenation_def Let_def\<close>)
qed

lemma WpaDerivePTK_spec:
  assumes "length buf = 1024" "length PMK = 32" "length AA = 6" "length SA = 6" "length ANonce = 32" "length SNonce = 32"
    and "ANonce \<noteq> SNonce" "80 \<le> length out"
  shows "\<exists>rest. WpaDerivePTK (Some buf) PMK ANonce AA SNonce SA out 64 = Some (ptk_reference PMK AA SA ANonce SNonce 64 @ rest)
    \<and> length rest = length out - 64"
  unfolding WpaDerivePTK_concatenation [OF assms(3-6)] ptk_reference_def
  using assms by (simp add: length_ptk_concatenation) (rule PRF_spec, simp_all add: length_ptk_concatenation)

lemma WpaDeriveGTK_spec:
  assumes "length buf = 1024" "length GMK = 32" "length AA = 6" "length GNonce = 32" "length temp = 80"
    and "len \<le> 80" "len \<le> length out"
  shows "WpaDeriveGTK (Some buf) GMK GNonce AA temp out len
    = Some (prf_reference GMK (ascii ''Group key expansion'') (AA @ GNonce) len @ drop len out)"
proof -
  have "(len + 19) div 20 \<le> 99 div 20" by (rule div_le_mono) (use assms(6) in simp)
  then have "20 * ((len + 19) div 20) \<le> length temp" using assms(5) by simp
  from PRF_spec [of buf GMK "ascii ''Group key expansion''" "AA @ GNonce" len temp] this assms
  obtain rest where
    "PRF (Some buf) GMK (ascii ''Group key expansion'') (AA @ GNonce) temp len
      = Some (prf_reference GMK (ascii ''Group key expansion'') (AA @ GNonce) len @ rest)" "length rest = 80 - len" by auto
  then show ?thesis using assms by (simp add: WpaDeriveGTK_def NdisMoveMemory_def)
qed

text \<open>The nonce: the pseudo-random function under an all-zero key, iterated 32 times over the address, the up
  time, the previous result and the round.\<close>

fun nonce_reference :: "(nat \<Rightarrow> UINT32) \<Rightarrow> bytes \<Rightarrow> nat \<Rightarrow> bytes" where
  "nonce_reference time mac 0 = replicate 32 0"
| "nonce_reference time mac (Suc i) = prf_reference (replicate 32 0) (ascii ''Init Counter'')
     (mac @ bytes_le32 (time i) @ nonce_reference time mac i @ take 2 (bytes_le32 (word_of_nat i))) 32"

lemma length_nonce_reference [simp]: "length (nonce_reference time mac i) = 32"
  by (cases i) simp_all

lemma GenRandom_spec:
  assumes "\<And>i. \<exists>buf. mem i = Some buf \<and> length buf = 1024" "length mac = 6" "length random = 32"
  shows "GenRandom mem time mac random = Some (nonce_reference time mac 32)"
proof -
  have "\<exists>rest. GenRandom_loop mem time mac n = Some (nonce_reference time mac n @ rest) \<and> length rest = 48" for n
  proof (induction n)
    case 0
    show ?case by (intro exI [of _ "replicate 48 0"]) (simp add: NdisZeroMemory_def flip: replicate_add)
  next
    case (Suc i)
    then obtain rest where IH: "GenRandom_loop mem time mac i = Some (nonce_reference time mac i @ rest)" "length rest = 48"
      by blast
    obtain buf where buf: "mem i = Some buf" "length buf = 1024" using assms(1) by blast
    let ?l = "mac @ bytes_le32 (time i) @ nonce_reference time mac i @ take 2 (bytes_le32 (word_of_nat i))"
    have "\<exists>r. PRF (Some buf) (replicate 32 0) (ascii ''Init Counter'') ?l (nonce_reference time mac i @ rest) 32
        = Some (prf_reference (replicate 32 0) (ascii ''Init Counter'') ?l 32 @ r) \<and> length r = length (nonce_reference time mac i @ rest) - 32"
      by (rule PRF_spec) (use buf assms IH in simp_all)
    then show ?case
      using IH buf assms(2) by (simp add: GenRandom_round_def NdisZeroMemory_def MAC_ADDR_LEN_def)
  qed
  from this [of 32] obtain rest where "GenRandom_loop mem time mac 32 = Some (nonce_reference time mac 32 @ rest)" by blast
  then show ?thesis using assms(3) by (simp add: GenRandom_def NdisMoveMemory_def del: GenRandom_loop.simps nonce_reference.simps)
qed

section \<open>Properties\<close>

text \<open>C16: \<^verbatim>\<open>RtmpPasswordHash\<close> is PBKDF2 (RFC 2898) with HMAC-SHA1, 4096 iterations and two blocks, for
  every password of at most 63 characters and SSID of at most 32 octets.\<close>

theorem RtmpPasswordHash_pbkdf2:
  assumes "0 \<notin> set password" "length password \<le> 63" "length ssid \<le> 32" "40 \<le> length out"
  shows "RtmpPasswordHash password ssid out
    = Some (1, pbkdf2_T password ssid 4096 1 @ pbkdf2_T password ssid 4096 2 @ drop 40 out)"
proof -
  have tw: "takeWhile (\<lambda>c. c \<noteq> 0) password = password" using assms(1) by (auto simp: takeWhile_eq_all_conv)
  have len: "length password < 2 ^ 32" using assms(2) by simp
  show ?thesis
    using assms(2-4) PasswordHash_F_spec [OF len assms(3), of out 4096 1]
      PasswordHash_F_spec [OF len assms(3), of "drop 20 out" 4096 2]
    by (simp add: RtmpPasswordHash_def tw SHA1_DIGEST_SIZE_def length_pbkdf2_T)
qed

theorem RtmpPasswordHash_pbkdf2_witness:
  "RtmpPasswordHash (ascii ''password'') (ascii ''IEEE'') (replicate 40 0)
    = Some (1, pbkdf2_T (ascii ''password'') (ascii ''IEEE'') 4096 1 @ pbkdf2_T (ascii ''password'') (ascii ''IEEE'') 4096 2)"
proof -
  have "0 \<notin> set (ascii ''password'')" by (simp add: ascii_def of_char_def)
  from RtmpPasswordHash_pbkdf2 [OF this, of "ascii ''IEEE''" "replicate 40 0"] show ?thesis by simp
qed

text \<open>C21: the two parties of a handshake derive the same pairwise key: called with the roles of addresses and
  nonces exchanged, \<^verbatim>\<open>WpaDerivePTK\<close> gives the same 64 octets, those of IEEE 802.11i, 8.5.1.2.\<close>

theorem WpaDerivePTK_agreement:
  assumes "length buf = 1024" "length buf' = 1024" "length PMK = 32" "length AA = 6" "length SA = 6"
    and "length ANonce = 32" "length SNonce = 32" "ANonce \<noteq> SNonce" "80 \<le> length out" "80 \<le> length out'"
  shows "map_option (take 64) (WpaDerivePTK (Some buf) PMK ANonce AA SNonce SA out 64) = Some (ptk_reference PMK AA SA ANonce SNonce 64)
    \<and> map_option (take 64) (WpaDerivePTK (Some buf') PMK SNonce SA ANonce AA out' 64) = Some (ptk_reference PMK AA SA ANonce SNonce 64)"
proof -
  have c: "ptk_reference PMK SA AA SNonce ANonce 64 = ptk_reference PMK AA SA ANonce SNonce 64"
    using assms by (simp add: ptk_reference_def ptk_concatenation_commute)
  have l: "length (ptk_reference PMK AA SA ANonce SNonce 64) = 64" by (simp add: ptk_reference_def)
  show ?thesis
    using WpaDerivePTK_spec [OF assms(1,3-9)] WpaDerivePTK_spec [OF assms(2,3,5,4,7,6) assms(8) [symmetric] assms(10)] l
    by (auto simp: c)
qed

theorem WpaDerivePTK_agreement_witness:
  "map_option (take 64) (WpaDerivePTK (Some (replicate 1024 0)) (replicate 32 1) (replicate 32 2) (replicate 6 3) (replicate 32 4) (replicate 6 5) (replicate 80 0) 64)
    = map_option (take 64) (WpaDerivePTK (Some (replicate 1024 9)) (replicate 32 1) (replicate 32 4) (replicate 6 5) (replicate 32 2) (replicate 6 3) (replicate 80 7) 64)"
  using WpaDerivePTK_agreement [of "replicate 1024 0" "replicate 1024 9" "replicate 32 1" "replicate 6 3" "replicate 6 5"
      "replicate 32 2" "replicate 32 4" "replicate 80 0" "replicate 80 7"] by auto

end
