(* ===== verification/WpaPacket.thy ===== *)
theory WpaPacket
  imports WpaKdf
begin

text \<open>
  The EAPOL-Key packet of \<^verbatim>\<open>include/dot11i_wpa.h\<close>: its constants, its layout with the bit fields of the key information,
  the length macros of \<^verbatim>\<open>include/wpa.h\<close>, and the round trip between the packet and its image in memory.
\<close>

section \<open>Constants\<close>

abbreviation (input) Ndis802_11AuthModeWPA :: nat where "Ndis802_11AuthModeWPA \<equiv> 3"
abbreviation (input) Ndis802_11AuthModeWPAPSK :: nat where "Ndis802_11AuthModeWPAPSK \<equiv> 4"
abbreviation (input) Ndis802_11AuthModeWPANone :: nat where "Ndis802_11AuthModeWPANone \<equiv> 5"
abbreviation (input) Ndis802_11AuthModeWPA2 :: nat where "Ndis802_11AuthModeWPA2 \<equiv> 6"
abbreviation (input) Ndis802_11AuthModeWPA2PSK :: nat where "Ndis802_11AuthModeWPA2PSK \<equiv> 7"
abbreviation (input) Ndis802_11AuthModeWPA1WPA2 :: nat where "Ndis802_11AuthModeWPA1WPA2 \<equiv> 8"
abbreviation (input) Ndis802_11AuthModeWPA1PSKWPA2PSK :: nat where "Ndis802_11AuthModeWPA1PSKWPA2PSK \<equiv> 9"

abbreviation (input) Ndis802_11Encryption1Enabled :: nat where "Ndis802_11Encryption1Enabled \<equiv> 0"
abbreviation (input) Ndis802_11WEPDisabled :: nat where "Ndis802_11WEPDisabled \<equiv> 1"
abbreviation (input) Ndis802_11Encryption2Enabled :: nat where "Ndis802_11Encryption2Enabled \<equiv> 4"
abbreviation (input) Ndis802_11Encryption3Enabled :: nat where "Ndis802_11Encryption3Enabled \<equiv> 6"
abbreviation (input) Ndis802_11Encryption4Enabled :: nat where "Ndis802_11Encryption4Enabled \<equiv> 8"
abbreviation (input) Ndis802_11GroupWEP40Enabled :: nat where "Ndis802_11GroupWEP40Enabled \<equiv> 10"
abbreviation (input) Ndis802_11GroupWEP104Enabled :: nat where "Ndis802_11GroupWEP104Enabled \<equiv> 11"

abbreviation (input) EAPOL_PAIR_MSG_1 :: nat where "EAPOL_PAIR_MSG_1 \<equiv> 1"
abbreviation (input) EAPOL_PAIR_MSG_2 :: nat where "EAPOL_PAIR_MSG_2 \<equiv> 2"
abbreviation (input) EAPOL_PAIR_MSG_3 :: nat where "EAPOL_PAIR_MSG_3 \<equiv> 3"
abbreviation (input) EAPOL_PAIR_MSG_4 :: nat where "EAPOL_PAIR_MSG_4 \<equiv> 4"
abbreviation (input) EAPOL_GROUP_MSG_1 :: nat where "EAPOL_GROUP_MSG_1 \<equiv> 5"
abbreviation (input) EAPOL_GROUP_MSG_2 :: nat where "EAPOL_GROUP_MSG_2 \<equiv> 6"

abbreviation (input) EAPOL_VER :: UINT8 where "EAPOL_VER \<equiv> 1"
abbreviation (input) EAPOL_VER2 :: UINT8 where "EAPOL_VER2 \<equiv> 2"
abbreviation (input) EAPOLKey :: UINT8 where "EAPOLKey \<equiv> 3"
abbreviation (input) WPA1_KEY_DESC :: UINT8 where "WPA1_KEY_DESC \<equiv> 0xfe"
abbreviation (input) WPA2_KEY_DESC :: UINT8 where "WPA2_KEY_DESC \<equiv> 0x02"
abbreviation (input) KEY_DESC_TKIP :: UINT8 where "KEY_DESC_TKIP \<equiv> 1"
abbreviation (input) KEY_DESC_AES :: UINT8 where "KEY_DESC_AES \<equiv> 2"
abbreviation (input) KEY_DESC_EXT :: UINT8 where "KEY_DESC_EXT \<equiv> 3"
abbreviation (input) GROUPKEY :: UINT8 where "GROUPKEY \<equiv> 0"
abbreviation (input) WPA_KDE_TYPE :: UINT8 where "WPA_KDE_TYPE \<equiv> 0xdd"
abbreviation (input) KDE_GTK :: UINT8 where "KDE_GTK \<equiv> 1"
abbreviation (input) IE_WPA :: UINT8 where "IE_WPA \<equiv> 221"
abbreviation (input) IE_RSN :: UINT8 where "IE_RSN \<equiv> 48"

abbreviation (input) MIN_LEN_OF_EAPOL_KEY_MSG :: nat where "MIN_LEN_OF_EAPOL_KEY_MSG \<equiv> 95"
abbreviation (input) LEN_KEY_DESC_MIC :: nat where "LEN_KEY_DESC_MIC \<equiv> 16"
abbreviation (input) LEN_KEY_DESC_NONCE :: nat where "LEN_KEY_DESC_NONCE \<equiv> 32"
abbreviation (input) LEN_KEY_DESC_IV :: nat where "LEN_KEY_DESC_IV \<equiv> 16"
abbreviation (input) LEN_PTK_KCK :: nat where "LEN_PTK_KCK \<equiv> 16"
abbreviation (input) LEN_PTK_KEK :: nat where "LEN_PTK_KEK \<equiv> 16"
abbreviation (input) LEN_TK :: nat where "LEN_TK \<equiv> 16"
abbreviation (input) LEN_AES_TK :: nat where "LEN_AES_TK \<equiv> 16"
abbreviation (input) LEN_TKIP_TK :: nat where "LEN_TKIP_TK \<equiv> 32"
abbreviation (input) LEN_AES_GTK :: nat where "LEN_AES_GTK \<equiv> 16"
abbreviation (input) LEN_TKIP_GTK :: nat where "LEN_TKIP_GTK \<equiv> 32"
abbreviation (input) TX_EAPOL_BUFFER :: nat where "TX_EAPOL_BUFFER \<equiv> 1500"

definition OUI_WPA2 :: bytes where "OUI_WPA2 = [0x00, 0x0F, 0xAC]"

section \<open>The packet\<close>

record KEY_INFO =
  ki_KeyMic :: UINT8
  ki_Secure :: UINT8
  ki_Error :: UINT8
  ki_Request :: UINT8
  ki_EKD_DL :: UINT8
  ki_Rsvd :: UINT8
  ki_KeyDescVer :: UINT8
  ki_KeyType :: UINT8
  ki_KeyIndex :: UINT8
  ki_Install :: UINT8
  ki_KeyAck :: UINT8

record EAPOL_PACKET =
  ep_ProVer :: UINT8
  ep_ProType :: UINT8
  ep_Body_Len :: bytes
  kd_Type :: UINT8
  kd_KeyInfo :: KEY_INFO
  kd_KeyLength :: bytes
  kd_ReplayCounter :: bytes
  kd_KeyNonce :: bytes
  kd_KeyIv :: bytes
  kd_KeyRsc :: bytes
  kd_KeyId :: bytes
  kd_KeyMic :: bytes
  kd_KeyDataLen :: bytes
  kd_KeyData :: bytes

text \<open>The bit fields, in the layout of the little-endian branch of the declaration.\<close>

definition key_info_bytes :: "KEY_INFO \<Rightarrow> bytes" where
  "key_info_bytes ki =
    [take_bit 1 (ki_KeyMic ki) OR push_bit 1 (take_bit 1 (ki_Secure ki)) OR push_bit 2 (take_bit 1 (ki_Error ki))
       OR push_bit 3 (take_bit 1 (ki_Request ki)) OR push_bit 4 (take_bit 1 (ki_EKD_DL ki))
       OR push_bit 5 (take_bit 3 (ki_Rsvd ki)),
     take_bit 3 (ki_KeyDescVer ki) OR push_bit 3 (take_bit 1 (ki_KeyType ki)) OR push_bit 4 (take_bit 2 (ki_KeyIndex ki))
       OR push_bit 6 (take_bit 1 (ki_Install ki)) OR push_bit 7 (take_bit 1 (ki_KeyAck ki))]"

definition key_info_of :: "UINT8 \<Rightarrow> UINT8 \<Rightarrow> KEY_INFO" where
  "key_info_of b0 b1 =
    \<lparr>ki_KeyMic = take_bit 1 b0, ki_Secure = take_bit 1 (drop_bit 1 b0), ki_Error = take_bit 1 (drop_bit 2 b0),
     ki_Request = take_bit 1 (drop_bit 3 b0), ki_EKD_DL = take_bit 1 (drop_bit 4 b0), ki_Rsvd = drop_bit 5 b0,
     ki_KeyDescVer = take_bit 3 b1, ki_KeyType = take_bit 1 (drop_bit 3 b1), ki_KeyIndex = take_bit 2 (drop_bit 4 b1),
     ki_Install = take_bit 1 (drop_bit 6 b1), ki_KeyAck = drop_bit 7 b1\<rparr>"

definition eapol_bytes :: "EAPOL_PACKET \<Rightarrow> bytes" where
  "eapol_bytes p = [ep_ProVer p, ep_ProType p] @ ep_Body_Len p @ [kd_Type p] @ key_info_bytes (kd_KeyInfo p)
     @ kd_KeyLength p @ kd_ReplayCounter p @ kd_KeyNonce p @ kd_KeyIv p @ kd_KeyRsc p @ kd_KeyId p @ kd_KeyMic p
     @ kd_KeyDataLen p @ kd_KeyData p"

text \<open>The packet a pointer cast reads at the start of \<open>buf\<close>, which has at least 99 octets.\<close>

definition eapol_of :: "bytes \<Rightarrow> EAPOL_PACKET" where
  "eapol_of buf =
    \<lparr>ep_ProVer = buf ! 0, ep_ProType = buf ! 1, ep_Body_Len = take 2 (drop 2 buf), kd_Type = buf ! 4,
     kd_KeyInfo = key_info_of (buf ! 5) (buf ! 6), kd_KeyLength = take 2 (drop 7 buf),
     kd_ReplayCounter = take 8 (drop 9 buf), kd_KeyNonce = take 32 (drop 17 buf), kd_KeyIv = take 16 (drop 49 buf),
     kd_KeyRsc = take 8 (drop 65 buf), kd_KeyId = take 8 (drop 73 buf), kd_KeyMic = take 16 (drop 81 buf),
     kd_KeyDataLen = take 2 (drop 97 buf), kd_KeyData = drop 99 buf\<rparr>"

definition SET_UINT16_TO_ARRARY :: "nat \<Rightarrow> bytes" where
  "SET_UINT16_TO_ARRARY LEN = [word_of_nat (LEN mod 65536 div 256), word_of_nat (LEN mod 65536 mod 256)]"

definition CONV_ARRARY_TO_UINT16 :: "bytes \<Rightarrow> nat" where
  "CONV_ARRARY_TO_UINT16 V = unat (V ! 0) * 256 + unat (V ! 1)"

definition INC_UINT16_TO_ARRARY :: "bytes \<Rightarrow> nat \<Rightarrow> bytes" where
  "INC_UINT16_TO_ARRARY V LEN = SET_UINT16_TO_ARRARY ((CONV_ARRARY_TO_UINT16 V + LEN) mod 65536)"

section \<open>The packet and its image\<close>

lemma CONV_SET [simp]: "n < 65536 \<Longrightarrow> CONV_ARRARY_TO_UINT16 (SET_UINT16_TO_ARRARY n) = n"
  by (simp add: CONV_ARRARY_TO_UINT16_def SET_UINT16_TO_ARRARY_def unat_of_nat)

lemma length_SET [simp]: "length (SET_UINT16_TO_ARRARY n) = 2"
  by (simp add: SET_UINT16_TO_ARRARY_def)

lemma length_INC [simp]: "length (INC_UINT16_TO_ARRARY V n) = 2"
  by (simp add: INC_UINT16_TO_ARRARY_def)

lemma CONV_less: "CONV_ARRARY_TO_UINT16 V < 65536"
proof -
  have "unat (V ! 0) < 256" "unat (V ! 1) < 256" by simp_all
  then show ?thesis unfolding CONV_ARRARY_TO_UINT16_def by linarith
qed

definition key_info_wf :: "KEY_INFO \<Rightarrow> bool" where
  "key_info_wf ki \<longleftrightarrow> take_bit 1 (ki_KeyMic ki) = ki_KeyMic ki \<and> take_bit 1 (ki_Secure ki) = ki_Secure ki
     \<and> take_bit 1 (ki_Error ki) = ki_Error ki \<and> take_bit 1 (ki_Request ki) = ki_Request ki
     \<and> take_bit 1 (ki_EKD_DL ki) = ki_EKD_DL ki \<and> take_bit 3 (ki_Rsvd ki) = ki_Rsvd ki
     \<and> take_bit 3 (ki_KeyDescVer ki) = ki_KeyDescVer ki \<and> take_bit 1 (ki_KeyType ki) = ki_KeyType ki
     \<and> take_bit 2 (ki_KeyIndex ki) = ki_KeyIndex ki \<and> take_bit 1 (ki_Install ki) = ki_Install ki
     \<and> take_bit 1 (ki_KeyAck ki) = ki_KeyAck ki"

definition eapol_wf :: "EAPOL_PACKET \<Rightarrow> bool" where
  "eapol_wf p \<longleftrightarrow> length (ep_Body_Len p) = 2 \<and> key_info_wf (kd_KeyInfo p) \<and> length (kd_KeyLength p) = 2
     \<and> length (kd_ReplayCounter p) = 8 \<and> length (kd_KeyNonce p) = 32 \<and> length (kd_KeyIv p) = 16 \<and> length (kd_KeyRsc p) = 8
     \<and> length (kd_KeyId p) = 8 \<and> length (kd_KeyMic p) = 16 \<and> length (kd_KeyDataLen p) = 2"

lemma length_key_info_bytes [simp]: "length (key_info_bytes ki) = 2"
  by (simp add: key_info_bytes_def)

lemma length_eapol_bytes: "eapol_wf p \<Longrightarrow> length (eapol_bytes p) = 99 + length (kd_KeyData p)"
  by (simp add: eapol_bytes_def eapol_wf_def)

text \<open>The bit fields of each octet are disjoint.\<close>

lemma key_info_octets: "key_info_bytes (key_info_of b0 b1) = [b0, b1]"
proof -
  have "take_bit 1 b OR push_bit 1 (take_bit 1 (drop_bit 1 b)) OR push_bit 2 (take_bit 1 (drop_bit 2 b))
      OR push_bit 3 (take_bit 1 (drop_bit 3 b)) OR push_bit 4 (take_bit 1 (drop_bit 4 b)) OR push_bit 5 (take_bit 3 (drop_bit 5 b)) = b"
    and "take_bit 3 b OR push_bit 3 (take_bit 1 (drop_bit 3 b)) OR push_bit 4 (take_bit 2 (drop_bit 4 b))
      OR push_bit 6 (take_bit 1 (drop_bit 6 b)) OR push_bit 7 (take_bit 1 (drop_bit 7 b)) = b" for b :: UINT8
    by (rule all_bytes, code_simp)+
  then show ?thesis
    by (simp only: key_info_bytes_def key_info_of_def KEY_INFO.simps take_bit_take_bit min.idem)
qed

lemma key_info_wf_of [simp]: "key_info_wf (key_info_of b0 b1)"
proof -
  have "take_bit 3 (drop_bit 5 b) = drop_bit 5 b \<and> take_bit 1 (drop_bit 7 b) = drop_bit 7 b" for b :: UINT8
    by (rule all_bytes [of "\<lambda>b. take_bit 3 (drop_bit 5 b) = drop_bit 5 b \<and> take_bit 1 (drop_bit 7 b) = drop_bit 7 b"]) code_simp
  then show ?thesis
    by (simp only: key_info_wf_def key_info_of_def KEY_INFO.simps take_bit_take_bit min.idem simp_thms)
qed

text \<open>Fields of one, two and three bits have the values of these lists, so that the packing can be checked value by value.\<close>

lemma field_values:
  fixes x :: UINT8
  shows "take_bit 1 x = x \<Longrightarrow> x \<in> set [0, 1]" "take_bit 2 x = x \<Longrightarrow> x \<in> set [0, 1, 2, 3]"
    "take_bit 3 x = x \<Longrightarrow> x \<in> set [0, 1, 2, 3, 4, 5, 6, 7]"
proof -
  have "(take_bit 1 x = x \<longrightarrow> List.member [0, 1] x) \<and> (take_bit 2 x = x \<longrightarrow> List.member [0, 1, 2, 3] x)
      \<and> (take_bit 3 x = x \<longrightarrow> List.member [0, 1, 2, 3, 4, 5, 6, 7] x)"
    by (rule all_bytes [of "\<lambda>x. (take_bit 1 x = x \<longrightarrow> List.member [0, 1] x) \<and> (take_bit 2 x = x \<longrightarrow> List.member [0, 1, 2, 3] x)
      \<and> (take_bit 3 x = x \<longrightarrow> List.member [0, 1, 2, 3, 4, 5, 6, 7] x)"]) code_simp
  then show "take_bit 1 x = x \<Longrightarrow> x \<in> set [0, 1]" "take_bit 2 x = x \<Longrightarrow> x \<in> set [0, 1, 2, 3]"
    "take_bit 3 x = x \<Longrightarrow> x \<in> set [0, 1, 2, 3, 4, 5, 6, 7]" by (simp_all only: List.member_iff)
qed

lemma octet0_table:
  "list_all (\<lambda>m. list_all (\<lambda>s. list_all (\<lambda>e. list_all (\<lambda>r. list_all (\<lambda>k. list_all (\<lambda>v :: UINT8.
     let x = take_bit 1 m OR push_bit 1 (take_bit 1 s) OR push_bit 2 (take_bit 1 e) OR push_bit 3 (take_bit 1 r)
           OR push_bit 4 (take_bit 1 k) OR push_bit 5 (take_bit 3 v)
     in take_bit 1 x = m \<and> take_bit 1 (drop_bit 1 x) = s \<and> take_bit 1 (drop_bit 2 x) = e \<and> take_bit 1 (drop_bit 3 x) = r
        \<and> take_bit 1 (drop_bit 4 x) = k \<and> drop_bit 5 x = v)
   [0, 1, 2, 3, 4, 5, 6, 7]) [0, 1]) [0, 1]) [0, 1]) [0, 1]) [0, 1]"
  by code_simp

lemma octet1_table:
  "list_all (\<lambda>d :: UINT8. list_all (\<lambda>t. list_all (\<lambda>i. list_all (\<lambda>n. list_all (\<lambda>a.
     let x = take_bit 3 d OR push_bit 3 (take_bit 1 t) OR push_bit 4 (take_bit 2 i) OR push_bit 6 (take_bit 1 n)
           OR push_bit 7 (take_bit 1 a)
     in take_bit 3 x = d \<and> take_bit 1 (drop_bit 3 x) = t \<and> take_bit 2 (drop_bit 4 x) = i \<and> take_bit 1 (drop_bit 6 x) = n
        \<and> drop_bit 7 x = a)
   [0, 1]) [0, 1]) [0, 1, 2, 3]) [0, 1]) [0, 1, 2, 3, 4, 5, 6, 7]"
  by code_simp

lemma key_info_roundtrip:
  assumes "key_info_wf ki"
  shows "key_info_of (key_info_bytes ki ! 0) (key_info_bytes ki ! 1) = ki"
proof -
  note v = assms [unfolded key_info_wf_def]
  have vals: "ki_KeyMic ki \<in> set [0, 1]" "ki_Secure ki \<in> set [0, 1]" "ki_Error ki \<in> set [0, 1]" "ki_Request ki \<in> set [0, 1]"
    "ki_EKD_DL ki \<in> set [0, 1]" "ki_Rsvd ki \<in> set [0, 1, 2, 3, 4, 5, 6, 7]" "ki_KeyDescVer ki \<in> set [0, 1, 2, 3, 4, 5, 6, 7]"
    "ki_KeyType ki \<in> set [0, 1]" "ki_KeyIndex ki \<in> set [0, 1, 2, 3]" "ki_Install ki \<in> set [0, 1]" "ki_KeyAck ki \<in> set [0, 1]"
    using v field_values by blast+
  note o0 = octet0_table [unfolded list_all_iff Let_def, rule_format, OF vals(1-6)]
  note o1 = octet1_table [unfolded list_all_iff Let_def, rule_format, OF vals(7-11)]
  show ?thesis
    unfolding key_info_bytes_def key_info_of_def using o0 o1 by (cases ki) simp
qed

lemma eapol_of_bytes:
  assumes "eapol_wf p"
  shows "eapol_of (eapol_bytes p) = p"
proof -
  obtain b0 b1 where b: "key_info_bytes (kd_KeyInfo p) = [b0, b1]"
    by (simp add: key_info_bytes_def)
  have ki: "key_info_of b0 b1 = kd_KeyInfo p"
    using key_info_roundtrip [of "kd_KeyInfo p"] assms b by (simp add: eapol_wf_def)
  show ?thesis
    using assms unfolding eapol_wf_def eapol_of_def eapol_bytes_def b
    by (cases p) (simp add: ki [simplified] nth_append numeral_eq_Suc)
qed

lemma eapol_wf_of: "99 \<le> length buf \<Longrightarrow> eapol_wf (eapol_of buf)"
  by (simp add: eapol_wf_def eapol_of_def)

lemma eapol_bytes_of:
  assumes "99 \<le> length buf"
  shows "eapol_bytes (eapol_of buf) = buf"
proof -
  have cut: "take n (drop k buf) @ drop (n + k) buf = drop k buf" for n k
    by (metis append_take_drop_id drop_drop)
  have one: "buf ! k # drop (Suc k) buf = drop k buf" if "k < 99" for k
    using that assms by (simp add: Cons_nth_drop_Suc)
  have two: "buf ! 1 # drop 2 buf = drop 1 buf" using one [of 1] by (simp add: numeral_2_eq_2)
  show ?thesis
    unfolding eapol_bytes_def eapol_of_def EAPOL_PACKET.simps key_info_octets append.simps
    using cut [of 2 97] cut [of 16 81] cut [of 8 73] cut [of 8 65] cut [of 16 49] cut [of 32 17] cut [of 8 9] cut [of 2 7]
      one [of 6] one [of 5] one [of 4] cut [of 2 2] two one [of 0]
    by simp
qed

end
