(* ===== verification/WpaFrame.thy ===== *)
theory WpaFrame
  imports WpaPacket Tkip "HOL-Library.Monad_Syntax"
begin

text \<open>
  The construction of EAPOL-Key frames in \<^verbatim>\<open>common/cmm_wpa.c\<close>: the key data field with its RSN element and GTK
  encapsulation, the message integrity code and the six messages of the handshakes.  A pointer that may be
  NULL is an option; \<open>None\<close> as a result is an access outside a buffer or through NULL.  The answers of
  the allocator, with the uninitialised memory they hand out, are collected in the record \<open>wpa_mem\<close>.
\<close>

section \<open>The entry of a peer\<close>

text \<open>The fields of \<^verbatim>\<open>MAC_TABLE_ENTRY\<close> that the handshakes use.\<close>

record WPA_ENTRY =
  we_Addr :: bytes
  we_EntryType :: nat
  we_apidx :: nat
  we_Aid :: nat
  we_AuthMode :: nat
  we_WepStatus :: nat
  we_Sst :: nat
  we_WpaState :: nat
  we_GTKState :: nat
  we_PortSecured :: nat
  we_PrivacyFilter :: nat
  we_R_Counter :: bytes
  we_ANonce :: bytes
  we_SNonce :: bytes
  we_PTK :: bytes
  we_PairwiseKey :: CIPHER_KEY
  we_ReTryCounter :: nat
  we_PMKID_CacheIdx :: int
  we_EnqueueEapolStartTimerRunning :: nat

text \<open>What the allocator answers: the pools of the output frame, of the key data and of the MIC calculation,
  the buffers of the derivations, the contexts of the ciphers, the packet, and the stack memory behind \<^verbatim>\<open>PTK[80]\<close>.\<close>

record wpa_mem =
  wm_KEYDATA :: bool
  wm_mpool :: bool
  wm_keydata_pool :: "bytes option"
  wm_mic_pool :: bool
  wm_aes :: "AES_CTX_STRUC option"
  wm_wrap :: bool
  wm_arc4 :: bool
  wm_prf :: "bytes option"
  wm_nonce :: "nat \<Rightarrow> bytes option"
  wm_uptime :: "nat \<Rightarrow> UINT32"
  wm_packet :: bool
  wm_stack :: bytes

definition is_WPA2 :: "nat \<Rightarrow> bool" where
  "is_WPA2 AuthMode \<longleftrightarrow> AuthMode = Ndis802_11AuthModeWPA2 \<or> AuthMode = Ndis802_11AuthModeWPA2PSK"

section \<open>Key data\<close>

text \<open>The sequence of strings that \<^verbatim>\<open>MakeOutgoingFrame\<close> copies, and the length it reports.\<close>

definition MakeOutgoingFrame :: "bytes \<Rightarrow> bytes list \<Rightarrow> bytes \<times> nat" where
  "MakeOutgoingFrame Buffer parts =
     fold (\<lambda>p (Buffer, TotLeng). (NdisMoveMemory Buffer TotLeng p, TotLeng + length p)) parts (Buffer, 0)"

definition WPA_ConstructKdeHdr :: "UINT8 \<Rightarrow> UINT8 \<Rightarrow> bytes \<Rightarrow> nat \<Rightarrow> bytes" where
  "WPA_ConstructKdeHdr data_type data_len buf off =
     NdisMoveMemory buf off ([WPA_KDE_TYPE, 4 + data_len] @ OUI_WPA2 @ [data_type])"

text \<open>\<open>pFrameBuf\<close> is \<open>buf\<close> at \<open>off\<close>; the result is the buffer and the new frame length.\<close>

definition RTMPInsertRSNIE :: "bytes \<Rightarrow> nat \<Rightarrow> nat \<Rightarrow> bytes \<Rightarrow> bytes \<Rightarrow> bytes \<times> nat" where
  "RTMPInsertRSNIE buf off FrameLen rsnie pmkid =
    (let pmkid_len = length pmkid; rsnie_len = length rsnie;
         list_ok = (pmkid_len > 0 \<and> pmkid_len mod 16 = 0);
         extra_len = (if list_ok then 2 + pmkid_len else 0);
         pmk_count = (if list_ok then pmkid_len div 16 else 0)
     in if rsnie_len = 0 then (buf, FrameLen)
        else
          let rsn = (take 3 (drop 2 rsnie) = OUI_WPA2);
              ie_num = (if rsn then IE_RSN else IE_WPA);
              total_len = word_of_nat (if rsn then rsnie_len + extra_len else rsnie_len) :: UINT8;
              (tmp, TempLen) = MakeOutgoingFrame (drop off buf) [[ie_num], [total_len], rsnie];
              buf = take off buf @ tmp; off = off + TempLen; FrameLen = FrameLen + TempLen
          in if ie_num = IE_RSN \<and> extra_len > 0
             then let (tmp, TempLen) = MakeOutgoingFrame (drop off buf) [bytes_le16 (word_of_nat pmk_count), pmkid]
                  in (take off buf @ tmp, FrameLen + TempLen)
             else (buf, FrameLen))"

text \<open>The two parts of \<^verbatim>\<open>ConstructEapolKeyData\<close> that handle the group key: its encapsulation behind \<open>data_offset\<close>, and
  the encryption of the whole field with the KEK.\<close>

definition key_data_gtk :: "bool \<Rightarrow> nat \<Rightarrow> UINT8 \<Rightarrow> bytes option \<Rightarrow> bytes \<Rightarrow> nat \<Rightarrow> (bytes \<times> nat) option" where
  "key_data_gtk bWPA2Capable GroupKeyWepStatus DefaultKeyIdx GTK Key_Data data_offset =
    (let gtk_len = (if GroupKeyWepStatus = Ndis802_11Encryption3Enabled then LEN_AES_GTK else LEN_TKIP_GTK);
         (Key_Data, data_offset) =
           (if bWPA2Capable then
              let Key_Data = WPA_ConstructKdeHdr KDE_GTK (word_of_nat (2 + gtk_len)) Key_Data data_offset;
                  data_offset = data_offset + 6;
                  Key_Data = Key_Data[data_offset := DefaultKeyIdx AND 0x03, data_offset + 1 := 0x00]
              in (Key_Data, data_offset + 2)
            else (Key_Data, data_offset))
     in case GTK of None \<Rightarrow> None
        | Some gtk \<Rightarrow> if gtk_len > length gtk then None
            else Some (NdisMoveMemory Key_Data data_offset (take gtk_len gtk), data_offset + gtk_len))"

definition key_data_encrypt ::
  "wpa_mem \<Rightarrow> UINT8 \<Rightarrow> bytes \<Rightarrow> bytes \<Rightarrow> bytes \<Rightarrow> bytes \<Rightarrow> nat \<Rightarrow> bytes \<times> nat" where
  "key_data_encrypt env keyDescVer PTK KeyIv eGTK Key_Data data_offset =
    (if keyDescVer = KEY_DESC_AES then
       let remainder = data_offset mod 8;
           (Key_Data, data_offset) =
             (if remainder \<noteq> 0
              then (NdisMoveMemory Key_Data data_offset (0xDD # replicate (8 - remainder - 1) 0), data_offset + (8 - remainder))
              else (Key_Data, data_offset));
           (rc, eGTK, wrap_len) = AES_Key_Wrap (wm_aes env) (wm_wrap env) Key_Data data_offset
                                    (take LEN_PTK_KEK (drop LEN_PTK_KCK PTK)) LEN_PTK_KEK eGTK 0
       in (eGTK, wrap_len)
     else (TKIP_GTK_KEY_WRAP (wm_arc4 env) (drop LEN_PTK_KCK PTK) KeyIv Key_Data data_offset eGTK, data_offset))"

definition ConstructEapolKeyData ::
  "wpa_mem \<Rightarrow> WPA_ENTRY \<Rightarrow> nat \<Rightarrow> UINT8 \<Rightarrow> nat \<Rightarrow> UINT8 \<Rightarrow> bytes option \<Rightarrow> bytes \<Rightarrow> EAPOL_PACKET \<Rightarrow> EAPOL_PACKET option" where
  "ConstructEapolKeyData env pEntry GroupKeyWepStatus keyDescVer MsgType DefaultKeyIdx GTK RSNIE pMsg =
    (let bWPA2Capable = is_WPA2 (we_AuthMode pEntry)
     in if MsgType = EAPOL_PAIR_MSG_1 \<or> MsgType = EAPOL_PAIR_MSG_4 \<or> MsgType = EAPOL_GROUP_MSG_2 then Some pMsg
        else case wm_keydata_pool env of None \<Rightarrow> Some pMsg
        | Some eGTK \<Rightarrow> do {
            let Key_Data = NdisZeroMemory 512;
            let pMsg = pMsg\<lparr>kd_KeyDataLen := SET_UINT16_TO_ARRARY 0\<rparr>;
            let (Key_Data, data_offset) =
                  (if RSNIE \<noteq> [] \<and> (MsgType = EAPOL_PAIR_MSG_2 \<or> MsgType = EAPOL_PAIR_MSG_3)
                   then RTMPInsertRSNIE Key_Data 0 0 RSNIE [] else (Key_Data, 0));
            (field, data_offset) \<leftarrow>
               (if (MsgType = EAPOL_PAIR_MSG_3 \<and> bWPA2Capable) \<or> MsgType = EAPOL_GROUP_MSG_1 then do {
                  (Key_Data, data_offset) \<leftarrow> key_data_gtk bWPA2Capable GroupKeyWepStatus DefaultKeyIdx GTK Key_Data data_offset;
                  Some (key_data_encrypt env keyDescVer (we_PTK pEntry) (kd_KeyIv pMsg) eGTK Key_Data data_offset)
                } else Some (Key_Data, data_offset));
            let pMsg = pMsg\<lparr>kd_KeyData := NdisMoveMemory (kd_KeyData pMsg) 0 (take data_offset field)\<rparr>;
            Some (pMsg\<lparr>kd_KeyDataLen := SET_UINT16_TO_ARRARY data_offset,
                       ep_Body_Len := INC_UINT16_TO_ARRARY (ep_Body_Len pMsg) data_offset\<rparr>)
          })"

section \<open>The message integrity code\<close>

text \<open>The computation shared by \<^verbatim>\<open>CalculateMIC\<close> and \<^verbatim>\<open>PeerWpaMessageSanity\<close>; for any other descriptor version
  \<^verbatim>\<open>mic\<close> keeps its zeros.\<close>

definition eapol_mic :: "wpa_mem \<Rightarrow> UINT8 \<Rightarrow> bytes \<Rightarrow> bytes \<Rightarrow> bytes" where
  "eapol_mic env KeyDescVer PTK frame =
    (let mic = NdisZeroMemory LEN_KEY_DESC_MIC; KCK = take LEN_PTK_KCK PTK
     in if KeyDescVer = KEY_DESC_AES then
          let digest = RT_HMAC_SHA1 KCK frame SHA1_DIGEST_SIZE in NdisMoveMemory mic 0 (take LEN_KEY_DESC_MIC digest)
        else if KeyDescVer = KEY_DESC_TKIP then NdisMoveMemory mic 0 (RT_HMAC_MD5 KCK frame 16)
        else if KeyDescVer = KEY_DESC_EXT then fst (AES_CMAC (wm_aes env) frame (length frame) KCK LEN_PTK_KCK mic 16)
        else mic)"

definition CalculateMIC :: "wpa_mem \<Rightarrow> UINT8 \<Rightarrow> bytes \<Rightarrow> EAPOL_PACKET \<Rightarrow> EAPOL_PACKET option" where
  "CalculateMIC env KeyDescVer PTK pMsg =
    (let n = CONV_ARRARY_TO_UINT16 (ep_Body_Len pMsg) + 4
     in if \<not> wm_mic_pool env then Some pMsg
        else if n > 512 \<or> n > length (eapol_bytes pMsg) then None
        else
          let (OutBuffer, FrameLen) = MakeOutgoingFrame (NdisZeroMemory 512) [take n (eapol_bytes pMsg)]
          in Some (pMsg\<lparr>kd_KeyMic := eapol_mic env KeyDescVer PTK (take FrameLen OutBuffer)\<rparr>))"

section \<open>The six messages\<close>

definition eapol_desc_ver :: "nat \<Rightarrow> nat \<Rightarrow> UINT8" where
  "eapol_desc_ver WepStatus GroupKeyWepStatus =
    (if WepStatus = Ndis802_11Encryption3Enabled \<or> GroupKeyWepStatus = Ndis802_11Encryption3Enabled
     then KEY_DESC_AES else KEY_DESC_TKIP)"

definition eapol_key_info :: "bool \<Rightarrow> nat \<Rightarrow> UINT8 \<Rightarrow> UINT8 \<Rightarrow> KEY_INFO \<Rightarrow> KEY_INFO" where
  "eapol_key_info bWPA2 MsgType KeyDescVer DefaultKeyIdx ki =
    (let ki = ki\<lparr>ki_KeyDescVer := KeyDescVer\<rparr>;
         ki = ki\<lparr>ki_KeyType := (if MsgType \<ge> EAPOL_GROUP_MSG_1 then GROUPKEY else PAIRWISEKEY)\<rparr>;
         ki = (if \<not> bWPA2 \<and> MsgType \<ge> EAPOL_GROUP_MSG_1 then ki\<lparr>ki_KeyIndex := take_bit 2 DefaultKeyIdx\<rparr> else ki);
         ki = (if MsgType = EAPOL_PAIR_MSG_3 then ki\<lparr>ki_Install := 1\<rparr> else ki);
         ki = (if MsgType = EAPOL_PAIR_MSG_1 \<or> MsgType = EAPOL_PAIR_MSG_3 \<or> MsgType = EAPOL_GROUP_MSG_1
               then ki\<lparr>ki_KeyAck := 1\<rparr> else ki);
         ki = (if MsgType \<noteq> EAPOL_PAIR_MSG_1 then ki\<lparr>ki_KeyMic := 1\<rparr> else ki);
         ki = (if (bWPA2 \<and> MsgType \<ge> EAPOL_PAIR_MSG_3) \<or> (\<not> bWPA2 \<and> MsgType \<ge> EAPOL_GROUP_MSG_1)
               then ki\<lparr>ki_Secure := 1\<rparr> else ki)
     in if bWPA2 \<and> (MsgType = EAPOL_PAIR_MSG_3 \<or> MsgType = EAPOL_GROUP_MSG_1) then ki\<lparr>ki_EKD_DL := 1\<rparr> else ki)"

definition eapol_key_length :: "bool \<Rightarrow> nat \<Rightarrow> nat \<Rightarrow> nat \<Rightarrow> bytes \<Rightarrow> bytes" where
  "eapol_key_length bWPA2 MsgType WepStatus GroupKeyWepStatus KeyLength =
    (let tk = (if WepStatus = Ndis802_11Encryption2Enabled then LEN_TKIP_TK else LEN_AES_TK);
         gtk = (if GroupKeyWepStatus = Ndis802_11Encryption2Enabled then LEN_TKIP_GTK else LEN_AES_GTK)
     in if bWPA2 then
          (if MsgType = EAPOL_PAIR_MSG_1 \<or> MsgType = EAPOL_PAIR_MSG_3 then KeyLength[1 := word_of_nat tk] else KeyLength)
        else if MsgType \<ge> EAPOL_GROUP_MSG_1 then KeyLength[1 := word_of_nat gtk] else KeyLength[1 := word_of_nat tk])"

text \<open>A copy of \<open>n\<close> octets from a pointer that may be NULL.\<close>

definition copy_from :: "bytes option \<Rightarrow> nat \<Rightarrow> nat \<Rightarrow> bytes option" where
  "copy_from p off n = (case p of None \<Rightarrow> None | Some xs \<Rightarrow> if off + n > length xs then None else Some (take n (drop off xs)))"

definition ConstructEapolMsg ::
  "wpa_mem \<Rightarrow> WPA_ENTRY \<Rightarrow> nat \<Rightarrow> nat \<Rightarrow> UINT8 \<Rightarrow> bytes option \<Rightarrow> bytes option \<Rightarrow> bytes option \<Rightarrow> bytes \<Rightarrow> EAPOL_PACKET
    \<Rightarrow> EAPOL_PACKET option" where
  "ConstructEapolMsg env pEntry GroupKeyWepStatus MsgType DefaultKeyIdx KeyNonce TxRSC GTK RSNIE pMsg = do {
     let bWPA2 = is_WPA2 (we_AuthMode pEntry);
     let pMsg = pMsg\<lparr>ep_ProVer := EAPOL_VER, ep_ProType := EAPOLKey,
                     ep_Body_Len := SET_UINT16_TO_ARRARY MIN_LEN_OF_EAPOL_KEY_MSG,
                     kd_Type := (if bWPA2 then WPA2_KEY_DESC else WPA1_KEY_DESC)\<rparr>;
     let KeyDescVer = eapol_desc_ver (we_WepStatus pEntry) GroupKeyWepStatus;
     let pMsg = pMsg\<lparr>kd_KeyInfo := eapol_key_info bWPA2 MsgType KeyDescVer DefaultKeyIdx (kd_KeyInfo pMsg)\<rparr>;
     let pMsg = pMsg\<lparr>kd_KeyLength := eapol_key_length bWPA2 MsgType (we_WepStatus pEntry) GroupKeyWepStatus (kd_KeyLength pMsg),
                     kd_ReplayCounter := we_R_Counter pEntry\<rparr>;
     pMsg \<leftarrow> (if MsgType \<le> EAPOL_PAIR_MSG_3 \<or> (\<not> bWPA2 \<and> MsgType = EAPOL_GROUP_MSG_1)
             then do { n \<leftarrow> copy_from KeyNonce 0 LEN_KEY_DESC_NONCE; Some (pMsg\<lparr>kd_KeyNonce := n\<rparr>) } else Some pMsg);
     pMsg \<leftarrow> (if \<not> bWPA2 \<and> MsgType = EAPOL_GROUP_MSG_1
             then do { iv \<leftarrow> copy_from KeyNonce 16 LEN_KEY_DESC_IV; Some (pMsg\<lparr>kd_KeyIv := iv[15 := iv ! 15 + 2]\<rparr>) } else Some pMsg);
     pMsg \<leftarrow> (if (MsgType = EAPOL_PAIR_MSG_3 \<and> bWPA2) \<or> MsgType = EAPOL_GROUP_MSG_1
             then do { rsc \<leftarrow> copy_from TxRSC 0 6; Some (pMsg\<lparr>kd_KeyRsc := NdisMoveMemory (kd_KeyRsc pMsg) 0 rsc\<rparr>) } else Some pMsg);
     let pMsg = pMsg\<lparr>kd_KeyMic := NdisZeroMemory LEN_KEY_DESC_MIC\<rparr>;
     pMsg \<leftarrow> ConstructEapolKeyData env pEntry GroupKeyWepStatus KeyDescVer MsgType DefaultKeyIdx GTK RSNIE pMsg;
     (if MsgType \<noteq> EAPOL_PAIR_MSG_1 then CalculateMIC env KeyDescVer (we_PTK pEntry) pMsg else Some pMsg)
   }"

text \<open>\<^verbatim>\<open>NdisZeroMemory(pEapolFrame, TX_EAPOL_BUFFER)\<close>.\<close>

definition eapol_zero :: EAPOL_PACKET where
  "eapol_zero = eapol_of (NdisZeroMemory TX_EAPOL_BUFFER)"

section \<open>What the construction yields\<close>

lemma MakeOutgoingFrame_concat:
  assumes "length (concat parts) \<le> length Buffer"
  shows "MakeOutgoingFrame Buffer parts = (concat parts @ drop (length (concat parts)) Buffer, length (concat parts))"
proof -
  have "fold (\<lambda>p (Buffer, TotLeng). (NdisMoveMemory Buffer TotLeng p, TotLeng + length p)) parts (pre @ B, length pre)
    = (pre @ concat parts @ drop (length (concat parts)) B, length pre + length (concat parts))"
    if "length (concat parts) \<le> length B" for pre B
    using that
  proof (induction parts arbitrary: pre B)
    case (Cons p parts)
    have "NdisMoveMemory (pre @ B) (length pre) p = (pre @ p) @ drop (length p) B"
      by (simp add: NdisMoveMemory_def)
    then show ?case
      using Cons.IH [of "drop (length p) B" "pre @ p"] Cons.prems by (simp add: add.assoc add.commute)
  qed simp
  from this [of Buffer "[]"] assms show ?thesis by (simp add: MakeOutgoingFrame_def)
qed

text \<open>The plain key data of message 3: the RSN element, then the key encapsulation.\<close>

definition rsn_element :: "bytes \<Rightarrow> bytes" where
  "rsn_element RSNIE = (if RSNIE = [] then []
     else [if take 3 (drop 2 RSNIE) = OUI_WPA2 then IE_RSN else IE_WPA, word_of_nat (length RSNIE)] @ RSNIE)"

definition gtk_kde :: "UINT8 \<Rightarrow> bytes \<Rightarrow> bytes" where
  "gtk_kde idx gtk = [WPA_KDE_TYPE, word_of_nat (6 + length gtk)] @ OUI_WPA2 @ [KDE_GTK, idx AND 3, 0] @ gtk"

lemma length_OUI_WPA2 [simp]: "length OUI_WPA2 = 3"
  by (simp add: OUI_WPA2_def)

lemma length_gtk_kde [simp]: "length (gtk_kde idx gtk) = 8 + length gtk"
  by (simp add: gtk_kde_def)

lemma length_rsn_element: "length (rsn_element RSNIE) = (if RSNIE = [] then 0 else 2 + length RSNIE)"
  by (simp add: rsn_element_def)

lemma RTMPInsertRSNIE_element:
  assumes "length RSNIE + 2 \<le> n"
  shows "RTMPInsertRSNIE (NdisZeroMemory n) 0 0 RSNIE []
    = (rsn_element RSNIE @ NdisZeroMemory (n - length (rsn_element RSNIE)), length (rsn_element RSNIE))"
  using assms by (simp add: RTMPInsertRSNIE_def rsn_element_def MakeOutgoingFrame_concat NdisZeroMemory_def Let_def)

lemma append_zero_split: "k \<le> n \<Longrightarrow> NdisZeroMemory n = NdisZeroMemory k @ NdisZeroMemory (n - k)"
  by (simp add: NdisZeroMemory_def flip: replicate_add)

lemma move_behind:
  assumes "length src \<le> n"
  shows "NdisMoveMemory (xs @ NdisZeroMemory n) (length xs) src = xs @ src @ NdisZeroMemory (n - length src)"
  using assms by (simp add: NdisMoveMemory_def NdisZeroMemory_def)

lemma key_data_gtk_wpa2:
  assumes "length gtk = (if g = Ndis802_11Encryption3Enabled then 16 else 32)" "8 + length gtk \<le> n"
  shows "key_data_gtk True g idx (Some gtk) (K @ NdisZeroMemory n) (length K)
    = Some (K @ gtk_kde idx gtk @ NdisZeroMemory (n - (8 + length gtk)), length K + 8 + length gtk)"
proof -
  let ?h = "[WPA_KDE_TYPE, 4 + word_of_nat (2 + length gtk)] @ OUI_WPA2 @ [KDE_GTK]"
  have h: "WPA_ConstructKdeHdr KDE_GTK (word_of_nat (2 + length gtk)) (K @ NdisZeroMemory n) (length K)
      = (K @ ?h) @ [0, 0] @ NdisZeroMemory (n - 8)"
    using assms(2) append_zero_split [of 2 "n - 6"]
    by (simp add: WPA_ConstructKdeHdr_def move_behind) (simp add: NdisZeroMemory_def numeral_2_eq_2)
  have u: "((K @ ?h) @ [0, 0] @ Z)[length K + 6 := a, length K + 6 + 1 := b] = K @ ?h @ [a, b] @ Z" for a b Z
    by (simp add: list_update_append OUI_WPA2_def)
  have m: "NdisMoveMemory (K @ ?h @ [a, b] @ NdisZeroMemory (n - 8)) (length K + 6 + 2) gtk
      = K @ ?h @ [a, b] @ gtk @ NdisZeroMemory (n - (8 + length gtk))" for a b
    using move_behind [of gtk "n - 8" "K @ ?h @ [a, b]"] assms(2) by (simp add: add.commute)
  have len: "(if g = Ndis802_11Encryption3Enabled then LEN_AES_GTK else LEN_TKIP_GTK) = length gtk" using assms(1) by simp
  show ?thesis
    unfolding key_data_gtk_def len h Let_def if_True u prod.case option.case m
    using m [of "idx AND 3" 0] by (simp add: gtk_kde_def add.commute)
qed

text \<open>The field that is encrypted: for the key wrap padded to a multiple of eight octets with 0xDD and zeros.\<close>

definition kd_padded :: "UINT8 \<Rightarrow> bytes \<Rightarrow> bytes" where
  "kd_padded ver K = (if ver = KEY_DESC_AES \<and> length K mod 8 \<noteq> 0 then K @ 0xDD # replicate (7 - length K mod 8) 0 else K)"

lemma length_kd_padded: "length K \<le> length (kd_padded ver K)" "length (kd_padded ver K) \<le> length K + 7"
  by (auto simp: kd_padded_def)

text \<open>Memory is available and the ciphers' contexts are usable.\<close>

definition wpa_mem_ok :: "wpa_mem \<Rightarrow> bool" where
  "wpa_mem_ok env \<longleftrightarrow> wm_KEYDATA env \<and> wm_mpool env \<and> wm_mic_pool env \<and> wm_wrap env \<and> wm_arc4 env \<and> wm_packet env
     \<and> (case wm_aes env of None \<Rightarrow> False | Some ctx \<Rightarrow> aes_ctx_wf ctx)
     \<and> (case wm_keydata_pool env of None \<Rightarrow> False | Some eGTK \<Rightarrow> length eGTK = 512)
     \<and> (case wm_prf env of None \<Rightarrow> False | Some buf \<Rightarrow> length buf = 1024)
     \<and> (\<forall>i. case wm_nonce env i of None \<Rightarrow> False | Some buf \<Rightarrow> length buf = 1024)
     \<and> length (wm_stack env) = 80"

lemma key_data_encrypt_eq:
  assumes "length K + 8 \<le> 500"
  shows "key_data_encrypt env ver PTK iv eGTK (K @ NdisZeroMemory (512 - length K)) (length K) =
    (if ver = KEY_DESC_AES
     then let (rc, e, n) = AES_Key_Wrap (wm_aes env) (wm_wrap env) (kd_padded ver K @ NdisZeroMemory (512 - length (kd_padded ver K)))
            (length (kd_padded ver K)) (take 16 (drop 16 PTK)) 16 eGTK 0 in (e, n)
     else (TKIP_GTK_KEY_WRAP (wm_arc4 env) (drop 16 PTK) iv (K @ NdisZeroMemory (512 - length K)) (length K) eGTK, length K))"
proof (cases "ver = KEY_DESC_AES \<and> length K mod 8 \<noteq> 0")
  case True
  let ?pad = "0xDD # replicate (7 - length K mod 8) (0 :: UINT8)"
  have l: "length ?pad = 8 - length K mod 8" using mod_less_divisor [of 8 "length K"] by simp
  have p: "0xDD # replicate (8 - length K mod 8 - 1) 0 = ?pad" by simp
  have "NdisMoveMemory (K @ NdisZeroMemory (512 - length K)) (length K) ?pad = K @ ?pad @ NdisZeroMemory (512 - length (K @ ?pad))"
    using assms l move_behind [of ?pad "512 - length K" K] by simp
  moreover have "length K + (8 - length K mod 8) = length (K @ ?pad)" using l by simp
  ultimately show ?thesis
    using True unfolding key_data_encrypt_def kd_padded_def Let_def p by simp
next
  case False
  then show ?thesis by (auto simp: key_data_encrypt_def kd_padded_def Let_def)
qed

end
