(* ===== verification/WpaHandshake.thy ===== *)
theory WpaHandshake
  imports WpaFrame MlmeQueue
begin

text \<open>
  The handlers of \<^verbatim>\<open>common/cmm_wpa.c\<close> that receive EAPOL-Key frames, as they are compiled for a station: the checks of
  \<^verbatim>\<open>PeerWpaMessageSanity\<close>, the parser of the key data, the installation of pairwise and group keys, the
  actions for the messages of the four-way and the group handshake, and the dispatcher
  \<^verbatim>\<open>WpaEAPOLKeyAction\<close>.  The handlers of the authenticator are compiled too, with the pointers to the BSS and its
  keys left NULL.  Commands to the chip, events to user space and frames sent are recorded in order.
\<close>

abbreviation (input) AS_INITPMK :: nat where "AS_INITPMK \<equiv> 6"
abbreviation (input) AS_INITPSK :: nat where "AS_INITPSK \<equiv> 7"
abbreviation (input) AS_PTKSTART :: nat where "AS_PTKSTART \<equiv> 8"
abbreviation (input) AS_PTKINIT_NEGOTIATING :: nat where "AS_PTKINIT_NEGOTIATING \<equiv> 9"
abbreviation (input) AS_PTKINITDONE :: nat where "AS_PTKINITDONE \<equiv> 10"
abbreviation (input) REKEY_ESTABLISHED :: nat where "REKEY_ESTABLISHED \<equiv> 1"
abbreviation (input) WPA_802_1X_PORT_SECURED :: nat where "WPA_802_1X_PORT_SECURED \<equiv> 1"
abbreviation (input) WPA_802_1X_PORT_NOT_SECURED :: nat where "WPA_802_1X_PORT_NOT_SECURED \<equiv> 2"
abbreviation (input) Ndis802_11PrivFilterAcceptAll :: nat where "Ndis802_11PrivFilterAcceptAll \<equiv> 0"
abbreviation (input) Ndis802_11PrivFilter8021xWEP :: nat where "Ndis802_11PrivFilter8021xWEP \<equiv> 1"
abbreviation (input) SST_ASSOC :: nat where "SST_ASSOC \<equiv> 2"
abbreviation (input) ENTRY_NONE :: nat where "ENTRY_NONE \<equiv> 0"
abbreviation (input) ENTRY_CLIENT :: nat where "ENTRY_CLIENT \<equiv> 1"
abbreviation (input) ENTRY_APCLI :: nat where "ENTRY_APCLI \<equiv> 3"
abbreviation (input) CIPHER_WEP64 :: UINT8 where "CIPHER_WEP64 \<equiv> 1"
abbreviation (input) CIPHER_WEP128 :: UINT8 where "CIPHER_WEP128 \<equiv> 2"
abbreviation (input) CIPHER_TKIP :: UINT8 where "CIPHER_TKIP \<equiv> 3"
abbreviation (input) CIPHER_AES :: UINT8 where "CIPHER_AES \<equiv> 4"
abbreviation (input) BSSID_WCID :: nat where "BSSID_WCID \<equiv> 1"
abbreviation (input) MAX_LEN_OF_RSNIE :: nat where "MAX_LEN_OF_RSNIE \<equiv> 255"
abbreviation (input) MAX_LEN_GTK :: nat where "MAX_LEN_GTK \<equiv> 32"

datatype KEY_TABLE = SHAREDKEYTABLE | PAIRWISEKEYTABLE

datatype wpa_event =
    ReplayCounterDiff bytes
  | MicDiff bytes
  | SetKeyDone bool bytes
  | AsicAddPairwiseKeyEntry nat CIPHER_KEY
  | AsicAddSharedKeyEntry nat nat CIPHER_KEY
  | AsicUpdateWCIDIVEIV nat UINT32 UINT32
  | AsicUpdateWcidAttributeEntry nat nat UINT8 nat KEY_TABLE
  | STASendPacket nat bytes bytes bool
  | IndicateMediaConnected
  | CancelLinkDownTimer
  | CancelRetryTimer nat
  | ModRetryTimer nat nat
  | EnqueueEapolStart bytes

text \<open>The fields of the adapter and of its \<^verbatim>\<open>StaCfg\<close> that the handlers use.  \<open>wa_Content\<close> is \<^verbatim>\<open>MacTab.Content\<close>; a chain of the hash
  table is the list of the indexes of its entries.  \<open>wa_Connected\<close> is \<^verbatim>\<open>INFRA_ON\<close> with the media state connected,
  \<open>wa_Closed\<close> the reset and halt flags.\<close>

record WPA_ADAPTER =
  wa_CurrentAddress :: bytes
  wa_PMK :: bytes
  wa_GroupCipher :: nat
  wa_RSN_IE :: bytes
  wa_RSNIE_Len :: nat
  wa_PTK :: bytes
  wa_GTK :: bytes
  wa_DefaultKeyId :: nat
  wa_PortSecured :: nat
  wa_SharedKey :: "CIPHER_KEY list"
  wa_Content :: "WPA_ENTRY list"
  wa_Hash :: "nat list list"
  wa_Connected :: bool
  wa_Scanning :: bool
  wa_Channel :: nat
  wa_AuxChannel :: nat
  wa_Closed :: bool
  wa_Log :: "wpa_event list"

definition wpa_emit :: "wpa_event list \<Rightarrow> WPA_ADAPTER \<Rightarrow> WPA_ADAPTER" where
  "wpa_emit evs s = s\<lparr>wa_Log := wa_Log s @ evs\<rparr>"

definition upd_Entry :: "nat \<Rightarrow> (WPA_ENTRY \<Rightarrow> WPA_ENTRY) \<Rightarrow> WPA_ADAPTER \<Rightarrow> WPA_ADAPTER" where
  "upd_Entry w f s = s\<lparr>wa_Content := (wa_Content s)[w := f (wa_Content s ! w)]\<rparr>"

text \<open>The entry \<^verbatim>\<open>pEntry\<close> points to.\<close>

definition entry :: "WPA_ADAPTER \<Rightarrow> nat \<Rightarrow> WPA_ENTRY" where
  "entry s w = wa_Content s ! w"

definition cipher_key_zero :: CIPHER_KEY where
  "cipher_key_zero = \<lparr>ck_Key = replicate 16 0, ck_TxMic = replicate 8 0, ck_RxMic = replicate 8 0,
     ck_TxTsc = replicate 16 0, ck_RxTsc = replicate 16 0, ck_CipherAlg = 0, ck_KeyLen = 0, ck_BssId = replicate 6 0,
     ck_Type = 0\<rparr>"

section \<open>Installation of keys\<close>

text \<open>\<open>TxTsc\<close> holds the three random octets drawn for WEP.\<close>

definition RTMPSetWcidSecurityInfo :: "bytes \<Rightarrow> nat \<Rightarrow> nat \<Rightarrow> UINT8 \<Rightarrow> nat \<Rightarrow> KEY_TABLE \<Rightarrow> WPA_ADAPTER \<Rightarrow> WPA_ADAPTER" where
  "RTMPSetWcidSecurityInfo TxTsc BssIdx KeyIdx CipherAlg Wcid KeyTabFlag s =
    (let keyid = push_bit 6 (word_of_nat KeyIdx :: UINT8);
         iv = (if CipherAlg = CIPHER_WEP64 \<or> CipherAlg = CIPHER_WEP128
               then Some (push_bit 24 (ucast keyid) OR push_bit 16 (ucast (TxTsc ! 2)) OR push_bit 8 (ucast (TxTsc ! 1)) OR ucast (TxTsc ! 0))
               else if CipherAlg = CIPHER_TKIP \<or> CipherAlg = CIPHER_AES
               then Some (push_bit 24 (ucast (keyid OR 0x20)) OR 1)
               else None)
     in case iv of None \<Rightarrow> s
        | Some IV \<Rightarrow> wpa_emit [AsicUpdateWCIDIVEIV Wcid IV 0,
                              AsicUpdateWcidAttributeEntry BssIdx KeyIdx CipherAlg Wcid KeyTabFlag] s)"

text \<open>The key \<^verbatim>\<open>WPAInstallPairwiseKey\<close> writes to the entry, and the whole function.\<close>

definition pairwise_cipher :: "nat \<Rightarrow> UINT8 option" where
  "pairwise_cipher WepStatus =
    (if WepStatus = Ndis802_11Encryption2Enabled then Some CIPHER_TKIP
     else if WepStatus = Ndis802_11Encryption3Enabled then Some CIPHER_AES else None)"

definition pairwise_key :: "bool \<Rightarrow> bytes \<Rightarrow> UINT8 \<Rightarrow> CIPHER_KEY" where
  "pairwise_key bAE PTK alg =
    (let k = cipher_key_zero\<lparr>ck_CipherAlg := alg, ck_KeyLen := word_of_nat LEN_TK, ck_Key := take LEN_TK (drop 32 PTK)\<rparr>
     in if alg = CIPHER_TKIP
        then if bAE then k\<lparr>ck_TxMic := take 8 (drop 48 PTK), ck_RxMic := take 8 (drop 56 PTK)\<rparr>
             else k\<lparr>ck_TxMic := take 8 (drop 56 PTK), ck_RxMic := take 8 (drop 48 PTK)\<rparr>
        else k)"

definition WPAInstallPairwiseKey :: "nat \<Rightarrow> nat \<Rightarrow> bool \<Rightarrow> WPA_ADAPTER \<Rightarrow> WPA_ADAPTER" where
  "WPAInstallPairwiseKey BssIdx w bAE s =
    (let s = upd_Entry w (\<lambda>e. e\<lparr>we_PairwiseKey := cipher_key_zero\<rparr>) s
     in case pairwise_cipher (we_WepStatus (entry s w)) of None \<Rightarrow> s
        | Some alg \<Rightarrow>
            let s = upd_Entry w (\<lambda>e. e\<lparr>we_PairwiseKey := pairwise_key bAE (we_PTK e) alg\<rparr>) s;
                s = wpa_emit [AsicAddPairwiseKeyEntry (we_Aid (entry s w)) (we_PairwiseKey (entry s w))] s
            in RTMPSetWcidSecurityInfo [] BssIdx 0 (ck_CipherAlg (we_PairwiseKey (entry s w))) (we_Aid (entry s w)) PAIRWISEKEYTABLE s)"

definition group_cipher_alg :: "nat \<Rightarrow> UINT8 option" where
  "group_cipher_alg GroupCipher =
    (if GroupCipher = Ndis802_11GroupWEP40Enabled then Some CIPHER_WEP64
     else if GroupCipher = Ndis802_11GroupWEP104Enabled then Some CIPHER_WEP128
     else if GroupCipher = Ndis802_11Encryption2Enabled then Some CIPHER_TKIP
     else if GroupCipher = Ndis802_11Encryption3Enabled then Some CIPHER_AES else None)"

definition shared_key :: "bool \<Rightarrow> UINT8 \<Rightarrow> bytes \<Rightarrow> nat \<Rightarrow> CIPHER_KEY option" where
  "shared_key bAE alg pGtk GtkLen =
    (let k = cipher_key_zero\<lparr>ck_CipherAlg := alg\<rparr>
     in if alg = CIPHER_WEP64 \<or> alg = CIPHER_WEP128 then
          if GtkLen \<noteq> 5 \<and> GtkLen \<noteq> 13 then None
          else Some (k\<lparr>ck_KeyLen := word_of_nat GtkLen, ck_Key := NdisMoveMemory (ck_Key k) 0 (take GtkLen pGtk)\<rparr>)
        else if GtkLen < LEN_TK then None
        else
          let k = k\<lparr>ck_KeyLen := word_of_nat LEN_TK, ck_Key := take LEN_TK pGtk\<rparr>
          in Some (if alg = CIPHER_TKIP
                   then if bAE then k\<lparr>ck_TxMic := take 8 (drop 16 pGtk), ck_RxMic := take 8 (drop 24 pGtk)\<rparr>
                        else k\<lparr>ck_TxMic := take 8 (drop 24 pGtk), ck_RxMic := take 8 (drop 16 pGtk)\<rparr>
                   else k))"

text \<open>The shared keys of the only BSS of a station; \<open>Wcid\<close> is zero for a supplicant.\<close>

definition WPAInstallSharedKey :: "bytes \<Rightarrow> nat \<Rightarrow> nat \<Rightarrow> nat \<Rightarrow> bool \<Rightarrow> bytes \<Rightarrow> nat \<Rightarrow> WPA_ADAPTER \<Rightarrow> WPA_ADAPTER" where
  "WPAInstallSharedKey TxTsc GroupCipher KeyIdx Wcid bAE pGtk GtkLen s =
    (let s = s\<lparr>wa_SharedKey := (wa_SharedKey s)[KeyIdx := cipher_key_zero]\<rparr>
     in case group_cipher_alg GroupCipher of None \<Rightarrow> s
        | Some alg \<Rightarrow>
            (case shared_key bAE alg pGtk GtkLen of
               None \<Rightarrow> s\<lparr>wa_SharedKey := (wa_SharedKey s)[KeyIdx := cipher_key_zero\<lparr>ck_CipherAlg := alg\<rparr>]\<rparr>
             | Some k \<Rightarrow>
                 let s = s\<lparr>wa_SharedKey := (wa_SharedKey s)[KeyIdx := k]\<rparr>;
                     s = wpa_emit [AsicAddSharedKeyEntry 0 KeyIdx k] s
                 in if Wcid \<noteq> 0 then RTMPSetWcidSecurityInfo TxTsc 0 KeyIdx alg Wcid SHAREDKEYTABLE s else s))"

section \<open>Parsing the key data\<close>

text \<open>The loop over the elements of the key data.  \<open>Inl ()\<close> is the early return of FALSE for a short key; the
  result holds \<^verbatim>\<open>skip_offset\<close>, \<^verbatim>\<open>GTK\<close>, \<^verbatim>\<open>GTKLEN\<close> and \<^verbatim>\<open>DefaultIdx\<close>.  \<open>octets\<close> reads \<open>n\<close> octets of a buffer.\<close>

definition octets :: "bytes \<Rightarrow> nat \<Rightarrow> nat \<Rightarrow> bytes option" where
  "octets buf i n = (if i + n > length buf then None else Some (take n (drop i buf)))"

definition parse_gtk_kde :: "bytes \<Rightarrow> nat \<Rightarrow> UINT8 \<Rightarrow> bytes \<times> nat \<times> nat \<Rightarrow> (unit + bytes \<times> nat \<times> nat) option" where
  "parse_gtk_kde KeyData skip_offset Len = (\<lambda>(GTK, GTKLEN, DefaultIdx). do {
     oui \<leftarrow> octets KeyData (skip_offset + 2) 3;
     if oui \<noteq> OUI_WPA2 then Some (Inr (GTK, GTKLEN, DefaultIdx)) else do {
       dt \<leftarrow> octets KeyData (skip_offset + 5) 1;
       if dt \<noteq> [KDE_GTK] then Some (Inr (GTK, GTKLEN, DefaultIdx)) else do {
         kid \<leftarrow> octets KeyData (skip_offset + 6) 1;
         let DefaultIdx = unat (take_bit 2 (kid ! 0));
         let GTKLEN = unat (Len - 6);
         if GTKLEN < 5 then Some (Inl ()) else do {
           gtk \<leftarrow> octets KeyData (skip_offset + 8) GTKLEN;
           if GTKLEN > MAX_LEN_GTK then None
           else Some (Inr (NdisMoveMemory GTK 0 gtk, GTKLEN, DefaultIdx))
         }}}})"

function parse_kde_loop :: "bytes \<Rightarrow> nat \<Rightarrow> nat \<Rightarrow> bytes \<times> nat \<times> nat \<Rightarrow> (unit + nat \<times> bytes \<times> nat \<times> nat) option" where
  "parse_kde_loop KeyData KeyDataLength skip_offset acc =
    (case octets KeyData skip_offset 2 of None \<Rightarrow> None
     | Some hdr \<Rightarrow>
         if skip_offset + 2 + unat (hdr ! 1) > KeyDataLength then Some (Inr (skip_offset, acc))
         else (case (if hdr ! 0 = WPA_KDE_TYPE then parse_gtk_kde KeyData skip_offset (hdr ! 1) acc else Some (Inr acc)) of
                 None \<Rightarrow> None
               | Some (Inl u) \<Rightarrow> Some (Inl u)
               | Some (Inr acc) \<Rightarrow> parse_kde_loop KeyData KeyDataLength (skip_offset + 2 + unat (hdr ! 1)) acc))"
  by pat_completeness auto
termination
  by (relation "measure (\<lambda>(_, KeyDataLength, skip_offset, _). KeyDataLength + 1 - skip_offset)") auto

declare parse_kde_loop.simps [simp del]

text \<open>\<open>Inl ()\<close> is FALSE, \<open>Inr None\<close> the early TRUE of the messages without a group key, \<open>Inr (Some _)\<close> the group key found.\<close>

definition parse_group_key ::
  "bytes \<Rightarrow> nat \<Rightarrow> nat \<Rightarrow> nat \<Rightarrow> bool \<Rightarrow> (unit + (bytes \<times> nat \<times> nat) option) option" where
  "parse_group_key KeyData KeyDataLength GroupKeyIndex MsgType bWPA2 =
    (let GTK = NdisZeroMemory MAX_LEN_GTK
     in if (MsgType = EAPOL_PAIR_MSG_2 \<or> MsgType = EAPOL_PAIR_MSG_3) \<and> \<not> (bWPA2 \<and> MsgType = EAPOL_PAIR_MSG_3)
        then Some (Inr None)
        else if bWPA2 \<and> (MsgType = EAPOL_PAIR_MSG_3 \<or> MsgType = EAPOL_GROUP_MSG_1) then
          (case parse_kde_loop KeyData KeyDataLength 0 (GTK, 0, 0) of None \<Rightarrow> None
           | Some (Inl u) \<Rightarrow> Some (Inl u)
           | Some (Inr (skip_offset, key)) \<Rightarrow> Some (Inr (Some key)))
        else if \<not> bWPA2 \<and> MsgType = EAPOL_GROUP_MSG_1 then
          (case octets KeyData 0 KeyDataLength of None \<Rightarrow> None
           | Some gtk \<Rightarrow> if KeyDataLength > MAX_LEN_GTK then None
                         else Some (Inr (Some (NdisMoveMemory GTK 0 gtk, KeyDataLength, GroupKeyIndex))))
        else Some (Inr (Some (GTK, 0, 0))))"

definition RTMPParseEapolKeyData ::
  "bytes \<Rightarrow> bytes \<Rightarrow> nat \<Rightarrow> nat \<Rightarrow> nat \<Rightarrow> bool \<Rightarrow> WPA_ADAPTER \<Rightarrow> (bool \<times> WPA_ADAPTER) option" where
  "RTMPParseEapolKeyData TxTsc KeyData KeyDataLen GroupKeyIndex MsgType bWPA2 s =
    (case parse_group_key KeyData KeyDataLen GroupKeyIndex MsgType bWPA2 of
       None \<Rightarrow> None
     | Some (Inl u) \<Rightarrow> Some (False, s)
     | Some (Inr None) \<Rightarrow> Some (True, s)
     | Some (Inr (Some (GTK, GTKLEN, DefaultIdx))) \<Rightarrow>
         if DefaultIdx > 3 then Some (False, s)
         else
           let s = s\<lparr>wa_GTK := NdisMoveMemory (wa_GTK s) 0 (take GTKLEN GTK), wa_DefaultKeyId := DefaultIdx\<rparr>
           in Some (True, WPAInstallSharedKey TxTsc (wa_GroupCipher s) (wa_DefaultKeyId s) 0 False (wa_GTK s) GTKLEN s))"

section \<open>Checking a received message\<close>

definition replay_differs :: "nat \<Rightarrow> bytes \<Rightarrow> bytes \<Rightarrow> bool" where
  "replay_differs MsgType ReplayCounter R_Counter =
    (if MsgType = EAPOL_PAIR_MSG_1 \<or> MsgType = EAPOL_PAIR_MSG_3 \<or> MsgType = EAPOL_GROUP_MSG_1
     then RTMPCompareMemory ReplayCounter R_Counter LEN_KEY_DESC_REPLAY \<noteq> 1
          \<and> RTMPCompareMemory ReplayCounter (NdisZeroMemory LEN_KEY_DESC_REPLAY) LEN_KEY_DESC_REPLAY \<noteq> 0
     else if MsgType = EAPOL_PAIR_MSG_2 \<or> MsgType = EAPOL_PAIR_MSG_4 \<or> MsgType = EAPOL_GROUP_MSG_2
     then take LEN_KEY_DESC_REPLAY ReplayCounter \<noteq> take LEN_KEY_DESC_REPLAY R_Counter
     else False)"

text \<open>The key data in the buffer \<^verbatim>\<open>KEYDATA\<close> of 255 octets and the packet with the length of the unwrapped field.\<close>

definition eapol_decrypt :: "wpa_mem \<Rightarrow> bytes \<Rightarrow> EAPOL_PACKET \<Rightarrow> (bytes \<times> EAPOL_PACKET) option" where
  "eapol_decrypt env PTK pMsg =
    (let n = CONV_ARRARY_TO_UINT16 (kd_KeyDataLen pMsg);
         ver = ki_KeyDescVer (kd_KeyInfo pMsg);
         KEYDATA = NdisZeroMemory MAX_LEN_OF_RSNIE
     in if n > length (kd_KeyData pMsg) then None
        else if ver = KEY_DESC_EXT \<or> ver = KEY_DESC_AES then
          if wm_wrap env \<and> uint_sub n 8 > MAX_LEN_OF_RSNIE then None
          else
            let (rc, KEYDATA, aes_unwrap_len) = AES_Key_Unwrap (wm_aes env) (wm_wrap env) (kd_KeyData pMsg) n
                   (take LEN_PTK_KEK (drop LEN_PTK_KCK PTK)) LEN_PTK_KEK KEYDATA 0
            in Some (KEYDATA, pMsg\<lparr>kd_KeyDataLen := SET_UINT16_TO_ARRARY aes_unwrap_len\<rparr>)
        else if wm_arc4 env \<and> n > MAX_LEN_OF_RSNIE then None
        else Some (TKIP_GTK_KEY_UNWRAP (wm_arc4 env) (drop LEN_PTK_KCK PTK) (kd_KeyIv pMsg) (kd_KeyData pMsg) n KEYDATA, pMsg))"

definition eapol_key_data ::
  "wpa_mem \<Rightarrow> bytes \<Rightarrow> nat \<Rightarrow> bool \<Rightarrow> WPA_ENTRY \<Rightarrow> EAPOL_PACKET \<Rightarrow> WPA_ADAPTER \<Rightarrow> (bool \<times> EAPOL_PACKET \<times> WPA_ADAPTER) option" where
  "eapol_key_data env TxTsc MsgType bWPA2 e pMsg s =
    (let n = CONV_ARRARY_TO_UINT16 (kd_KeyDataLen pMsg)
     in if n = 0 then Some (True, pMsg, s)
        else if (MsgType = EAPOL_PAIR_MSG_3 \<and> bWPA2) \<or> MsgType = EAPOL_GROUP_MSG_1 then do {
          (KEYDATA, pMsg) \<leftarrow> eapol_decrypt env (we_PTK e) pMsg;
          let GroupKeyIndex = (if \<not> bWPA2 \<and> MsgType = EAPOL_GROUP_MSG_1 then unat (ki_KeyIndex (kd_KeyInfo pMsg)) else 0);
          (ok, s) \<leftarrow> RTMPParseEapolKeyData TxTsc KEYDATA (CONV_ARRARY_TO_UINT16 (kd_KeyDataLen pMsg) mod 256) GroupKeyIndex MsgType bWPA2 s;
          Some (ok, pMsg, s)
        }
        else if MsgType = EAPOL_PAIR_MSG_2 \<or> (MsgType = EAPOL_PAIR_MSG_3 \<and> \<not> bWPA2) then
          if n > MAX_LEN_OF_RSNIE \<or> n > length (kd_KeyData pMsg) then None
          else do {
            (ok, s) \<leftarrow> RTMPParseEapolKeyData TxTsc (NdisMoveMemory (NdisZeroMemory MAX_LEN_OF_RSNIE) 0 (take n (kd_KeyData pMsg)))
                        (n mod 256) 0 MsgType bWPA2 s;
            Some (ok, pMsg, s)
          }
        else Some (True, pMsg, s))"

definition PeerWpaMessageSanity ::
  "wpa_mem \<Rightarrow> bytes \<Rightarrow> EAPOL_PACKET \<Rightarrow> nat \<Rightarrow> nat \<Rightarrow> WPA_ADAPTER \<Rightarrow> (bool \<times> EAPOL_PACKET \<times> WPA_ADAPTER) option" where
  "PeerWpaMessageSanity env TxTsc pMsg MsgType w s =
    (let e = entry s w; bWPA2 = is_WPA2 (we_AuthMode e)
     in if \<not> wm_KEYDATA env then Some (False, pMsg, s)
        else if MsgType > EAPOL_GROUP_MSG_2 \<or> MsgType < EAPOL_PAIR_MSG_1 then Some (False, pMsg, s)
        else if replay_differs MsgType (kd_ReplayCounter pMsg) (we_R_Counter e)
        then Some (False, pMsg, wpa_emit [ReplayCounterDiff (we_Addr e)] s)
        else if MsgType = EAPOL_PAIR_MSG_1 then eapol_key_data env TxTsc MsgType bWPA2 e pMsg s
        else
          let eapol_len = CONV_ARRARY_TO_UINT16 (ep_Body_Len pMsg) + 4;
              rcvd_mic = kd_KeyMic pMsg;
              pMsg = pMsg\<lparr>kd_KeyMic := NdisZeroMemory LEN_KEY_DESC_MIC\<rparr>
          in if eapol_len > length (eapol_bytes pMsg) then None
             else if rcvd_mic \<noteq> eapol_mic env (ki_KeyDescVer (kd_KeyInfo pMsg)) (we_PTK e) (take eapol_len (eapol_bytes pMsg))
             then Some (False, pMsg, wpa_emit [MicDiff (we_Addr e)] s)
             else eapol_key_data env TxTsc MsgType bWPA2 e pMsg s)"

section \<open>The actions\<close>

definition is_peer :: "WPA_ENTRY \<Rightarrow> bool" where
  "is_peer e \<longleftrightarrow> we_EntryType e = ENTRY_CLIENT \<or> we_EntryType e = ENTRY_APCLI"

text \<open>\<^verbatim>\<open>LENGTH_802_11 + LENGTH_802_1_H\<close>, where the packet starts in the frame.\<close>

abbreviation (input) EAPOL_OFFSET :: nat where "EAPOL_OFFSET \<equiv> 32"

definition elem_packet :: "MLME_QUEUE_ELEM \<Rightarrow> EAPOL_PACKET option" where
  "elem_packet Elem = (if length (me_Msg Elem) < EAPOL_OFFSET + 99 then None else Some (eapol_of (drop EAPOL_OFFSET (me_Msg Elem))))"

definition MAKE_802_3_HEADER :: "bytes \<Rightarrow> bytes \<Rightarrow> bytes" where
  "MAKE_802_3_HEADER Mac1 Mac2 = take MAC_ADDR_LEN Mac1 @ take MAC_ADDR_LEN Mac2 @ [0x88, 0x8e]"

text \<open>The packet is handed to the data path, \<^verbatim>\<open>STASendPacket\<close>.\<close>

definition RTMPToWirelessSta :: "wpa_mem \<Rightarrow> nat \<Rightarrow> bytes \<Rightarrow> bytes \<Rightarrow> bool \<Rightarrow> WPA_ADAPTER \<Rightarrow> WPA_ADAPTER" where
  "RTMPToWirelessSta env w pHeader802_3 pData bClearFrame s =
    (if \<not> is_peer (entry s w) then s
     else if \<not> wm_packet env then s
     else wpa_emit [STASendPacket (we_Aid (entry s w)) pHeader802_3 pData bClearFrame] s)"

definition send_eapol :: "wpa_mem \<Rightarrow> nat \<Rightarrow> EAPOL_PACKET \<Rightarrow> bool \<Rightarrow> WPA_ADAPTER \<Rightarrow> WPA_ADAPTER option" where
  "send_eapol env w pEapolFrame bClearFrame s =
    (let n = CONV_ARRARY_TO_UINT16 (ep_Body_Len pEapolFrame) + 4
     in if n > length (eapol_bytes pEapolFrame) then None
        else Some (RTMPToWirelessSta env w (MAKE_802_3_HEADER (we_Addr (entry s w)) (wa_CurrentAddress s))
               (take n (eapol_bytes pEapolFrame)) bClearFrame s))"

definition STA_PORT_SECURED :: "WPA_ADAPTER \<Rightarrow> WPA_ADAPTER" where
  "STA_PORT_SECURED s =
    (let s = s\<lparr>wa_PortSecured := WPA_802_1X_PORT_SECURED\<rparr>;
         s = wpa_emit [IndicateMediaConnected] s;
         s = upd_Entry BSSID_WCID (\<lambda>e. e\<lparr>we_PortSecured := WPA_802_1X_PORT_SECURED, we_PrivacyFilter := Ndis802_11PrivFilterAcceptAll\<rparr>) s
     in wpa_emit [CancelLinkDownTimer] s)"

definition PeerPairMsg1Action :: "wpa_mem \<Rightarrow> bytes \<Rightarrow> nat \<Rightarrow> MLME_QUEUE_ELEM \<Rightarrow> WPA_ADAPTER \<Rightarrow> WPA_ADAPTER option" where
  "PeerPairMsg1Action env TxTsc w Elem s =
    (if \<not> is_peer (entry s w) then Some s
     else if me_MsgLen Elem < EAPOL_OFFSET + 4 + MIN_LEN_OF_EAPOL_KEY_MSG then Some s
     else do {
       pMsg1 \<leftarrow> elem_packet Elem;
       (ok, pMsg1, s) \<leftarrow> PeerWpaMessageSanity env TxTsc pMsg1 EAPOL_PAIR_MSG_1 w s;
       if \<not> ok then Some s else do {
         let s = upd_Entry w (\<lambda>e. e\<lparr>we_R_Counter := kd_ReplayCounter pMsg1, we_ANonce := kd_KeyNonce pMsg1\<rparr>) s;
         SNonce \<leftarrow> GenRandom (wm_nonce env) (wm_uptime env) (wa_CurrentAddress s) (we_SNonce (entry s w));
         let s = upd_Entry w (\<lambda>e. e\<lparr>we_SNonce := SNonce\<rparr>) s;
         PTK \<leftarrow> WpaDerivePTK (wm_prf env) (wa_PMK s) (we_ANonce (entry s w)) (we_Addr (entry s w)) (we_SNonce (entry s w))
                 (wa_CurrentAddress s) (wm_stack env) 64;
         let s = upd_Entry w (\<lambda>e. e\<lparr>we_PTK := NdisMoveMemory (we_PTK e) 0 (take 64 PTK)\<rparr>) s;
         let s = upd_Entry w (\<lambda>e. e\<lparr>we_WpaState := AS_PTKINIT_NEGOTIATING\<rparr>) s;
         if \<not> wm_mpool env then Some s else do {
           pEapolFrame \<leftarrow> ConstructEapolMsg env (entry s w) (wa_GroupCipher s) EAPOL_PAIR_MSG_2 0 (Some (we_SNonce (entry s w)))
                            None None (take (wa_RSNIE_Len s) (wa_RSN_IE s)) eapol_zero;
           send_eapol env w pEapolFrame True s
         }}})"

definition PeerPairMsg3Action :: "wpa_mem \<Rightarrow> bytes \<Rightarrow> nat \<Rightarrow> MLME_QUEUE_ELEM \<Rightarrow> WPA_ADAPTER \<Rightarrow> WPA_ADAPTER option" where
  "PeerPairMsg3Action env TxTsc w Elem s =
    (if \<not> is_peer (entry s w) then Some s
     else if me_MsgLen Elem < EAPOL_OFFSET + 4 + MIN_LEN_OF_EAPOL_KEY_MSG then Some s
     else do {
       pMsg3 \<leftarrow> elem_packet Elem;
       (ok, pMsg3, s) \<leftarrow> PeerWpaMessageSanity env TxTsc pMsg3 EAPOL_PAIR_MSG_3 w s;
       if \<not> ok then Some s else do {
         let s = upd_Entry w (\<lambda>e. e\<lparr>we_R_Counter := kd_ReplayCounter pMsg3\<rparr>) s;
         if we_ANonce (entry s w) \<noteq> kd_KeyNonce pMsg3 then Some s
         else if \<not> wm_mpool env then Some s else do {
           pEapolFrame \<leftarrow> ConstructEapolMsg env (entry s w) (wa_GroupCipher s) EAPOL_PAIR_MSG_4 0 None None None [] eapol_zero;
           let s = upd_Entry w (\<lambda>e. e\<lparr>we_WpaState := AS_PTKINITDONE\<rparr>) s;
           let s = s\<lparr>wa_PTK := we_PTK (entry s w)\<rparr>;
           let s = WPAInstallPairwiseKey 0 w False s;
           let s = s\<lparr>wa_SharedKey := (wa_SharedKey s)[0 := we_PairwiseKey (entry s w)]\<rparr>;
           let s = (if is_WPA2 (we_AuthMode (entry s w))
                    then STA_PORT_SECURED (upd_Entry w (\<lambda>e. e\<lparr>we_PortSecured := WPA_802_1X_PORT_SECURED,
                           we_PrivacyFilter := Ndis802_11PrivFilterAcceptAll\<rparr>) s)
                    else s);
           send_eapol env w pEapolFrame True s
         }}})"

definition PeerGroupMsg1Action :: "wpa_mem \<Rightarrow> bytes \<Rightarrow> nat \<Rightarrow> MLME_QUEUE_ELEM \<Rightarrow> WPA_ADAPTER \<Rightarrow> WPA_ADAPTER option" where
  "PeerGroupMsg1Action env TxTsc w Elem s =
    (if \<not> is_peer (entry s w) then Some s
     else do {
       let default_key = wa_DefaultKeyId s;
       pGroup \<leftarrow> elem_packet Elem;
       (ok, pGroup, s) \<leftarrow> PeerWpaMessageSanity env TxTsc pGroup EAPOL_GROUP_MSG_1 w s;
       if \<not> ok then Some s else do {
         let s = upd_Entry w (\<lambda>e. e\<lparr>we_R_Counter := kd_ReplayCounter pGroup\<rparr>) s;
         if \<not> wm_mpool env then Some s else do {
           pEapolFrame \<leftarrow> ConstructEapolMsg env (entry s w) (wa_GroupCipher s) EAPOL_GROUP_MSG_2 (word_of_nat default_key)
                            None None None [] eapol_zero;
           let s = upd_Entry w (\<lambda>e. e\<lparr>we_PortSecured := WPA_802_1X_PORT_SECURED, we_PrivacyFilter := Ndis802_11PrivFilterAcceptAll\<rparr>) s;
           let s = STA_PORT_SECURED s;
           let s = (if wa_Connected s \<and> wa_Scanning s \<and> wa_AuxChannel s = wa_Channel s then s\<lparr>wa_AuxChannel := 0\<rparr> else s);
           send_eapol env w pEapolFrame False s
         }}})"

text \<open>The authenticator's side.  Its pointers to the BSSID, PMK, GTK and GNonce are set only by code for access points:
  here they stay NULL, \<^verbatim>\<open>WPAStart4WayHS\<close> and \<^verbatim>\<open>PeerPairMsg2Action\<close> return where they test them, and what follows
  is dead code.\<close>

definition WPAStart4WayHS :: "nat \<Rightarrow> WPA_ADAPTER \<Rightarrow> WPA_ADAPTER" where
  "WPAStart4WayHS w s = (if wa_Closed s then s else s)"

definition PeerPairMsg2Action :: "nat \<Rightarrow> MLME_QUEUE_ELEM \<Rightarrow> WPA_ADAPTER \<Rightarrow> WPA_ADAPTER option" where
  "PeerPairMsg2Action w Elem s =
    (if we_EntryType (entry s w) \<noteq> ENTRY_CLIENT then Some s
     else if me_MsgLen Elem < EAPOL_OFFSET + 4 + MIN_LEN_OF_EAPOL_KEY_MSG then Some s
     else if we_WpaState (entry s w) < AS_PTKSTART then Some s
     else do {
       pMsg2 \<leftarrow> elem_packet Elem;
       Some (upd_Entry w (\<lambda>e. e\<lparr>we_SNonce := kd_KeyNonce pMsg2\<rparr>) s)
     })"

definition WPAStart2WayGroupHS :: "wpa_mem \<Rightarrow> bytes \<Rightarrow> nat \<Rightarrow> WPA_ADAPTER \<Rightarrow> WPA_ADAPTER option" where
  "WPAStart2WayGroupHS env TxTsc w s =
    (if we_EntryType (entry s w) \<noteq> ENTRY_CLIENT then Some s
     else if \<not> wm_mpool env then Some s
     else do {
       let s = upd_Entry w (\<lambda>e. e\<lparr>we_R_Counter := ADD_ONE_To_64BIT_VAR (we_R_Counter e)\<rparr>) s;
       pEapolFrame \<leftarrow> ConstructEapolMsg env (entry s w) Ndis802_11WEPDisabled EAPOL_GROUP_MSG_1 0 None (Some TxTsc) None [] eapol_zero;
       Some s
     })"

definition PeerPairMsg4Action :: "wpa_mem \<Rightarrow> bytes \<Rightarrow> nat \<Rightarrow> MLME_QUEUE_ELEM \<Rightarrow> WPA_ADAPTER \<Rightarrow> WPA_ADAPTER option" where
  "PeerPairMsg4Action env TxTsc w Elem s =
    (if we_EntryType (entry s w) \<noteq> ENTRY_CLIENT then Some s
     else if me_MsgLen Elem < EAPOL_OFFSET + 4 + MIN_LEN_OF_EAPOL_KEY_MSG then Some s
     else if we_WpaState (entry s w) < AS_PTKINIT_NEGOTIATING then Some s
     else do {
       pMsg4 \<leftarrow> elem_packet Elem;
       (ok, pMsg4, s) \<leftarrow> PeerWpaMessageSanity env TxTsc pMsg4 EAPOL_PAIR_MSG_4 w s;
       if \<not> ok then Some s else do {
         let s = WPAInstallPairwiseKey (we_apidx (entry s w)) w True s;
         let s = upd_Entry w (\<lambda>e. e\<lparr>we_PrivacyFilter := Ndis802_11PrivFilterAcceptAll, we_WpaState := AS_PTKINITDONE,
                   we_PortSecured := WPA_802_1X_PORT_SECURED\<rparr>) s;
         if is_WPA2 (we_AuthMode (entry s w)) then
           Some (wpa_emit [CancelRetryTimer w, SetKeyDone True (we_Addr (entry s w))]
             (upd_Entry w (\<lambda>e. e\<lparr>we_GTKState := REKEY_ESTABLISHED\<rparr>) s))
         else do {
           s \<leftarrow> WPAStart2WayGroupHS env TxTsc w s;
           Some (wpa_emit [ModRetryTimer w 3000] (upd_Entry w (\<lambda>e. e\<lparr>we_ReTryCounter := 20\<rparr>) s))
         }}})"

definition PeerGroupMsg2Action :: "wpa_mem \<Rightarrow> bytes \<Rightarrow> nat \<Rightarrow> MLME_QUEUE_ELEM \<Rightarrow> nat \<Rightarrow> WPA_ADAPTER \<Rightarrow> WPA_ADAPTER option" where
  "PeerGroupMsg2Action env TxTsc w Elem MsgLen s =
    (if we_EntryType (entry s w) \<noteq> ENTRY_CLIENT then Some s
     else if MsgLen < 8 + 4 + MIN_LEN_OF_EAPOL_KEY_MSG then Some s
     else if we_WpaState (entry s w) \<noteq> AS_PTKINITDONE then Some s
     else do {
       pMsg2 \<leftarrow> elem_packet Elem;
       (ok, pMsg2, s) \<leftarrow> PeerWpaMessageSanity env TxTsc pMsg2 EAPOL_GROUP_MSG_2 w s;
       if \<not> ok then Some s
       else Some (wpa_emit [CancelRetryTimer w, SetKeyDone (is_WPA2 (we_AuthMode (entry s w))) (we_Addr (entry s w))]
              (upd_Entry w (\<lambda>e. e\<lparr>we_GTKState := REKEY_ESTABLISHED\<rparr>) s))
     })"

section \<open>The dispatcher\<close>

definition MAC_ADDR_HASH_INDEX :: "bytes \<Rightarrow> nat" where
  "MAC_ADDR_HASH_INDEX Addr =
     unat (Addr ! 0 XOR Addr ! 1 XOR Addr ! 2 XOR Addr ! 3 XOR Addr ! 4 XOR Addr ! 5)"

fun lookup_chain :: "WPA_ENTRY list \<Rightarrow> nat list \<Rightarrow> bytes \<Rightarrow> nat option" where
  "lookup_chain Content [] pAddr = None"
| "lookup_chain Content (i # chain) pAddr =
    (if we_EntryType (Content ! i) = ENTRY_NONE then Some i
     else if we_Addr (Content ! i) = pAddr then Some i
     else lookup_chain Content chain pAddr)"

definition MacTableLookup :: "WPA_ADAPTER \<Rightarrow> bytes \<Rightarrow> nat option" where
  "MacTableLookup s pAddr = lookup_chain (wa_Content s) (wa_Hash s ! MAC_ADDR_HASH_INDEX pAddr) pAddr"

text \<open>The guards of \<^verbatim>\<open>WpaEAPOLKeyAction\<close> before it dispatches.\<close>

definition eapol_key_accepted :: "MLME_QUEUE_ELEM \<Rightarrow> EAPOL_PACKET \<Rightarrow> WPA_ENTRY \<Rightarrow> bool" where
  "eapol_key_accepted Elem pkt e \<longleftrightarrow>
     is_peer e \<and> we_AuthMode e \<ge> Ndis802_11AuthModeWPA
     \<and> \<not> CONV_ARRARY_TO_UINT16 (ep_Body_Len pkt) + 4 > uint_sub (me_MsgLen Elem) EAPOL_OFFSET
     \<and> (ep_ProVer pkt = EAPOL_VER \<or> ep_ProVer pkt = EAPOL_VER2)
     \<and> (kd_Type pkt = WPA1_KEY_DESC \<or> kd_Type pkt = WPA2_KEY_DESC)
     \<and> \<not> (we_WepStatus e = Ndis802_11Encryption2Enabled \<and> ki_KeyDescVer (kd_KeyInfo pkt) \<noteq> KEY_DESC_TKIP)
     \<and> \<not> (we_WepStatus e = Ndis802_11Encryption3Enabled \<and> ki_KeyDescVer (kd_KeyInfo pkt) \<noteq> KEY_DESC_AES
            \<and> ki_KeyDescVer (kd_KeyInfo pkt) \<noteq> KEY_DESC_EXT)
     \<and> we_Sst e = SST_ASSOC \<and> we_WpaState e \<ge> AS_INITPSK"

definition WpaEAPOLKeyAction :: "wpa_mem \<Rightarrow> bytes \<Rightarrow> MLME_QUEUE_ELEM \<Rightarrow> WPA_ADAPTER \<Rightarrow> WPA_ADAPTER option" where
  "WpaEAPOLKeyAction env TxTsc Elem s = do {
     pkt \<leftarrow> elem_packet Elem;
     let ki = kd_KeyInfo pkt;
     (case MacTableLookup s (take 6 (drop 10 (me_Msg Elem))) of None \<Rightarrow> Some s
      | Some w \<Rightarrow>
          if \<not> eapol_key_accepted Elem pkt (entry s w) then Some s
          else if ki_KeyAck ki = 1 then
            if ki_Secure ki = 0 \<and> ki_Request ki = 0 \<and> ki_Error ki = 0 \<and> ki_KeyType ki = PAIRWISEKEY then
              if ki_KeyMic ki = 0 then PeerPairMsg1Action env TxTsc w Elem s else PeerPairMsg3Action env TxTsc w Elem s
            else if ki_Secure ki = 1 \<and> ki_KeyMic ki = 1 \<and> ki_Request ki = 0 \<and> ki_Error ki = 0 then
              if ki_KeyType ki = PAIRWISEKEY then PeerPairMsg3Action env TxTsc w Elem s
              else PeerGroupMsg1Action env TxTsc w Elem s
            else Some s
          else if ki_Request ki = 0 \<and> ki_Error ki = 0 \<and> ki_KeyMic ki = 1 then
            if ki_Secure ki = 0 \<and> ki_KeyType ki = PAIRWISEKEY then
              if CONV_ARRARY_TO_UINT16 (kd_KeyDataLen pkt) = 0 then PeerPairMsg4Action env TxTsc w Elem s
              else PeerPairMsg2Action w Elem s
            else if ki_Secure ki = 1 \<and> ki_KeyType ki = PAIRWISEKEY then PeerPairMsg4Action env TxTsc w Elem s
            else if ki_Secure ki = 1 \<and> ki_KeyType ki = GROUPKEY
            then PeerGroupMsg2Action env TxTsc w Elem (uint_sub (me_MsgLen Elem) 24) s
            else Some s
          else Some s)
   }"

definition WpaEAPOLStartAction :: "MLME_QUEUE_ELEM \<Rightarrow> WPA_ADAPTER \<Rightarrow> WPA_ADAPTER" where
  "WpaEAPOLStartAction Elem s =
    (case MacTableLookup s (if me_MsgLen Elem = 6 then take 6 (me_Msg Elem) else take 6 (drop 10 (me_Msg Elem))) of
       None \<Rightarrow> s
     | Some w \<Rightarrow>
         let e = entry s w
         in if we_PortSecured e = WPA_802_1X_PORT_NOT_SECURED \<and> we_WpaState e < AS_PTKSTART
              \<and> (we_AuthMode e = Ndis802_11AuthModeWPAPSK \<or> we_AuthMode e = Ndis802_11AuthModeWPA2PSK
                 \<or> (we_AuthMode e = Ndis802_11AuthModeWPA2 \<and> we_PMKID_CacheIdx e \<noteq> 0xFF))
            then WPAStart4WayHS w (upd_Entry w (\<lambda>e. e\<lparr>we_PrivacyFilter := Ndis802_11PrivFilter8021xWEP,
                   we_WpaState := AS_INITPSK, we_PortSecured := WPA_802_1X_PORT_NOT_SECURED,
                   we_R_Counter := NdisZeroMemory LEN_KEY_DESC_REPLAY, we_ReTryCounter := 0\<rparr>) s)
            else s)"

definition EnqueueStartForPSKExec :: "nat \<Rightarrow> WPA_ADAPTER \<Rightarrow> WPA_ADAPTER" where
  "EnqueueStartForPSKExec w s =
    (let e = entry s w;
         s = (if we_EntryType e = ENTRY_CLIENT \<and> we_WpaState e < AS_PTKSTART \<and> we_EnqueueEapolStartTimerRunning e = 1
              then wpa_emit [EnqueueEapolStart (we_Addr e)] s else s)
     in upd_Entry w (\<lambda>e. e\<lparr>we_EnqueueEapolStartTimerRunning := 0\<rparr>) s)"

end
