(* ===== verification/WpaExchange.thy ===== *)
theory WpaExchange
  imports WpaHandshake
begin

text \<open>
  What the handlers of the key handshakes achieve: the parser finds the group key that the constructor encapsulated,
  a constructed message passes the checks of the peer with the same PTK, the four-way handshake ends with the keys both
  sides derive, nothing is installed from a message without a valid integrity code, and the replay
  counter of a peer.
\<close>

section \<open>The key data of a constructed message is recovered\<close>

lemma Key_Unwrap_prefix:
  assumes "8 \<le> n" "take n C = take n C'"
  shows "AES_Key_Unwrap mem a C n K kl Q QL = AES_Key_Unwrap mem a C' n K kl Q QL"
proof -
  have "take 8 C = take 8 C'" using assms by (metis min.absorb1 take_take)
  moreover have "take (n - 8) (drop 8 C) = take (n - 8) (drop 8 C')" using assms by (metis drop_take)
  ultimately show ?thesis using assms(1) by (simp add: AES_Key_Unwrap_def Let_def)
qed

lemma key_data_encrypt_length:
  assumes env: "wpa_mem_ok env" and PTK: "length PTK = 64"
    and K: "length K \<le> 240" and eGTK: "length eGTK = 512"
    and enc: "key_data_encrypt env ver PTK iv eGTK (K @ NdisZeroMemory (512 - length K)) (length K) = (field, n)"
  shows "length K \<le> n \<and> n \<le> 255 \<and> length field = 512 \<and> (ver \<noteq> KEY_DESC_AES \<longrightarrow> n = length K)"
proof (cases "ver = KEY_DESC_AES")
  case True
  let ?P = "kd_padded ver K" and ?k = "take 16 (drop 16 PTK)"
  have lP: "length ?P \<le> 247" using length_kd_padded(2) [of ver K] K by simp
  obtain ctx where ctx: "wm_aes env = Some ctx" "aes_ctx_wf ctx" "wm_wrap env"
    using env by (auto simp: wpa_mem_ok_def split: option.splits)
  obtain rc where wrap: "AES_Key_Wrap (Some ctx) True (?P @ NdisZeroMemory (512 - length ?P)) (length ?P) ?k 16 eGTK 0 = (rc, field, n)"
    using enc True K ctx by (auto simp: key_data_encrypt_eq split: prod.splits)
  show ?thesis
    using Key_Unwrap_Wrap [OF ctx(2,2) key_length_16 _ _ _ _ _ wrap, of "NdisZeroMemory 255" 0] PTK eGTK lP
      length_kd_padded(1) [of K ver] True by auto
next
  case False
  then have "field = TKIP_GTK_KEY_WRAP True (drop 16 PTK) iv (K @ NdisZeroMemory (512 - length K)) (length K) eGTK" "n = length K"
    using enc K env by (auto simp: key_data_encrypt_eq wpa_mem_ok_def)
  then show ?thesis using eGTK K by (simp add: TKIP_GTK_KEY_WRAP_def NdisMoveMemory_def)
qed

lemma eapol_decrypt_encrypt:
  assumes env: "wpa_mem_ok env" "wpa_mem_ok env'" and PTK: "length PTK = 64" and ver: "ver = KEY_DESC_AES \<or> ver = KEY_DESC_TKIP"
    and K: "length K \<le> 240" and eGTK: "length eGTK = 512"
    and enc: "key_data_encrypt env ver PTK iv eGTK (K @ NdisZeroMemory (512 - length K)) (length K) = (field, n)"
    and p: "CONV_ARRARY_TO_UINT16 (kd_KeyDataLen p) = n" "ki_KeyDescVer (kd_KeyInfo p) = ver" "kd_KeyIv p = iv"
      "n \<le> length (kd_KeyData p)" "take n (kd_KeyData p) = take n field"
  shows "eapol_decrypt env' PTK p = Some (kd_padded ver K @ NdisZeroMemory (255 - length (kd_padded ver K)),
     if ver = KEY_DESC_AES then p\<lparr>kd_KeyDataLen := SET_UINT16_TO_ARRARY (length (kd_padded ver K))\<rparr> else p)"
proof (cases "ver = KEY_DESC_AES")
  case True
  let ?P = "kd_padded ver K" and ?k = "take 16 (drop 16 PTK)" and ?Z = "NdisZeroMemory 255"
  have lP: "length ?P \<le> 247" using length_kd_padded(2) [of ver K] K by simp
  obtain ctx ctx' where ctx: "wm_aes env = Some ctx" "aes_ctx_wf ctx" "wm_aes env' = Some ctx'" "aes_ctx_wf ctx'"
    "wm_wrap env" "wm_wrap env'"
    using env by (auto simp: wpa_mem_ok_def split: option.splits)
  obtain rc where wrap: "AES_Key_Wrap (Some ctx) True (?P @ NdisZeroMemory (512 - length ?P)) (length ?P) ?k 16 eGTK 0 = (rc, field, n)"
    using enc True K ctx by (auto simp: key_data_encrypt_eq split: prod.splits)
  have w: "n = length ?P + 8" "length field = 512"
      "AES_Key_Unwrap (Some ctx') True field n ?k 16 ?Z 0 = (0, ?P @ drop (length ?P) ?Z, length ?P)"
    using Key_Unwrap_Wrap [OF ctx(2,4) key_length_16 _ _ _ _ _ wrap, of ?Z 0] PTK eGTK lP by auto
  have "AES_Key_Unwrap (Some ctx') True (kd_KeyData p) n ?k 16 ?Z 0 = (0, ?P @ drop (length ?P) ?Z, length ?P)"
    using Key_Unwrap_prefix [of n "kd_KeyData p" field] p(5) w by simp
  then show ?thesis
    using True p ctx w(1,2) lP by (simp add: eapol_decrypt_def NdisZeroMemory_def)
next
  case False
  then have v: "ver = KEY_DESC_TKIP" "kd_padded ver K = K" using ver by (auto simp: kd_padded_def)
  have a: "wm_arc4 env" "wm_arc4 env'" using env by (auto simp: wpa_mem_ok_def)
  have f: "field = TKIP_GTK_KEY_WRAP True (drop 16 PTK) iv (K @ NdisZeroMemory (512 - length K)) (length K) eGTK" "n = length K"
    using enc False K a by (auto simp: key_data_encrypt_eq)
  have "length field = 512" using eGTK K by (simp add: f TKIP_GTK_KEY_WRAP_def NdisMoveMemory_def)
  moreover have "TKIP_GTK_KEY_UNWRAP True (drop 16 PTK) iv (kd_KeyData p) n (NdisZeroMemory 255)
      = TKIP_GTK_KEY_UNWRAP True (drop 16 PTK) iv field n (NdisZeroMemory 255)"
    using p(5) by (simp add: TKIP_GTK_KEY_UNWRAP_def TKIP_GTK_KEY_WRAP_def [of True _ _ "kd_KeyData p"]
        TKIP_GTK_KEY_WRAP_def [of True _ _ field])
  moreover have "\<dots> = K @ drop n (NdisZeroMemory 255)"
    unfolding f(1) using TKIP_GTK_KEY_UNWRAP_WRAP [of n "K @ NdisZeroMemory (512 - length K)" "drop 16 PTK" iv eGTK "NdisZeroMemory 255"]
    by (simp add: f(2))
  ultimately show ?thesis
    using v p a K f(2) by (simp add: eapol_decrypt_def) (simp add: NdisZeroMemory_def)
qed

text \<open>Zeros behind the elements end the loop without changing the result, and an element of another type is skipped.\<close>

lemma octets_take: "i + n \<le> length buf \<Longrightarrow> octets buf i n = Some (take n (drop i buf))"
  by (simp add: octets_def)

lemma parse_zeros:
  assumes "KeyDataLength + 2 \<le> length B" "\<forall>j. k \<le> j \<and> j < length B \<longrightarrow> B ! j = 0" "k \<le> skip" "skip \<le> KeyDataLength"
  shows "\<exists>skip'. parse_kde_loop B KeyDataLength skip acc = Some (Inr (skip', acc))"
  using assms(3,4)
proof (induction "KeyDataLength - skip" arbitrary: skip rule: less_induct)
  case less
  have "octets B skip 2 = Some [0, 0]"
    using assms(1,2) less.prems
    by (auto simp: octets_def numeral_2_eq_2 take_Suc_conv_app_nth hd_drop_conv_nth intro!: nth_equalityI)
  then show ?case
    using less by (subst parse_kde_loop.simps) auto
qed

section \<open>The group key of a constructed message is found\<close>

lemma octets_append:
  "octets (xs @ ys) (length xs + k) n = octets ys k n"
  by (simp add: octets_def add.assoc)

lemma octets_append0: "octets (xs @ ys) (length xs) n = octets ys 0 n"
  using octets_append [of xs ys 0 n] by simp

lemma parse_skip:
  assumes "t \<noteq> WPA_KDE_TYPE" "length xs + 2 + unat l \<le> n"
  shows "parse_kde_loop (xs @ t # l # ys) n (length xs) acc = parse_kde_loop (xs @ t # l # ys) n (length xs + 2 + unat l) acc"
  using assms by (subst parse_kde_loop.simps) (simp add: octets_append0, simp add: octets_def)

lemma parse_found:
  assumes gtk: "5 \<le> length gtk" "length gtk \<le> 32" and n: "length xs + 8 + length gtk \<le> n"
  shows "parse_kde_loop (xs @ gtk_kde idx gtk @ ys) n (length xs) (G, l, d)
    = parse_kde_loop (xs @ gtk_kde idx gtk @ ys) n (length xs + 8 + length gtk) (NdisMoveMemory G 0 gtk, length gtk, unat (take_bit 2 idx))"
proof -
  have len: "unat (word_of_nat (6 + length gtk) :: UINT8) = 6 + length gtk" "(word_of_nat (6 + length gtk) :: UINT8) - 6 = word_of_nat (length gtk)"
    "unat (word_of_nat (length gtk) :: UINT8) = length gtk"
    using gtk by (simp add: unat_of_nat del: of_nat_add, simp, simp add: unat_of_nat)
  have idx: "take_bit 2 idx AND 3 = take_bit 2 idx"
    by (rule all_bytes [of "\<lambda>b. take_bit 2 b AND 3 = take_bit 2 b"]) code_simp
  have k: "parse_gtk_kde (xs @ gtk_kde idx gtk @ ys) (length xs) (word_of_nat (6 + length gtk)) (G, l, d)
      = Some (Inr (NdisMoveMemory G 0 gtk, length gtk, unat (take_bit 2 idx)))"
    unfolding parse_gtk_kde_def octets_append len
    using gtk by (simp add: octets_def gtk_kde_def OUI_WPA2_def len(3) idx)
  have h: "octets (xs @ gtk_kde idx gtk @ ys) (length xs) 2 = Some [WPA_KDE_TYPE, word_of_nat (6 + length gtk)]"
    unfolding octets_append0 by (simp add: octets_def gtk_kde_def)
  show ?thesis
    using n by (subst parse_kde_loop.simps) (simp only: h option.case, simp add: len k del: of_nat_add, simp add: ac_simps)
qed

text \<open>The buffer the receiver parses: the plain field with its padding, then zeros.\<close>

lemma parse_message3:
  assumes R: "RSNIE = [] \<or> take 3 (drop 2 RSNIE) = OUI_WPA2" and gtk: "5 \<le> length gtk" "length gtk \<le> 32"
    and K: "K = rsn_element RSNIE @ gtk_kde idx gtk" "length K \<le> 240" and P: "P = kd_padded ver K"
  shows "\<exists>skip. parse_kde_loop (P @ NdisZeroMemory (255 - length P)) (length P) 0 (G, 0, 0)
      = Some (Inr (skip, NdisMoveMemory G 0 gtk, length gtk, unat (take_bit 2 idx)))"
proof -
  let ?B = "P @ NdisZeroMemory (255 - length P)" and ?r = "length (rsn_element RSNIE)"
  let ?acc = "(NdisMoveMemory G 0 gtk, length gtk, unat (take_bit 2 idx))"
  have lP: "length K \<le> length P" "length P \<le> 247" using length_kd_padded(1) [of K ver] length_kd_padded(2) [of ver K] K(2) P by simp_all
  define ys where "ys = drop (length K) ?B"
  have PK: "P = K @ drop (length K) P" using P by (auto simp: kd_padded_def)
  then have B: "?B = rsn_element RSNIE @ gtk_kde idx gtk @ ys" using K(1) lP(1) ys_def by (metis append.assoc append_take_drop_id take_append diff_is_0_eq take0 append_Nil2 append_eq_conv_conj)
  have 1: "parse_kde_loop ?B (length P) 0 (G, 0, 0) = parse_kde_loop ?B (length P) ?r (G, 0, 0)"
  proof (cases "RSNIE = []")
    case False
    have "unat (word_of_nat (length RSNIE) :: UINT8) = length RSNIE"
      using K False by (simp add: unat_of_nat length_rsn_element)
    then show ?thesis
      using parse_skip [of IE_RSN "[]" "word_of_nat (length RSNIE)" "length P" "RSNIE @ gtk_kde idx gtk @ ys" "(G, 0, 0)"] R False K lP(1)
      unfolding B by (simp add: rsn_element_def)
  qed (simp add: rsn_element_def)
  have 2: "parse_kde_loop ?B (length P) ?r (G, 0, 0) = parse_kde_loop ?B (length P) (length K) ?acc"
    using parse_found [OF gtk, of "rsn_element RSNIE" "length P" idx ys G 0 0] K(1) lP(1) unfolding B by (simp add: add.assoc)
  have "\<exists>skip. parse_kde_loop ?B (length P) (length K) ?acc = Some (Inr (skip, ?acc))"
  proof (cases "P = K")
    case True
    then show ?thesis using lP by (intro parse_zeros [where k = "length P"]) (auto simp: nth_append NdisZeroMemory_def)
  next
    case False
    obtain m where m: "P = K @ 0xDD # replicate m 0" using False P by (auto simp: kd_padded_def split: if_splits)
    let ?Z = "replicate (m + (255 - length P)) (0 :: UINT8)"
    have BZ: "?B = K @ 0xDD # ?Z" using m by (simp add: NdisZeroMemory_def replicate_add)
    have lm: "length P = length K + 1 + m" using m by simp
    have h: "octets ?B (length K) 2 = Some [0xDD, 0]" unfolding BZ octets_append0 using lP m
      by (auto simp: octets_def numeral_2_eq_2 neq0_conv [symmetric] gr0_conv_Suc)
    have o: "octets (0xDD # ?Z) 2 3 = Some [0, 0, 0]" using lP m by (simp add: octets_def numeral_eq_Suc)
    have g: "parse_gtk_kde ?B (length K) 0 ?acc = Some (Inr ?acc)"
      unfolding parse_gtk_kde_def BZ octets_append o by (simp add: OUI_WPA2_def)
    have z: "\<exists>skip. parse_kde_loop ?B (length P) (length K + 2) ?acc = Some (Inr (skip, ?acc))" if "length K + 2 \<le> length P"
      using lP lm that BZ by (intro parse_zeros [where k = "length K + 2"]) (auto simp: nth_append nth_Cons')
    show ?thesis
      using z by (subst parse_kde_loop.simps) (simp add: h g)
  qed
  with 1 2 show ?thesis by simp
qed

section \<open>A constructed message\<close>

text \<open>The packet before its integrity code is computed, with \<open>n\<close> octets of key data.\<close>

definition eapol_message :: "WPA_ENTRY \<Rightarrow> nat \<Rightarrow> nat \<Rightarrow> UINT8 \<Rightarrow> bytes \<Rightarrow> bytes \<Rightarrow> bytes \<Rightarrow> bytes \<Rightarrow> EAPOL_PACKET" where
  "eapol_message e g MsgType idx nonce iv rsc kd =
    \<lparr>ep_ProVer = EAPOL_VER, ep_ProType = WpaPacket.EAPOLKey, ep_Body_Len = SET_UINT16_TO_ARRARY (95 + length kd),
     kd_Type = (if is_WPA2 (we_AuthMode e) then WPA2_KEY_DESC else WPA1_KEY_DESC),
     kd_KeyInfo = eapol_key_info (is_WPA2 (we_AuthMode e)) MsgType (eapol_desc_ver (we_WepStatus e) g) idx (key_info_of 0 0),
     kd_KeyLength = eapol_key_length (is_WPA2 (we_AuthMode e)) MsgType (we_WepStatus e) g [0, 0],
     kd_ReplayCounter = we_R_Counter e, kd_KeyNonce = nonce, kd_KeyIv = iv, kd_KeyRsc = rsc,
     kd_KeyId = NdisZeroMemory 8, kd_KeyMic = NdisZeroMemory 16, kd_KeyDataLen = SET_UINT16_TO_ARRARY (length kd),
     kd_KeyData = kd @ NdisZeroMemory (1401 - length kd)\<rparr>"

lemma eapol_zero_fields:
  "eapol_zero = \<lparr>ep_ProVer = 0, ep_ProType = 0, ep_Body_Len = [0, 0], kd_Type = 0, kd_KeyInfo = key_info_of 0 0,
     kd_KeyLength = [0, 0], kd_ReplayCounter = NdisZeroMemory 8, kd_KeyNonce = NdisZeroMemory 32, kd_KeyIv = NdisZeroMemory 16,
     kd_KeyRsc = NdisZeroMemory 8, kd_KeyId = NdisZeroMemory 8, kd_KeyMic = NdisZeroMemory 16, kd_KeyDataLen = [0, 0],
     kd_KeyData = NdisZeroMemory 1401\<rparr>"
  by (simp add: eapol_zero_def eapol_of_def NdisZeroMemory_def numeral_2_eq_2)

text \<open>The integrity code is computed over the packet up to the end of its key data.\<close>

lemma CalculateMIC_message:
  assumes "wm_mic_pool env" "length kd \<le> 413" "eapol_wf (eapol_message e g t idx nonce iv rsc kd)"
  shows "CalculateMIC env ver PTK (eapol_message e g t idx nonce iv rsc kd)
    = Some (eapol_message e g t idx nonce iv rsc kd\<lparr>kd_KeyMic :=
        eapol_mic env ver PTK (take (99 + length kd) (eapol_bytes (eapol_message e g t idx nonce iv rsc kd)))\<rparr>)"
proof -
  let ?m = "eapol_message e g t idx nonce iv rsc kd"
  have n: "CONV_ARRARY_TO_UINT16 (ep_Body_Len ?m) + 4 = 99 + length kd" "length (eapol_bytes ?m) = 1500"
    using assms(2) length_eapol_bytes [OF assms(3)] by (simp_all add: eapol_message_def)
  have "MakeOutgoingFrame (NdisZeroMemory 512) [take (99 + length kd) (eapol_bytes ?m)]
      = (take (99 + length kd) (eapol_bytes ?m) @ drop (99 + length kd) (NdisZeroMemory 512), 99 + length kd)"
    using MakeOutgoingFrame_concat [of "[take (99 + length kd) (eapol_bytes ?m)]" "NdisZeroMemory 512"] n assms(2) by simp
  then show ?thesis
    using assms(1,2) n unfolding CalculateMIC_def by simp
qed

lemma eapol_key_info_wf: "key_info_wf (eapol_key_info b t (eapol_desc_ver a g) idx (key_info_of 0 0))"
  by (simp add: key_info_wf_def eapol_key_info_def eapol_desc_ver_def key_info_of_def Let_def) code_simp

lemma eapol_message_wf:
  assumes "length (we_R_Counter e) = 8" "length nonce = 32" "length iv = 16" "length rsc = 8"
  shows "eapol_wf (eapol_message e g t idx nonce iv rsc kd)"
  using assms by (simp add: eapol_wf_def eapol_message_def eapol_key_info_wf eapol_key_length_def)

lemma key_data_rsn:
  assumes "length RSNIE \<le> 500"
  shows "(if RSNIE \<noteq> [] then RTMPInsertRSNIE (NdisZeroMemory 512) 0 0 RSNIE [] else (NdisZeroMemory 512, 0))
    = (rsn_element RSNIE @ NdisZeroMemory (512 - length (rsn_element RSNIE)), length (rsn_element RSNIE))"
  using assms by (simp add: RTMPInsertRSNIE_element) (simp add: rsn_element_def)

text \<open>Message 1, message 2 with the element of the station, message 3 of WPA2 and message 4.\<close>

lemma ConstructEapolMsg_1:
  assumes "length nonce = 32"
  shows "ConstructEapolMsg env e g EAPOL_PAIR_MSG_1 idx (Some nonce) rsc gtk RSNIE eapol_zero
    = Some (eapol_message e g EAPOL_PAIR_MSG_1 idx nonce (NdisZeroMemory 16) (NdisZeroMemory 8) [])"
  using assms
  by (simp add: ConstructEapolMsg_def ConstructEapolKeyData_def copy_from_def eapol_message_def eapol_zero_fields Let_def
      SET_UINT16_TO_ARRARY_def)

lemma ConstructEapolMsg_2:
  assumes "wm_keydata_pool env = Some buf" "wm_mic_pool env" "length nonce = 32" "length RSNIE \<le> 255" "length (we_R_Counter e) = 8"
  shows "ConstructEapolMsg env e g EAPOL_PAIR_MSG_2 idx (Some nonce) rsc gtk RSNIE eapol_zero
    = (let m = eapol_message e g EAPOL_PAIR_MSG_2 idx nonce (NdisZeroMemory 16) (NdisZeroMemory 8) (rsn_element RSNIE)
       in Some (m\<lparr>kd_KeyMic := eapol_mic env (eapol_desc_ver (we_WepStatus e) g) (we_PTK e)
                 (take (99 + length (rsn_element RSNIE)) (eapol_bytes m))\<rparr>))"
proof -
  let ?k = "rsn_element RSNIE"
  let ?m = "eapol_message e g EAPOL_PAIR_MSG_2 idx nonce (NdisZeroMemory 16) (NdisZeroMemory 8) ?k"
  have k: "length ?k \<le> 257" using assms(4) by (simp add: length_rsn_element)
  note ins = key_data_rsn [of RSNIE]
  have mv: "NdisMoveMemory (NdisZeroMemory 1401) 0 ?k = ?k @ NdisZeroMemory (1401 - length ?k)"
    using move_behind [of ?k 1401 "[]"] k by simp
  have inc: "INC_UINT16_TO_ARRARY (SET_UINT16_TO_ARRARY 95) (length ?k) = SET_UINT16_TO_ARRARY (95 + length ?k)"
    using k by (simp add: INC_UINT16_TO_ARRARY_def)
  have "CalculateMIC env (eapol_desc_ver (we_WepStatus e) g) (we_PTK e) ?m
    = Some (?m\<lparr>kd_KeyMic := eapol_mic env (eapol_desc_ver (we_WepStatus e) g) (we_PTK e) (take (99 + length ?k) (eapol_bytes ?m))\<rparr>)"
    using assms k by (intro CalculateMIC_message eapol_message_wf) simp_all
  then show ?thesis
    using assms ins mv inc
    by (simp add: ConstructEapolMsg_def ConstructEapolKeyData_def copy_from_def eapol_message_def eapol_zero_fields Let_def)
qed

lemma ConstructEapolMsg_4:
  assumes "wm_mic_pool env" "length (we_R_Counter e) = 8"
  shows "ConstructEapolMsg env e g EAPOL_PAIR_MSG_4 idx nonce rsc gtk RSNIE eapol_zero
    = (let m = eapol_message e g EAPOL_PAIR_MSG_4 idx (NdisZeroMemory 32) (NdisZeroMemory 16) (NdisZeroMemory 8) []
       in Some (m\<lparr>kd_KeyMic := eapol_mic env (eapol_desc_ver (we_WepStatus e) g) (we_PTK e) (take 99 (eapol_bytes m))\<rparr>))"
  using assms CalculateMIC_message [of env "[]" e g EAPOL_PAIR_MSG_4 idx "NdisZeroMemory 32" "NdisZeroMemory 16" "NdisZeroMemory 8"]
  by (simp add: eapol_message_wf)
     (simp add: ConstructEapolMsg_def ConstructEapolKeyData_def copy_from_def eapol_message_def eapol_zero_fields Let_def
      SET_UINT16_TO_ARRARY_def)

lemma ConstructEapolMsg_3:
  assumes env: "wpa_mem_ok env" and e: "is_WPA2 (we_AuthMode e)" "length (we_R_Counter e) = 8" "length (we_PTK e) = 64"
    and nonce: "length nonce = 32" and rsc: "6 \<le> length rsc"
    and gtk: "length gtk = (if g = Ndis802_11Encryption3Enabled then 16 else 32)"
    and K: "K = rsn_element RSNIE @ gtk_kde idx gtk" "length K \<le> 240" and ver: "ver = eapol_desc_ver (we_WepStatus e) g"
    and eGTK: "wm_keydata_pool env = Some eGTK"
    and enc: "key_data_encrypt env ver (we_PTK e) (NdisZeroMemory 16) eGTK (K @ NdisZeroMemory (512 - length K)) (length K) = (field, n)"
    and m: "m = eapol_message e g EAPOL_PAIR_MSG_3 idx nonce (NdisZeroMemory 16) (take 6 rsc @ [0, 0]) (take n field)"
  shows "ConstructEapolMsg env e g EAPOL_PAIR_MSG_3 idx (Some nonce) (Some rsc) (Some gtk) RSNIE eapol_zero
    = Some (m\<lparr>kd_KeyMic := eapol_mic env ver (we_PTK e) (take (99 + n) (eapol_bytes m))\<rparr>)"
proof -
  have l: "n \<le> 255" "length field = 512"
    using key_data_encrypt_length [OF env e(3) K(2) _ enc] env eGTK by (auto simp: wpa_mem_ok_def)
  have ins: "length RSNIE \<le> 500" using K by (auto simp: length_rsn_element split: if_splits)
  note ins = key_data_rsn [OF this]
  have g: "key_data_gtk True g idx (Some gtk) (rsn_element RSNIE @ NdisZeroMemory (512 - length (rsn_element RSNIE))) (length (rsn_element RSNIE))
      = Some (K @ NdisZeroMemory (512 - length K), length K)"
    using K gtk by (subst key_data_gtk_wpa2) (auto simp: add.assoc)
  have mv: "NdisMoveMemory (NdisZeroMemory 1401) 0 (take n field) = take n field @ NdisZeroMemory (1401 - n)"
    using move_behind [of "take n field" 1401 "[]"] l by simp
  have inc: "INC_UINT16_TO_ARRARY (SET_UINT16_TO_ARRARY 95) n = SET_UINT16_TO_ARRARY (95 + n)"
    using l by (simp add: INC_UINT16_TO_ARRARY_def)
  have r: "NdisMoveMemory (NdisZeroMemory 8) 0 (take 6 rsc) = take 6 rsc @ [0, 0]"
    using rsc by (simp add: NdisMoveMemory_def NdisZeroMemory_def numeral_2_eq_2)
  have "CalculateMIC env ver (we_PTK e) m = Some (m\<lparr>kd_KeyMic := eapol_mic env ver (we_PTK e) (take (99 + n) (eapol_bytes m))\<rparr>)"
    using CalculateMIC_message [of env "take n field"] env e nonce rsc l unfolding m by (simp add: wpa_mem_ok_def eapol_message_wf)
  then show ?thesis
    using e nonce rsc l ins g mv inc r eGTK enc ver [symmetric] unfolding m
    by (simp add: ConstructEapolMsg_def ConstructEapolKeyData_def copy_from_def eapol_message_def eapol_zero_fields Let_def)
qed

section \<open>A constructed message is received\<close>

text \<open>The frame from the station \<open>Addr\<close> holds the packet up to its body length.\<close>

definition carries :: "MLME_QUEUE_ELEM \<Rightarrow> bytes \<Rightarrow> EAPOL_PACKET \<Rightarrow> bool" where
  "carries Elem Addr m \<longleftrightarrow>
    (let n = CONV_ARRARY_TO_UINT16 (ep_Body_Len m) + 4
     in me_MsgLen Elem = 32 + n \<and> 32 + n \<le> length (me_Msg Elem) \<and> take 6 (drop 10 (me_Msg Elem)) = Addr
        \<and> take n (drop 32 (me_Msg Elem)) = take n (eapol_bytes m))"

lemma eapol_bytes_data:
  assumes "eapol_wf m"
  shows "eapol_bytes (m\<lparr>kd_KeyData := D\<rparr>) = take 99 (eapol_bytes m) @ D"
  using assms by (simp add: eapol_bytes_def eapol_wf_def)

lemma eapol_wf_data [simp]: "eapol_wf (m\<lparr>kd_KeyData := D\<rparr>) = eapol_wf m"
  by (simp add: eapol_wf_def)

lemma eapol_wf_mic: "eapol_wf m \<Longrightarrow> length mic = 16 \<Longrightarrow> eapol_wf (m\<lparr>kd_KeyMic := mic\<rparr>)"
  by (simp add: eapol_wf_def)

lemma eapol_bytes_split:
  assumes "eapol_wf m"
  shows "take (99 + n) (eapol_bytes m) = take 99 (eapol_bytes m) @ take n (kd_KeyData m)" "length (take 99 (eapol_bytes m)) = 99"
proof -
  show l: "length (take 99 (eapol_bytes m)) = 99" using length_eapol_bytes [OF assms] by simp
  have e: "take 99 (eapol_bytes m) @ kd_KeyData m = eapol_bytes m" using eapol_bytes_data [OF assms, of "kd_KeyData m"] by simp
  have "take (99 + n) (take 99 (eapol_bytes m) @ kd_KeyData m) = take 99 (eapol_bytes m) @ take n (kd_KeyData m)"
    using l by simp
  then show "take (99 + n) (eapol_bytes m) = take 99 (eapol_bytes m) @ take n (kd_KeyData m)"
    unfolding e .
qed

lemma elem_packet_carries:
  assumes m: "eapol_wf m" "CONV_ARRARY_TO_UINT16 (ep_Body_Len m) = 95 + n" "n \<le> length (kd_KeyData m)"
    and c: "carries Elem Addr m"
  shows "elem_packet Elem = Some (m\<lparr>kd_KeyData := take n (kd_KeyData m) @ drop (131 + n) (me_Msg Elem)\<rparr>)"
proof -
  let ?B = "drop 32 (me_Msg Elem)" and ?D = "take n (kd_KeyData m) @ drop (131 + n) (me_Msg Elem)"
  have c': "131 + n \<le> length (me_Msg Elem)" "take (99 + n) ?B = take (99 + n) (eapol_bytes m)"
    using c m(2) by (simp_all add: carries_def Let_def ac_simps)
  have "?B = take (99 + n) (eapol_bytes m) @ drop (99 + n) ?B"
    using c'(2) append_take_drop_id [of "99 + n" ?B] by simp
  then have "?B = eapol_bytes (m\<lparr>kd_KeyData := ?D\<rparr>)"
    unfolding eapol_bytes_data [OF m(1)] eapol_bytes_split(1) [OF m(1)] by (simp add: add.commute)
  then show ?thesis
    using eapol_of_bytes [of "m\<lparr>kd_KeyData := ?D\<rparr>"] m(1) c'(1) by (simp add: elem_packet_def)
qed

text \<open>The code of the standard: HMAC-SHA1 cut to sixteen octets, or HMAC-MD5, under the KCK.\<close>

definition mic_reference :: "UINT8 \<Rightarrow> bytes \<Rightarrow> bytes \<Rightarrow> bytes" where
  "mic_reference ver PTK frame =
    (if ver = KEY_DESC_AES then take 16 (hmac_reference sha1_reference (take 16 PTK) frame)
     else hmac_reference md5_reference (take 16 PTK) frame)"

lemma length_mic_reference [simp]: "length (mic_reference ver PTK frame) = 16"
  by (simp add: mic_reference_def sha1.length_hmac_reference md5.length_hmac_reference)

lemma eapol_mic_reference:
  assumes "ver = KEY_DESC_AES \<or> ver = KEY_DESC_TKIP" "length x < 2 ^ 32"
  shows "eapol_mic env ver PTK x = mic_reference ver PTK x"
  using assms by (auto simp: eapol_mic_def mic_reference_def HMAC_SHA1_spec HMAC_MD5_spec SHA1_DIGEST_SIZE_def
      sha1.length_hmac_reference md5.length_hmac_reference NdisMoveMemory_0_all)

text \<open>The check of the integrity code on the received packet.\<close>

lemma received_mic:
  assumes m: "eapol_wf m" "kd_KeyMic m = NdisZeroMemory 16" "n \<le> length (kd_KeyData m)" "length mic = 16"
    and p: "p = m\<lparr>kd_KeyMic := mic, kd_KeyData := take n (kd_KeyData m) @ rest\<rparr>"
  shows "p\<lparr>kd_KeyMic := NdisZeroMemory LEN_KEY_DESC_MIC\<rparr> = m\<lparr>kd_KeyData := take n (kd_KeyData m) @ rest\<rparr>"
    "take (99 + n) (eapol_bytes (m\<lparr>kd_KeyData := take n (kd_KeyData m) @ rest\<rparr>)) = take (99 + n) (eapol_bytes m)"
    "99 + n \<le> length (eapol_bytes (m\<lparr>kd_KeyData := take n (kd_KeyData m) @ rest\<rparr>))"
proof -
  note len = eapol_bytes_split(2) [OF m(1)] eapol_bytes_split(1) [OF m(1), of n]
  show "take (99 + n) (eapol_bytes (m\<lparr>kd_KeyData := take n (kd_KeyData m) @ rest\<rparr>)) = take (99 + n) (eapol_bytes m)"
    unfolding eapol_bytes_data [OF m(1)] using len m(3) by simp
  show "99 + n \<le> length (eapol_bytes (m\<lparr>kd_KeyData := take n (kd_KeyData m) @ rest\<rparr>))"
    unfolding eapol_bytes_data [OF m(1)] using len m(3) by simp
  show "p\<lparr>kd_KeyMic := NdisZeroMemory LEN_KEY_DESC_MIC\<rparr> = m\<lparr>kd_KeyData := take n (kd_KeyData m) @ rest\<rparr>"
    using m(2) by (cases m) (simp add: p)
qed

text \<open>Message 3 of WPA2 as its sender \<open>a\<close> constructs it, and as the station receives it.\<close>

definition group_key_installed :: "bytes \<Rightarrow> bytes \<Rightarrow> UINT8 \<Rightarrow> WPA_ADAPTER \<Rightarrow> WPA_ADAPTER" where
  "group_key_installed TxTsc gtk idx s =
    (let s = s\<lparr>wa_GTK := NdisMoveMemory (wa_GTK s) 0 gtk, wa_DefaultKeyId := unat (take_bit 2 idx)\<rparr>
     in WPAInstallSharedKey TxTsc (wa_GroupCipher s) (wa_DefaultKeyId s) 0 False (wa_GTK s) (length gtk) s)"

lemma take_bit_2_le: "unat (take_bit 2 idx) \<le> 3" for idx :: UINT8
  by (rule all_bytes [of "\<lambda>b. unat (take_bit 2 b) \<le> 3"]) code_simp

lemma parse_key_data_3:
  assumes "RSNIE = [] \<or> take 3 (drop 2 RSNIE) = OUI_WPA2" "length gtk = 16 \<or> length gtk = 32"
    "K = rsn_element RSNIE @ gtk_kde idx gtk" "length K \<le> 240" "P = kd_padded ver K"
  shows "RTMPParseEapolKeyData TxTsc (P @ NdisZeroMemory (255 - length P)) (length P) gi EAPOL_PAIR_MSG_3 True s
    = Some (True, group_key_installed TxTsc gtk idx s)"
proof -
  obtain skip where p: "parse_kde_loop (P @ NdisZeroMemory (255 - length P)) (length P) 0 (NdisZeroMemory 32, 0, 0)
      = Some (Inr (skip, NdisMoveMemory (NdisZeroMemory 32) 0 gtk, length gtk, unat (take_bit 2 idx)))"
    using parse_message3 [OF assms(1) _ _ assms(3-5), of "NdisZeroMemory 32"] assms(2) by auto
  have g: "take (length gtk) (NdisMoveMemory (NdisZeroMemory 32) 0 gtk) = gtk" by (simp add: NdisMoveMemory_def)
  show ?thesis
    using take_bit_2_le [of idx]
    by (simp add: RTMPParseEapolKeyData_def parse_group_key_def p g group_key_installed_def Let_def)
qed

lemma Sanity_3:
  assumes env: "wpa_mem_ok env" "wpa_mem_ok env'" and a: "is_WPA2 (we_AuthMode a)" "length (we_R_Counter a) = 8" "length (we_PTK a) = 64"
    and nonce: "length nonce = 32" and rsc: "length rsc = 8" and R: "RSNIE = [] \<or> take 3 (drop 2 RSNIE) = OUI_WPA2"
    and gtk: "length gtk = 16 \<or> length gtk = 32"
    and K: "K = rsn_element RSNIE @ gtk_kde idx gtk" "length K \<le> 240" and ver: "ver = eapol_desc_ver (we_WepStatus a) g"
    and eGTK: "wm_keydata_pool env = Some eGTK"
    and enc: "key_data_encrypt env ver (we_PTK a) (NdisZeroMemory 16) eGTK (K @ NdisZeroMemory (512 - length K)) (length K) = (field, n)"
    and m: "m = eapol_message a g EAPOL_PAIR_MSG_3 idx nonce (NdisZeroMemory 16) rsc (take n field)"
    and p: "p = m\<lparr>kd_KeyMic := eapol_mic env ver (we_PTK a) (take (99 + n) (eapol_bytes m)), kd_KeyData := take n (kd_KeyData m) @ rest\<rparr>"
    and s: "is_WPA2 (we_AuthMode (entry s w))" "we_PTK (entry s w) = we_PTK a"
      "\<not> replay_differs EAPOL_PAIR_MSG_3 (we_R_Counter a) (we_R_Counter (entry s w))"
  shows "\<exists>p'. PeerWpaMessageSanity env' TxTsc p EAPOL_PAIR_MSG_3 w s = Some (True, p', group_key_installed TxTsc gtk idx s)
      \<and> kd_ReplayCounter p' = we_R_Counter a \<and> kd_KeyNonce p' = nonce"
proof -
  have l: "length K \<le> n" "n \<le> 255" "length field = 512" "ver \<noteq> KEY_DESC_AES \<Longrightarrow> n = length K"
    using key_data_encrypt_length [OF env(1) a(3) K(2) _ enc] env eGTK by (auto simp: wpa_mem_ok_def)
  then have n0: "n \<noteq> 0" using K(1) by simp
  have v: "ver = KEY_DESC_AES \<or> ver = KEY_DESC_TKIP" by (auto simp: ver eapol_desc_ver_def)
  have wf: "eapol_wf m" unfolding m using a nonce rsc by (simp add: eapol_message_wf)
  have f: "kd_KeyMic m = NdisZeroMemory 16" "kd_ReplayCounter m = we_R_Counter a" "kd_KeyNonce m = nonce" "ki_KeyDescVer (kd_KeyInfo m) = ver"
    "kd_KeyDataLen m = SET_UINT16_TO_ARRARY n" "kd_KeyIv m = NdisZeroMemory 16" "ep_Body_Len m = SET_UINT16_TO_ARRARY (95 + n)"
    "take n (kd_KeyData m) = take n field" "n \<le> length (kd_KeyData m)"
    using l by (simp_all add: m eapol_message_def eapol_key_info_def ver Let_def)
  let ?q = "m\<lparr>kd_KeyData := take n (kd_KeyData m) @ rest\<rparr>" and ?P = "kd_padded ver K"
  have mic: "eapol_mic env ver (we_PTK a) (take (99 + n) (eapol_bytes m)) = mic_reference ver (we_PTK a) (take (99 + n) (eapol_bytes m))" for env
    using v l by (intro eapol_mic_reference) simp_all
  note r = received_mic [OF wf f(1) f(9) length_mic_reference p [unfolded mic]]
  have d: "eapol_decrypt env' (we_PTK a) ?q = Some (?P @ NdisZeroMemory (255 - length ?P),
      if ver = KEY_DESC_AES then ?q\<lparr>kd_KeyDataLen := SET_UINT16_TO_ARRARY (length ?P)\<rparr> else ?q)"
    using l f eGTK env(1) by (intro eapol_decrypt_encrypt [OF env a(3) v K(2) _ enc]) (auto simp: wpa_mem_ok_def)
  have lP: "length ?P \<le> 247" using length_kd_padded(2) [of ver K] K(2) by simp
  let ?p' = "if ver = KEY_DESC_AES then ?q\<lparr>kd_KeyDataLen := SET_UINT16_TO_ARRARY (length ?P)\<rparr> else ?q"
  have len: "CONV_ARRARY_TO_UINT16 (kd_KeyDataLen ?p') mod 256 = length ?P"
    using lP l f(5) v by (auto simp: kd_padded_def)
  have "eapol_key_data env' TxTsc EAPOL_PAIR_MSG_3 True (entry s w) ?q s = Some (True, ?p', group_key_installed TxTsc gtk idx s)"
    using n0 l(2) len d parse_key_data_3 [OF R gtk K refl, of TxTsc ver 0 s] s(2) f(5) by (simp add: eapol_key_data_def)
  moreover have "wm_KEYDATA env'" using env(2) by (simp add: wpa_mem_ok_def)
  moreover have "kd_ReplayCounter p = we_R_Counter a" "ep_Body_Len p = ep_Body_Len m" "kd_KeyInfo p = kd_KeyInfo m"
    "kd_KeyMic p = mic_reference ver (we_PTK a) (take (99 + n) (eapol_bytes m))"
    using f(2) mic by (simp_all add: p)
  ultimately have "PeerWpaMessageSanity env' TxTsc p EAPOL_PAIR_MSG_3 w s = Some (True, ?p', group_key_installed TxTsc gtk idx s)"
    using s r f(4,7) l(2) mic by (simp add: PeerWpaMessageSanity_def Let_def add.commute)
  then show ?thesis using f(2,3) by auto
qed

section \<open>Frame conditions of the state\<close>

lemma emit_simps [simp]:
  "wa_CurrentAddress (wpa_emit evs s) = wa_CurrentAddress s" "wa_PMK (wpa_emit evs s) = wa_PMK s"
  "wa_GroupCipher (wpa_emit evs s) = wa_GroupCipher s" "wa_RSN_IE (wpa_emit evs s) = wa_RSN_IE s"
  "wa_RSNIE_Len (wpa_emit evs s) = wa_RSNIE_Len s" "wa_PTK (wpa_emit evs s) = wa_PTK s" "wa_GTK (wpa_emit evs s) = wa_GTK s"
  "wa_DefaultKeyId (wpa_emit evs s) = wa_DefaultKeyId s" "wa_PortSecured (wpa_emit evs s) = wa_PortSecured s"
  "wa_SharedKey (wpa_emit evs s) = wa_SharedKey s" "wa_Content (wpa_emit evs s) = wa_Content s" "wa_Hash (wpa_emit evs s) = wa_Hash s"
  "wa_Log (wpa_emit evs s) = wa_Log s @ evs"
  by (simp_all add: wpa_emit_def)

lemma upd_Entry_simps [simp]:
  "wa_CurrentAddress (upd_Entry w f s) = wa_CurrentAddress s" "wa_PMK (upd_Entry w f s) = wa_PMK s"
  "wa_GroupCipher (upd_Entry w f s) = wa_GroupCipher s" "wa_RSN_IE (upd_Entry w f s) = wa_RSN_IE s"
  "wa_RSNIE_Len (upd_Entry w f s) = wa_RSNIE_Len s" "wa_PTK (upd_Entry w f s) = wa_PTK s" "wa_GTK (upd_Entry w f s) = wa_GTK s"
  "wa_DefaultKeyId (upd_Entry w f s) = wa_DefaultKeyId s" "wa_PortSecured (upd_Entry w f s) = wa_PortSecured s"
  "wa_SharedKey (upd_Entry w f s) = wa_SharedKey s" "wa_Hash (upd_Entry w f s) = wa_Hash s" "wa_Log (upd_Entry w f s) = wa_Log s"
  "length (wa_Content (upd_Entry w f s)) = length (wa_Content s)"
  by (simp_all add: upd_Entry_def)

lemma entry_simps [simp]:
  "entry (wpa_emit evs s) v = entry s v" "entry (s\<lparr>wa_GTK := x\<rparr>) v = entry s v" "entry (s\<lparr>wa_DefaultKeyId := k\<rparr>) v = entry s v"
  "entry (s\<lparr>wa_PTK := x\<rparr>) v = entry s v" "entry (s\<lparr>wa_SharedKey := ks\<rparr>) v = entry s v" "entry (s\<lparr>wa_PortSecured := k\<rparr>) v = entry s v"
  "entry (s\<lparr>wa_AuxChannel := k\<rparr>) v = entry s v"
  by (simp_all add: entry_def)

lemma entry_upd: "w < length (wa_Content s) \<Longrightarrow> entry (upd_Entry w f s) v = (if v = w then f (entry s w) else entry s v)"
  by (simp add: entry_def upd_Entry_def)

lemma upd_Entry_upd: "w < length (wa_Content s) \<Longrightarrow> upd_Entry w g (upd_Entry w f s) = upd_Entry w (\<lambda>e. g (f e)) s"
  by (simp add: upd_Entry_def)

text \<open>An installation writes one slot of the shared keys, or the pairwise key of one entry, and records its commands.\<close>

lemma RTMPSetWcidSecurityInfo_emits: "\<exists>evs. RTMPSetWcidSecurityInfo t b k alg wc tab s = wpa_emit evs s"
proof -
  have *: "\<exists>evs. (case iv of None \<Rightarrow> s | Some IV \<Rightarrow> wpa_emit (f IV) s) = wpa_emit evs s" for iv and f :: "UINT32 \<Rightarrow> wpa_event list"
    by (cases iv) (auto simp: wpa_emit_def intro: exI [of _ "[]"])
  show ?thesis unfolding RTMPSetWcidSecurityInfo_def Let_def by (rule *)
qed

lemma emit_emit [simp]: "wpa_emit e2 (wpa_emit e1 s) = wpa_emit (e1 @ e2) s"
  by (simp add: wpa_emit_def)

lemma WPAInstallSharedKey_writes:
  "\<exists>k evs. WPAInstallSharedKey t g i wc ae gtk n s = wpa_emit evs (s\<lparr>wa_SharedKey := (wa_SharedKey s)[i := k]\<rparr>)"
proof -
  have e: "s = wpa_emit [] s" for s by (simp add: wpa_emit_def)
  show ?thesis
  proof (cases "group_cipher_alg g")
    case None
    then show ?thesis using e by (auto simp: WPAInstallSharedKey_def Let_def)
  next
    case (Some alg)
    show ?thesis
    proof (cases "shared_key ae alg gtk n")
      case None
      then show ?thesis using Some e by (auto simp: WPAInstallSharedKey_def Let_def)
    next
      case (Some k)
      obtain evs where "RTMPSetWcidSecurityInfo t 0 i alg wc SHAREDKEYTABLE (wpa_emit [AsicAddSharedKeyEntry 0 i k] (s\<lparr>wa_SharedKey := (wa_SharedKey s)[i := k]\<rparr>))
          = wpa_emit evs (wpa_emit [AsicAddSharedKeyEntry 0 i k] (s\<lparr>wa_SharedKey := (wa_SharedKey s)[i := k]\<rparr>))"
        using RTMPSetWcidSecurityInfo_emits by blast
      then show ?thesis using Some \<open>group_cipher_alg g = Some alg\<close> by (auto simp: WPAInstallSharedKey_def Let_def)
    qed
  qed
qed

lemma WPAInstallSharedKey_group:
  assumes "group_cipher_alg g = Some alg" "shared_key False alg gtk n = Some k"
  shows "WPAInstallSharedKey t g i 0 False gtk n s = wpa_emit [AsicAddSharedKeyEntry 0 i k] (s\<lparr>wa_SharedKey := (wa_SharedKey s)[i := k]\<rparr>)"
  using assms by (simp add: WPAInstallSharedKey_def Let_def)

text \<open>The commands for a pairwise key: the key itself, then the initial vector with packet number one.\<close>

definition pairwise_commands :: "nat \<Rightarrow> nat \<Rightarrow> UINT8 \<Rightarrow> CIPHER_KEY \<Rightarrow> wpa_event list" where
  "pairwise_commands b aid alg k =
    [AsicAddPairwiseKeyEntry aid k, AsicUpdateWCIDIVEIV aid 0x20000001 0, AsicUpdateWcidAttributeEntry b 0 alg aid PAIRWISEKEYTABLE]"

lemma RTMPSetWcidSecurityInfo_pairwise:
  assumes "alg = CIPHER_TKIP \<or> alg = CIPHER_AES"
  shows "RTMPSetWcidSecurityInfo t b 0 alg wc tab s
    = wpa_emit [AsicUpdateWCIDIVEIV wc 0x20000001 0, AsicUpdateWcidAttributeEntry b 0 alg wc tab] s"
proof -
  have "alg \<noteq> CIPHER_WEP64" "alg \<noteq> CIPHER_WEP128" using assms by auto
  then have c: "(if alg = CIPHER_WEP64 \<or> alg = CIPHER_WEP128 then x else if alg = CIPHER_TKIP \<or> alg = CIPHER_AES then y else z) = y" for x y z :: "UINT32 option"
    using assms by simp
  have iv: "push_bit 24 (ucast (push_bit 6 (word_of_nat 0 :: UINT8) OR 0x20)) OR 1 = (0x20000001 :: UINT32)" by simp
  show ?thesis unfolding RTMPSetWcidSecurityInfo_def Let_def c option.case iv ..
qed

lemma WPAInstallPairwiseKey_writes:
  assumes "w < length (wa_Content s)" "pairwise_cipher (we_WepStatus (entry s w)) = Some alg"
  shows "WPAInstallPairwiseKey b w ae s = wpa_emit (pairwise_commands b (we_Aid (entry s w)) alg (pairwise_key ae (we_PTK (entry s w)) alg))
    (upd_Entry w (\<lambda>e. e\<lparr>we_PairwiseKey := pairwise_key ae (we_PTK (entry s w)) alg\<rparr>) s)"
proof -
  have u: "upd_Entry w (\<lambda>e. e\<lparr>we_PairwiseKey := pairwise_key ae (we_PTK e) alg\<rparr>) (upd_Entry w (\<lambda>e. e\<lparr>we_PairwiseKey := cipher_key_zero\<rparr>) s)
      = upd_Entry w (\<lambda>e. e\<lparr>we_PairwiseKey := pairwise_key ae (we_PTK (entry s w)) alg\<rparr>) s"
    using assms(1) by (simp add: upd_Entry_def entry_def)
  have alg: "alg = CIPHER_TKIP \<or> alg = CIPHER_AES" "ck_CipherAlg (pairwise_key ae PTK alg) = alg" for PTK
    using assms(2) by (auto simp: pairwise_cipher_def pairwise_key_def Let_def split: if_splits)
  show ?thesis
    using assms by (simp add: WPAInstallPairwiseKey_def Let_def u entry_upd alg RTMPSetWcidSecurityInfo_pairwise [OF alg(1)] pairwise_commands_def)
qed

lemma STA_PORT_SECURED_simps [simp]:
  "wa_CurrentAddress (STA_PORT_SECURED s) = wa_CurrentAddress s" "wa_GroupCipher (STA_PORT_SECURED s) = wa_GroupCipher s"
  "wa_PTK (STA_PORT_SECURED s) = wa_PTK s" "wa_GTK (STA_PORT_SECURED s) = wa_GTK s"
  "wa_DefaultKeyId (STA_PORT_SECURED s) = wa_DefaultKeyId s" "wa_SharedKey (STA_PORT_SECURED s) = wa_SharedKey s"
  "wa_PortSecured (STA_PORT_SECURED s) = WPA_802_1X_PORT_SECURED"
  by (simp_all add: STA_PORT_SECURED_def Let_def)

lemma entry_STA_PORT_SECURED:
  "entry (STA_PORT_SECURED s) v = (if v = BSSID_WCID \<and> BSSID_WCID < length (wa_Content s)
     then (entry s v)\<lparr>we_PortSecured := WPA_802_1X_PORT_SECURED, we_PrivacyFilter := Ndis802_11PrivFilterAcceptAll\<rparr> else entry s v)"
  by (cases "BSSID_WCID < length (wa_Content s)"; cases "v = BSSID_WCID")
     (simp_all add: STA_PORT_SECURED_def Let_def entry_def upd_Entry_def wpa_emit_def list_update_beyond)

text \<open>The octets of a packet with its integrity code, as they are sent.\<close>

definition eapol_signed :: "UINT8 \<Rightarrow> bytes \<Rightarrow> EAPOL_PACKET \<Rightarrow> bytes" where
  "eapol_signed ver PTK m =
    (let n = CONV_ARRARY_TO_UINT16 (ep_Body_Len m) + 4
     in take n (eapol_bytes (m\<lparr>kd_KeyMic := mic_reference ver PTK (take n (eapol_bytes m))\<rparr>)))"

lemma send_eapol_peer:
  assumes "wm_packet env" "is_peer (entry s w)" "CONV_ARRARY_TO_UINT16 (ep_Body_Len m) + 4 \<le> length (eapol_bytes m)"
  shows "send_eapol env w m clear s = Some (wpa_emit [STASendPacket (we_Aid (entry s w))
    (MAKE_802_3_HEADER (we_Addr (entry s w)) (wa_CurrentAddress s))
    (take (CONV_ARRARY_TO_UINT16 (ep_Body_Len m) + 4) (eapol_bytes m)) clear] s)"
  using assms by (simp add: send_eapol_def RTMPToWirelessSta_def Let_def)

lemma signed_message:
  assumes m: "m = eapol_message e g t idx nonce iv rsc kd" and kd: "length kd \<le> 413" and wf: "eapol_wf m"
    and v: "ver = KEY_DESC_AES \<or> ver = KEY_DESC_TKIP"
    and q: "q = m\<lparr>kd_KeyMic := eapol_mic env ver PTK (take (99 + length kd) (eapol_bytes m))\<rparr>"
  shows "CONV_ARRARY_TO_UINT16 (ep_Body_Len q) + 4 \<le> length (eapol_bytes q)"
    "take (CONV_ARRARY_TO_UINT16 (ep_Body_Len q) + 4) (eapol_bytes q) = eapol_signed ver PTK m" "ep_Body_Len q = ep_Body_Len m"
proof -
  have n: "CONV_ARRARY_TO_UINT16 (ep_Body_Len m) + 4 = 99 + length kd" "length (kd_KeyData m) = 1401"
    using kd by (simp_all add: m eapol_message_def)
  have mic: "eapol_mic env ver PTK (take (99 + length kd) (eapol_bytes m)) = mic_reference ver PTK (take (99 + length kd) (eapol_bytes m))"
    using v kd by (intro eapol_mic_reference) simp_all
  have q': "q = m\<lparr>kd_KeyMic := mic_reference ver PTK (take (99 + length kd) (eapol_bytes m))\<rparr>" unfolding q mic ..
  show b: "ep_Body_Len q = ep_Body_Len m" by (simp add: q)
  show "take (CONV_ARRARY_TO_UINT16 (ep_Body_Len q) + 4) (eapol_bytes q) = eapol_signed ver PTK m"
    unfolding b eapol_signed_def Let_def n unfolding q' ..
  show "CONV_ARRARY_TO_UINT16 (ep_Body_Len q) + 4 \<le> length (eapol_bytes q)"
    unfolding b n(1) using length_eapol_bytes [OF eapol_wf_mic [OF wf length_mic_reference]] kd n(2) by (simp add: q')
qed

text \<open>The group key of a cipher that the constructor encapsulates.\<close>

definition group_key :: "nat \<Rightarrow> bytes \<Rightarrow> CIPHER_KEY" where
  "group_key g gtk = (case shared_key False (if g = Ndis802_11Encryption3Enabled then CIPHER_AES else CIPHER_TKIP) gtk (length gtk) of
     None \<Rightarrow> cipher_key_zero | Some k \<Rightarrow> k)"

lemma group_key_installed_writes:
  assumes "wa_GroupCipher s = g" "g = Ndis802_11Encryption2Enabled \<or> g = Ndis802_11Encryption3Enabled"
    "length gtk = (if g = Ndis802_11Encryption3Enabled then 16 else 32)"
  shows "group_key_installed TxTsc gtk idx s = (let i = unat (take_bit 2 idx) in wpa_emit [AsicAddSharedKeyEntry 0 i (group_key g gtk)]
    (s\<lparr>wa_GTK := NdisMoveMemory (wa_GTK s) 0 gtk, wa_DefaultKeyId := i, wa_SharedKey := (wa_SharedKey s)[i := group_key g gtk]\<rparr>))"
proof -
  have "shared_key False (if g = Ndis802_11Encryption3Enabled then CIPHER_AES else CIPHER_TKIP) (NdisMoveMemory (wa_GTK s) 0 gtk) (length gtk)
      = Some (group_key g gtk)"
    using assms(2,3) by (auto simp: group_key_def shared_key_def NdisMoveMemory_def Let_def)
  then show ?thesis
    using assms(1,2) by (auto simp: group_key_installed_def WPAInstallSharedKey_group group_cipher_alg_def Let_def)
qed

text \<open>The state in which message 3 of WPA2 leaves the station: the entry with its pairwise key and the replay counter \<open>rc\<close>, the
  group key, the port, and message 4 sent last.\<close>

definition keys_installed :: "bytes \<Rightarrow> bytes \<Rightarrow> UINT8 \<Rightarrow> bytes \<Rightarrow> nat \<Rightarrow> WPA_ADAPTER \<Rightarrow> WPA_ADAPTER \<Rightarrow> bool" where
  "keys_installed PTK gtk idx rc w s s' \<longleftrightarrow>
     we_WpaState (entry s' w) = AS_PTKINITDONE \<and> we_R_Counter (entry s' w) = rc \<and> we_PTK (entry s' w) = PTK \<and> wa_PTK s' = PTK
     \<and> Some (we_PairwiseKey (entry s' w)) = map_option (pairwise_key False PTK) (pairwise_cipher (we_WepStatus (entry s w)))
     \<and> wa_SharedKey s' ! 0 = we_PairwiseKey (entry s' w)
     \<and> wa_GTK s' = NdisMoveMemory (wa_GTK s) 0 gtk \<and> wa_DefaultKeyId s' = unat (take_bit 2 idx)
     \<and> (wa_DefaultKeyId s' \<noteq> 0 \<longrightarrow> wa_SharedKey s' ! wa_DefaultKeyId s' = group_key (wa_GroupCipher s) gtk)
     \<and> wa_PortSecured s' = WPA_802_1X_PORT_SECURED \<and> we_PortSecured (entry s' w) = WPA_802_1X_PORT_SECURED
     \<and> wa_Log s' = wa_Log s @ [AsicAddSharedKeyEntry 0 (wa_DefaultKeyId s') (group_key (wa_GroupCipher s) gtk)]
         @ pairwise_commands 0 (we_Aid (entry s w)) (ck_CipherAlg (we_PairwiseKey (entry s' w))) (we_PairwiseKey (entry s' w))
         @ [IndicateMediaConnected, CancelLinkDownTimer,
            STASendPacket (we_Aid (entry s w)) (MAKE_802_3_HEADER (we_Addr (entry s w)) (wa_CurrentAddress s))
              (eapol_signed (eapol_desc_ver (we_WepStatus (entry s w)) (wa_GroupCipher s)) PTK
                 (eapol_message ((entry s w)\<lparr>we_R_Counter := rc\<rparr>) (wa_GroupCipher s) EAPOL_PAIR_MSG_4 0
                    (NdisZeroMemory 32) (NdisZeroMemory 16) (NdisZeroMemory 8) [])) True]"

lemma Msg3_action:
  assumes env: "wpa_mem_ok env" and s: "w < length (wa_Content s)" "is_peer (entry s w)" "is_WPA2 (we_AuthMode (entry s w))"
      "pairwise_cipher (we_WepStatus (entry s w)) = Some alg" "length (wa_SharedKey s) = 4"
    and g: "wa_GroupCipher s = g" "g = Ndis802_11Encryption2Enabled \<or> g = Ndis802_11Encryption3Enabled"
      "length gtk = (if g = Ndis802_11Encryption3Enabled then 16 else 32)"
    and Elem: "131 \<le> me_MsgLen Elem" "elem_packet Elem = Some p"
    and san: "PeerWpaMessageSanity env TxTsc p EAPOL_PAIR_MSG_3 w s = Some (True, p', group_key_installed TxTsc gtk idx s)"
    and p': "kd_ReplayCounter p' = rc" "length rc = 8" "kd_KeyNonce p' = we_ANonce (entry s w)"
  shows "\<exists>s'. PeerPairMsg3Action env TxTsc w Elem s = Some s' \<and> keys_installed (we_PTK (entry s w)) gtk idx rc w s s'"
proof -
  let ?e = "(entry s w)\<lparr>we_R_Counter := rc\<rparr>" and ?i = "unat (take_bit 2 idx)"
  let ?m = "eapol_message ?e g EAPOL_PAIR_MSG_4 0 (NdisZeroMemory 32) (NdisZeroMemory 16) (NdisZeroMemory 8) []"
  let ?ver = "eapol_desc_ver (we_WepStatus (entry s w)) g"
  define q where "q = ?m\<lparr>kd_KeyMic := eapol_mic env ?ver (we_PTK (entry s w)) (take 99 (eapol_bytes ?m))\<rparr>"
  define s1 where "s1 = upd_Entry w (\<lambda>e. e\<lparr>we_R_Counter := rc\<rparr>) (group_key_installed TxTsc gtk idx s)"
  note gki = group_key_installed_writes [OF g, unfolded Let_def, of TxTsc idx]
  have v: "?ver = KEY_DESC_AES \<or> ?ver = KEY_DESC_TKIP" by (simp add: eapol_desc_ver_def)
  have wf: "eapol_wf ?m" using p'(2) by (simp add: eapol_message_wf)
  have q: "CONV_ARRARY_TO_UINT16 (ep_Body_Len q) + 4 \<le> length (eapol_bytes q)"
    "take (CONV_ARRARY_TO_UINT16 (ep_Body_Len q) + 4) (eapol_bytes q) = eapol_signed ?ver (we_PTK (entry s w)) ?m"
    using signed_message [OF refl _ wf v, of q env "we_PTK (entry s w)"] by (simp_all add: q_def)
  have e1: "entry s1 w = ?e" "wa_GroupCipher s1 = g" "length (wa_Content s1) = length (wa_Content s)" "wa_SharedKey s1 = (wa_SharedKey s)[?i := group_key g gtk]"
    "wa_GTK s1 = NdisMoveMemory (wa_GTK s) 0 gtk" "wa_DefaultKeyId s1 = ?i" "wa_CurrentAddress s1 = wa_CurrentAddress s"
    using s(1) g(1) by (simp_all add: s1_def gki entry_upd)
  have c4: "ConstructEapolMsg env ?e g EAPOL_PAIR_MSG_4 0 None None None [] eapol_zero = Some q"
    using ConstructEapolMsg_4 [of env ?e g 0 None None None "[]"] env p'(2) by (simp add: e1 q_def wpa_mem_ok_def Let_def)
  define s2 where "s2 = (upd_Entry w (\<lambda>e. e\<lparr>we_WpaState := AS_PTKINITDONE\<rparr>) s1)\<lparr>wa_PTK := we_PTK (entry s w)\<rparr>"
  define evs where "evs = pairwise_commands 0 (we_Aid (entry s w)) alg (pairwise_key False (we_PTK (entry s w)) alg)"
  have s3: "WPAInstallPairwiseKey 0 w False s2
      = wpa_emit evs (upd_Entry w (\<lambda>e. e\<lparr>we_PairwiseKey := pairwise_key False (we_PTK (entry s w)) alg\<rparr>) s2)"
    using WPAInstallPairwiseKey_writes [of w s2 alg 0 False] s e1 by (simp add: s2_def entry_upd evs_def)
  let ?k = "pairwise_key False (we_PTK (entry s w)) alg"
  define s4 where "s4 = (wpa_emit evs (upd_Entry w (\<lambda>e. e\<lparr>we_PairwiseKey := ?k\<rparr>) s2))\<lparr>wa_SharedKey := (wa_SharedKey s)[?i := group_key g gtk, 0 := ?k]\<rparr>"
  have e4: "entry s4 w = ?e\<lparr>we_WpaState := AS_PTKINITDONE, we_PairwiseKey := ?k\<rparr>" "wa_GTK s4 = NdisMoveMemory (wa_GTK s) 0 gtk"
     "wa_DefaultKeyId s4 = ?i" "wa_SharedKey s4 = (wa_SharedKey s)[?i := group_key g gtk, 0 := ?k]" "wa_CurrentAddress s4 = wa_CurrentAddress s"
     "wa_PTK s4 = we_PTK (entry s w)" "w < length (wa_Content s4)"
     "wa_Log s4 = wa_Log s @ [AsicAddSharedKeyEntry 0 ?i (group_key g gtk)] @ evs"
    using e1 s(1) by (simp_all add: s4_def s2_def entry_upd) (simp add: s1_def gki)
  define s5 where "s5 = STA_PORT_SECURED (upd_Entry w (\<lambda>e. e\<lparr>we_PortSecured := WPA_802_1X_PORT_SECURED,
      we_PrivacyFilter := Ndis802_11PrivFilterAcceptAll\<rparr>) s4)"
  have e2: "we_PTK (entry (upd_Entry w (\<lambda>e. e\<lparr>we_WpaState := AS_PTKINITDONE\<rparr>) s1) w) = we_PTK (entry s w)"
    "wa_SharedKey s2 = (wa_SharedKey s)[?i := group_key g gtk]" "entry s2 w = ?e\<lparr>we_WpaState := AS_PTKINITDONE\<rparr>" "w < length (wa_Content s2)"
    using e1 s(1) by (simp_all add: s2_def entry_upd)
  have "wm_mpool env" using env by (simp add: wpa_mem_ok_def)
  then have "PeerPairMsg3Action env TxTsc w Elem s = send_eapol env w q True s5"
    using s(1-3) Elem san p' e1 c4
    by (simp add: PeerPairMsg3Action_def Let_def s1_def [symmetric] e2 s2_def [symmetric] s3 entry_upd s4_def [symmetric] s5_def)
  moreover have e5: "entry s5 w = ?e\<lparr>we_WpaState := AS_PTKINITDONE, we_PairwiseKey := ?k, we_PortSecured := WPA_802_1X_PORT_SECURED,
      we_PrivacyFilter := Ndis802_11PrivFilterAcceptAll\<rparr>"
    using e4 by (auto simp: s5_def entry_STA_PORT_SECURED entry_upd)
  moreover have "is_peer (entry s5 w)" using s(2) by (simp add: e5 is_peer_def)
  moreover have "wm_packet env" using env by (simp add: wpa_mem_ok_def)
  ultimately have "PeerPairMsg3Action env TxTsc w Elem s = Some (wpa_emit [STASendPacket (we_Aid (entry s w))
      (MAKE_802_3_HEADER (we_Addr (entry s w)) (wa_CurrentAddress s)) (eapol_signed ?ver (we_PTK (entry s w)) ?m) True] s5)"
    using send_eapol_peer [of env s5 w q True] q e4 by (simp add: s5_def)
  moreover have "keys_installed (we_PTK (entry s w)) gtk idx rc w s (wpa_emit [STASendPacket (we_Aid (entry s w))
      (MAKE_802_3_HEADER (we_Addr (entry s w)) (wa_CurrentAddress s)) (eapol_signed ?ver (we_PTK (entry s w)) ?m) True] s5)"
  proof -
    have "wa_Log s5 = wa_Log s4 @ [IndicateMediaConnected, CancelLinkDownTimer]" by (simp add: s5_def STA_PORT_SECURED_def Let_def)
    moreover have "ck_CipherAlg ?k = alg" by (simp add: pairwise_key_def Let_def)
    ultimately show ?thesis
      using e4 e5 s(4,5) g(1) take_bit_2_le [of idx] unfolding keys_installed_def by (simp add: s5_def evs_def)
  qed
  ultimately show ?thesis by blast
qed

section \<open>The exchange\<close>

text \<open>The sizes of the arrays of the adapter and of an entry.\<close>

definition cipher_key_wf :: "CIPHER_KEY \<Rightarrow> bool" where
  "cipher_key_wf k \<longleftrightarrow> length (ck_Key k) = 16 \<and> length (ck_TxMic k) = 8 \<and> length (ck_RxMic k) = 8"

definition wpa_entry_wf :: "WPA_ENTRY \<Rightarrow> bool" where
  "wpa_entry_wf e \<longleftrightarrow> length (we_Addr e) = 6 \<and> length (we_R_Counter e) = 8 \<and> length (we_ANonce e) = 32
     \<and> length (we_SNonce e) = 32 \<and> length (we_PTK e) = 64 \<and> cipher_key_wf (we_PairwiseKey e)"

definition wpa_wf :: "WPA_ADAPTER \<Rightarrow> bool" where
  "wpa_wf s \<longleftrightarrow> length (wa_CurrentAddress s) = 6 \<and> length (wa_PMK s) = 32 \<and> length (wa_PTK s) = 64 \<and> length (wa_GTK s) = 32
     \<and> wa_RSNIE_Len s \<le> length (wa_RSN_IE s) \<and> length (wa_RSN_IE s) = 255 \<and> wa_DefaultKeyId s \<le> 3
     \<and> length (wa_SharedKey s) = 4 \<and> list_all cipher_key_wf (wa_SharedKey s) \<and> list_all wpa_entry_wf (wa_Content s)"

lemma entry_wf: "wpa_wf s \<Longrightarrow> w < length (wa_Content s) \<Longrightarrow> wpa_entry_wf (entry s w)"
  by (auto simp: wpa_wf_def entry_def list_all_length)

text \<open>Message 1 from \<open>a\<close> makes the station draw its nonce, derive the PTK and answer with message 2.\<close>

definition msg1_entry :: "wpa_mem \<Rightarrow> WPA_ENTRY \<Rightarrow> bytes \<Rightarrow> WPA_ADAPTER \<Rightarrow> nat \<Rightarrow> WPA_ENTRY" where
  "msg1_entry env a anonce s w =
    (let e = entry s w; snonce = nonce_reference (wm_uptime env) (wa_CurrentAddress s) 32
     in e\<lparr>we_R_Counter := we_R_Counter a, we_ANonce := anonce, we_SNonce := snonce,
          we_PTK := ptk_reference (wa_PMK s) (we_Addr e) (wa_CurrentAddress s) anonce snonce 64, we_WpaState := AS_PTKINIT_NEGOTIATING\<rparr>)"

definition msg2_packet :: "WPA_ENTRY \<Rightarrow> WPA_ADAPTER \<Rightarrow> EAPOL_PACKET" where
  "msg2_packet e s = eapol_message e (wa_GroupCipher s) EAPOL_PAIR_MSG_2 0 (we_SNonce e) (NdisZeroMemory 16) (NdisZeroMemory 8)
     (rsn_element (take (wa_RSNIE_Len s) (wa_RSN_IE s)))"

definition msg1_answer :: "wpa_mem \<Rightarrow> WPA_ENTRY \<Rightarrow> bytes \<Rightarrow> WPA_ADAPTER \<Rightarrow> nat \<Rightarrow> WPA_ADAPTER" where
  "msg1_answer env a anonce s w =
    (let e = msg1_entry env a anonce s w
     in wpa_emit [STASendPacket (we_Aid e) (MAKE_802_3_HEADER (we_Addr e) (wa_CurrentAddress s))
          (eapol_signed (eapol_desc_ver (we_WepStatus e) (wa_GroupCipher s)) (we_PTK e) (msg2_packet e s)) True]
          (upd_Entry w (\<lambda>_. e) s))"

lemma Msg1_action:
  assumes env: "wpa_mem_ok env" and s: "wpa_wf s" "w < length (wa_Content s)" "is_peer (entry s w)"
    and a: "length (we_R_Counter a) = 8" "length anonce = 32" "anonce \<noteq> nonce_reference (wm_uptime env) (wa_CurrentAddress s) 32"
      "\<not> replay_differs EAPOL_PAIR_MSG_1 (we_R_Counter a) (we_R_Counter (entry s w))"
    and Elem: "carries Elem Addr (eapol_message a g EAPOL_PAIR_MSG_1 idx anonce (NdisZeroMemory 16) (NdisZeroMemory 8) [])"
  shows "PeerPairMsg1Action env TxTsc w Elem s = Some (msg1_answer env a anonce s w)"
proof -
  let ?m = "eapol_message a g EAPOL_PAIR_MSG_1 idx anonce (NdisZeroMemory 16) (NdisZeroMemory 8) []"
  let ?snonce = "nonce_reference (wm_uptime env) (wa_CurrentAddress s) 32"
  let ?PTK = "ptk_reference (wa_PMK s) (we_Addr (entry s w)) (wa_CurrentAddress s) anonce ?snonce 64"
  let ?e = "msg1_entry env a anonce s w"
  define p where "p = ?m\<lparr>kd_KeyData := drop 131 (me_Msg Elem)\<rparr>"
  have wf: "eapol_wf ?m" using a by (simp add: eapol_message_wf)
  have b: "CONV_ARRARY_TO_UINT16 (ep_Body_Len ?m) = 95" by (simp add: eapol_message_def)
  have ep: "elem_packet Elem = Some p" "131 \<le> me_MsgLen Elem"
    using elem_packet_carries [OF wf _ _ Elem, of 0] b Elem by (simp_all add: p_def carries_def Let_def)
  have p: "kd_ReplayCounter p = we_R_Counter a" "kd_KeyNonce p = anonce" "CONV_ARRARY_TO_UINT16 (kd_KeyDataLen p) = 0"
    by (simp_all add: p_def eapol_message_def)
  have e: "length (we_Addr (entry s w)) = 6" "length (we_PTK (entry s w)) = 64" "length (we_SNonce (entry s w)) = 32"
    "length (wa_CurrentAddress s) = 6" "length (wa_PMK s) = 32" "length (take (wa_RSNIE_Len s) (wa_RSN_IE s)) \<le> 255"
    using entry_wf [OF s(1,2)] s(1) by (simp_all add: wpa_entry_wf_def wpa_wf_def)
  have san: "PeerWpaMessageSanity env TxTsc p EAPOL_PAIR_MSG_1 w s = Some (True, p, s)"
    using env a(4) p by (simp add: PeerWpaMessageSanity_def eapol_key_data_def wpa_mem_ok_def Let_def)
  obtain buf where buf: "wm_prf env = Some buf" "length buf = 1024" "length (wm_stack env) = 80"
    using env by (auto simp: wpa_mem_ok_def split: option.splits)
  have mem: "\<exists>buf. wm_nonce env i = Some buf \<and> length buf = 1024" for i
    using env by (auto simp: wpa_mem_ok_def split: option.splits dest!: spec [of _ i])
  have nonce: "GenRandom (wm_nonce env) (wm_uptime env) (wa_CurrentAddress s) (we_SNonce (entry s w)) = Some ?snonce"
    by (rule GenRandom_spec [OF mem e(4,3)])
  obtain rest where ptk: "WpaDerivePTK (Some buf) (wa_PMK s) anonce (we_Addr (entry s w)) ?snonce (wa_CurrentAddress s) (wm_stack env) 64
      = Some (?PTK @ rest)"
    using WpaDerivePTK_spec [OF buf(2) e(5,1,4) a(2) _ a(3), of "wm_stack env"] buf(3) by auto
  have lP: "length ?PTK = 64" by (simp add: ptk_reference_def)
  let ?f = "\<lambda>e. e\<lparr>we_R_Counter := we_R_Counter a, we_ANonce := anonce, we_SNonce := ?snonce,
      we_PTK := NdisMoveMemory (we_PTK e) 0 ?PTK, we_WpaState := AS_PTKINIT_NEGOTIATING\<rparr>"
  have se: "upd_Entry w ?f s = upd_Entry w (\<lambda>_. ?e) s" "?e = ?f (entry s w)"
    using e(2) lP by (simp_all add: upd_Entry_def entry_def msg1_entry_def Let_def NdisMoveMemory_0_all)
  define q where "q = (msg2_packet ?e s)\<lparr>kd_KeyMic := eapol_mic env (eapol_desc_ver (we_WepStatus ?e) (wa_GroupCipher s)) (we_PTK ?e)
      (take (99 + length (rsn_element (take (wa_RSNIE_Len s) (wa_RSN_IE s)))) (eapol_bytes (msg2_packet ?e s)))\<rparr>"
  have me: "length (we_R_Counter ?e) = 8" "length (we_SNonce ?e) = 32" "we_SNonce ?e = ?snonce" "is_peer ?e"
    using a(1) s(3) by (simp_all add: msg1_entry_def Let_def is_peer_def)
  have c2: "ConstructEapolMsg env ?e (wa_GroupCipher s) EAPOL_PAIR_MSG_2 0 (Some ?snonce) None None (take (wa_RSNIE_Len s) (wa_RSN_IE s)) eapol_zero = Some q"
    using ConstructEapolMsg_2 [of env _ ?snonce "take (wa_RSNIE_Len s) (wa_RSN_IE s)" ?e "wa_GroupCipher s" 0 None None] env e(6) me
    by (auto simp: q_def msg2_packet_def wpa_mem_ok_def Let_def split: option.splits)
  have q: "CONV_ARRARY_TO_UINT16 (ep_Body_Len q) + 4 \<le> length (eapol_bytes q)"
    "take (CONV_ARRARY_TO_UINT16 (ep_Body_Len q) + 4) (eapol_bytes q)
      = eapol_signed (eapol_desc_ver (we_WepStatus ?e) (wa_GroupCipher s)) (we_PTK ?e) (msg2_packet ?e s)"
    using signed_message [OF msg2_packet_def [of ?e s] _ _ _ q_def] e(6) me
    by (simp_all add: length_rsn_element eapol_desc_ver_def msg2_packet_def eapol_message_wf)
  have "PeerPairMsg1Action env TxTsc w Elem s = send_eapol env w q True (upd_Entry w ?f s)"
    using env s(2,3) ep san p nonce ptk buf(1) lP c2 se(2)
    by (simp add: PeerPairMsg1Action_def Let_def entry_upd upd_Entry_upd wpa_mem_ok_def)
  then show ?thesis
    unfolding se(1) using send_eapol_peer [of env "upd_Entry w (\<lambda>_. ?e) s" w q True] q env me s(2)
    by (simp add: msg1_answer_def Let_def entry_upd wpa_mem_ok_def)
qed

end
