(* ===== verification/WpaProtocol.thy ===== *)
theory WpaProtocol
  imports WpaExchange
begin

text \<open>
  The theorems on the key handshakes, stated for the dispatcher \<^verbatim>\<open>WpaEAPOLKeyAction\<close>: the four-way
  handshake of WPA2 completes, the sizes of the arrays are kept, keys change only for a message with a valid integrity code,
  replay counters, and the errors of the parser.
\<close>

section \<open>Dispatching\<close>

text \<open>The entry of an associated WPA2 peer that waits for the handshake, found through the hash table.\<close>

definition associated :: "nat \<Rightarrow> WPA_ADAPTER \<Rightarrow> bool" where
  "associated w s \<longleftrightarrow> w < length (wa_Content s) \<and> is_peer (entry s w) \<and> MacTableLookup s (we_Addr (entry s w)) = Some w
     \<and> we_Sst (entry s w) = SST_ASSOC \<and> AS_INITPSK \<le> we_WpaState (entry s w) \<and> is_WPA2 (we_AuthMode (entry s w))
     \<and> (wa_GroupCipher s = Ndis802_11Encryption2Enabled \<or> wa_GroupCipher s = Ndis802_11Encryption3Enabled \<and> we_WepStatus (entry s w) = Ndis802_11Encryption3Enabled)
     \<and> (we_WepStatus (entry s w) = Ndis802_11Encryption2Enabled \<or> we_WepStatus (entry s w) = Ndis802_11Encryption3Enabled)"

definition sent_frame :: "WPA_ADAPTER \<Rightarrow> bytes" where
  "sent_frame s = (case last (wa_Log s) of STASendPacket _ _ d _ \<Rightarrow> d | _ \<Rightarrow> [])"

lemma lookup_chain_upd:
  assumes "we_EntryType (f (Content ! w)) = we_EntryType (Content ! w)" "we_Addr (f (Content ! w)) = we_Addr (Content ! w)"
  shows "lookup_chain (Content[w := f (Content ! w)]) chain A = lookup_chain Content chain A"
proof -
  have "we_EntryType (Content[w := f (Content ! w)] ! i) = we_EntryType (Content ! i) \<and> we_Addr (Content[w := f (Content ! w)] ! i) = we_Addr (Content ! i)" for i
    using assms by (cases "w < length Content"; cases "i = w") (simp_all add: list_update_beyond)
  then show ?thesis by (induction chain) simp_all
qed

lemma lookup_upd:
  assumes "we_EntryType (f (entry s w)) = we_EntryType (entry s w)" "we_Addr (f (entry s w)) = we_Addr (entry s w)"
  shows "MacTableLookup (upd_Entry w f s) A = MacTableLookup s A"
  using assms lookup_chain_upd [of f "wa_Content s" w] by (simp add: MacTableLookup_def upd_Entry_def entry_def)

lemma lookup_emit [simp]: "MacTableLookup (wpa_emit evs s) A = MacTableLookup s A"
  by (simp add: MacTableLookup_def)

text \<open>A constructed packet passes the guards.\<close>

lemma message_accepted:
  assumes "associated w s" "we_WepStatus a = we_WepStatus (entry s w)" "is_WPA2 (we_AuthMode a)"
    and "length kd \<le> 413" "me_MsgLen Elem = 131 + length kd"
    and p: "p = (eapol_message a (wa_GroupCipher s) t idx nonce iv rsc kd)\<lparr>kd_KeyMic := mic, kd_KeyData := D\<rparr>"
  shows "eapol_key_accepted Elem p (entry s w)"
proof -
  have "ki_KeyDescVer (kd_KeyInfo p) = eapol_desc_ver (we_WepStatus a) (wa_GroupCipher s)" "ep_ProVer p = EAPOL_VER" "kd_Type p = WPA2_KEY_DESC"
    "CONV_ARRARY_TO_UINT16 (ep_Body_Len p) = 95 + length kd"
    using assms(3,4) by (simp_all add: p eapol_message_def eapol_key_info_def Let_def)
  then show ?thesis
    using assms(1,2,4,5) unfolding eapol_key_accepted_def associated_def
    by (auto simp: eapol_desc_ver_def uint_sub_def is_WPA2_def)
qed

lemma dispatch_pairwise:
  assumes s: "associated w s" and a: "we_WepStatus a = we_WepStatus (entry s w)" "is_WPA2 (we_AuthMode a)"
    and m: "m = (eapol_message a (wa_GroupCipher s) t idx nonce iv rsc kd)\<lparr>kd_KeyMic := mic\<rparr>" "eapol_wf m" "length kd \<le> 413"
    and c: "carries Elem (we_Addr (entry s w)) m"
  shows "t = EAPOL_PAIR_MSG_1 \<Longrightarrow> WpaEAPOLKeyAction env TxTsc Elem s = PeerPairMsg1Action env TxTsc w Elem s"
    and "t = EAPOL_PAIR_MSG_3 \<Longrightarrow> WpaEAPOLKeyAction env TxTsc Elem s = PeerPairMsg3Action env TxTsc w Elem s"
proof -
  have b: "CONV_ARRARY_TO_UINT16 (ep_Body_Len m) = 95 + length kd" "length kd \<le> length (kd_KeyData m)"
    using m(3) by (simp_all add: m(1) eapol_message_def)
  define p where "p = m\<lparr>kd_KeyData := take (length kd) (kd_KeyData m) @ drop (131 + length kd) (me_Msg Elem)\<rparr>"
  have ep: "elem_packet Elem = Some p" using elem_packet_carries [OF m(2) b c] by (simp add: p_def)
  have l: "me_MsgLen Elem = 131 + length kd" "take 6 (drop 10 (me_Msg Elem)) = we_Addr (entry s w)"
    using c b(1) by (simp_all add: carries_def Let_def)
  have acc: "eapol_key_accepted Elem p (entry s w)"
    by (rule message_accepted [OF s a m(3) l(1)]) (simp add: p_def m(1))
  have w: "MacTableLookup s (we_Addr (entry s w)) = Some w" using s by (simp add: associated_def)
  have ki: "kd_KeyInfo p = eapol_key_info True t (eapol_desc_ver (we_WepStatus a) (wa_GroupCipher s)) idx (key_info_of 0 0)"
    using a(2) by (simp add: p_def m(1) eapol_message_def)
  show "t = EAPOL_PAIR_MSG_1 \<Longrightarrow> WpaEAPOLKeyAction env TxTsc Elem s = PeerPairMsg1Action env TxTsc w Elem s"
    and "t = EAPOL_PAIR_MSG_3 \<Longrightarrow> WpaEAPOLKeyAction env TxTsc Elem s = PeerPairMsg3Action env TxTsc w Elem s"
    using ep acc w l(2) by (simp_all add: WpaEAPOLKeyAction_def ki eapol_key_info_def key_info_of_def Let_def)
qed

section \<open>The four-way handshake\<close>

text \<open>The counters a supplicant accepts.\<close>

definition counter_fresh :: "bytes \<Rightarrow> bytes \<Rightarrow> bool" where
  "counter_fresh c old \<longleftrightarrow> be_nat old < be_nat c \<or> c = NdisZeroMemory 8"

lemma replay_supplicant:
  assumes "t = EAPOL_PAIR_MSG_1 \<or> t = EAPOL_PAIR_MSG_3 \<or> t = EAPOL_GROUP_MSG_1" "length c = 8" "length old = 8"
  shows "\<not> replay_differs t c old \<longleftrightarrow> counter_fresh c old"
proof -
  have "be_nat c = be_nat (NdisZeroMemory 8) \<longleftrightarrow> c = NdisZeroMemory 8" using be_nat_inject [of c "NdisZeroMemory 8"] assms(2) by auto
  then show ?thesis using assms by (auto simp: replay_differs_def counter_fresh_def compare_be_nat LEN_KEY_DESC_REPLAY_def)
qed

text \<open>The answer carries the nonce of the station, and the station still waits for message 3.\<close>

lemma msg1_answer_nonce:
  assumes s: "wpa_wf s" and a: "length (we_R_Counter a) = 8"
  shows "kd_KeyNonce (eapol_of (sent_frame (msg1_answer env a anonce s w))) = nonce_reference (wm_uptime env) (wa_CurrentAddress s) 32"
proof -
  let ?e = "msg1_entry env a anonce s w" and ?k = "length (rsn_element (take (wa_RSNIE_Len s) (wa_RSN_IE s)))"
  let ?m = "msg2_packet ?e s" and ?ver = "eapol_desc_ver (we_WepStatus (msg1_entry env a anonce s w)) (wa_GroupCipher s)"
  let ?q = "?m\<lparr>kd_KeyMic := mic_reference ?ver (we_PTK ?e) (take (99 + ?k) (eapol_bytes ?m))\<rparr>"
  have me: "length (we_R_Counter ?e) = 8" "length (we_SNonce ?e) = 32" using a by (simp_all add: msg1_entry_def Let_def)
  have k: "?k \<le> 257" using s by (simp add: length_rsn_element wpa_wf_def)
  have n: "CONV_ARRARY_TO_UINT16 (ep_Body_Len ?m) + 4 = 99 + ?k" using k by (simp add: msg2_packet_def eapol_message_def)
  have wf: "eapol_wf ?q" using me by (intro eapol_wf_mic) (simp_all add: msg2_packet_def eapol_message_wf)
  have "eapol_of (take (99 + ?k) (eapol_bytes ?q)) = ?q\<lparr>kd_KeyData := take ?k (kd_KeyData ?q)\<rparr>"
    using eapol_of_bytes [of "?q\<lparr>kd_KeyData := take ?k (kd_KeyData ?q)\<rparr>"] wf eapol_bytes_data [OF wf] eapol_bytes_split(1) [OF wf, of ?k] by simp
  moreover have "sent_frame (msg1_answer env a anonce s w) = take (99 + ?k) (eapol_bytes ?q)"
    by (simp add: sent_frame_def msg1_answer_def Let_def eapol_signed_def n)
  ultimately show ?thesis by (simp add: msg2_packet_def eapol_message_def msg1_entry_def Let_def)
qed

lemma associated_answer:
  assumes "associated w s"
  shows "associated w (msg1_answer env a anonce s w)" "wa_GroupCipher (msg1_answer env a anonce s w) = wa_GroupCipher s"
    "entry (msg1_answer env a anonce s w) w = msg1_entry env a anonce s w" "wa_SharedKey (msg1_answer env a anonce s w) = wa_SharedKey s"
proof -
  let ?e = "msg1_entry env a anonce s w"
  have w: "w < length (wa_Content s)" using assms by (simp add: associated_def)
  have f: "we_EntryType ?e = we_EntryType (entry s w)" "we_Addr ?e = we_Addr (entry s w)" "we_Sst ?e = we_Sst (entry s w)"
    "we_AuthMode ?e = we_AuthMode (entry s w)" "we_WepStatus ?e = we_WepStatus (entry s w)" "we_WpaState ?e = AS_PTKINIT_NEGOTIATING"
    by (simp_all add: msg1_entry_def Let_def)
  show e: "entry (msg1_answer env a anonce s w) w = ?e" "wa_GroupCipher (msg1_answer env a anonce s w) = wa_GroupCipher s"
    "wa_SharedKey (msg1_answer env a anonce s w) = wa_SharedKey s"
    using w by (simp_all add: msg1_answer_def Let_def entry_upd)
  have "MacTableLookup (msg1_answer env a anonce s w) A = MacTableLookup s A" for A
    using f lookup_upd [of "\<lambda>_. ?e" s w A] by (simp add: msg1_answer_def Let_def)
  then show "associated w (msg1_answer env a anonce s w)"
    using assms w f unfolding associated_def e by (simp add: is_peer_def) (simp add: msg1_answer_def Let_def)
qed

lemma answer_message1:
  assumes env: "wpa_mem_ok env" and s: "wpa_wf s" "associated w s" "anonce \<noteq> nonce_reference (wm_uptime env) (wa_CurrentAddress s) 32"
      "be_nat (we_R_Counter (entry s w)) < be_nat (we_R_Counter a)"
    and a: "is_WPA2 (we_AuthMode a)" "we_WepStatus a = we_WepStatus (entry s w)" "length (we_R_Counter a) = 8" "length anonce = 32"
    and c: "carries Elem (we_Addr (entry s w)) (eapol_message a (wa_GroupCipher s) EAPOL_PAIR_MSG_1 idx anonce (NdisZeroMemory 16) (NdisZeroMemory 8) [])"
  shows "WpaEAPOLKeyAction env TxTsc Elem s = Some (msg1_answer env a anonce s w)"
proof -
  let ?m = "eapol_message a (wa_GroupCipher s) EAPOL_PAIR_MSG_1 idx anonce (NdisZeroMemory 16) (NdisZeroMemory 8) []"
  have w: "w < length (wa_Content s)" "is_peer (entry s w)" using s(2) by (simp_all add: associated_def)
  have m: "?m = ?m\<lparr>kd_KeyMic := NdisZeroMemory 16\<rparr>" by (simp add: eapol_message_def)
  have "\<not> replay_differs EAPOL_PAIR_MSG_1 (we_R_Counter a) (we_R_Counter (entry s w))"
    using replay_supplicant [OF _ a(3), of EAPOL_PAIR_MSG_1] entry_wf [OF s(1) w(1)] s(4) by (simp add: wpa_entry_wf_def counter_fresh_def)
  then show ?thesis
    using dispatch_pairwise(1) [OF s(2) a(2,1) m _ _ c] Msg1_action [OF env s(1) w a(3,4) s(3) _ c] a by (simp add: eapol_message_wf)
qed

lemma carries_exists:
  assumes "length A = 6" "CONV_ARRARY_TO_UINT16 (ep_Body_Len m) + 4 \<le> length (eapol_bytes m)"
  shows "\<exists>Elem. carries Elem A m"
proof -
  let ?n = "CONV_ARRARY_TO_UINT16 (ep_Body_Len m) + 4"
  let ?E = "\<lparr>me_Msg = replicate 10 0 @ A @ replicate 16 0 @ eapol_bytes m, me_Machine = 0, me_MsgType = 0, me_MsgLen = 32 + ?n,
    me_TimeStampHigh = 0, me_TimeStampLow = 0, me_Rssi0 = 0, me_Rssi1 = 0, me_Rssi2 = 0, me_AntSel = 0, me_Signal = 0,
    me_Channel = 0, me_Wcid = 0, me_Occupied = True, me_OpMode = 0, me_Priv = 0\<rparr>"
  have "carries ?E A m" using assms by (simp add: carries_def Let_def)
  then show ?thesis by blast
qed

text \<open>Message 3 of an authenticator with the PTK and the nonce of the entry is constructed and accepted.\<close>

lemma complete_message3:
  assumes env: "wpa_mem_ok env0" "wpa_mem_ok env" and s: "associated w s" "length (wa_SharedKey s) = 4" "length (we_Addr (entry s w)) = 6"
    and a: "is_WPA2 (we_AuthMode a)" "we_WepStatus a = we_WepStatus (entry s w)" "length (we_R_Counter a) = 8"
      "length (we_R_Counter (entry s w)) = 8" "counter_fresh (we_R_Counter a) (we_R_Counter (entry s w))"
      "we_PTK a = we_PTK (entry s w)" "length (we_PTK a) = 64" "anonce = we_ANonce (entry s w)" "length anonce = 32" "length rsc = 6"
    and R: "RSNIE = [] \<or> take 3 (drop 2 RSNIE) = OUI_WPA2" "length RSNIE + length gtk \<le> 230"
    and gtk: "length gtk = (if wa_GroupCipher s = Ndis802_11Encryption3Enabled then 16 else 32)"
  shows "\<exists>m3. ConstructEapolMsg env0 a (wa_GroupCipher s) EAPOL_PAIR_MSG_3 idx (Some anonce) (Some rsc) (Some gtk) RSNIE eapol_zero = Some m3
    \<and> (\<exists>Elem. carries Elem (we_Addr (entry s w)) m3)
    \<and> (\<forall>Elem. carries Elem (we_Addr (entry s w)) m3 \<longrightarrow>
        (\<exists>s3. WpaEAPOLKeyAction env TxTsc Elem s = Some s3 \<and> keys_installed (we_PTK a) gtk idx (we_R_Counter a) w s s3))"
proof -
  let ?g = "wa_GroupCipher s" and ?K = "rsn_element RSNIE @ gtk_kde idx gtk" and ?ver = "eapol_desc_ver (we_WepStatus a) (wa_GroupCipher s)"
  have w: "w < length (wa_Content s)" "is_peer (entry s w)" "is_WPA2 (we_AuthMode (entry s w))"
    "?g = Ndis802_11Encryption2Enabled \<or> ?g = Ndis802_11Encryption3Enabled"
    using s(1) by (auto simp: associated_def)
  obtain alg where alg: "pairwise_cipher (we_WepStatus (entry s w)) = Some alg" using s(1) by (auto simp: associated_def pairwise_cipher_def)
  obtain eGTK where eGTK: "wm_keydata_pool env0 = Some eGTK" "length eGTK = 512" using env(1) by (auto simp: wpa_mem_ok_def split: option.splits)
  obtain field n where enc: "key_data_encrypt env0 ?ver (we_PTK a) (NdisZeroMemory 16) eGTK (?K @ NdisZeroMemory (512 - length ?K)) (length ?K) = (field, n)"
    by fastforce
  have K: "length ?K \<le> 240" using R(2) by (simp add: length_rsn_element)
  have n: "n \<le> 255" "length field = 512" using key_data_encrypt_length [OF env(1) a(7) K eGTK(2) enc] by simp_all
  define m where "m = eapol_message a ?g EAPOL_PAIR_MSG_3 idx anonce (NdisZeroMemory 16) (take 6 rsc @ [0, 0]) (take n field)"
  let ?mic = "eapol_mic env0 ?ver (we_PTK a) (take (99 + n) (eapol_bytes m))"
  have mic: "?mic = mic_reference ?ver (we_PTK a) (take (99 + n) (eapol_bytes m))"
    using n by (intro eapol_mic_reference) (auto simp: eapol_desc_ver_def)
  have wf: "eapol_wf m" "eapol_wf (m\<lparr>kd_KeyMic := ?mic\<rparr>)"
    using a(3,9,10) mic eapol_wf_mic [of m ?mic] by (simp_all add: m_def eapol_message_wf)
  have b: "CONV_ARRARY_TO_UINT16 (ep_Body_Len (m\<lparr>kd_KeyMic := ?mic\<rparr>)) = 95 + n" "n \<le> length (kd_KeyData (m\<lparr>kd_KeyMic := ?mic\<rparr>))"
    using n by (simp_all add: m_def eapol_message_def)
  have rep: "\<not> replay_differs EAPOL_PAIR_MSG_3 (we_R_Counter a) (we_R_Counter (entry s w))"
    using replay_supplicant [OF _ a(3,4), of EAPOL_PAIR_MSG_3] a(5) by simp
  have gl: "length gtk = 16 \<or> length gtk = 32" using gtk by simp
  have "\<exists>s3. WpaEAPOLKeyAction env TxTsc Elem s = Some s3 \<and> keys_installed (we_PTK a) gtk idx (we_R_Counter a) w s s3"
    if c: "carries Elem (we_Addr (entry s w)) (m\<lparr>kd_KeyMic := ?mic\<rparr>)" for Elem
  proof -
    define p where "p = m\<lparr>kd_KeyMic := ?mic, kd_KeyData := take n (kd_KeyData m) @ drop (131 + n) (me_Msg Elem)\<rparr>"
    have ep: "elem_packet Elem = Some p" "131 \<le> me_MsgLen Elem"
      using elem_packet_carries [OF wf(2) b c] c b(1) by (simp_all add: p_def carries_def Let_def)
    obtain p' where san: "PeerWpaMessageSanity env TxTsc p EAPOL_PAIR_MSG_3 w s = Some (True, p', group_key_installed TxTsc gtk idx s)"
        "kd_ReplayCounter p' = we_R_Counter a" "kd_KeyNonce p' = anonce"
      using Sanity_3 [OF env a(1,3,7,9) _ R(1) gl refl K refl eGTK(1) enc m_def p_def w(3) a(6) [symmetric] rep, of TxTsc] a(10) by auto
    have "WpaEAPOLKeyAction env TxTsc Elem s = PeerPairMsg3Action env TxTsc w Elem s"
      using dispatch_pairwise(2) [OF s(1) a(2,1) _ wf(2) _ c] n unfolding m_def by simp
    then show ?thesis
      using Msg3_action [OF env(2) w(1-3) alg s(2) refl w(4) gtk ep(2,1) san(1,2) a(3)] san(3) a(6,8) by simp
  qed
  moreover have "ConstructEapolMsg env0 a ?g EAPOL_PAIR_MSG_3 idx (Some anonce) (Some rsc) (Some gtk) RSNIE eapol_zero = Some (m\<lparr>kd_KeyMic := ?mic\<rparr>)"
    using ConstructEapolMsg_3 [OF env(1) a(1,3,7,9) _ gtk refl K refl eGTK(1) enc m_def] a(10) by simp
  moreover have "\<exists>Elem. carries Elem (we_Addr (entry s w)) (m\<lparr>kd_KeyMic := ?mic\<rparr>)"
    using carries_exists [OF s(3)] b length_eapol_bytes [OF wf(2)] by simp
  ultimately show ?thesis by blast
qed

section \<open>Keys change only for authentic messages\<close>

definition mic_valid :: "wpa_mem \<Rightarrow> EAPOL_PACKET \<Rightarrow> WPA_ENTRY \<Rightarrow> bool" where
  "mic_valid env p e \<longleftrightarrow> kd_KeyMic p = eapol_mic env (ki_KeyDescVer (kd_KeyInfo p)) (we_PTK e)
     (take (CONV_ARRARY_TO_UINT16 (ep_Body_Len p) + 4) (eapol_bytes (p\<lparr>kd_KeyMic := NdisZeroMemory 16\<rparr>)))"

text \<open>The keys in use and the ports: of the station and of every entry.\<close>

definition same_keys :: "WPA_ADAPTER \<Rightarrow> WPA_ADAPTER \<Rightarrow> bool" where
  "same_keys s s' \<longleftrightarrow> wa_PTK s' = wa_PTK s \<and> wa_GTK s' = wa_GTK s \<and> wa_DefaultKeyId s' = wa_DefaultKeyId s
     \<and> wa_SharedKey s' = wa_SharedKey s \<and> wa_PortSecured s' = wa_PortSecured s
     \<and> map we_PairwiseKey (wa_Content s') = map we_PairwiseKey (wa_Content s)
     \<and> map we_PortSecured (wa_Content s') = map we_PortSecured (wa_Content s)"

lemma same_keys_refl [simp]: "same_keys s s"
  by (simp add: same_keys_def)

lemma same_keys_emit [simp]: "same_keys s (wpa_emit evs s') = same_keys s s'"
  by (simp add: same_keys_def)

lemma same_keys_upd:
  assumes "\<And>e. we_PairwiseKey (f e) = we_PairwiseKey e" "\<And>e. we_PortSecured (f e) = we_PortSecured e"
  shows "same_keys s (upd_Entry w f s') = same_keys s s'"
proof -
  have "map we_PairwiseKey ((wa_Content s')[w := f (wa_Content s' ! w)]) = map we_PairwiseKey (wa_Content s')"
    "map we_PortSecured ((wa_Content s')[w := f (wa_Content s' ! w)]) = map we_PortSecured (wa_Content s')"
    using assms by (cases "w < length (wa_Content s')"; simp add: map_update list_update_beyond; metis list_update_id nth_map)+
  then show ?thesis by (simp add: same_keys_def upd_Entry_def)
qed

lemma same_keys_send: "send_eapol env w m c s' = Some s'' \<Longrightarrow> same_keys s s'' = same_keys s s'"
  by (auto simp: send_eapol_def RTMPToWirelessSta_def Let_def split: if_splits)

text \<open>A message other than message 1 that fails a check leaves the state, up to the event it reports.\<close>

lemma Sanity_rejects:
  assumes "PeerWpaMessageSanity env TxTsc p t w s = Some (ok, p', s')" "t \<noteq> EAPOL_PAIR_MSG_1"
    and "\<not> (mic_valid env p (entry s w) \<and> \<not> replay_differs t (kd_ReplayCounter p) (we_R_Counter (entry s w)))"
  shows "\<not> ok \<and> same_keys s s'"
  using assms by (auto simp: PeerWpaMessageSanity_def Let_def mic_valid_def split: if_splits)

lemma Sanity_1:
  assumes "PeerWpaMessageSanity env TxTsc p EAPOL_PAIR_MSG_1 w s = Some (ok, p', s')"
  shows "same_keys s s' \<and> p' = p \<and> (ok \<longrightarrow> s' = s \<and> \<not> replay_differs EAPOL_PAIR_MSG_1 (kd_ReplayCounter p) (we_R_Counter (entry s w)))"
  using assms by (auto simp: PeerWpaMessageSanity_def eapol_key_data_def Let_def split: if_splits)

lemma Sanity_group2:
  "PeerWpaMessageSanity env TxTsc p EAPOL_GROUP_MSG_2 w s = Some (ok, p', s') \<Longrightarrow> same_keys s s'"
  by (auto simp: PeerWpaMessageSanity_def eapol_key_data_def Let_def split: if_splits)

lemma Msg1_same_keys:
  assumes "PeerPairMsg1Action env TxTsc w Elem s = Some s'"
  shows "same_keys s s'"
  using assms unfolding PeerPairMsg1Action_def
  by (auto simp: Let_def same_keys_upd dest!: Sanity_1 [unfolded One_nat_def] same_keys_send [where s = s] split: if_splits bind_splits)

text \<open>Each of the other actions changes keys only if the packet passes the checks of its message type.\<close>

definition authentic :: "wpa_mem \<Rightarrow> nat \<Rightarrow> EAPOL_PACKET \<Rightarrow> WPA_ENTRY \<Rightarrow> bool" where
  "authentic env t p e \<longleftrightarrow> mic_valid env p e \<and> \<not> replay_differs t (kd_ReplayCounter p) (we_R_Counter e)"

lemma action_authentic:
  assumes "elem_packet Elem = Some p" "\<not> authentic env t p (entry s w)" "same_keys s s' \<Longrightarrow> thesis"
  shows "t = EAPOL_PAIR_MSG_3 \<Longrightarrow> PeerPairMsg3Action env TxTsc w Elem s = Some s' \<Longrightarrow> thesis"
    and "t = EAPOL_GROUP_MSG_1 \<Longrightarrow> PeerGroupMsg1Action env TxTsc w Elem s = Some s' \<Longrightarrow> thesis"
    and "t = EAPOL_PAIR_MSG_4 \<Longrightarrow> PeerPairMsg4Action env TxTsc w Elem s = Some s' \<Longrightarrow> thesis"
    and "t = EAPOL_GROUP_MSG_2 \<Longrightarrow> PeerGroupMsg2Action env TxTsc w Elem n s = Some s' \<Longrightarrow> thesis"
  using assms unfolding PeerPairMsg3Action_def PeerGroupMsg1Action_def PeerPairMsg4Action_def PeerGroupMsg2Action_def Let_def authentic_def
  by (auto dest!: Sanity_rejects split: if_splits bind_splits)

lemma Msg2_same_keys: "PeerPairMsg2Action w Elem s = Some s' \<Longrightarrow> same_keys s s'"
  by (auto simp: PeerPairMsg2Action_def same_keys_upd split: if_splits bind_splits)

section \<open>Replay counters\<close>

definition counters :: "WPA_ADAPTER \<Rightarrow> bytes list" where
  "counters s = map we_R_Counter (wa_Content s)"

lemma counters_simps [simp]:
  "counters (wpa_emit evs s) = counters s" "counters (s\<lparr>wa_GTK := x\<rparr>) = counters s" "counters (s\<lparr>wa_DefaultKeyId := k\<rparr>) = counters s"
  "counters (s\<lparr>wa_PTK := x\<rparr>) = counters s" "counters (s\<lparr>wa_SharedKey := ks\<rparr>) = counters s" "counters (s\<lparr>wa_PortSecured := k\<rparr>) = counters s"
  "counters (s\<lparr>wa_AuxChannel := k\<rparr>) = counters s"
  by (simp_all add: counters_def)

lemma counters_upd_same: "(\<And>e. we_R_Counter (f e) = we_R_Counter e) \<Longrightarrow> counters (upd_Entry w f s) = counters s"
  by (cases "w < length (wa_Content s)") (simp_all add: counters_def upd_Entry_def map_update list_update_beyond, metis list_update_id nth_map)

lemma counters_upd: "counters (upd_Entry w f s) = (counters s)[w := we_R_Counter (f (entry s w))]"
  by (simp add: counters_def upd_Entry_def map_update entry_def)

lemma counters_STA_PORT_SECURED [simp]: "counters (STA_PORT_SECURED s) = counters s"
  by (simp add: STA_PORT_SECURED_def Let_def counters_upd_same)

lemma counters_WPAInstallSharedKey [simp]: "counters (WPAInstallSharedKey t g i wc ae gtk n s) = counters s"
  using WPAInstallSharedKey_writes [of t g i wc ae gtk n s] by auto

lemma counters_RTMPSetWcidSecurityInfo [simp]: "counters (RTMPSetWcidSecurityInfo t b k alg wc tab s) = counters s"
  using RTMPSetWcidSecurityInfo_emits [of t b k alg wc tab s] by auto

lemma counters_WPAInstallPairwiseKey [simp]: "counters (WPAInstallPairwiseKey b w ae s) = counters s"
  by (simp add: WPAInstallPairwiseKey_def Let_def counters_upd_same split: option.split)

lemma counters_send: "send_eapol env w m c s = Some s' \<Longrightarrow> counters s' = counters s"
  by (auto simp: send_eapol_def RTMPToWirelessSta_def Let_def split: if_splits)

lemma counters_parse: "RTMPParseEapolKeyData t K n gi mt b s = Some (ok, s') \<Longrightarrow> counters s' = counters s"
  by (auto simp: RTMPParseEapolKeyData_def Let_def split: option.splits sum.splits if_splits)

lemma decrypt_counter: "eapol_decrypt env PTK p = Some (K, p') \<Longrightarrow> kd_ReplayCounter p' = kd_ReplayCounter p \<and> kd_KeyNonce p' = kd_KeyNonce p"
  by (auto simp: eapol_decrypt_def Let_def split: if_splits prod.splits)

lemma counters_key_data:
  assumes "eapol_key_data env TxTsc t b e p s = Some (ok, p', s')"
  shows "counters s' = counters s \<and> kd_ReplayCounter p' = kd_ReplayCounter p \<and> kd_KeyNonce p' = kd_KeyNonce p"
  using assms by (auto simp: eapol_key_data_def Let_def split: if_splits bind_splits dest!: counters_parse dest: decrypt_counter)

lemma counters_Sanity:
  assumes "PeerWpaMessageSanity env TxTsc p t w s = Some (ok, p', s')"
  shows "counters s' = counters s \<and> (ok \<longrightarrow> kd_ReplayCounter p' = kd_ReplayCounter p \<and> \<not> replay_differs t (kd_ReplayCounter p) (we_R_Counter (entry s w)))"
  using assms by (auto simp: PeerWpaMessageSanity_def Let_def split: if_splits dest!: counters_key_data)

text \<open>What one frame does to the counters: nothing, the counter of an accepted message of the authenticator for the entry \<open>w\<close>, or an
  increment by a message 4 that starts the group handshake.\<close>

definition counter_step :: "nat \<Rightarrow> WPA_ADAPTER \<Rightarrow> bytes list \<Rightarrow> bool" where
  "counter_step w s cs \<longleftrightarrow> cs = counters s
     \<or> (\<exists>c. cs = (counters s)[w := c] \<and> length c = 8 \<and> counter_fresh c (we_R_Counter (entry s w)))
     \<or> cs = (counters s)[w := ADD_ONE_To_64BIT_VAR (we_R_Counter (entry s w))]"

lemma elem_packet_counter: "elem_packet Elem = Some p \<Longrightarrow> length (kd_ReplayCounter p) = 8"
  by (auto simp: elem_packet_def eapol_of_def split: if_splits)

lemma counter_step_simps:
  "counter_step w s (counters s)"
  "length c = 8 \<Longrightarrow> counter_fresh c (we_R_Counter (entry s w)) \<Longrightarrow> counter_step w s ((counters s)[w := c])"
  "counter_step w s ((counters s)[w := ADD_ONE_To_64BIT_VAR (we_R_Counter (entry s w))])"
  by (auto simp: counter_step_def)

lemma supplicant_counters:
  assumes "length (we_R_Counter (entry s w)) = 8"
  shows "PeerPairMsg1Action env TxTsc w Elem s = Some s' \<Longrightarrow> counter_step w s (counters s')"
    and "PeerPairMsg3Action env TxTsc w Elem s = Some s' \<Longrightarrow> counter_step w s (counters s')"
    and "PeerGroupMsg1Action env TxTsc w Elem s = Some s' \<Longrightarrow> counter_step w s (counters s')"
proof -
  have u: "counters (upd_Entry w (\<lambda>e. e\<lparr>we_R_Counter := c, we_ANonce := n\<rparr>) b) = (counters b)[w := c]"
    "counters (upd_Entry w (\<lambda>e. e\<lparr>we_R_Counter := c\<rparr>) b) = (counters b)[w := c]" for c n b
    by (simp_all add: counters_upd)
  note rules = Let_def counters_upd_same u assms replay_supplicant
  show "PeerPairMsg1Action env TxTsc w Elem s = Some s' \<Longrightarrow> counter_step w s (counters s')"
    unfolding PeerPairMsg1Action_def
    by (auto simp: rules elem_packet_counter counter_step_simps split: if_splits bind_splits dest!: counters_Sanity counters_send)
  show "PeerPairMsg3Action env TxTsc w Elem s = Some s' \<Longrightarrow> counter_step w s (counters s')"
    unfolding PeerPairMsg3Action_def
    by (auto simp: rules elem_packet_counter counter_step_simps split: if_splits bind_splits dest!: counters_Sanity counters_send)
  show "PeerGroupMsg1Action env TxTsc w Elem s = Some s' \<Longrightarrow> counter_step w s (counters s')"
    unfolding PeerGroupMsg1Action_def
    by (auto simp: rules elem_packet_counter counter_step_simps split: if_splits bind_splits dest!: counters_Sanity counters_send)
qed

lemma WPAStart2WayGroupHS_counters:
  "WPAStart2WayGroupHS env TxTsc w s = Some s' \<Longrightarrow>
   counters s' = counters s \<or> counters s' = (counters s)[w := ADD_ONE_To_64BIT_VAR (we_R_Counter (entry s w))]"
  by (auto simp: WPAStart2WayGroupHS_def Let_def counters_upd split: if_splits bind_splits)

lemma counters_entry: "counters s = counters s' \<Longrightarrow> w < length (wa_Content s) \<Longrightarrow> we_R_Counter (entry s w) = we_R_Counter (entry s' w)"
  unfolding counters_def entry_def by (metis length_map nth_map)

lemma length_counters: "length (counters s) = length (wa_Content s)"
  by (simp add: counters_def)

lemma authenticator_counters:
  assumes w: "w < length (wa_Content s)"
  shows "PeerPairMsg2Action w Elem s = Some s' \<Longrightarrow> counters s' = counters s"
    and "PeerPairMsg4Action env TxTsc w Elem s = Some s' \<Longrightarrow> counter_step w s (counters s')"
    and "PeerGroupMsg2Action env TxTsc w Elem n s = Some s' \<Longrightarrow> counters s' = counters s"
proof -
  show "PeerPairMsg2Action w Elem s = Some s' \<Longrightarrow> counters s' = counters s"
    by (auto simp: PeerPairMsg2Action_def counters_upd_same split: if_splits bind_splits)
  show "PeerGroupMsg2Action env TxTsc w Elem n s = Some s' \<Longrightarrow> counters s' = counters s"
    by (auto simp: PeerGroupMsg2Action_def counters_upd_same split: if_splits bind_splits dest!: counters_Sanity)
  have g: "counter_step w s (counters s2)" if "WPAStart2WayGroupHS env TxTsc w s1 = Some s2" "counters s1 = counters s" for s1 s2
    using WPAStart2WayGroupHS_counters [OF that(1)] counters_entry [OF that(2) [symmetric] w] that(2) counter_step_simps by metis
  have u: "counters (upd_Entry w f (WPAInstallPairwiseKey b w True s1)) = counters s1" if "\<And>e. we_R_Counter (f e) = we_R_Counter e" for f b s1
    using that by (simp add: counters_upd_same)
  show "PeerPairMsg4Action env TxTsc w Elem s = Some s' \<Longrightarrow> counter_step w s (counters s')"
    unfolding PeerPairMsg4Action_def Let_def
    by (auto simp: counters_upd_same counter_step_simps split: if_splits bind_splits dest!: counters_Sanity g)
qed

text \<open>The chains of the hash table hold indexes of entries, so that a lookup finds one.\<close>

definition hash_wf :: "WPA_ADAPTER \<Rightarrow> bool" where
  "hash_wf s \<longleftrightarrow> length (wa_Hash s) = 256 \<and> list_all (list_all (\<lambda>i. i < length (wa_Content s))) (wa_Hash s)"

lemma lookup_chain_member: "lookup_chain Content chain A = Some w \<Longrightarrow> w \<in> set chain"
  by (induction chain) (auto split: if_splits)

lemma MacTableLookup_bound:
  assumes "hash_wf s" "MacTableLookup s A = Some w"
  shows "w < length (wa_Content s)"
proof -
  have "MAC_ADDR_HASH_INDEX A < 256" by (simp add: MAC_ADDR_HASH_INDEX_def)
  then have "wa_Hash s ! MAC_ADDR_HASH_INDEX A \<in> set (wa_Hash s)" using assms(1) by (simp add: hash_wf_def)
  then show ?thesis
    using assms lookup_chain_member unfolding hash_wf_def MacTableLookup_def list_all_iff by blast
qed

lemma dispatch_counters:
  assumes "WpaEAPOLKeyAction env TxTsc Elem s = Some s'" "wpa_wf s" "hash_wf s"
  shows "counters s' = counters s \<or>
    (\<exists>w. MacTableLookup s (take 6 (drop 10 (me_Msg Elem))) = Some w \<and> w < length (wa_Content s) \<and> counter_step w s (counters s'))"
proof (cases "MacTableLookup s (take 6 (drop 10 (me_Msg Elem)))")
  case None
  then show ?thesis using assms(1) by (auto simp: WpaEAPOLKeyAction_def split: bind_splits)
next
  case (Some w)
  have w: "w < length (wa_Content s)" by (rule MacTableLookup_bound [OF assms(3) Some])
  have l: "length (we_R_Counter (entry s w)) = 8" using entry_wf [OF assms(2) w] by (simp add: wpa_entry_wf_def)
  have "counters s' = counters s \<or> counter_step w s (counters s')"
    using assms(1) Some supplicant_counters [OF l, of env TxTsc Elem s'] authenticator_counters(1) [OF w, of Elem s']
      authenticator_counters(2) [OF w, of env TxTsc Elem s'] authenticator_counters(3) [OF w, of env TxTsc Elem _ s']
    by (auto simp: WpaEAPOLKeyAction_def Let_def split: if_splits bind_splits)
  then show ?thesis using Some w by blast
qed

section \<open>The sizes of the arrays\<close>

lemma wf_simps:
  "wpa_wf (wpa_emit evs s) = wpa_wf s" "wpa_wf (s\<lparr>wa_PortSecured := k\<rparr>) = wpa_wf s" "wpa_wf (s\<lparr>wa_AuxChannel := k\<rparr>) = wpa_wf s"
  by (simp_all add: wpa_wf_def wpa_emit_def)

lemma wf_upd:
  assumes "wpa_wf s" "wpa_entry_wf (entry s w) \<Longrightarrow> wpa_entry_wf (f (entry s w))"
  shows "wpa_wf (upd_Entry w f s)"
proof (cases "w < length (wa_Content s)")
  case True
  then show ?thesis
    using assms entry_wf [OF assms(1) True] by (auto simp: wpa_wf_def upd_Entry_def list_all_length nth_list_update entry_def)
next
  case False
  then show ?thesis using assms(1) by (simp add: wpa_wf_def upd_Entry_def list_update_beyond)
qed

lemma wf_SharedKey: "wpa_wf s \<Longrightarrow> cipher_key_wf k \<Longrightarrow> wpa_wf (s\<lparr>wa_SharedKey := (wa_SharedKey s)[i := k]\<rparr>)"
  by (cases "i < length (wa_SharedKey s)") (auto simp: wpa_wf_def list_all_length nth_list_update list_update_beyond)

lemma wf_cipher_key_zero [simp]: "cipher_key_wf cipher_key_zero" "cipher_key_wf (cipher_key_zero\<lparr>ck_CipherAlg := alg\<rparr>)"
  by (simp_all add: cipher_key_wf_def cipher_key_zero_def)

lemma wf_pairwise_key: "length PTK = 64 \<Longrightarrow> cipher_key_wf (pairwise_key ae PTK alg)"
  by (simp add: pairwise_key_def cipher_key_wf_def cipher_key_zero_def Let_def)

lemma wf_shared_key: "shared_key ae alg gtk n = Some k \<Longrightarrow> length gtk = 32 \<Longrightarrow> cipher_key_wf k"
  by (auto simp: shared_key_def cipher_key_wf_def cipher_key_zero_def NdisMoveMemory_def Let_def split: if_splits)

lemma wf_SetWcid: "wpa_wf s \<Longrightarrow> wpa_wf (RTMPSetWcidSecurityInfo t b k alg wc tab s)"
  using RTMPSetWcidSecurityInfo_emits [of t b k alg wc tab s] by (auto simp: wf_simps)

lemma wf_WPAInstallSharedKey: "wpa_wf s \<Longrightarrow> length gtk = 32 \<Longrightarrow> wpa_wf (WPAInstallSharedKey t g i wc ae gtk n s)"
  unfolding WPAInstallSharedKey_def Let_def
  by (auto simp: wf_simps split: option.split intro!: wf_SetWcid wf_SharedKey dest: wf_shared_key)

lemma wf_WPAInstallPairwiseKey: "wpa_wf s \<Longrightarrow> wpa_wf (WPAInstallPairwiseKey b w ae s)"
  unfolding WPAInstallPairwiseKey_def Let_def
  by (auto simp: wf_simps wpa_entry_wf_def wf_pairwise_key split: option.split intro!: wf_SetWcid wf_upd)

lemma wf_STA_PORT_SECURED: "wpa_wf s \<Longrightarrow> wpa_wf (STA_PORT_SECURED s)"
  by (auto simp: STA_PORT_SECURED_def wf_simps wpa_entry_wf_def Let_def intro!: wf_upd)

text \<open>The parser writes at most 32 octets of group key.\<close>

lemma parse_kde_loop_size:
  assumes "parse_kde_loop B n i acc = Some (Inr (j, G', l', d'))" "\<And>G l d. acc = (G, l, d) \<Longrightarrow> length G = 32 \<and> l \<le> 32 \<and> d \<le> 3"
  shows "length G' = 32 \<and> l' \<le> 32 \<and> d' \<le> 3"
  using assms
proof (induction B n i acc rule: parse_kde_loop.induct)
  case (1 B n i acc)
  have g: "length G'' = 32 \<and> l'' \<le> 32 \<and> d'' \<le> 3" if "parse_gtk_kde B i L acc = Some (Inr (G'', l'', d''))" for L G'' l'' d''
    using that "1.prems"(2) take_bit_2_le
    by (cases acc) (auto simp: parse_gtk_kde_def Let_def NdisMoveMemory_def octets_def split: bind_splits if_splits)
  obtain hdr where h: "octets B i 2 = Some hdr" using "1.prems"(1) by (subst (asm) parse_kde_loop.simps) (auto split: option.splits)
  show ?case
  proof (cases "n < i + 2 + unat (hdr ! 1)")
    case True
    then show ?thesis using "1.prems" h by (simp add: parse_kde_loop.simps [of B n i acc])
  next
    case False
    let ?r = "if hdr ! 0 = WPA_KDE_TYPE then parse_gtk_kde B i (hdr ! 1) acc else Some (Inr acc)"
    obtain acc' where r: "?r = Some (Inr acc')" "parse_kde_loop B n (i + 2 + unat (hdr ! 1)) acc' = Some (Inr (j, G', l', d'))"
      using "1.prems"(1) h False by (subst (asm) parse_kde_loop.simps) (auto split: option.splits sum.splits if_splits)
    have "length G = 32 \<and> l \<le> 32 \<and> d \<le> 3" if "acc' = (G, l, d)" for G l d
      using r(1) that g "1.prems"(2) by (auto split: if_splits)
    then show ?thesis using "1.IH" [OF h False r(1) refl r(2)] by blast
  qed
qed

lemma parse_group_key_size:
  assumes "parse_group_key B n gi t b = Some (Inr (Some (G, l, d)))"
  shows "length G = 32 \<and> l \<le> 32"
  using assms parse_kde_loop_size [of B n 0 "(NdisZeroMemory 32, 0, 0)" _ G l d]
  by (auto simp: parse_group_key_def Let_def octets_def NdisMoveMemory_def split: if_splits option.splits sum.splits)

lemma wf_parse:
  assumes "RTMPParseEapolKeyData t K n gi mt b s = Some (ok, s')" "wpa_wf s"
  shows "wpa_wf s'"
proof (cases "\<exists>G l d. parse_group_key K n gi mt b = Some (Inr (Some (G, l, d))) \<and> d \<le> 3")
  case True
  then obtain G l d where g: "parse_group_key K n gi mt b = Some (Inr (Some (G, l, d)))" "d \<le> 3" by blast
  let ?s = "s\<lparr>wa_GTK := NdisMoveMemory (wa_GTK s) 0 (take l G), wa_DefaultKeyId := d\<rparr>"
  have "length (NdisMoveMemory (wa_GTK s) 0 (take l G)) = 32"
    using assms(2) parse_group_key_size [OF g(1)] by (simp add: NdisMoveMemory_def wpa_wf_def)
  moreover from this have "wpa_wf ?s" using assms(2) g(2) by (simp add: wpa_wf_def)
  ultimately show ?thesis
    using assms(1) g wf_WPAInstallSharedKey [of ?s "NdisMoveMemory (wa_GTK s) 0 (take l G)"] by (auto simp: RTMPParseEapolKeyData_def Let_def)
next
  case False
  then show ?thesis using assms by (auto simp: RTMPParseEapolKeyData_def split: option.splits sum.splits if_splits)
qed

lemma wf_Sanity:
  assumes "PeerWpaMessageSanity env TxTsc p t w s = Some (ok, p', s')" "wpa_wf s"
  shows "wpa_wf s' \<and> kd_ReplayCounter p' = kd_ReplayCounter p \<and> kd_KeyNonce p' = kd_KeyNonce p"
  using assms
  by (auto simp: PeerWpaMessageSanity_def eapol_key_data_def wf_simps Let_def split: if_splits bind_splits
      dest: wf_parse dest!: decrypt_counter)

lemma wf_send: "send_eapol env w m c s = Some s' \<Longrightarrow> wpa_wf s' = wpa_wf s"
  by (auto simp: send_eapol_def RTMPToWirelessSta_def wf_simps Let_def split: if_splits)

lemma elem_packet_nonce: "elem_packet Elem = Some p \<Longrightarrow> length (kd_KeyNonce p) = 32"
  by (auto simp: elem_packet_def eapol_of_def split: if_splits)

lemma GenRandom_size: "GenRandom mem t mac r = Some n \<Longrightarrow> length r = 32 \<Longrightarrow> length n = 32"
  by (auto simp: GenRandom_def NdisMoveMemory_def split: option.splits)

lemma length_add_one_loop: "length (add_one_loop n V) = length V"
  by (induction n V rule: add_one_loop.induct) (auto simp: Let_def)

lemma wf_entry_upd:
  assumes "wpa_wf s"
  shows "length c = 8 \<Longrightarrow> wpa_wf (upd_Entry w (\<lambda>e. e\<lparr>we_R_Counter := c\<rparr>) s)"
    "length c = 8 \<Longrightarrow> length n = 32 \<Longrightarrow> wpa_wf (upd_Entry w (\<lambda>e. e\<lparr>we_R_Counter := c, we_ANonce := n\<rparr>) s)"
    "length n = 32 \<Longrightarrow> wpa_wf (upd_Entry w (\<lambda>e. e\<lparr>we_SNonce := n\<rparr>) s)"
    "length K \<le> 64 \<Longrightarrow> wpa_wf (upd_Entry w (\<lambda>e. e\<lparr>we_PTK := NdisMoveMemory (we_PTK e) 0 K\<rparr>) s)"
    "wpa_wf (upd_Entry w (\<lambda>e. e\<lparr>we_WpaState := k\<rparr>) s)"
    "wpa_wf (upd_Entry w (\<lambda>e. e\<lparr>we_GTKState := k\<rparr>) s)"
    "wpa_wf (upd_Entry w (\<lambda>e. e\<lparr>we_ReTryCounter := k\<rparr>) s)"
    "wpa_wf (upd_Entry w (\<lambda>e. e\<lparr>we_PortSecured := k, we_PrivacyFilter := j\<rparr>) s)"
    "wpa_wf (upd_Entry w (\<lambda>e. e\<lparr>we_PrivacyFilter := i, we_WpaState := k, we_PortSecured := j\<rparr>) s)"
    "wpa_wf (upd_Entry w (\<lambda>e. e\<lparr>we_R_Counter := ADD_ONE_To_64BIT_VAR (we_R_Counter e)\<rparr>) s)"
  using assms by (auto intro!: wf_upd simp: wpa_entry_wf_def NdisMoveMemory_def ADD_ONE_To_64BIT_VAR_def length_add_one_loop)

lemma Msg1_wf:
  assumes "PeerPairMsg1Action env TxTsc w Elem s = Some s'" "wpa_wf s" "w < length (wa_Content s)"
  shows "wpa_wf s'"
proof (cases "is_peer (entry s w) \<and> \<not> me_MsgLen Elem < 131")
  case True
  obtain p where p: "elem_packet Elem = Some p" using assms(1) True by (auto simp: PeerPairMsg1Action_def split: bind_splits)
  obtain ok p' s1 where san: "PeerWpaMessageSanity env TxTsc p EAPOL_PAIR_MSG_1 w s = Some (ok, p', s1)"
    using assms(1) True p by (auto simp: PeerPairMsg1Action_def split: bind_splits)
  note f = wf_Sanity [OF san assms(2)] Sanity_1 [OF san] elem_packet_counter [OF p] elem_packet_nonce [OF p]
  have "length (we_SNonce (entry s w)) = 32" using entry_wf [OF assms(2,3)] by (simp add: wpa_entry_wf_def)
  then show ?thesis
    using assms(1,2) True p san f
    by (auto simp: PeerPairMsg1Action_def Let_def entry_upd assms(3) wf_send split: if_splits bind_splits intro!: wf_entry_upd dest!: GenRandom_size wf_send)
next
  case False
  then show ?thesis using assms(1,2) by (auto simp: PeerPairMsg1Action_def split: if_splits)
qed

lemma wf_entry_parts:
  assumes "wpa_wf s" "w < length (wa_Content s)"
  shows "length (we_PTK (entry s w)) = 64" "cipher_key_wf (we_PairwiseKey (entry s w))"
  using entry_wf [OF assms] by (simp_all add: wpa_entry_wf_def)

lemma wf_PTK: "wpa_wf s \<Longrightarrow> length x = 64 \<Longrightarrow> wpa_wf (s\<lparr>wa_PTK := x\<rparr>)"
  by (simp add: wpa_wf_def)

lemma length_Content_install [simp]: "length (wa_Content (WPAInstallPairwiseKey b w ae s)) = length (wa_Content s)"
  using counters_WPAInstallPairwiseKey [of b w ae s] length_counters by metis

lemma Sanity_length: "PeerWpaMessageSanity env TxTsc p t w s = Some (ok, p', s') \<Longrightarrow> length (wa_Content s') = length (wa_Content s)"
  using counters_Sanity length_counters by metis

lemma wf_WPAStart2WayGroupHS: "WPAStart2WayGroupHS env TxTsc w s = Some s' \<Longrightarrow> wpa_wf s \<Longrightarrow> wpa_wf s'"
  by (auto simp: WPAStart2WayGroupHS_def Let_def split: if_splits bind_splits intro!: wf_entry_upd)

lemmas wf_intros = wf_entry_upd wf_PTK wf_entry_parts wf_SharedKey wf_WPAInstallPairwiseKey wf_STA_PORT_SECURED

lemma action_wf:
  assumes wf: "wpa_wf s" "w < length (wa_Content s)"
  shows "PeerPairMsg3Action env TxTsc w Elem s = Some s' \<Longrightarrow> wpa_wf s'"
    and "PeerGroupMsg1Action env TxTsc w Elem s = Some s' \<Longrightarrow> wpa_wf s'"
    and "PeerPairMsg2Action w Elem s = Some s' \<Longrightarrow> wpa_wf s'"
    and "PeerPairMsg4Action env TxTsc w Elem s = Some s' \<Longrightarrow> wpa_wf s'"
    and "PeerGroupMsg2Action env TxTsc w Elem n s = Some s' \<Longrightarrow> wpa_wf s'"
proof -
  have san: "wpa_wf s1 \<and> length (kd_ReplayCounter p') = 8 \<and> w < length (wa_Content s1)"
    if "PeerWpaMessageSanity env TxTsc p t w s = Some (ok, p', s1)" "elem_packet Elem = Some p" for p t ok p' s1
    using wf_Sanity [OF that(1) wf(1)] elem_packet_counter [OF that(2)] Sanity_length [OF that(1)] wf(2) by simp
  show "PeerPairMsg3Action env TxTsc w Elem s = Some s' \<Longrightarrow> wpa_wf s'"
    using wf unfolding PeerPairMsg3Action_def Let_def
    by (auto split: if_splits bind_splits dest!: san wf_send intro!: wf_intros)
  show "PeerGroupMsg1Action env TxTsc w Elem s = Some s' \<Longrightarrow> wpa_wf s'"
    using wf unfolding PeerGroupMsg1Action_def Let_def
    by (auto simp: wf_simps split: if_splits bind_splits dest!: san wf_send intro!: wf_intros)
  show "PeerPairMsg2Action w Elem s = Some s' \<Longrightarrow> wpa_wf s'"
    using wf unfolding PeerPairMsg2Action_def
    by (auto split: if_splits bind_splits dest!: elem_packet_nonce intro!: wf_intros)
  show "PeerPairMsg4Action env TxTsc w Elem s = Some s' \<Longrightarrow> wpa_wf s'"
    using wf unfolding PeerPairMsg4Action_def Let_def
    by (auto simp: wf_simps split: if_splits bind_splits dest!: san wf_WPAStart2WayGroupHS intro!: wf_intros)
  show "PeerGroupMsg2Action env TxTsc w Elem n s = Some s' \<Longrightarrow> wpa_wf s'"
    using wf unfolding PeerGroupMsg2Action_def
    by (auto simp: wf_simps split: if_splits bind_splits dest!: san intro!: wf_intros)
qed

lemma Hash_SetWcid [simp]: "wa_Hash (RTMPSetWcidSecurityInfo t b k alg wc tab s) = wa_Hash s"
  using RTMPSetWcidSecurityInfo_emits [of t b k alg wc tab s] by auto

lemma Hash_install [simp]:
  "wa_Hash (WPAInstallPairwiseKey b w ae s) = wa_Hash s" "wa_Hash (STA_PORT_SECURED s) = wa_Hash s"
  by (simp_all add: WPAInstallPairwiseKey_def STA_PORT_SECURED_def Let_def split: option.split)

lemma Hash_parse: "RTMPParseEapolKeyData t K n gi mt b s = Some (ok, s') \<Longrightarrow> wa_Hash s' = wa_Hash s"
proof -
  have "wa_Hash (WPAInstallSharedKey t g i wc ae gtk n s) = wa_Hash s" for t g i wc ae gtk n s
    using WPAInstallSharedKey_writes [of t g i wc ae gtk n s] by auto
  then show "RTMPParseEapolKeyData t K n gi mt b s = Some (ok, s') \<Longrightarrow> wa_Hash s' = wa_Hash s"
    by (auto simp: RTMPParseEapolKeyData_def Let_def split: option.splits sum.splits if_splits)
qed

lemma Hash_Sanity: "PeerWpaMessageSanity env TxTsc p t w s = Some (ok, p', s') \<Longrightarrow> wa_Hash s' = wa_Hash s"
  by (auto simp: PeerWpaMessageSanity_def eapol_key_data_def Let_def split: if_splits bind_splits dest!: Hash_parse)

lemma Hash_send: "send_eapol env w m c s = Some s' \<Longrightarrow> wa_Hash s' = wa_Hash s"
  by (auto simp: send_eapol_def RTMPToWirelessSta_def Let_def split: if_splits)

lemma Hash_dispatch:
  assumes "WpaEAPOLKeyAction env TxTsc Elem s = Some s'"
  shows "wa_Hash s' = wa_Hash s"
proof -
  have 1: "wa_Hash s2 = wa_Hash s1" if "WPAStart2WayGroupHS env TxTsc w s1 = Some s2" for w s1 s2
    using that by (auto simp: WPAStart2WayGroupHS_def Let_def split: if_splits bind_splits)
  note d = Hash_Sanity Hash_send 1
  have "PeerPairMsg1Action env TxTsc w Elem s = Some s' \<Longrightarrow> wa_Hash s' = wa_Hash s"
    "PeerPairMsg2Action w Elem s = Some s' \<Longrightarrow> wa_Hash s' = wa_Hash s"
    "PeerPairMsg3Action env TxTsc w Elem s = Some s' \<Longrightarrow> wa_Hash s' = wa_Hash s"
    "PeerPairMsg4Action env TxTsc w Elem s = Some s' \<Longrightarrow> wa_Hash s' = wa_Hash s"
    "PeerGroupMsg1Action env TxTsc w Elem s = Some s' \<Longrightarrow> wa_Hash s' = wa_Hash s"
    "PeerGroupMsg2Action env TxTsc w Elem n s = Some s' \<Longrightarrow> wa_Hash s' = wa_Hash s" for w n
    unfolding PeerPairMsg1Action_def PeerPairMsg2Action_def PeerPairMsg3Action_def PeerPairMsg4Action_def PeerGroupMsg1Action_def
      PeerGroupMsg2Action_def Let_def
    by (auto split: if_splits bind_splits dest!: d)
  then show ?thesis
    using assms by (auto simp: WpaEAPOLKeyAction_def Let_def split: option.splits if_splits bind_splits)
qed

lemma dispatch_wf:
  assumes "WpaEAPOLKeyAction env TxTsc Elem s = Some s'" "wpa_wf s" "hash_wf s"
  shows "wpa_wf s' \<and> hash_wf s'"
proof
  have "length (wa_Content s') = length (wa_Content s)"
    using dispatch_counters [OF assms] length_counters [of s] length_counters [of s'] by (auto simp: counter_step_def)
  then show "hash_wf s'" using Hash_dispatch [OF assms(1)] assms(3) by (simp add: hash_wf_def)
  have b: "MacTableLookup s A = Some w \<Longrightarrow> w < length (wa_Content s)" for A w by (rule MacTableLookup_bound [OF assms(3)])
  show "wpa_wf s'"
    using assms(1,2) Msg1_wf [OF _ assms(2) b] action_wf [OF assms(2) b]
    by (auto simp: WpaEAPOLKeyAction_def Let_def split: option.splits if_splits bind_splits)
qed

text \<open>A run of the station over received frames, each with the answers of its allocator.\<close>

fun wpa_run :: "(wpa_mem \<times> bytes \<times> MLME_QUEUE_ELEM) list \<Rightarrow> WPA_ADAPTER \<Rightarrow> WPA_ADAPTER option" where
  "wpa_run [] s = Some s"
| "wpa_run ((env, TxTsc, Elem) # fs) s = (case WpaEAPOLKeyAction env TxTsc Elem s of None \<Rightarrow> None | Some s' \<Rightarrow> wpa_run fs s')"

section \<open>A concrete station\<close>

text \<open>An allocator with memory to give, the entry of an access point that uses WPA2-PSK with CCMP, and a station whose table holds it at
  the index \<^verbatim>\<open>BSSID_WCID\<close>.\<close>

definition wpa_env0 :: wpa_mem where
  "wpa_env0 = \<lparr>wm_KEYDATA = True, wm_mpool = True, wm_keydata_pool = Some (replicate 512 0), wm_mic_pool = True, wm_aes = Some aes_ctx0,
     wm_wrap = True, wm_arc4 = True, wm_prf = Some (replicate 1024 0), wm_nonce = (\<lambda>_. Some (replicate 1024 0)), wm_uptime = (\<lambda>_. 0),
     wm_packet = True, wm_stack = replicate 80 0\<rparr>"

definition wpa_entry0 :: "nat \<Rightarrow> bytes \<Rightarrow> WPA_ENTRY" where
  "wpa_entry0 st rc = \<lparr>we_Addr = [0, 0, 0, 0, 0, 1], we_EntryType = ENTRY_CLIENT, we_apidx = 0, we_Aid = 1, we_AuthMode = Ndis802_11AuthModeWPA2PSK,
     we_WepStatus = Ndis802_11Encryption3Enabled, we_Sst = SST_ASSOC, we_WpaState = st, we_GTKState = 0,
     we_PortSecured = WPA_802_1X_PORT_NOT_SECURED, we_PrivacyFilter = 0, we_R_Counter = rc, we_ANonce = replicate 32 0,
     we_SNonce = replicate 32 0, we_PTK = replicate 64 0, we_PairwiseKey = cipher_key_zero, we_ReTryCounter = 0, we_PMKID_CacheIdx = 0,
     we_EnqueueEapolStartTimerRunning = 0\<rparr>"

definition wpa_station0 :: "nat \<Rightarrow> WPA_ADAPTER" where
  "wpa_station0 st = \<lparr>wa_CurrentAddress = [0, 0, 0, 0, 0, 2], wa_PMK = replicate 32 0, wa_GroupCipher = Ndis802_11Encryption3Enabled,
     wa_RSN_IE = replicate 255 0, wa_RSNIE_Len = 20, wa_PTK = replicate 64 0, wa_GTK = replicate 32 0, wa_DefaultKeyId = 0,
     wa_PortSecured = WPA_802_1X_PORT_NOT_SECURED, wa_SharedKey = replicate 4 cipher_key_zero,
     wa_Content = replicate 2 (wpa_entry0 st (NdisZeroMemory 8)), wa_Hash = (replicate 256 [])[1 := [1]], wa_Connected = True,
     wa_Scanning = False, wa_Channel = 1, wa_AuxChannel = 0, wa_Closed = False, wa_Log = []\<rparr>"

lemma wpa_env0_ok: "wpa_mem_ok wpa_env0"
  by (simp add: wpa_mem_ok_def wpa_env0_def aes_ctx0_wf)

lemma wpa_station0_facts:
  "wpa_wf (wpa_station0 st)" "hash_wf (wpa_station0 st)" "entry (wpa_station0 st) 1 = wpa_entry0 st (NdisZeroMemory 8)"
  "wa_GroupCipher (wpa_station0 st) = Ndis802_11Encryption3Enabled" "1 < length (wa_Content (wpa_station0 st))"
proof -
  have e: "wpa_entry_wf (wpa_entry0 st (NdisZeroMemory 8))" by (simp add: wpa_entry_wf_def wpa_entry0_def)
  show "wpa_wf (wpa_station0 st)" using e by (simp add: wpa_wf_def wpa_station0_def list_all_iff)
  show "hash_wf (wpa_station0 st)" by (simp add: hash_wf_def wpa_station0_def list_all_length nth_list_update)
qed (simp_all add: wpa_station0_def entry_def)

lemma wpa_station0_associated:
  assumes "AS_INITPSK \<le> st"
  shows "associated 1 (wpa_station0 st)"
proof -
  have h: "MAC_ADDR_HASH_INDEX [0, 0, 0, 0, 0, 1] = 1" by (simp add: MAC_ADDR_HASH_INDEX_def)
  have "MacTableLookup (wpa_station0 st) [0, 0, 0, 0, 0, 1] = Some 1"
    unfolding MacTableLookup_def h by (simp add: wpa_station0_def wpa_entry0_def numeral_2_eq_2)
  then show ?thesis
    using assms unfolding associated_def wpa_station0_facts by (simp add: wpa_entry0_def is_peer_def is_WPA2_def wpa_station0_def)
qed

definition anonce0 :: bytes where
  "anonce0 = map (\<lambda>b. b + 1) (nonce_reference (wm_uptime wpa_env0) [0, 0, 0, 0, 0, 2] 32)"

lemma anonce0_facts: "length anonce0 = 32" "anonce0 \<noteq> nonce_reference (wm_uptime wpa_env0) (wa_CurrentAddress (wpa_station0 st)) 32"
proof -
  show "length anonce0 = 32" by (simp add: anonce0_def)
  have "map (\<lambda>b. b + 1) xs \<noteq> xs" if "xs \<noteq> []" for xs :: bytes using that by (cases xs) simp_all
  moreover have "nonce_reference t m 32 \<noteq> []" for t m using length_nonce_reference [of t m 32] by (metis length_0_conv zero_neq_numeral)
  ultimately show "anonce0 \<noteq> nonce_reference (wm_uptime wpa_env0) (wa_CurrentAddress (wpa_station0 st)) 32"
    unfolding anonce0_def by (simp add: wpa_station0_def)
qed

lemma be_nat_one: "be_nat (NdisZeroMemory 8) < be_nat [0, 0, 0, 0, 0, 0, 0, 1]" "be_nat [0, 0, 0, 0, 0, 0, 0, 1] < be_nat [0, 0, 0, 0, 0, 0, 0, 2]"
proof -
  have "be_nat (NdisZeroMemory n) = 0" for n by (induction n) (simp_all add: NdisZeroMemory_def)
  then show "be_nat (NdisZeroMemory 8) < be_nat [0, 0, 0, 0, 0, 0, 0, 1]" by simp
qed simp

lemma wpa_entry0_facts:
  "is_WPA2 (we_AuthMode (wpa_entry0 st rc))" "we_WepStatus (wpa_entry0 st rc) = Ndis802_11Encryption3Enabled" "we_R_Counter (wpa_entry0 st rc) = rc"
  "we_Addr (wpa_entry0 st rc) = [0, 0, 0, 0, 0, 1]" "we_PTK (wpa_entry0 st rc) = replicate 64 0" "we_ANonce (wpa_entry0 st rc) = replicate 32 0"
  "we_WpaState (wpa_entry0 st rc) = st"
  by (simp_all add: wpa_entry0_def is_WPA2_def)

text \<open>The frame of message 1 for this station, a frame of message 3 under the PTK of its entry, and what they lead to.\<close>

lemma message1_concrete:
  "\<exists>Elem. WpaEAPOLKeyAction wpa_env0 [] Elem (wpa_station0 AS_INITPSK)
     = Some (msg1_answer wpa_env0 (wpa_entry0 0 [0, 0, 0, 0, 0, 0, 0, 1]) anonce0 (wpa_station0 AS_INITPSK) 1)"
proof -
  let ?a = "wpa_entry0 0 [0, 0, 0, 0, 0, 0, 0, 1]" and ?s = "wpa_station0 AS_INITPSK"
  let ?m = "eapol_message ?a (wa_GroupCipher ?s) EAPOL_PAIR_MSG_1 0 anonce0 (NdisZeroMemory 16) (NdisZeroMemory 8) []"
  have l: "length (we_R_Counter ?a) = 8" by (simp add: wpa_entry0_facts)
  have "eapol_wf ?m" using l anonce0_facts(1) by (simp add: eapol_message_wf)
  then have "length (eapol_bytes ?m) = 99 + length (kd_KeyData ?m)" by (rule length_eapol_bytes)
  moreover have "CONV_ARRARY_TO_UINT16 (ep_Body_Len ?m) = 95" by (simp add: eapol_message_def)
  ultimately obtain Elem where c: "carries Elem (we_Addr (entry ?s 1)) ?m"
    using carries_exists [of "[0, 0, 0, 0, 0, 1]" ?m] unfolding wpa_station0_facts wpa_entry0_facts by auto
  have r: "be_nat (we_R_Counter (entry ?s 1)) < be_nat (we_R_Counter ?a)"
    unfolding wpa_station0_facts wpa_entry0_facts by (rule be_nat_one)
  have "we_WepStatus ?a = we_WepStatus (entry ?s 1)" unfolding wpa_station0_facts wpa_entry0_facts ..
  from answer_message1 [OF wpa_env0_ok wpa_station0_facts(1) wpa_station0_associated [OF order_refl] anonce0_facts(2) r wpa_entry0_facts(1) this l anonce0_facts(1) c]
  show ?thesis by blast
qed

lemma message3_concrete:
  "\<exists>Elem s3. WpaEAPOLKeyAction wpa_env0 [] Elem (wpa_station0 AS_INITPSK) = Some s3
     \<and> keys_installed (replicate 64 0) (replicate 16 0) 1 [0, 0, 0, 0, 0, 0, 0, 1] 1 (wpa_station0 AS_INITPSK) s3"
proof -
  let ?a = "wpa_entry0 0 [0, 0, 0, 0, 0, 0, 0, 1]" and ?s = "wpa_station0 AS_INITPSK"
  have f: "counter_fresh (we_R_Counter ?a) (we_R_Counter (entry ?s 1))"
    unfolding wpa_station0_facts wpa_entry0_facts counter_fresh_def using be_nat_one(1) by blast
  have e: "length (wa_SharedKey ?s) = 4" by (simp add: wpa_station0_def)
  from complete_message3 [OF wpa_env0_ok wpa_env0_ok wpa_station0_associated [OF order_refl] e _ wpa_entry0_facts(1) _ _ _ f, of
      "replicate 32 0" "replicate 6 0" "[]" "replicate 16 0" 1 "[]"]
  show ?thesis unfolding wpa_station0_facts wpa_entry0_facts by simp blast
qed

section \<open>Properties\<close>

text \<open>C1: the four-way handshake of WPA2 completes.  The authenticator \<open>a\<close> constructs message 1; the station, at the dispatcher,
  answers with message 2; with the nonce of that answer the authenticator derives its PTK and constructs message 3 under a greater
  replay counter; every frame that carries it makes the station finish: the PTK the authenticator derived is installed
  as the pairwise key, the group key is the one encapsulated in the encrypted key data, the port is open and
  message 4 is sent with a valid integrity code.\<close>

theorem four_way_handshake:
  assumes env: "wpa_mem_ok env0" "wpa_mem_ok env" "wpa_mem_ok env'" and buf: "length buf = 1024" "80 \<le> length out"
    and s: "wpa_wf s" "associated w s" "anonce \<noteq> nonce_reference (wm_uptime env) (wa_CurrentAddress s) 32"
      "be_nat (we_R_Counter (entry s w)) < be_nat (we_R_Counter a)"
    and a: "is_WPA2 (we_AuthMode a)" "we_WepStatus a = we_WepStatus (entry s w)" "length (we_R_Counter a) = 8" "length anonce = 32"
      "length rc = 8" "be_nat (we_R_Counter a) < be_nat rc" "length rsc = 6"
    and R: "RSNIE = [] \<or> take 3 (drop 2 RSNIE) = OUI_WPA2" "length RSNIE + length gtk \<le> 230"
    and gtk: "length gtk = (if wa_GroupCipher s = Ndis802_11Encryption3Enabled then 16 else 32)"
  shows "\<exists>m1. ConstructEapolMsg env0 a (wa_GroupCipher s) EAPOL_PAIR_MSG_1 0 (Some anonce) None None [] eapol_zero = Some m1
    \<and> (\<exists>Elem1. carries Elem1 (we_Addr (entry s w)) m1)
    \<and> (\<forall>Elem1. carries Elem1 (we_Addr (entry s w)) m1 \<longrightarrow>
      (\<exists>s1 ptk m3. WpaEAPOLKeyAction env TxTsc Elem1 s = Some s1
        \<and> WpaDerivePTK (Some buf) (wa_PMK s) anonce (we_Addr (entry s w)) (kd_KeyNonce (eapol_of (sent_frame s1))) (wa_CurrentAddress s) out 64
            = Some ptk
        \<and> ConstructEapolMsg env0 (a\<lparr>we_PTK := take 64 ptk, we_R_Counter := rc\<rparr>) (wa_GroupCipher s) EAPOL_PAIR_MSG_3 idx
            (Some anonce) (Some rsc) (Some gtk) RSNIE eapol_zero = Some m3
        \<and> (\<exists>Elem3. carries Elem3 (we_Addr (entry s w)) m3)
        \<and> (\<forall>Elem3. carries Elem3 (we_Addr (entry s w)) m3 \<longrightarrow>
            (\<exists>s3. WpaEAPOLKeyAction env' TxTsc Elem3 s1 = Some s3 \<and> keys_installed (take 64 ptk) gtk idx rc w s1 s3))))"
proof -
  let ?g = "wa_GroupCipher s" and ?s1 = "msg1_answer env a anonce s w"
  let ?m1 = "eapol_message a ?g EAPOL_PAIR_MSG_1 0 anonce (NdisZeroMemory 16) (NdisZeroMemory 8) []"
  let ?snonce = "nonce_reference (wm_uptime env) (wa_CurrentAddress s) 32"
  let ?PTK = "ptk_reference (wa_PMK s) (we_Addr (entry s w)) (wa_CurrentAddress s) anonce ?snonce 64"
  let ?a = "a\<lparr>we_PTK := ?PTK, we_R_Counter := rc\<rparr>"
  have e: "wpa_entry_wf (entry s w)" using entry_wf [OF s(1)] s(2) by (simp add: associated_def)
  have l: "length ?PTK = 64" "length (wa_PMK s) = 32" "length (we_Addr (entry s w)) = 6" "length (wa_CurrentAddress s) = 6" "length (wa_SharedKey s) = 4"
    using e s(1) by (simp_all add: ptk_reference_def wpa_entry_wf_def wpa_wf_def)
  obtain rest where ptk: "WpaDerivePTK (Some buf) (wa_PMK s) anonce (we_Addr (entry s w)) ?snonce (wa_CurrentAddress s) out 64 = Some (?PTK @ rest)"
    using WpaDerivePTK_spec [OF buf(1) l(2,3,4) a(4) _ s(3) buf(2)] by auto
  note as = associated_answer [OF s(2), of env a anonce]
  have me: "we_Addr (msg1_entry env a anonce s w) = we_Addr (entry s w)" "we_WepStatus (msg1_entry env a anonce s w) = we_WepStatus (entry s w)"
    "we_R_Counter (msg1_entry env a anonce s w) = we_R_Counter a" "we_PTK (msg1_entry env a anonce s w) = ?PTK"
    "we_ANonce (msg1_entry env a anonce s w) = anonce"
    by (simp_all add: msg1_entry_def Let_def)
  obtain m3 where m3: "ConstructEapolMsg env0 ?a ?g EAPOL_PAIR_MSG_3 idx (Some anonce) (Some rsc) (Some gtk) RSNIE eapol_zero = Some m3"
      "\<exists>Elem. carries Elem (we_Addr (entry s w)) m3"
      "\<forall>Elem. carries Elem (we_Addr (entry s w)) m3 \<longrightarrow> (\<exists>s3. WpaEAPOLKeyAction env' TxTsc Elem ?s1 = Some s3 \<and> keys_installed ?PTK gtk idx rc w ?s1 s3)"
    using complete_message3 [OF env(1,3) as(1), of ?a anonce rsc RSNIE gtk idx TxTsc] l a R gtk unfolding as me by (auto simp: counter_fresh_def)
  have "\<exists>s1 ptk m3. WpaEAPOLKeyAction env TxTsc Elem1 s = Some s1
        \<and> WpaDerivePTK (Some buf) (wa_PMK s) anonce (we_Addr (entry s w)) (kd_KeyNonce (eapol_of (sent_frame s1))) (wa_CurrentAddress s) out 64
            = Some ptk
        \<and> ConstructEapolMsg env0 (a\<lparr>we_PTK := take 64 ptk, we_R_Counter := rc\<rparr>) ?g EAPOL_PAIR_MSG_3 idx
            (Some anonce) (Some rsc) (Some gtk) RSNIE eapol_zero = Some m3
        \<and> (\<exists>Elem3. carries Elem3 (we_Addr (entry s w)) m3)
        \<and> (\<forall>Elem3. carries Elem3 (we_Addr (entry s w)) m3 \<longrightarrow>
            (\<exists>s3. WpaEAPOLKeyAction env' TxTsc Elem3 s1 = Some s3 \<and> keys_installed (take 64 ptk) gtk idx rc w s1 s3))"
    if "carries Elem1 (we_Addr (entry s w)) ?m1" for Elem1
    using answer_message1 [OF env(2) s a(1-4) that, of TxTsc] msg1_answer_nonce [OF s(1) a(3), of env anonce w] ptk m3
    by (intro exI [of _ ?s1] exI [of _ "?PTK @ rest"] exI [of _ m3]) (simp add: l(1))
  moreover have "\<exists>Elem1. carries Elem1 (we_Addr (entry s w)) ?m1"
    using carries_exists [OF l(3), of ?m1] length_eapol_bytes [of ?m1] a(3,4)
    by (simp add: eapol_message_wf) (simp add: eapol_message_def)
  ultimately show ?thesis using ConstructEapolMsg_1 [OF a(4)] by blast
qed

theorem four_way_handshake_witness:
  "\<exists>m1 Elem1 s1 Elem3 s3 ptk. ConstructEapolMsg wpa_env0 (wpa_entry0 0 [0, 0, 0, 0, 0, 0, 0, 1]) Ndis802_11Encryption3Enabled
      EAPOL_PAIR_MSG_1 0 (Some anonce0) None None [] eapol_zero = Some m1
    \<and> WpaEAPOLKeyAction wpa_env0 [] Elem1 (wpa_station0 AS_INITPSK) = Some s1
    \<and> WpaEAPOLKeyAction wpa_env0 [] Elem3 s1 = Some s3
    \<and> keys_installed (take 64 ptk) (replicate 16 0) 1 [0, 0, 0, 0, 0, 0, 0, 2] 1 s1 s3"
proof -
  let ?a = "wpa_entry0 0 [0, 0, 0, 0, 0, 0, 0, 1]" and ?s = "wpa_station0 AS_INITPSK"
  have r: "be_nat (we_R_Counter (entry ?s 1)) < be_nat (we_R_Counter ?a)" "be_nat (we_R_Counter ?a) < be_nat [0, 0, 0, 0, 0, 0, 0, 2]"
    "we_WepStatus ?a = we_WepStatus (entry ?s 1)" "length (we_R_Counter ?a) = 8"
    unfolding wpa_station0_facts wpa_entry0_facts using be_nat_one by simp_all
  have g: "length (replicate 16 0 :: bytes) = (if wa_GroupCipher ?s = Ndis802_11Encryption3Enabled then 16 else 32)"
    by (simp add: wpa_station0_facts)
  from four_way_handshake [OF wpa_env0_ok wpa_env0_ok wpa_env0_ok _ _ wpa_station0_facts(1) wpa_station0_associated [OF order_refl] anonce0_facts(2) r(1)
      wpa_entry0_facts(1) r(3,4) anonce0_facts(1) _ r(2) _ _ _ g, of "replicate 1024 0" "replicate 80 0" "replicate 6 0" "[]" "[]" 1]
  show ?thesis unfolding wpa_station0_facts wpa_entry0_facts by simp blast
qed



text \<open>C14: the replay counter kept for a station never goes back except to zero: every frame leaves it, replaces it by a greater counter,
  by the all-zero counter, or increments it, and touches the counter of no other station.\<close>

theorem replay_counters:
  assumes "WpaEAPOLKeyAction env TxTsc Elem s = Some s'" "wpa_wf s" "hash_wf s" "v < length (wa_Content s)"
  shows "length (wa_Content s') = length (wa_Content s) \<and>
    (we_R_Counter (entry s' v) \<noteq> we_R_Counter (entry s v) \<longrightarrow>
      MacTableLookup s (take 6 (drop 10 (me_Msg Elem))) = Some v
      \<and> (be_nat (we_R_Counter (entry s v)) < be_nat (we_R_Counter (entry s' v))
         \<or> we_R_Counter (entry s' v) = NdisZeroMemory 8
         \<or> we_R_Counter (entry s' v) = ADD_ONE_To_64BIT_VAR (we_R_Counter (entry s v))))"
proof -
  note dispatch_counters [OF assms(1-3)]
  then have c: "counters s' = counters s \<or> (\<exists>w c. MacTableLookup s (take 6 (drop 10 (me_Msg Elem))) = Some w \<and> counters s' = (counters s)[w := c]
      \<and> (counter_fresh c (we_R_Counter (entry s w)) \<or> c = ADD_ONE_To_64BIT_VAR (we_R_Counter (entry s w))))"
    by (auto simp: counter_step_def)
  then have l: "length (wa_Content s') = length (wa_Content s)" by (metis length_counters length_list_update)
  have v: "counters s ! v = we_R_Counter (entry s v)" "counters s' ! v = we_R_Counter (entry s' v)" "v < length (counters s)"
    using assms(4) l by (simp_all add: counters_def entry_def)
  then have "(counters s)[w := c] ! v = (if w = v then c else we_R_Counter (entry s v))" for w c by simp
  then show ?thesis
    using c l v by (auto simp: counter_fresh_def split: if_splits)
qed

theorem replay_counters_witness:
  "\<exists>Elem s'. WpaEAPOLKeyAction wpa_env0 [] Elem (wpa_station0 AS_INITPSK) = Some s'
    \<and> we_R_Counter (entry s' 1) = [0, 0, 0, 0, 0, 0, 0, 1] \<and> length (wa_Content s') = length (wa_Content (wpa_station0 AS_INITPSK))"
proof -
  obtain Elem where m: "WpaEAPOLKeyAction wpa_env0 [] Elem (wpa_station0 AS_INITPSK)
      = Some (msg1_answer wpa_env0 (wpa_entry0 0 [0, 0, 0, 0, 0, 0, 0, 1]) anonce0 (wpa_station0 AS_INITPSK) 1)"
    using message1_concrete by blast
  moreover have "we_R_Counter (entry (msg1_answer wpa_env0 (wpa_entry0 0 [0, 0, 0, 0, 0, 0, 0, 1]) anonce0 (wpa_station0 AS_INITPSK) 1) 1)
      = [0, 0, 0, 0, 0, 0, 0, 1]"
    unfolding associated_answer(3) [OF wpa_station0_associated [OF order_refl]] by (simp add: msg1_entry_def Let_def wpa_entry0_facts)
  ultimately show ?thesis
    using replay_counters [OF m wpa_station0_facts(1,2,5)] by blast
qed



text \<open>C38: a station that has completed the handshake accepts message 3 again, with any greater replay counter or with the all-zero one,
  installs the pairwise key it already uses once more and sets its packet number back to one.\<close>

theorem message3_reinstalls:
  assumes env: "wpa_mem_ok env0" "wpa_mem_ok env" and s: "wpa_wf s" "associated w s" "we_WpaState (entry s w) = AS_PTKINITDONE"
    and a: "is_WPA2 (we_AuthMode a)" "we_WepStatus a = we_WepStatus (entry s w)" "we_PTK a = we_PTK (entry s w)" "length (we_R_Counter a) = 8"
      "be_nat (we_R_Counter (entry s w)) < be_nat (we_R_Counter a) \<or> we_R_Counter a = NdisZeroMemory 8" "length rsc = 6"
    and R: "RSNIE = [] \<or> take 3 (drop 2 RSNIE) = OUI_WPA2" "length RSNIE + length gtk \<le> 230"
    and gtk: "length gtk = (if wa_GroupCipher s = Ndis802_11Encryption3Enabled then 16 else 32)"
  shows "\<exists>m3. ConstructEapolMsg env0 a (wa_GroupCipher s) EAPOL_PAIR_MSG_3 idx (Some (we_ANonce (entry s w))) (Some rsc) (Some gtk) RSNIE eapol_zero = Some m3
    \<and> (\<exists>Elem. carries Elem (we_Addr (entry s w)) m3)
    \<and> (\<forall>Elem. carries Elem (we_Addr (entry s w)) m3 \<longrightarrow>
        (\<exists>s3. WpaEAPOLKeyAction env TxTsc Elem s = Some s3
          \<and> Some (we_PairwiseKey (entry s3 w)) = map_option (pairwise_key False (we_PTK (entry s w))) (pairwise_cipher (we_WepStatus (entry s w)))
          \<and> we_R_Counter (entry s3 w) = we_R_Counter a
          \<and> AsicUpdateWCIDIVEIV (we_Aid (entry s w)) 0x20000001 0 \<in> set (drop (length (wa_Log s)) (wa_Log s3))))"
proof -
  have w: "w < length (wa_Content s)" using s(2) by (simp add: associated_def)
  have e: "length (we_R_Counter (entry s w)) = 8" "length (we_PTK a) = 64" "length (we_ANonce (entry s w)) = 32" "length (wa_SharedKey s) = 4"
      "length (we_Addr (entry s w)) = 6"
    using entry_wf [OF s(1) w] a(3) s(1) by (simp_all add: wpa_entry_wf_def wpa_wf_def)
  have f: "counter_fresh (we_R_Counter a) (we_R_Counter (entry s w))" using a(5) by (simp add: counter_fresh_def)
  have k: "AsicUpdateWCIDIVEIV (we_Aid (entry s w)) 0x20000001 0 \<in> set (drop (length (wa_Log s)) (wa_Log s3))"
    if "keys_installed PTK gtk idx rc w s s3" for PTK rc s3
    using that by (simp add: keys_installed_def pairwise_commands_def)
  obtain m3 where "ConstructEapolMsg env0 a (wa_GroupCipher s) EAPOL_PAIR_MSG_3 idx (Some (we_ANonce (entry s w))) (Some rsc) (Some gtk) RSNIE eapol_zero = Some m3"
      "\<exists>Elem. carries Elem (we_Addr (entry s w)) m3"
      "\<forall>Elem. carries Elem (we_Addr (entry s w)) m3 \<longrightarrow> (\<exists>s3. WpaEAPOLKeyAction env TxTsc Elem s = Some s3 \<and> keys_installed (we_PTK a) gtk idx (we_R_Counter a) w s s3)"
    using complete_message3 [OF env s(2) e(4,5) a(1,2,4) e(1) f a(3) e(2) refl e(3) a(6) R gtk, of idx TxTsc] by blast
  then show ?thesis using k a(3) by (auto simp: keys_installed_def)
qed

theorem message3_reinstalls_witness:
  "\<exists>Elem s3. WpaEAPOLKeyAction wpa_env0 [] Elem (wpa_station0 AS_PTKINITDONE) = Some s3
    \<and> AsicUpdateWCIDIVEIV (we_Aid (entry (wpa_station0 AS_PTKINITDONE) 1)) 0x20000001 0 \<in> set (drop (length (wa_Log (wpa_station0 AS_PTKINITDONE))) (wa_Log s3))"
proof -
  let ?a = "wpa_entry0 0 (NdisZeroMemory 8)" and ?s = "wpa_station0 AS_PTKINITDONE"
  have st: "AS_INITPSK \<le> AS_PTKINITDONE" by simp
  have e: "we_WpaState (entry ?s 1) = AS_PTKINITDONE" "we_WepStatus ?a = we_WepStatus (entry ?s 1)" "we_PTK ?a = we_PTK (entry ?s 1)"
    "length (we_R_Counter ?a) = 8" "we_R_Counter ?a = NdisZeroMemory 8"
    unfolding wpa_station0_facts wpa_entry0_facts by simp_all
  have g: "length (replicate 16 0 :: bytes) = (if wa_GroupCipher ?s = Ndis802_11Encryption3Enabled then 16 else 32)"
    by (simp add: wpa_station0_facts)
  from message3_reinstalls [OF wpa_env0_ok wpa_env0_ok wpa_station0_facts(1) wpa_station0_associated [OF st] e(1) wpa_entry0_facts(1) e(2-4) disjI2 [OF e(5)] _ _ _ g,
      of "replicate 6 0" "[]" 1 "[]"]
  show ?thesis by simp blast
qed

text \<open>C39: key data with a group key of more than 32 octets is copied past the end of the 32-octet buffer of the parser.\<close>

theorem gtk_kde_overflow:
  assumes "32 < length gtk" "length gtk \<le> 245"
  shows "RTMPParseEapolKeyData TxTsc (gtk_kde idx gtk @ NdisZeroMemory (247 - length gtk)) (8 + length gtk) gi EAPOL_PAIR_MSG_3 True s = None"
proof -
  let ?B = "gtk_kde idx gtk @ NdisZeroMemory (247 - length gtk)" and ?L = "word_of_nat (6 + length gtk) :: UINT8"
  have len: "unat ?L = 6 + length gtk" "?L - 6 = word_of_nat (length gtk)" "unat (word_of_nat (length gtk) :: UINT8) = length gtk"
    using assms by (simp add: unat_of_nat del: of_nat_add, simp, simp add: unat_of_nat)
  have "parse_gtk_kde ?B 0 ?L acc = None" for acc
    unfolding parse_gtk_kde_def len using assms by (cases acc) (simp add: octets_def gtk_kde_def OUI_WPA2_def len(3))
  moreover have "octets ?B 0 2 = Some [WPA_KDE_TYPE, ?L]" by (simp add: octets_def gtk_kde_def)
  ultimately have "parse_kde_loop ?B (8 + length gtk) 0 acc = None" for acc
    by (subst parse_kde_loop.simps) (simp add: len del: of_nat_add)
  then show ?thesis by (simp add: RTMPParseEapolKeyData_def parse_group_key_def)
qed

theorem gtk_kde_overflow_witness:
  "RTMPParseEapolKeyData [] (gtk_kde 1 (replicate 33 0) @ NdisZeroMemory 214) 41 0 EAPOL_PAIR_MSG_3 True (wpa_station0 AS_INITPSK) = None"
  using gtk_kde_overflow [of "replicate 33 0" "[]" 1 0 "wpa_station0 AS_INITPSK"] by simp

end
