(* ===== verification/MacTable.thy ===== *)
theory MacTable
  imports WpaHandshake
begin

text \<open>
  The table of peers, \<^verbatim>\<open>mgmt/mgmt_entrytb.c\<close>, with the two places of the station that change it directly: the
  entry of the access point linked by \<^verbatim>\<open>StaAddMacTableEntry\<close> and the clean-up of \<^verbatim>\<open>LinkDown\<close>.  The entries are cells of
  an array, chained through their \<^verbatim>\<open>pNext\<close> fields from the 256 heads of a hash table; a pointer is the index of a
  cell.  The walks along a chain are partial: a chain with a cycle is a walk that does not return.  Commands to the chip, to
  the timers and the tear-down of the block-ack sessions are recorded in order.
\<close>

section \<open>State\<close>

abbreviation (input) MAX_LEN_OF_MAC_TABLE_STA :: nat where "MAX_LEN_OF_MAC_TABLE_STA \<equiv> 32"
abbreviation (input) RATE_11 :: nat where "RATE_11 \<equiv> 3"
abbreviation (input) ENTRY_NOT_FOUND :: int where "ENTRY_NOT_FOUND \<equiv> 0xFF"
abbreviation (input) MAC_TABLE_ASSOC_TIMEOUT :: nat where "MAC_TABLE_ASSOC_TIMEOUT \<equiv> 5"

text \<open>The fields of \<^verbatim>\<open>MAC_TABLE_ENTRY\<close> that the table itself writes, on top of those of the handshakes.\<close>

record MAC_ENTRY = WPA_ENTRY +
  mt_pNext :: "nat option"
  mt_HdrAddr1 :: bytes
  mt_HdrAddr2 :: bytes
  mt_HdrAddr3 :: bytes
  mt_AuthState :: nat
  mt_CapabilityInfo :: nat
  mt_PsMode :: nat
  mt_PsQIdleCount :: nat
  mt_NoDataIdleCount :: nat
  mt_AssocDeadLine :: nat
  mt_ContinueTxFailCnt :: nat
  mt_TimeStamp_toTxRing :: nat
  mt_PsQueue :: nat
  mt_RSNIE_Len :: nat
  mt_CMTimerRunning :: bool
  mt_bIAmBadAtheros :: bool
  mt_MaxSupportedRate :: nat
  mt_CurrTxRate :: nat

datatype mt_timer = RetryTimer | EnqueueStartForPSKTimer

datatype mt_event =
    TimerInit mt_timer nat
  | TimerCancel mt_timer nat
  | TimerRelease mt_timer nat
  | RemovePairwiseKey nat
  | StaEntryAdd nat bytes
  | StaEntryMacReset nat
  | BASessionsDown nat
  | UpdateProtect

text \<open>\<open>mt_Infra\<close> is \<^verbatim>\<open>StaCfg.BssType == BSS_INFRA\<close>; the authentication mode, cipher, port state and address are those of
  \<^verbatim>\<open>StaCfg\<close> and the adapter.\<close>

record MAC_TABLE =
  mt_Hash :: "nat option list"
  mt_Content :: "MAC_ENTRY list"
  mt_Size :: UINT16
  mt_Infra :: bool
  mt_AuthMode :: nat
  mt_WepStatus :: nat
  mt_PortSecured :: nat
  mt_CurrentAddress :: bytes
  mt_OperaionMode :: nat
  mt_Log :: "mt_event list"

definition mt_emit :: "mt_event list \<Rightarrow> MAC_TABLE \<Rightarrow> MAC_TABLE" where
  "mt_emit evs s = s\<lparr>mt_Log := mt_Log s @ evs\<rparr>"

definition upd_Cell :: "nat \<Rightarrow> (MAC_ENTRY \<Rightarrow> MAC_ENTRY) \<Rightarrow> MAC_TABLE \<Rightarrow> MAC_TABLE" where
  "upd_Cell i f s = s\<lparr>mt_Content := (mt_Content s)[i := f (mt_Content s ! i)]\<rparr>"

text \<open>An entry after \<^verbatim>\<open>NdisZeroMemory\<close>.\<close>

definition zero_entry :: MAC_ENTRY where
  "zero_entry = \<lparr>we_Addr = replicate 6 0, we_EntryType = ENTRY_NONE, we_apidx = 0, we_Aid = 0, we_AuthMode = 0, we_WepStatus = 0,
     we_Sst = 0, we_WpaState = 0, we_GTKState = 0, we_PortSecured = 0, we_PrivacyFilter = 0, we_R_Counter = replicate 8 0,
     we_ANonce = replicate 32 0, we_SNonce = replicate 32 0, we_PTK = replicate 64 0, we_PairwiseKey = cipher_key_zero,
     we_ReTryCounter = 0, we_PMKID_CacheIdx = 0, we_EnqueueEapolStartTimerRunning = 0,
     mt_pNext = None, mt_HdrAddr1 = replicate 6 0, mt_HdrAddr2 = replicate 6 0, mt_HdrAddr3 = replicate 6 0, mt_AuthState = 0,
     mt_CapabilityInfo = 0, mt_PsMode = 0, mt_PsQIdleCount = 0, mt_NoDataIdleCount = 0, mt_AssocDeadLine = 0,
     mt_ContinueTxFailCnt = 0, mt_TimeStamp_toTxRing = 0, mt_PsQueue = 0, mt_RSNIE_Len = 0, mt_CMTimerRunning = False,
     mt_bIAmBadAtheros = False, mt_MaxSupportedRate = 0, mt_CurrTxRate = 0\<rparr>"

section \<open>Walks along a chain\<close>

text \<open>The loop of \<^verbatim>\<open>MacTableLookup\<close>; the result is the pointer it returns.\<close>

partial_function (option) find_loop :: "MAC_ENTRY list \<Rightarrow> bytes \<Rightarrow> nat option \<Rightarrow> nat option option" where
  [code]: "find_loop C pAddr p =
    (if p = None then Some None
     else if \<not> the p < length C then None
     else if we_EntryType (C ! the p) = ENTRY_NONE \<or> we_Addr (C ! the p) = pAddr then Some p
     else find_loop C pAddr (mt_pNext (C ! the p)))"

text \<open>\<^verbatim>\<open>while (pCurrEntry->pNext != NULL)\<close>: the last cell of a chain.\<close>

partial_function (option) tail_loop :: "MAC_ENTRY list \<Rightarrow> nat \<Rightarrow> nat option" where
  [code]: "tail_loop C i =
    (if \<not> i < length C then None
     else if mt_pNext (C ! i) = None then Some i
     else tail_loop C (the (mt_pNext (C ! i))))"

text \<open>The search for a cell and its predecessor in \<^verbatim>\<open>MacTableDeleteEntry\<close>; the result says whether it was found.\<close>

partial_function (option) probe_loop :: "MAC_ENTRY list \<Rightarrow> nat \<Rightarrow> nat option \<Rightarrow> nat \<Rightarrow> (bool \<times> nat option) option" where
  [code]: "probe_loop C pEntry prev probe =
    (if probe = pEntry then Some (True, prev)
     else if \<not> probe < length C then None
     else if mt_pNext (C ! probe) = None then Some (False, Some probe)
     else probe_loop C pEntry (Some probe) (the (mt_pNext (C ! probe))))"

definition bucket_append :: "nat \<Rightarrow> nat \<Rightarrow> MAC_TABLE \<Rightarrow> MAC_TABLE option" where
  "bucket_append HashIdx pEntry s =
    (case mt_Hash s ! HashIdx of
       None \<Rightarrow> Some (s\<lparr>mt_Hash := (mt_Hash s)[HashIdx := Some pEntry]\<rparr>)
     | Some j \<Rightarrow> do {
         l \<leftarrow> tail_loop (mt_Content s) j;
         Some (upd_Cell l (\<lambda>e. e\<lparr>mt_pNext := Some pEntry\<rparr>) s)
       })"

definition bucket_unlink :: "nat \<Rightarrow> nat \<Rightarrow> MAC_TABLE \<Rightarrow> MAC_TABLE option" where
  "bucket_unlink HashIdx pEntry s =
    (case mt_Hash s ! HashIdx of
       None \<Rightarrow> Some s
     | Some j \<Rightarrow> do {
         (found, prev) \<leftarrow> probe_loop (mt_Content s) pEntry None j;
         let next = mt_pNext (mt_Content s ! pEntry);
         Some (if \<not> found then s
               else case prev of
                 None \<Rightarrow> s\<lparr>mt_Hash := (mt_Hash s)[HashIdx := next]\<rparr>
               | Some p \<Rightarrow> upd_Cell p (\<lambda>e. e\<lparr>mt_pNext := next\<rparr>) s)
       })"

section \<open>Operations\<close>

text \<open>\<^verbatim>\<open>MacTableLookup\<close> on the chained cells; the handshakes see the chains as lists.\<close>

definition MacTableFind :: "MAC_TABLE \<Rightarrow> bytes \<Rightarrow> nat option option" where
  "MacTableFind s pAddr = find_loop (mt_Content s) pAddr (mt_Hash s ! MAC_ADDR_HASH_INDEX pAddr)"

definition FirstWcid :: "MAC_TABLE \<Rightarrow> nat" where
  "FirstWcid s = (if mt_Infra s then 2 else 1)"

text \<open>The entry that \<^verbatim>\<open>MacTableInsertEntry\<close> writes to cell \<open>i\<close>.  With \<open>CleanAll\<close> the two rates are set and then wiped with the rest.\<close>

definition new_entry :: "MAC_TABLE \<Rightarrow> nat \<Rightarrow> bytes \<Rightarrow> nat \<Rightarrow> bool \<Rightarrow> bool \<Rightarrow> MAC_ENTRY" where
  "new_entry s i pAddr apidx OpModeSta CleanAll =
    (let e = zero_entry;
         e = (if CleanAll then zero_entry else e);
         e = e\<lparr>we_EntryType := ENTRY_CLIENT, mt_bIAmBadAtheros := False\<rparr>;
         e = e\<lparr>mt_CMTimerRunning := False, we_EnqueueEapolStartTimerRunning := 0, mt_RSNIE_Len := 0,
               we_R_Counter := replicate 8 0, we_ReTryCounter := 0, we_apidx := apidx,
               we_AuthMode := mt_AuthMode s, we_WepStatus := mt_WepStatus s, we_PrivacyFilter := Ndis802_11PrivFilterAcceptAll,
               we_GTKState := 0, we_PortSecured := WPA_802_1X_PORT_NOT_SECURED, we_PMKID_CacheIdx := ENTRY_NOT_FOUND,
               we_Addr := pAddr, mt_HdrAddr1 := pAddr\<rparr>;
         e = (if OpModeSta then e\<lparr>mt_HdrAddr2 := mt_CurrentAddress s, mt_HdrAddr3 := pAddr\<rparr> else e)
     in e\<lparr>we_Sst := 0, mt_AuthState := 0, we_Aid := i, mt_CapabilityInfo := 0, mt_PsMode := 0, mt_PsQIdleCount := 0,
          mt_NoDataIdleCount := 0, mt_AssocDeadLine := MAC_TABLE_ASSOC_TIMEOUT, mt_ContinueTxFailCnt := 0,
          mt_TimeStamp_toTxRing := 0, mt_PsQueue := 0\<rparr>)"

definition MacTableInsertEntry :: "MAC_TABLE \<Rightarrow> bytes \<Rightarrow> nat \<Rightarrow> bool \<Rightarrow> bool \<Rightarrow> (nat option \<times> MAC_TABLE) option" where
  "MacTableInsertEntry s pAddr apidx OpModeSta CleanAll =
    (if unat (mt_Size s) \<ge> MAX_LEN_OF_MAC_TABLE_STA then Some (None, s)
     else case find (\<lambda>i. we_EntryType (mt_Content s ! i) = ENTRY_NONE) [FirstWcid s..<MAX_LEN_OF_MAC_TABLE_STA] of
       None \<Rightarrow> Some (None, s)
     | Some i \<Rightarrow> do {
         let s = mt_emit [TimerCancel RetryTimer i, TimerCancel EnqueueStartForPSKTimer i] s;
         let s = upd_Cell i (\<lambda>_. new_entry s i pAddr apidx OpModeSta CleanAll) s;
         let s = s\<lparr>mt_Size := mt_Size s + 1\<rparr>;
         let s = mt_emit [TimerInit EnqueueStartForPSKTimer i, RemovePairwiseKey i, StaEntryAdd i pAddr] s;
         s \<leftarrow> bucket_append (MAC_ADDR_HASH_INDEX pAddr) i s;
         Some (Some i, s)
       })"

text \<open>What \<^verbatim>\<open>MacTableDeleteEntry\<close> does to a matching entry.\<close>

definition delete_matched :: "nat \<Rightarrow> bytes \<Rightarrow> MAC_TABLE \<Rightarrow> MAC_TABLE option" where
  "delete_matched wcid pAddr s = do {
     let pEntry = mt_Content s ! wcid;
     let s = mt_emit [StaEntryMacReset wcid, BASessionsDown (we_Aid pEntry)] s;
     s \<leftarrow> bucket_unlink (MAC_ADDR_HASH_INDEX pAddr) wcid s;
     let s = (if we_EnqueueEapolStartTimerRunning pEntry \<noteq> 0
              then upd_Cell wcid (\<lambda>e. e\<lparr>we_EnqueueEapolStartTimerRunning := 0\<rparr>)
                     (mt_emit [TimerCancel EnqueueStartForPSKTimer wcid] s)
              else s);
     let s = mt_emit [TimerRelease EnqueueStartForPSKTimer wcid] s;
     let s = upd_Cell wcid (\<lambda>e. e\<lparr>we_Addr := replicate 6 0, we_EntryType := ENTRY_NONE\<rparr>) s;
     Some (s\<lparr>mt_Size := mt_Size s - 1\<rparr>)
   }"

definition MacTableDeleteEntry :: "MAC_TABLE \<Rightarrow> nat \<Rightarrow> bytes \<Rightarrow> (bool \<times> MAC_TABLE) option" where
  "MacTableDeleteEntry s wcid pAddr =
    (if wcid \<ge> MAX_LEN_OF_MAC_TABLE_STA then Some (False, s)
     else do {
       let pEntry = mt_Content s ! wcid;
       s \<leftarrow> (if we_EntryType pEntry = ENTRY_NONE then Some s
             else do {
               let s = mt_emit [TimerCancel RetryTimer wcid, TimerCancel EnqueueStartForPSKTimer wcid] s;
               if we_Addr pEntry = pAddr then delete_matched wcid pAddr s else Some s
             });
       Some (True, if mt_Size s = 0 then mt_emit [UpdateProtect] (s\<lparr>mt_OperaionMode := 0\<rparr>) else s)
     })"

text \<open>The body of the loop of \<^verbatim>\<open>MacTableReset\<close>, and the loop.\<close>

definition reset_one :: "nat \<Rightarrow> MAC_TABLE \<Rightarrow> MAC_TABLE option" where
  "reset_one i s = do {
     let s = (if we_EntryType (mt_Content s ! i) = ENTRY_CLIENT
              then upd_Cell i (\<lambda>e. e\<lparr>we_EnqueueEapolStartTimerRunning := 0\<rparr>)
                     (mt_emit [TimerRelease EnqueueStartForPSKTimer i] s)
              else s);
     map_option snd (MacTableDeleteEntry s i (we_Addr (mt_Content s ! i)))
   }"

definition MacTableReset :: "MAC_TABLE \<Rightarrow> MAC_TABLE option" where
  "MacTableReset s = fold (\<lambda>i r. Option.bind r (reset_one i)) [1..<MAX_LEN_OF_MAC_TABLE_STA] (Some s)"

text \<open>\<^verbatim>\<open>StaAddMacTableEntry\<close> for the entry of the access point: in an infrastructure network it is appended to its chain.\<close>

definition StaAddMacTableEntry_link :: "MAC_TABLE \<Rightarrow> bytes \<Rightarrow> MAC_TABLE option" where
  "StaAddMacTableEntry_link s Bssid =
    (if \<not> mt_Infra s then Some s
     else do {
       s \<leftarrow> bucket_append (MAC_ADDR_HASH_INDEX Bssid) BSSID_WCID s;
       let s = upd_Cell BSSID_WCID (\<lambda>e. e\<lparr>we_Addr := Bssid, we_Aid := BSSID_WCID, we_EntryType := ENTRY_CLIENT\<rparr>) s;
       Some (s\<lparr>mt_Size := mt_Size s + 1\<rparr>)
     })"

text \<open>\<^verbatim>\<open>LinkDown\<close>: the loop over the clients, and later the wiping of the entry of the access point.\<close>

definition linkdown_one :: "nat \<Rightarrow> MAC_TABLE \<Rightarrow> MAC_TABLE option" where
  "linkdown_one i s =
    (let e = mt_Content s ! i
     in if we_EntryType e = ENTRY_CLIENT then map_option snd (MacTableDeleteEntry s (we_Aid e) (we_Addr e)) else Some s)"

definition LinkDown_clients :: "MAC_TABLE \<Rightarrow> MAC_TABLE option" where
  "LinkDown_clients s = fold (\<lambda>i r. Option.bind r (linkdown_one i)) [1..<MAX_LEN_OF_MAC_TABLE_STA] (Some s)"

definition LinkDown_wipe :: "MAC_TABLE \<Rightarrow> MAC_TABLE" where
  "LinkDown_wipe s = upd_Cell BSSID_WCID (\<lambda>_. zero_entry\<lparr>we_PortSecured := mt_PortSecured s\<rparr>) s"

end
