(* ===== verification/PeerTable.thy ===== *)
theory PeerTable
  imports MacTable
begin

text \<open>
  The table of peers is a finite map from addresses to entries: every chain is a list without repetition
  of exactly the used entries with its hash value, every walk along it ends, and insertion, deletion, reset,
  association and loss of the link are update, removal and clearing of that map.
\<close>

section \<open>Chains\<close>

fun path :: "MAC_ENTRY list \<Rightarrow> nat option \<Rightarrow> nat list \<Rightarrow> bool" where
  "path C p [] \<longleftrightarrow> p = None"
| "path C p (i # is) \<longleftrightarrow> p = Some i \<and> i < length C \<and> path C (mt_pNext (C ! i)) is"

text \<open>An entry without its link.\<close>

definition strip :: "MAC_ENTRY \<Rightarrow> MAC_ENTRY" where
  "strip e = e\<lparr>mt_pNext := None\<rparr>"

lemma path_cong:
  assumes "length C' = length C" "\<And>i. i \<in> set is \<Longrightarrow> mt_pNext (C' ! i) = mt_pNext (C ! i)"
  shows "path C' p is = path C p is"
  using assms by (induction "is" arbitrary: p) auto

lemma path_bound: "path C p is \<Longrightarrow> i \<in> set is \<Longrightarrow> i < length C"
  by (induction "is" arbitrary: p) auto

lemma path_last: "path C p (is @ [i]) \<Longrightarrow> mt_pNext (C ! i) = None"
  by (induction "is" arbitrary: p) auto

lemma find_loop_path:
  "path C p is \<Longrightarrow> find_loop C A p = Some (find (\<lambda>i. we_EntryType (C ! i) = ENTRY_NONE \<or> we_Addr (C ! i) = A) is)"
  by (induction "is" arbitrary: p) (simp_all add: find_loop.simps [of C A])

lemma tail_loop_path: "path C (Some i) (i # is) \<Longrightarrow> tail_loop C i = Some (last (i # is))"
proof (induction "is" arbitrary: i)
  case Nil
  then show ?case by (simp add: tail_loop.simps [of C i])
next
  case (Cons j js)
  then show ?case by (simp add: tail_loop.simps [of C i])
qed

lemma probe_loop_path:
  "path C (Some j) (xs @ e # ys) \<Longrightarrow> e \<notin> set xs
    \<Longrightarrow> probe_loop C e prev j = Some (True, if xs = [] then prev else Some (last xs))"
proof (induction xs arbitrary: j prev)
  case Nil
  then show ?case by (simp add: probe_loop.simps [of C e])
next
  case (Cons x xs)
  from Cons.prems have j: "j = x" "x < length C" "path C (mt_pNext (C ! x)) (xs @ e # ys)" "x \<noteq> e" by auto
  obtain k where k: "mt_pNext (C ! x) = Some k" using j(3) by (cases xs) auto
  have "probe_loop C e (Some x) k = Some (True, if xs = [] then Some x else Some (last xs))"
    using Cons.IH [of k "Some x"] Cons.prems j(3) k by auto
  then show ?case using j k by (simp add: probe_loop.simps [of C e prev])
qed

lemma path_append:
  assumes "path C p is" "distinct is" "i \<notin> set is" "i < length C" "mt_pNext (C ! i) = None"
  shows "if is = [] then path C (Some i) [i]
    else path (C[last is := (C ! last is)\<lparr>mt_pNext := Some i\<rparr>]) p (is @ [i])"
  using assms
proof (induction "is" arbitrary: p)
  case (Cons a js)
  show ?case
  proof (cases "js = []")
    case False
    then have "last js \<noteq> a" using Cons.prems by auto
    then show ?thesis using Cons False by auto
  qed (use Cons.prems in auto)
qed simp

lemma path_unlink:
  assumes "path C p (xs @ e # ys)" "distinct (xs @ e # ys)"
  shows "if xs = [] then path C (mt_pNext (C ! e)) ys
    else path (C[last xs := (C ! last xs)\<lparr>mt_pNext := mt_pNext (C ! e)\<rparr>]) p (xs @ ys)"
  using assms
proof (induction xs arbitrary: p)
  case (Cons a zs)
  show ?case
  proof (cases "zs = []")
    case True
    have "path (C[a := (C ! a)\<lparr>mt_pNext := mt_pNext (C ! e)\<rparr>]) q ys = path C q ys" for q
      by (rule path_cong) (use Cons.prems in \<open>auto simp: nth_list_update\<close>)
    then show ?thesis using Cons.prems True by auto
  next
    case False
    then have "last zs \<noteq> a" using Cons.prems by auto
    then show ?thesis using Cons False by auto
  qed
qed simp

section \<open>The invariant\<close>

abbreviation cell_addr :: "MAC_TABLE \<Rightarrow> nat \<Rightarrow> bytes" where
  "cell_addr s i \<equiv> we_Addr (mt_Content s ! i)"

definition used :: "MAC_TABLE \<Rightarrow> nat \<Rightarrow> bool" where
  "used s i \<longleftrightarrow> i < 32 \<and> we_EntryType (mt_Content s ! i) \<noteq> ENTRY_NONE"

definition bucket :: "MAC_TABLE \<Rightarrow> nat \<Rightarrow> nat set" where
  "bucket s h = {i. used s i \<and> MAC_ADDR_HASH_INDEX (cell_addr s i) = h}"

definition chains_ok :: "MAC_TABLE \<Rightarrow> (nat \<Rightarrow> nat list) \<Rightarrow> bool" where
  "chains_ok s cs \<longleftrightarrow> (\<forall>h < 256. path (mt_Content s) (mt_Hash s ! h) (cs h) \<and> distinct (cs h) \<and> set (cs h) = bucket s h)"

definition cells_ok :: "MAC_TABLE \<Rightarrow> bool" where
  "cells_ok s \<longleftrightarrow> length (mt_Hash s) = 256 \<and> length (mt_Content s) = 32 \<and> \<not> used s 0 \<and> inj_on (cell_addr s) (Collect (used s))
    \<and> (\<forall>i. used s i \<longrightarrow> we_Aid (mt_Content s ! i) = i \<and> we_EntryType (mt_Content s ! i) = ENTRY_CLIENT)
    \<and> unat (mt_Size s) = card (Collect (used s))"

definition peer_table_inv :: "MAC_TABLE \<Rightarrow> bool" where
  "peer_table_inv s \<longleftrightarrow> cells_ok s \<and> (\<exists>cs. chains_ok s cs)"

text \<open>The map the table stands for.\<close>

definition peers :: "MAC_TABLE \<Rightarrow> bytes \<Rightarrow> nat option" where
  "peers s A = find (\<lambda>i. used s i \<and> cell_addr s i = A) [0..<32]"

lemma hash_index_bound [simp]: "MAC_ADDR_HASH_INDEX A < 256"
  using unsigned_less [of "A ! 0 XOR A ! 1 XOR A ! 2 XOR A ! 3 XOR A ! 4 XOR A ! 5", where ?'a = nat] by (simp add: MAC_ADDR_HASH_INDEX_def)

lemma find_unique:
  assumes "\<And>hit other. P hit \<Longrightarrow> hit \<in> set xs \<Longrightarrow> P other \<Longrightarrow> other \<in> set xs \<Longrightarrow> hit = other"
  shows "find P xs = Some i \<longleftrightarrow> i \<in> set xs \<and> P i"
  using assms by (induction xs) (auto split: if_splits)

lemma option_eqI:
  assumes "\<And>i. x = Some i \<longleftrightarrow> y = Some i"
  shows "x = y"
proof (cases y)
  case None
  then show ?thesis using assms [of "the x"] by (cases x) simp_all
next
  case (Some i)
  then show ?thesis using assms [of i] by simp
qed

lemma peers_iff:
  assumes "cells_ok s"
  shows "peers s A = Some i \<longleftrightarrow> used s i \<and> cell_addr s i = A"
proof -
  have "i = j" if "used s i" "used s j" "cell_addr s i = cell_addr s j" for i j
    using assms that by (auto simp: cells_ok_def inj_on_def)
  then have "peers s A = Some i \<longleftrightarrow> i \<in> set [0..<32] \<and> used s i \<and> cell_addr s i = A"
    unfolding peers_def by (intro find_unique) blast
  then show ?thesis by (auto simp: used_def)
qed

lemma peers_None: "cells_ok s \<Longrightarrow> peers s A = None \<longleftrightarrow> (\<forall>i. used s i \<longrightarrow> cell_addr s i \<noteq> A)"
  using peers_iff [of s A] by (metis not_None_eq)

lemma peers_eqI:
  assumes "cells_ok s" "\<And>A i. f A = Some i \<longleftrightarrow> used s i \<and> cell_addr s i = A"
  shows "peers s = f"
proof (rule ext)
  fix A
  show "peers s A = f A" using assms(2) [of A] peers_iff [OF assms(1), of A] by (intro option_eqI) simp
qed

lemma finite_used [simp]: "finite (Collect (used s))"
  by (rule finite_subset [of _ "{..<32}"]) (auto simp: used_def)

lemma used_card:
  assumes "\<not> used s 0"
  shows "card (Collect (used s)) \<le> 31"
proof -
  have "card (Collect (used s)) \<le> card {1..<32 :: nat}"
  proof (rule card_mono)
    have "i \<noteq> 0" if "used s i" for i using that assms by (cases i) auto
    then show "Collect (used s) \<subseteq> {1..<32}" by (auto simp: Suc_le_eq) (simp add: used_def)
  qed simp
  then show ?thesis by simp
qed

text \<open>A walk finds what the map holds.\<close>

lemma find_used:
  assumes "peer_table_inv s"
  shows "MacTableFind s A = Some (peers s A)"
proof -
  from assms obtain cs where c: "cells_ok s" and cs: "chains_ok s cs" by (auto simp: peer_table_inv_def)
  let ?h = "MAC_ADDR_HASH_INDEX A"
  have p: "path (mt_Content s) (mt_Hash s ! ?h) (cs ?h)" "set (cs ?h) = bucket s ?h" using cs by (auto simp: chains_ok_def)
  let ?P = "\<lambda>i. we_EntryType (mt_Content s ! i) = ENTRY_NONE \<or> cell_addr s i = A"
  have u: "i \<in> set (cs ?h) \<Longrightarrow> used s i \<and> \<not> we_EntryType (mt_Content s ! i) = ENTRY_NONE" for i
    using p(2) by (simp add: bucket_def) (simp add: used_def)
  have inj: "used s i \<Longrightarrow> used s j \<Longrightarrow> cell_addr s i = cell_addr s j \<Longrightarrow> i = j" for i j
    using c by (simp add: cells_ok_def inj_on_def)
  have "find ?P (cs ?h) = Some i \<longleftrightarrow> i \<in> set (cs ?h) \<and> ?P i" for i
    by (rule find_unique) (metis u inj)
  moreover have "i \<in> set (cs ?h) \<and> ?P i \<longleftrightarrow> used s i \<and> cell_addr s i = A" for i
    using u [of i] p(2) by (auto simp: bucket_def)
  ultimately have "find ?P (cs ?h) = Some i \<longleftrightarrow> peers s A = Some i" for i using peers_iff [OF c, of A i] by blast
  then have "find ?P (cs ?h) = peers s A" by (rule option_eqI)
  then show ?thesis unfolding MacTableFind_def find_loop_path [OF p(1)] by simp
qed

section \<open>Linking and unlinking\<close>

text \<open>The chains as disjoint lists, whatever their cells hold.\<close>

definition linked :: "MAC_TABLE \<Rightarrow> (nat \<Rightarrow> nat list) \<Rightarrow> bool" where
  "linked s cs \<longleftrightarrow> length (mt_Hash s) = 256 \<and> length (mt_Content s) = 32
    \<and> (\<forall>h < 256. path (mt_Content s) (mt_Hash s ! h) (cs h) \<and> distinct (cs h))
    \<and> (\<forall>h < 256. \<forall>k < 256. h \<noteq> k \<longrightarrow> set (cs h) \<inter> set (cs k) = {})"

text \<open>Only links differ.\<close>

definition relinked :: "MAC_TABLE \<Rightarrow> MAC_TABLE \<Rightarrow> bool" where
  "relinked s s' \<longleftrightarrow> (\<exists>H C. s' = s\<lparr>mt_Hash := H, mt_Content := C\<rparr> \<and> map strip C = map strip (mt_Content s))"

lemma linkedD:
  assumes "linked s cs" "h < 256"
  shows "path (mt_Content s) (mt_Hash s ! h) (cs h)" "distinct (cs h)" "i \<in> set (cs h) \<Longrightarrow> i < 32"
  using assms path_bound [of "mt_Content s" "mt_Hash s ! h" "cs h" i] by (auto simp: linked_def)

lemma strip_update [simp]:
  "map strip (C[i := (C ! i)\<lparr>mt_pNext := p\<rparr>]) = map strip C"
proof (cases "i < length C")
  case True
  then have "(map strip C)[i := strip (C ! i)] = map strip C" using list_update_id [of "map strip C" i] by simp
  then show ?thesis by (simp add: map_update strip_def)
qed (simp add: list_update_beyond)

lemma linked_frame:
  assumes l: "linked s cs" and len: "length H = 256" "length C = 32"
    and h: "h < 256" "path C (H ! h) js" "distinct js"
    and js: "\<And>k. k < 256 \<Longrightarrow> k \<noteq> h \<Longrightarrow> set js \<inter> set (cs k) = {}"
    and rest: "\<And>k. k \<noteq> h \<Longrightarrow> H ! k = mt_Hash s ! k"
      "\<And>k j. k < 256 \<Longrightarrow> k \<noteq> h \<Longrightarrow> j \<in> set (cs k) \<Longrightarrow> mt_pNext (C ! j) = mt_pNext (mt_Content s ! j)"
  shows "linked (s\<lparr>mt_Hash := H, mt_Content := C\<rparr>) (cs(h := js))"
proof -
  have "path C (H ! k) ((cs(h := js)) k)" if "k < 256" for k
  proof (cases "k = h")
    case False
    have "path C (mt_Hash s ! k) (cs k) = path (mt_Content s) (mt_Hash s ! k) (cs k)"
      by (rule path_cong) (use l len(2) rest(2) [OF that False] in \<open>auto simp: linked_def\<close>)
    then show ?thesis using l that False rest(1) [OF False] by (simp add: linked_def)
  qed (use h in simp)
  moreover have "distinct ((cs(h := js)) k)" if "k < 256" for k using l h(3) that by (simp add: linked_def)
  moreover have "set ((cs(h := js)) k) \<inter> set ((cs(h := js)) m) = {}" if "k < 256" "m < 256" "k \<noteq> m" for k m
    using l js [of k] js [of m] that by (auto simp: linked_def)
  ultimately show ?thesis using len by (simp add: linked_def)
qed

lemma linked_store:
  assumes l: "linked s cs" and h: "h < 256" "m \<in> set (cs h)" "path ((mt_Content s)[m := e]) (mt_Hash s ! h) js" "distinct js"
    and js: "\<And>k. k < 256 \<Longrightarrow> k \<noteq> h \<Longrightarrow> set js \<inter> set (cs k) = {}"
  shows "linked (s\<lparr>mt_Hash := mt_Hash s, mt_Content := (mt_Content s)[m := e]\<rparr>) (cs(h := js))"
proof (rule linked_frame [OF l _ _ h(1,3,4) js])
  fix k j assume k: "k < 256" "k \<noteq> h" "j \<in> set (cs k)"
  then have "set (cs h) \<inter> set (cs k) = {}" using l h(1) by (simp add: linked_def)
  then have "j \<noteq> m" using k(3) h(2) by blast
  then show "mt_pNext ((mt_Content s)[m := e] ! j) = mt_pNext (mt_Content s ! j)" by simp
qed (use l in \<open>simp_all add: linked_def\<close>)

lemma append_ok:
  assumes l: "linked s cs" and h: "h < 256" and i: "i < 32" "\<And>k. k < 256 \<Longrightarrow> i \<notin> set (cs k)" "mt_pNext (mt_Content s ! i) = None"
  obtains s' where "bucket_append h i s = Some s'" "relinked s s'" "linked s' (cs(h := cs h @ [i]))"
proof -
  note p = linkedD [OF l h]
  have len: "length (mt_Hash s) = 256" "length (mt_Content s) = 32" using l by (simp_all add: linked_def)
  have disj: "set (cs h @ [i]) \<inter> set (cs k) = {}" if "k < 256" "k \<noteq> h" for k
    using l h that i(2) [OF that(1)] by (auto simp: linked_def)
  note app = path_append [OF p(1,2) i(2) [OF h], unfolded len, OF i(1,3)]
  show thesis
  proof (cases "mt_Hash s ! h")
    case None
    then have nil: "cs h = []" using p(1) by (cases "cs h") auto
    let ?s = "s\<lparr>mt_Hash := (mt_Hash s)[h := Some i], mt_Content := mt_Content s\<rparr>"
    have "linked ?s (cs(h := cs h @ [i]))"
      by (rule linked_frame [OF l]) (use app nil h len disj in auto)
    moreover have "bucket_append h i s = Some ?s" using None by (simp add: bucket_append_def)
    moreover have "relinked s ?s" unfolding relinked_def by blast
    ultimately show thesis using that by blast
  next
    case (Some j)
    then obtain js where js: "cs h = j # js" using p(1) by (cases "cs h") auto
    let ?C = "(mt_Content s)[last (cs h) := (mt_Content s ! last (cs h))\<lparr>mt_pNext := Some i\<rparr>]"
    let ?s = "s\<lparr>mt_Hash := mt_Hash s, mt_Content := ?C\<rparr>"
    have "path ?C (mt_Hash s ! h) (cs h @ [i])" using app js by auto
    then have "linked ?s (cs(h := cs h @ [i]))"
      by (intro linked_store [OF l h] disj) (use js i(2) [OF h] p(2) in simp_all)
    moreover have "tail_loop (mt_Content s) j = Some (last (cs h))" using tail_loop_path p(1) js Some by simp
    then have "bucket_append h i s = Some ?s" using Some by (simp add: bucket_append_def upd_Cell_def)
    moreover have "relinked s ?s" unfolding relinked_def by (rule exI [of _ "mt_Hash s"], rule exI [of _ ?C]) simp
    ultimately show thesis using that by blast
  qed
qed

lemma unlink_ok:
  assumes l: "linked s cs" and h: "h < 256" and i: "i \<in> set (cs h)"
  obtains s' where "bucket_unlink h i s = Some s'" "relinked s s'" "linked s' (cs(h := remove1 i (cs h)))"
proof -
  note p = linkedD [OF l h]
  have len: "length (mt_Hash s) = 256" "length (mt_Content s) = 32" using l by (simp_all add: linked_def)
  obtain xs ys where xy: "cs h = xs @ i # ys" using i by (meson split_list)
  have d: "distinct (xs @ i # ys)" using p(2) xy by simp
  have rm: "remove1 i (cs h) = xs @ ys" using d unfolding xy by (simp add: remove1_append)
  have disj: "set (xs @ ys) \<inter> set (cs k) = {}" if "k < 256" "k \<noteq> h" for k
    using l h that xy by (fastforce simp: linked_def)
  obtain j where j: "mt_Hash s ! h = Some j" using p(1) xy by (cases xs) auto
  note un = path_unlink [OF p(1) [unfolded xy] d]
  have probe: "probe_loop (mt_Content s) i None j = Some (True, if xs = [] then None else Some (last xs))"
    using probe_loop_path [of "mt_Content s" j xs i ys None] p(1) xy j d by simp
  show thesis
  proof (cases "xs = []")
    case True
    let ?s = "s\<lparr>mt_Hash := (mt_Hash s)[h := mt_pNext (mt_Content s ! i)], mt_Content := mt_Content s\<rparr>"
    have "linked ?s (cs(h := xs @ ys))"
      by (rule linked_frame [OF l]) (use un True h len disj d in auto)
    moreover have "bucket_unlink h i s = Some ?s" using probe j True by (simp add: bucket_unlink_def)
    moreover have "relinked s ?s" unfolding relinked_def by blast
    ultimately show thesis using that rm by auto
  next
    case False
    let ?C = "(mt_Content s)[last xs := (mt_Content s ! last xs)\<lparr>mt_pNext := mt_pNext (mt_Content s ! i)\<rparr>]"
    let ?s = "s\<lparr>mt_Hash := mt_Hash s, mt_Content := ?C\<rparr>"
    have "path ?C (mt_Hash s ! h) (xs @ ys)" using un False by simp
    then have "linked ?s (cs(h := xs @ ys))"
      by (intro linked_store [OF l h] disj) (use False xy d in simp_all)
    moreover have "bucket_unlink h i s = Some ?s" using probe j False by (simp add: bucket_unlink_def upd_Cell_def)
    moreover have "relinked s ?s" unfolding relinked_def by (rule exI [of _ "mt_Hash s"], rule exI [of _ ?C]) simp
    ultimately show thesis using that rm by auto
  qed
qed

section \<open>Adding and removing a peer\<close>

lemma stripD:
  assumes "strip e' = strip e"
  shows "we_Addr e' = we_Addr e" "we_EntryType e' = we_EntryType e" "we_Aid e' = we_Aid e"
    "we_EnqueueEapolStartTimerRunning e' = we_EnqueueEapolStartTimerRunning e"
proof -
  have "we_Addr (strip e) = we_Addr e" "we_EntryType (strip e) = we_EntryType e" "we_Aid (strip e) = we_Aid e"
    "we_EnqueueEapolStartTimerRunning (strip e) = we_EnqueueEapolStartTimerRunning e" for e by (simp_all add: strip_def)
  then show "we_Addr e' = we_Addr e" "we_EntryType e' = we_EntryType e" "we_Aid e' = we_Aid e"
    "we_EnqueueEapolStartTimerRunning e' = we_EnqueueEapolStartTimerRunning e" using assms by metis+
qed

lemma chains_linked: "cells_ok s \<Longrightarrow> chains_ok s cs \<Longrightarrow> linked s cs"
  by (auto simp: linked_def chains_ok_def cells_ok_def bucket_def)

lemma unat_Suc16: "unat (x :: UINT16) < 65535 \<Longrightarrow> unat (x + 1) = Suc (unat x)"
  using unat_add_lem [of x 1] by simp

lemma added:
  assumes c: "cells_ok s" "chains_ok s cs" and i: "i < 32" "i \<noteq> 0" "\<not> used s i" "peers s A = None"
    and l: "linked s' (cs(MAC_ADDR_HASH_INDEX A := cs (MAC_ADDR_HASH_INDEX A) @ [i]))" and n: "mt_Size s' = mt_Size s + 1"
    and e: "\<And>j. j < 32 \<Longrightarrow> j \<noteq> i \<Longrightarrow> strip (mt_Content s' ! j) = strip (mt_Content s ! j)"
      "we_EntryType (mt_Content s' ! i) = ENTRY_CLIENT" "cell_addr s' i = A" "we_Aid (mt_Content s' ! i) = i"
  shows "peer_table_inv s' \<and> peers s' = (peers s)(A \<mapsto> i)"
proof -
  have f: "cell_addr s' j = cell_addr s j" "we_EntryType (mt_Content s' ! j) = we_EntryType (mt_Content s ! j)"
    "we_Aid (mt_Content s' ! j) = we_Aid (mt_Content s ! j)" if "j < 32" "j \<noteq> i" for j
    using stripD [OF e(1) [OF that]] by simp_all
  have u: "used s' j \<longleftrightarrow> used s j \<or> j = i" for j using f [of j] e(2) i(1) by (cases "j = i") (auto simp: used_def)
  have lt: "used s j \<Longrightarrow> j < 32 \<and> j \<noteq> i" for j using i(3) by (auto simp: used_def)
  have new: "used s j \<Longrightarrow> cell_addr s j \<noteq> A" for j using peers_None [OF c(1)] i(4) by blast
  have inj: "inj_on (cell_addr s') (Collect (used s'))"
    using c(1) f(1) lt new e(3) u unfolding inj_on_def cells_ok_def by (metis mem_Collect_eq)
  have "Collect (used s') = insert i (Collect (used s))" using u by auto
  then have "card (Collect (used s')) = Suc (card (Collect (used s)))" using i(3) by simp
  moreover have "unat (mt_Size s) \<le> 31" using used_card [of s] c(1) by (simp add: cells_ok_def)
  then have "unat (mt_Size s') = Suc (unat (mt_Size s))" unfolding n by (intro unat_Suc16) simp
  ultimately have "unat (mt_Size s') = card (Collect (used s'))" using c(1) by (simp add: cells_ok_def)
  moreover have "used s' j \<longrightarrow> we_Aid (mt_Content s' ! j) = j \<and> we_EntryType (mt_Content s' ! j) = ENTRY_CLIENT" for j
    using c(1) f(2,3) lt e(2,4) u unfolding cells_ok_def by metis
  ultimately have ok: "cells_ok s'" using inj l c(1) u [of 0] i(2) by (simp add: cells_ok_def linked_def)
  have b: "bucket s' k = (if k = MAC_ADDR_HASH_INDEX A then insert i (bucket s k) else bucket s k)" for k
    using u f(1) lt e(3) by (auto simp: bucket_def)
  have "chains_ok s' (cs(MAC_ADDR_HASH_INDEX A := cs (MAC_ADDR_HASH_INDEX A) @ [i]))"
    using l c(2) b unfolding chains_ok_def linked_def by simp
  then have "peer_table_inv s'" using ok by (auto simp: peer_table_inv_def)
  moreover have "peers s' = (peers s)(A \<mapsto> i)"
    by (rule peers_eqI [OF ok]) (use u f(1) lt new e(3) i(3) peers_iff [OF c(1)] in \<open>auto split: if_splits\<close>)
  ultimately show ?thesis ..
qed

lemma removed:
  assumes c: "cells_ok s" "chains_ok s cs" and i: "used s i"
    and l: "linked s' (cs(MAC_ADDR_HASH_INDEX (cell_addr s i) := remove1 i (cs (MAC_ADDR_HASH_INDEX (cell_addr s i)))))"
    and n: "mt_Size s' = mt_Size s - 1"
    and e: "\<And>j. j < 32 \<Longrightarrow> j \<noteq> i \<Longrightarrow> strip (mt_Content s' ! j) = strip (mt_Content s ! j)"
      "we_EntryType (mt_Content s' ! i) = ENTRY_NONE"
  shows "peer_table_inv s' \<and> peers s' = (peers s)(cell_addr s i := None) \<and> (\<forall>j. used s' j \<longleftrightarrow> used s j \<and> j \<noteq> i)"
proof -
  let ?h = "MAC_ADDR_HASH_INDEX (cell_addr s i)"
  have f: "cell_addr s' j = cell_addr s j" "we_EntryType (mt_Content s' ! j) = we_EntryType (mt_Content s ! j)"
    "we_Aid (mt_Content s' ! j) = we_Aid (mt_Content s ! j)" if "j < 32" "j \<noteq> i" for j
    using stripD [OF e(1) [OF that]] by simp_all
  have u: "used s' j \<longleftrightarrow> used s j \<and> j \<noteq> i" for j using f [of j] e(2) by (cases "j = i") (auto simp: used_def)
  have lt: "used s j \<Longrightarrow> j < 32" for j by (simp add: used_def)
  have inj: "used s j \<Longrightarrow> used s k \<Longrightarrow> cell_addr s j = cell_addr s k \<Longrightarrow> j = k" for j k
    using c(1) by (simp add: cells_ok_def inj_on_def)
  have inj': "inj_on (cell_addr s') (Collect (used s'))"
    using inj f(1) lt u unfolding inj_on_def by (metis mem_Collect_eq)
  have "Collect (used s') = Collect (used s) - {i}" using u by auto
  then have "card (Collect (used s')) = card (Collect (used s)) - 1" using i by simp
  moreover have "0 < card (Collect (used s))" using i by (auto simp: card_gt_0_iff)
  then have "1 \<le> mt_Size s" using c(1) by (simp add: cells_ok_def word_le_nat_alt Suc_le_eq)
  then have "unat (mt_Size s') = unat (mt_Size s) - 1" unfolding n by (simp add: unat_sub)
  ultimately have "unat (mt_Size s') = card (Collect (used s'))" using c(1) by (simp add: cells_ok_def)
  moreover have "used s' j \<longrightarrow> we_Aid (mt_Content s' ! j) = j \<and> we_EntryType (mt_Content s' ! j) = ENTRY_CLIENT" for j
    using c(1) f(2,3) lt u unfolding cells_ok_def by metis
  ultimately have ok: "cells_ok s'" using inj' l c(1) u [of 0] by (simp add: cells_ok_def linked_def)
  have b: "bucket s' k = bucket s k - {i}" for k using u f(1) lt by (auto simp: bucket_def)
  have "i \<notin> bucket s k" if "k \<noteq> ?h" for k using that by (simp add: bucket_def)
  then have "chains_ok s' (cs(?h := remove1 i (cs ?h)))"
    using l c(2) b unfolding chains_ok_def linked_def by simp
  then have "peer_table_inv s'" using ok by (auto simp: peer_table_inv_def)
  moreover have "peers s' = (peers s)(cell_addr s i := None)"
    by (rule peers_eqI [OF ok]) (use u f(1) lt inj i peers_iff [OF c(1)] in \<open>auto split: if_splits\<close>)
  ultimately show ?thesis using u by blast
qed

section \<open>The operations\<close>

lemma mt_sels [simp]:
  "mt_Hash (mt_emit evs s) = mt_Hash s" "mt_Content (mt_emit evs s) = mt_Content s" "mt_Size (mt_emit evs s) = mt_Size s"
  "mt_Infra (mt_emit evs s) = mt_Infra s" "mt_Hash (upd_Cell i f s) = mt_Hash s" "mt_Size (upd_Cell i f s) = mt_Size s"
  "mt_Infra (upd_Cell i f s) = mt_Infra s" "mt_PortSecured (mt_emit evs s) = mt_PortSecured s"
  "mt_PortSecured (upd_Cell i f s) = mt_PortSecured s"
  "mt_Content (upd_Cell i f s) = (mt_Content s)[i := f (mt_Content s ! i)]"
  by (simp_all add: mt_emit_def upd_Cell_def)

lemma new_entry_emit [simp]: "new_entry (mt_emit evs s) i A x m c = new_entry s i A x m c"
  by (simp add: new_entry_def mt_emit_def Let_def)

lemma strip_new_entry [simp]: "strip (new_entry s i A x m c) = new_entry s i A x m c"
  by (simp add: strip_def new_entry_def zero_entry_def Let_def)

lemma new_entry_sels [simp]:
  "we_EntryType (new_entry s i A x m c) = ENTRY_CLIENT" "we_Addr (new_entry s i A x m c) = A"
  "we_Aid (new_entry s i A x m c) = i" "mt_pNext (new_entry s i A x m c) = None"
  by (simp_all add: new_entry_def zero_entry_def Let_def)

lemma table_cong:
  assumes "mt_Hash s' = mt_Hash s" "mt_Content s' = mt_Content s" "mt_Size s' = mt_Size s"
  shows "peer_table_inv s' = peer_table_inv s" "peers s' = peers s" "used s' = used s"
proof -
  show u: "used s' = used s" using assms by (simp add: used_def fun_eq_iff)
  then have "bucket s' = bucket s" using assms by (simp add: bucket_def fun_eq_iff)
  then show "peer_table_inv s' = peer_table_inv s"
    using assms u by (simp add: peer_table_inv_def cells_ok_def chains_ok_def)
  show "peers s' = peers s" using assms u by (simp add: peers_def fun_eq_iff)
qed

lemma linked_cong: "mt_Hash s' = mt_Hash s \<Longrightarrow> mt_Content s' = mt_Content s \<Longrightarrow> linked s' cs = linked s cs"
  by (simp add: linked_def)

lemma linked_cell:
  assumes "linked s cs" "\<And>k. k < 256 \<Longrightarrow> i \<in> set (cs k) \<Longrightarrow> mt_pNext (f (mt_Content s ! i)) = mt_pNext (mt_Content s ! i)"
  shows "linked (upd_Cell i f s) cs"
proof -
  have "path (mt_Content (upd_Cell i f s)) (mt_Hash s ! k) (cs k) = path (mt_Content s) (mt_Hash s ! k) (cs k)" if "k < 256" for k
  proof (rule path_cong)
    fix j assume "j \<in> set (cs k)"
    then show "mt_pNext (mt_Content (upd_Cell i f s) ! j) = mt_pNext (mt_Content s ! j)"
      using assms(2) [OF that] by (cases "j = i"; cases "i < length (mt_Content s)") (simp_all add: list_update_beyond)
  qed simp
  then show ?thesis using assms(1) by (simp add: linked_def)
qed

lemma relinkedD:
  assumes "relinked s s'"
  shows "mt_Size s' = mt_Size s" "mt_Infra s' = mt_Infra s" "length (mt_Content s') = length (mt_Content s)"
    "mt_PortSecured s' = mt_PortSecured s"
    "i < length (mt_Content s) \<Longrightarrow> strip (mt_Content s' ! i) = strip (mt_Content s ! i)"
proof -
  obtain H C where s': "s' = s\<lparr>mt_Hash := H, mt_Content := C\<rparr>" and C: "map strip C = map strip (mt_Content s)"
    using assms by (auto simp: relinked_def)
  have "length C = length (mt_Content s)" using arg_cong [OF C, of length] by simp
  moreover from this have "strip (C ! i) = strip (mt_Content s ! i)" if "i < length (mt_Content s)"
    using arg_cong [OF C, of "\<lambda>xs. xs ! i"] that by simp
  ultimately show "mt_Size s' = mt_Size s" "mt_Infra s' = mt_Infra s" "length (mt_Content s') = length (mt_Content s)"
    "mt_PortSecured s' = mt_PortSecured s"
    "i < length (mt_Content s) \<Longrightarrow> strip (mt_Content s' ! i) = strip (mt_Content s ! i)" using s' by simp_all
qed

lemma free_cell:
  assumes "chains_ok s cs" "\<not> used s i" "k < 256"
  shows "i \<notin> set (cs k)"
  using assms by (auto simp: chains_ok_def bucket_def)

lemma insert_peer:
  assumes inv: "peer_table_inv s" and A: "peers s A = None"
  shows "case find (\<lambda>i. we_EntryType (mt_Content s ! i) = ENTRY_NONE) [FirstWcid s..<32] of
      None \<Rightarrow> MacTableInsertEntry s A x m c = Some (None, s)
    | Some i \<Rightarrow> (\<exists>s'. MacTableInsertEntry s A x m c = Some (Some i, s') \<and> peer_table_inv s' \<and> peers s' = (peers s)(A \<mapsto> i)
        \<and> strip (mt_Content s' ! i) = new_entry s i A x m c \<and> mt_Infra s' = mt_Infra s \<and> \<not> used s i)"
proof -
  obtain cs where c: "cells_ok s" "chains_ok s cs" using inv by (auto simp: peer_table_inv_def)
  have len: "length (mt_Content s) = 32" using c(1) by (simp add: cells_ok_def)
  have n: "\<not> 32 \<le> unat (mt_Size s)" using c(1) used_card [of s] by (simp add: cells_ok_def)
  show ?thesis
  proof (cases "find (\<lambda>i. we_EntryType (mt_Content s ! i) = ENTRY_NONE) [FirstWcid s..<32]")
    case None
    then show ?thesis using n by (simp add: MacTableInsertEntry_def)
  next
    case (Some i)
    then have i: "i \<in> set [FirstWcid s..<32]" "we_EntryType (mt_Content s ! i) = ENTRY_NONE" by (auto simp: find_Some_iff)
    then have u: "\<not> used s i" "i < 32" "i \<noteq> 0" by (auto simp: used_def FirstWcid_def split: if_splits)
    let ?s = "upd_Cell i (\<lambda>_. new_entry s i A x m c) s"
    let ?t = "mt_emit [TimerInit EnqueueStartForPSKTimer i, RemovePairwiseKey i, StaEntryAdd i A]
      ((upd_Cell i (\<lambda>_. new_entry s i A x m c) (mt_emit [TimerCancel RetryTimer i, TimerCancel EnqueueStartForPSKTimer i] s))
        \<lparr>mt_Size := mt_Size s + 1\<rparr>)"
    have "linked ?s cs" by (rule linked_cell [OF chains_linked [OF c]]) (use free_cell [OF c(2) u(1)] in blast)
    then have l: "linked ?t cs" by (simp add: linked_def)
    obtain s' where s': "bucket_append (MAC_ADDR_HASH_INDEX A) i ?t = Some s'" "relinked ?t s'"
      "linked s' (cs(MAC_ADDR_HASH_INDEX A := cs (MAC_ADDR_HASH_INDEX A) @ [i]))"
      by (rule append_ok [OF l, of "MAC_ADDR_HASH_INDEX A" i]) (use u(2) free_cell [OF c(2) u(1)] len in simp_all)
    note r = relinkedD [OF s'(2)]
    have e: "strip (mt_Content s' ! i) = new_entry s i A x m c"
      using r(5) [of i] u(2) len by simp
    then have e': "strip (mt_Content s' ! i) = strip (new_entry s i A x m c)" by simp
    have "peer_table_inv s' \<and> peers s' = (peers s)(A \<mapsto> i)"
    proof (rule added [OF c u(2,3,1) A s'(3)])
      show "we_EntryType (mt_Content s' ! i) = ENTRY_CLIENT" "cell_addr s' i = A" "we_Aid (mt_Content s' ! i) = i"
        unfolding stripD [OF e'] by simp_all
      show "strip (mt_Content s' ! j) = strip (mt_Content s ! j)" if "j < 32" "j \<noteq> i" for j
        using r(5) [of j] that len by simp
      show "mt_Size s' = mt_Size s + 1" using r(1) by simp
    qed
    moreover have "MacTableInsertEntry s A x m c = Some (Some i, s')"
      unfolding MacTableInsertEntry_def Some using n s'(1) by simp
    moreover have "mt_Infra s' = mt_Infra s" using r(2) by simp
    ultimately show ?thesis unfolding Some option.case using e u(1) by blast
  qed
qed

text \<open>A deletion with the right address.\<close>

lemma delete_matched_peer:
  assumes inv: "peer_table_inv s" and w: "used s w"
  shows "\<exists>s'. delete_matched w (cell_addr s w) s = Some s' \<and> peer_table_inv s' \<and> peers s' = (peers s)(cell_addr s w := None)
    \<and> (\<forall>j. used s' j \<longleftrightarrow> used s j \<and> j \<noteq> w) \<and> mt_Infra s' = mt_Infra s \<and> mt_PortSecured s' = mt_PortSecured s"
proof -
  obtain cs where c: "cells_ok s" "chains_ok s cs" using inv by (auto simp: peer_table_inv_def)
  let ?h = "MAC_ADDR_HASH_INDEX (cell_addr s w)"
  let ?s = "mt_emit [StaEntryMacReset w, BASessionsDown (we_Aid (mt_Content s ! w))] s"
  have len: "length (mt_Content s) = 32" using c(1) by (simp add: cells_ok_def)
  have l: "linked ?s cs" using chains_linked [OF c] by (simp add: linked_def)
  have "w \<in> set (cs ?h)" using c(2) w by (simp add: chains_ok_def bucket_def)
  then obtain t where t: "bucket_unlink ?h w ?s = Some t" "relinked ?s t" "linked t (cs(?h := remove1 w (cs ?h)))"
    using unlink_ok [OF l, of ?h w] by auto
  note r = relinkedD [OF t(2)]
  let ?f = "\<lambda>e. e\<lparr>we_EnqueueEapolStartTimerRunning := 0\<rparr>" and ?g = "\<lambda>e. e\<lparr>we_Addr := replicate 6 0, we_EntryType := ENTRY_NONE\<rparr>"
  define t1 where "t1 = (if we_EnqueueEapolStartTimerRunning (mt_Content s ! w) \<noteq> 0
    then upd_Cell w ?f (mt_emit [TimerCancel EnqueueStartForPSKTimer w] t) else t)"
  define t2 where "t2 = upd_Cell w ?g (mt_emit [TimerRelease EnqueueStartForPSKTimer w] t1)"
  have l1: "linked t1 (cs(?h := remove1 w (cs ?h)))"
    unfolding t1_def using t(3) linked_cell [of "mt_emit [TimerCancel EnqueueStartForPSKTimer w] t" _ w ?f]
    by (simp add: linked_cong [of "mt_emit _ t" t])
  have l2: "linked t2 (cs(?h := remove1 w (cs ?h)))"
    unfolding t2_def by (rule linked_cell) (use l1 in \<open>simp_all add: linked_cong [of "mt_emit _ t1" t1]\<close>)
  have n: "mt_Size t2 = mt_Size s" "mt_Infra t2 = mt_Infra s" "mt_PortSecured t2 = mt_PortSecured s"
    using r by (simp_all add: t1_def t2_def)
  have e: "strip (mt_Content t2 ! j) = strip (mt_Content s ! j)" if "j < 32" "j \<noteq> w" for j
    using that r(5) [of j] len by (simp add: t1_def t2_def)
  have "we_EntryType (mt_Content t2 ! w) = ENTRY_NONE" using w r(3) len by (simp add: t1_def t2_def used_def)
  then have "peer_table_inv (t2\<lparr>mt_Size := mt_Size t2 - 1\<rparr>) \<and> peers (t2\<lparr>mt_Size := mt_Size t2 - 1\<rparr>) = (peers s)(cell_addr s w := None)
      \<and> (\<forall>j. used (t2\<lparr>mt_Size := mt_Size t2 - 1\<rparr>) j \<longleftrightarrow> used s j \<and> j \<noteq> w)"
    by (intro removed [OF c w]) (use l2 n e in \<open>simp_all add: linked_cong [of "t2\<lparr>mt_Size := _\<rparr>" t2]\<close>)
  moreover have "delete_matched w (cell_addr s w) s = Some (t2\<lparr>mt_Size := mt_Size t2 - 1\<rparr>)"
    using t(1) by (simp add: delete_matched_def t1_def t2_def Let_def)
  ultimately show ?thesis using n by simp
qed

lemma delete_peer:
  assumes inv: "peer_table_inv s"
  shows "\<exists>b s'. MacTableDeleteEntry s w A = Some (b, s') \<and> (b \<longleftrightarrow> w < 32) \<and> peer_table_inv s'
    \<and> peers s' = (if peers s A = Some w then (peers s)(A := None) else peers s)
    \<and> (\<forall>j. used s' j \<longleftrightarrow> used s j \<and> \<not> (j = w \<and> cell_addr s w = A)) \<and> mt_Infra s' = mt_Infra s \<and> mt_PortSecured s' = mt_PortSecured s"
proof -
  have c: "cells_ok s" using inv by (auto simp: peer_table_inv_def)
  have p: "peers s A = Some w \<longleftrightarrow> used s w \<and> cell_addr s w = A" using peers_iff [OF c] by blast
  let ?e = "mt_emit [TimerCancel RetryTimer w, TimerCancel EnqueueStartForPSKTimer w] s"
  note cong = table_cong [of ?e s, simplified]
  define last_part where "last_part t = (if mt_Size t = 0 then mt_emit [UpdateProtect] (t\<lparr>mt_OperaionMode := 0\<rparr>) else t)" for t
  have lp: "peer_table_inv (last_part t) = peer_table_inv t" "peers (last_part t) = peers t" "used (last_part t) = used t"
    "mt_Infra (last_part t) = mt_Infra t" "mt_PortSecured (last_part t) = mt_PortSecured t" for t
    using table_cong [of "last_part t" t] by (simp_all add: last_part_def)
  show ?thesis
  proof (cases "used s w \<and> cell_addr s w = A")
    case True
    then obtain t where t: "delete_matched w A ?e = Some t" "peer_table_inv t" "peers t = (peers s)(A := None)"
      "\<forall>j. used t j \<longleftrightarrow> used s j \<and> j \<noteq> w" "mt_Infra t = mt_Infra s" "mt_PortSecured t = mt_PortSecured s"
      using delete_matched_peer [of ?e w] cong inv by auto
    then have "MacTableDeleteEntry s w A = Some (True, last_part t)"
      using True by (simp add: MacTableDeleteEntry_def used_def last_part_def)
    moreover have "w < 32" using True by (simp add: used_def)
    ultimately show ?thesis using t p lp True by auto
  next
    case False
    show ?thesis
    proof (cases "w < 32")
      case w: True
      have "MacTableDeleteEntry s w A = Some (True, last_part (if used s w then ?e else s))"
        using False w by (auto simp: MacTableDeleteEntry_def used_def last_part_def Let_def)
      then show ?thesis using inv p lp cong False w by auto
    qed (use inv p False in \<open>auto simp: MacTableDeleteEntry_def used_def\<close>)
  qed
qed

text \<open>A loop that deletes the entries one after the other.\<close>

lemma clear_loop:
  assumes step: "\<And>i s. 1 \<le> i \<Longrightarrow> i < 32 \<Longrightarrow> peer_table_inv s \<Longrightarrow> \<exists>s'. f i s = Some s' \<and> peer_table_inv s'
      \<and> (\<forall>j. used s' j \<longleftrightarrow> used s j \<and> j \<noteq> i) \<and> mt_Infra s' = mt_Infra s \<and> mt_PortSecured s' = mt_PortSecured s"
    and inv: "peer_table_inv s" and n: "n \<le> 32"
  shows "\<exists>s'. fold (\<lambda>i r. Option.bind r (f i)) [1..<n] (Some s) = Some s' \<and> peer_table_inv s'
    \<and> (\<forall>j. used s' j \<longleftrightarrow> used s j \<and> \<not> (1 \<le> j \<and> j < n)) \<and> mt_Infra s' = mt_Infra s \<and> mt_PortSecured s' = mt_PortSecured s"
  using n
proof (induction n)
  case 0
  then show ?case using inv by simp
next
  case (Suc n)
  then obtain t where t: "fold (\<lambda>i r. Option.bind r (f i)) [1..<n] (Some s) = Some t" "peer_table_inv t"
    "\<forall>j. used t j \<longleftrightarrow> used s j \<and> \<not> (1 \<le> j \<and> j < n)" "mt_Infra t = mt_Infra s" "mt_PortSecured t = mt_PortSecured s" by auto
  show ?case
  proof (cases "1 \<le> n")
    case True
    obtain u where "f n t = Some u" "peer_table_inv u" "\<forall>j. used u j \<longleftrightarrow> used t j \<and> j \<noteq> n" "mt_Infra u = mt_Infra t"
      "mt_PortSecured u = mt_PortSecured t"
      using step [of n t] True Suc.prems t(2) by auto
    then show ?thesis using t True by (auto simp: less_Suc_eq)
  next
    case False
    then show ?thesis using inv by simp
  qed
qed

text \<open>A table without a used entry.\<close>

lemma cleared:
  assumes "peer_table_inv s" "\<forall>j. used s j \<longleftrightarrow> used t j \<and> \<not> (1 \<le> j \<and> j < 32)" "peer_table_inv t"
  shows "peers s = Map.empty" "mt_Size s = 0" "\<not> used s j"
proof -
  have c: "cells_ok s" "cells_ok t" using assms by (auto simp: peer_table_inv_def)
  have z: "\<not> used t 0" using c(2) by (simp add: cells_ok_def)
  have lt: "used t j \<Longrightarrow> j < 32" for j by (simp add: used_def)
  have "\<not> used s j" for j using assms(2) z lt [of j] by (cases "j = 0") auto
  then show u: "\<not> used s j" for j by blast
  then show "peers s = Map.empty" using peers_None [OF c(1)] by (auto simp: fun_eq_iff)
  have "unat (mt_Size s) = 0" using c(1) u by (simp add: cells_ok_def)
  then show "mt_Size s = 0" by (rule unsigned_eq_0_iff [THEN iffD1])
qed

lemma reset_one_ok:
  assumes "peer_table_inv s" "i < 32"
  shows "\<exists>s'. reset_one i s = Some s' \<and> peer_table_inv s' \<and> (\<forall>j. used s' j \<longleftrightarrow> used s j \<and> j \<noteq> i)
    \<and> mt_Infra s' = mt_Infra s \<and> mt_PortSecured s' = mt_PortSecured s"
proof -
  let ?f = "\<lambda>e. e\<lparr>we_EnqueueEapolStartTimerRunning := 0\<rparr>"
  define t where "t = (if we_EntryType (mt_Content s ! i) = ENTRY_CLIENT
    then upd_Cell i ?f (mt_emit [TimerRelease EnqueueStartForPSKTimer i] s) else s)"
  have f: "we_Addr (mt_Content t ! j) = we_Addr (mt_Content s ! j)" "we_EntryType (mt_Content t ! j) = we_EntryType (mt_Content s ! j)"
    "we_Aid (mt_Content t ! j) = we_Aid (mt_Content s ! j)" "mt_pNext (mt_Content t ! j) = mt_pNext (mt_Content s ! j)" for j
    by (cases "j = i"; cases "i < length (mt_Content s)"; simp add: t_def list_update_beyond)+
  have g: "mt_Hash t = mt_Hash s" "mt_Size t = mt_Size s" "mt_Infra t = mt_Infra s" "mt_PortSecured t = mt_PortSecured s"
    "length (mt_Content t) = length (mt_Content s)" by (simp_all add: t_def)
  have u: "used t = used s" "bucket t = bucket s" using f by (simp_all add: used_def bucket_def fun_eq_iff)
  have "path (mt_Content t) p is = path (mt_Content s) p is" for p "is" by (rule path_cong) (simp_all add: g f)
  then have "peer_table_inv t" using assms(1) u f g by (simp add: peer_table_inv_def cells_ok_def chains_ok_def)
  then obtain b t' where t': "MacTableDeleteEntry t i (we_Addr (mt_Content t ! i)) = Some (b, t')" "peer_table_inv t'"
    "\<forall>j. used t' j \<longleftrightarrow> used t j \<and> \<not> (j = i \<and> cell_addr t i = cell_addr t i)"
    "mt_Infra t' = mt_Infra t" "mt_PortSecured t' = mt_PortSecured t"
    using delete_peer [of t i "cell_addr t i"] by auto
  have "reset_one i s = map_option snd (MacTableDeleteEntry t i (we_Addr (mt_Content t ! i)))"
    unfolding reset_one_def t_def [symmetric] Let_def by simp
  then have "reset_one i s = Some t'" using t'(1) by simp
  then show ?thesis using t' u g by simp
qed

lemma linkdown_one_ok:
  assumes "peer_table_inv s" "i < 32"
  shows "\<exists>s'. linkdown_one i s = Some s' \<and> peer_table_inv s' \<and> (\<forall>j. used s' j \<longleftrightarrow> used s j \<and> j \<noteq> i)
    \<and> mt_Infra s' = mt_Infra s \<and> mt_PortSecured s' = mt_PortSecured s"
proof (cases "used s i")
  case True
  have c: "we_Aid (mt_Content s ! i) = i" "we_EntryType (mt_Content s ! i) = ENTRY_CLIENT"
    using assms(1) True by (auto simp: peer_table_inv_def cells_ok_def)
  obtain b s' where s': "MacTableDeleteEntry s i (cell_addr s i) = Some (b, s')" "peer_table_inv s'"
    "\<forall>j. used s' j \<longleftrightarrow> used s j \<and> \<not> (j = i \<and> cell_addr s i = cell_addr s i)"
    "mt_Infra s' = mt_Infra s" "mt_PortSecured s' = mt_PortSecured s"
    using delete_peer [OF assms(1), of i "cell_addr s i"] by auto
  then show ?thesis using c by (simp add: linkdown_one_def)
next
  case False
  then have "we_EntryType (mt_Content s ! i) = ENTRY_NONE" using assms(2) by (simp add: used_def)
  then have "linkdown_one i s = Some s" by (simp add: linkdown_one_def Let_def)
  then show ?thesis using assms(1) False by auto
qed

lemma reset_clears:
  assumes "peer_table_inv s"
  shows "\<exists>s'. MacTableReset s = Some s' \<and> peer_table_inv s' \<and> peers s' = Map.empty \<and> mt_Size s' = 0 \<and> mt_Infra s' = mt_Infra s"
proof -
  obtain s' where s': "MacTableReset s = Some s'" "peer_table_inv s'" "\<forall>j. used s' j \<longleftrightarrow> used s j \<and> \<not> (1 \<le> j \<and> j < 32)"
    "mt_Infra s' = mt_Infra s"
    using clear_loop [of reset_one, OF reset_one_ok assms, of 32] unfolding MacTableReset_def by auto
  then show ?thesis using cleared [OF s'(2,3) assms] by blast
qed

lemma wipe_ok:
  assumes "peer_table_inv s" "\<not> used s 1"
  shows "peer_table_inv (LinkDown_wipe s)" "peers (LinkDown_wipe s) = peers s" "mt_Size (LinkDown_wipe s) = mt_Size s"
    "mt_Infra (LinkDown_wipe s) = mt_Infra s" "mt_pNext (mt_Content (LinkDown_wipe s) ! 1) = None" "used (LinkDown_wipe s) = used s"
proof -
  let ?t = "LinkDown_wipe s"
  obtain cs where c: "cells_ok s" "chains_ok s cs" using assms(1) by (auto simp: peer_table_inv_def)
  have len: "length (mt_Content s) = 32" using c(1) by (simp add: cells_ok_def)
  have one: "mt_Content ?t = (mt_Content s)[1 := zero_entry\<lparr>we_PortSecured := mt_PortSecured s\<rparr>]" by (simp add: LinkDown_wipe_def)
  have same: "mt_Hash ?t = mt_Hash s" "mt_Size ?t = mt_Size s" by (simp_all add: LinkDown_wipe_def)
  have l: "linked ?t cs" unfolding LinkDown_wipe_def
    by (rule linked_cell [OF chains_linked [OF c]]) (use free_cell [OF c(2) assms(2)] in blast)
  have u: "used ?t j = used s j" for j
    using assms(2) len by (cases "j = 1") (auto simp: used_def one zero_entry_def)
  have f: "used s j \<Longrightarrow> mt_Content ?t ! j = mt_Content s ! j" for j
    using assms(2) by (cases "j = 1") (auto simp: one)
  show "used ?t = used s" using u by (simp add: fun_eq_iff)
  then have "cells_ok ?t" using c(1) f same one len by (auto simp: cells_ok_def inj_on_def)
  moreover have "bucket ?t = bucket s" using u f by (auto simp: bucket_def fun_eq_iff)
  then have "chains_ok ?t cs" using l c(2) by (simp add: chains_ok_def linked_def)
  ultimately show "peer_table_inv ?t" by (auto simp: peer_table_inv_def)
  show "peers ?t = peers s"
    by (rule peers_eqI [OF \<open>cells_ok ?t\<close>, symmetric, THEN sym]) (use peers_iff [OF c(1)] u f in auto)
  show "mt_Size ?t = mt_Size s" "mt_Infra ?t = mt_Infra s" "mt_pNext (mt_Content ?t ! 1) = None"
    using len by (simp_all add: LinkDown_wipe_def zero_entry_def)
qed

text \<open>The loss of the link leaves an empty table, with the cell of the access point unlinked.\<close>

lemma linkdown_clears:
  assumes "peer_table_inv s"
  shows "\<exists>s'. map_option LinkDown_wipe (LinkDown_clients s) = Some s' \<and> peer_table_inv s' \<and> peers s' = Map.empty \<and> mt_Size s' = 0
    \<and> mt_Infra s' = mt_Infra s \<and> mt_pNext (mt_Content s' ! 1) = None"
proof -
  obtain t where t: "LinkDown_clients s = Some t" "peer_table_inv t" "\<forall>j. used t j \<longleftrightarrow> used s j \<and> \<not> (1 \<le> j \<and> j < 32)"
    "mt_Infra t = mt_Infra s"
    using clear_loop [of linkdown_one, OF linkdown_one_ok assms, of 32] unfolding LinkDown_clients_def by auto
  note cl = cleared [OF t(2,3) assms]
  show ?thesis using wipe_ok [OF t(2) cl(3)] t(1,4) cl(1,2) by simp
qed

lemma associate_ok:
  assumes inv: "peer_table_inv s" and infra: "mt_Infra s" and one: "\<not> used s 1" "mt_pNext (mt_Content s ! 1) = None"
    and A: "peers s Bssid = None"
  shows "\<exists>s'. StaAddMacTableEntry_link s Bssid = Some s' \<and> peer_table_inv s' \<and> peers s' = (peers s)(Bssid \<mapsto> 1)
    \<and> mt_Size s' = mt_Size s + 1 \<and> mt_pNext (mt_Content s' ! 1) = None \<and> mt_Infra s'"
proof -
  obtain cs where c: "cells_ok s" "chains_ok s cs" using inv by (auto simp: peer_table_inv_def)
  have len: "length (mt_Content s) = 32" using c(1) by (simp add: cells_ok_def)
  let ?h = "MAC_ADDR_HASH_INDEX Bssid" and ?f = "\<lambda>e. e\<lparr>we_Addr := Bssid, we_Aid := 1, we_EntryType := ENTRY_CLIENT\<rparr>"
  obtain t where t: "bucket_append ?h 1 s = Some t" "relinked s t" "linked t (cs(?h := cs ?h @ [1]))"
    by (rule append_ok [OF chains_linked [OF c], of ?h 1]) (use free_cell [OF c(2) one(1)] one(2) in simp_all)
  note r = relinkedD [OF t(2)]
  have nx: "mt_pNext (mt_Content t ! 1) = None"
    using linkedD(1) [OF t(3), of ?h] path_last [of "mt_Content t" _ "cs ?h" 1] by simp
  let ?s = "(upd_Cell 1 ?f t)\<lparr>mt_Size := mt_Size t + 1\<rparr>"
  have "linked (upd_Cell 1 ?f t) (cs(?h := cs ?h @ [1]))" by (rule linked_cell [OF t(3)]) simp
  then have "linked ?s (cs(?h := cs ?h @ [1]))" by (simp add: linked_def)
  then have "peer_table_inv ?s \<and> peers ?s = (peers s)(Bssid \<mapsto> 1)"
    by (intro added [OF c _ _ one(1) A]) (use r len in simp_all)
  moreover have "StaAddMacTableEntry_link s Bssid = Some ?s" using t(1) infra by (simp add: StaAddMacTableEntry_link_def)
  ultimately show ?thesis using r infra nx len by simp
qed

section \<open>A finite map as the contract of the table\<close>

text \<open>What happens to a table of peers: a station is heard, a peer leaves, everybody leaves.\<close>

datatype ('a, 'w) peer_op = Meet 'a | Leave 'w 'a | Clear

text \<open>The contract: \<open>W\<close> are the entries that can be given out.\<close>

inductive map_step :: "'w set \<Rightarrow> ('a, 'w) peer_op \<Rightarrow> ('a \<rightharpoonup> 'w) \<Rightarrow> ('a \<rightharpoonup> 'w) \<Rightarrow> bool" for W where
  known: "a \<in> dom m \<Longrightarrow> map_step W (Meet a) m m"
| fresh: "a \<notin> dom m \<Longrightarrow> w \<in> W \<Longrightarrow> w \<notin> ran m \<Longrightarrow> map_step W (Meet a) m (m(a \<mapsto> w))"
| no_room: "a \<notin> dom m \<Longrightarrow> W \<subseteq> ran m \<Longrightarrow> map_step W (Meet a) m m"
| left: "m a = Some w \<Longrightarrow> map_step W (Leave w a) m (m(a := None))"
| stranger: "m a \<noteq> Some w \<Longrightarrow> map_step W (Leave w a) m m"
| all_left: "map_step W Clear m Map.empty"

inductive map_steps :: "'w set \<Rightarrow> ('a, 'w) peer_op list \<Rightarrow> ('a \<rightharpoonup> 'w) \<Rightarrow> ('a \<rightharpoonup> 'w) \<Rightarrow> bool" for W where
  none: "map_steps W [] m m"
| more: "map_step W op m m' \<Longrightarrow> map_steps W ops m' m'' \<Longrightarrow> map_steps W (op # ops) m m''"

locale peer_map =
  fixes invar :: "'s \<Rightarrow> bool" and W :: "'w set" and assigned :: "'s \<Rightarrow> 'a \<Rightarrow> 'w option"
    and look :: "'s \<Rightarrow> 'a \<Rightarrow> 'w option option" and join :: "'s \<Rightarrow> 'a \<Rightarrow> ('w option \<times> 's) option"
    and leave :: "'s \<Rightarrow> 'w \<Rightarrow> 'a \<Rightarrow> 's option" and clear :: "'s \<Rightarrow> 's option"
  assumes look_spec: "invar s \<Longrightarrow> look s a = Some (assigned s a)"
    and join_spec: "invar s \<Longrightarrow> assigned s a = None \<Longrightarrow>
      (\<exists>w s'. join s a = Some (Some w, s') \<and> invar s' \<and> w \<in> W \<and> w \<notin> ran (assigned s) \<and> assigned s' = (assigned s)(a \<mapsto> w))
      \<or> (join s a = Some (None, s) \<and> W \<subseteq> ran (assigned s))"
    and leave_spec: "invar s \<Longrightarrow> \<exists>s'. leave s w a = Some s' \<and> invar s'
      \<and> assigned s' = (if assigned s a = Some w then (assigned s)(a := None) else assigned s)"
    and clear_spec: "invar s \<Longrightarrow> \<exists>s'. clear s = Some s' \<and> invar s' \<and> assigned s' = Map.empty"
begin

fun perform :: "('a, 'w) peer_op \<Rightarrow> 's \<Rightarrow> 's option" where
  "perform (Meet a) s = Option.bind (look s a) (\<lambda>p. if p = None then map_option snd (join s a) else Some s)"
| "perform (Leave w a) s = leave s w a"
| "perform Clear s = clear s"

lemma perform_step:
  assumes "invar s"
  shows "\<exists>s'. perform op s = Some s' \<and> invar s' \<and> map_step W op (assigned s) (assigned s')"
proof (cases op)
  case (Meet a)
  show ?thesis
  proof (cases "assigned s a")
    case None
    then show ?thesis using join_spec [OF assms None] look_spec [OF assms, of a] assms
      by (auto simp: Meet intro!: fresh no_room)
  next
    case (Some w)
    then show ?thesis using look_spec [OF assms, of a] assms by (auto simp: Meet intro!: known)
  qed
next
  case (Leave w a)
  then show ?thesis using leave_spec [OF assms, of w a] by (auto intro: left stranger)
next
  case Clear
  then show ?thesis using clear_spec [OF assms] by (auto intro: all_left)
qed

lemma perform_all:
  assumes "invar s"
  shows "\<exists>s'. fold (\<lambda>op r. Option.bind r (perform op)) ops (Some s) = Some s' \<and> invar s' \<and> map_steps W ops (assigned s) (assigned s')"
  using assms
proof (induction ops arbitrary: s)
  case Nil
  then show ?case by (auto intro: map_steps.none)
next
  case (Cons op ops)
  obtain t where t: "perform op s = Some t" "invar t" "map_step W op (assigned s) (assigned t)"
    using perform_step [OF Cons.prems] by blast
  then show ?case using Cons.IH [OF t(2)] by (auto intro: map_steps.more)
qed

end

text \<open>The entries that an insertion may hand out.\<close>

definition wcids :: "bool \<Rightarrow> nat set" where
  "wcids infra = {if infra then 2 else 1..<32}"

lemma ran_peers: "cells_ok s \<Longrightarrow> ran (peers s) = Collect (used s)"
  using peers_iff [of s] by (auto simp: ran_def)

lemma join_table:
  assumes "peer_table_inv s" "peers s A = None"
  shows "(\<exists>w s'. MacTableInsertEntry s A x m c = Some (Some w, s') \<and> peer_table_inv s' \<and> mt_Infra s' = mt_Infra s
      \<and> w \<in> wcids (mt_Infra s) \<and> w \<notin> ran (peers s) \<and> peers s' = (peers s)(A \<mapsto> w))
    \<or> (MacTableInsertEntry s A x m c = Some (None, s) \<and> wcids (mt_Infra s) \<subseteq> ran (peers s))"
proof (cases "find (\<lambda>i. we_EntryType (mt_Content s ! i) = ENTRY_NONE) [FirstWcid s..<32]")
  case None
  then have "\<forall>i \<in> wcids (mt_Infra s). used s i" by (auto simp: find_None_iff wcids_def FirstWcid_def used_def split: if_splits)
  then show ?thesis using insert_peer [OF assms, of x m c] None ran_peers [of s] assms(1) by (auto simp: peer_table_inv_def)
next
  case (Some i)
  then have "i \<in> set [FirstWcid s..<32]" by (metis find_Some_iff nth_mem)
  then have "i \<in> wcids (mt_Infra s)" by (auto simp: wcids_def FirstWcid_def)
  then show ?thesis using insert_peer [OF assms, of x m c] Some ran_peers [of s] assms(1) by (auto simp: peer_table_inv_def)
qed

interpretation mac: peer_map "\<lambda>s. peer_table_inv s \<and> mt_Infra s = infra" "wcids infra" peers MacTableFind
  "\<lambda>s A. MacTableInsertEntry s A 0 True False" "\<lambda>s w A. map_option snd (MacTableDeleteEntry s w A)" MacTableReset for infra
proof
  show "\<exists>s'. map_option snd (MacTableDeleteEntry s w a) = Some s' \<and> (peer_table_inv s' \<and> mt_Infra s' = infra)
      \<and> peers s' = (if peers s a = Some w then (peers s)(a := None) else peers s)"
    if "peer_table_inv s \<and> mt_Infra s = infra" for s w a
    using delete_peer [of s w a] that by fastforce
  show "\<exists>s'. MacTableReset s = Some s' \<and> (peer_table_inv s' \<and> mt_Infra s' = infra) \<and> peers s' = Map.empty"
    if "peer_table_inv s \<and> mt_Infra s = infra" for s
    using reset_clears [of s] that by auto
  show "(\<exists>w s'. MacTableInsertEntry s a 0 True False = Some (Some w, s') \<and> (peer_table_inv s' \<and> mt_Infra s' = infra)
      \<and> w \<in> wcids infra \<and> w \<notin> ran (peers s) \<and> peers s' = (peers s)(a \<mapsto> w))
    \<or> (MacTableInsertEntry s a 0 True False = Some (None, s) \<and> wcids infra \<subseteq> ran (peers s))"
    if "peer_table_inv s \<and> mt_Infra s = infra" "peers s a = None" for s a
    using join_table [of s a 0 True False] that by blast
qed (use find_used in blast)

end
