(* ===== verification/PeerProtocol.thy ===== *)
theory PeerProtocol
  imports PeerTable
begin

text \<open>
  How the station uses its table of peers: stations heard in an ad-hoc network, the entry of the access point while
  roaming, and the view that the handshakes have of the hash chains.
\<close>

section \<open>The users of the table\<close>

text \<open>A beacon in an ad-hoc network: the sender is looked up and, when it is not known, inserted.\<close>

definition adhoc_join :: "MAC_TABLE \<Rightarrow> bytes \<Rightarrow> MAC_TABLE option" where
  "adhoc_join s Addr2 = do {
     pEntry \<leftarrow> MacTableFind s Addr2;
     if pEntry = None then map_option snd (MacTableInsertEntry s Addr2 0 True False) else Some s
   }"

text \<open>An association response: the entry of the previous access point is deleted, then the new one is linked.\<close>

definition assoc_peer :: "MAC_TABLE \<Rightarrow> bytes \<Rightarrow> bytes \<Rightarrow> MAC_TABLE option" where
  "assoc_peer s OldBssid Bssid = do {
     pEntry \<leftarrow> MacTableFind s OldBssid;
     s \<leftarrow> (case pEntry of
             None \<Rightarrow> Some s
           | Some w \<Rightarrow> map_option snd (MacTableDeleteEntry s (we_Aid (mt_Content s ! w)) (we_Addr (mt_Content s ! w))));
     StaAddMacTableEntry_link s Bssid
   }"

fun peer_exec :: "(bytes, nat) peer_op \<Rightarrow> MAC_TABLE \<Rightarrow> MAC_TABLE option" where
  "peer_exec (Meet A) s = adhoc_join s A"
| "peer_exec (Leave w A) s = map_option snd (MacTableDeleteEntry s w A)"
| "peer_exec Clear s = MacTableReset s"

definition peer_run :: "(bytes, nat) peer_op list \<Rightarrow> MAC_TABLE \<Rightarrow> MAC_TABLE option" where
  "peer_run ops s = fold (\<lambda>op r. Option.bind r (peer_exec op)) ops (Some s)"

lemma perform_exec: "mac.perform = peer_exec"
proof (intro ext)
  fix op s show "mac.perform op s = peer_exec op s" by (cases op) (simp_all add: adhoc_join_def)
qed

text \<open>The number of entries is the number of addresses.\<close>

lemma size_dom:
  assumes "peer_table_inv s"
  shows "unat (mt_Size s) = card (dom (peers s))"
proof -
  have c: "cells_ok s" using assms by (simp add: peer_table_inv_def)
  have "dom (peers s) = cell_addr s ` Collect (used s)" using peers_iff [OF c] by (auto simp: dom_def)
  then show ?thesis using c by (simp add: cells_ok_def card_image)
qed

section \<open>The link of a deleted entry\<close>

lemma unlink_next:
  assumes "bucket_unlink h w s = Some s'" "mt_pNext (mt_Content s ! w) = None"
  shows "mt_pNext (mt_Content s' ! w) = None"
proof -
  have "mt_pNext ((mt_Content s)[p := (mt_Content s ! p)\<lparr>mt_pNext := None\<rparr>] ! w) = None" for p
    using assms(2) by (cases "p = w"; cases "p < length (mt_Content s)") (simp_all add: list_update_beyond)
  then show ?thesis using assms by (auto simp: bucket_unlink_def split: option.splits if_splits bind_splits)
qed

lemma delete_next:
  assumes "MacTableDeleteEntry s w A = Some (b, s')" "mt_pNext (mt_Content s ! w) = None" "length (mt_Content s) = 32"
  shows "mt_pNext (mt_Content s' ! w) = None"
proof -
  have "mt_pNext (mt_Content t ! w) = None" if d: "delete_matched w A u = Some t" and u: "mt_Content u = mt_Content s" for t u
  proof -
    let ?u = "mt_emit [StaEntryMacReset w, BASessionsDown (we_Aid (mt_Content u ! w))] u"
    obtain v where v: "bucket_unlink (MAC_ADDR_HASH_INDEX A) w ?u = Some v"
      using d by (auto simp: delete_matched_def Let_def split: bind_splits)
    have "mt_pNext (mt_Content v ! w) = None" by (rule unlink_next [OF v]) (use assms(2) u in simp)
    moreover have "mt_Content t = (mt_Content v)[w := (\<lambda>e. e\<lparr>we_Addr := replicate 6 0, we_EntryType := ENTRY_NONE\<rparr>)
        ((if we_EnqueueEapolStartTimerRunning (mt_Content u ! w) \<noteq> 0
          then (mt_Content v)[w := (mt_Content v ! w)\<lparr>we_EnqueueEapolStartTimerRunning := 0\<rparr>] else mt_Content v) ! w)]"
      using d v by (auto simp: delete_matched_def Let_def split: if_splits)
    ultimately show ?thesis by (cases "w < length (mt_Content v)") (simp_all add: list_update_beyond)
  qed
  then show ?thesis using assms(1,2) by (auto simp: MacTableDeleteEntry_def Let_def split: if_splits bind_splits)
qed

section \<open>The chains as lists\<close>

lemma lookup_chain_find:
  assumes "\<And>i. i \<in> set is \<Longrightarrow> i < length C"
  shows "lookup_chain (map WPA_ENTRY.truncate C) is A = find (\<lambda>i. we_EntryType (C ! i) = ENTRY_NONE \<or> we_Addr (C ! i) = A) is"
  using assms by (induction "is") (auto simp: WPA_ENTRY.truncate_def)

section \<open>Properties\<close>

text \<open>An empty table.\<close>

definition mac_table0 :: "bool \<Rightarrow> MAC_TABLE" where
  "mac_table0 infra = \<lparr>mt_Hash = replicate 256 None, mt_Content = replicate 32 zero_entry, mt_Size = 0, mt_Infra = infra,
     mt_AuthMode = 7, mt_WepStatus = 6, mt_PortSecured = 2, mt_CurrentAddress = [0, 12, 67, 0, 0, 1], mt_OperaionMode = 0, mt_Log = []\<rparr>"

lemma mac_table0:
  "peer_table_inv (mac_table0 infra)" "peers (mac_table0 infra) = Map.empty" "mt_Infra (mac_table0 infra) = infra"
  "mt_pNext (mt_Content (mac_table0 infra) ! 1) = None" "cells_ok (mac_table0 infra)" "chains_ok (mac_table0 infra) (\<lambda>_. [])"
proof -
  have u: "\<not> used (mac_table0 infra) i" for i by (simp add: used_def mac_table0_def zero_entry_def)
  have f: "length (mt_Hash (mac_table0 infra)) = 256" "length (mt_Content (mac_table0 infra)) = 32" "mt_Size (mac_table0 infra) = 0"
    "h < 256 \<Longrightarrow> mt_Hash (mac_table0 infra) ! h = None" for h by (simp_all add: mac_table0_def)
  show c: "cells_ok (mac_table0 infra)" using u f by (auto simp: cells_ok_def inj_on_def)
  show "chains_ok (mac_table0 infra) (\<lambda>_. [])" using u f(4) by (simp add: chains_ok_def bucket_def)
  then show "peer_table_inv (mac_table0 infra)" using c by (auto simp: peer_table_inv_def)
  show "peers (mac_table0 infra) = Map.empty" using peers_None [OF c] u by (auto simp: fun_eq_iff)
qed (simp_all add: mac_table0_def zero_entry_def)

text \<open>C3: the table of peers is a finite map.  From a table that satisfies the invariant (every chain of the hash table a
  list without repetition of exactly the used entries with that hash value, addresses unique, \<^verbatim>\<open>Aid\<close> equal to the
  index, \<^verbatim>\<open>Size\<close> the number of used entries), any sequence of stations heard, peers deleted and resets returns
  (no walk along a chain is endless and none leaves the array), keeps the invariant, and acts on the map from addresses to
  entries as its contract says: a new station gets a free entry as long as there is one, a known one keeps its own,
  a deletion removes the address exactly when entry and address match, a reset removes all.  Afterwards the lookup
  returns what the map holds, and \<^verbatim>\<open>Size\<close> is the number of known addresses.\<close>

theorem peer_table_refines:
  assumes "peer_table_inv s"
  shows "\<exists>s'. peer_run ops s = Some s' \<and> peer_table_inv s' \<and> map_steps (wcids (mt_Infra s)) ops (peers s) (peers s')
    \<and> (\<forall>A. MacTableFind s' A = Some (peers s' A)) \<and> unat (mt_Size s') = card (dom (peers s'))"
proof -
  obtain s' where "peer_run ops s = Some s'" "peer_table_inv s'" "map_steps (wcids (mt_Infra s)) ops (peers s) (peers s')"
    using mac.perform_all [of s "mt_Infra s" ops] assms unfolding perform_exec peer_run_def by blast
  then show ?thesis using find_used size_dom by blast
qed

theorem peer_table_refines_witness:
  "\<exists>s'. peer_run [Meet [0, 0, 0, 0, 0, 1], Meet [0, 0, 0, 0, 1, 0], Leave 1 [0, 0, 0, 0, 0, 1], Meet [0, 0, 0, 0, 2, 3]] (mac_table0 False) = Some s'
    \<and> peer_table_inv s' \<and> map_steps {1..<32} [Meet [0, 0, 0, 0, 0, 1], Meet [0, 0, 0, 0, 1, 0], Leave 1 [0, 0, 0, 0, 0, 1],
        Meet [0, 0, 0, 0, 2, 3]] Map.empty (peers s')
    \<and> MacTableFind s' [0, 0, 0, 0, 0, 1] = Some (peers s' [0, 0, 0, 0, 0, 1])"
proof -
  have "wcids False = {1..<32}" by (simp add: wcids_def)
  then show ?thesis
    using peer_table_refines [OF mac_table0(1), of "[Meet [0, 0, 0, 0, 0, 1], Meet [0, 0, 0, 0, 1, 0], Leave 1 [0, 0, 0, 0, 0, 1],
      Meet [0, 0, 0, 0, 2, 3]]" False] unfolding mac_table0(2,3) by auto
qed





end
