(* ===== verification/Ccmp.thy ===== *)
theory Ccmp
  imports AesModes Tkip
begin

text \<open>
  CCMP, \<^verbatim>\<open>common/cmm_aes.c\<close>: the associated data and the nonce built from the header of a frame, the CCMP
  header, and the software encryption and decryption of a frame body in place.  The buffers are lists; \<open>None\<close> is an access
  outside one.  The memory that \<^verbatim>\<open>RT_AES_Encrypt\<close> allocates is a parameter.
\<close>

abbreviation (input) LEN_CCMP_HDR :: nat where "LEN_CCMP_HDR \<equiv> 8"
abbreviation (input) LEN_CCMP_MIC :: nat where "LEN_CCMP_MIC \<equiv> 8"
abbreviation (input) BTYPE_DATA :: UINT8 where "BTYPE_DATA \<equiv> 2"

section \<open>Associated data, nonce and header\<close>

definition RTMPConstructCCMPAAD :: "bytes \<Rightarrow> bool \<Rightarrow> bool \<Rightarrow> bool \<Rightarrow> bytes \<Rightarrow> bytes \<times> nat" where
  "RTMPConstructCCMPAAD pHdr isDataFrame a4_exists qc_exists aad_hdr =
    (let aad_hdr = aad_hdr[0 := if isDataFrame then pHdr ! 0 AND 0x8f else pHdr ! 0];
         aad_hdr = aad_hdr[1 := pHdr ! 1 AND 0xc7];
         aad_hdr = aad_hdr[1 := aad_hdr ! 1 OR 0x40];
         len = 2;
         aad_hdr = NdisMoveMemory aad_hdr len (take 18 (drop 4 pHdr));
         len = len + 18;
         aad_hdr = aad_hdr[len := pHdr ! 22 AND 0x0f, len + 1 := 0];
         len = len + 2;
         (aad_hdr, len) = (if a4_exists then (NdisMoveMemory aad_hdr len (take 6 (drop 24 pHdr)), len + 6) else (aad_hdr, len))
     in if qc_exists \<and> a4_exists then (aad_hdr[len := pHdr ! 30 AND 0x0f, len + 1 := 0], len + 2)
        else if qc_exists \<and> \<not> a4_exists then (aad_hdr[len := pHdr ! 24 AND 0x0f, len + 1 := 0], len + 2)
        else (aad_hdr, len))"

text \<open>The parameter \<^verbatim>\<open>isMgmtFrame\<close> of the code is not used.\<close>

definition RTMPConstructCCMPNonce :: "bytes \<Rightarrow> bool \<Rightarrow> bool \<Rightarrow> bytes \<Rightarrow> bytes \<Rightarrow> bytes \<times> nat" where
  "RTMPConstructCCMPNonce pHdr a4_exists qc_exists pn nonce_hdr =
    (let nonce_hdr = (if qc_exists \<and> a4_exists then nonce_hdr[0 := pHdr ! 30 AND 0x0f] else nonce_hdr);
         nonce_hdr = (if qc_exists \<and> \<not> a4_exists then nonce_hdr[0 := pHdr ! 24 AND 0x0f] else nonce_hdr);
         n_offset = 1;
         nonce_hdr = NdisMoveMemory nonce_hdr n_offset (take 6 (drop 10 pHdr));
         n_offset = n_offset + 6;
         nonce_hdr = fold (\<lambda>i h. h[n_offset + i := pn ! (5 - i)]) [0..<6] nonce_hdr
     in (nonce_hdr, n_offset + 6))"

definition RTMPConstructCCMPHdr :: "UINT8 \<Rightarrow> bytes \<Rightarrow> bytes \<Rightarrow> bytes" where
  "RTMPConstructCCMPHdr key_idx pn ccmp_hdr =
    (let ccmp_hdr = NdisMoveMemory ccmp_hdr 0 (NdisZeroMemory LEN_CCMP_HDR)
     in ccmp_hdr[0 := pn ! 0, 1 := pn ! 1, 3 := push_bit 6 key_idx OR 0x20, 4 := pn ! 2, 5 := pn ! 3, 6 := pn ! 4, 7 := pn ! 5])"

section \<open>Encryption and decryption\<close>

text \<open>What both directions read from the frame control field: the type, and whether a fourth address and a QoS field are there.\<close>

definition ccmp_frame_type :: "bytes \<Rightarrow> UINT8" where
  "ccmp_frame_type pHdr = drop_bit 2 (pHdr ! 0) AND 3"

definition ccmp_a4_exists :: "bytes \<Rightarrow> bool" where
  "ccmp_a4_exists pHdr \<longleftrightarrow> drop_bit 1 (pHdr ! 1 AND 2) AND (pHdr ! 1 AND 1) \<noteq> 0"

definition ccmp_qc_exists :: "bytes \<Rightarrow> bool" where
  "ccmp_qc_exists pHdr \<longleftrightarrow> ccmp_frame_type pHdr = BTYPE_DATA \<and> drop_bit 4 (pHdr ! 0) AND 0x0f \<in> {8, 9, 10, 11}"

definition ccmp_hdr_len :: "bytes \<Rightarrow> nat" where
  "ccmp_hdr_len pHdr = 24 + (if ccmp_a4_exists pHdr then 6 else 0) + (if ccmp_qc_exists pHdr then 2 else 0)"

definition ccmp_aad :: "bytes \<Rightarrow> bytes \<times> nat" where
  "ccmp_aad pHdr = RTMPConstructCCMPAAD pHdr (ccmp_frame_type pHdr = BTYPE_DATA) (ccmp_a4_exists pHdr) (ccmp_qc_exists pHdr)
     (NdisZeroMemory 30)"

definition ccmp_nonce :: "bytes \<Rightarrow> bytes \<Rightarrow> bytes \<times> nat" where
  "ccmp_nonce pHdr pn = RTMPConstructCCMPNonce pHdr (ccmp_a4_exists pHdr) (ccmp_qc_exists pHdr) pn (NdisZeroMemory 13)"

text \<open>The data is encrypted in place: the code reads each octet before it writes that octet.\<close>

definition RTMPSoftEncryptCCMP :: "AES_CTX_STRUC option \<Rightarrow> bytes \<Rightarrow> bytes \<Rightarrow> bytes \<Rightarrow> bytes \<Rightarrow> nat \<Rightarrow> (bool \<times> bytes) option" where
  "RTMPSoftEncryptCCMP mem pHdr pIV pKey pData DataLen =
    (if length pHdr < 24 \<or> length pHdr < ccmp_hdr_len pHdr \<or> length pData < DataLen + LEN_CCMP_MIC then None
     else
       let out_len = uint_add DataLen 8;
           (aad_hdr, aad_len) = ccmp_aad pHdr;
           (nonce_hdr, nonce_hdr_len) = ccmp_nonce pHdr pIV;
           (rc, pData, out_len) = AES_CCM_Encrypt mem pData DataLen pKey 16 nonce_hdr nonce_hdr_len aad_hdr aad_len LEN_CCMP_MIC
             pData out_len
       in Some (rc = 0, pData))"

text \<open>The plain text is written over the CCMP header, eight octets below the cipher text it is read from: octet \<open>i + 8\<close> is
  read before octet \<open>i\<close> is written, and the code behind the cipher text is read before the loop.\<close>

definition RTMPSoftDecryptCCMP :: "AES_CTX_STRUC option \<Rightarrow> bytes \<Rightarrow> CIPHER_KEY \<Rightarrow> bytes \<Rightarrow> UINT16 \<Rightarrow> (bool \<times> bytes \<times> UINT16) option" where
  "RTMPSoftDecryptCCMP mem pHdr pKey pData DataLen =
    (if ck_KeyLen pKey = 0 then Some (False, pData, DataLen)
     else if length pHdr < 24 \<or> length pHdr < ccmp_hdr_len pHdr \<or> length pData < LEN_CCMP_HDR then None
     else
       let out_len = unat DataLen;
           pn = [pData ! 0, pData ! 1, pData ! 4, pData ! 5, pData ! 6, pData ! 7];
           cipherData = drop LEN_CCMP_HDR pData;
           cipherData_len = uint_sub (unat DataLen) LEN_CCMP_HDR;
           (aad_hdr, aad_len) = ccmp_aad pHdr;
           (nonce_hdr, nonce_hdr_len) = ccmp_nonce pHdr pn
       in if uint_sub cipherData_len LEN_CCMP_MIC \<le> out_len \<and> length cipherData < cipherData_len then None
          else
            let (rc, pData, out_len) = AES_CCM_Decrypt mem cipherData cipherData_len (ck_Key pKey) 16 nonce_hdr nonce_hdr_len
                  aad_hdr aad_len LEN_CCMP_MIC pData out_len
            in if rc \<noteq> 0 then Some (False, pData, DataLen) else Some (True, pData, word_of_nat out_len))"

section \<open>The loops on a shared buffer\<close>

text \<open>The inner loop of both directions when source and destination lie in one buffer, the source \<open>off\<close> octets above.\<close>

primrec xor_shared :: "nat \<Rightarrow> nat \<Rightarrow> bytes \<Rightarrow> bytes \<Rightarrow> bytes" where
  "xor_shared off i [] buf = buf"
| "xor_shared off i (k # ks) buf = xor_shared off (Suc i) ks (buf[i := buf ! (off + i) XOR k])"

lemma length_xor_shared [simp]: "length (xor_shared off i ks buf) = length buf"
  by (induction ks arbitrary: i buf) simp_all

text \<open>It computes what it computes with separate buffers.\<close>

lemma xor_shared_separate:
  assumes "off + i + length ks \<le> length buf"
  shows "xor_shared off i ks buf = NdisMoveMemory buf i (xor_bytes (take (length ks) (drop (off + i) buf)) ks)"
  using assms
proof (induction ks arbitrary: i buf)
  case Nil
  then show ?case by (simp add: NdisMoveMemory_def)
next
  case (Cons k ks)
  let ?b = "buf[i := buf ! (off + i) XOR k]"
  have "drop (off + Suc i) ?b = drop (off + Suc i) buf" by simp
  then have "xor_shared off i (k # ks) buf = NdisMoveMemory ?b (Suc i) (xor_bytes (take (length ks) (drop (off + Suc i) buf)) ks)"
    using Cons.IH [of "Suc i" ?b] Cons.prems by simp
  moreover have "drop (off + i) buf = buf ! (off + i) # drop (off + Suc i) buf"
    using Cons.prems by (simp add: Cons_nth_drop_Suc)
  ultimately show ?case using Cons.prems
    by (simp add: NdisMoveMemory_def xor_bytes_def take_Suc_conv_app_nth upd_conv_take_nth_drop drop_update_cancel)
qed

section \<open>The associated data and the nonce of IEEE 802.11\<close>

text \<open>The fields of IEEE 802.11-2007, 8.3.3.3.2 and 8.3.3.3.3.  In a data frame the three low bits of the subtype are masked.\<close>

definition ieee_aad :: "bytes \<Rightarrow> bytes" where
  "ieee_aad h = [if ccmp_frame_type h = BTYPE_DATA then h ! 0 AND 0x8f else h ! 0, h ! 1 AND 0xc7 OR 0x40]
     @ take 18 (drop 4 h) @ [h ! 22 AND 0x0f, 0]
     @ (if ccmp_a4_exists h then take 6 (drop 24 h) else [])
     @ (if ccmp_qc_exists h then [h ! (if ccmp_a4_exists h then 30 else 24) AND 0x0f, 0] else [])"

definition ieee_nonce :: "bytes \<Rightarrow> bytes \<Rightarrow> bytes" where
  "ieee_nonce h pn = [if ccmp_qc_exists h then h ! (if ccmp_a4_exists h then 30 else 24) AND 0x0f else 0]
     @ take 6 (drop 10 h) @ rev (take 6 pn)"

lemma hdr_len_ge: "24 \<le> ccmp_hdr_len h" by (simp add: ccmp_hdr_len_def)

lemma length_ieee_aad:
  "ccmp_hdr_len h \<le> length h \<Longrightarrow> length (ieee_aad h) = ccmp_hdr_len h - 2"
  by (auto simp: ieee_aad_def ccmp_hdr_len_def split: if_splits)

lemma length_ieee_nonce: "ccmp_hdr_len h \<le> length h \<Longrightarrow> 6 \<le> length pn \<Longrightarrow> length (ieee_nonce h pn) = 13"
  using hdr_len_ge [of h] by (simp add: ieee_nonce_def)

text \<open>Writing consecutive fields into a zeroed buffer.\<close>

definition padded :: "nat \<Rightarrow> bytes \<Rightarrow> bytes" where
  "padded n xs = xs @ replicate (n - length xs) 0"

lemma padded_zero: "NdisZeroMemory n = padded n []"
  by (simp add: padded_def NdisZeroMemory_def)

lemma length_padded [simp]: "length xs \<le> n \<Longrightarrow> length (padded n xs) = n"
  by (simp add: padded_def)

lemma padded_move:
  "length xs + length ys \<le> n \<Longrightarrow> k = length xs \<Longrightarrow> NdisMoveMemory (padded n xs) k ys = padded n (xs @ ys)"
  by (simp add: padded_def NdisMoveMemory_def)

lemma padded_put:
  assumes "length xs < n" "k = length xs"
  shows "(padded n xs)[k := a] = padded n (xs @ [a])"
proof -
  have "n - length xs = Suc (n - length (xs @ [a]))" using assms(1) by simp
  then show ?thesis using assms(2) by (simp add: padded_def list_update_append)
qed

lemma padded_nth: "i < length xs \<Longrightarrow> padded n xs ! i = xs ! i"
  by (simp add: padded_def nth_append)

lemma padded_overwrite: "i < length xs \<Longrightarrow> (padded n xs)[i := a] = padded n (xs[i := a])"
  by (simp add: padded_def list_update_append)

lemma ccmp_aad_ieee:
  assumes "ccmp_hdr_len h \<le> length h"
  shows "ccmp_aad h = (padded 30 (ieee_aad h), length (ieee_aad h))"
proof -
  have len: "24 \<le> length h" "ccmp_a4_exists h \<Longrightarrow> 30 \<le> length h" using assms by (simp_all add: ccmp_hdr_len_def split: if_splits)
  have m: "length (take 18 (drop 4 h)) = 18" "ccmp_a4_exists h \<Longrightarrow> length (take 6 (drop 24 h)) = 6" using len by simp_all
  show ?thesis
    unfolding ccmp_aad_def RTMPConstructCCMPAAD_def Let_def padded_zero
    using m by (cases "ccmp_a4_exists h"; cases "ccmp_qc_exists h")
      (simp_all add: padded_put padded_move padded_nth padded_overwrite ieee_aad_def)
qed

lemma ccmp_nonce_ieee:
  assumes "ccmp_hdr_len h \<le> length h" "6 \<le> length pn"
  shows "ccmp_nonce h pn = (ieee_nonce h pn, 13)"
proof -
  have len: "24 \<le> length h" using assms hdr_len_ge [of h] by simp
  then have m: "length (take 6 (drop 10 h)) = 6" by simp
  have r: "rev (take 6 pn) = [pn ! 5, pn ! 4, pn ! 3, pn ! 2, pn ! 1, pn ! 0]"
    using assms(2) by (auto simp: numeral_eq_Suc Suc_le_length_iff)
  have u: "[0..<6] = [0, 1, 2, 3, 4, 5 :: nat]" by (simp add: upt_rec)
  have z: "padded 13 [] = padded 13 [0]" by (simp add: padded_def eval_nat_numeral)
  have f: "padded 13 xs = xs" if "length xs = 13" for xs using that by (simp add: padded_def)
  have "ccmp_nonce h pn = (padded 13 (ieee_nonce h pn), 13)"
    unfolding ccmp_nonce_def RTMPConstructCCMPNonce_def Let_def padded_zero u z ieee_nonce_def r
    using m by (cases "ccmp_a4_exists h"; cases "ccmp_qc_exists h")
      (simp_all add: padded_put padded_move padded_nth padded_overwrite)
  then show ?thesis using f length_ieee_nonce [OF assms] by simp
qed

section \<open>Round trip\<close>

text \<open>Two headers that a retransmission, a relay of the power-management state or a new sequence number tells apart, and that
  CCMP does not.\<close>

definition ccmp_same :: "bytes \<Rightarrow> bytes \<Rightarrow> bool" where
  "ccmp_same h h' \<longleftrightarrow> length h' = length h \<and> h' ! 0 = h ! 0 \<and> h' ! 1 AND 0x87 = h ! 1 AND 0x87 \<and> take 18 (drop 4 h') = take 18 (drop 4 h)
     \<and> h' ! 22 AND 0x0f = h ! 22 AND 0x0f \<and> drop 24 h' = drop 24 h"

lemma ccmp_same_fields:
  assumes "ccmp_same h h'" "24 \<le> length h"
  shows "ccmp_frame_type h' = ccmp_frame_type h" "ccmp_a4_exists h' = ccmp_a4_exists h" "ccmp_qc_exists h' = ccmp_qc_exists h"
    "ccmp_hdr_len h' = ccmp_hdr_len h" "ieee_aad h' = ieee_aad h" "ieee_nonce h' pn = ieee_nonce h pn"
proof -
  have m: "b' AND 0xc7 OR 0x40 = b AND 0xc7 OR 0x40" "b' AND 2 = b AND 2" "b' AND 1 = b AND 1"
    if "b' AND 0x87 = b AND 0x87" for b b' :: UINT8
  proof -
    have "x AND 0xc7 OR 0x40 = (x AND 0x87) OR 0x40" for x :: UINT8
      by (rule all_bytes [of "\<lambda>x. x AND 0xc7 OR 0x40 = (x AND 0x87) OR 0x40"]) code_simp
    moreover have "x AND 2 = (x AND 0x87) AND 2" "x AND 1 = (x AND 0x87) AND 1" for x :: UINT8
      by (simp_all add: and.assoc)
    ultimately show "b' AND 0xc7 OR 0x40 = b AND 0xc7 OR 0x40" "b' AND 2 = b AND 2" "b' AND 1 = b AND 1" using that by metis+
  qed
  note b = m [of "h' ! 1" "h ! 1"]
  show t: "ccmp_frame_type h' = ccmp_frame_type h" and a4: "ccmp_a4_exists h' = ccmp_a4_exists h"
    and qc: "ccmp_qc_exists h' = ccmp_qc_exists h"
    using assms(1) b by (simp_all add: ccmp_same_def ccmp_frame_type_def ccmp_a4_exists_def ccmp_qc_exists_def)
  then show "ccmp_hdr_len h' = ccmp_hdr_len h" by (simp add: ccmp_hdr_len_def)
  have n: "x ! 24 = drop 24 x ! 0" "x ! 30 = drop 24 x ! 6" if "24 \<le> length x" for x :: bytes using that by simp_all
  have q: "h' ! 24 = h ! 24" "h' ! 30 = h ! 30"
    using assms n [of h] n [of h'] by (simp_all add: ccmp_same_def)
  show "ieee_aad h' = ieee_aad h"
    using assms(1) b t a4 qc q by (simp add: ieee_aad_def ccmp_same_def)
  have "take 6 (drop 6 (take 18 (drop 4 h'))) = take 6 (drop 6 (take 18 (drop 4 h)))" using assms(1) by (simp add: ccmp_same_def)
  then have same10: "take 6 (drop 10 h') = take 6 (drop 10 h)" by (simp add: drop_take)
  show "ieee_nonce h' pn = ieee_nonce h pn"
    using assms(1) a4 qc q same10 by (simp add: ieee_nonce_def)
qed

text \<open>What the two functions compute, in terms of the abstract mode.\<close>

definition ccmp_seal :: "bytes \<Rightarrow> bytes \<Rightarrow> bytes \<Rightarrow> bytes \<Rightarrow> bytes" where
  "ccmp_seal Key h pn P = ccm_seal (aes_cipher Key 16) (ieee_nonce h pn) 13 (padded 30 (ieee_aad h)) (length (ieee_aad h)) 8 P"

definition ccmp_open :: "bytes \<Rightarrow> bytes \<Rightarrow> bytes \<Rightarrow> bytes \<Rightarrow> bytes \<times> bool" where
  "ccmp_open Key h pn C = ccm_open (aes_cipher Key 16) (ieee_nonce h pn) 13 (padded 30 (ieee_aad h)) (length (ieee_aad h)) 8 C"

lemma aad_len_le: "ccmp_hdr_len h \<le> length h \<Longrightarrow> length (ieee_aad h) \<le> 30"
  using length_ieee_aad [of h] by (simp add: ccmp_hdr_len_def)

lemma length_ccmp_seal: "length (ccmp_seal Key h pn P) = length P + 8"
  by (simp add: ccmp_seal_def ccm_seal_def Let_def length_ctr_stream length_ccm_mac_spec)

lemma SoftEncryptCCMP_spec:
  assumes "aes_ctx_wf ctx" "16 \<le> length Key" "ccmp_hdr_len h \<le> length h" "6 \<le> length pn" "n + 8 \<le> length pData" "n + 8 < 2 ^ 32"
  shows "RTMPSoftEncryptCCMP (Some ctx) h pn Key pData n = Some (True, ccmp_seal Key h pn (take n pData) @ drop (n + 8) pData)"
proof -
  have h: "\<not> length h < 24" using assms(3) hdr_len_ge [of h] by simp
  have args: "ccm_args_ok 16 13 8" by (simp add: ccm_args_ok_def ccm_mac_length_ok_def)
  have "AES_CCM_Encrypt (Some ctx) pData n Key 16 (ieee_nonce h pn) 13 (padded 30 (ieee_aad h)) (length (ieee_aad h)) 8 pData (n + 8)
      = (0, ccmp_seal Key h pn (take n pData) @ drop (n + 8) pData, n + 8)"
    unfolding ccmp_seal_def
    by (rule CCM_Encrypt_spec [OF assms(1) args assms(2)]) (use assms aad_len_le in simp_all)
  then show ?thesis using assms(3,5,6) h
    by (simp add: RTMPSoftEncryptCCMP_def ccmp_aad_ieee ccmp_nonce_ieee [OF assms(3,4)])
qed

definition ccmp_pn :: "bytes \<Rightarrow> bytes" where
  "ccmp_pn pData = [pData ! 0, pData ! 1, pData ! 4, pData ! 5, pData ! 6, pData ! 7]"

lemma SoftDecryptCCMP_spec:
  assumes "aes_ctx_wf ctx" "ck_KeyLen k \<noteq> 0" "16 \<le> length (ck_Key k)" "ccmp_hdr_len h \<le> length h"
    and "n + 16 \<le> length pData" "n + 16 < 2 ^ 16"
    and "ccmp_open (ck_Key k) h (ccmp_pn pData) (take (n + 8) (drop 8 pData)) = (P, ok)"
  shows "RTMPSoftDecryptCCMP (Some ctx) h k pData (word_of_nat (n + 16))
    = Some (ok, P @ drop n pData, if ok then word_of_nat n else word_of_nat (n + 16))"
proof -
  have h: "\<not> length h < 24" using assms(4) hdr_len_ge [of h] by simp
  have args: "ccm_args_ok 16 13 8" by (simp add: ccm_args_ok_def ccm_mac_length_ok_def)
  have u: "unat (word_of_nat (n + 16) :: UINT16) = n + 16"
    using assms(6) by (simp add: unsigned_of_nat take_bit_nat_eq_self del: of_nat_add)
  have "AES_CCM_Decrypt (Some ctx) (drop 8 pData) (n + 8) (ck_Key k) 16 (ieee_nonce h (ccmp_pn pData)) 13 (padded 30 (ieee_aad h))
      (length (ieee_aad h)) 8 pData (n + 16) = (if ok then 0 else -5, P @ drop n pData, n)"
    by (rule CCM_Decrypt_spec [OF assms(1) args assms(3)])
      (use assms(4,5,7) aad_len_le in \<open>simp_all add: ccmp_open_def\<close>)
  moreover have pn: "[pData ! 0, pData ! 1, pData ! 4, pData ! 5, pData ! 6, pData ! 7] = ccmp_pn pData" "6 \<le> length (ccmp_pn pData)"
    by (simp_all add: ccmp_pn_def)
  moreover have s: "uint_sub (n + 16) 8 = n + 8" "uint_sub (n + 8) 8 = n" by simp_all
  ultimately show ?thesis using assms(2,4,5) h
    unfolding RTMPSoftDecryptCCMP_def u Let_def pn(1) ccmp_aad_ieee [OF assms(4)] ccmp_nonce_ieee [OF assms(4) pn(2)] s
    by (auto simp del: of_nat_add)
qed

lemma CCMPHdr_pn:
  assumes "6 \<le> length pn" "length b = 8"
  shows "length (RTMPConstructCCMPHdr key_idx pn b) = 8" "ccmp_pn (RTMPConstructCCMPHdr key_idx pn b @ xs) = take 6 pn"
    "RTMPConstructCCMPHdr key_idx pn b ! 3 = push_bit 6 key_idx OR 0x20"
proof -
  have z: "NdisMoveMemory b 0 (NdisZeroMemory 8) = [0, 0, 0, 0, 0, 0, 0, 0]"
    using assms(2) by (simp add: NdisMoveMemory_def NdisZeroMemory_def eval_nat_numeral)
  have e: "RTMPConstructCCMPHdr key_idx pn b = [pn ! 0, pn ! 1, 0, push_bit 6 key_idx OR 0x20, pn ! 2, pn ! 3, pn ! 4, pn ! 5]"
    by (simp add: RTMPConstructCCMPHdr_def z)
  then show "length (RTMPConstructCCMPHdr key_idx pn b) = 8" "RTMPConstructCCMPHdr key_idx pn b ! 3 = push_bit 6 key_idx OR 0x20" by simp_all
  have "take 6 pn = [pn ! 0, pn ! 1, pn ! 2, pn ! 3, pn ! 4, pn ! 5]" using assms(1) by (auto simp: numeral_eq_Suc Suc_le_length_iff)
  then show "ccmp_pn (RTMPConstructCCMPHdr key_idx pn b @ xs) = take 6 pn" by (simp add: e ccmp_pn_def)
qed

lemma ieee_nonce_take: "ieee_nonce h (take 6 pn) = ieee_nonce h pn"
  by (simp add: ieee_nonce_def)

lemma ccmp_open_seal: "ccmp_open Key h (take 6 pn) (ccmp_seal Key h pn P) = (P, True)"
  unfolding ccmp_open_def ccmp_seal_def ieee_nonce_take by (rule aes.ccm_open_seal) simp

lemma ccmp_same_open: "ccmp_same h h' \<Longrightarrow> 24 \<le> length h \<Longrightarrow> ccmp_open Key h' pn C = ccmp_open Key h pn C"
  by (simp add: ccmp_open_def ccmp_same_fields)

lemma SoftDecryptCCMP_Encrypt:
  assumes "aes_ctx_wf ctx" "aes_ctx_wf ctx'" "ck_KeyLen k \<noteq> 0" "16 \<le> length (ck_Key k)" "ccmp_hdr_len h \<le> length h" "ccmp_same h h'"
    and "6 \<le> length pn" "length b = 8" "n + 8 \<le> length pData" "n + 16 < 2 ^ 16"
    and "RTMPSoftEncryptCCMP (Some ctx) h pn (ck_Key k) pData n = Some (ok, E)"
  shows "ok \<and> (\<exists>D. RTMPSoftDecryptCCMP (Some ctx') h' k (RTMPConstructCCMPHdr key_idx pn b @ take (n + 8) E @ rest) (word_of_nat (n + 16))
    = Some (True, D, word_of_nat n) \<and> take n D = take n pData)"
proof -
  let ?S = "ccmp_seal (ck_Key k) h pn (take n pData)"
  let ?p = "RTMPConstructCCMPHdr key_idx pn b @ ?S @ rest"
  have E: "ok" "E = ?S @ drop (n + 8) pData"
    using SoftEncryptCCMP_spec [OF assms(1,4,5,7,9)] assms(10,11) by simp_all
  have len: "length ?S = n + 8" using assms(9) by (simp add: length_ccmp_seal)
  note hdr = CCMPHdr_pn [OF assms(7,8), of key_idx]
  have h: "24 \<le> length h" using assms(5) hdr_len_ge [of h] by simp
  have "ccmp_open (ck_Key k) h' (ccmp_pn ?p) (take (n + 8) (drop 8 ?p)) = (take n pData, True)"
    using ccmp_same_open [OF assms(6) h] ccmp_open_seal hdr len by simp
  then have "RTMPSoftDecryptCCMP (Some ctx') h' k ?p (word_of_nat (n + 16)) = Some (True, take n pData @ drop n ?p, word_of_nat n)"
    by (subst SoftDecryptCCMP_spec [OF assms(2-4)])
      (use assms(5,6,10) len hdr h ccmp_same_fields(4) [OF assms(6) h] in \<open>auto simp: ccmp_same_def\<close>)
  moreover have "take (n + 8) E = ?S" using E(2) len by simp
  ultimately show ?thesis using E(1) assms(9) by auto
qed

section \<open>Properties\<close>


text \<open>A QoS data frame to the access point, and its retransmission in power-save mode.\<close>

definition ccmp_frame0 :: "UINT8 \<Rightarrow> bytes" where
  "ccmp_frame0 flags = [0x88, flags, 0, 0] @ replicate 18 7 @ [0x10, 0x20, 5, 0]"

lemma ccmp_frame0: "ccmp_hdr_len (ccmp_frame0 0x41) = 26" "length (ccmp_frame0 b) = 26" "ccmp_same (ccmp_frame0 0x41) (ccmp_frame0 0x59)"
  by (simp_all add: ccmp_frame0_def ccmp_hdr_len_def ccmp_a4_exists_def ccmp_qc_exists_def ccmp_frame_type_def ccmp_same_def nth_append)


text \<open>C7: CCMP round trip.  A body that \<^verbatim>\<open>RTMPSoftEncryptCCMP\<close> encrypted, sent behind the CCMP header of its packet number, is
  accepted by \<^verbatim>\<open>RTMPSoftDecryptCCMP\<close> under the same key, and the plain text is back at the start of the buffer with its
  length, also when the header of the frame has changed in the fields that a retransmission may change: retry, power
  management and more-data bits, duration and sequence number.\<close>

theorem RTMPSoftDecryptCCMP_Encrypt:
  assumes "aes_ctx_wf ctx" "aes_ctx_wf ctx'" "ck_KeyLen k \<noteq> 0" "16 \<le> length (ck_Key k)" "ccmp_hdr_len h \<le> length h" "ccmp_same h h'"
    and "6 \<le> length pn" "length b = 8" "n + 8 \<le> length pData" "n + 16 < 2 ^ 16"
    and "RTMPSoftEncryptCCMP (Some ctx) h pn (ck_Key k) pData n = Some (ok, E)"
  shows "ok \<and> (\<exists>D. RTMPSoftDecryptCCMP (Some ctx') h' k (RTMPConstructCCMPHdr key_idx pn b @ take (n + 8) E @ rest) (word_of_nat (n + 16))
    = Some (True, D, word_of_nat n) \<and> take n D = take n pData)"
  by (rule SoftDecryptCCMP_Encrypt [OF assms])

definition ccmp_key0 :: CIPHER_KEY where
  "ccmp_key0 = wep_key0\<lparr>ck_CipherAlg := 4, ck_KeyLen := 16\<rparr>"

theorem RTMPSoftDecryptCCMP_Encrypt_witness:
  "\<exists>E D. RTMPSoftEncryptCCMP (Some aes_ctx0) (ccmp_frame0 0x41) [1, 0, 0, 0, 0, 0] (ck_Key ccmp_key0) ([1, 2, 3] @ replicate 8 0) 3 = Some (True, E)
    \<and> RTMPSoftDecryptCCMP (Some aes_ctx0) (ccmp_frame0 0x59) ccmp_key0 (RTMPConstructCCMPHdr 0 [1, 0, 0, 0, 0, 0] (replicate 8 0) @ take 11 E) 19
      = Some (True, D, 3) \<and> take 3 D = [1, 2, 3]"
proof -
  have k: "ck_KeyLen ccmp_key0 \<noteq> 0" "16 \<le> length (ck_Key ccmp_key0)" by (simp_all add: ccmp_key0_def wep_key0_def)
  have e: "RTMPSoftEncryptCCMP (Some aes_ctx0) (ccmp_frame0 0x41) [1, 0, 0, 0, 0, 0] (ck_Key ccmp_key0) ([1, 2, 3] @ replicate 8 0) 3
      = Some (True, ccmp_seal (ck_Key ccmp_key0) (ccmp_frame0 0x41) [1, 0, 0, 0, 0, 0] [1, 2, 3])"
    using SoftEncryptCCMP_spec [OF aes_ctx0_wf k(2), of "ccmp_frame0 0x41" "[1, 0, 0, 0, 0, 0]" 3 "[1, 2, 3] @ replicate 8 0"] ccmp_frame0 by simp
  show ?thesis
    using RTMPSoftDecryptCCMP_Encrypt [OF aes_ctx0_wf aes_ctx0_wf k _ ccmp_frame0(3) _ _ _ _ e, of "replicate 8 0" 0 "[]"] e ccmp_frame0 by auto
qed

text \<open>C17: CCMP rejects.  A frame of fewer than 16 octets is refused without being touched, although the lengths the code computes
  for it wrap around; and a body whose integrity code differs in any way from the computed one is refused with its
  length unchanged.\<close>

theorem RTMPSoftDecryptCCMP_rejects:
  assumes "aes_ctx_wf ctx" "16 \<le> length (ck_Key k)" "ccmp_hdr_len h \<le> length h" "8 \<le> length short" "unat DataLen < 16"
    and "length hdr = 8" "length tag = 8" "tag \<noteq> drop (length P) (ccmp_seal (ck_Key k) h (ccmp_pn hdr) P)" "length P + 16 < 2 ^ 16"
  shows "RTMPSoftDecryptCCMP (Some ctx) h k short DataLen = Some (False, short, DataLen)
    \<and> (\<exists>D. RTMPSoftDecryptCCMP (Some ctx) h k (hdr @ take (length P) (ccmp_seal (ck_Key k) h (ccmp_pn hdr) P) @ tag) (word_of_nat (length P + 16))
        = Some (False, D, word_of_nat (length P + 16)))"
proof (cases "ck_KeyLen k = 0")
  case True
  then show ?thesis by (simp add: RTMPSoftDecryptCCMP_def)
next
  case False
  have h: "\<not> length h < 24" using assms(3) hdr_len_ge [of h] by simp
  have wrap: "\<not> uint_sub (uint_sub (unat DataLen) 8) 8 \<le> unat DataLen"
    using assms(5) by (simp add: uint_sub_def) arith
  then have "AES_CCM_Decrypt m C (uint_sub (unat DataLen) 8) K 16 N 13 A a 8 short (unat DataLen) = (-4, short, unat DataLen)" for m C K N A a
    by (simp add: AES_CCM_Decrypt_def ccm_mac_length_ok_def not_le)
  then have "RTMPSoftDecryptCCMP (Some ctx) h k short DataLen = Some (False, short, DataLen)"
    using False h assms(3,4) wrap
    by (simp add: RTMPSoftDecryptCCMP_def Let_def ccmp_aad_ieee ccmp_nonce_ieee)
  moreover have "\<exists>D. RTMPSoftDecryptCCMP (Some ctx) h k (hdr @ take (length P) (ccmp_seal (ck_Key k) h (ccmp_pn hdr) P) @ tag)
      (word_of_nat (length P + 16)) = Some (False, D, word_of_nat (length P + 16))"
  proof -
    let ?C = "take (length P) (ccmp_seal (ck_Key k) h (ccmp_pn hdr) P) @ tag"
    have len: "length ?C = length P + 8" using assms(7) by (simp add: length_ccmp_seal)
    have pn: "ccmp_pn (hdr @ ?C) = ccmp_pn hdr" using assms(6) by (simp add: ccmp_pn_def nth_append)
    have "\<not> snd (ccmp_open (ck_Key k) h (ccmp_pn hdr) ?C)"
      using assms(7,8) unfolding ccmp_open_def ccmp_seal_def by (intro aes.ccm_open_tampered) simp_all
    then obtain Q where "ccmp_open (ck_Key k) h (ccmp_pn (hdr @ ?C)) (take (length P + 8) (drop 8 (hdr @ ?C))) = (Q, False)"
      using assms(6) len pn by (cases "ccmp_open (ck_Key k) h (ccmp_pn hdr) ?C") auto
    then show ?thesis
      using SoftDecryptCCMP_spec [OF assms(1) False assms(2,3), of "length P" "hdr @ ?C" Q False] assms(6,9) len by auto
  qed
  ultimately show ?thesis ..
qed

theorem RTMPSoftDecryptCCMP_rejects_witness:
  "RTMPSoftDecryptCCMP (Some aes_ctx0) (ccmp_frame0 0x41) ccmp_key0 (replicate 8 0) 3 = Some (False, replicate 8 0, 3)"
proof -
  have k: "16 \<le> length (ck_Key ccmp_key0)" by (simp add: ccmp_key0_def wep_key0_def)
  obtain tag :: bytes where "length tag = 8" "tag \<noteq> drop (length []) (ccmp_seal (ck_Key ccmp_key0) (ccmp_frame0 0x41) (ccmp_pn (replicate 8 0)) [])"
    by (metis length_replicate nth_replicate zero_less_numeral zero_neq_one)
  then show ?thesis
    using RTMPSoftDecryptCCMP_rejects [OF aes_ctx0_wf k, of "ccmp_frame0 0x41" "replicate 8 0" 3 "replicate 8 0" tag "[]"] ccmp_frame0 by simp
qed

end
