(* ===== verification/SoftCipher.thy ===== *)
theory SoftCipher
  imports Ccmp WpaHandshake
begin

text \<open>
  The software cipher path of \<^verbatim>\<open>common/cmm_wpa.c\<close>: the choice of the key for a received frame, and the dispatchers that call
  WEP, TKIP or CCMP.
\<close>

abbreviation (input) Ndis802_11GroupWEP40Enabled :: nat where "Ndis802_11GroupWEP40Enabled \<equiv> 10"
abbreviation (input) Ndis802_11GroupWEP104Enabled :: nat where "Ndis802_11GroupWEP104Enabled \<equiv> 11"

section \<open>Selection of the key\<close>

definition RTMPExtractKeyIdxFromIVHdr :: "bytes \<Rightarrow> nat \<Rightarrow> nat" where
  "RTMPExtractKeyIdxFromIVHdr pIV CipherAlg =
    (if CipherAlg = Ndis802_11Encryption1Enabled \<or> CipherAlg = Ndis802_11Encryption2Enabled \<or> CipherAlg = Ndis802_11Encryption3Enabled
        \<or> CipherAlg = Ndis802_11GroupWEP40Enabled \<or> CipherAlg = Ndis802_11GroupWEP104Enabled
     then unat (drop_bit 6 (pIV ! 3 AND 0xc0)) else 0xFF)"

text \<open>The key the function returns a pointer to: a slot of \<^verbatim>\<open>SharedKey\<close> or the pairwise key of the entry.\<close>

datatype key_ref = SharedKeyRef nat nat | PairwiseKeyRef

text \<open>\<open>special\<close> stands for the three flags of the receive block that belong to access-point clients, WDS and mesh.\<close>

definition RTMPSwCipherKeySelection :: "nat \<Rightarrow> nat \<Rightarrow> bytes \<Rightarrow> bool \<Rightarrow> bool \<Rightarrow> WPA_ENTRY option \<Rightarrow> key_ref option" where
  "RTMPSwCipherKeySelection GroupCipher DefaultKeyId pIV special U2M pEntry =
    (case pEntry of None \<Rightarrow> None
     | Some e \<Rightarrow>
       if special then None
       else
         let CipherAlg = (if U2M then we_WepStatus e else GroupCipher);
             keyIdx = RTMPExtractKeyIdxFromIVHdr pIV CipherAlg
         in if CipherAlg = Ndis802_11GroupWEP40Enabled \<or> CipherAlg = Ndis802_11GroupWEP104Enabled then Some (SharedKeyRef 0 DefaultKeyId)
            else if keyIdx > 3 then None
            else if CipherAlg = Ndis802_11Encryption1Enabled then Some (SharedKeyRef (we_apidx e) keyIdx)
            else if CipherAlg = Ndis802_11Encryption2Enabled \<or> CipherAlg = Ndis802_11Encryption3Enabled
            then Some (if U2M then PairwiseKeyRef else SharedKeyRef (we_apidx e) keyIdx)
            else None)"

section \<open>Dispatchers\<close>

text \<open>What the allocators answer, the state of the Michael engine and whether a supplicant runs.\<close>

record soft_env =
  sw_arc4 :: "ARC4_CTX_STRUC option"
  sw_seed :: bool
  sw_aes :: "AES_CTX_STRUC option"
  sw_mic :: PRIVATE_STRUC
  sw_SupplicantUP :: bool

definition RTMPSoftDecryptionAction :: "soft_env \<Rightarrow> bytes \<Rightarrow> UINT8 \<Rightarrow> CIPHER_KEY \<Rightarrow> bytes \<Rightarrow> UINT16 \<Rightarrow> (bool \<times> bytes \<times> UINT16) option" where
  "RTMPSoftDecryptionAction env pHdr UserPriority pKey pData DataByteCnt =
    (if ck_CipherAlg pKey = CIPHER_WEP64 \<or> ck_CipherAlg pKey = CIPHER_WEP128
     then map_option (\<lambda>(ok, pData, cnt, held). (ok, pData, cnt)) (RTMPSoftDecryptWEP (sw_arc4 env) (sw_seed env) pKey pData DataByteCnt)
     else if ck_CipherAlg pKey = CIPHER_TKIP
     then map_option (\<lambda>(ok, mic, pData, cnt, event). (ok, pData, word_of_nat cnt))
            (RTMPSoftDecryptTKIP (sw_SupplicantUP env) (sw_mic env) pHdr UserPriority pKey pData (unat DataByteCnt))
     else if ck_CipherAlg pKey = CIPHER_AES then RTMPSoftDecryptCCMP (sw_aes env) pHdr pKey pData DataByteCnt
     else Some (False, pData, DataByteCnt))"

definition RTMPSoftConstructIVHdr :: "UINT8 \<Rightarrow> UINT8 \<Rightarrow> bytes \<Rightarrow> bytes \<Rightarrow> bytes \<times> nat" where
  "RTMPSoftConstructIVHdr CipherAlg key_id pTxIv pHdrIv =
    (if CipherAlg = CIPHER_WEP64 \<or> CipherAlg = CIPHER_WEP128 then (RTMPConstructWEPIVHdr key_id pTxIv pHdrIv, LEN_WEP_IV_HDR)
     else if CipherAlg = CIPHER_TKIP then (pHdrIv, 0)
     else if CipherAlg = CIPHER_AES then (RTMPConstructCCMPHdr key_id pTxIv pHdrIv, LEN_CCMP_HDR)
     else (pHdrIv, 0))"

text \<open>The result codes of the two ciphers are ignored; for TKIP there is nothing to call.\<close>

definition RTMPSoftEncryptionAction :: "soft_env \<Rightarrow> UINT8 \<Rightarrow> bytes \<Rightarrow> bytes \<Rightarrow> nat \<Rightarrow> CIPHER_KEY \<Rightarrow> (bytes \<times> nat) option" where
  "RTMPSoftEncryptionAction env CipherAlg pHdr pSrcBufData SrcBufLen pKey =
    (if CipherAlg = CIPHER_WEP64 \<or> CipherAlg = CIPHER_WEP128
     then (if length pSrcBufData < SrcBufLen + LEN_ICV then None
           else Some (fst (snd (RTMPSoftEncryptWEP (sw_arc4 env) (sw_seed env) (ck_TxTsc pKey) pKey pSrcBufData SrcBufLen)), LEN_ICV))
     else if CipherAlg = CIPHER_TKIP then Some (pSrcBufData, 0)
     else if CipherAlg = CIPHER_AES
     then map_option (\<lambda>(ok, pData). (pData, LEN_CCMP_MIC)) (RTMPSoftEncryptCCMP (sw_aes env) pHdr (ck_TxTsc pKey) (ck_Key pKey) pSrcBufData SrcBufLen)
     else Some (pSrcBufData, 0))"

section \<open>The path of a frame\<close>

lemma wep_iv_hdr:
  assumes "3 \<le> length pn" "4 \<le> length b"
  shows "RTMPConstructWEPIVHdr k pn b = take 3 pn @ push_bit 6 k # drop 4 b"
proof -
  obtain x0 x1 x2 x3 r where b: "b = x0 # x1 # x2 # x3 # r" using assms(2) by (auto simp: numeral_eq_Suc Suc_le_length_iff)
  obtain y0 y1 y2 q where pn: "pn = y0 # y1 # y2 # q" using assms(1) by (auto simp: numeral_eq_Suc Suc_le_length_iff)
  show ?thesis by (simp add: b pn RTMPConstructWEPIVHdr_def wep_consts NdisMoveMemory_def NdisZeroMemory_def eval_nat_numeral)
qed

text \<open>The WEP engine uses three octets of its initialisation vector.\<close>

lemma SoftEncryptWEP_iv: "take 3 iv = take 3 iv' \<Longrightarrow> RTMPSoftEncryptWEP (Some ctx) True iv k d n = RTMPSoftEncryptWEP (Some ctx) True iv' k d n"
  by (simp add: RTMPSoftEncryptWEP_def Let_def InitWepEngine_iv [of iv iv' _ _ ctx ctx])

lemma key_idx_bits: "k < 4 \<Longrightarrow> unat (drop_bit 6 (push_bit 6 k AND 0xc0 :: UINT8)) = unat k"
  "k < 4 \<Longrightarrow> unat (drop_bit 6 ((push_bit 6 k OR 0x20) AND 0xc0 :: UINT8)) = unat k"
proof -
  have "k < 4 \<longrightarrow> unat (drop_bit 6 (push_bit 6 k AND 0xc0 :: UINT8)) = unat k
      \<and> unat (drop_bit 6 ((push_bit 6 k OR 0x20) AND 0xc0 :: UINT8)) = unat k"
    by (rule all_bytes [of "\<lambda>k. k < 4 \<longrightarrow> unat (drop_bit 6 (push_bit 6 k AND 0xc0 :: UINT8)) = unat k
      \<and> unat (drop_bit 6 ((push_bit 6 k OR 0x20) AND 0xc0 :: UINT8)) = unat k"]) code_simp
  then show "k < 4 \<Longrightarrow> unat (drop_bit 6 (push_bit 6 k AND 0xc0 :: UINT8)) = unat k"
    "k < 4 \<Longrightarrow> unat (drop_bit 6 ((push_bit 6 k OR 0x20) AND 0xc0 :: UINT8)) = unat k" by blast+
qed

text \<open>Both ends have memory for their cipher contexts.\<close>

definition soft_env_ok :: "soft_env \<Rightarrow> bool" where
  "soft_env_ok env \<longleftrightarrow> sw_arc4 env \<noteq> None \<and> sw_seed env \<and> (\<exists>ctx. sw_aes env = Some ctx \<and> aes_ctx_wf ctx)"

definition soft_frame_ok :: "CIPHER_KEY \<Rightarrow> bytes \<Rightarrow> bytes \<Rightarrow> nat \<Rightarrow> bool" where
  "soft_frame_ok k h d n \<longleftrightarrow> ck_CipherAlg k \<in> {CIPHER_WEP64, CIPHER_WEP128, CIPHER_AES} \<and> ck_KeyLen k \<noteq> 0 \<and> 16 \<le> length (ck_Key k)
     \<and> 6 \<le> length (ck_TxTsc k) \<and> ccmp_hdr_len h \<le> length h \<and> n + 8 \<le> length d \<and> n + 16 < 2 ^ 16"

lemma wep_path:
  assumes k: "ck_CipherAlg k \<in> {CIPHER_WEP64, CIPHER_WEP128}" and f: "soft_frame_ok k h d n" and e: "soft_env_ok env" "soft_env_ok env'"
    and b: "length b = 8" and i: "RTMPSoftConstructIVHdr (ck_CipherAlg k) idx (ck_TxTsc k) b = (iv, hl)"
    and E: "RTMPSoftEncryptionAction env (ck_CipherAlg k) h d n k = Some (E, ext)"
  shows "take hl iv ! 3 = push_bit 6 idx \<and> (\<exists>D. RTMPSoftDecryptionAction env' h' prio k (take hl iv @ take (n + ext) E) (word_of_nat (hl + n + ext))
    = Some (True, D, word_of_nat n) \<and> take n D = take n d)"
proof -
  let ?hdr = "take 3 (ck_TxTsc k) @ [push_bit 6 idx]"
  obtain c c' where c: "sw_arc4 env = Some c" "sw_arc4 env' = Some c'" "sw_seed env" "sw_seed env'" using e by (auto simp: soft_env_ok_def)
  have len: "6 \<le> length (ck_TxTsc k)" "n + 4 \<le> length d" "n + 8 < 2 ^ 16" "ck_KeyLen k \<noteq> 0" using f by (auto simp: soft_frame_ok_def)
  have iv: "hl = 4" "iv = RTMPConstructWEPIVHdr idx (ck_TxTsc k) b"
    using i k by (auto simp: RTMPSoftConstructIVHdr_def wep_consts)
  have w: "RTMPConstructWEPIVHdr idx (ck_TxTsc k) b = ?hdr @ drop 4 b" using wep_iv_hdr [of "ck_TxTsc k" b idx] len(1) b by simp
  have hl: "hl = 4" "take 4 iv = ?hdr" unfolding iv w using len(1) by simp_all
  obtain ok held where enc: "RTMPSoftEncryptWEP (Some c) True ?hdr k d n = (ok, E, held)" and ext: "ext = 4"
    using E k len(1,2) c SoftEncryptWEP_iv [of "ck_TxTsc k" ?hdr c k d n]
    by (cases "RTMPSoftEncryptWEP (Some c) True ?hdr k d n") (auto simp: RTMPSoftEncryptionAction_def wep_consts split: if_splits)
  have hdr: "length ?hdr = 4" "?hdr ! 3 = push_bit 6 idx" using len(1) by (simp_all add: nth_append)
  obtain D where "RTMPSoftDecryptWEP (Some c') True k (?hdr @ take (n + 4) E @ []) (word_of_nat (n + 8)) = Some (True, D, word_of_nat n, 0)"
      "take n D = take n d"
    using SoftDecryptWEP_Encrypt [OF len(4) hdr(1) len(2,3) enc, of c' "[]"] by blast
  then show ?thesis using k c hl ext hdr(2) by (auto simp: RTMPSoftDecryptionAction_def add.commute)
qed

lemma ccmp_path:
  assumes k: "ck_CipherAlg k = CIPHER_AES" and f: "soft_frame_ok k h d n" and e: "soft_env_ok env" "soft_env_ok env'" and h': "ccmp_same h h'"
    and b: "length b = 8" and i: "RTMPSoftConstructIVHdr (ck_CipherAlg k) idx (ck_TxTsc k) b = (iv, hl)"
    and E: "RTMPSoftEncryptionAction env (ck_CipherAlg k) h d n k = Some (E, ext)"
  shows "take hl iv ! 3 = push_bit 6 idx OR 0x20 \<and> (\<exists>D. RTMPSoftDecryptionAction env' h' prio k (take hl iv @ take (n + ext) E) (word_of_nat (hl + n + ext))
    = Some (True, D, word_of_nat n) \<and> take n D = take n d)"
proof -
  obtain c c' where c: "sw_aes env = Some c" "sw_aes env' = Some c'" "aes_ctx_wf c" "aes_ctx_wf c'" using e by (auto simp: soft_env_ok_def)
  have len: "6 \<le> length (ck_TxTsc k)" "n + 8 \<le> length d" "n + 16 < 2 ^ 16" "ck_KeyLen k \<noteq> 0" "16 \<le> length (ck_Key k)"
    "ccmp_hdr_len h \<le> length h" using f by (auto simp: soft_frame_ok_def)
  note hdr = CCMPHdr_pn [OF len(1) b, of idx]
  have iv: "hl = 8" "iv = RTMPConstructCCMPHdr idx (ck_TxTsc k) b" using i k by (simp_all add: RTMPSoftConstructIVHdr_def)
  obtain ok where enc: "RTMPSoftEncryptCCMP (Some c) h (ck_TxTsc k) (ck_Key k) d n = Some (ok, E)" "ext = 8"
    using E k c(1) by (auto simp: RTMPSoftEncryptionAction_def)
  obtain D where "RTMPSoftDecryptCCMP (Some c') h' k (RTMPConstructCCMPHdr idx (ck_TxTsc k) b @ take (n + 8) E @ []) (word_of_nat (n + 16))
      = Some (True, D, word_of_nat n)" "take n D = take n d"
    using SoftDecryptCCMP_Encrypt [OF c(3,4) len(4,5,6) h' len(1) b len(2,3) enc(1), of idx "[]"] by blast
  moreover have "RTMPSoftDecryptionAction env' h' prio k p m = RTMPSoftDecryptCCMP (Some c') h' k p m" for p m
    by (simp add: RTMPSoftDecryptionAction_def k c(2))
  ultimately show ?thesis using iv enc(2) hdr by (auto simp: add.commute)
qed

section \<open>Properties\<close>

text \<open>C9: the software cipher path.  For a WEP or AES key, the body encrypted by \<^verbatim>\<open>RTMPSoftEncryptionAction\<close>, sent behind the header
  that \<^verbatim>\<open>RTMPSoftConstructIVHdr\<close> builds from the packet number and the key index, is decrypted by
  \<^verbatim>\<open>RTMPSoftDecryptionAction\<close> with that key, which returns success, the plain text and its length; and the receiver
  reads from the header the key index that the sender put there.\<close>

theorem soft_cipher_roundtrip:
  assumes "soft_frame_ok k h d n" "soft_env_ok env" "soft_env_ok env'" "ccmp_same h h'" "length b = 8" "idx < 4"
    and "RTMPSoftConstructIVHdr (ck_CipherAlg k) idx (ck_TxTsc k) b = (iv, hl)"
    and "RTMPSoftEncryptionAction env (ck_CipherAlg k) h d n k = Some (E, ext)"
  shows "(\<exists>D. RTMPSoftDecryptionAction env' h' prio k (take hl iv @ take (n + ext) E) (word_of_nat (hl + n + ext))
      = Some (True, D, word_of_nat n) \<and> take n D = take n d)
    \<and> RTMPExtractKeyIdxFromIVHdr (take hl iv) (if ck_CipherAlg k = CIPHER_AES then Ndis802_11Encryption3Enabled else Ndis802_11Encryption1Enabled) = unat idx"
proof (cases "ck_CipherAlg k = CIPHER_AES")
  case True
  then show ?thesis
    using ccmp_path [OF True assms(1,2,3,4,5,7,8), of prio] key_idx_bits [OF assms(6)] by (auto simp: RTMPExtractKeyIdxFromIVHdr_def)
next
  case False
  then have "ck_CipherAlg k \<in> {CIPHER_WEP64, CIPHER_WEP128}" using assms(1) by (auto simp: soft_frame_ok_def)
  then show ?thesis
    using wep_path [OF _ assms(1,2,3,5,7,8), of h' prio] key_idx_bits [OF assms(6)] False by (auto simp: RTMPExtractKeyIdxFromIVHdr_def)
qed

definition soft_env0 :: soft_env where
  "soft_env0 = \<lparr>sw_arc4 = Some arc4_ctx0, sw_seed = True, sw_aes = Some aes_ctx0, sw_mic = private0, sw_SupplicantUP = False\<rparr>"

theorem soft_cipher_roundtrip_witness:
  "\<exists>E D. RTMPSoftEncryptionAction soft_env0 CIPHER_AES (ccmp_frame0 0x41) ([1, 2, 3] @ replicate 8 0) 3 ccmp_key0 = Some (E, 8)
    \<and> RTMPSoftDecryptionAction soft_env0 (ccmp_frame0 0x59) 0 ccmp_key0 (fst (RTMPSoftConstructIVHdr CIPHER_AES 2 (ck_TxTsc ccmp_key0) (replicate 8 0)) @ take 11 E) 19
      = Some (True, D, 3) \<and> take 3 D = [1, 2, 3]"
proof -
  have k: "ck_CipherAlg ccmp_key0 = CIPHER_AES" "16 \<le> length (ck_Key ccmp_key0)" "6 \<le> length (ck_TxTsc ccmp_key0)"
    by (simp_all add: ccmp_key0_def wep_key0_def)
  have f: "soft_frame_ok ccmp_key0 (ccmp_frame0 0x41) ([1, 2, 3] @ replicate 8 0) 3"
    using k ccmp_frame0 by (simp add: soft_frame_ok_def) (simp add: ccmp_key0_def)
  have e: "soft_env_ok soft_env0" using aes_ctx0_wf by (simp add: soft_env_ok_def soft_env0_def)
  have E: "RTMPSoftEncryptionAction soft_env0 CIPHER_AES (ccmp_frame0 0x41) ([1, 2, 3] @ replicate 8 0) 3 ccmp_key0
      = Some (ccmp_seal (ck_Key ccmp_key0) (ccmp_frame0 0x41) (ck_TxTsc ccmp_key0) [1, 2, 3], 8)"
    using SoftEncryptCCMP_spec [OF aes_ctx0_wf k(2), of "ccmp_frame0 0x41" "ck_TxTsc ccmp_key0" 3 "[1, 2, 3] @ replicate 8 0"] k(3) ccmp_frame0
    by (simp add: RTMPSoftEncryptionAction_def soft_env0_def)
  have iv: "RTMPSoftConstructIVHdr CIPHER_AES 2 (ck_TxTsc ccmp_key0) (replicate 8 0) = (RTMPConstructCCMPHdr 2 (ck_TxTsc ccmp_key0) (replicate 8 0), 8)"
    by (simp add: RTMPSoftConstructIVHdr_def)
  have "length (RTMPConstructCCMPHdr 2 (ck_TxTsc ccmp_key0) (replicate 8 0)) = 8" using CCMPHdr_pn(1) [OF k(3)] by simp
  then show ?thesis
    using soft_cipher_roundtrip [OF f e e ccmp_frame0(3), of "replicate 8 0" 2, unfolded k(1), OF _ _ iv E, of 0] E iv by auto
qed

end
