(* ===== verification/RsnIe.thy ===== *)
theory RsnIe
  imports WpaHandshake
begin

text \<open>
  The robust security network element of \<^verbatim>\<open>common/cmm_wpa.c\<close>: its construction from the configuration, the PMKID that an
  association request appends, the parser \<^verbatim>\<open>WPA_ExtractSuiteFromRSNIE\<close> for received elements, the comparison of a
  received element with the stored one, and the recognition of EAP frames.  The packed structures \<^verbatim>\<open>RSNIE\<close>, \<^verbatim>\<open>RSNIE2\<close>,
  \<^verbatim>\<open>RSNIE_AUTH\<close> and \<^verbatim>\<open>RSNIE_PMKID\<close> are offsets into the buffer; \<open>None\<close> is an access outside it.
\<close>

section \<open>Construction\<close>

abbreviation (input) IE_WPA :: UINT8 where "IE_WPA \<equiv> 221"
abbreviation (input) IE_RSN :: UINT8 where "IE_RSN \<equiv> 48"
abbreviation (input) MAX_LEN_OF_RSN_IE :: nat where "MAX_LEN_OF_RSN_IE \<equiv> 255"

definition OUI_WPA :: bytes where "OUI_WPA = [0x00, 0x50, 0xF2]"

datatype primary_ie = WpaIe | Wpa2Ie

text \<open>The organisation's identifier, and the offset of the version field.\<close>

definition ie_oui :: "primary_ie \<Rightarrow> bytes" where
  "ie_oui ie = (if ie = Wpa2Ie then OUI_WPA2 else OUI_WPA)"

definition ie_base :: "primary_ie \<Rightarrow> nat" where
  "ie_base ie = (if ie = Wpa2Ie then 0 else 4)"

text \<open>The branches for WPA and WPA2 differ in the identifiers, the leading \<^verbatim>\<open>OUI_WPA_VERSION\<close> and the two bits of \<^verbatim>\<open>FlexibleCipher\<close>
  they test: \<open>tkip_on\<close> and \<open>aes_on\<close>.\<close>

definition RTMPMakeRsnIeCipher :: "nat \<Rightarrow> primary_ie \<Rightarrow> nat \<Rightarrow> bool \<Rightarrow> UINT8 \<Rightarrow> bytes \<Rightarrow> bytes \<times> nat" where
  "RTMPMakeRsnIeCipher GroupCipher ie WepStatus bMixCipher FlexibleCipher pRsnIe =
    (let tkip_on = (if ie = Wpa2Ie then FlexibleCipher AND 2 \<noteq> 0 else FlexibleCipher AND 8 \<noteq> 0);
         aes_on = (if ie = Wpa2Ie then FlexibleCipher AND 1 \<noteq> 0 else FlexibleCipher AND 4 \<noteq> 0);
         oui = ie_oui ie; base = ie_base ie; sz = base + 12;
         mcast = (\<lambda>n buf. NdisMoveMemory buf (base + 2) (oui @ [n]));
         ucount = (\<lambda>n buf. NdisMoveMemory buf (base + 6) (bytes_le16 n));
         ucast = (\<lambda>n buf. NdisMoveMemory buf (base + 8) (oui @ [n]));
         buf = (if ie = Wpa2Ie then pRsnIe else NdisMoveMemory pRsnIe 0 (oui @ [1]));
         buf = NdisMoveMemory buf base (bytes_le16 1);
         (buf, rsn_len) =
           (if WepStatus = Ndis802_11Encryption2Enabled then (ucast 2 (ucount 1 (mcast 2 buf)), sz)
            else if WepStatus = Ndis802_11Encryption3Enabled then (ucast 4 (ucount 1 (mcast (if bMixCipher then 2 else 4) buf)), sz)
            else if WepStatus = Ndis802_11Encryption4Enabled
            then let buf = mcast 2 buf
                 in if tkip_on
                    then if aes_on then (ucount 2 (NdisMoveMemory (ucast 2 buf) sz (oui @ [4])), sz + 4)
                         else (ucount 1 (ucast 2 buf), sz)
                    else (ucount 1 (ucast 4 buf), sz)
            else (buf, 0));
         buf = (if GroupCipher = 10 then mcast 1 buf else if GroupCipher = 11 then mcast 5 buf else buf)
     in (buf, rsn_len))"

definition rsn_akm :: "primary_ie \<Rightarrow> nat \<Rightarrow> UINT8 option" where
  "rsn_akm ie AuthMode =
    (if ie = Wpa2Ie
     then (if AuthMode = Ndis802_11AuthModeWPA2 \<or> AuthMode = Ndis802_11AuthModeWPA1WPA2 then Some 1
           else if AuthMode = Ndis802_11AuthModeWPA2PSK \<or> AuthMode = Ndis802_11AuthModeWPA1PSKWPA2PSK then Some 2
           else None)
     else (if AuthMode = Ndis802_11AuthModeWPA \<or> AuthMode = Ndis802_11AuthModeWPA1WPA2 then Some 1
           else if AuthMode = Ndis802_11AuthModeWPAPSK \<or> AuthMode = Ndis802_11AuthModeWPA1PSKWPA2PSK then Some 2
           else if AuthMode = Ndis802_11AuthModeWPANone then Some 0
           else None))"

definition RTMPMakeRsnIeAKM :: "primary_ie \<Rightarrow> nat \<Rightarrow> bytes \<Rightarrow> nat \<Rightarrow> bytes \<times> nat" where
  "RTMPMakeRsnIeAKM ie AuthMode pRsnIe rsn_len =
    (case rsn_akm ie AuthMode of
       None \<Rightarrow> (NdisMoveMemory pRsnIe rsn_len (bytes_le16 0), rsn_len + 2)
     | Some n \<Rightarrow> (NdisMoveMemory (NdisMoveMemory pRsnIe (rsn_len + 2) (ie_oui ie @ [n])) rsn_len (bytes_le16 1), rsn_len + 6))"

text \<open>The capability field keeps the zeros of the buffer.\<close>

definition RTMPMakeRsnIeCap :: "primary_ie \<Rightarrow> bytes \<Rightarrow> nat \<Rightarrow> bytes \<times> nat" where
  "RTMPMakeRsnIeCap ie pRsnIe rsn_len = (if ie = WpaIe then (pRsnIe, rsn_len) else (pRsnIe, rsn_len + 2))"

text \<open>The fields of \<^verbatim>\<open>StaCfg\<close> that are used.\<close>

record rsn_cfg =
  rc_RSN_IE :: bytes
  rc_RSNIE_Len :: nat
  rc_SupplicantUP :: bool
  rc_bMixCipher :: bool
  rc_GroupCipher :: nat

definition primary_rsnie :: "nat \<Rightarrow> primary_ie" where
  "primary_rsnie AuthMode =
    (if AuthMode \<in> {Ndis802_11AuthModeWPA, Ndis802_11AuthModeWPAPSK, Ndis802_11AuthModeWPANone, Ndis802_11AuthModeWPA1WPA2,
        Ndis802_11AuthModeWPA1PSKWPA2PSK} then WpaIe else Wpa2Ie)"

definition RTMPMakeRSNIE :: "rsn_cfg \<Rightarrow> nat \<Rightarrow> nat \<Rightarrow> rsn_cfg" where
  "RTMPMakeRSNIE s AuthMode WepStatus =
    (if rc_SupplicantUP s \<and> AuthMode < Ndis802_11AuthModeWPA then s
     else if \<not> rc_SupplicantUP s \<and> AuthMode \<notin> {Ndis802_11AuthModeWPAPSK, Ndis802_11AuthModeWPA2PSK, Ndis802_11AuthModeWPANone} then s
     else
       let buf = NdisZeroMemory MAX_LEN_OF_RSN_IE;
           ie = primary_rsnie AuthMode;
           (buf, p_offset) = RTMPMakeRsnIeCipher (rc_GroupCipher s) ie WepStatus (rc_bMixCipher s) 0 buf;
           (buf, p_offset) = RTMPMakeRsnIeAKM ie AuthMode buf p_offset;
           (buf, p_offset) = RTMPMakeRsnIeCap ie buf p_offset
       in s\<lparr>rc_RSN_IE := buf, rc_RSNIE_Len := p_offset\<rparr>)"

text \<open>\<^verbatim>\<open>MlmeAssocReqAction\<close> appends the cached PMKID of the access point.\<close>

definition append_pmkid :: "rsn_cfg \<Rightarrow> bytes \<Rightarrow> rsn_cfg" where
  "append_pmkid s PMKID = s\<lparr>rc_RSN_IE := NdisMoveMemory (NdisMoveMemory (rc_RSN_IE s) (rc_RSNIE_Len s) (bytes_le16 1)) (rc_RSNIE_Len s + 2) (take 16 PMKID),
     rc_RSNIE_Len := rc_RSNIE_Len s + 18\<rparr>"

section \<open>Parsing\<close>

datatype suite_type = GROUP_SUITE | PAIRWISE_SUITE | AKM_SUITE | RSN_CAP_INFO | PMKID_LIST | G_MGMT_SUITE

definition get16 :: "bytes \<Rightarrow> nat \<Rightarrow> nat option" where
  "get16 b i = (if i + 1 < length b then Some (unat (b ! i) + 256 * unat (b ! (i + 1))) else None)"

text \<open>A result is the index the returned pointer has in the element, \<open>None\<close> for NULL, with the count.\<close>

type_synonym suite_result = "nat option \<times> UINT8"

text \<open>The fields behind the AKM suites: capabilities and PMKID list.  \<open>p\<close> is \<^verbatim>\<open>pBuf\<close>, \<open>len\<close> the remaining length.\<close>

definition extract_tail :: "bytes \<Rightarrow> suite_type \<Rightarrow> nat \<Rightarrow> int \<Rightarrow> suite_result option" where
  "extract_tail rsnie type p len =
    (if len < 2 then Some (None, 0)
     else if type = RSN_CAP_INFO then Some (Some p, 1)
     else if len - 2 < 2 then Some (None, 0)
     else do {
       p_count \<leftarrow> get16 rsnie (p + 2);
       if p_count > 0 \<and> len - 2 < 18 + 16 * (int p_count - 1) then Some (None, 0)
       else if type = PMKID_LIST then Some (if p_count > 0 then Some (p + 4) else None, word_of_nat p_count)
       else Some (None, 0)
     })"

definition extract_akm :: "bytes \<Rightarrow> suite_type \<Rightarrow> nat \<Rightarrow> int \<Rightarrow> suite_result option" where
  "extract_akm rsnie type p len =
    (if len < 6 then Some (None, 0)
     else do {
       a_cnt \<leftarrow> get16 rsnie p;
       let offset = 6 + 4 * (int a_cnt - 1);
       if len < offset then Some (None, 0)
       else if type = AKM_SUITE then Some (Some (p + 2), word_of_nat a_cnt)
       else if rsnie ! 0 = IE_WPA then Some (None, 0)
       else extract_tail rsnie type (p + nat offset) (len - offset)
     })"

definition WPA_ExtractSuiteFromRSNIE :: "bytes \<Rightarrow> nat \<Rightarrow> suite_type \<Rightarrow> suite_result option" where
  "WPA_ExtractSuiteFromRSNIE rsnie rsnie_len type =
    (let len = int rsnie_len - 2
     in if len \<le> 0 then Some (None, 0)
        else if length rsnie < 2 then None
        else if int (unat (rsnie ! 1)) \<noteq> len then Some (None, 0)
        else if rsnie ! 0 \<noteq> IE_WPA \<and> rsnie ! 0 \<noteq> IE_RSN then Some (None, 0)
        else
          let base = (if rsnie ! 0 = IE_WPA then 4 else 0)
          in if len < int base + 12 then Some (None, 0)
             else do {
               u_cnt \<leftarrow> get16 rsnie (2 + base + 6);
               let offset = int base + 12 + 4 * (int u_cnt - 1);
               if len < offset then Some (None, 0)
               else if type = GROUP_SUITE then Some (Some (2 + base + 2), 1)
               else if type = PAIRWISE_SUITE then Some (Some (2 + base + 8), word_of_nat u_cnt)
               else extract_akm rsnie type (2 + nat offset) (len - offset)
             })"

text \<open>The string a result points to: whole suites of four octets, PMKIDs of sixteen, two octets of capabilities.\<close>

definition suite_size :: "suite_type \<Rightarrow> nat" where
  "suite_size type = (if type = PMKID_LIST then 16 else if type = RSN_CAP_INFO then 2 else 4)"

definition extracted :: "bytes \<Rightarrow> suite_type \<Rightarrow> suite_result \<Rightarrow> bytes option" where
  "extracted rsnie type r = map_option (\<lambda>p. take (suite_size type * unat (snd r)) (drop p rsnie)) (fst r)"

section \<open>Comparison\<close>

text \<open>The loop of \<^verbatim>\<open>RTMPCheckRSNIE\<close>.  \<open>pos\<close> is \<^verbatim>\<open>pVIE\<close>; the remaining length is a \<^verbatim>\<open>UCHAR\<close> and may wrap around; one round
  consumes at least two octets of \<open>data\<close>, which bounds the loop.\<close>

function check_rsnie_loop :: "bytes \<Rightarrow> nat \<Rightarrow> bytes \<Rightarrow> nat \<Rightarrow> nat \<Rightarrow> UINT8 \<Rightarrow> UINT8 \<Rightarrow> bool \<Rightarrow> (bool \<times> UINT8) option" where
  "check_rsnie_loop data AuthMode RSN_IE RSNIE_Len pos len Offset result =
    (if \<not> unat len > 12 then Some (result, Offset)
     else if length data \<le> pos then None
     else if data ! pos = IE_WPA \<and> length data < pos + 6 \<or> data ! pos = IE_RSN \<and> length data < pos + 7 then None
     else
       let n = unat (data ! (pos + 1)) + 2;
           octet = drop (pos + 2) data;
           wpa = (AuthMode = Ndis802_11AuthModeWPA \<or> AuthMode = Ndis802_11AuthModeWPAPSK);
           wpa2 = ((AuthMode = Ndis802_11AuthModeWPA2 \<or> AuthMode = Ndis802_11AuthModeWPA2PSK) \<and> data ! pos = RSN_IE ! 0 \<and> n \<ge> RSNIE_Len)
       in if data ! pos = IE_WPA \<and> take 4 octet = OUI_WPA @ [1]
          then if wpa \<and> length data < pos + RSNIE_Len then None
               else check_rsnie_loop data AuthMode RSN_IE RSNIE_Len (pos + n) (len - word_of_nat n) (Offset + word_of_nat n)
                 (result \<or> (wpa \<and> take RSNIE_Len (drop pos data) = take RSNIE_Len RSN_IE \<and> RSNIE_Len = n))
          else if data ! pos = IE_RSN \<and> take 3 (drop 2 octet) = OUI_WPA2
          then if wpa2 \<and> (RSNIE_Len < 4 \<or> length octet < RSNIE_Len - 4) then None
               else check_rsnie_loop data AuthMode RSN_IE RSNIE_Len (pos + n) (len - word_of_nat n) (Offset + word_of_nat n)
                 (result \<or> (wpa2 \<and> take (RSNIE_Len - 4) octet = take (RSNIE_Len - 4) (drop 2 RSN_IE)))
          else Some (result, Offset))"
  by pat_completeness auto
termination
  by (relation "measure (\<lambda>(data, _, _, _, pos, _, _, _). length data - pos)") auto

declare check_rsnie_loop.simps [simp del]

definition RTMPCheckRSNIE :: "bytes \<Rightarrow> UINT8 \<Rightarrow> nat \<Rightarrow> bytes \<Rightarrow> nat \<Rightarrow> (bool \<times> UINT8) option" where
  "RTMPCheckRSNIE pData DataLen AuthMode RSN_IE RSNIE_Len = check_rsnie_loop pData AuthMode RSN_IE RSNIE_Len 0 DataLen 0 False"

section \<open>EAP frames\<close>

definition SNAP_802_1H :: bytes where "SNAP_802_1H = [0xaa, 0xaa, 0x03, 0x00, 0x00, 0x00]"
definition SNAP_BRIDGE_TUNNEL :: bytes where "SNAP_BRIDGE_TUNNEL = [0xaa, 0xaa, 0x03, 0x00, 0x00, 0xf8]"
definition EAPOL_TYPE :: bytes where "EAPOL_TYPE = [0x88, 0x8e]"

text \<open>The result is whether the frame is an EAP frame, the entry, and whether the timer of the entry was cancelled.\<close>

definition RTMPCheckWPAframe :: "WPA_ENTRY \<Rightarrow> bytes \<Rightarrow> nat \<Rightarrow> (bool \<times> WPA_ENTRY \<times> bool) option" where
  "RTMPCheckWPAframe pEntry pData DataByteCount =
    (if DataByteCount < 8 + 4 then Some (False, pEntry, False)
     else if length pData < 12 then None
     else
       let p = (if take 6 pData = SNAP_802_1H \<or> take 6 pData = SNAP_BRIDGE_TUNNEL then drop 6 pData else pData)
       in if take 2 p \<noteq> EAPOL_TYPE then Some (False, pEntry, False)
          else
            let p = drop 2 p; t = unat (p ! 1)
            in if t = 1 then Some (True, pEntry\<lparr>we_EnqueueEapolStartTimerRunning := 0\<rparr>, we_EnqueueEapolStartTimerRunning pEntry \<noteq> 0)
               else Some (t \<le> 4, pEntry, False))"

section \<open>What the construction builds\<close>

text \<open>The element as a list of fields: version, group cipher, pairwise ciphers, AKM suites, and the capabilities of WPA2.\<close>

definition rsn_group :: "nat \<Rightarrow> nat \<Rightarrow> bool \<Rightarrow> UINT8" where
  "rsn_group GroupCipher WepStatus bMixCipher =
    (if GroupCipher = 10 then 1 else if GroupCipher = 11 then 5
     else if WepStatus = Ndis802_11Encryption3Enabled \<and> \<not> bMixCipher then 4 else 2)"

definition rsn_pairwise :: "nat \<Rightarrow> UINT8" where
  "rsn_pairwise WepStatus = (if WepStatus = Ndis802_11Encryption2Enabled then 2 else 4)"

definition rsn_body :: "primary_ie \<Rightarrow> UINT8 \<Rightarrow> UINT8 \<Rightarrow> UINT8 \<Rightarrow> bytes" where
  "rsn_body ie gc pc akm =
    (if ie = WpaIe then OUI_WPA @ [1] else []) @ [1, 0] @ (ie_oui ie @ [gc]) @ [1, 0] @ (ie_oui ie @ [pc]) @ [1, 0]
     @ (ie_oui ie @ [akm]) @ (if ie = WpaIe then [] else [0, 0])"

lemma zero_prefix:
  "NdisZeroMemory 255 = [0, 0, 0, 0, 0, 0, 0, 0, 0, 0, 0, 0, 0, 0, 0, 0, 0, 0, 0, 0, 0, 0, 0, 0] @ replicate 231 0"
  by (simp add: NdisZeroMemory_def eval_nat_numeral)

lemma le16_small: "bytes_le16 0 = [0, 0]" "bytes_le16 1 = [1, 0]" "bytes_le16 2 = [2, 0]"
  by (simp_all add: bytes_le16_def)

lemma make_cipher:
  assumes "WepStatus \<in> {Ndis802_11Encryption2Enabled, Ndis802_11Encryption3Enabled, Ndis802_11Encryption4Enabled}"
  shows "RTMPMakeRsnIeCipher g ie WepStatus mix 0 (NdisZeroMemory 255)
    = ((if ie = WpaIe then OUI_WPA @ [1] else []) @ [1, 0] @ (ie_oui ie @ [rsn_group g WepStatus mix]) @ [1, 0] @ (ie_oui ie @ [rsn_pairwise WepStatus])
       @ replicate (243 - ie_base ie) 0, ie_base ie + 12)"
proof -
  have r: "replicate 243 0 = [0, 0, 0, 0, 0, 0, 0, 0, 0, 0, 0, 0] @ replicate 231 (0 :: UINT8)"
    "replicate 239 0 = [0, 0, 0, 0, 0, 0, 0, 0] @ replicate 231 (0 :: UINT8)" by (simp_all add: eval_nat_numeral)
  show ?thesis
    unfolding zero_prefix using assms
    by (cases ie) (auto simp: RTMPMakeRsnIeCipher_def Let_def NdisMoveMemory_def ie_base_def ie_oui_def OUI_WPA_def OUI_WPA2_def le16_small
        rsn_group_def rsn_pairwise_def r)
qed

definition rsn_supported :: "rsn_cfg \<Rightarrow> nat \<Rightarrow> nat \<Rightarrow> bool" where
  "rsn_supported s AuthMode WepStatus \<longleftrightarrow>
     (if rc_SupplicantUP s then Ndis802_11AuthModeWPA \<le> AuthMode \<and> AuthMode \<le> Ndis802_11AuthModeWPA1PSKWPA2PSK
      else AuthMode \<in> {Ndis802_11AuthModeWPAPSK, Ndis802_11AuthModeWPA2PSK, Ndis802_11AuthModeWPANone})
     \<and> WepStatus \<in> {Ndis802_11Encryption2Enabled, Ndis802_11Encryption3Enabled, Ndis802_11Encryption4Enabled}"

lemma auth_modes:
  assumes "rsn_supported s AuthMode WepStatus"
  obtains a where "rsn_akm (primary_rsnie AuthMode) AuthMode = Some a"
proof -
  have "AuthMode \<in> {3, 4, 5, 6, 7, 8, 9}" using assms by (auto simp: rsn_supported_def split: if_splits)
  then show thesis using that by (auto simp: rsn_akm_def primary_rsnie_def)
qed

lemma length_rsn_body: "length (rsn_body ie g p a) = 22 \<or> length (rsn_body ie g p a) = 20"
  by (cases ie) (simp_all add: rsn_body_def ie_oui_def OUI_WPA_def OUI_WPA2_def)

lemma make_rsnie:
  assumes "rsn_supported s AuthMode WepStatus" "rsn_akm (primary_rsnie AuthMode) AuthMode = Some a"
  shows "RTMPMakeRSNIE s AuthMode WepStatus =
    (let body = rsn_body (primary_rsnie AuthMode) (rsn_group (rc_GroupCipher s) WepStatus (rc_bMixCipher s)) (rsn_pairwise WepStatus) a
     in s\<lparr>rc_RSN_IE := body @ replicate (255 - length body) 0, rc_RSNIE_Len := length body\<rparr>)"
proof -
  have w: "WepStatus \<in> {Ndis802_11Encryption2Enabled, Ndis802_11Encryption3Enabled, Ndis802_11Encryption4Enabled}"
    and go: "\<not> (rc_SupplicantUP s \<and> AuthMode < 3)" "\<not> (\<not> rc_SupplicantUP s \<and> AuthMode \<notin> {4, 7, 5})"
    using assms(1) by (auto simp: rsn_supported_def split: if_splits)
  have r: "replicate 243 0 = [0, 0, 0, 0, 0, 0, 0, 0] @ replicate 235 (0 :: UINT8)" "replicate 239 0 = [0, 0, 0, 0, 0, 0] @ replicate 233 (0 :: UINT8)"
    by (simp_all add: eval_nat_numeral)
  show ?thesis
    unfolding RTMPMakeRSNIE_def Let_def make_cipher [OF w] if_not_P [OF go(1)] if_not_P [OF go(2)]
    by (cases "primary_rsnie AuthMode")
      (use assms(2) in \<open>simp_all add: Let_def RTMPMakeRsnIeAKM_def RTMPMakeRsnIeCap_def NdisMoveMemory_def ie_base_def ie_oui_def
         OUI_WPA_def OUI_WPA2_def le16_small rsn_body_def r\<close>)
qed

section \<open>Extraction\<close>

text \<open>The element in the frame: identifier, length, contents.\<close>

definition assoc_rsn_ie :: "rsn_cfg \<Rightarrow> nat \<Rightarrow> bytes" where
  "assoc_rsn_ie s AuthMode =
     [if AuthMode = Ndis802_11AuthModeWPA2PSK \<or> AuthMode = Ndis802_11AuthModeWPA2 then IE_RSN else IE_WPA, word_of_nat (rc_RSNIE_Len s)]
     @ take (rc_RSNIE_Len s) (rc_RSN_IE s)"

lemma extract_wpa2:
  fixes g p a :: UINT8 and rest :: bytes
  defines "e \<equiv> [48, word_of_nat (20 + length rest), 1, 0, 0, 0x0F, 0xAC, g, 1, 0, 0, 0x0F, 0xAC, p, 1, 0, 0, 0x0F, 0xAC, a, 0, 0] @ rest"
  assumes "length rest < 200"
  shows "WPA_ExtractSuiteFromRSNIE e (22 + length rest) GROUP_SUITE = Some (Some 4, 1)"
    "WPA_ExtractSuiteFromRSNIE e (22 + length rest) PAIRWISE_SUITE = Some (Some 10, 1)"
    "WPA_ExtractSuiteFromRSNIE e (22 + length rest) AKM_SUITE = Some (Some 16, 1)"
    "WPA_ExtractSuiteFromRSNIE e (22 + length rest) RSN_CAP_INFO = Some (Some 20, 1)"
    "rest = [1, 0] @ k \<Longrightarrow> length k = 16 \<Longrightarrow> WPA_ExtractSuiteFromRSNIE e (22 + length rest) PMKID_LIST = Some (Some 24, 1)"
proof -
  have u: "unat (word_of_nat (20 + length rest) :: UINT8) = 20 + length rest"
    using assms(2) by (simp add: unsigned_of_nat take_bit_nat_eq_self del: of_nat_add)
  show "WPA_ExtractSuiteFromRSNIE e (22 + length rest) GROUP_SUITE = Some (Some 4, 1)"
    "WPA_ExtractSuiteFromRSNIE e (22 + length rest) PAIRWISE_SUITE = Some (Some 10, 1)"
    "WPA_ExtractSuiteFromRSNIE e (22 + length rest) AKM_SUITE = Some (Some 16, 1)"
    "WPA_ExtractSuiteFromRSNIE e (22 + length rest) RSN_CAP_INFO = Some (Some 20, 1)"
    "rest = [1, 0] @ k \<Longrightarrow> length k = 16 \<Longrightarrow> WPA_ExtractSuiteFromRSNIE e (22 + length rest) PMKID_LIST = Some (Some 24, 1)"
    using u by (simp_all add: WPA_ExtractSuiteFromRSNIE_def Let_def e_def get16_def extract_akm_def extract_tail_def del: of_nat_add)
qed

lemma extract_wpa1:
  fixes g p a :: UINT8
  defines "e \<equiv> [221, 22, 0, 0x50, 0xF2, 1, 1, 0, 0, 0x50, 0xF2, g, 1, 0, 0, 0x50, 0xF2, p, 1, 0, 0, 0x50, 0xF2, a]"
  shows "WPA_ExtractSuiteFromRSNIE e 24 GROUP_SUITE = Some (Some 8, 1)"
    "WPA_ExtractSuiteFromRSNIE e 24 PAIRWISE_SUITE = Some (Some 14, 1)"
    "WPA_ExtractSuiteFromRSNIE e 24 AKM_SUITE = Some (Some 20, 1)"
  by (simp_all add: WPA_ExtractSuiteFromRSNIE_def Let_def e_def get16_def extract_akm_def extract_tail_def)

lemma element_wpa2:
  assumes "rsn_supported s AuthMode WepStatus" "rsn_akm (primary_rsnie AuthMode) AuthMode = Some a" "primary_rsnie AuthMode = Wpa2Ie"
  shows "assoc_rsn_ie (RTMPMakeRSNIE s AuthMode WepStatus) AuthMode
    = [48, word_of_nat (20 + length ([] :: bytes)), 1, 0, 0, 0x0F, 0xAC, rsn_group (rc_GroupCipher s) WepStatus (rc_bMixCipher s), 1, 0, 0, 0x0F, 0xAC,
       rsn_pairwise WepStatus, 1, 0, 0, 0x0F, 0xAC, a, 0, 0] @ []"
    "rc_RSNIE_Len (RTMPMakeRSNIE s AuthMode WepStatus) = 20"
proof -
  have "AuthMode = 6 \<or> AuthMode = 7"
    using assms(2,3) by (auto simp: primary_rsnie_def rsn_akm_def split: if_splits)
  then show "assoc_rsn_ie (RTMPMakeRSNIE s AuthMode WepStatus) AuthMode
    = [48, word_of_nat (20 + length ([] :: bytes)), 1, 0, 0, 0x0F, 0xAC, rsn_group (rc_GroupCipher s) WepStatus (rc_bMixCipher s), 1, 0, 0, 0x0F, 0xAC,
       rsn_pairwise WepStatus, 1, 0, 0, 0x0F, 0xAC, a, 0, 0] @ []"
    "rc_RSNIE_Len (RTMPMakeRSNIE s AuthMode WepStatus) = 20"
    using assms(3) make_rsnie [OF assms(1,2)]
    by (auto simp: assoc_rsn_ie_def rsn_body_def ie_oui_def OUI_WPA2_def Let_def)
qed

lemma element_wpa1:
  assumes "rsn_supported s AuthMode WepStatus" "rsn_akm (primary_rsnie AuthMode) AuthMode = Some a" "primary_rsnie AuthMode = WpaIe"
  shows "assoc_rsn_ie (RTMPMakeRSNIE s AuthMode WepStatus) AuthMode
    = [221, 22, 0, 0x50, 0xF2, 1, 1, 0, 0, 0x50, 0xF2, rsn_group (rc_GroupCipher s) WepStatus (rc_bMixCipher s), 1, 0, 0, 0x50, 0xF2,
       rsn_pairwise WepStatus, 1, 0, 0, 0x50, 0xF2, a]"
    "rc_RSNIE_Len (RTMPMakeRSNIE s AuthMode WepStatus) = 22"
proof -
  have "AuthMode \<noteq> 6 \<and> AuthMode \<noteq> 7" using assms(3) by (auto simp: primary_rsnie_def)
  then show "assoc_rsn_ie (RTMPMakeRSNIE s AuthMode WepStatus) AuthMode
    = [221, 22, 0, 0x50, 0xF2, 1, 1, 0, 0, 0x50, 0xF2, rsn_group (rc_GroupCipher s) WepStatus (rc_bMixCipher s), 1, 0, 0, 0x50, 0xF2,
       rsn_pairwise WepStatus, 1, 0, 0, 0x50, 0xF2, a]"
    "rc_RSNIE_Len (RTMPMakeRSNIE s AuthMode WepStatus) = 22"
    using assms(3) make_rsnie [OF assms(1,2)]
    by (auto simp: assoc_rsn_ie_def rsn_body_def ie_oui_def OUI_WPA_def Let_def)
qed

lemma element_pmkid:
  assumes "rsn_supported s AuthMode WepStatus" "rsn_akm (primary_rsnie AuthMode) AuthMode = Some a" "primary_rsnie AuthMode = Wpa2Ie"
    and "length K = 16"
  shows "assoc_rsn_ie (append_pmkid (RTMPMakeRSNIE s AuthMode WepStatus) K) AuthMode
    = [48, word_of_nat (20 + length ([1, 0] @ K)), 1, 0, 0, 0x0F, 0xAC, rsn_group (rc_GroupCipher s) WepStatus (rc_bMixCipher s), 1, 0, 0, 0x0F, 0xAC,
       rsn_pairwise WepStatus, 1, 0, 0, 0x0F, 0xAC, a, 0, 0] @ [1, 0] @ K"
proof -
  have "AuthMode = 6 \<or> AuthMode = 7"
    using assms(2,3) by (auto simp: primary_rsnie_def rsn_akm_def split: if_splits)
  moreover have "replicate 235 0 = [0, 0] @ replicate 233 (0 :: UINT8)" by (simp add: eval_nat_numeral)
  ultimately show ?thesis
    using assms(3,4) make_rsnie [OF assms(1,2)]
    by (auto simp: assoc_rsn_ie_def append_pmkid_def rsn_body_def ie_oui_def OUI_WPA2_def Let_def NdisMoveMemory_def le16_small)
qed

text \<open>The PMKID that an association request announces is the one the parser returns.\<close>

lemma pmkid_parsed:
  assumes "rsn_supported s AuthMode WepStatus" "primary_rsnie AuthMode = Wpa2Ie" "length K = 16"
  shows "WPA_ExtractSuiteFromRSNIE (assoc_rsn_ie (append_pmkid (RTMPMakeRSNIE s AuthMode WepStatus) K) AuthMode) 40 PMKID_LIST = Some (Some 24, 1)"
    "extracted (assoc_rsn_ie (append_pmkid (RTMPMakeRSNIE s AuthMode WepStatus) K) AuthMode) PMKID_LIST (Some 24, 1) = Some K"
proof -
  obtain a where a: "rsn_akm (primary_rsnie AuthMode) AuthMode = Some a" using auth_modes [OF assms(1)] .
  note e = element_pmkid [OF assms(1) a assms(2,3)]
  show "WPA_ExtractSuiteFromRSNIE (assoc_rsn_ie (append_pmkid (RTMPMakeRSNIE s AuthMode WepStatus) K) AuthMode) 40 PMKID_LIST = Some (Some 24, 1)"
    using extract_wpa2(5) [where rest = "[1, 0] @ K", OF _ refl assms(3)] assms(3) unfolding e by simp
  show "extracted (assoc_rsn_ie (append_pmkid (RTMPMakeRSNIE s AuthMode WepStatus) K) AuthMode) PMKID_LIST (Some 24, 1) = Some K"
    using assms(3) unfolding e by (simp add: extracted_def suite_size_def)
qed

section \<open>Properties\<close>

text \<open>C8: what the station announces is what its parser reads.  The element built from the configuration and sent in the association
  request is parsed by \<^verbatim>\<open>WPA_ExtractSuiteFromRSNIE\<close> into exactly one group suite, one pairwise suite and one
  AKM suite, those of the configured ciphers and authentication mode.\<close>

theorem rsnie_roundtrip:
  assumes "rsn_supported s AuthMode WepStatus"
  shows "\<exists>a r1 r2 r3. let s' = RTMPMakeRSNIE s AuthMode WepStatus; e = assoc_rsn_ie s' AuthMode; oui = ie_oui (primary_rsnie AuthMode) in
    rsn_akm (primary_rsnie AuthMode) AuthMode = Some a
    \<and> WPA_ExtractSuiteFromRSNIE e (rc_RSNIE_Len s' + 2) GROUP_SUITE = Some r1
    \<and> extracted e GROUP_SUITE r1 = Some (oui @ [rsn_group (rc_GroupCipher s) WepStatus (rc_bMixCipher s)])
    \<and> WPA_ExtractSuiteFromRSNIE e (rc_RSNIE_Len s' + 2) PAIRWISE_SUITE = Some r2
    \<and> extracted e PAIRWISE_SUITE r2 = Some (oui @ [rsn_pairwise WepStatus])
    \<and> WPA_ExtractSuiteFromRSNIE e (rc_RSNIE_Len s' + 2) AKM_SUITE = Some r3 \<and> extracted e AKM_SUITE r3 = Some (oui @ [a])"
proof -
  obtain a where a: "rsn_akm (primary_rsnie AuthMode) AuthMode = Some a" using auth_modes [OF assms] .
  show ?thesis
  proof (cases "primary_rsnie AuthMode")
    case WpaIe
    note e = element_wpa1 [OF assms a WpaIe]
    show ?thesis
      by (rule exI [of _ a], rule exI [of _ "(Some 8, 1)"], rule exI [of _ "(Some 14, 1)"], rule exI [of _ "(Some 20, 1)"])
        (use a WpaIe in \<open>simp add: e extract_wpa1 Let_def extracted_def suite_size_def ie_oui_def OUI_WPA_def\<close>)
  next
    case Wpa2Ie
    note e = element_wpa2 [OF assms a Wpa2Ie]
    have n: "rc_RSNIE_Len (RTMPMakeRSNIE s AuthMode WepStatus) + 2 = 22 + length ([] :: bytes)" using e(2) by simp
    note x = extract_wpa2 [where rest = "[]" and g = "rsn_group (rc_GroupCipher s) WepStatus (rc_bMixCipher s)" and p = "rsn_pairwise WepStatus" and a = a]
    show ?thesis
      unfolding Let_def n e(1)
      by (rule exI [of _ a], rule exI [of _ "(Some 4, 1)"], rule exI [of _ "(Some 10, 1)"], rule exI [of _ "(Some 16, 1)"],
          intro conjI x(1) x(2) x(3) a)
        (use Wpa2Ie in \<open>simp_all add: extracted_def suite_size_def ie_oui_def OUI_WPA2_def\<close>)
  qed
qed

definition rsn_cfg0 :: rsn_cfg where
  "rsn_cfg0 = \<lparr>rc_RSN_IE = replicate 255 0, rc_RSNIE_Len = 0, rc_SupplicantUP = False, rc_bMixCipher = False, rc_GroupCipher = Ndis802_11Encryption3Enabled\<rparr>"

theorem rsnie_roundtrip_witness:
  "\<exists>r. WPA_ExtractSuiteFromRSNIE (assoc_rsn_ie (RTMPMakeRSNIE rsn_cfg0 Ndis802_11AuthModeWPA2PSK Ndis802_11Encryption3Enabled) Ndis802_11AuthModeWPA2PSK)
      (rc_RSNIE_Len (RTMPMakeRSNIE rsn_cfg0 Ndis802_11AuthModeWPA2PSK Ndis802_11Encryption3Enabled) + 2) PAIRWISE_SUITE = Some r
    \<and> extracted (assoc_rsn_ie (RTMPMakeRSNIE rsn_cfg0 Ndis802_11AuthModeWPA2PSK Ndis802_11Encryption3Enabled) Ndis802_11AuthModeWPA2PSK)
        PAIRWISE_SUITE r = Some [0, 0x0F, 0xAC, 4]"
proof -
  have "rsn_supported rsn_cfg0 7 6" by (simp add: rsn_supported_def rsn_cfg0_def)
  from rsnie_roundtrip [OF this] show ?thesis
    by (auto simp: Let_def primary_rsnie_def ie_oui_def OUI_WPA2_def rsn_pairwise_def)
qed

text \<open>C19: the parser of received elements stays inside the element.  Whatever the octets of an element of \<^verbatim>\<open>rsnie_len\<close> octets are, and
  whatever is asked for, \<^verbatim>\<open>WPA_ExtractSuiteFromRSNIE\<close> returns, reads nothing outside the element, and the suites it
  points to, as many as the count it returns says, lie inside the element.\<close>

theorem WPA_ExtractSuiteFromRSNIE_bounds:
  assumes "rsnie_len \<le> length rsnie"
  shows "\<exists>r. WPA_ExtractSuiteFromRSNIE rsnie rsnie_len type = Some r
    \<and> (\<forall>p. fst r = Some p \<longrightarrow> p + suite_size type * unat (snd r) \<le> rsnie_len)"
proof -
  define inside where "inside r \<longleftrightarrow> (\<exists>v. r = Some v \<and> (\<forall>p. fst v = Some p \<longrightarrow> p + suite_size type * unat (snd v) \<le> rsnie_len))"
    for r :: "suite_result option"
  have u: "unat (word_of_nat c :: UINT8) \<le> c" for c by (simp add: unsigned_of_nat take_bit_eq_mod)
  have g: "get16 rsnie i = Some (unat (rsnie ! i) + 256 * unat (rsnie ! (i + 1)))" if "i + 2 \<le> rsnie_len" for i
    using that assms by (simp add: get16_def)
  have nul: "inside (Some (None, 0))" by (simp add: inside_def)
  have ptr: "inside (Some (Some p, word_of_nat c))" if "p + suite_size type * c \<le> rsnie_len" for p c
  proof -
    have "p + suite_size type * unat (word_of_nat c :: UINT8) \<le> p + suite_size type * c"
      using u [of c] by (intro add_left_mono mult_left_mono) simp_all
    then have "p + suite_size type * unat (word_of_nat c :: UINT8) \<le> rsnie_len" using that by (rule order_trans)
    then show ?thesis by (simp add: inside_def)
  qed
  have one: "inside (Some (Some p, 1))" if "p + suite_size type \<le> rsnie_len" for p using that by (simp add: inside_def)
  have tail: "inside (extract_tail rsnie type p len)" if "int p + len = int rsnie_len" "0 \<le> len" for p len
  proof (cases "len < 4")
    case True
    then show ?thesis using nul one [of p] that by (auto simp: extract_tail_def suite_size_def)
  next
    case False
    define c where "c = unat (rsnie ! (p + 2)) + 256 * unat (rsnie ! (p + 2 + 1))"
    have "get16 rsnie (p + 2) = Some c" unfolding c_def by (rule g) (use that False in linarith)
    moreover have "type = PMKID_LIST \<Longrightarrow> 0 < c \<Longrightarrow> \<not> len - 2 < 18 + 16 * (int c - 1) \<Longrightarrow> inside (Some (Some (p + 4), word_of_nat c))"
      by (rule ptr) (use that in \<open>simp add: suite_size_def\<close>)
    ultimately show ?thesis using nul one [of p] that False
      by (auto simp: extract_tail_def suite_size_def inside_def)
  qed
  have akm: "inside (extract_akm rsnie type p len)" if "int p + len = int rsnie_len" "0 \<le> len" for p len
  proof (cases "len < 6")
    case True
    then show ?thesis using nul by (simp add: extract_akm_def)
  next
    case False
    define c where "c = unat (rsnie ! p) + 256 * unat (rsnie ! (p + 1))"
    have G: "get16 rsnie p = Some c" unfolding c_def by (rule g) (use that False in linarith)
    show ?thesis
    proof (cases "len < 6 + 4 * (int c - 1)")
      case True
      then show ?thesis using nul False G by (simp add: extract_akm_def)
    next
      case ok: False
      have "type = AKM_SUITE \<Longrightarrow> inside (Some (Some (p + 2), word_of_nat c))"
        by (rule ptr) (use that ok in \<open>simp add: suite_size_def\<close>)
      moreover have "inside (extract_tail rsnie type (p + nat (6 + 4 * (int c - 1))) (len - (6 + 4 * (int c - 1))))"
        by (rule tail) (use that ok in simp_all)
      ultimately show ?thesis using nul False ok G by (simp add: extract_akm_def Let_def)
    qed
  qed
  have "inside (WPA_ExtractSuiteFromRSNIE rsnie rsnie_len type)"
  proof (cases "int rsnie_len - 2 \<le> 0 \<or> int (unat (rsnie ! 1)) \<noteq> int rsnie_len - 2 \<or> rsnie ! 0 \<noteq> IE_WPA \<and> rsnie ! 0 \<noteq> IE_RSN
      \<or> int rsnie_len - 2 < int (if rsnie ! 0 = IE_WPA then 4 else 0) + 12")
    case True
    then show ?thesis using nul assms by (auto simp: WPA_ExtractSuiteFromRSNIE_def Let_def)
  next
    case False
    define b where "b = (if rsnie ! 0 = IE_WPA then 4 else 0 :: nat)"
    define c where "c = unat (rsnie ! (2 + b + 6)) + 256 * unat (rsnie ! (2 + b + 6 + 1))"
    have n: "b + 14 \<le> rsnie_len" using False unfolding b_def by linarith
    have G: "get16 rsnie (2 + b + 6) = Some c" unfolding c_def by (rule g) (use n in linarith)
    let ?o = "int b + 12 + 4 * (int c - 1)"
    have parts: "\<not> int rsnie_len - 2 < ?o \<Longrightarrow> type = PAIRWISE_SUITE \<Longrightarrow> inside (Some (Some (2 + b + 8), word_of_nat c))"
      "type = GROUP_SUITE \<Longrightarrow> inside (Some (Some (2 + b + 2), 1))"
      "\<not> int rsnie_len - 2 < ?o \<Longrightarrow> inside (extract_akm rsnie type (2 + nat ?o) (int rsnie_len - 2 - ?o))"
      using n by (intro ptr one akm; simp add: suite_size_def; linarith)+
    have "WPA_ExtractSuiteFromRSNIE rsnie rsnie_len type =
      (if int rsnie_len - 2 < ?o then Some (None, 0)
       else if type = GROUP_SUITE then Some (Some (2 + b + 2), 1)
       else if type = PAIRWISE_SUITE then Some (Some (2 + b + 8), word_of_nat c)
       else extract_akm rsnie type (2 + nat ?o) (int rsnie_len - 2 - ?o))"
      using False assms unfolding WPA_ExtractSuiteFromRSNIE_def Let_def b_def [symmetric] G by (auto simp: b_def)
    then show ?thesis using nul parts by simp
  qed
  then show ?thesis by (simp add: inside_def)
qed

theorem WPA_ExtractSuiteFromRSNIE_bounds_witness:
  "\<exists>r. WPA_ExtractSuiteFromRSNIE ([48, 12, 1, 0, 0, 0x0F, 0xAC, 4, 0xff, 0xff] @ replicate 4 0) 14 PAIRWISE_SUITE = Some r
    \<and> (\<forall>p. fst r = Some p \<longrightarrow> p + 4 * unat (snd r) \<le> 14)"
  using WPA_ExtractSuiteFromRSNIE_bounds [of 14 "[48, 12, 1, 0, 0, 0x0F, 0xAC, 4, 0xff, 0xff] @ replicate 4 0" PAIRWISE_SUITE]
  by (simp add: suite_size_def)

end
