(* ===== verification/AuthMachine.thy ===== *)
theory AuthMachine
  imports WpaHandshake
begin

text \<open>
  The authentication of the station: the handlers of \<^verbatim>\<open>sta/auth.c\<close> and \<^verbatim>\<open>sta/auth_rsp.c\<close> with the checks of
  \<^verbatim>\<open>common/cmm_sanity.c\<close> they call, on the adapter of \<^verbatim>\<open>MlmeQueue\<close> extended by the fields they use.  They are called by
  the dispatch loop of \<^verbatim>\<open>MlmeHandler\<close> and answer by messages they put into its queue.  An \<^verbatim>\<open>Elem\<close> is the index of its
  slot; its buffer has 1600 octets whatever the length of the frame, so the reads of a handler lie inside it.  The answers
  of the allocator, with the uninitialised memory they hand out, are collected in \<open>auth_mem\<close>.  Frames sent, events to
  user space, and the calls to \<^verbatim>\<open>LinkDown\<close> and \<^verbatim>\<open>IterateOnBssTab\<close> are recorded in order.
\<close>

section \<open>Data\<close>

abbreviation (input) MLME_SUCCESS :: UINT16 where "MLME_SUCCESS \<equiv> 0"
abbreviation (input) MLME_REJ_TIMEOUT :: UINT16 where "MLME_REJ_TIMEOUT \<equiv> 16"
abbreviation (input) MLME_INVALID_FORMAT :: UINT16 where "MLME_INVALID_FORMAT \<equiv> 0x51"
abbreviation (input) MLME_FAIL_NO_RESOURCE :: UINT16 where "MLME_FAIL_NO_RESOURCE \<equiv> 0x52"
abbreviation (input) MLME_STATE_MACHINE_REJECT :: UINT16 where "MLME_STATE_MACHINE_REJECT \<equiv> 0x53"
abbreviation (input) REASON_CLS2ERR :: UINT16 where "REASON_CLS2ERR \<equiv> 6"
abbreviation (input) REASON_4_WAY_TIMEOUT :: UINT16 where "REASON_4_WAY_TIMEOUT \<equiv> 15"
abbreviation (input) REASON_GROUP_KEY_HS_TIMEOUT :: UINT16 where "REASON_GROUP_KEY_HS_TIMEOUT \<equiv> 16"
abbreviation (input) MT2_AUTH_CONF :: nat where "MT2_AUTH_CONF \<equiv> 35"
abbreviation (input) MT2_DEAUTH_CONF :: nat where "MT2_DEAUTH_CONF \<equiv> 36"
abbreviation (input) Ndis802_11AuthModeOpen :: UINT16 where "Ndis802_11AuthModeOpen \<equiv> 0"
abbreviation (input) AUTH_TIMEOUT :: nat where "AUTH_TIMEOUT \<equiv> 300"
abbreviation (input) CIPHER_TEXT_LEN :: nat where "CIPHER_TEXT_LEN \<equiv> 128"
abbreviation (input) IE_CHALLENGE_TEXT :: UINT8 where "IE_CHALLENGE_TEXT \<equiv> 16"
abbreviation (input) IW_DEAUTH_EVENT_FLAG :: nat where "IW_DEAUTH_EVENT_FLAG \<equiv> 0x0202"
abbreviation (input) IW_GROUP_HS_TIMEOUT_EVENT_FLAG :: nat where "IW_GROUP_HS_TIMEOUT_EVENT_FLAG \<equiv> 0x020A"
abbreviation (input) IW_PAIRWISE_HS_TIMEOUT_EVENT_FLAG :: nat where "IW_PAIRWISE_HS_TIMEOUT_EVENT_FLAG \<equiv> 0x020B"
abbreviation (input) IW_SHARED_WEP_FAIL :: nat where "IW_SHARED_WEP_FAIL \<equiv> 0x021A"

datatype auth_event =
    MiniportMMRequest bytes
  | RTMPSendWirelessEvent nat
  | LinkDown bool
  | IterateOnBssTab

text \<open>\<open>au_Bssid\<close>, \<open>au_Alg\<close> and \<open>au_BssIdx\<close> are fields of \<^verbatim>\<open>MlmeAux\<close>, \<open>au_ApBssid\<close> is \<^verbatim>\<open>CommonCfg.Bssid\<close>, \<open>au_InfraOn\<close> the
  macro \<^verbatim>\<open>INFRA_ON\<close>, \<open>au_TimerRunning\<close> whether \<^verbatim>\<open>MlmeAux.AuthTimer\<close> is set; the others are fields of the adapter and its
  \<^verbatim>\<open>StaCfg\<close>.\<close>

record AUTH_ADAPTER = RTMP_ADAPTER +
  au_CurrentAddress :: bytes
  au_Bssid :: bytes
  au_Alg :: UINT16
  au_BssIdx :: nat
  au_ApBssid :: bytes
  au_InfraOn :: bool
  au_TimerRunning :: bool
  au_bBlockAssoc :: bool
  au_SharedKey :: "CIPHER_KEY list"
  au_DefaultKeyId :: nat
  au_AuthFailReason :: UINT16
  au_AuthFailSta :: bytes
  au_DeauthReason :: UINT16
  au_DeauthSta :: bytes
  au_WpaSupplicantUP :: bool
  au_AuthMode :: nat
  au_PortSecured :: nat
  au_bLostAp :: bool
  au_Log :: "auth_event list"

record auth_mem =
  am_Out :: "bytes option"
  am_Chlg :: "bytes option"
  am_Cyper :: "bytes option"
  am_arc4 :: "ARC4_CTX_STRUC option"
  am_seed :: bool

definition slot_Msg :: "AUTH_ADAPTER \<Rightarrow> nat \<Rightarrow> bytes" where
  "slot_Msg s i = me_Msg (mq_Entry (ad_Queue s) ! i)"

definition au_emit :: "auth_event list \<Rightarrow> AUTH_ADAPTER \<Rightarrow> AUTH_ADAPTER" where
  "au_emit evs s = s\<lparr>au_Log := au_Log s @ evs\<rparr>"

definition set_AuthTimer :: "nat \<Rightarrow> AUTH_ADAPTER \<Rightarrow> AUTH_ADAPTER" where
  "set_AuthTimer v s = s\<lparr>au_TimerRunning := True, ad_Log := ad_Log s @ [RTMPSetTimer AuthTimer v]\<rparr>"

definition cancel_AuthTimer :: "AUTH_ADAPTER \<Rightarrow> AUTH_ADAPTER" where
  "cancel_AuthTimer s = s\<lparr>au_TimerRunning := False, ad_Log := ad_Log s @ [RTMPCancelTimer AuthTimer]\<rparr>"

definition set_AuthState :: "nat \<Rightarrow> AUTH_ADAPTER \<Rightarrow> AUTH_ADAPTER" where
  "set_AuthState st s = s\<lparr>ad_AuthMachine := (ad_AuthMachine s)\<lparr>sm_CurrState := st\<rparr>\<rparr>"

text \<open>\<^verbatim>\<open>MlmeEnqueue(pAd, MLME_CNTL_STATE_MACHINE, MsgType, 2, &Status, 0)\<close>\<close>

definition conf :: "nat \<Rightarrow> UINT16 \<Rightarrow> AUTH_ADAPTER \<Rightarrow> AUTH_ADAPTER" where
  "conf MsgType Status s = snd (MlmeEnqueue s MLME_CNTL_STATE_MACHINE MsgType 2 (Some (bytes_le16 Status)) 0)"

section \<open>Frames\<close>

text \<open>The bit fields of \<^verbatim>\<open>FRAME_CONTROL\<close>: type in bits 2 and 3 (0 for management), subtype in bits 4 to 7, \<^verbatim>\<open>ToDs\<close> in bit 8.\<close>

definition MgtMacHeaderInit :: "AUTH_ADAPTER \<Rightarrow> nat \<Rightarrow> UINT8 \<Rightarrow> bytes \<Rightarrow> bytes \<Rightarrow> bytes" where
  "MgtMacHeaderInit s SubType ToDs pDA pBssid =
     [push_bit 4 (word_of_nat SubType), ToDs AND 1, 0, 0] @ pDA @ au_CurrentAddress s @ pBssid @ [0, 0]"

definition msg_u16 :: "bytes \<Rightarrow> nat \<Rightarrow> UINT16" where
  "msg_u16 Msg i = word_of_nat (le16 (Msg ! i) (Msg ! (i + 1)))"

text \<open>The checks return the result and the OUT parameters.\<close>

definition MlmeAuthReqSanity :: "bytes \<Rightarrow> bool \<times> bytes \<times> nat \<times> UINT16" where
  "MlmeAuthReqSanity Msg =
    (let Addr = take 6 Msg; Alg = msg_u16 Msg 6; Timeout = unat (words_le32 (take 4 (drop 8 Msg)) ! 0)
     in ((Alg = 1 \<or> Alg = 0) \<and> Addr ! 0 AND 1 = 0, Addr, Timeout, Alg))"

definition PeerAuthSanity :: "bytes \<Rightarrow> bytes \<Rightarrow> bool \<times> bytes \<times> UINT16 \<times> UINT16 \<times> UINT16 \<times> bytes" where
  "PeerAuthSanity Msg ChlgText =
    (let Addr2 = take 6 (drop 10 Msg); Alg = msg_u16 Msg 24; Seq = msg_u16 Msg 26; Status = msg_u16 Msg 28
     in if Alg = 0 then (Seq = 1 \<or> Seq = 2, Addr2, Alg, Seq, Status, ChlgText)
        else if Alg = 1 then
          if Seq = 1 \<or> Seq = 4 then (True, Addr2, Alg, Seq, Status, ChlgText)
          else if Seq = 2 \<or> Seq = 3 then (True, Addr2, Alg, Seq, Status, NdisMoveMemory ChlgText 0 (take CIPHER_TEXT_LEN (drop 32 Msg)))
          else (False, Addr2, Alg, Seq, Status, ChlgText)
        else (False, Addr2, Alg, Seq, Status, ChlgText))"

definition PeerDeauthSanity :: "bytes \<Rightarrow> bool \<times> bytes \<times> bytes \<times> bytes \<times> UINT16" where
  "PeerDeauthSanity Msg = (True, take 6 (drop 4 Msg), take 6 (drop 10 Msg), take 6 (drop 16 Msg), msg_u16 Msg 24)"

text \<open>The macro \<^verbatim>\<open>INC_TX_TSC\<close>: octet \<open>i\<close> is incremented, and the next one when it wraps; \<open>n\<close> octets are left.\<close>

fun inc_tsc_loop :: "nat \<Rightarrow> nat \<Rightarrow> bytes \<Rightarrow> bytes" where
  "inc_tsc_loop 0 i tsc = tsc"
| "inc_tsc_loop (Suc n) i tsc =
    (let tsc = tsc[i := tsc ! i + 1] in if tsc ! i = 0 then inc_tsc_loop n (Suc i) tsc else tsc)"

definition INC_TX_TSC :: "bytes \<Rightarrow> nat \<Rightarrow> bytes" where
  "INC_TX_TSC tsc cnt = inc_tsc_loop cnt 0 tsc"

section \<open>Requests\<close>

text \<open>During the block period of the WPA countermeasures the request is refused and yet \<^verbatim>\<open>TRUE\<close> is returned.\<close>

definition AUTH_ReqSend :: "auth_mem \<Rightarrow> AUTH_ADAPTER \<Rightarrow> nat \<Rightarrow> UINT16 \<Rightarrow> bytes option \<Rightarrow> nat \<Rightarrow> bool \<times> AUTH_ADAPTER" where
  "AUTH_ReqSend env s i SeqNo pNewElement ElementLen =
    (if au_bBlockAssoc s then (True, conf MT2_AUTH_CONF MLME_STATE_MACHINE_REJECT (set_AuthState AUTH_REQ_IDLE s))
     else
       let (ok, Addr, Timeout, Alg) = MlmeAuthReqSanity (slot_Msg s i)
       in if \<not> ok then (False, s)
          else
            let s = cancel_AuthTimer s; s = s\<lparr>au_Bssid := Addr, au_Alg := Alg\<rparr>
            in case am_Out env of
                 None \<Rightarrow> (False, conf MT2_AUTH_CONF MLME_FAIL_NO_RESOURCE (set_AuthState AUTH_REQ_IDLE s))
               | Some pOutBuffer \<Rightarrow>
                   let AuthHdr = MgtMacHeaderInit s SUBTYPE_AUTH 0 Addr (au_Bssid s);
                       (buf, FrameLen) = MakeOutgoingFrame pOutBuffer [AuthHdr, bytes_le16 Alg, bytes_le16 SeqNo, bytes_le16 MLME_SUCCESS];
                       (buf, FrameLen) = (case pNewElement of
                           Some e \<Rightarrow> if ElementLen \<noteq> 0
                             then let (b, tmp) = MakeOutgoingFrame (drop FrameLen buf) [take ElementLen e] in (take FrameLen buf @ b, FrameLen + tmp)
                             else (buf, FrameLen)
                         | None \<Rightarrow> (buf, FrameLen))
                   in (True, set_AuthTimer Timeout (au_emit [MiniportMMRequest (take FrameLen buf)] s)))"

definition MlmeAuthReqAction :: "auth_mem \<Rightarrow> AUTH_ADAPTER \<Rightarrow> nat \<Rightarrow> AUTH_ADAPTER" where
  "MlmeAuthReqAction env s i =
    (case AUTH_ReqSend env s i 1 None 0 of
       (True, s) \<Rightarrow> set_AuthState AUTH_WAIT_SEQ2 s
     | (False, s) \<Rightarrow> conf MT2_AUTH_CONF MLME_INVALID_FORMAT (set_AuthState AUTH_REQ_IDLE s))"

section \<open>Responses\<close>

text \<open>The answer to a challenge: message 3, encrypted with the default key.\<close>

definition auth_challenged :: "auth_mem \<Rightarrow> bytes \<Rightarrow> UINT16 \<Rightarrow> UINT16 \<Rightarrow> bytes \<Rightarrow> bytes \<Rightarrow> AUTH_ADAPTER \<Rightarrow> AUTH_ADAPTER" where
  "auth_challenged env Addr2 Alg Seq ChlgText CyperChlgText s =
    (case am_Out env of
       None \<Rightarrow> conf MT2_AUTH_CONF MLME_FAIL_NO_RESOURCE (set_AuthState AUTH_REQ_IDLE s)
     | Some pOutBuffer \<Rightarrow>
         let AuthHdr = MgtMacHeaderInit s SUBTYPE_AUTH 0 Addr2 (au_Bssid s);
             AuthHdr = AuthHdr[1 := AuthHdr ! 1 OR 0x40];
             k = au_DefaultKeyId s;
             key = (au_SharedKey s ! k)\<lparr>ck_TxTsc := INC_TX_TSC (ck_TxTsc (au_SharedKey s ! k)) LEN_WEP_TSC\<rparr>;
             s = s\<lparr>au_SharedKey := (au_SharedKey s)[k := key]\<rparr>;
             iv_hdr = RTMPConstructWEPIVHdr (word_of_nat k) (ck_TxTsc key) (NdisZeroMemory 4);
             (Cyper, c_len) = MakeOutgoingFrame CyperChlgText [bytes_le16 Alg, bytes_le16 Seq, bytes_le16 MLME_SUCCESS, [IE_CHALLENGE_TEXT],
               [word_of_nat CIPHER_TEXT_LEN], ChlgText];
             (ok, Cyper, held) = RTMPSoftEncryptWEP (am_arc4 env) (am_seed env) iv_hdr key Cyper c_len
         in if \<not> ok then conf MT2_AUTH_CONF MLME_FAIL_NO_RESOURCE (set_AuthState AUTH_REQ_IDLE s)
            else
              let c_len = c_len + LEN_ICV;
                  (buf, FrameLen) = MakeOutgoingFrame pOutBuffer [AuthHdr, iv_hdr, take c_len Cyper]
              in set_AuthState AUTH_WAIT_SEQ4 (set_AuthTimer AUTH_TIMEOUT (au_emit [MiniportMMRequest (take FrameLen buf)] s)))"

definition PeerAuthRspAtSeq2Action :: "auth_mem \<Rightarrow> AUTH_ADAPTER \<Rightarrow> nat \<Rightarrow> AUTH_ADAPTER" where
  "PeerAuthRspAtSeq2Action env s i =
    (case (am_Chlg env, am_Cyper env) of
       (Some ChlgText, Some CyperChlgText) \<Rightarrow>
         let (ok, Addr2, Alg, Seq, Status, ChlgText) = PeerAuthSanity (slot_Msg s i) ChlgText
         in if \<not> (ok \<and> au_Bssid s = Addr2 \<and> Seq = 2) then s
            else
              let s = cancel_AuthTimer s
              in if Status \<noteq> MLME_SUCCESS
                 then conf MT2_AUTH_CONF Status (set_AuthState AUTH_REQ_IDLE (s\<lparr>au_AuthFailReason := Status, au_AuthFailSta := Addr2\<rparr>))
                 else if au_Alg s = Ndis802_11AuthModeOpen then conf MT2_AUTH_CONF Status (set_AuthState AUTH_REQ_IDLE s)
                 else auth_challenged env Addr2 Alg (Seq + 1) ChlgText CyperChlgText s
     | _ \<Rightarrow> s)"

definition PeerAuthRspAtSeq4Action :: "auth_mem \<Rightarrow> AUTH_ADAPTER \<Rightarrow> nat \<Rightarrow> AUTH_ADAPTER" where
  "PeerAuthRspAtSeq4Action env s i =
    (case am_Chlg env of
       None \<Rightarrow> s
     | Some ChlgText \<Rightarrow>
         let (ok, Addr2, Alg, Seq, Status, ChlgText) = PeerAuthSanity (slot_Msg s i) ChlgText
         in if \<not> (ok \<and> au_Bssid s = Addr2 \<and> Seq = 4) then s
            else
              let s = cancel_AuthTimer s;
                  s = (if Status \<noteq> MLME_SUCCESS
                       then au_emit [RTMPSendWirelessEvent IW_SHARED_WEP_FAIL] (s\<lparr>au_AuthFailReason := Status, au_AuthFailSta := Addr2\<rparr>)
                       else s)
              in conf MT2_AUTH_CONF Status (set_AuthState AUTH_REQ_IDLE s))"

definition AuthTimeoutAction :: "AUTH_ADAPTER \<Rightarrow> AUTH_ADAPTER" where
  "AuthTimeoutAction s = conf MT2_AUTH_CONF MLME_REJ_TIMEOUT (set_AuthState AUTH_REQ_IDLE s)"

definition InvalidStateWhenAuth :: "AUTH_ADAPTER \<Rightarrow> AUTH_ADAPTER" where
  "InvalidStateWhenAuth s = conf MT2_AUTH_CONF MLME_STATE_MACHINE_REJECT (set_AuthState AUTH_REQ_IDLE s)"

section \<open>Deauthentication\<close>

text \<open>The parameter \<open>Msg\<close> is the message of an element that the callers in \<^verbatim>\<open>sta/sta_cfg.c\<close> allocate.\<close>

definition MlmeDeauthReqAction :: "auth_mem \<Rightarrow> AUTH_ADAPTER \<Rightarrow> bytes \<Rightarrow> AUTH_ADAPTER" where
  "MlmeDeauthReqAction env s Msg =
    (case am_Out env of
       None \<Rightarrow> conf MT2_DEAUTH_CONF MLME_FAIL_NO_RESOURCE (set_AuthState AUTH_REQ_IDLE s)
     | Some pOutBuffer \<Rightarrow>
         let Addr = take 6 Msg; Reason = msg_u16 Msg 6;
             DeauthHdr = MgtMacHeaderInit s SUBTYPE_DEAUTH 0 Addr (au_Bssid s);
             (buf, FrameLen) = MakeOutgoingFrame pOutBuffer [DeauthHdr, bytes_le16 Reason];
             s = au_emit [MiniportMMRequest (take FrameLen buf)] s;
             s = set_AuthState AUTH_REQ_IDLE (s\<lparr>au_DeauthReason := Reason, au_DeauthSta := Addr\<rparr>)
         in au_emit [RTMPSendWirelessEvent IW_DEAUTH_EVENT_FLAG] (conf MT2_DEAUTH_CONF MLME_SUCCESS s))"

definition Cls2errAction :: "auth_mem \<Rightarrow> AUTH_ADAPTER \<Rightarrow> bytes \<Rightarrow> AUTH_ADAPTER" where
  "Cls2errAction env s pAddr =
    (case am_Out env of
       None \<Rightarrow> s
     | Some pOutBuffer \<Rightarrow>
         let DeauthHdr = MgtMacHeaderInit s SUBTYPE_DEAUTH 0 pAddr (au_Bssid s);
             (buf, FrameLen) = MakeOutgoingFrame pOutBuffer [DeauthHdr, bytes_le16 REASON_CLS2ERR]
         in (au_emit [MiniportMMRequest (take FrameLen buf)] s)\<lparr>au_DeauthReason := REASON_CLS2ERR, au_DeauthSta := pAddr\<rparr>)"

text \<open>The callback of the timer.\<close>

definition AuthTimeout :: "auth_mem \<Rightarrow> AUTH_ADAPTER \<Rightarrow> AUTH_ADAPTER" where
  "AuthTimeout env s =
    (if RTMP_TEST_FLAG s (fRTMP_ADAPTER_HALT_IN_PROGRESS OR fRTMP_ADAPTER_NIC_NOT_EXIST) then s
     else
       let s = (if sm_CurrState (ad_AuthMachine s) = AUTH_WAIT_SEQ2 then Cls2errAction env s (au_Bssid s) else s);
           s = snd (MlmeEnqueue s AUTH_STATE_MACHINE MT2_AUTH_TIMEOUT 0 None 0)
       in s\<lparr>ad_Log := ad_Log s @ [RTUSBMlmeUp]\<rparr>)"

definition PeerAuthSimpleRspGenAndSend :: "auth_mem \<Rightarrow> AUTH_ADAPTER \<Rightarrow> bytes \<Rightarrow> UINT16 \<Rightarrow> UINT16 \<Rightarrow> UINT16 \<Rightarrow> AUTH_ADAPTER" where
  "PeerAuthSimpleRspGenAndSend env s Addr2 Alg Seq Reason =
    (if Reason \<noteq> MLME_SUCCESS then s
     else case am_Out env of
       None \<Rightarrow> s
     | Some pOutBuffer \<Rightarrow>
         let AuthHdr = MgtMacHeaderInit s SUBTYPE_AUTH 0 Addr2 (au_Bssid s);
             (buf, FrameLen) = MakeOutgoingFrame pOutBuffer [AuthHdr, bytes_le16 Alg, bytes_le16 Seq, bytes_le16 Reason]
         in au_emit [MiniportMMRequest (take FrameLen buf)] s)"

definition BROADCAST_ADDR :: bytes where "BROADCAST_ADDR = replicate 6 0xff"

definition PeerDeauthAction :: "AUTH_ADAPTER \<Rightarrow> nat \<Rightarrow> AUTH_ADAPTER" where
  "PeerDeauthAction s i =
    (let (ok, Addr1, Addr2, Addr3, Reason) = PeerDeauthSanity (slot_Msg s i)
     in if \<not> ok then s
        else if au_InfraOn s \<and> (Addr1 = au_CurrentAddress s \<or> Addr1 = BROADCAST_ADDR) \<and> Addr2 = au_ApBssid s \<and> Addr3 = au_ApBssid s
        then
          let s = (if Reason = REASON_4_WAY_TIMEOUT then au_emit [RTMPSendWirelessEvent IW_PAIRWISE_HS_TIMEOUT_EVENT_FLAG] s else s);
              s = (if Reason = REASON_GROUP_KEY_HS_TIMEOUT then au_emit [RTMPSendWirelessEvent IW_GROUP_HS_TIMEOUT_EVENT_FLAG] s else s);
              s = au_emit [RTMPSendWirelessEvent IW_DEAUTH_EVENT_FLAG] s;
              s = (if au_WpaSupplicantUP s \<and> au_AuthMode s = Ndis802_11AuthModeWPA2 \<and> au_PortSecured s = WPA_802_1X_PORT_SECURED
                   then s\<lparr>au_bLostAp := True\<rparr> else s);
              bDoIterate = (au_PortSecured s = WPA_802_1X_PORT_NOT_SECURED
                \<and> (au_AuthMode s = Ndis802_11AuthModeWPAPSK \<or> au_AuthMode s = Ndis802_11AuthModeWPA2PSK));
              s = au_emit [LinkDown True] s
          in if bDoIterate then au_emit [IterateOnBssTab] (s\<lparr>au_BssIdx := uint_add (au_BssIdx s) 1\<rparr>) else s
        else s)"

section \<open>Dispatch\<close>

text \<open>The function behind a pointer of the transition tables; the handlers of the other machines are a parameter.\<close>

definition auth_call :: "auth_mem \<Rightarrow> (STATE_MACHINE_FUNC \<Rightarrow> AUTH_ADAPTER \<Rightarrow> nat \<Rightarrow> AUTH_ADAPTER) \<Rightarrow> STATE_MACHINE_FUNC \<Rightarrow> AUTH_ADAPTER \<Rightarrow> nat \<Rightarrow> AUTH_ADAPTER" where
  "auth_call env other f s i =
    (case f of
       STATE_MACHINE_FUNC.MlmeAuthReqAction \<Rightarrow> MlmeAuthReqAction env s i
     | STATE_MACHINE_FUNC.InvalidStateWhenAuth \<Rightarrow> InvalidStateWhenAuth s
     | STATE_MACHINE_FUNC.PeerAuthRspAtSeq2Action \<Rightarrow> PeerAuthRspAtSeq2Action env s i
     | STATE_MACHINE_FUNC.PeerAuthRspAtSeq4Action \<Rightarrow> PeerAuthRspAtSeq4Action env s i
     | STATE_MACHINE_FUNC.AuthTimeoutAction \<Rightarrow> AuthTimeoutAction s
     | STATE_MACHINE_FUNC.PeerDeauthAction \<Rightarrow> PeerDeauthAction s i
     | _ \<Rightarrow> other f s i)"

end
