(* ===== verification/AuthProtocol.thy ===== *)
theory AuthProtocol
  imports AuthMachine
begin

text \<open>
  The authentication machine at work: what its handlers do to the queue and the timer, the invariant that a waiting machine
  has a timeout ahead of it, and the shared-key exchange from the request to the confirmation.
\<close>

section \<open>Messages in the queue\<close>

definition kinds :: "'x RTMP_ADAPTER_scheme \<Rightarrow> (nat \<times> nat) list" where
  "kinds s = map me_kind (mq_pending (ad_Queue s))"

definition halted :: "'x RTMP_ADAPTER_scheme \<Rightarrow> bool" where
  "halted s \<longleftrightarrow> RTMP_TEST_FLAG s (fRTMP_ADAPTER_HALT_IN_PROGRESS OR fRTMP_ADAPTER_NIC_NOT_EXIST)"

lemma enqueue_queue: "\<exists>q. snd (MlmeEnqueue s mc T n m p) = s\<lparr>ad_Queue := q\<rparr>"
proof (cases "fst (MlmeEnqueue s mc T n m p)")
  case False
  then have "snd (MlmeEnqueue s mc T n m p) = s\<lparr>ad_Queue := ad_Queue s\<rparr>"
    by (auto simp: MlmeEnqueue_def Let_def split: if_splits)
  then show ?thesis by blast
next
  case True
  then show ?thesis by (auto simp: MlmeEnqueue_def Let_def split: if_splits)
qed

lemma enqueue_kinds:
  assumes "mlme_ok s" "\<not> halted s" "mq_Num (ad_Queue s) < 40" "n \<le> 1600"
  shows "kinds (snd (MlmeEnqueue s mc T n m p)) = kinds s @ [(mc, T)]"
proof -
  let ?q = "ad_Queue s"
  let ?e = "mq_Entry ?q ! mq_Tail ?q"
  let ?e' = "?e\<lparr>me_Wcid := RESERVED_WCID, me_Occupied := True, me_Machine := mc, me_MsgType := T,
    me_MsgLen := n, me_Priv := p, me_Msg := mq_store (me_Msg ?e) n m\<rparr>"
  have inv: "mq_inv ?q" using assms(1) by (simp add: mlme_ok_def)
  then have "length (me_Msg ?e') = 1600" using assms(4) mq_inv_entry [of ?q "mq_Tail ?q"] by (auto simp: mq_inv_def)
  note put = mq_put [OF inv assms(3) this]
  have "snd (MlmeEnqueue s mc T n m p) = s\<lparr>ad_Queue := (mq_advance_tail ?q)\<lparr>mq_Entry := (mq_Entry ?q)[mq_Tail ?q := ?e']\<rparr>\<rparr>"
    using assms by (simp add: MlmeEnqueue_def MlmeQueueFull_def Let_def halted_def)
  then show ?thesis using put by (simp add: kinds_def me_kind_def)
qed

lemma enqueue_keeps:
  assumes "mlme_ok s" "mt_ok mc T"
  shows "mlme_ok (snd (MlmeEnqueue s mc T n m p))" "set (kinds s) \<subseteq> set (kinds (snd (MlmeEnqueue s mc T n m p)))"
proof -
  show "mlme_ok (snd (MlmeEnqueue s mc T n m p))" using mlme_ok_enqueue [OF assms] by blast
  show "set (kinds s) \<subseteq> set (kinds (snd (MlmeEnqueue s mc T n m p)))"
  proof (cases "fst (MlmeEnqueue s mc T n m p)")
    case False
    then show ?thesis by (auto simp: MlmeEnqueue_def Let_def split: if_splits)
  next
    case True
    then have "\<not> halted s" "n \<le> 1600" "mq_Num (ad_Queue s) \<noteq> 40"
      by (auto simp: MlmeEnqueue_def MlmeQueueFull_def Let_def halted_def split: if_splits)
    moreover have "mq_Num (ad_Queue s) \<le> 40" using assms(1) by (simp add: mlme_ok_def mq_inv_def)
    ultimately show ?thesis using enqueue_kinds [OF assms(1), of n mc T m p] by auto
  qed
qed

text \<open>A message for the control machine or a timeout can always be dispatched.\<close>

lemma mt_ok_auth: "mt_ok 5 T" "T < 3 \<Longrightarrow> mt_ok 2 T"
  by (auto simp: mt_ok_def msg_ranges_def)

section \<open>The table\<close>

definition auth_table :: "STATE_MACHINE \<Rightarrow> bool" where
  "auth_table S \<longleftrightarrow> (\<exists>T st. length T = 9 \<and> st < 3 \<and> S = (AuthStateMachineInit T)\<lparr>sm_CurrState := st\<rparr>)"

lemma auth_table_state: "auth_table S \<Longrightarrow> st < 3 \<Longrightarrow> auth_table (S\<lparr>sm_CurrState := st\<rparr>)"
  by (fastforce simp: auth_table_def)

lemma sm_cell_CurrState: "sm_cell (S\<lparr>sm_CurrState := x\<rparr>) st msg = sm_cell S st msg"
  by (simp add: sm_cell_def Let_def)

text \<open>The column of each state, as the source comments it.\<close>

lemma auth_dispatch:
  assumes "auth_table S" "T < 3"
  shows "StateMachinePerformAction call s S i T (sm_CurrState S) = Some
    (if sm_CurrState S = 0 then (if T = 0 then call STATE_MACHINE_FUNC.MlmeAuthReqAction s i else s)
     else if T = 0 then call STATE_MACHINE_FUNC.InvalidStateWhenAuth s i
     else if T = 1 then call (if sm_CurrState S = 1 then STATE_MACHINE_FUNC.PeerAuthRspAtSeq2Action else STATE_MACHINE_FUNC.PeerAuthRspAtSeq4Action) s i
     else call STATE_MACHINE_FUNC.AuthTimeoutAction s i)"
proof -
  obtain Tr st where S: "length Tr = 9" "st < 3" "S = (AuthStateMachineInit Tr)\<lparr>sm_CurrState := st\<rparr>"
    using assms(1) by (auto simp: auth_table_def)
  have "st = 0 \<or> st = 1 \<or> st = 2" "T = 0 \<or> T = 1 \<or> T = 2" using S(2) assms(2) by auto
  then show ?thesis
    using sm_cell_actions [of 3 3 Tr 0 st T _ Drop 0] S
    by (elim disjE) (simp_all add: StateMachinePerformAction_def AuthStateMachineInit_def sm_cell_CurrState sm_spec_def)
qed

section \<open>What a handler does to the machine\<close>

definition waiting :: "AUTH_ADAPTER \<Rightarrow> bool" where
  "waiting s \<longleftrightarrow> sm_CurrState (ad_AuthMachine s) \<noteq> AUTH_REQ_IDLE"

text \<open>The transition tables of the other machines.\<close>

definition tables :: "AUTH_ADAPTER \<Rightarrow> STATE_MACHINE_FUNC option list list" where
  "tables s = map sm_TransFunc [ad_AssocMachine s, ad_AuthRspMachine s, ad_SyncMachine s, ad_ActMachine s, ad_WpaMachine s]"

text \<open>The parts of the state that no handler of the machine damages.\<close>

definition auth_keeps :: "AUTH_ADAPTER \<Rightarrow> AUTH_ADAPTER \<Rightarrow> bool" where
  "auth_keeps s s' \<longleftrightarrow> (mlme_ok s \<longrightarrow> mlme_ok s') \<and> (auth_table (ad_AuthMachine s) \<longrightarrow> auth_table (ad_AuthMachine s'))
     \<and> tables s' = tables s \<and> ad_Flags s' = ad_Flags s \<and> au_bBlockAssoc s' = au_bBlockAssoc s \<and> (mlme_ok s \<longrightarrow> set (kinds s) \<subseteq> set (kinds s'))"

lemma auth_keeps_trans: "auth_keeps s t \<Longrightarrow> auth_keeps t u \<Longrightarrow> auth_keeps s u"
  by (auto simp: auth_keeps_def)

lemma auth_keeps_refl [simp]: "auth_keeps s s"
  by (simp add: auth_keeps_def)

lemma AuthState_keeps: "st < 3 \<Longrightarrow> auth_keeps s (set_AuthState st s)"
  by (auto simp: auth_keeps_def set_AuthState_def tables_def mlme_ok_def kinds_def auth_table_state intro: table_ok_CurrState)

lemma conf_keeps: "auth_keeps s (conf T st s)"
proof -
  obtain q where q: "conf T st s = s\<lparr>ad_Queue := q\<rparr>" using enqueue_queue unfolding conf_def by blast
  have "mlme_ok s \<Longrightarrow> mlme_ok (conf T st s) \<and> set (kinds s) \<subseteq> set (kinds (conf T st s))"
    using enqueue_keeps [OF _ mt_ok_auth(1)] unfolding conf_def by blast
  then show ?thesis by (auto simp: auth_keeps_def tables_def q)
qed

lemma conf_same [simp]:
  "ad_AuthMachine (conf T st s) = ad_AuthMachine s" "au_TimerRunning (conf T st s) = au_TimerRunning s" "au_Log (conf T st s) = au_Log s"
proof -
  obtain q where q: "conf T st s = s\<lparr>ad_Queue := q\<rparr>" using enqueue_queue unfolding conf_def by blast
  show "ad_AuthMachine (conf T st s) = ad_AuthMachine s" "au_TimerRunning (conf T st s) = au_TimerRunning s" "au_Log (conf T st s) = au_Log s"
    by (simp_all add: q)
qed

lemma fields_keep:
  "auth_keeps s (cancel_AuthTimer s)" "auth_keeps s (set_AuthTimer v s)" "auth_keeps s (au_emit evs s)"
  "auth_keeps s (s\<lparr>au_Bssid := a, au_Alg := g\<rparr>)" "auth_keeps s (s\<lparr>au_AuthFailReason := r, au_AuthFailSta := a\<rparr>)"
  "auth_keeps s (s\<lparr>au_SharedKey := ks\<rparr>)"
  by (simp_all add: auth_keeps_def tables_def cancel_AuthTimer_def set_AuthTimer_def au_emit_def mlme_ok_def kinds_def)

lemma AuthState_same [simp]:
  "sm_CurrState (ad_AuthMachine (set_AuthState st s)) = st" "au_TimerRunning (set_AuthState st s) = au_TimerRunning s"
  "au_TimerRunning (set_AuthTimer v s)" "\<not> au_TimerRunning (cancel_AuthTimer s)" "au_TimerRunning (au_emit evs s) = au_TimerRunning s"
  by (simp_all add: set_AuthState_def set_AuthTimer_def cancel_AuthTimer_def au_emit_def)

text \<open>The outcome: nothing happened, or the machine waits with its timer set, or it is idle and has confirmed.\<close>

definition roomy :: "AUTH_ADAPTER \<Rightarrow> bool" where
  "roomy s \<longleftrightarrow> mlme_ok s \<and> \<not> halted s \<and> mq_Num (ad_Queue s) < 40"

definition auth_outcome :: "AUTH_ADAPTER \<Rightarrow> AUTH_ADAPTER \<Rightarrow> bool" where
  "auth_outcome s s' \<longleftrightarrow> auth_keeps s s'
     \<and> (s' = s \<or> waiting s' \<and> au_TimerRunning s' \<or> \<not> waiting s' \<and> (roomy s \<longrightarrow> (MLME_CNTL_STATE_MACHINE, MT2_AUTH_CONF) \<in> set (kinds s')))"

lemma roomy_queue: "ad_Queue t = ad_Queue s \<Longrightarrow> auth_keeps s t \<Longrightarrow> roomy s \<Longrightarrow> roomy t"
  by (simp add: roomy_def auth_keeps_def halted_def RTMP_TEST_FLAG_def)

lemma conf_queued:
  assumes "auth_keeps s t" "ad_Queue t = ad_Queue s"
  shows "auth_keeps s (conf T st (set_AuthState AUTH_REQ_IDLE t))"
    "roomy s \<Longrightarrow> (5, T) \<in> set (kinds (conf T st (set_AuthState AUTH_REQ_IDLE t)))"
proof -
  let ?t = "set_AuthState AUTH_REQ_IDLE t"
  have k: "auth_keeps s ?t" using auth_keeps_trans [OF assms(1) AuthState_keeps] by simp
  then show "auth_keeps s (conf T st ?t)" using auth_keeps_trans [OF _ conf_keeps] by blast
  have "ad_Queue ?t = ad_Queue s" using assms(2) by (simp add: set_AuthState_def)
  then show "(5, T) \<in> set (kinds (conf T st ?t))" if "roomy s"
    using roomy_queue [OF _ k that] unfolding conf_def by (simp add: roomy_def enqueue_kinds)
qed

lemma outcome_idle:
  assumes "auth_keeps s t" "ad_Queue t = ad_Queue s"
  shows "auth_outcome s (conf MT2_AUTH_CONF st (set_AuthState AUTH_REQ_IDLE t))"
  using conf_queued [OF assms] by (simp add: auth_outcome_def waiting_def)

lemma outcome_wait:
  assumes "auth_keeps s t" "au_TimerRunning t" "0 < st" "st < 3"
  shows "auth_outcome s (set_AuthState st t)"
  using assms auth_keeps_trans [OF assms(1) AuthState_keeps [OF assms(4)]] by (simp add: auth_outcome_def waiting_def)

lemma outcome_again:
  assumes "auth_keeps s t" "roomy s \<longrightarrow> (5, 35) \<in> set (kinds t)"
  shows "auth_outcome s (conf T st (set_AuthState AUTH_REQ_IDLE t))"
proof -
  let ?u = "conf T st (set_AuthState AUTH_REQ_IDLE t)"
  have k: "auth_keeps t ?u" using auth_keeps_trans [OF AuthState_keeps conf_keeps] by simp
  then have "roomy s \<longrightarrow> (5, 35) \<in> set (kinds ?u)" using assms by (auto simp: auth_keeps_def roomy_def)
  then show ?thesis using auth_keeps_trans [OF assms(1) k] by (simp add: auth_outcome_def waiting_def)
qed

lemma queue_same [simp]:
  "ad_Queue (cancel_AuthTimer s) = ad_Queue s" "ad_Queue (set_AuthTimer v s) = ad_Queue s" "ad_Queue (au_emit evs s) = ad_Queue s"
  "ad_Queue (set_AuthState st s) = ad_Queue s"
  by (simp_all add: cancel_AuthTimer_def set_AuthTimer_def au_emit_def set_AuthState_def)

lemma request_outcome:
  assumes "\<not> au_bBlockAssoc s"
  shows "auth_outcome s (MlmeAuthReqAction env s i)"
proof -
  obtain ok Addr Timeout Alg where q: "MlmeAuthReqSanity (slot_Msg s i) = (ok, Addr, Timeout, Alg)" by (metis prod_cases4)
  let ?t = "(cancel_AuthTimer s)\<lparr>au_Bssid := Addr, au_Alg := Alg\<rparr>"
  have t: "auth_keeps s ?t" "ad_Queue ?t = ad_Queue s" using auth_keeps_trans [OF fields_keep(1) fields_keep(4)] by simp_all
  consider (bad) "\<not> ok" | (mem) "ok" "am_Out env = None" | (sent) buf where "ok" "am_Out env = Some buf" by fastforce
  then show ?thesis
  proof cases
    case bad
    then show ?thesis using outcome_idle [of s s] assms q by (simp add: MlmeAuthReqAction_def AUTH_ReqSend_def)
  next
    case mem
    let ?u = "conf MT2_AUTH_CONF MLME_FAIL_NO_RESOURCE (set_AuthState AUTH_REQ_IDLE ?t)"
    have "auth_keeps s ?u" "roomy s \<longrightarrow> (5, 35) \<in> set (kinds ?u)" using conf_queued [OF t] by blast+
    then show ?thesis using outcome_again assms q mem by (simp add: MlmeAuthReqAction_def AUTH_ReqSend_def Let_def)
  next
    case sent
    obtain frame where f: "AUTH_ReqSend env s i 1 None 0 = (True, set_AuthTimer Timeout (au_emit [MiniportMMRequest frame] ?t))"
      using assms q sent by (simp add: AUTH_ReqSend_def Let_def case_prod_beta)
    have "auth_keeps s (set_AuthTimer Timeout (au_emit [MiniportMMRequest frame] ?t))"
      using t(1) fields_keep(2,3) auth_keeps_trans by blast
    then show ?thesis using outcome_wait by (simp add: MlmeAuthReqAction_def f)
  qed
qed

lemma challenged_outcome:
  assumes "auth_keeps s t" "ad_Queue t = ad_Queue s"
  shows "auth_outcome s (auth_challenged env Addr2 Alg Seq Chlg Cyper t)"
proof (cases "am_Out env")
  case None
  then show ?thesis using outcome_idle [OF assms] by (simp add: auth_challenged_def)
next
  case (Some buf)
  have u: "auth_keeps s (t\<lparr>au_SharedKey := ks\<rparr>)" for ks using auth_keeps_trans [OF assms(1) fields_keep(6)] .
  then have "auth_keeps s (set_AuthTimer v (au_emit e (t\<lparr>au_SharedKey := ks\<rparr>)))" for v e ks
    using fields_keep(2,3) auth_keeps_trans by blast
  then have "auth_outcome s (set_AuthState AUTH_WAIT_SEQ4 (set_AuthTimer v (au_emit e (t\<lparr>au_SharedKey := ks\<rparr>))))" for v e ks
    by (intro outcome_wait) simp_all
  moreover have "auth_outcome s (conf MT2_AUTH_CONF st (set_AuthState AUTH_REQ_IDLE (t\<lparr>au_SharedKey := ks\<rparr>)))" for st ks
    using outcome_idle [OF u] assms(2) by simp
  ultimately show ?thesis by (simp add: auth_challenged_def Some Let_def case_prod_beta)
qed

lemma cancel_keeps:
  "auth_keeps s (cancel_AuthTimer s)" "auth_keeps s ((cancel_AuthTimer s)\<lparr>au_AuthFailReason := r, au_AuthFailSta := a\<rparr>)"
  using fields_keep(1,5) auth_keeps_trans by blast+

lemma seq2_outcome: "auth_outcome s (PeerAuthRspAtSeq2Action env s i)"
proof (cases "am_Chlg env = None \<or> am_Cyper env = None")
  case True
  then show ?thesis by (auto simp: PeerAuthRspAtSeq2Action_def auth_outcome_def split: option.splits)
next
  case False
  then obtain c d where m: "am_Chlg env = Some c" "am_Cyper env = Some d" by auto
  obtain ok Addr2 Alg Seq Status Chlg where q: "PeerAuthSanity (slot_Msg s i) c = (ok, Addr2, Alg, Seq, Status, Chlg)" by (metis prod_cases6)
  show ?thesis
    using outcome_idle [OF cancel_keeps(1)] outcome_idle [OF cancel_keeps(2)] challenged_outcome [OF cancel_keeps(1)]
    by (simp add: PeerAuthRspAtSeq2Action_def m q Let_def) (simp add: auth_outcome_def)
qed

lemma seq4_outcome: "auth_outcome s (PeerAuthRspAtSeq4Action env s i)"
proof (cases "am_Chlg env")
  case None
  then show ?thesis by (simp add: PeerAuthRspAtSeq4Action_def auth_outcome_def)
next
  case (Some c)
  obtain ok Addr2 Alg Seq Status Chlg where q: "PeerAuthSanity (slot_Msg s i) c = (ok, Addr2, Alg, Seq, Status, Chlg)" by (metis prod_cases6)
  have "auth_keeps s (au_emit e ((cancel_AuthTimer s)\<lparr>au_AuthFailReason := r, au_AuthFailSta := a\<rparr>))" for e r a
    using auth_keeps_trans [OF cancel_keeps(2) fields_keep(3)] .
  then show ?thesis
    using outcome_idle [OF cancel_keeps(1)] outcome_idle [of s "au_emit e ((cancel_AuthTimer s)\<lparr>au_AuthFailReason := r, au_AuthFailSta := a\<rparr>)" for e r a]
    by (simp add: PeerAuthRspAtSeq4Action_def Some q Let_def) (simp add: auth_outcome_def)
qed

lemma reset_outcomes: "auth_outcome s (AuthTimeoutAction s)" "auth_outcome s (InvalidStateWhenAuth s)"
  unfolding AuthTimeoutAction_def InvalidStateWhenAuth_def by (rule outcome_idle; simp)+

lemma deauth_keeps:
  "auth_keeps s (PeerDeauthAction s i)" "ad_AuthMachine (PeerDeauthAction s i) = ad_AuthMachine s"
  "au_TimerRunning (PeerDeauthAction s i) = au_TimerRunning s"
  by (simp_all add: PeerDeauthAction_def Let_def case_prod_beta auth_keeps_def tables_def au_emit_def mlme_ok_def kinds_def)

section \<open>The machine in the task loop\<close>

definition auth_funcs :: "STATE_MACHINE_FUNC set" where
  "auth_funcs = {STATE_MACHINE_FUNC.MlmeAuthReqAction, STATE_MACHINE_FUNC.InvalidStateWhenAuth, STATE_MACHINE_FUNC.PeerAuthRspAtSeq2Action,
     STATE_MACHINE_FUNC.PeerAuthRspAtSeq4Action, STATE_MACHINE_FUNC.AuthTimeoutAction}"

text \<open>What the handlers of the other machines promise: no code outside \<^verbatim>\<open>sta/auth.c\<close> changes the state of the machine or its timer,
  except the restart of all machines.\<close>

definition auth_frame :: "AUTH_ADAPTER \<Rightarrow> AUTH_ADAPTER \<Rightarrow> bool" where
  "auth_frame s s' \<longleftrightarrow> auth_keeps s s' \<and> ad_AuthMachine s' = ad_AuthMachine s \<and> au_TimerRunning s' = au_TimerRunning s"

definition keeps_auth :: "(STATE_MACHINE_FUNC \<Rightarrow> AUTH_ADAPTER \<Rightarrow> nat \<Rightarrow> AUTH_ADAPTER) \<Rightarrow> (AUTH_ADAPTER \<Rightarrow> nat \<Rightarrow> AUTH_ADAPTER) \<Rightarrow> bool" where
  "keeps_auth other cntl \<longleftrightarrow> (\<forall>f s i. auth_frame s (other f s i)) \<and> (\<forall>s i. auth_frame s (cntl s i))"

definition auth_inv :: "AUTH_ADAPTER \<Rightarrow> bool" where
  "auth_inv s \<longleftrightarrow> mlme_ok s \<and> \<not> halted s \<and> auth_table (ad_AuthMachine s) \<and> \<not> au_bBlockAssoc s
     \<and> (\<forall>t \<in> set (tables s). \<forall>f \<in> auth_funcs. Some f \<notin> set t)
     \<and> (waiting s \<longrightarrow> au_TimerRunning s \<or> (AUTH_STATE_MACHINE, MT2_AUTH_TIMEOUT) \<in> set (kinds s))"

text \<open>One round of the loop; the restart cancels the timer.\<close>

definition auth_round :: "auth_mem \<Rightarrow> (STATE_MACHINE_FUNC \<Rightarrow> AUTH_ADAPTER \<Rightarrow> nat \<Rightarrow> AUTH_ADAPTER) \<Rightarrow> (AUTH_ADAPTER \<Rightarrow> nat \<Rightarrow> AUTH_ADAPTER) \<Rightarrow> AUTH_ADAPTER \<Rightarrow> AUTH_ADAPTER option" where
  "auth_round env other cntl s = map_option
     (\<lambda>r. if me_MsgType (mq_Entry (ad_Queue s) ! mq_Head (ad_Queue s)) = MT2_RESET_CONF then r\<lparr>au_TimerRunning := False\<rparr> else r)
     (mlme_round (auth_call env other) cntl s)"

lemma frame_inv: "auth_frame s s' \<Longrightarrow> auth_inv s \<Longrightarrow> auth_inv s' \<and> waiting s' = waiting s"
  by (auto simp: auth_frame_def auth_keeps_def auth_inv_def halted_def RTMP_TEST_FLAG_def waiting_def)

lemma machine_step:
  assumes "auth_table (ad_AuthMachine s)" "\<not> au_bBlockAssoc s" "T < 3"
  shows "\<exists>r. StateMachinePerformAction (auth_call env other) s (ad_AuthMachine s) i T (sm_CurrState (ad_AuthMachine s)) = Some r
    \<and> auth_outcome s r \<and> (r = s \<and> waiting s \<longrightarrow> T = 1)"
proof -
  let ?r = "if sm_CurrState (ad_AuthMachine s) = 0 then (if T = 0 then MlmeAuthReqAction env s i else s)
     else if T = 0 then InvalidStateWhenAuth s
     else if T = 1 then (if sm_CurrState (ad_AuthMachine s) = 1 then PeerAuthRspAtSeq2Action env s i else PeerAuthRspAtSeq4Action env s i)
     else AuthTimeoutAction s"
  have "StateMachinePerformAction (auth_call env other) s (ad_AuthMachine s) i T (sm_CurrState (ad_AuthMachine s)) = Some ?r"
    unfolding auth_dispatch [OF assms(1,3)] by (simp add: auth_call_def)
  moreover have "auth_outcome s ?r"
    using request_outcome [OF assms(2)] seq2_outcome seq4_outcome reset_outcomes by (simp add: auth_outcome_def)
  moreover have "\<not> waiting (InvalidStateWhenAuth s)" "\<not> waiting (AuthTimeoutAction s)"
    by (simp_all add: waiting_def InvalidStateWhenAuth_def AuthTimeoutAction_def)
  then have "?r = s \<and> waiting s \<longrightarrow> T = 1" by (auto simp: waiting_def)
  ultimately show ?thesis by blast
qed

text \<open>A handler of another table keeps the machine.\<close>

lemma other_step:
  assumes "keeps_auth other cntl" "\<forall>f \<in> auth_funcs. Some f \<notin> set (sm_TransFunc S)"
    and "StateMachinePerformAction (auth_call env other) s S i T st = Some r"
  shows "auth_frame s r"
proof -
  have refl: "auth_frame s s" by (simp add: auth_frame_def)
  have "auth_frame s (auth_call env other f s i)" if "f \<notin> auth_funcs" for f
    using that assms(1) deauth_keeps by (cases f) (auto simp: auth_call_def auth_funcs_def keeps_auth_def auth_frame_def)
  moreover have "f \<notin> auth_funcs" if "sm_cell S st T = Some (Some f)" for f
    using that assms(2) nth_mem by (force simp: sm_cell_def Let_def split: if_splits)
  ultimately show ?thesis using assms(3) refl by (auto simp: StateMachinePerformAction_def split: option.splits if_splits)
qed

text \<open>The guard of a waiting machine, relative to the messages pending.\<close>

definition guarded :: "(nat \<times> nat) list \<Rightarrow> AUTH_ADAPTER \<Rightarrow> bool" where
  "guarded ks s \<longleftrightarrow> (waiting s \<longrightarrow> au_TimerRunning s \<or> (AUTH_STATE_MACHINE, MT2_AUTH_TIMEOUT) \<in> set ks)"

definition auth_base :: "AUTH_ADAPTER \<Rightarrow> bool" where
  "auth_base s \<longleftrightarrow> mlme_ok s \<and> \<not> halted s \<and> auth_table (ad_AuthMachine s) \<and> \<not> au_bBlockAssoc s
     \<and> (\<forall>t \<in> set (tables s). \<forall>f \<in> auth_funcs. Some f \<notin> set t)"

lemma auth_inv_split: "auth_inv s \<longleftrightarrow> auth_base s \<and> guarded (kinds s) s"
  by (auto simp: auth_inv_def auth_base_def guarded_def)

lemma base_ok: "auth_base s \<Longrightarrow> mlme_ok s"
  by (simp add: auth_base_def)

lemma keeps_base: "auth_keeps s s' \<Longrightarrow> auth_base s \<Longrightarrow> auth_base s'"
  by (simp add: auth_keeps_def auth_base_def halted_def RTMP_TEST_FLAG_def)

lemma free_base:
  assumes "auth_base s"
  shows "auth_base (mlme_free i s)" "kinds (mlme_free i s) = kinds s" "waiting (mlme_free i s) = waiting s"
    "au_TimerRunning (mlme_free i s) = au_TimerRunning s"
proof -
  have ok: "mlme_ok s" "mq_inv (ad_Queue s)" using assms by (simp_all add: auth_base_def mlme_ok_def)
  show "kinds (mlme_free i s) = kinds s" using mlme_free_queue(2) [OF ok(2)] by (simp add: kinds_def)
  show "waiting (mlme_free i s) = waiting s" "au_TimerRunning (mlme_free i s) = au_TimerRunning s"
    by (simp_all add: waiting_def mlme_free_def)
  have "auth_base (mlme_free i s) \<longleftrightarrow> mlme_ok (mlme_free i s) \<and> auth_base s"
    using ok by (auto simp: auth_base_def mlme_free_def halted_def RTMP_TEST_FLAG_def tables_def)
  then show "auth_base (mlme_free i s)" using assms mlme_ok_free [OF ok(1)] by blast
qed

text \<open>The switch of \<^verbatim>\<open>MlmeHandler\<close> on a message of kind \<open>(Mc, T)\<close> that has been taken from the queue.\<close>

lemma switch_step:
  assumes "auth_base s" "mt_ok Mc T" "T \<noteq> MT2_RESET_CONF" "keeps_auth other cntl" "guarded ((Mc, T) # kinds s) s" "mq_Num (ad_Queue s) < 40"
  shows "\<exists>r. mlme_switch (auth_call env other) cntl s i Mc T = Some r \<and> auth_base r \<and> guarded (kinds r) r
    \<and> (waiting s \<and> \<not> waiting r \<longrightarrow> (MLME_CNTL_STATE_MACHINE, MT2_AUTH_CONF) \<in> set (kinds r))"
proof (cases "Mc = AUTH_STATE_MACHINE")
  case True
  then have T: "T < 3" using assms(2,3) by (auto simp: mt_ok_def msg_ranges_def)
  have b: "auth_table (ad_AuthMachine s)" "\<not> au_bBlockAssoc s" "roomy s" using assms(1,6) by (simp_all add: auth_base_def roomy_def)
  obtain r where r: "StateMachinePerformAction (auth_call env other) s (ad_AuthMachine s) i T (sm_CurrState (ad_AuthMachine s)) = Some r"
      "auth_outcome s r" "r = s \<and> waiting s \<longrightarrow> T = 1"
    using machine_step [OF b(1,2) T] by blast
  have "auth_keeps s r" using r(2) by (simp add: auth_outcome_def)
  then have "auth_base r" using keeps_base assms(1) by blast
  moreover have "guarded (kinds r) r" using r(2,3) assms(5) True by (auto simp: auth_outcome_def guarded_def)
  moreover have "waiting s \<and> \<not> waiting r \<longrightarrow> (5, 35) \<in> set (kinds r)" using r(2) b(3) by (auto simp: auth_outcome_def)
  ultimately show ?thesis using r(1) True by (simp add: mlme_switch_def)
next
  case False
  obtain r where r: "mlme_switch (auth_call env other) cntl s i Mc T = Some r"
    using mlme_switch_total [OF base_ok [OF assms(1)] assms(2,3)] by blast
  have psk: "Mc \<noteq> WPA_PSK_STATE_MACHINE" using assms(2,3) by (auto simp: mt_ok_def)
  have tabs: "\<forall>S \<in> {ad_AssocMachine s, ad_AuthRspMachine s, ad_SyncMachine s, ad_ActMachine s, ad_WpaMachine s}. \<forall>f \<in> auth_funcs. Some f \<notin> set (sm_TransFunc S)"
    using assms(1) by (simp add: auth_base_def tables_def)
  have "auth_frame s r"
    using r False psk other_step [OF assms(4)] tabs assms(4)
    by (auto simp: mlme_switch_def Let_def keeps_auth_def auth_frame_def split: if_splits)
  then have "auth_base r" "waiting r = waiting s" "au_TimerRunning r = au_TimerRunning s" "set (kinds s) \<subseteq> set (kinds r)"
    using keeps_base assms(1) by (auto simp: auth_frame_def auth_keeps_def auth_base_def waiting_def)
  then show ?thesis using r assms(5) False by (auto simp: guarded_def)
qed

lemma round_step:
  assumes "auth_inv s" "keeps_auth other cntl" "\<not> MlmeQueueEmpty (ad_Queue s)"
  defines "e \<equiv> mq_Entry (ad_Queue s) ! mq_Head (ad_Queue s)"
  shows "\<exists>r. auth_round env other cntl s = Some r \<and> auth_inv r
    \<and> (waiting s \<and> \<not> waiting r \<and> me_MsgType e \<noteq> MT2_RESET_CONF \<longrightarrow> (MLME_CNTL_STATE_MACHINE, MT2_AUTH_CONF) \<in> set (kinds r))"
proof -
  let ?q = "ad_Queue s" let ?i = "mq_Head ?q"
  let ?p = "s\<lparr>ad_Queue := snd (MlmeDequeue ?q)\<rparr>"
  have inv: "mq_inv ?q" "mq_Num ?q \<noteq> 0" and ok: "auth_base s" "guarded (kinds s) s"
    using assms(1,3) by (auto simp: auth_inv_split auth_base_def mlme_ok_def MlmeQueueEmpty_def)
  note g = mq_get [OF inv]
  have k: "kinds s = (me_Machine e, me_MsgType e) # kinds ?p" using g(4) by (simp add: kinds_def e_def me_kind_def)
  have mt: "mt_ok (me_Machine e) (me_MsgType e)" and "mlme_ok ?p"
    using ok(1) g by (auto simp: auth_base_def mlme_ok_def e_def)
  then have base: "auth_base ?p" using ok(1) by (simp add: auth_base_def halted_def RTMP_TEST_FLAG_def tables_def)
  have wt: "waiting ?p = waiting s" "au_TimerRunning ?p = au_TimerRunning s" by (simp_all add: waiting_def)
  have "length (mq_pending ?q) = Suc (length (mq_pending (snd (MlmeDequeue ?q))))" by (subst g(4)) simp
  then have num: "mq_Num (ad_Queue ?p) < 40" using inv(1) by (simp add: mq_inv_def)
  have round: "mlme_round (auth_call env other) cntl s =
     (if me_MsgType e = MT2_RESET_CONF then Some (mlme_free ?i (MlmeRestartStateMachine ?p))
      else map_option (mlme_free ?i) (mlme_switch (auth_call env other) cntl ?p ?i (me_Machine e) (me_MsgType e)))"
    using g by (simp add: mlme_round_def case_prod_beta Let_def e_def)
  show ?thesis
  proof (cases "me_MsgType e = MT2_RESET_CONF")
    case True
    let ?r = "MlmeRestartStateMachine ?p"
    have "mlme_ok ?r" using mlme_ok_restart(1) [OF base_ok [OF base]] .
    then have "auth_base ?r" using base
      by (simp add: auth_base_def MlmeRestartStateMachine_def halted_def RTMP_TEST_FLAG_def tables_def auth_table_state)
    then have f: "auth_base (mlme_free ?i ?r)" using free_base by blast
    have "\<not> waiting ?r" by (simp add: waiting_def MlmeRestartStateMachine_def)
    then have "auth_base ((mlme_free ?i ?r)\<lparr>au_TimerRunning := False\<rparr>)" "\<not> waiting ((mlme_free ?i ?r)\<lparr>au_TimerRunning := False\<rparr>)"
      using f free_base(3) [OF \<open>auth_base ?r\<close>]
      by (simp_all add: auth_base_def mlme_ok_def halted_def RTMP_TEST_FLAG_def tables_def waiting_def)
    then show ?thesis using True by (simp add: auth_round_def round e_def auth_inv_split guarded_def)
  next
    case False
    have "guarded ((me_Machine e, me_MsgType e) # kinds ?p) ?p" using ok(2) k wt by (simp add: guarded_def)
    then obtain r where r: "mlme_switch (auth_call env other) cntl ?p ?i (me_Machine e) (me_MsgType e) = Some r" "auth_base r" "guarded (kinds r) r"
        "waiting ?p \<and> \<not> waiting r \<longrightarrow> (5, 35) \<in> set (kinds r)"
      using switch_step [OF base mt False assms(2) _ num] by blast
    then show ?thesis
      using free_base [OF r(2), of ?i] False wt by (simp add: auth_round_def round e_def auth_inv_split guarded_def)
  qed
qed

section \<open>Steps of the system\<close>

text \<open>Any part of the driver may queue a message, a frame may arrive, the timer may expire, the task may handle the next message.\<close>

inductive auth_step :: "(STATE_MACHINE_FUNC \<Rightarrow> AUTH_ADAPTER \<Rightarrow> nat \<Rightarrow> AUTH_ADAPTER) \<Rightarrow> (AUTH_ADAPTER \<Rightarrow> nat \<Rightarrow> AUTH_ADAPTER) \<Rightarrow> AUTH_ADAPTER \<Rightarrow> AUTH_ADAPTER \<Rightarrow> bool"
  for other cntl where
  posted: "mt_ok mc T \<Longrightarrow> auth_step other cntl s (snd (MlmeEnqueue s mc T n m p))"
| received: "MlmeEnqueueForRecv s rx n Msg = Some (ok, s') \<Longrightarrow> auth_step other cntl s s'"
| expired: "au_TimerRunning s \<Longrightarrow> mq_Num (ad_Queue s) < 40 \<Longrightarrow> auth_step other cntl s (AuthTimeout env (s\<lparr>au_TimerRunning := False\<rparr>))"
| handled: "\<not> MlmeQueueEmpty (ad_Queue s) \<Longrightarrow> auth_round env other cntl s = Some s' \<Longrightarrow> auth_step other cntl s s'"

lemma posted_frame: "mt_ok mc T \<Longrightarrow> auth_frame s (snd (MlmeEnqueue s mc T n m p))"
proof -
  assume mt: "mt_ok mc T"
  obtain q where q: "snd (MlmeEnqueue s mc T n m p) = s\<lparr>ad_Queue := q\<rparr>" using enqueue_queue by blast
  have "mlme_ok s \<Longrightarrow> mlme_ok (s\<lparr>ad_Queue := q\<rparr>) \<and> set (kinds s) \<subseteq> set (kinds (s\<lparr>ad_Queue := q\<rparr>))"
    using enqueue_keeps [OF _ mt, of s n m p] q by simp
  then show ?thesis by (simp add: q auth_frame_def auth_keeps_def tables_def)
qed

lemma received_frame:
  assumes "MlmeEnqueueForRecv s rx n Msg = Some (ok, s')"
  shows "auth_frame s s'"
proof (cases "s' = s")
  case True
  then show ?thesis by (simp add: auth_frame_def)
next
  case False
  let ?q = "ad_Queue s"
  let ?e = "\<lambda>mc T. (mq_Entry ?q ! mq_Tail ?q)\<lparr>me_Occupied := True, me_Machine := mc, me_MsgType := T, me_MsgLen := n,
    me_TimeStampLow := rx_TimeStampLow rx, me_TimeStampHigh := rx_TimeStampHigh rx, me_Rssi0 := rx_Rssi0 rx, me_Rssi1 := rx_Rssi1 rx,
    me_Rssi2 := rx_Rssi2 rx, me_AntSel := rx_AntSel rx, me_Signal := rx_Signal rx, me_Wcid := ucast (rx_Wcid rx), me_OpMode := rx_OpMode rx,
    me_Priv := 0, me_Channel := ad_LatchChannel s, me_Msg := mq_store (me_Msg (mq_Entry ?q ! mq_Tail ?q)) n (Some Msg)\<rparr>"
  obtain mc T where mt: "MsgTypeSubst Msg 0xff 0 = Some (True, mc, T)" "n \<le> 1600" "mq_Num ?q < 20"
    and s': "s' = s\<lparr>ad_Queue := (mq_advance_tail ?q)\<lparr>mq_Entry := (mq_Entry ?q)[mq_Tail ?q := ?e mc T]\<rparr>, ad_Log := ad_Log s @ [RTUSBMlmeUp]\<rparr>"
    using assms False by (simp add: MlmeEnqueueForRecv_def Let_def MlmeQueueFull_def not_le split: if_splits option.splits prod.splits)
  define e where "e = ?e mc T"
  have e: "me_Machine e = mc" "me_MsgType e = T" "me_Msg e = mq_store (me_Msg (mq_Entry ?q ! mq_Tail ?q)) n (Some Msg)"
    by (simp_all add: e_def)
  note s' = s' [folded e_def]
  have "mlme_ok s' \<and> set (kinds s) \<subseteq> set (kinds s')" if ok: "mlme_ok s"
  proof -
    have "mq_inv ?q" using ok by (simp add: mlme_ok_def)
    then have "length (me_Msg e) = 1600" using mt(2) mq_inv_entry [of ?q "mq_Tail ?q"] e(3) by (auto simp: mq_inv_def)
    then show ?thesis
      using ForRecv_message [OF ok, of e "ad_Log s @ [RTUSBMlmeUp]"] mq_put [OF \<open>mq_inv ?q\<close>, of e] mt(3) MsgTypeSubst_mt_ok [OF mt(1)] e(1,2)
      by (auto simp: s' kinds_def)
  qed
  then show ?thesis by (simp add: auth_frame_def auth_keeps_def tables_def s')
qed

lemma expired_inv:
  assumes "auth_inv s" "mq_Num (ad_Queue s) < 40"
  shows "auth_inv (AuthTimeout env (s\<lparr>au_TimerRunning := False\<rparr>))"
proof -
  let ?s = "s\<lparr>au_TimerRunning := False\<rparr>"
  define t where "t = (if sm_CurrState (ad_AuthMachine s) = AUTH_WAIT_SEQ2 then Cls2errAction env ?s (au_Bssid s) else ?s)"
  have "auth_keeps s ?s" by (simp add: auth_keeps_def mlme_ok_def kinds_def tables_def)
  moreover have "auth_keeps ?s (Cls2errAction env ?s a)" for a
    by (cases "am_Out env") (simp_all add: Cls2errAction_def Let_def case_prod_beta auth_keeps_def au_emit_def mlme_ok_def kinds_def tables_def)
  ultimately have "auth_keeps s t" using auth_keeps_trans by (auto simp: t_def)
  moreover have base: "auth_base s" using assms(1) by (simp add: auth_inv_split)
  ultimately have t: "auth_base t" by (rule keeps_base)
  have q: "ad_Queue t = ad_Queue s" by (cases "am_Out env") (simp_all add: t_def Cls2errAction_def Let_def case_prod_beta)
  let ?u = "snd (MlmeEnqueue t AUTH_STATE_MACHINE MT2_AUTH_TIMEOUT 0 None 0)"
  have "auth_keeps t ?u" using posted_frame [OF mt_ok_auth(2)] by (simp add: auth_frame_def)
  then have u: "auth_base ?u" using keeps_base t by blast
  have "kinds ?u = kinds t @ [(2, 2)]" using enqueue_kinds [of t 0 2 2 None 0] t q assms(2) by (simp add: auth_base_def)
  then have k: "(2, 2) \<in> set (kinds ?u)" by simp
  have halt: "\<not> RTMP_TEST_FLAG ?s (fRTMP_ADAPTER_HALT_IN_PROGRESS OR fRTMP_ADAPTER_NIC_NOT_EXIST)"
    using base by (simp add: auth_base_def halted_def RTMP_TEST_FLAG_def)
  have "AuthTimeout env ?s = ?u\<lparr>ad_Log := ad_Log ?u @ [RTUSBMlmeUp]\<rparr>"
    unfolding AuthTimeout_def if_not_P [OF halt] by (simp add: t_def Let_def)
  then show ?thesis using u k by (simp add: auth_inv_split auth_base_def guarded_def mlme_ok_def halted_def RTMP_TEST_FLAG_def kinds_def tables_def)
qed

lemma auth_step_inv: "auth_step other cntl s s' \<Longrightarrow> keeps_auth other cntl \<Longrightarrow> auth_inv s \<Longrightarrow> auth_inv s'"
proof (induction rule: auth_step.induct)
  case (posted mc T s n m p)
  then show ?case using frame_inv [OF posted_frame] by blast
next
  case (received s rx n Msg ok s')
  then show ?case using frame_inv [OF received_frame] by blast
next
  case (expired s env)
  then show ?case using expired_inv by blast
next
  case (handled s env s')
  then show ?case using round_step [of s other cntl env] by auto
qed

end
