(* ===== verification/AuthExchange.thy ===== *)
theory AuthExchange
  imports AuthProtocol
begin

text \<open>
  The exchanges of the authentication machine: a message delivered through the queue, the shared-key authentication from
  the request to its confirmation, and the properties of the machine.
\<close>

section \<open>Delivery of one message\<close>

text \<open>A message is queued while the queue is empty, and the task handles it.\<close>

definition deliver :: "auth_mem \<Rightarrow> (STATE_MACHINE_FUNC \<Rightarrow> AUTH_ADAPTER \<Rightarrow> nat \<Rightarrow> AUTH_ADAPTER) \<Rightarrow> (AUTH_ADAPTER \<Rightarrow> nat \<Rightarrow> AUTH_ADAPTER) \<Rightarrow> nat \<Rightarrow> bytes \<Rightarrow> AUTH_ADAPTER \<Rightarrow> AUTH_ADAPTER option" where
  "deliver env other cntl T msg s = auth_round env other cntl (snd (MlmeEnqueue s AUTH_STATE_MACHINE T (length msg) (Some msg) 0))"

definition auth_request :: "bytes \<Rightarrow> UINT16 \<Rightarrow> UINT32 \<Rightarrow> bytes" where
  "auth_request Addr Alg Timeout = Addr @ bytes_le16 Alg @ bytes_le32 Timeout"

definition auth_frame_of :: "bytes \<Rightarrow> bytes \<Rightarrow> UINT16 \<Rightarrow> UINT16 \<Rightarrow> UINT16 \<Rightarrow> bytes \<Rightarrow> bytes" where
  "auth_frame_of Addr1 Addr2 Alg Seq Status rest =
     [0xb0, 0, 0, 0] @ Addr1 @ Addr2 @ Addr2 @ [0, 0] @ bytes_le16 Alg @ bytes_le16 Seq @ bytes_le16 Status @ rest"

lemma bytes_le16_nth: "length (bytes_le16 w) = 2" "word_of_nat (le16 (bytes_le16 w ! 0) (bytes_le16 w ! 1)) = w"
proof -
  have "unat (ucast w :: UINT8) = unat w mod 256" "unat (ucast (drop_bit 8 w) :: UINT8) = unat w div 256"
    using unsigned_less [where 'a = nat and w = w] unfolding unsigned_ucast_eq unsigned_drop_bit_eq
    by (simp_all add: take_bit_eq_mod drop_bit_eq_div less_mult_imp_div_less)
  then have "le16 (bytes_le16 w ! 0) (bytes_le16 w ! 1) = unat w" by (simp add: le16_def bytes_le16_def)
  then show "word_of_nat (le16 (bytes_le16 w ! 0) (bytes_le16 w ! 1)) = w" by simp
qed (simp add: bytes_le16_def)

lemma msg_u16_append: "length xs = i \<Longrightarrow> msg_u16 (xs @ bytes_le16 w @ ys) i = w"
  using bytes_le16_nth by (simp add: msg_u16_def nth_append)

lemma deliver_eq:
  assumes "auth_base s" "mq_Num (ad_Queue s) = 0" "T < 3" "length msg \<le> 1600"
  obtains q i old where "deliver env other cntl T msg s = map_option (mlme_free i)
      (StateMachinePerformAction (auth_call env other) (s\<lparr>ad_Queue := q\<rparr>) (ad_AuthMachine s) i T (sm_CurrState (ad_AuthMachine s)))"
    "auth_base (s\<lparr>ad_Queue := q\<rparr>)" "mq_Num q = 0" "mq_Head q \<noteq> i" "slot_Msg (s\<lparr>ad_Queue := q\<rparr>) i = msg @ old" "length old = 1600 - length msg"
proof -
  let ?q = "ad_Queue s"
  let ?e = "mq_Entry ?q ! mq_Tail ?q"
  let ?e' = "?e\<lparr>me_Wcid := RESERVED_WCID, me_Occupied := True, me_Machine := AUTH_STATE_MACHINE, me_MsgType := T,
    me_MsgLen := length msg, me_Priv := 0, me_Msg := mq_store (me_Msg ?e) (length msg) (Some msg)\<rparr>"
  define u where "u = (mq_advance_tail ?q)\<lparr>mq_Entry := (mq_Entry ?q)[mq_Tail ?q := ?e']\<rparr>"
  have ok: "mlme_ok s" "\<not> halted s" using assms(1) by (simp_all add: auth_base_def)
  then have inv: "mq_inv ?q" by (simp add: mlme_ok_def)
  have old: "length (me_Msg ?e) = 1600" using mq_inv_entry inv by (auto simp: mq_inv_def)
  then have len: "length (me_Msg ?e') = 1600" using assms(4) by simp
  have num: "mq_Num ?q < 40" using assms(2) by simp
  note put = mq_put [OF inv num len, folded u_def]
  have empty: "mq_pending ?q = []" using assms(2) by (simp add: mq_pending_def)
  then have one: "mq_pending u = [?e']" using put(2) by simp
  have "length (mq_pending u) = 1" by (simp add: one)
  then have n: "mq_Num u \<noteq> 0" by simp
  note g = mq_get [OF put(1) n]
  let ?i = "mq_Head u"
  have head: "mq_Entry u ! ?i = ?e'" and none: "mq_pending (snd (MlmeDequeue u)) = []" using g(4) one by simp_all
  have enq: "snd (MlmeEnqueue s AUTH_STATE_MACHINE T (length msg) (Some msg) 0) = s\<lparr>ad_Queue := u\<rparr>"
    using ok assms by (simp add: MlmeEnqueue_def MlmeQueueFull_def Let_def halted_def u_def)
  let ?p = "s\<lparr>ad_Queue := snd (MlmeDequeue u)\<rparr>"
  have "mlme_ok ?p" using ok(1) g(2) none by (simp add: mlme_ok_def)
  then have "auth_base ?p" using assms(1) by (simp add: auth_base_def halted_def RTMP_TEST_FLAG_def tables_def)
  moreover have "deliver env other cntl T msg s = map_option (mlme_free ?i)
      (StateMachinePerformAction (auth_call env other) ?p (ad_AuthMachine s) ?i T (sm_CurrState (ad_AuthMachine s)))"
    using g(1,3) head assms(3)
    by (simp add: deliver_def enq auth_round_def mlme_round_def mlme_switch_def case_prod_beta Let_def option.map_ident)
  moreover have "slot_Msg ?p ?i = msg @ drop (length msg) (me_Msg ?e)"
    using g(3) head by (simp add: slot_Msg_def mq_store_def NdisMoveMemory_def)
  moreover have "mq_Num (snd (MlmeDequeue u)) = 0" using none length_mq_pending [of "snd (MlmeDequeue u)"] by simp
  moreover have "mq_Head (snd (MlmeDequeue u)) \<noteq> ?i" using put(1) by (auto simp: MlmeDequeue_def Let_def mq_inv_def split: if_splits)
  ultimately show thesis using that [of ?i "snd (MlmeDequeue u)" "drop (length msg) (me_Msg ?e)"] old by simp
qed

section \<open>Shared-key authentication\<close>

text \<open>Memory is available, in the sizes that are asked for.\<close>

definition auth_mem_ok :: "auth_mem \<Rightarrow> bool" where
  "auth_mem_ok env \<longleftrightarrow> (\<exists>b. am_Out env = Some b \<and> length b = MGMT_DMA_BUFFER_SIZE) \<and> (\<exists>c. am_Chlg env = Some c \<and> length c = CIPHER_TEXT_LEN)
     \<and> (\<exists>d. am_Cyper env = Some d \<and> length d = CIPHER_TEXT_LEN + 8 + 8) \<and> am_arc4 env \<noteq> None \<and> am_seed env"

lemma header_length: "length (au_CurrentAddress s) = 6 \<Longrightarrow> length a = 6 \<Longrightarrow> length b = 6 \<Longrightarrow> length (MgtMacHeaderInit s st d a b) = 24"
  by (simp add: MgtMacHeaderInit_def)

lemma le16_simps [simp]: "length (bytes_le16 w) = 2" "bytes_le16 0 = [0, 0]" "bytes_le16 1 = [1, 0]" "bytes_le16 3 = [3, 0]"
  by (simp_all add: bytes_le16_def)

lemma request_sent:
  assumes "\<not> au_bBlockAssoc p" "slot_Msg p i = auth_request AP Alg t @ old" "Alg = 0 \<or> Alg = 1" "length AP = 6" "AP ! 0 AND 1 = 0"
    and "auth_mem_ok env" "length (au_CurrentAddress p) = 6"
  shows "MlmeAuthReqAction env p i = set_AuthState AUTH_WAIT_SEQ2 (set_AuthTimer (unat t)
    (au_emit [MiniportMMRequest (MgtMacHeaderInit p SUBTYPE_AUTH 0 AP AP @ bytes_le16 Alg @ [1, 0, 0, 0])]
      ((cancel_AuthTimer p)\<lparr>au_Bssid := AP, au_Alg := Alg\<rparr>)))"
proof -
  obtain b where b: "am_Out env = Some b" "length b = 1600" using assms(6) by (auto simp: auth_mem_ok_def)
  have "msg_u16 (slot_Msg p i) 6 = Alg" using msg_u16_append [OF assms(4), of Alg "bytes_le32 t @ old"] assms(2) by (simp add: auth_request_def)
  moreover have "drop 8 (auth_request AP Alg t @ old) = bytes_le32 t @ old" using assms(4) by (simp add: auth_request_def)
  ultimately have q: "MlmeAuthReqSanity (slot_Msg p i) = (True, AP, unat t, Alg)"
    using assms(2-5) by (auto simp: MlmeAuthReqSanity_def Let_def auth_request_def)
  let ?p = "(cancel_AuthTimer p)\<lparr>au_Bssid := AP, au_Alg := Alg\<rparr>"
  have h: "MgtMacHeaderInit ?p 11 0 AP AP = MgtMacHeaderInit p 11 0 AP AP" by (simp add: MgtMacHeaderInit_def cancel_AuthTimer_def)
  have "MakeOutgoingFrame b [MgtMacHeaderInit p 11 0 AP AP, bytes_le16 Alg, [1, 0], [0, 0]]
    = ((MgtMacHeaderInit p 11 0 AP AP @ bytes_le16 Alg @ [1, 0, 0, 0]) @ drop 30 b, 30)"
    using b(2) header_length [OF assms(7,4,4)] by (subst MakeOutgoingFrame_concat) simp_all
  then show ?thesis
    using assms(1) b q header_length [OF assms(7,4,4), of 11 0] by (simp add: MlmeAuthReqAction_def AUTH_ReqSend_def Let_def h)
qed

lemma SoftEncryptWEP_length:
  assumes "RTMPSoftEncryptWEP (Some ctx) seed hdr pKey pData n = (ok, E, held)" "ck_KeyLen pKey \<noteq> 0" "n + 4 \<le> length pData"
  shows "length E = length pData"
  using SoftEncryptWEP_spec [OF assms(2,3) refl refl] assms(1,3) by auto

text \<open>The frame of message 3: the header with its protected bit, the IV header, and the encrypted body.\<close>

lemma challenge_answered:
  fixes p :: AUTH_ADAPTER
  defines "k \<equiv> au_SharedKey p ! au_DefaultKeyId p"
  assumes "slot_Msg p i = auth_frame_of A1 AP 1 2 0 ([16, 128] @ C) @ old" "length A1 = 6" "length AP = 6" "length C = 128"
    and "au_Bssid p = AP" "au_Alg p \<noteq> 0" "auth_mem_ok env" "length (au_CurrentAddress p) = 6" "ck_KeyLen k \<noteq> 0" "3 \<le> length (ck_TxTsc k)"
  obtains h B ks where "PeerAuthRspAtSeq2Action env p i = set_AuthState AUTH_WAIT_SEQ4 (set_AuthTimer AUTH_TIMEOUT
      (au_emit [MiniportMMRequest (h @ B)] ((cancel_AuthTimer p)\<lparr>au_SharedKey := ks\<rparr>)))"
    "length h = 24" "length B = 144"
    "\<And>ctx. \<exists>D. RTMPSoftDecryptWEP (Some ctx) True k B 144 = Some (True, D, 136, 0) \<and> take 136 D = [1, 0, 3, 0, 0, 0, 16, 128] @ C"
proof -
  obtain b c d ctx where m: "am_Out env = Some b" "length b = 1600" "am_Chlg env = Some c" "length c = 128" "am_Cyper env = Some d"
      "length d = 144" "am_arc4 env = Some ctx" "am_seed env"
    using assms(8) by (auto simp: auth_mem_ok_def)
  let ?m = "auth_frame_of A1 AP 1 2 0 ([16, 128] @ C) @ old"
  have u: "msg_u16 ?m 24 = 1" "msg_u16 ?m 26 = 2" "msg_u16 ?m 28 = 0"
    using assms(3,4) by (simp_all add: msg_u16_def auth_frame_of_def nth_append le16_def bytes_le16_def)
  moreover have "take 6 (drop 10 ?m) = AP" "take 128 (drop 32 ?m) = C" using assms(3-5) by (simp_all add: auth_frame_of_def)
  ultimately have q: "PeerAuthSanity (slot_Msg p i) c = (True, AP, 1, 2, 0, C)"
    using assms(2,5) m(4) by (simp add: PeerAuthSanity_def Let_def NdisMoveMemory_0_all)
  define p' where "p' = cancel_AuthTimer p"
  have p': "au_SharedKey p' = au_SharedKey p" "au_DefaultKeyId p' = au_DefaultKeyId p" "au_Bssid p' = AP" "au_Alg p' \<noteq> 0" "length (au_CurrentAddress p') = 6"
    using assms(6,7,9) by (simp_all add: p'_def cancel_AuthTimer_def)
  define key where "key = k\<lparr>ck_TxTsc := INC_TX_TSC (ck_TxTsc k) LEN_WEP_TSC\<rparr>"
  define iv where "iv = RTMPConstructWEPIVHdr (word_of_nat (au_DefaultKeyId p)) (ck_TxTsc key) (NdisZeroMemory 4)"
  define h where "h = (let h = MgtMacHeaderInit p' SUBTYPE_AUTH 0 AP AP in h[1 := h ! 1 OR 0x40])"
  let ?body = "[1, 0, 3, 0, 0, 0, 16, 128] @ C"
  have tsc: "length (inc_tsc_loop n j t) = length t" for n j t by (induction n arbitrary: j t) (auto simp: Let_def)
  have iv: "length iv = 4" using assms(11) by (simp add: iv_def key_def RTMPConstructWEPIVHdr_def Let_def NdisMoveMemory_def wep_consts INC_TX_TSC_def tsc NdisZeroMemory_def)
  have h: "length h = 24" using p' assms(4) by (simp add: h_def Let_def header_length)
  have plain: "MakeOutgoingFrame d [[1, 0], [3, 0], [0, 0], [16], [128], C] = (?body @ drop 136 d, 136)"
    using m(6) assms(5) by (subst MakeOutgoingFrame_concat) simp_all
  obtain ok E held where e: "RTMPSoftEncryptWEP (Some ctx) True iv key (?body @ drop 136 d) 136 = (ok, E, held)" by (metis prod_cases3)
  have kl: "ck_KeyLen key \<noteq> 0" using assms(10) by (simp add: key_def)
  have dec: "ok \<and> (\<exists>D. RTMPSoftDecryptWEP (Some ctx') True key (iv @ take 140 E @ []) 144 = Some (True, D, 136, 0) \<and> take 136 D = ?body)" for ctx'
    using SoftDecryptWEP_Encrypt [OF kl iv _ _ e, of ctx' "[]"] m(6) assms(5) by simp
  have same: "RTMPSoftDecryptWEP mm True key X n = RTMPSoftDecryptWEP mm True k X n" for mm X n by (cases mm) (simp_all add: RTMPSoftDecryptWEP_def key_def)
  have E: "length E = 144"
    using SoftEncryptWEP_length [OF e kl] m(6) assms(5) by simp
  define B where "B = iv @ take 140 E"
  have frame: "MakeOutgoingFrame b [h, iv, take 140 E] = ((h @ B) @ drop 168 b, 168)"
    using m(2) h iv E by (subst MakeOutgoingFrame_concat) (simp_all add: B_def)
  have "PeerAuthRspAtSeq2Action env p i = set_AuthState AUTH_WAIT_SEQ4 (set_AuthTimer AUTH_TIMEOUT
      (au_emit [MiniportMMRequest (h @ B)] (p'\<lparr>au_SharedKey := (au_SharedKey p)[au_DefaultKeyId p := key]\<rparr>)))"
    using q m(1,3,5,7,8) p' dec e plain frame assms(6) h iv E
    by (simp add: PeerAuthRspAtSeq2Action_def auth_challenged_def Let_def k_def key_def iv_def h_def p'_def [symmetric] wep_consts B_def)
  moreover have "length B = 144" using iv E by (simp add: B_def)
  moreover have "\<exists>D. RTMPSoftDecryptWEP (Some ctx') True k B 144 = Some (True, D, 136, 0) \<and> take 136 D = ?body" for ctx'
    using dec [of ctx'] by (simp add: same B_def)
  ultimately show thesis using that h by (simp add: p'_def)
qed

lemma seq4_confirms:
  assumes "slot_Msg p i = auth_frame_of A1 AP Alg 4 0 rest @ old" "Alg = 1" "length A1 = 6" "length AP = 6" "au_Bssid p = AP" "auth_mem_ok env"
  shows "PeerAuthRspAtSeq4Action env p i = conf MT2_AUTH_CONF 0 (set_AuthState AUTH_REQ_IDLE (cancel_AuthTimer p))"
proof -
  obtain c where c: "am_Chlg env = Some c" using assms(6) by (auto simp: auth_mem_ok_def)
  let ?m = "auth_frame_of A1 AP 1 4 0 rest @ old"
  have u: "msg_u16 ?m 24 = 1" "msg_u16 ?m 26 = 4" "msg_u16 ?m 28 = 0"
    using assms(3,4) by (simp_all add: msg_u16_def auth_frame_of_def nth_append le16_def bytes_le16_def)
  moreover have "take 6 (drop 10 ?m) = AP" using assms(3,4) by (simp add: auth_frame_of_def)
  ultimately have "PeerAuthSanity (slot_Msg p i) c = (True, AP, 1, 4, 0, c)" using assms(1,2) by (simp add: PeerAuthSanity_def Let_def)
  then show ?thesis using c assms(5) by (simp add: PeerAuthRspAtSeq4Action_def Let_def)
qed

text \<open>A confirmation queued while the queue is empty survives the release of another slot.\<close>

lemma conf_pending:
  assumes "auth_base s" "mq_Num (ad_Queue s) = 0" "mq_Head (ad_Queue s) \<noteq> i"
  shows "mlme_pending (mlme_free i (conf T st s)) = [(MLME_CNTL_STATE_MACHINE, T, 0, bytes_le16 st)]"
proof -
  let ?r = "conf T st s"
  have run: "mlme_running s" using assms(1) by (simp add: auth_base_def mlme_running_def halted_def mlme_ok_def)
  have r: "?r = snd (mlme_enq (5, T, 0, bytes_le16 st) s)" by (simp add: conf_def mlme_enq_def)
  have pend: "mlme_pending ?r = [(5, T, 0, bytes_le16 st)]" and inv: "mq_inv (ad_Queue ?r)"
    using mlme_enq_accepts [OF run, of "(5, T, 0, bytes_le16 st)"] assms(2) r
    by (simp_all add: mlme_valid_def mlme_pending_def mq_pending_def mlme_running_def)
  have "length (mlme_pending ?r) = 1" by (simp add: pend)
  then have num: "mq_Num (ad_Queue ?r) = 1" by (simp add: mlme_pending_def)
  have head: "mq_Head (ad_Queue ?r) = mq_Head (ad_Queue s)"
    by (simp add: conf_def MlmeEnqueue_def Let_def mq_advance_tail_def)
  have "mq_Head (ad_Queue s) < 40" using inv head by (simp add: mq_inv_def)
  then have "mlme_pending (mlme_free i ?r) = mlme_pending ?r"
    using num head assms(3) by (simp add: mlme_pending_def mlme_free_def mq_pending_def)
  then show ?thesis by (simp add: pend)
qed

text \<open>What remains of a state after a message was handled.\<close>

lemma free_same [simp]:
  "sm_CurrState (ad_AuthMachine (mlme_free i s)) = sm_CurrState (ad_AuthMachine s)" "ad_AuthMachine (mlme_free i s) = ad_AuthMachine s"
  "au_TimerRunning (mlme_free i s) = au_TimerRunning s" "au_Log (mlme_free i s) = au_Log s" "au_Bssid (mlme_free i s) = au_Bssid s"
  "au_Alg (mlme_free i s) = au_Alg s" "au_SharedKey (mlme_free i s) = au_SharedKey s" "au_DefaultKeyId (mlme_free i s) = au_DefaultKeyId s"
  "au_CurrentAddress (mlme_free i s) = au_CurrentAddress s" "mq_Num (ad_Queue (mlme_free i s)) = mq_Num (ad_Queue s)"
  by (simp_all add: mlme_free_def)

lemmas auth_fields = set_AuthState_def set_AuthTimer_def cancel_AuthTimer_def au_emit_def

definition key_ready :: "AUTH_ADAPTER \<Rightarrow> bool" where
  "key_ready s \<longleftrightarrow> ck_KeyLen (au_SharedKey s ! au_DefaultKeyId s) \<noteq> 0 \<and> 3 \<le> length (ck_TxTsc (au_SharedKey s ! au_DefaultKeyId s))
     \<and> length (au_CurrentAddress s) = 6"

lemma deliver_request:
  assumes "auth_base s" "mq_Num (ad_Queue s) = 0" "sm_CurrState (ad_AuthMachine s) = 0" "auth_mem_ok env" "key_ready s"
    and "length AP = 6" "AP ! 0 AND 1 = 0"
  obtains s1 where "deliver env other cntl 0 (auth_request AP 1 t) s = Some s1"
    "au_Log s1 = au_Log s @ [MiniportMMRequest (MgtMacHeaderInit s SUBTYPE_AUTH 0 AP AP @ [1, 0, 1, 0, 0, 0])]"
    "auth_base s1" "mq_Num (ad_Queue s1) = 0" "sm_CurrState (ad_AuthMachine s1) = 1" "au_TimerRunning s1" "key_ready s1"
    "au_SharedKey s1 = au_SharedKey s" "au_DefaultKeyId s1 = au_DefaultKeyId s" "au_Bssid s1 = AP" "au_Alg s1 = 1"
proof -
  have len: "length (auth_request AP 1 t) \<le> 1600" using assms(6) by (simp add: auth_request_def)
  obtain q i old where d: "deliver env other cntl 0 (auth_request AP 1 t) s = map_option (mlme_free i)
      (StateMachinePerformAction (auth_call env other) (s\<lparr>ad_Queue := q\<rparr>) (ad_AuthMachine s) i 0 (sm_CurrState (ad_AuthMachine s)))"
    and p: "auth_base (s\<lparr>ad_Queue := q\<rparr>)" "mq_Num q = 0" "slot_Msg (s\<lparr>ad_Queue := q\<rparr>) i = auth_request AP 1 t @ old"
    by (rule deliver_eq [OF assms(1,2) _ len, of 0 env other cntl], simp, blast)
  let ?p = "s\<lparr>ad_Queue := q\<rparr>"
  let ?r = "MlmeAuthReqAction env ?p i"
  have tab: "auth_table (ad_AuthMachine s)" "\<not> au_bBlockAssoc ?p" using assms(1) by (simp_all add: auth_base_def)
  have "deliver env other cntl 0 (auth_request AP 1 t) s = Some (mlme_free i ?r)"
    unfolding d auth_dispatch [OF tab(1), of 0, simplified] using assms(3) by (simp add: auth_call_def)
  moreover have r: "?r = set_AuthState 1 (set_AuthTimer (unat t)
    (au_emit [MiniportMMRequest (MgtMacHeaderInit ?p 11 0 AP AP @ bytes_le16 1 @ [1, 0, 0, 0])] ((cancel_AuthTimer ?p)\<lparr>au_Bssid := AP, au_Alg := 1\<rparr>)))"
    using assms(5) by (intro request_sent [OF tab(2) p(3) _ assms(6,7,4)]) (simp_all add: key_ready_def)
  moreover have "MgtMacHeaderInit ?p 11 0 AP AP = MgtMacHeaderInit s 11 0 AP AP" by (simp add: MgtMacHeaderInit_def)
  moreover have "auth_keeps ?p ?r" using request_outcome [OF tab(2), of env i] by (simp add: auth_outcome_def)
  then have "auth_base (mlme_free i ?r)" using free_base(1) keeps_base p(1) by blast
  ultimately show thesis using that [of "mlme_free i ?r"] p(2) assms(5) by (simp add: auth_fields key_ready_def)
qed

lemma deliver_challenge:
  assumes "auth_base s" "mq_Num (ad_Queue s) = 0" "sm_CurrState (ad_AuthMachine s) = 1" "auth_mem_ok env" "key_ready s"
    and "length A1 = 6" "length AP = 6" "length C = 128" "au_Bssid s = AP" "au_Alg s = 1"
  obtains s2 h B where "deliver env other cntl 1 (auth_frame_of A1 AP 1 2 0 ([16, 128] @ C)) s = Some s2"
    "au_Log s2 = au_Log s @ [MiniportMMRequest (h @ B)]" "length h = 24" "length B = 144"
    "\<And>ctx. \<exists>D. RTMPSoftDecryptWEP (Some ctx) True (au_SharedKey s ! au_DefaultKeyId s) B 144 = Some (True, D, 136, 0)
      \<and> take 136 D = [1, 0, 3, 0, 0, 0, 16, 128] @ C"
    "auth_base s2" "mq_Num (ad_Queue s2) = 0" "sm_CurrState (ad_AuthMachine s2) = 2" "au_TimerRunning s2" "au_Bssid s2 = AP"
proof -
  let ?m = "auth_frame_of A1 AP 1 2 0 ([16, 128] @ C)"
  have len: "length ?m \<le> 1600" using assms(6-8) by (simp add: auth_frame_of_def)
  obtain q i old where d: "deliver env other cntl 1 ?m s = map_option (mlme_free i)
      (StateMachinePerformAction (auth_call env other) (s\<lparr>ad_Queue := q\<rparr>) (ad_AuthMachine s) i 1 (sm_CurrState (ad_AuthMachine s)))"
    and p: "auth_base (s\<lparr>ad_Queue := q\<rparr>)" "mq_Num q = 0" "slot_Msg (s\<lparr>ad_Queue := q\<rparr>) i = ?m @ old"
    by (rule deliver_eq [OF assms(1,2) _ len, of 1 env other cntl], simp, blast)
  let ?p = "s\<lparr>ad_Queue := q\<rparr>"
  let ?r = "PeerAuthRspAtSeq2Action env ?p i"
  have tab: "auth_table (ad_AuthMachine s)" using assms(1) by (simp add: auth_base_def)
  have "deliver env other cntl 1 ?m s = Some (mlme_free i ?r)"
    unfolding d using auth_dispatch [OF tab, of 1 "auth_call env other" ?p i] assms(3) by (simp add: auth_call_def)
  moreover have pre: "au_Bssid ?p = AP" "au_Alg ?p \<noteq> 0" "length (au_CurrentAddress ?p) = 6" "ck_KeyLen (au_SharedKey ?p ! au_DefaultKeyId ?p) \<noteq> 0"
    "3 \<le> length (ck_TxTsc (au_SharedKey ?p ! au_DefaultKeyId ?p))"
    using assms(5,9,10) by (simp_all add: key_ready_def)
  moreover obtain h B ks where r: "?r = set_AuthState 2 (set_AuthTimer 300 (au_emit [MiniportMMRequest (h @ B)] ((cancel_AuthTimer ?p)\<lparr>au_SharedKey := ks\<rparr>)))"
    and hB: "length h = 24" "length B = 144"
      "\<And>ctx. \<exists>D. RTMPSoftDecryptWEP (Some ctx) True (au_SharedKey ?p ! au_DefaultKeyId ?p) B 144 = Some (True, D, 136, 0)
        \<and> take 136 D = [1, 0, 3, 0, 0, 0, 16, 128] @ C"
    using challenge_answered [OF p(3) assms(6,7,8) pre(1,2) assms(4) pre(3-5)] by blast
  moreover have "auth_keeps ?p ?r" using seq2_outcome [of ?p env i] by (simp add: auth_outcome_def)
  then have "auth_base (mlme_free i ?r)" using free_base(1) keeps_base p(1) by blast
  ultimately show thesis using that [of "mlme_free i ?r" h B] p(2) assms(9) by (simp add: auth_fields)
qed

lemma deliver_verdict:
  assumes "auth_base s" "mq_Num (ad_Queue s) = 0" "sm_CurrState (ad_AuthMachine s) = 2" "auth_mem_ok env"
    and "length A1 = 6" "length AP = 6" "au_Bssid s = AP"
  obtains s3 where "deliver env other cntl 1 (auth_frame_of A1 AP 1 4 0 []) s = Some s3" "sm_CurrState (ad_AuthMachine s3) = 0"
    "\<not> au_TimerRunning s3" "mlme_pending s3 = [(MLME_CNTL_STATE_MACHINE, MT2_AUTH_CONF, 0, [0, 0])]"
proof -
  let ?m = "auth_frame_of A1 AP 1 4 0 []"
  have len: "length ?m \<le> 1600" using assms(5,6) by (simp add: auth_frame_of_def)
  obtain q i old where d: "deliver env other cntl 1 ?m s = map_option (mlme_free i)
      (StateMachinePerformAction (auth_call env other) (s\<lparr>ad_Queue := q\<rparr>) (ad_AuthMachine s) i 1 (sm_CurrState (ad_AuthMachine s)))"
    and p: "auth_base (s\<lparr>ad_Queue := q\<rparr>)" "mq_Num q = 0" "mq_Head q \<noteq> i" "slot_Msg (s\<lparr>ad_Queue := q\<rparr>) i = ?m @ old"
    by (rule deliver_eq [OF assms(1,2) _ len, of 1 env other cntl], simp, blast)
  let ?p = "s\<lparr>ad_Queue := q\<rparr>"
  let ?t = "set_AuthState 0 (cancel_AuthTimer ?p)"
  have tab: "auth_table (ad_AuthMachine s)" using assms(1) by (simp add: auth_base_def)
  have r: "PeerAuthRspAtSeq4Action env ?p i = conf MT2_AUTH_CONF 0 ?t"
    using seq4_confirms [OF p(4) refl assms(5,6) _ assms(4)] assms(7) by simp
  then have "deliver env other cntl 1 ?m s = Some (mlme_free i (conf MT2_AUTH_CONF 0 ?t))"
    unfolding d using auth_dispatch [OF tab, of 1 "auth_call env other" ?p i] assms(3) by (simp add: auth_call_def)
  moreover have "auth_base ?t" using keeps_base [OF _ p(1)] auth_keeps_trans [OF fields_keep(1) AuthState_keeps] by simp
  then have "mlme_pending (mlme_free i (conf MT2_AUTH_CONF 0 ?t)) = [(5, 35, 0, bytes_le16 0)]"
    using p(2,3) by (intro conf_pending) (simp_all add: auth_fields)
  ultimately show thesis using that [of "mlme_free i (conf MT2_AUTH_CONF 0 ?t)"] by simp
qed

section \<open>Properties\<close>

text \<open>C4: shared-key authentication.  From an idle machine with a key, a request through the queue sends message 1 to the access point and
  waits under the timer; the challenge of the access point makes the station send message 3, whose body the access point
  decrypts with the same key to the third message with its own challenge text; its approval returns the machine to idle,
  stops the timer and leaves exactly one confirmation of success in the queue.\<close>

theorem shared_key_authentication:
  assumes "auth_base s" "mq_Num (ad_Queue s) = 0" "\<not> waiting s" "auth_mem_ok env" "key_ready s"
    and "length AP = 6" "AP ! 0 AND 1 = 0" "length A1 = 6" "length C = 128"
  shows "\<exists>s1 s2 s3 h B. deliver env other cntl MT2_MLME_AUTH_REQ (auth_request AP 1 t) s = Some s1 \<and> au_TimerRunning s1
    \<and> au_Log s1 = au_Log s @ [MiniportMMRequest (MgtMacHeaderInit s SUBTYPE_AUTH 0 AP AP @ [1, 0, 1, 0, 0, 0])]
    \<and> deliver env other cntl MT2_PEER_AUTH_EVEN (auth_frame_of A1 AP 1 2 0 ([16, 128] @ C)) s1 = Some s2 \<and> au_TimerRunning s2
    \<and> au_Log s2 = au_Log s1 @ [MiniportMMRequest (h @ B)] \<and> length h = 24
    \<and> (\<forall>ctx. \<exists>D. RTMPSoftDecryptWEP (Some ctx) True (au_SharedKey s ! au_DefaultKeyId s) B 144 = Some (True, D, 136, 0)
        \<and> take 136 D = [1, 0, 3, 0, 0, 0, 16, 128] @ C)
    \<and> deliver env other cntl MT2_PEER_AUTH_EVEN (auth_frame_of A1 AP 1 4 0 []) s2 = Some s3 \<and> \<not> waiting s3 \<and> \<not> au_TimerRunning s3
    \<and> mlme_pending s3 = [(MLME_CNTL_STATE_MACHINE, MT2_AUTH_CONF, 0, [0, 0])]"
proof -
  have idle: "sm_CurrState (ad_AuthMachine s) = 0" using assms(3) by (simp add: waiting_def)
  obtain s1 where s1: "deliver env other cntl 0 (auth_request AP 1 t) s = Some s1"
    "au_Log s1 = au_Log s @ [MiniportMMRequest (MgtMacHeaderInit s 11 0 AP AP @ [1, 0, 1, 0, 0, 0])]"
    "auth_base s1" "mq_Num (ad_Queue s1) = 0" "sm_CurrState (ad_AuthMachine s1) = 1" "au_TimerRunning s1" "key_ready s1"
    "au_SharedKey s1 = au_SharedKey s" "au_DefaultKeyId s1 = au_DefaultKeyId s" "au_Bssid s1 = AP" "au_Alg s1 = 1"
    using deliver_request [OF assms(1,2) idle assms(4-7), of other cntl t] by blast
  obtain s2 h B where s2: "deliver env other cntl 1 (auth_frame_of A1 AP 1 2 0 ([16, 128] @ C)) s1 = Some s2"
    "au_Log s2 = au_Log s1 @ [MiniportMMRequest (h @ B)]" "length h = 24" "length B = 144"
    "\<And>ctx. \<exists>D. RTMPSoftDecryptWEP (Some ctx) True (au_SharedKey s1 ! au_DefaultKeyId s1) B 144 = Some (True, D, 136, 0)
      \<and> take 136 D = [1, 0, 3, 0, 0, 0, 16, 128] @ C"
    "auth_base s2" "mq_Num (ad_Queue s2) = 0" "sm_CurrState (ad_AuthMachine s2) = 2" "au_TimerRunning s2" "au_Bssid s2 = AP"
    using deliver_challenge [OF s1(3,4,5) assms(4) s1(7) assms(8,6,9) s1(10,11), of other cntl] by blast
  obtain s3 where s3: "deliver env other cntl 1 (auth_frame_of A1 AP 1 4 0 []) s2 = Some s3" "sm_CurrState (ad_AuthMachine s3) = 0"
    "\<not> au_TimerRunning s3" "mlme_pending s3 = [(5, 35, 0, [0, 0])]"
    using deliver_verdict [OF s2(6,7,8) assms(4,8,6) s2(10), of other cntl] by blast
  have "\<forall>ctx. \<exists>D. RTMPSoftDecryptWEP (Some ctx) True (au_SharedKey s ! au_DefaultKeyId s) B 144 = Some (True, D, 136, 0)
      \<and> take 136 D = [1, 0, 3, 0, 0, 0, 16, 128] @ C"
    using s2(5) s1(8,9) by simp
  then show ?thesis using s1(1,2,6) s2(1-3,9) s3 unfolding waiting_def by blast
qed

text \<open>A station that has just been initialised, with a WEP key.\<close>

definition auth0 :: AUTH_ADAPTER where
  "auth0 = MlmeInit funcs0 \<lparr>ad_Flags = 0, ad_Queue = \<lparr>mq_Num = 0, mq_Head = 0, mq_Tail = 0, mq_Entry = replicate 40 elem0\<rparr>,
     ad_bRunning = False, ad_CntlMachine = machine0, ad_AssocMachine = machine0, ad_AuthMachine = machine0, ad_AuthRspMachine = machine0,
     ad_SyncMachine = machine0, ad_WpaPskMachine = machine0, ad_ActMachine = machine0, ad_WpaMachine = machine0, ad_Channel = 1,
     ad_LatchChannel = 1, ad_RateUpTimerRunning = False, ad_AutoWakeupTimerRunning = False, ad_Log = [],
     au_CurrentAddress = [2, 0, 0, 0, 0, 1], au_Bssid = replicate 6 0, au_Alg = 0, au_BssIdx = 0, au_ApBssid = replicate 6 0, au_InfraOn = False,
     au_TimerRunning = False, au_bBlockAssoc = False, au_SharedKey = replicate 4 wep_key0, au_DefaultKeyId = 0, au_AuthFailReason = 0,
     au_AuthFailSta = replicate 6 0, au_DeauthReason = 0, au_DeauthSta = replicate 6 0, au_WpaSupplicantUP = False, au_AuthMode = 1,
     au_PortSecured = 2, au_bLostAp = False, au_Log = []\<rparr>"

definition auth_mem0 :: auth_mem where
  "auth_mem0 = \<lparr>am_Out = Some (replicate 1600 0), am_Chlg = Some (replicate 128 0), am_Cyper = Some (replicate 144 0), am_arc4 = Some arc4_ctx0, am_seed = True\<rparr>"

lemma auth0_ok: "auth_base auth0" "\<not> waiting auth0" "mq_Num (ad_Queue auth0) = 0" "key_ready auth0" "auth_mem_ok auth_mem0"
proof -
  have "mlme_ok auth0" unfolding auth0_def by (rule mlme_ok_MlmeInit) (simp_all add: funcs_ok_def funcs0_def)
  moreover have "auth_table (ad_AuthMachine auth0)"
  proof -
    have "ad_AuthMachine auth0 = (AuthStateMachineInit (replicate 9 None))\<lparr>sm_CurrState := 0\<rparr>"
      by (simp add: auth0_def MlmeInit_def funcs0_def AuthStateMachineInit_def)
    then show ?thesis unfolding auth_table_def by (intro exI [of _ "replicate 9 None"] exI [of _ 0]) simp
  qed
  moreover have "list_all (\<lambda>t. list_all (\<lambda>f. f \<noteq> None \<longrightarrow> the f \<notin> auth_funcs) t) (tables auth0)"
    unfolding tables_def auth0_def MlmeInit_def auth_funcs_def funcs0_def by code_simp
  then have "\<forall>t \<in> set (tables auth0). \<forall>f \<in> auth_funcs. Some f \<notin> set t" by (fastforce simp: list_all_iff)
  moreover have "\<not> halted auth0" "\<not> au_bBlockAssoc auth0" by (simp_all add: auth0_def MlmeInit_def halted_def RTMP_TEST_FLAG_def)
  ultimately show "auth_base auth0" by (simp add: auth_base_def)
  show "\<not> waiting auth0" by (simp add: waiting_def auth0_def MlmeInit_def AuthStateMachineInit_def)
  show "mq_Num (ad_Queue auth0) = 0" by (simp add: auth0_def MlmeInit_def MlmeQueueInit_def)
  show "key_ready auth0" "auth_mem_ok auth_mem0" by (simp_all add: key_ready_def auth0_def MlmeInit_def wep_key0_def auth_mem_ok_def auth_mem0_def)
qed

theorem shared_key_authentication_witness:
  "\<exists>s1 s2 s3. deliver auth_mem0 (\<lambda>f s i. s) (\<lambda>s i. s) 0 (auth_request [0, 1, 2, 3, 4, 5] 1 300) auth0 = Some s1
    \<and> deliver auth_mem0 (\<lambda>f s i. s) (\<lambda>s i. s) 1 (auth_frame_of (replicate 6 0) [0, 1, 2, 3, 4, 5] 1 2 0 ([16, 128] @ replicate 128 7)) s1 = Some s2
    \<and> deliver auth_mem0 (\<lambda>f s i. s) (\<lambda>s i. s) 1 (auth_frame_of (replicate 6 0) [0, 1, 2, 3, 4, 5] 1 4 0 []) s2 = Some s3
    \<and> mlme_pending s3 = [(5, 35, 0, [0, 0])]"
  using shared_key_authentication [OF auth0_ok(1,3,2,5,4), of "[0, 1, 2, 3, 4, 5]" "replicate 6 0" "replicate 128 7" "\<lambda>f s i. s" "\<lambda>s i. s" 300]
  by auto


lemma frame_refl: "keeps_auth (\<lambda>f s i. s) (\<lambda>s i. s)"
  by (simp add: keeps_auth_def auth_frame_def)


text \<open>C40: the block period wedges the machine.  A request during the countermeasures is refused and confirmed as such, yet the machine
  enters its waiting state, with nothing sent and the timer as it was; the next request, whenever it comes, is refused
  again because the machine is waiting.\<close>

theorem auth_blocked_waits:
  assumes "au_bBlockAssoc s" "auth_base (s\<lparr>au_bBlockAssoc := False\<rparr>)" "mq_Num (ad_Queue s) < 40"
  shows "let r = MlmeAuthReqAction env s i in sm_CurrState (ad_AuthMachine r) = AUTH_WAIT_SEQ2 \<and> au_TimerRunning r = au_TimerRunning s
    \<and> au_Log r = au_Log s \<and> (MLME_CNTL_STATE_MACHINE, MT2_AUTH_CONF) \<in> set (kinds r)
    \<and> (\<forall>u env' j. ad_AuthMachine u = ad_AuthMachine r \<longrightarrow>
        StateMachinePerformAction (auth_call env' other) u (ad_AuthMachine u) j MT2_MLME_AUTH_REQ (sm_CurrState (ad_AuthMachine u))
          = Some (InvalidStateWhenAuth u))"
proof -
  let ?t = "set_AuthState AUTH_REQ_IDLE s"
  let ?r = "set_AuthState AUTH_WAIT_SEQ2 (conf MT2_AUTH_CONF MLME_STATE_MACHINE_REJECT ?t)"
  have r: "MlmeAuthReqAction env s i = ?r" using assms(1) by (simp add: MlmeAuthReqAction_def AUTH_ReqSend_def)
  have ok: "mlme_ok s" "\<not> halted s" "auth_table (ad_AuthMachine s)"
    using assms(2) by (simp_all add: auth_base_def mlme_ok_def halted_def RTMP_TEST_FLAG_def)
  then have "roomy s" using assms(3) by (simp add: roomy_def)
  then have "(5, 35) \<in> set (kinds (conf MT2_AUTH_CONF MLME_STATE_MACHINE_REJECT ?t))" using conf_queued(2) [OF auth_keeps_refl refl] by blast
  then have k: "(5, 35) \<in> set (kinds ?r)" by (simp add: kinds_def)
  have tab: "auth_table (ad_AuthMachine ?r)"
    using ok(3) auth_table_state by (simp add: set_AuthState_def)
  have "StateMachinePerformAction (auth_call env' other) u (ad_AuthMachine u) j 0 (sm_CurrState (ad_AuthMachine u)) = Some (InvalidStateWhenAuth u)"
    if "ad_AuthMachine u = ad_AuthMachine ?r" for u env' j
    using auth_dispatch [of "ad_AuthMachine u" 0 "auth_call env' other" u j] tab that by (simp add: auth_call_def)
  moreover have "au_Log ?r = au_Log s" by (simp add: set_AuthState_def)
  ultimately show ?thesis using k by (simp add: r Let_def)
qed

theorem auth_blocked_waits_witness:
  "sm_CurrState (ad_AuthMachine (MlmeAuthReqAction auth_mem0 (auth0\<lparr>au_bBlockAssoc := True\<rparr>) 0)) = 1"
proof -
  have "auth0\<lparr>au_bBlockAssoc := True, au_bBlockAssoc := False\<rparr> = auth0" by (simp add: auth0_def MlmeInit_def)
  then show ?thesis using auth_blocked_waits [of "auth0\<lparr>au_bBlockAssoc := True\<rparr>" auth_mem0 0 "\<lambda>f s i. s"] auth0_ok by (simp add: Let_def)
qed

definition from_our_ap :: "AUTH_ADAPTER \<Rightarrow> bytes \<Rightarrow> bool" where
  "from_our_ap s m \<longleftrightarrow> au_InfraOn s \<and> take 6 (drop 4 m) \<in> {au_CurrentAddress s, BROADCAST_ADDR} \<and> take 6 (drop 10 m) = au_ApBssid s \<and> take 6 (drop 16 m) = au_ApBssid s"

lemma deauth_ours:
  assumes "from_our_ap s (slot_Msg s i)"
  shows "au_Log (PeerDeauthAction s i) = au_Log s
    @ ((if msg_u16 (slot_Msg s i) 24 = 15 then [RTMPSendWirelessEvent 0x020B] else []) @ (if msg_u16 (slot_Msg s i) 24 = 16 then [RTMPSendWirelessEvent 0x020A] else [])
       @ [RTMPSendWirelessEvent 0x0202])
    @ LinkDown True # (if au_PortSecured s = 2 \<and> (au_AuthMode s = 4 \<or> au_AuthMode s = 7) then [IterateOnBssTab] else [])"
  using assms by (simp add: PeerDeauthAction_def PeerDeauthSanity_def from_our_ap_def Let_def au_emit_def)

lemma deauth_foreign: "\<not> from_our_ap s (slot_Msg s i) \<Longrightarrow> PeerDeauthAction s i = s"
  by (auto simp: PeerDeauthAction_def PeerDeauthSanity_def from_our_ap_def)

text \<open>C20: only the access point of the station ends its link.  A deauthentication frame makes \<^verbatim>\<open>PeerDeauthAction\<close> call \<^verbatim>\<open>LinkDown\<close>, once, exactly when the
  station is in an infrastructure network and the frame goes from its access point to it or to all; any other frame
  changes nothing.  The next access point of the table is tried exactly when the port is still closed under a
  pre-shared key.\<close>

theorem PeerDeauthAction_link:
  "(\<not> from_our_ap s (slot_Msg s i) \<longrightarrow> PeerDeauthAction s i = s)
    \<and> filter (\<lambda>e. e = LinkDown True) (drop (length (au_Log s)) (au_Log (PeerDeauthAction s i))) = (if from_our_ap s (slot_Msg s i) then [LinkDown True] else [])
    \<and> (IterateOnBssTab \<in> set (drop (length (au_Log s)) (au_Log (PeerDeauthAction s i)))
      \<longleftrightarrow> from_our_ap s (slot_Msg s i) \<and> au_PortSecured s = WPA_802_1X_PORT_NOT_SECURED
        \<and> (au_AuthMode s = Ndis802_11AuthModeWPAPSK \<or> au_AuthMode s = Ndis802_11AuthModeWPA2PSK))"
proof (cases "from_our_ap s (slot_Msg s i)")
  case True
  then show ?thesis by (simp add: deauth_ours)
next
  case False
  then show ?thesis by (simp add: deauth_foreign)
qed

definition deauth0 :: AUTH_ADAPTER where
  "deauth0 = auth0\<lparr>au_InfraOn := True, ad_Queue := (ad_Queue auth0)\<lparr>mq_Entry := [elem0\<lparr>me_Msg := [0xc0, 0, 0, 0] @ replicate 6 0xff @ replicate 14 0 @ [3, 0]\<rparr>]\<rparr>\<rparr>"

theorem PeerDeauthAction_link_witness: "filter (\<lambda>e. e = LinkDown True) (au_Log (PeerDeauthAction deauth0 0)) = [LinkDown True]"
proof -
  have "au_Log deauth0 = []" "au_InfraOn deauth0" "take 6 (drop 4 (slot_Msg deauth0 0)) = BROADCAST_ADDR"
    "take 6 (drop 10 (slot_Msg deauth0 0)) = au_ApBssid deauth0" "take 6 (drop 16 (slot_Msg deauth0 0)) = au_ApBssid deauth0"
    by (simp_all add: deauth0_def auth0_def MlmeInit_def slot_Msg_def BROADCAST_ADDR_def numeral_eq_Suc)
  then show ?thesis using PeerDeauthAction_link [of deauth0 0] by (simp add: from_our_ap_def)
qed

end
